(* ===== verification/Prelude.thy ===== *)
theory Prelude
  imports Main "HOL-Library.Multiset" "HOL-Library.Char_ord" "HOL-Library.List_Lexorder" "HOL-Library.Product_Lexorder"
begin

text \<open>
  What every component of the development shares: the Python built-ins the sources use on
  strings, numbers and dictionaries, as executable functions, with the general lemmas on lists
  and association lists the components' proofs rest on.

  A Python \<open>str\<close> is a \<^typ>\<open>string\<close>, one character per code point below 256. A value that may be
  missing or null in a row (\<open>row.get("x")\<close>) is an \<^typ>\<open>'a option\<close>; \<open>x or d\<close> is written out by
  \<open>or_str\<close> and \<open>or_int\<close>, which fall through to \<open>d\<close> on a missing value and on a falsy one, as
  Python does. Strings compare by code point (\<open>HOL-Library.List_Lexorder\<close>), pairs
  lexicographically, as Python's \<open>sorted\<close> compares them, and \<open>sorted(xs, key=f)\<close> is
  \<^const>\<open>sort_key\<close>, which is stable as Python's sort is.
\<close>

named_theorems py_simps \<open>unfolding rules for the Python built-ins\<close>

section \<open>Falsy values\<close>

definition or_str :: "string option \<Rightarrow> string \<Rightarrow> string" where
  "or_str v d = (case v of None \<Rightarrow> d | Some s \<Rightarrow> if s = [] then d else s)"

definition or_int :: "int option \<Rightarrow> int \<Rightarrow> int" where
  "or_int v d = (case v of None \<Rightarrow> d | Some n \<Rightarrow> if n = 0 then d else n)"

definition truthy_str :: "string option \<Rightarrow> bool" where
  "truthy_str v = (case v of None \<Rightarrow> False | Some s \<Rightarrow> s \<noteq> [])"

definition truthy :: "bool option \<Rightarrow> bool" where
  "truthy v = (v = Some True)"

lemma or_str_simps [simp]:
  "or_str None d = d" "or_str (Some []) d = d" "or_str (Some (c # s)) d = c # s"
  by (simp_all add: or_str_def)

lemma or_int_simps [simp]:
  "or_int None d = d" "or_int (Some 0) d = d" "n \<noteq> 0 \<Longrightarrow> or_int (Some n) d = n"
  by (simp_all add: or_int_def)

lemma or_int_zero: "or_int v 0 = (case v of None \<Rightarrow> 0 | Some n \<Rightarrow> n)"
  by (simp add: or_int_def split: option.splits)

lemma truthy_simps [simp]: "truthy None = False" "truthy (Some b) = b"
  by (simp_all add: truthy_def)

lemma truthy_str_simps [simp]:
  "truthy_str None = False" "truthy_str (Some s) = (s \<noteq> [])"
  by (simp_all add: truthy_str_def)

section \<open>Strings\<close>

abbreviation quote_char :: char where
  "quote_char \<equiv> CHR 0x27"

definition is_ws :: "char \<Rightarrow> bool" where
  "is_ws c = (let n = (of_char c :: nat)
     in n = 32 \<or> (9 \<le> n \<and> n \<le> 13) \<or> (28 \<le> n \<and> n \<le> 31) \<or> n = 133 \<or> n = 160)"

definition is_digit :: "char \<Rightarrow> bool" where
  "is_digit c = (let n = (of_char c :: nat) in 48 \<le> n \<and> n \<le> 57)"

definition is_alpha :: "char \<Rightarrow> bool" where
  "is_alpha c = (let n = (of_char c :: nat)
     in (65 \<le> n \<and> n \<le> 90) \<or> (97 \<le> n \<and> n \<le> 122))"

definition is_alnum :: "char \<Rightarrow> bool" where
  "is_alnum c = (is_alpha c \<or> is_digit c)"

definition strip :: "string \<Rightarrow> string" where
  "strip s = rev (dropWhile is_ws (rev (dropWhile is_ws s)))"

definition lower_char :: "char \<Rightarrow> char" where
  "lower_char c = (let n = (of_char c :: nat)
     in if (65 \<le> n \<and> n \<le> 90) \<or> (192 \<le> n \<and> n \<le> 222 \<and> n \<noteq> 215) then char_of (n + 32) else c)"

lemma lower_char_eq:
  "lower_char c = d \<longleftrightarrow> (let n = (of_char c :: nat)
     in (if (65 \<le> n \<and> n \<le> 90) \<or> (192 \<le> n \<and> n \<le> 222 \<and> n \<noteq> 215) then n + 32 else n) = of_char d)"
  by (subst of_char_eq_iff [symmetric, where ?'a = nat]) (auto simp: lower_char_def Let_def)

lemma char_eq_code: "c = d \<longleftrightarrow> (of_char c :: nat) = of_char d"
  by simp

definition lower :: "string \<Rightarrow> string" where
  "lower s = map lower_char s"

fun starts_with :: "string \<Rightarrow> string \<Rightarrow> bool" where
  "starts_with s [] = True"
| "starts_with [] (p # ps) = False"
| "starts_with (c # s) (p # ps) = (c = p \<and> starts_with s ps)"

definition ends_with :: "string \<Rightarrow> string \<Rightarrow> bool" where
  "ends_with s suf = starts_with (rev s) (rev suf)"

fun contains :: "string \<Rightarrow> string \<Rightarrow> bool" where
  "contains [] p = (p = [])"
| "contains (c # s) p = (starts_with (c # s) p \<or> contains s p)"

fun join :: "string \<Rightarrow> string list \<Rightarrow> string" where
  "join sep [] = []"
| "join sep [x] = x"
| "join sep (x # y # xs) = x @ sep @ join sep (y # xs)"

fun split_on :: "char \<Rightarrow> string \<Rightarrow> string list" where
  "split_on c [] = [[]]"
| "split_on c (x # xs) =
     (if x = c then [] # split_on c xs
      else (case split_on c xs of [] \<Rightarrow> [[x]] | w # ws \<Rightarrow> (x # w) # ws))"

lemma starts_with_append [simp]: "starts_with (p @ s) p"
  by (induction p) auto

lemma starts_with_iff: "starts_with s p \<longleftrightarrow> (\<exists>r. s = p @ r)"
  by (induction s p rule: starts_with.induct) auto

lemma ends_with_iff: "ends_with s suf \<longleftrightarrow> (\<exists>r. s = r @ suf)"
proof
  assume "ends_with s suf"
  then obtain r where "rev s = rev suf @ r"
    by (auto simp: ends_with_def starts_with_iff)
  then have "s = rev r @ suf"
    by (metis rev_append rev_rev_ident)
  then show "\<exists>r. s = r @ suf" ..
qed (auto simp: ends_with_def)

lemma contains_iff: "contains s p \<longleftrightarrow> (\<exists>a b. s = a @ p @ b)"
proof (induction s p rule: contains.induct)
  case (2 c s p)
  show ?case
  proof
    assume "contains (c # s) p"
    then consider "starts_with (c # s) p" | "contains s p" by auto
    then show "\<exists>a b. c # s = a @ p @ b"
    proof cases
      case 1
      then obtain r where "c # s = [] @ p @ r" by (auto simp: starts_with_iff)
      then show ?thesis by blast
    next
      case 2
      with "2.IH" obtain a b where "s = a @ p @ b" by blast
      then have "c # s = (c # a) @ p @ b" by simp
      then show ?thesis by blast
    qed
  next
    assume "\<exists>a b. c # s = a @ p @ b"
    then obtain a b where ab: "c # s = a @ p @ b" by blast
    show "contains (c # s) p"
    proof (cases a)
      case Nil
      with ab have "starts_with (c # s) p" by (auto simp: starts_with_iff)
      then show ?thesis by simp
    next
      case (Cons x a')
      with ab have "s = a' @ p @ b" by simp
      with "2.IH" show ?thesis by auto
    qed
  qed
qed auto

lemma split_on_plain: "c \<notin> set d \<Longrightarrow> split_on c d = [d]"
  by (induction d) auto

lemma split_on_cut: "c \<notin> set d \<Longrightarrow> split_on c (d @ c # r) = d # split_on c r"
  by (induction d) auto

section \<open>Numbers in decimal\<close>

definition digit_char :: "nat \<Rightarrow> char" where
  "digit_char d = char_of (48 + d)"

fun show_nat :: "nat \<Rightarrow> string" where
  "show_nat n = (if n < 10 then [digit_char n] else show_nat (n div 10) @ [digit_char (n mod 10)])"

declare show_nat.simps [simp del]

definition show_int :: "int \<Rightarrow> string" where
  "show_int i = (if i < 0 then CHR ''-'' # show_nat (nat (- i)) else show_nat (nat i))"

definition digit_val :: "char \<Rightarrow> nat" where
  "digit_val c = of_char c - 48"

definition read_nat :: "string \<Rightarrow> nat" where
  "read_nat s = foldl (\<lambda>n c. 10 * n + digit_val c) 0 s"

lemma of_char_digit_char: "d < 10 \<Longrightarrow> of_char (digit_char d) = (48 + d :: nat)"
  by (simp add: digit_char_def of_char_of)

lemma digit_val_digit_char [simp]: "d < 10 \<Longrightarrow> digit_val (digit_char d) = d"
  by (simp add: digit_val_def of_char_digit_char)

lemma is_digit_digit_char [simp]: "d < 10 \<Longrightarrow> is_digit (digit_char d)"
  by (simp add: is_digit_def of_char_digit_char)

lemma show_nat_digits: "\<forall>c \<in> set (show_nat n). is_digit c"
proof (induction n rule: show_nat.induct)
  case (1 n)
  then show ?case
    by (cases "n < 10") (auto simp: show_nat.simps [of n])
qed

lemma show_nat_nonempty [simp]: "show_nat n \<noteq> []"
  by (subst show_nat.simps) simp

lemma read_show_nat [simp]: "read_nat (show_nat n) = n"
proof (induction n rule: show_nat.induct)
  case (1 n)
  then show ?case
    by (cases "n < 10") (auto simp: show_nat.simps [of n] read_nat_def)
qed

lemma show_nat_inject [simp]: "show_nat m = show_nat n \<longleftrightarrow> m = n"
  by (metis read_show_nat)

lemma show_nat_no_minus: "CHR ''-'' \<notin> set (show_nat n)"
  using show_nat_digits [of n] by (auto simp: is_digit_def)

lemma show_int_inject [simp]: "show_int i = show_int j \<longleftrightarrow> i = j"
proof
  assume eq: "show_int i = show_int j"
  have hd: "(hd (show_int k) = CHR ''-'') = (k < 0)" for k
    using show_nat_no_minus [of "nat k"] hd_in_set [OF show_nat_nonempty [of "nat k"]]
    by (cases "k < 0") (auto simp: show_int_def simp del: hd_in_set)
  then have sign: "(i < 0) = (j < 0)" using eq by metis
  show "i = j"
    using eq sign by (cases "i < 0") (auto simp: show_int_def)
qed simp

text \<open>
  \<open>int(x)\<close> for the values the sources pass it: a number, the text of one (surrounding white space,
  one sign, single underscores between digits), or nothing.
\<close>

datatype pynum = Num int | Text string | Nothing

fun int_digits :: "bool \<Rightarrow> nat \<Rightarrow> string \<Rightarrow> nat option" where
  "int_digits after n [] = (if after then Some n else None)"
| "int_digits after n (c # cs) =
     (if is_digit c then int_digits True (10 * n + digit_val c) cs
      else if c = CHR ''_'' \<and> after then int_digits False n cs
      else None)"

definition int_of_text :: "string \<Rightarrow> int option" where
  "int_of_text s = (case strip s of
       [] \<Rightarrow> None
     | c # cs \<Rightarrow>
         if c = CHR ''-'' then map_option (\<lambda>n. - int n) (int_digits False 0 cs)
         else if c = CHR ''+'' then map_option int (int_digits False 0 cs)
         else map_option int (int_digits False 0 (c # cs)))"

definition py_int :: "pynum \<Rightarrow> int option" where
  "py_int v = (case v of Num n \<Rightarrow> Some n | Text s \<Rightarrow> int_of_text s | Nothing \<Rightarrow> None)"

lemma py_int_simps [simp]: "py_int (Num n) = Some n" "py_int Nothing = None"
  by (simp_all add: py_int_def)

section \<open>Identifiers\<close>

text \<open>
  The name shape used throughout: \<open>\A[A-Za-z0-9][A-Za-z0-9_.-]{0,n}\Z\<close> (\<open>NAME_RE\<close> with n = 62).
\<close>

definition name_char :: "char \<Rightarrow> bool" where
  "name_char c = (is_alnum c \<or> c = CHR ''_'' \<or> c = CHR ''.'' \<or> c = CHR ''-'')"

definition name_shape :: "nat \<Rightarrow> string \<Rightarrow> bool" where
  "name_shape n s = (case s of [] \<Rightarrow> False
     | c # cs \<Rightarrow> is_alnum c \<and> length cs \<le> n \<and> list_all name_char cs)"

lemma name_shape_length: "name_shape n s \<Longrightarrow> s \<noteq> [] \<and> length s \<le> Suc n"
  by (auto simp: name_shape_def split: list.splits)

lemma name_shape_chars: "name_shape n s \<Longrightarrow> \<forall>c \<in> set s. name_char c"
  by (auto simp: name_shape_def name_char_def list_all_iff split: list.splits)

lemma name_char_not_quote: "name_char c \<Longrightarrow> c \<noteq> quote_char"
  by (auto simp: name_char_def is_alnum_def is_alpha_def is_digit_def)

lemma name_shape_no_quote: "name_shape n s \<Longrightarrow> quote_char \<notin> set s"
  using name_shape_chars name_char_not_quote by blast

text \<open>A computation known to succeed.\<close>

lemma case_InrE: "(case x of Inl _ \<Rightarrow> False | Inr p \<Rightarrow> P p) \<Longrightarrow> \<exists>p. x = Inr p \<and> P p"
  by (cases x) auto

section \<open>Dictionaries in insertion order\<close>

text \<open>
  Where iteration order matters a \<open>dict\<close> is an association list in insertion order:
  \<open>dict_set\<close> is \<open>d[k] = v\<close> (a key keeps its place when overwritten), \<open>dict_append\<close> is
  \<open>d.setdefault(k, []).append(v)\<close>.
\<close>

fun dict_set :: "'k \<Rightarrow> 'v \<Rightarrow> ('k \<times> 'v) list \<Rightarrow> ('k \<times> 'v) list" where
  "dict_set k v [] = [(k, v)]"
| "dict_set k v ((a, b) # d) = (if a = k then (k, v) # d else (a, b) # dict_set k v d)"

definition dict_append :: "'k \<Rightarrow> 'v \<Rightarrow> ('k \<times> 'v list) list \<Rightarrow> ('k \<times> 'v list) list" where
  "dict_append k v d = dict_set k ((case map_of d k of None \<Rightarrow> [] | Some vs \<Rightarrow> vs) @ [v]) d"

lemma map_of_dict_set [simp]: "map_of (dict_set k v d) = (map_of d)(k \<mapsto> v)"
  by (induction k v d rule: dict_set.induct) (auto simp: fun_eq_iff)

lemma dict_set_keys: "fst ` set (dict_set k v d) = insert k (fst ` set d)"
  by (induction k v d rule: dict_set.induct) auto

lemma dict_set_distinct: "distinct (map fst d) \<Longrightarrow> distinct (map fst (dict_set k v d))"
proof (induction k v d rule: dict_set.induct)
  case (2 k v a b d)
  then show ?case using dict_set_keys [of k v d] by (auto simp: image_iff)
qed simp

lemma map_of_dict_append:
  "map_of (dict_append k v d) =
     (map_of d)(k \<mapsto> (case map_of d k of None \<Rightarrow> [] | Some vs \<Rightarrow> vs) @ [v])"
  by (simp add: dict_append_def)

lemma dict_append_distinct: "distinct (map fst d) \<Longrightarrow> distinct (map fst (dict_append k v d))"
  by (simp add: dict_append_def dict_set_distinct)

text \<open>A dict comprehension over a list of rows: the last row of a key wins.\<close>

definition dict_of :: "('a \<Rightarrow> 'k) \<Rightarrow> 'a list \<Rightarrow> 'k \<Rightarrow> 'a option" where
  "dict_of key rows k = List.find (\<lambda>r. key r = k) (rev rows)"

lemma dict_of_Some: "dict_of key rows k = Some r \<Longrightarrow> r \<in> set rows \<and> key r = k"
  by (auto simp: dict_of_def find_Some_iff) (metis nth_mem set_rev length_rev)

lemma dict_of_None: "dict_of key rows k = None \<longleftrightarrow> (\<forall>r \<in> set rows. key r \<noteq> k)"
  by (auto simp: dict_of_def find_None_iff)

section \<open>Sorted lists\<close>

lemma sort_key_filter_member [simp]: "x \<in> set (sort_key f (filter P xs)) \<longleftrightarrow> x \<in> set xs \<and> P x"
  by auto

lemma sorted_key_take_drop:
  assumes "a \<in> set (take n (sort_key f xs))" and "b \<in> set (drop n (sort_key f xs))"
  shows "f a \<le> f b"
proof -
  have "sorted (map f (sort_key f xs))" by simp
  then have "sorted (map f (take n (sort_key f xs)) @ map f (drop n (sort_key f xs)))"
    by (metis append_take_drop_id map_append)
  then show ?thesis using assms by (auto simp: sorted_append)
qed

lemma distinct_map_sort_key: "distinct (map g (sort_key f xs)) = distinct (map g xs)"
proof -
  have "mset (map g (sort_key f xs)) = mset (map g xs)" by simp
  then show ?thesis by (metis mset_eq_imp_distinct_iff)
qed

end
