(* ===== verification/Machines.thy ===== *)
theory Machines
  imports Main
begin

text \<open>
  Labelled state machines, shared by every component that is one: reachability from the initial
  states, runs with the list of their labels, and the interface \<open>safe_machine\<close> by which a component
  shows an invariant of its single steps and obtains it for every reachable state.
\<close>

inductive reach :: "('s \<Rightarrow> bool) \<Rightarrow> ('s \<Rightarrow> 'l \<Rightarrow> 's \<Rightarrow> bool) \<Rightarrow> 's \<Rightarrow> bool"
  for init step where
  reach_init: "init s \<Longrightarrow> reach init step s"
| reach_step: "reach init step s \<Longrightarrow> step s l t \<Longrightarrow> reach init step t"

inductive run_of :: "('s \<Rightarrow> 'l \<Rightarrow> 's \<Rightarrow> bool) \<Rightarrow> 's \<Rightarrow> 'l list \<Rightarrow> 's \<Rightarrow> bool"
  for step where
  run_nil: "run_of step s [] s"
| run_cons: "step s l t \<Longrightarrow> run_of step t ls u \<Longrightarrow> run_of step s (l # ls) u"

lemma run_of_append: "run_of step s xs t \<Longrightarrow> run_of step t ys u \<Longrightarrow> run_of step s (xs @ ys) u"
  by (induction rule: run_of.induct) (auto intro: run_of.intros)

lemma run_of_reach: "run_of step s ls t \<Longrightarrow> reach init step s \<Longrightarrow> reach init step t"
  by (induction rule: run_of.induct) (auto intro: reach_step)

locale safe_machine =
  fixes init :: "'s \<Rightarrow> bool"
    and step :: "'s \<Rightarrow> 'l \<Rightarrow> 's \<Rightarrow> bool"
    and inv :: "'s \<Rightarrow> bool"
  assumes inv_init: "init s \<Longrightarrow> inv s"
    and inv_step: "inv s \<Longrightarrow> step s l t \<Longrightarrow> inv t"
begin

lemma inv_reach: "reach init step s \<Longrightarrow> inv s"
  by (induction rule: reach.induct) (auto intro: inv_init inv_step)

lemma inv_run: "run_of step s ls t \<Longrightarrow> inv s \<Longrightarrow> inv t"
  by (induction rule: run_of.induct) (auto intro: inv_step)

lemma inv_reach_step: "reach init step s \<Longrightarrow> step s l t \<Longrightarrow> inv s \<and> inv t"
  using inv_reach inv_step by blast

end

end
