(* ===== verification/Failover.thy ===== *)
theory Failover
  imports Prelude Machines
begin

text \<open>
  Failover and failback of a replicated set (\<open>src/rauru_failover.py\<close>): the pure state machine
  \<open>step\<close>, every refusal a value of \<open>refusal\<close>, every action handed to a driver a value of
  \<open>action\<close>. The driver that would carry the actions out does not exist in the source; it is a parameter
  here, of which no more is asked than that starting and stopping a guest does so at the named site
  (\<open>obeys\<close>). \<open>site_step\<close> composes the machine with a driver, so that claims about a guest running twice, or
  nowhere, can be stated. The guest at the original site may also stop and start on its own: software
  that reaches one site cannot rule that out.
\<close>

section \<open>States, events, actions\<close>

datatype fstate =
    Replicating | Running_At_Target | Failback_Syncing | Failback_Ready | Cutting_Over | Split_Brain

datatype site = Source | Target

record set_state =
  fs_state :: fstate
  fs_site :: site
  rpo_seconds :: "int option"
  fs_note :: string

definition site_name :: "site \<Rightarrow> string" where
  "site_name s = (case s of Source \<Rightarrow> ''source'' | Target \<Rightarrow> ''target'')"

text \<open>What the original site is reported to be doing (\<open>event["source_state"]\<close>).\<close>

datatype reported = Reports_Running | Reports_Stopped | Reports_Reachable | Reports_Other

datatype evkind =
    Ev_Resolve | Ev_Source_Running | Ev_Failover | Ev_Failback | Ev_Delta_Caught_Up | Ev_Cutover
  | Ev_Final_Delta_Verified | Ev_Abort_Failback | Ev_Unknown string

record event =
  kind :: evkind
  winner :: "site option"
  operator :: bool
  snapshot_visible :: bool
  source_state :: reported
  accept_risk :: bool
  snapshot_age :: "int option"
  visible_at_source :: bool

datatype alert =
    Copy_Stopped site | Both_Running | Failed_Over "int option" | Final_Delta_Unconfirmed

datatype action =
    Clone_Members | Rebuild_Definition | Start_Guest site | Stop_Guest site | Reverse_Replicate
  | Final_Delta | Verify_Visible site | Retire_Target_Copy | Alert alert

datatype refusal =
    Only_Resolve | Resolve_Needs_Winner | Not_Replicating fstate | Failover_Needs_Operator
  | Nothing_Visible | Source_Runs | Source_May_Run | Not_Running_At_Target fstate
  | Source_Unreachable | Not_Syncing fstate | Not_Ready fstate | Cutover_Needs_Operator
  | Not_Cutting_Over fstate | Not_Abortable fstate | Means_Nothing evkind fstate

definition other_site :: "site \<Rightarrow> site" where
  "other_site s = (case s of Source \<Rightarrow> Target | Target \<Rightarrow> Source)"

definition initial_set :: set_state where
  "initial_set = \<lparr>fs_state = Replicating, fs_site = Source, rpo_seconds = None, fs_note = []\<rparr>"

definition go :: "set_state \<Rightarrow> fstate \<Rightarrow> site option \<Rightarrow> int option \<Rightarrow> string \<Rightarrow> set_state" where
  "go old st site' rpo txt =
     \<lparr>fs_state = st, fs_site = (case site' of None \<Rightarrow> fs_site old | Some s \<Rightarrow> s),
      rpo_seconds = rpo, fs_note = txt\<rparr>"

section \<open>The transition function\<close>

definition step :: "set_state \<Rightarrow> event \<Rightarrow> refusal + set_state \<times> action list" where
  "step cur ev =
     (let st = fs_state cur; rpo = rpo_seconds cur in
      if st = Split_Brain then
        (if kind ev \<noteq> Ev_Resolve then Inl Only_Resolve
         else (case winner ev of
             None \<Rightarrow> Inl Resolve_Needs_Winner
           | Some w \<Rightarrow>
               Inr (go cur (if w = Source then Replicating else Running_At_Target) (Some w) rpo
                      (''split brain resolved; the '' @ site_name (other_site w)
                         @ '' copy was discarded by the operator''),
                    [Stop_Guest (other_site w), Alert (Copy_Stopped (other_site w))])))
      else if kind ev = Ev_Source_Running
           \<and> st \<in> {Running_At_Target, Failback_Syncing, Failback_Ready, Cutting_Over} then
        Inr (go cur Split_Brain None rpo ''the original site reports the guest running'',
             [Alert Both_Running])
      else if kind ev = Ev_Failover then
        (if st \<noteq> Replicating then Inl (Not_Replicating st)
         else if \<not> operator ev then Inl Failover_Needs_Operator
         else if \<not> snapshot_visible ev then Inl Nothing_Visible
         else if source_state ev = Reports_Running then Inl Source_Runs
         else if source_state ev \<noteq> Reports_Stopped \<and> \<not> accept_risk ev then Inl Source_May_Run
         else Inr (go cur Running_At_Target (Some Target) (snapshot_age ev) [],
                   [Clone_Members, Rebuild_Definition, Start_Guest Target,
                    Alert (Failed_Over (snapshot_age ev))]))
      else if kind ev = Ev_Failback then
        (if st \<noteq> Running_At_Target then Inl (Not_Running_At_Target st)
         else if source_state ev \<noteq> Reports_Reachable then Inl Source_Unreachable
         else Inr (go cur Failback_Syncing None rpo [], [Reverse_Replicate]))
      else if kind ev = Ev_Delta_Caught_Up then
        (if st \<noteq> Failback_Syncing then Inl (Not_Syncing st)
         else Inr (go cur Failback_Ready None rpo [], []))
      else if kind ev = Ev_Cutover then
        (if st \<noteq> Failback_Ready then Inl (Not_Ready st)
         else if \<not> operator ev then Inl Cutover_Needs_Operator
         else Inr (go cur Cutting_Over None rpo [],
                   [Stop_Guest Target, Final_Delta, Verify_Visible Source]))
      else if kind ev = Ev_Final_Delta_Verified then
        (if st \<noteq> Cutting_Over then Inl (Not_Cutting_Over st)
         else if \<not> visible_at_source ev then
           Inr (go cur Cutting_Over None rpo ''final delta not visible at the original site'',
                [Alert Final_Delta_Unconfirmed])
         else Inr (go cur Replicating (Some Source) rpo [],
                   [Start_Guest Source, Retire_Target_Copy]))
      else if kind ev = Ev_Abort_Failback then
        (if st \<noteq> Failback_Syncing \<and> st \<noteq> Failback_Ready then Inl (Not_Abortable st)
         else Inr (go cur Running_At_Target None rpo [], []))
      else Inl (Means_Nothing (kind ev) st))"

lemmas failover_step_simps = step_def go_def Let_def

section \<open>What the actions do at the two sites\<close>

text \<open>
  The sites as a driver leaves them: whether the guest runs at the original site and at the target.
\<close>

record sites =
  ctl :: set_state
  at_source :: bool
  at_target :: bool

text \<open>The contract of a driver.\<close>

definition obeys :: "(action \<Rightarrow> sites \<Rightarrow> sites) \<Rightarrow> bool" where
  "obeys drive \<longleftrightarrow> (\<forall>a g. ctl (drive a g) = ctl g
     \<and> at_source (drive a g) = (if a = Start_Guest Source then True else if a = Stop_Guest Source then False else at_source g)
     \<and> at_target (drive a g) = (if a = Start_Guest Target then True else if a = Stop_Guest Target then False else at_target g))"

fun carry_out :: "(action \<Rightarrow> sites \<Rightarrow> sites) \<Rightarrow> action list \<Rightarrow> sites \<Rightarrow> sites" where
  "carry_out drive [] g = g"
| "carry_out drive (a # as) g = carry_out drive as (drive a g)"

text \<open>A driver that does just that.\<close>

definition plain_driver :: "action \<Rightarrow> sites \<Rightarrow> sites" where
  "plain_driver a g =
     (case a of
        Start_Guest Source \<Rightarrow> g\<lparr>at_source := True\<rparr> | Start_Guest Target \<Rightarrow> g\<lparr>at_target := True\<rparr>
      | Stop_Guest Source \<Rightarrow> g\<lparr>at_source := False\<rparr> | Stop_Guest Target \<Rightarrow> g\<lparr>at_target := False\<rparr>
      | _ \<Rightarrow> g)"

lemma plain_obeys: "obeys plain_driver"
  by (auto simp: obeys_def plain_driver_def split: action.splits site.splits)

definition sites_init :: "sites \<Rightarrow> bool" where
  "sites_init g = (g = \<lparr>ctl = initial_set, at_source = True, at_target = False\<rparr>)"

text \<open>
  One step of the whole: the machine accepts an event and the driver carries its actions out, or
  the original site stops or starts the guest by itself. A failover that names the original site
  stopped is one whose report is true (\<open>truthful\<close>); a report that is not is the risk the
  operator takes with \<open>accept_risk\<close>.
\<close>

definition truthful :: "sites \<Rightarrow> event \<Rightarrow> bool" where
  "truthful g ev = (source_state ev = Reports_Stopped \<longrightarrow> \<not> at_source g)"

datatype site_event = Machine event | Source_Stops | Source_Starts

inductive site_step :: "(action \<Rightarrow> sites \<Rightarrow> sites) \<Rightarrow> sites \<Rightarrow> site_event \<Rightarrow> sites \<Rightarrow> bool" for drive where
  machine: "truthful g ev \<Longrightarrow> step (ctl g) ev = Inr (s', as) \<Longrightarrow>
     site_step drive g (Machine ev) (carry_out drive as (g\<lparr>ctl := s'\<rparr>))"
| stops: "site_step drive g Source_Stops (g\<lparr>at_source := False\<rparr>)"
| starts: "site_step drive g Source_Starts (g\<lparr>at_source := True\<rparr>)"

inductive_cases machineE: "site_step drive g (Machine ev) h"
inductive_cases stopsE: "site_step drive g Source_Stops h"
inductive_cases startsE: "site_step drive g Source_Starts h"

text \<open>
  What the machine's state says about the target: with the set replicating or cutting over the
  guest is stopped there, and the recorded site matches the state.
\<close>

definition sites_inv :: "sites \<Rightarrow> bool" where
  "sites_inv g =
     (case fs_state (ctl g) of
        Replicating \<Rightarrow> fs_site (ctl g) = Source \<and> \<not> at_target g
      | Cutting_Over \<Rightarrow> fs_site (ctl g) = Target \<and> \<not> at_target g
      | _ \<Rightarrow> fs_site (ctl g) = Target)"

lemma sites_inv_step: "obeys drive \<Longrightarrow> sites_inv g \<Longrightarrow> site_step drive g l h \<Longrightarrow> sites_inv h"
proof (cases l)
  case (Machine ev)
  assume obeys: "obeys drive" and inv: "sites_inv g" and st: "site_step drive g l h"
  from st Machine obtain s' as where step': "step (ctl g) ev = Inr (s', as)"
    and h: "h = carry_out drive as (g\<lparr>ctl := s'\<rparr>)" by (auto elim: machineE)
  note does = obeys [unfolded obeys_def, rule_format]
  show ?thesis using inv step' h
    by (cases "fs_state (ctl g)")
       (auto simp: sites_inv_def does failover_step_simps other_site_def split: if_splits option.splits site.splits fstate.splits)
qed (auto simp: sites_inv_def elim!: stopsE startsE split: fstate.splits)

lemma sites_safe: "obeys drive \<Longrightarrow> safe_machine sites_init (site_step drive) sites_inv"
  by unfold_locales (simp add: sites_init_def sites_inv_def initial_set_def, rule sites_inv_step)

interpretation fo: safe_machine sites_init "site_step plain_driver" sites_inv
  using plain_obeys by (rule sites_safe)

section \<open>Running the machine\<close>

text \<open>An executable run, for building concrete runs: refused events stop it.\<close>

definition exec1 :: "(action \<Rightarrow> sites \<Rightarrow> sites) \<Rightarrow> sites \<Rightarrow> site_event \<Rightarrow> sites option" where
  "exec1 drive g l = (case l of
       Source_Stops \<Rightarrow> Some (g\<lparr>at_source := False\<rparr>)
     | Source_Starts \<Rightarrow> Some (g\<lparr>at_source := True\<rparr>)
     | Machine ev \<Rightarrow>
         (if truthful g ev then
            (case step (ctl g) ev of
               Inl r \<Rightarrow> None
             | Inr (s', as) \<Rightarrow> Some (carry_out drive as (g\<lparr>ctl := s'\<rparr>)))
          else None))"

fun exec_run :: "(action \<Rightarrow> sites \<Rightarrow> sites) \<Rightarrow> sites \<Rightarrow> site_event list \<Rightarrow> sites option" where
  "exec_run drive g [] = Some g"
| "exec_run drive g (l # ls) = (case exec1 drive g l of None \<Rightarrow> None | Some h \<Rightarrow> exec_run drive h ls)"

lemma exec1_step: "exec1 drive g l = Some h \<Longrightarrow> site_step drive g l h"
  by (auto simp: exec1_def intro: site_step.intros split: site_event.splits if_splits sum.splits prod.splits)

lemma exec_run_run_of: "exec_run drive g ls = Some h \<Longrightarrow> run_of (site_step drive) g ls h"
proof (induction drive g ls rule: exec_run.induct)
  case (2 drive g l ls)
  then show ?case by (auto intro: run_cons exec1_step split: option.splits)
qed (simp add: run_nil)

definition sites0 :: sites where
  "sites0 = \<lparr>ctl = initial_set, at_source = True, at_target = False\<rparr>"

definition ev0 :: "evkind \<Rightarrow> event" where
  "ev0 k = \<lparr>kind = k, winner = None, operator = True, snapshot_visible = True,
     source_state = Reports_Reachable, accept_risk = False, snapshot_age = Some 60,
     visible_at_source = True\<rparr>"

lemmas exec_simps = exec1_def truthful_def failover_step_simps ev0_def sites0_def initial_set_def
  other_site_def site_name_def



lemma reach_sites0: "reach sites_init (site_step drive) sites0"
  by (rule reach_init) (simp add: sites_init_def sites0_def)

section \<open>Properties\<close>

text \<open>
  Failover is never automatic and never blind: the machine orders the guest started at the
  target exactly when the set is replicating and the event is an operator's failover with a
  complete snapshot visible at the target, the original site not reported running, and either
  reported stopped or the risk accepted in the event.
\<close>

theorem failover_exactly_when:
  "(\<exists>s' as. step cur ev = Inr (s', as) \<and> Start_Guest Target \<in> set as) \<longleftrightarrow>
     fs_state cur = Replicating \<and> kind ev = Ev_Failover \<and> operator ev \<and> snapshot_visible ev
     \<and> source_state ev \<noteq> Reports_Running \<and> (source_state ev = Reports_Stopped \<or> accept_risk ev)"
  by (auto simp: failover_step_simps split: if_splits option.splits)

text \<open>
  C39. No event that claims to be safe orders a second copy. In every configuration that accepted events with
  true reports, any driver that obeys and the original site's own starts and stops lead to: an accepted event that
  does not accept the risk, and in which a report that the original site is stopped is true, orders no start of the
  guest at a site while it runs at the other.
\<close>

theorem no_second_copy:
  assumes "obeys drive" and "reach sites_init (site_step drive) g" and "truthful g ev" and "\<not> accept_risk ev"
    and "step (ctl g) ev = Inr (s', as)" and "Start_Guest x \<in> set as"
  shows "\<not> (case other_site x of Source \<Rightarrow> at_source g | Target \<Rightarrow> at_target g)"
proof -
  have inv: "sites_inv g" using safe_machine.inv_reach [OF sites_safe [OF assms(1)] assms(2)] .
  show ?thesis
    using inv assms(3-6)
    by (cases "fs_state (ctl g)"; cases x)
       (auto simp: sites_inv_def truthful_def failover_step_simps other_site_def
             split: if_splits option.splits)
qed

theorem no_second_copy_witness:
  "\<not> (case other_site Target of
        Source \<Rightarrow> at_source (sites0\<lparr>at_source := False\<rparr>)
      | Target \<Rightarrow> at_target (sites0\<lparr>at_source := False\<rparr>))
   \<and> (\<exists>s' as. step (ctl (sites0\<lparr>at_source := False\<rparr>))
                ((ev0 Ev_Failover)\<lparr>source_state := Reports_Stopped\<rparr>) = Inr (s', as)
              \<and> Start_Guest Target \<in> set as)"
proof -
  let ?g = "sites0\<lparr>at_source := False\<rparr>"
  let ?ev = "(ev0 Ev_Failover)\<lparr>source_state := Reports_Stopped\<rparr>"
  have r: "reach sites_init (site_step plain_driver) ?g"
    by (rule reach_step [OF reach_sites0 stops])
  have "truthful ?g ?ev" "\<not> accept_risk ?ev" by (simp_all add: exec_simps)
  moreover obtain s' as where st: "step (ctl ?g) ?ev = Inr (s', as)" "Start_Guest Target \<in> set as"
    by (simp add: exec_simps)
  ultimately show ?thesis using no_second_copy [OF plain_obeys r _ _ st] by blast
qed

text \<open>
  Both sites having run the guest is a state nothing leaves by itself: along any sequence of
  steps in which no operator resolves the split, a set in split brain stays there, unchanged.
\<close>

theorem split_brain_stays:
  assumes "run_of (site_step drive) g ls h" and "fs_state (ctl g) = Split_Brain"
    and "\<forall>ev. Machine ev \<in> set ls \<longrightarrow> kind ev \<noteq> Ev_Resolve"
  shows "ctl h = ctl g"
  using assms
proof (induction rule: run_of.induct)
  case (run_cons g l g1 ls h)
  have "ctl g1 = ctl g"
    using run_cons.hyps(1) run_cons.prems
    by (cases rule: site_step.cases) (auto simp: failover_step_simps)
  with run_cons show ?case by simp
qed simp

theorem split_brain_stays_witness:
  "\<exists>g ls h. run_of (site_step plain_driver) g ls h \<and> fs_state (ctl g) = Split_Brain \<and> ls \<noteq> [] \<and> ctl h = ctl g"
proof -
  let ?g = "sites0\<lparr>ctl := initial_set\<lparr>fs_state := Split_Brain\<rparr>\<rparr>"
  have r: "run_of (site_step plain_driver) ?g [Source_Stops] (?g\<lparr>at_source := False\<rparr>)"
    by (rule exec_run_run_of) (simp add: exec_simps)
  have "ctl (?g\<lparr>at_source := False\<rparr>) = ctl ?g"
    by (rule split_brain_stays [OF r]) simp_all
  with r show ?thesis by fastforce
qed



text \<open>
  A split seen while a cutover has the guest stopped at the target, resolved in favour of the
  target, leaves the guest running nowhere: the resolution stops it at the original site, nothing
  starts it at the target, and the set is recorded as running at the target.
\<close>

theorem resolve_target_can_leave_no_guest:
  "\<exists>ls g. run_of (site_step plain_driver) sites0 ls g \<and> fs_state (ctl g) = Running_At_Target
      \<and> \<not> at_source g \<and> \<not> at_target g
      \<and> last ls = Machine ((ev0 Ev_Resolve)\<lparr>winner := Some Target\<rparr>)"
proof -
  let ?ls = "[Source_Stops, Machine ((ev0 Ev_Failover)\<lparr>source_state := Reports_Stopped\<rparr>),
     Machine (ev0 Ev_Failback), Machine (ev0 Ev_Delta_Caught_Up), Machine (ev0 Ev_Cutover),
     Source_Starts, Machine (ev0 Ev_Source_Running),
     Machine ((ev0 Ev_Resolve)\<lparr>winner := Some Target\<rparr>)]"
  have "\<exists>g. exec_run plain_driver sites0 ?ls = Some g \<and> fs_state (ctl g) = Running_At_Target
           \<and> \<not> at_source g \<and> \<not> at_target g"
    by (simp add: exec_simps plain_driver_def)
  then show ?thesis using exec_run_run_of by fastforce
qed

end
