(* ===== verification/Effects.thy ===== *)
theory Effects
  imports Prelude "HOL-Library.State_Monad"
begin

text \<open>
  Programs with effects. The sources inject every effect on the outside world as a function
  (\<open>Env\<close> of \<open>helios_snapshots.py\<close> and \<open>rauru_protection.py\<close>, \<open>Remote\<close> and \<open>StateStore\<close> of
  \<open>rauru_replication.py\<close>, the executor of \<open>helios_schema.py\<close>). Here such a function is a
  parameter that answers from a hidden state of any type and may change it, so nothing is
  assumed of the database, of Sidon or of libvirt; each call made with \<open>act\<close> also leaves an event in
  a trace, and one made with \<open>look\<close> (a clock, a file read) does not. \<open>memo\<close> is the one number a
  program object keeps between its calls (\<open>TaskLog._hint\<close>).
  A computation is a value of \<open>HOL-Library.State_Monad\<close>; one that may raise returns a sum,
  \<^const>\<open>Inl\<close> for the exception.

  \<open>yields m Q\<close> says that from every state, whatever the environment answers, running \<open>m\<close> only
  appends to the trace, and the result and the events appended satisfy \<open>Q\<close>. Its rules
  (\<open>yields_intros\<close>) follow the structure of a program, so a safety property of a whole run is
  proved by applying them.
\<close>

record ('w, 'e) world =
  hidden :: 'w
  trace :: "'e list"
  memo :: "int option"

type_synonym ('w, 'e, 'a) eff = "(('w, 'e) world, 'a) state"

abbreviation ret :: "'a \<Rightarrow> ('s, 'a) state" where
  "ret \<equiv> State_Monad.return"

definition act :: "('w \<Rightarrow> 'r \<times> 'w) \<Rightarrow> ('r \<Rightarrow> 'e) \<Rightarrow> ('w, 'e, 'r) eff" where
  "act f ev = State (\<lambda>s. case f (hidden s) of
     (r, h) \<Rightarrow> (r, s\<lparr>hidden := h, trace := trace s @ [ev r]\<rparr>))"

definition look :: "('w \<Rightarrow> 'r \<times> 'w) \<Rightarrow> ('w, 'e, 'r) eff" where
  "look f = State (\<lambda>s. case f (hidden s) of (r, h) \<Rightarrow> (r, s\<lparr>hidden := h\<rparr>))"

definition get_memo :: "('w, 'e, int option) eff" where
  "get_memo = State (\<lambda>s. (memo s, s))"

definition set_memo :: "int option \<Rightarrow> ('w, 'e, unit) eff" where
  "set_memo v = State (\<lambda>s. ((), s\<lparr>memo := v\<rparr>))"

text \<open>Sequencing that stops at the first exception, and the handler.\<close>

definition bindE :: "('s, 'x + 'a) state \<Rightarrow> ('a \<Rightarrow> ('s, 'x + 'b) state) \<Rightarrow> ('s, 'x + 'b) state" where
  "bindE m f = State_Monad.bind m (\<lambda>r. case r of Inl x \<Rightarrow> ret (Inl x) | Inr a \<Rightarrow> f a)"

abbreviation okE :: "'a \<Rightarrow> ('s, 'x + 'a) state" where
  "okE a \<equiv> ret (Inr a)"

abbreviation raiseE :: "'x \<Rightarrow> ('s, 'x + 'a) state" where
  "raiseE x \<equiv> ret (Inl x)"

definition liftE :: "('s, 'a) state \<Rightarrow> ('s, 'x + 'a) state" where
  "liftE m = State_Monad.bind m (\<lambda>a. ret (Inr a))"

text \<open>A \<open>for\<close> loop over a list that threads the loop's variables, without and with exceptions.\<close>

fun for_each :: "('b \<Rightarrow> 'a \<Rightarrow> ('s, 'a) state) \<Rightarrow> 'b list \<Rightarrow> 'a \<Rightarrow> ('s, 'a) state" where
  "for_each f [] a = ret a"
| "for_each f (x # xs) a = State_Monad.bind (f x a) (\<lambda>a'. for_each f xs a')"

fun for_eachE :: "('b \<Rightarrow> 'a \<Rightarrow> ('s, 'x + 'a) state) \<Rightarrow> 'b list \<Rightarrow> 'a \<Rightarrow> ('s, 'x + 'a) state" where
  "for_eachE f [] a = okE a"
| "for_eachE f (x # xs) a = bindE (f x a) (\<lambda>a'. for_eachE f xs a')"

text \<open>A loop that an exception may leave, with what its variables held at that point.\<close>

fun for_keep :: "('b \<Rightarrow> 'a \<Rightarrow> ('s, 'x option \<times> 'a) state) \<Rightarrow> 'b list \<Rightarrow> 'a \<Rightarrow> ('s, 'x option \<times> 'a) state" where
  "for_keep f [] a = ret (None, a)"
| "for_keep f (x # xs) a = State_Monad.bind (f x a) (\<lambda>(r, a').
     case r of Some e \<Rightarrow> ret (Some e, a') | None \<Rightarrow> for_keep f xs a')"

section \<open>What a program can do to the trace\<close>

definition yields :: "('w, 'e, 'a) eff \<Rightarrow> ('a \<Rightarrow> 'e list \<Rightarrow> bool) \<Rightarrow> bool" where
  "yields m Q \<longleftrightarrow> (\<forall>s. \<exists>es. trace (snd (run_state m s)) = trace s @ es
                        \<and> Q (fst (run_state m s)) es)"

named_theorems yields_intros \<open>structural rules for \<open>yields\<close>\<close>

lemma yieldsD:
  assumes "yields m Q" and "run_state m s = (a, s')"
  obtains es where "trace s' = trace s @ es" and "Q a es"
  using assms unfolding yields_def by (metis fst_conv snd_conv)

lemma yields_mono: "yields m Q \<Longrightarrow> (\<And>a es. Q a es \<Longrightarrow> R a es) \<Longrightarrow> yields m R"
  unfolding yields_def by meson

lemma yields_conj: "yields m Q \<Longrightarrow> yields m R \<Longrightarrow> yields m (\<lambda>a es. Q a es \<and> R a es)"
  unfolding yields_def by (metis append_same_eq same_append_eq)

lemma yields_ret [yields_intros]: "Q a [] \<Longrightarrow> yields (ret a) Q"
  by (simp add: yields_def State_Monad.return_def)

lemma yields_act [yields_intros]: "(\<And>r. Q r [ev r]) \<Longrightarrow> yields (act f ev) Q"
  by (auto simp: yields_def act_def split: prod.splits)

lemma yields_look [yields_intros]: "(\<And>r. Q r []) \<Longrightarrow> yields (look f) Q"
  by (auto simp: yields_def look_def split: prod.splits)

lemma yields_get_memo [yields_intros]: "(\<And>r. Q r []) \<Longrightarrow> yields get_memo Q"
  by (auto simp: yields_def get_memo_def)

lemma yields_set_memo [yields_intros]: "Q () [] \<Longrightarrow> yields (set_memo v) Q"
  by (auto simp: yields_def set_memo_def)

lemma yields_bind [yields_intros]:
  assumes "yields m (\<lambda>a es. yields (f a) (\<lambda>b es'. Q b (es @ es')))"
  shows "yields (State_Monad.bind m f) Q"
  unfolding yields_def
proof
  fix s
  obtain a s1 where m: "run_state m s = (a, s1)" by fastforce
  from assms m obtain es where es: "trace s1 = trace s @ es"
    and f: "yields (f a) (\<lambda>b es'. Q b (es @ es'))"
    by (rule yieldsD)
  obtain b s2 where fa: "run_state (f a) s1 = (b, s2)" by fastforce
  from f fa obtain es' where "trace s2 = trace s1 @ es'" and "Q b (es @ es')"
    by (rule yieldsD)
  with es m fa show "\<exists>es. trace (snd (run_state (State_Monad.bind m f) s)) = trace s @ es
                     \<and> Q (fst (run_state (State_Monad.bind m f) s)) es"
    by (auto simp: State_Monad.bind_def)
qed

lemma yields_seq:
  assumes "yields m P" "\<And>a es. P a es \<Longrightarrow> yields (f a) (\<lambda>b es'. Q b (es @ es'))"
  shows "yields (State_Monad.bind m f) Q"
  by (rule yields_bind, rule yields_mono [OF assms(1)]) (rule assms(2))

lemma yields_bindE [yields_intros]:
  assumes "yields m (\<lambda>r es. case r of Inl x \<Rightarrow> Q (Inl x) es
                            | Inr a \<Rightarrow> yields (f a) (\<lambda>b es'. Q b (es @ es')))"
  shows "yields (bindE m f) Q"
  unfolding bindE_def
  by (rule yields_bind, rule yields_mono [OF assms]) (auto split: sum.splits intro: yields_ret)

lemma yields_liftE [yields_intros]:
  "yields m (\<lambda>a es. Q (Inr a) es) \<Longrightarrow> yields (liftE m) Q"
  unfolding liftE_def by (rule yields_bind, erule yields_mono) (simp add: yields_ret)

lemma yields_if [yields_intros]:
  "(b \<Longrightarrow> yields m Q) \<Longrightarrow> (\<not> b \<Longrightarrow> yields n Q) \<Longrightarrow> yields (if b then m else n) Q"
  by simp

lemma yields_case_option [yields_intros]:
  "(x = None \<Longrightarrow> yields m Q) \<Longrightarrow> (\<And>a. x = Some a \<Longrightarrow> yields (f a) Q) \<Longrightarrow>
   yields (case x of None \<Rightarrow> m | Some a \<Rightarrow> f a) Q"
  by (cases x) auto

lemma yields_case_sum [yields_intros]:
  "(\<And>a. x = Inl a \<Longrightarrow> yields (f a) Q) \<Longrightarrow> (\<And>b. x = Inr b \<Longrightarrow> yields (g b) Q) \<Longrightarrow>
   yields (case x of Inl a \<Rightarrow> f a | Inr b \<Rightarrow> g b) Q"
  by (cases x) auto

lemma yields_case_prod [yields_intros]:
  "(\<And>a b. x = (a, b) \<Longrightarrow> yields (f a b) Q) \<Longrightarrow> yields (case x of (a, b) \<Rightarrow> f a b) Q"
  by (cases x) auto

lemma yields_case_list [yields_intros]:
  "(x = [] \<Longrightarrow> yields m Q) \<Longrightarrow> (\<And>a b. x = a # b \<Longrightarrow> yields (f a b) Q) \<Longrightarrow>
   yields (case x of [] \<Rightarrow> m | a # b \<Rightarrow> f a b) Q"
  by (cases x) auto

lemma yields_let [yields_intros]: "yields (f x) Q \<Longrightarrow> yields (let y = x in f y) Q"
  by simp

text \<open>Loops: an invariant over the loop's variables and the events so far.\<close>

lemma yields_for_each:
  assumes step: "\<And>x a es. x \<in> set xs \<Longrightarrow> I a es \<Longrightarrow> yields (f x a) (\<lambda>a' es'. I a' (es @ es'))"
    and init: "I a pre"
  shows "yields (for_each f xs a) (\<lambda>a' es. I a' (pre @ es))"
  using step init
proof (induction xs arbitrary: a pre)
  case Nil
  then show ?case by (simp add: yields_ret)
next
  case (Cons x xs)
  have "yields (f x a) (\<lambda>a' es'. I a' (pre @ es'))" using Cons.prems by simp
  then have "yields (f x a) (\<lambda>a' es. yields (for_each f xs a') (\<lambda>b es'. I b (pre @ es @ es')))"
  proof (rule yields_mono)
    fix a' es assume "I a' (pre @ es)"
    with Cons.IH [of a' "pre @ es"] Cons.prems(1)
    show "yields (for_each f xs a') (\<lambda>b es'. I b (pre @ es @ es'))" by simp
  qed
  then show ?case by (auto intro: yields_bind)
qed

lemma yields_for_eachE:
  assumes step: "\<And>x a es. x \<in> set xs \<Longrightarrow> I a es \<Longrightarrow>
      yields (f x a) (\<lambda>r es'. case r of Inl e \<Rightarrow> J e (es @ es') | Inr a' \<Rightarrow> I a' (es @ es'))"
    and init: "I a pre"
  shows "yields (for_eachE f xs a)
           (\<lambda>r es. case r of Inl e \<Rightarrow> J e (pre @ es) | Inr a' \<Rightarrow> I a' (pre @ es))"
  using step init
proof (induction xs arbitrary: a pre)
  case Nil
  then show ?case by (simp add: yields_ret)
next
  case (Cons x xs)
  let ?Q = "\<lambda>r es. case r of Inl e \<Rightarrow> J e (pre @ es) | Inr a' \<Rightarrow> I a' (pre @ es)"
  have "yields (f x a) ?Q" using Cons.prems by simp
  then have "yields (f x a) (\<lambda>r es. case r of Inl e \<Rightarrow> ?Q (Inl e) es
      | Inr a' \<Rightarrow> yields (for_eachE f xs a') (\<lambda>b es'. ?Q b (es @ es')))"
  proof (rule yields_mono)
    fix r es assume Q: "?Q r es"
    show "case r of Inl e \<Rightarrow> ?Q (Inl e) es
      | Inr a' \<Rightarrow> yields (for_eachE f xs a') (\<lambda>b es'. ?Q b (es @ es'))"
    proof (cases r)
      case (Inr a')
      with Q Cons.IH [of a' "pre @ es"] Cons.prems(1) show ?thesis
        by (simp add: append_assoc cong: sum.case_cong)
    qed (use Q in simp)
  qed
  then show ?case by (auto intro: yields_bindE)
qed

lemma yields_for_keep:
  assumes step: "\<And>done x rest a es. xs = done @ x # rest \<Longrightarrow> I done a es \<Longrightarrow>
      yields (f x a) (\<lambda>r es'. case fst r of Some e \<Rightarrow> J e (snd r) (es @ es') | None \<Rightarrow> I (done @ [x]) (snd r) (es @ es'))"
    and init: "I [] a pre"
  shows "yields (for_keep f xs a)
           (\<lambda>r es. case fst r of Some e \<Rightarrow> J e (snd r) (pre @ es) | None \<Rightarrow> I xs (snd r) (pre @ es))"
proof -
  let ?Q = "\<lambda>pre r es. case fst r of Some e \<Rightarrow> J e (snd r) (pre @ es) | None \<Rightarrow> I xs (snd r) (pre @ es)"
  have "yields (for_keep f ys a) (?Q pre)" if "xs = zs @ ys" "I zs a pre" for zs ys a pre
    using that
  proof (induction ys arbitrary: zs a pre)
    case (Cons y ys)
    from step [OF Cons.prems]
    have "yields (f y a) (\<lambda>r es. yields (case r of (x, a') \<Rightarrow> case x of Some e \<Rightarrow> ret (Some e, a') | None \<Rightarrow> for_keep f ys a')
        (\<lambda>b es'. ?Q pre b (es @ es')))"
    proof (rule yields_mono)
      fix r es
      assume r: "case fst r of Some e \<Rightarrow> J e (snd r) (pre @ es) | None \<Rightarrow> I (zs @ [y]) (snd r) (pre @ es)"
      show "yields (case r of (x, a') \<Rightarrow> case x of Some e \<Rightarrow> ret (Some e, a') | None \<Rightarrow> for_keep f ys a')
        (\<lambda>b es'. ?Q pre b (es @ es'))"
      proof (cases "fst r")
        case None
        with r Cons.IH [of "zs @ [y]" "snd r" "pre @ es"] Cons.prems(1) show ?thesis
          by (simp add: split_beta append_assoc cong: option.case_cong)
      qed (use r in \<open>auto simp: split_beta intro!: yields_ret\<close>)
    qed
    then show ?case by (auto intro: yields_bind)
  qed (simp add: yields_ret)
  with init show ?thesis by simp
qed

text \<open>
  A property of the events of a program that holds of no events, and of two stretches of events
  together when it holds of each: it then passes through sequencing and loops.
\<close>

locale trace_property =
  fixes P :: "'e list \<Rightarrow> bool"
  assumes no_events: "P []"
    and together: "P xs \<Longrightarrow> P ys \<Longrightarrow> P (xs @ ys)"
begin

lemma of_ret: "yields (ret a) (\<lambda>_. P)"
  by (rule yields_ret) (rule no_events)

lemma of_look: "yields (look f) (\<lambda>_. P)"
  by (rule yields_look) (rule no_events)

lemma of_memo: "yields get_memo (\<lambda>_. P)" "yields (set_memo v) (\<lambda>_. P)"
  by (rule yields_get_memo, rule no_events) (rule yields_set_memo, rule no_events)

lemma of_bind: "yields m (\<lambda>_. P) \<Longrightarrow> (\<And>a. yields (f a) (\<lambda>_. P)) \<Longrightarrow> yields (State_Monad.bind m f) (\<lambda>_. P)"
  by (rule yields_bind, erule yields_mono) (auto intro: yields_mono together)

lemma of_bindE: "yields m (\<lambda>_. P) \<Longrightarrow> (\<And>a. yields (f a) (\<lambda>_. P)) \<Longrightarrow> yields (bindE m f) (\<lambda>_. P)"
  by (rule yields_bindE, erule yields_mono) (auto intro: yields_mono together split: sum.splits)

lemma of_liftE: "yields m (\<lambda>_. P) \<Longrightarrow> yields (liftE m) (\<lambda>_. P)"
  by (rule yields_liftE)

lemma of_for_each:
  assumes "\<And>x a. x \<in> set xs \<Longrightarrow> yields (f x a) (\<lambda>_. P)"
  shows "yields (for_each f xs a) (\<lambda>_. P)"
  using assms by (induction xs arbitrary: a) (auto intro!: of_ret of_bind)

lemma of_for_eachE:
  assumes "\<And>x a. x \<in> set xs \<Longrightarrow> yields (f x a) (\<lambda>_. P)"
  shows "yields (for_eachE f xs a) (\<lambda>_. P)"
  using assms by (induction xs arbitrary: a) (auto intro!: of_ret of_bindE)

lemma of_for_keep:
  assumes "\<And>x a. x \<in> set xs \<Longrightarrow> yields (f x a) (\<lambda>_. P)"
  shows "yields (for_keep f xs a) (\<lambda>_. P)"
  using assms by (induction xs arbitrary: a) (auto intro!: of_ret of_bind split: option.split)

lemmas rules = of_ret of_look of_memo of_bind of_bindE of_liftE of_for_each of_for_eachE of_for_keep yields_if
  yields_case_option yields_case_sum yields_case_prod yields_case_list yields_let

end

text \<open>Programs all of whose events satisfy a predicate.\<close>

abbreviation emits :: "('e \<Rightarrow> bool) \<Rightarrow> ('w, 'e, 'a) eff \<Rightarrow> bool" where
  "emits P m \<equiv> yields m (\<lambda>_. list_all P)"

interpretation all_events: trace_property "list_all P" for P :: "'e \<Rightarrow> bool"
  by unfold_locales simp_all

lemma emits_act: "(\<And>r. P (ev r)) \<Longrightarrow> emits P (act f ev)"
  by (rule yields_act) simp

lemmas emits_intros = all_events.rules emits_act

section \<open>Watching a trace\<close>

text \<open>
  An observer follows the events with a state of its own and says of each event whether it may happen there.
\<close>

fun watched :: "('o \<Rightarrow> 'e \<Rightarrow> 'o) \<Rightarrow> ('o \<Rightarrow> 'e \<Rightarrow> bool) \<Rightarrow> 'o \<Rightarrow> 'e list \<Rightarrow> bool" where
  "watched view ok ob [] = True"
| "watched view ok ob (e # es) = (ok ob e \<and> watched view ok (view ob e) es)"

lemma watched_append: "watched view ok ob (xs @ ys) \<longleftrightarrow> watched view ok ob xs \<and> watched view ok (foldl view ob xs) ys"
  by (induction xs arbitrary: ob) auto

section \<open>One program inside another\<close>

text \<open>The events of a part, renamed to the events of the whole.\<close>

definition inside :: "('e \<Rightarrow> 'f) \<Rightarrow> ('w, 'e, 'a) eff \<Rightarrow> ('w, 'f, 'a) eff" where
  "inside ev m = State (\<lambda>s.
     case run_state m \<lparr>hidden = hidden s, trace = [], memo = memo s\<rparr> of
       (a, t) \<Rightarrow> (a, \<lparr>hidden = hidden t, trace = trace s @ map ev (trace t), memo = memo t\<rparr>))"

definition mark :: "'e \<Rightarrow> ('w, 'e, unit) eff" where
  "mark e = act (\<lambda>w. ((), w)) (\<lambda>_. e)"

lemma yields_inside: "yields m (\<lambda>a es. Q a (map ev es)) \<Longrightarrow> yields (inside ev m) Q"
  unfolding yields_def
proof
  fix s
  assume m: "\<forall>s. \<exists>es. trace (snd (run_state m s)) = trace s @ es \<and> Q (fst (run_state m s)) (map ev es)"
  show "\<exists>es. trace (snd (run_state (inside ev m) s)) = trace s @ es \<and> Q (fst (run_state (inside ev m) s)) es"
    using m [rule_format, of "\<lparr>hidden = hidden s, trace = [], memo = memo s\<rparr>"]
    by (auto simp: inside_def split: prod.splits)
qed

lemma yields_mark: "Q () [e] \<Longrightarrow> yields (mark e) Q"
  unfolding mark_def by (rule yields_act) simp

lemma emits_mark: "P e \<Longrightarrow> emits P (mark e)"
  by (rule yields_mark) simp

section \<open>What a program does to the state\<close>

text \<open>A Hoare triple over the whole state, for what the trace alone does not say.\<close>

definition triple :: "('s \<Rightarrow> bool) \<Rightarrow> ('s, 'a) state \<Rightarrow> ('a \<Rightarrow> 's \<Rightarrow> bool) \<Rightarrow> bool" where
  "triple P m Q \<longleftrightarrow> (\<forall>s. P s \<longrightarrow> Q (fst (run_state m s)) (snd (run_state m s)))"

lemma tripleI: "(\<And>s. P s \<Longrightarrow> Q (fst (run_state m s)) (snd (run_state m s))) \<Longrightarrow> triple P m Q"
  by (simp add: triple_def)

lemma tripleD: "triple P m Q \<Longrightarrow> P s \<Longrightarrow> run_state m s = (a, s') \<Longrightarrow> Q a s'"
  by (metis fst_conv snd_conv triple_def)

lemma triple_conseq: "triple P m Q \<Longrightarrow> (\<And>s. P' s \<Longrightarrow> P s) \<Longrightarrow> (\<And>a s. Q a s \<Longrightarrow> R a s) \<Longrightarrow> triple P' m R"
  unfolding triple_def by meson

lemma triple_ret: "(\<And>s. P s \<Longrightarrow> Q a s) \<Longrightarrow> triple P (ret a) Q"
  by (simp add: triple_def State_Monad.return_def)

lemma triple_bind: "triple P m R \<Longrightarrow> (\<And>a. triple (R a) (f a) Q) \<Longrightarrow> triple P (State_Monad.bind m f) Q"
  by (auto simp: triple_def State_Monad.bind_def split: prod.splits)

lemma triple_bindE:
  "triple P m (\<lambda>r s. case r of Inl x \<Rightarrow> Q (Inl x) s | Inr a \<Rightarrow> R a s) \<Longrightarrow> (\<And>a. triple (R a) (f a) Q) \<Longrightarrow>
   triple P (bindE m f) Q"
  unfolding bindE_def
  by (rule triple_bind, assumption) (auto simp: triple_def State_Monad.return_def split: sum.splits)

lemma triple_liftE: "triple P m (\<lambda>a s. Q (Inr a) s) \<Longrightarrow> triple P (liftE m) Q"
  unfolding liftE_def by (rule triple_bind, assumption) (rule triple_ret)

lemma triple_if: "(b \<Longrightarrow> triple P m Q) \<Longrightarrow> (\<not> b \<Longrightarrow> triple P n Q) \<Longrightarrow> triple P (if b then m else n) Q"
  by simp

lemma triple_case_sum:
  "(\<And>a. x = Inl a \<Longrightarrow> triple P (f a) Q) \<Longrightarrow> (\<And>b. x = Inr b \<Longrightarrow> triple P (g b) Q) \<Longrightarrow>
   triple P (case x of Inl a \<Rightarrow> f a | Inr b \<Rightarrow> g b) Q"
  by (cases x) auto

lemma triple_case_prod:
  "(\<And>a b. x = (a, b) \<Longrightarrow> triple P (f a b) Q) \<Longrightarrow> triple P (case x of (a, b) \<Rightarrow> f a b) Q"
  by (cases x) auto

lemma triple_act: "(\<And>s r h. P s \<Longrightarrow> f (hidden s) = (r, h) \<Longrightarrow> Q r (s\<lparr>hidden := h, trace := trace s @ [ev r]\<rparr>)) \<Longrightarrow>
   triple P (act f ev) Q"
  by (auto simp: triple_def act_def split: prod.splits)

lemma triple_look: "(\<And>s r h. P s \<Longrightarrow> f (hidden s) = (r, h) \<Longrightarrow> Q r (s\<lparr>hidden := h\<rparr>)) \<Longrightarrow> triple P (look f) Q"
  by (auto simp: triple_def look_def split: prod.splits)

lemma triple_for_eachE:
  assumes "\<And>x a. x \<in> set xs \<Longrightarrow> triple (I a) (f x a) (\<lambda>r s. case r of Inl e \<Rightarrow> J e s | Inr a' \<Rightarrow> I a' s)"
  shows "triple (I a) (for_eachE f xs a) (\<lambda>r s. case r of Inl e \<Rightarrow> J e s | Inr a' \<Rightarrow> I a' s)"
  using assms
proof (induction xs arbitrary: a)
  case Nil
  then show ?case by (simp add: triple_ret)
next
  case (Cons x xs)
  then show ?case by (auto intro!: triple_bindE cong: sum.case_cong)
qed

text \<open>Evaluation rules, for running a program on a concrete world.\<close>

lemma run_act: "run_state (act f ev) s = (case f (hidden s) of
     (r, h) \<Rightarrow> (r, s\<lparr>hidden := h, trace := trace s @ [ev r]\<rparr>))"
  by (simp add: act_def)

lemma run_bind: "run_state (State_Monad.bind m f) s =
    (case run_state m s of (a, s') \<Rightarrow> run_state (f a) s')"
  by (simp add: State_Monad.bind_def)

lemma run_ret: "run_state (ret a) s = (a, s)"
  by (simp add: State_Monad.return_def)

lemma run_bindE: "run_state (bindE m f) s =
    (case run_state m s of (Inl x, s') \<Rightarrow> (Inl x, s') | (Inr a, s') \<Rightarrow> run_state (f a) s')"
  by (simp add: bindE_def run_bind run_ret split: prod.splits sum.splits)

lemma run_liftE: "run_state (liftE m) s = (case run_state m s of (a, s') \<Rightarrow> (Inr a, s'))"
  by (simp add: liftE_def run_bind run_ret split: prod.splits)

lemma run_look: "run_state (look f) s = (case f (hidden s) of (r, h) \<Rightarrow> (r, s\<lparr>hidden := h\<rparr>))"
  by (simp add: look_def)

lemma run_memo: "run_state get_memo s = (memo s, s)" "run_state (set_memo v) s = ((), s\<lparr>memo := v\<rparr>)"
  by (simp_all add: get_memo_def set_memo_def)

lemmas run_rules = run_look run_memo run_act run_bind run_ret run_bindE run_liftE

end
