(* ===== verification/Cql.thy ===== *)
theory Cql
  imports Effects
begin

text \<open>
  The query layer (\<open>src/helios_cql.py\<close>): escaping, the scanner that blanks string literals, the
  guard that refuses conditional statements, the path to Daruk with its cqlsh fallback, and the
  replication-factor rules of the metadata keyspace. Daruk and cqlsh are parameters. The interface
  \<open>quoting\<close> states what a statement builder needs of a quoting function: a quoted value is one
  literal, whatever is in the value; \<open>cql_text\<close> of the snapshot module and \<open>quote\<close> of the schema
  module are its instances.
\<close>

section \<open>Escaping\<close>

text \<open>\<open>str(value).replace("'", "''")\<close>\<close>

fun double_quotes :: "string \<Rightarrow> string" where
  "double_quotes [] = []"
| "double_quotes (c # cs) = (if c = quote_char then [quote_char, quote_char] else [c]) @ double_quotes cs"

definition cql_escape :: "string option \<Rightarrow> string" where
  "cql_escape v = (case v of None \<Rightarrow> [] | Some s \<Rightarrow> double_quotes s)"

section \<open>The statement outside its string literals\<close>

text \<open>
  The scanner of \<open>_cql_outside_string_literals\<close>. \<open>skip_literal\<close> is its inner loop: from just after
  an opening quote to just after the closing one, a doubled quote staying inside; an unterminated
  literal runs to the end of the text.
\<close>

fun skip_literal :: "string \<Rightarrow> string" where
  "skip_literal [] = []"
| "skip_literal [c] = []"
| "skip_literal (c # d # ds) =
     (if c = quote_char then (if d = quote_char then skip_literal ds else d # ds)
      else skip_literal (d # ds))"

lemma skip_literal_length: "length (skip_literal s) \<le> length s"
  by (induction s rule: skip_literal.induct) auto

lemma skip_literal_less [termination_simp]: "length (skip_literal cs) < Suc (length cs)"
  using skip_literal_length [of cs] by simp

fun cql_outside_string_literals :: "string \<Rightarrow> string" where
  "cql_outside_string_literals [] = []"
| "cql_outside_string_literals (c # cs) =
     (if c \<noteq> quote_char then c # cql_outside_string_literals cs
      else quote_char # quote_char # cql_outside_string_literals (skip_literal cs))"

section \<open>Conditional statements\<close>

text \<open>\<open>\s*(?:insert|update|delete|begin)\b.*\bif\b\<close>, ignoring case, with \<open>.\<close> matching anything.\<close>

definition word_char :: "char \<Rightarrow> bool" where
  "word_char c = (is_alnum c \<or> c = CHR ''_'' \<or>
     (let n = (of_char c :: nat) in n = 170 \<or> n = 178 \<or> n = 179 \<or> n = 181 \<or> n = 185 \<or> n = 186 \<or>
        (188 \<le> n \<and> n \<le> 190) \<or> (192 \<le> n \<and> n \<noteq> 215 \<and> n \<noteq> 247)))"

text \<open>\<open>boundary p s\<close>: \<open>\b\<close> between a character \<open>p\<close> (if any) and the text \<open>s\<close>.\<close>

definition boundary :: "char option \<Rightarrow> string \<Rightarrow> bool" where
  "boundary p s = ((case p of None \<Rightarrow> False | Some c \<Rightarrow> word_char c)
                   \<noteq> (case s of [] \<Rightarrow> False | d # _ \<Rightarrow> word_char d))"

fun has_if :: "char option \<Rightarrow> string \<Rightarrow> bool" where
  "has_if p [] = False"
| "has_if p (c # cs) =
     ((boundary p (c # cs) \<and> starts_with (lower (c # cs)) ''if''
        \<and> boundary (Some CHR ''f'') (drop 2 (c # cs)))
      \<or> has_if (Some c) cs)"

definition mutation_keywords :: "string list" where
  "mutation_keywords = [''insert'', ''update'', ''delete'', ''begin'']"

definition conditional_match :: "string \<Rightarrow> bool" where
  "conditional_match text =
     (let s = dropWhile is_ws text in
      list_ex (\<lambda>k. starts_with (lower s) k
                 \<and> boundary (Some (last k)) (drop (length k) s)
                 \<and> has_if (Some (last k)) (drop (length k) s)) mutation_keywords)"

definition is_conditional_cql :: "string \<Rightarrow> bool" where
  "is_conditional_cql q = conditional_match (cql_outside_string_literals q)"

section \<open>Running a statement\<close>

text \<open>
  What one request to Daruk's \<open>/query\<close> comes to: an answer whose body says success (with rows) or
  not, an HTTP error (with the detail its body carried, if it parsed, and the code), a timeout, or
  anything else that went wrong before an answer.
\<close>

datatype cell = Json_Row string | Values string

datatype daruk_answer =
    Answered_Success "cell list" | Answered_Error "string option"
  | Http_Error "string option" int | Timed_Out string | Unreachable

type_synonym cql_result = "int \<times> string \<times> string"

record 'w cql_env =
  daruk_query :: "string \<Rightarrow> 'w \<Rightarrow> daruk_answer \<times> 'w"
  cqlsh :: "string \<Rightarrow> 'w \<Rightarrow> cql_result \<times> 'w"

datatype cql_event = Daruk_Query string daruk_answer | Cqlsh string

definition render_rows :: "cell list \<Rightarrow> string list" where
  "render_rows rows = map (\<lambda>r. case r of Json_Row j \<Rightarrow> j | Values v \<Rightarrow> v) rows"

definition run_conditional_cql_query ::
    "'w cql_env \<Rightarrow> string \<Rightarrow> ('w, cql_event, cql_result) eff" where
  "run_conditional_cql_query env q =
     do {
       a \<leftarrow> act (daruk_query env q) (Daruk_Query q);
       case a of
         Answered_Success rows \<Rightarrow> ret (0, join [CHR 0x0A] (render_rows rows), [])
       | Answered_Error e \<Rightarrow>
           ret (1, [], case e of None \<Rightarrow> ''Database query execution error'' | Some m \<Rightarrow> m)
       | Http_Error d code \<Rightarrow>
           ret (1, [], or_str d (''Daruk refused the statement (HTTP '' @ show_int code @ '')''))
       | Timed_Out m \<Rightarrow> ret (1, [], ''Daruk did not answer within 10s: '' @ m)
       | Unreachable \<Rightarrow> act (cqlsh env q) (\<lambda>_. Cqlsh q)
     }"

datatype cql_exn = Conditional_Statement_Error

definition run_cql_query ::
    "'w cql_env \<Rightarrow> string \<Rightarrow> ('w, cql_event, cql_exn + cql_result) eff" where
  "run_cql_query env q =
     (if is_conditional_cql q then raiseE Conditional_Statement_Error
      else liftE (run_conditional_cql_query env q))"

section \<open>Replication factor of the metadata keyspace\<close>

definition metadata_replication_factor :: "pynum \<Rightarrow> pynum \<Rightarrow> int" where
  "metadata_replication_factor ftt nodes =
     (case (py_int ftt, py_int nodes) of
        (Some f0, Some n) \<Rightarrow>
          (let f = max f0 0 in if n \<le> 1 \<or> f = 0 then 1 else min n (2 * f + 1))
      | _ \<Rightarrow> 1)"

definition default_metadata_replication_factor :: "pynum \<Rightarrow> pynum \<Rightarrow> int" where
  "default_metadata_replication_factor ftt nodes =
     (let needed = metadata_replication_factor ftt nodes;
          n = (case py_int nodes of Some n \<Rightarrow> max n 1 | None \<Rightarrow> 1)
      in max needed (min 3 n))"

definition two_replica_warning :: "int \<Rightarrow> string list" where
  "two_replica_warning rf =
     (if rf \<noteq> 2 then []
      else [''[WARNING] The metadata database will have 2 replicas (RF=2). Reads and writes need a'',
            ''[WARNING] majority, which at RF=2 is both of them: losing EITHER node stops the database'',
            ''[WARNING] and everything that depends on it. A two-node cluster has no tie-breaker.'',
            ''[WARNING] See docs/ring_lifecycle.md ('' @ [quote_char] @ ''Replication factor'' @ [quote_char]
              @ '') before relying on it.''])"

section \<open>Lemmas: a quoted value is one literal\<close>

lemma skip_literal_doubled:
  "skip_literal (double_quotes v @ quote_char # rest) =
     (case rest of [] \<Rightarrow> [] | d # ds \<Rightarrow> if d = quote_char then skip_literal ds else rest)"
proof (induction v)
  case Nil
  show ?case by (cases rest) auto
next
  case (Cons c v)
  have "double_quotes v @ quote_char # rest \<noteq> []" by simp
  then obtain d ds where d: "double_quotes v @ quote_char # rest = d # ds" by (meson neq_Nil_conv)
  show ?case
  proof (cases "c = quote_char")
    case True
    with Cons show ?thesis by simp
  next
    case False
    then have "skip_literal (double_quotes (c # v) @ quote_char # rest)
        = skip_literal (double_quotes v @ quote_char # rest)" by (simp add: d)
    with Cons show ?thesis by simp
  qed
qed

definition not_quote_first :: "string \<Rightarrow> bool" where
  "not_quote_first s = (case s of [] \<Rightarrow> True | c # _ \<Rightarrow> c \<noteq> quote_char)"

lemma outside_quoted:
  "not_quote_first rest \<Longrightarrow>
   cql_outside_string_literals (quote_char # double_quotes v @ quote_char # rest) =
     quote_char # quote_char # cql_outside_string_literals rest"
  by (auto simp: skip_literal_doubled not_quote_first_def split: list.splits)

lemma outside_plain:
  "quote_char \<notin> set a \<Longrightarrow>
   cql_outside_string_literals (a @ rest) = a @ cql_outside_string_literals rest"
  by (induction a) auto

text \<open>
  The interface: a quoting function turns any value into text that the scanner reads as exactly one
  literal. Statements are templates, lists of fixed text and values; \<open>fill\<close> interpolates the values
  with the quoting function and \<open>blank\<close> puts the empty literal in their place.
\<close>

datatype piece = Lit string | Val string

fun fill :: "(string \<Rightarrow> string) \<Rightarrow> piece list \<Rightarrow> string" where
  "fill q [] = []"
| "fill q (Lit s # ps) = s @ fill q ps"
| "fill q (Val v # ps) = q v @ fill q ps"

fun blank :: "piece list \<Rightarrow> string" where
  "blank [] = []"
| "blank (Lit s # ps) = s @ blank ps"
| "blank (Val v # ps) = quote_char # quote_char # blank ps"

text \<open>Fixed text holds no quote, and two values are never adjacent.\<close>

fun template :: "piece list \<Rightarrow> bool" where
  "template [] = True"
| "template (Lit s # ps) = (quote_char \<notin> set s \<and> template ps)"
| "template (Val v # ps) = ((case ps of Lit s # _ \<Rightarrow> s \<noteq> [] | [] \<Rightarrow> True | _ \<Rightarrow> False) \<and> template ps)"

locale quoting =
  fixes q :: "string \<Rightarrow> string"
  assumes q_one_literal: "not_quote_first rest \<Longrightarrow>
     cql_outside_string_literals (q v @ rest) = quote_char # quote_char # cql_outside_string_literals rest"
begin

lemma outside_fill: "template ps \<Longrightarrow> cql_outside_string_literals (fill q ps) = blank ps"
proof (induction ps rule: template.induct)
  case (3 v ps)
  have "not_quote_first (fill q ps)"
    using "3.prems"
    by (cases ps rule: template.cases) (auto simp: not_quote_first_def hd_append neq_Nil_conv)
  with 3 show ?case by (simp add: q_one_literal)
qed (simp_all add: outside_plain)

lemma fill_conditional_iff: "template ps \<Longrightarrow> is_conditional_cql (fill q ps) = conditional_match (blank ps)"
  by (simp add: is_conditional_cql_def outside_fill)

end

text \<open>
  Text in which no letter i is followed by a letter f matches no \<open>if\<close>. The flag says whether the
  character before was an i; stretches without an i can be dropped.
\<close>

abbreviation an_i :: "char \<Rightarrow> bool" where "an_i c \<equiv> c = CHR ''i'' \<or> c = CHR ''I''"
abbreviation an_f :: "char \<Rightarrow> bool" where "an_f c \<equiv> c = CHR ''f'' \<or> c = CHR ''F''"

fun if_free :: "bool \<Rightarrow> string \<Rightarrow> bool" where
  "if_free p [] = True"
| "if_free p (c # cs) = (\<not> (p \<and> an_f c) \<and> if_free (an_i c) cs)"

lemma if_free_skip: "\<forall>c \<in> set a. \<not> an_i c \<Longrightarrow> if_free False (a @ b) = if_free False b"
  by (induction a) auto

lemma if_free_weaken: "if_free True s \<Longrightarrow> if_free False s"
  by (cases s) auto

lemma lower_char_i: "lower_char c = CHR ''i'' \<longleftrightarrow> an_i c" "lower_char c = CHR ''f'' \<longleftrightarrow> an_f c"
  unfolding lower_char_eq char_eq_code [of c] Let_def by auto

lemma if_free_no_if: "if_free b s \<Longrightarrow> \<not> has_if p s"
proof (induction s arbitrary: b p)
  case (Cons c cs)
  have "\<not> starts_with (lower (c # cs)) ''if''"
    using Cons.prems by (cases cs) (auto simp: lower_def lower_char_i)
  with Cons show ?case by auto
qed simp

lemma if_free_drop: "if_free b s \<Longrightarrow> if_free False (drop n s)"
proof (induction s arbitrary: b n)
  case (Cons c s)
  then have "if_free False (c # s)" by (cases b) (auto dest: if_free_weaken)
  with Cons show ?case by (cases n) auto
qed simp

lemma if_free_dropWhile: "if_free b s \<Longrightarrow> if_free False (dropWhile Q s)"
  using if_free_drop [of b s "length (takeWhile Q s)"] by (simp add: dropWhile_eq_drop)

lemma if_free_unconditional: "if_free False s \<Longrightarrow> \<not> conditional_match s"
  by (auto simp: conditional_match_def Let_def list_ex_iff
      dest!: if_free_dropWhile [of False s is_ws] dest: if_free_no_if [OF if_free_drop])

lemma double_quotes_inject: "double_quotes a = double_quotes b \<longleftrightarrow> a = b"
proof (induction a arbitrary: b)
  case Nil
  show ?case by (cases b) auto
next
  case (Cons c a)
  show ?case by (cases b) (auto simp: Cons.IH split: if_splits)
qed

lemma double_quotes_id: "quote_char \<notin> set v \<Longrightarrow> double_quotes v = v"
  by (induction v) auto

section \<open>Properties\<close>

text \<open>
  A statement handed to the query path is never executed twice through two doors: it goes to
  cqlsh only when no answer of any kind came from Daruk, and a conditional statement is refused
  with nothing executed at all.
\<close>

theorem run_cql_query_executes_once:
  "yields (run_cql_query env q) (\<lambda>r es.
     if is_conditional_cql q then r = Inl Conditional_Statement_Error \<and> es = []
     else (\<exists>res. r = Inr res) \<and>
       ((\<exists>a. a \<noteq> Unreachable \<and> es = [Daruk_Query q a]) \<or> es = [Daruk_Query q Unreachable, Cqlsh q]))"
  unfolding run_cql_query_def run_conditional_cql_query_def
  by (auto intro!: yields_intros split: daruk_answer.split)

text \<open>
  The metadata keyspace's replication factor survives the failures it is asked to: on a cluster
  with enough nodes, losing \<open>ftt\<close> replicas leaves a strict majority, the factor never exceeds the
  node count, and no smaller factor survives as many.
\<close>

theorem metadata_quorum_survives:
  assumes "0 \<le> ftt" and "2 * ftt + 1 \<le> nodes"
  shows "let rf = metadata_replication_factor (Num ftt) (Num nodes) in
     1 \<le> rf \<and> rf \<le> nodes \<and> rf - ftt \<ge> rf div 2 + 1
     \<and> (\<forall>rf'. 0 \<le> rf' \<and> rf' - ftt \<ge> rf' div 2 + 1 \<longrightarrow> rf \<le> rf')"
  using assms by (auto simp: metadata_replication_factor_def Let_def min_def max_def)

theorem metadata_quorum_survives_witness:
  "let rf = metadata_replication_factor (Num 2) (Num 5) in
     1 \<le> rf \<and> rf \<le> 5 \<and> rf - 2 \<ge> rf div 2 + 1"
  using metadata_quorum_survives [of 2 5] by (simp add: Let_def)

text \<open>
  What the keyspace is created with is at least what the rule asks for, never more replicas than
  there are nodes, and three or more on every cluster of three nodes or more; a factor of two, for
  which the operator is warned, arises only on a cluster of exactly two nodes.
\<close>

theorem default_factor_bounds:
  assumes "1 \<le> nodes"
  shows "let rf = default_metadata_replication_factor (Num ftt) (Num nodes) in
     metadata_replication_factor (Num ftt) (Num nodes) \<le> rf \<and> rf \<le> nodes
     \<and> (3 \<le> nodes \<longrightarrow> 3 \<le> rf) \<and> (two_replica_warning rf \<noteq> [] \<longleftrightarrow> nodes = 2)"
  using assms
  by (auto simp: metadata_replication_factor_def default_metadata_replication_factor_def
      two_replica_warning_def Let_def min_def max_def)

theorem default_factor_bounds_witness:
  "let rf = default_metadata_replication_factor (Num 1) (Num 4) in
     metadata_replication_factor (Num 1) (Num 4) \<le> rf \<and> rf \<le> 4 \<and> 3 \<le> rf
     \<and> two_replica_warning rf = []"
  using default_factor_bounds [of 4 1] by (simp add: Let_def)

end
