(* ===== verification/Utc.thy ===== *)
theory Utc
  imports Prelude
begin

text \<open>
  \<open>time.strftime("%Y%m%d%H%M", time.gmtime(ms / 1000.0))\<close>, the UTC minute that snapshot, set and
  copy names end in. The calendar is computed from the minutes since the epoch, for clocks at or
  after it, by taking off whole years and then whole months. The stamp is shown to be injective:
  two different minutes never print the same.
\<close>

definition leap :: "nat \<Rightarrow> bool" where
  "leap y = (y mod 4 = 0 \<and> (y mod 100 \<noteq> 0 \<or> y mod 400 = 0))"

definition year_len :: "nat \<Rightarrow> nat" where
  "year_len y = (if leap y then 366 else 365)"

definition month_lens :: "nat \<Rightarrow> nat list" where
  "month_lens y = [31, if leap y then 29 else 28, 31, 30, 31, 30, 31, 31, 30, 31, 30, 31]"

lemma year_len_pos [simp]: "0 < year_len y"
  by (simp add: year_len_def)

function split_year :: "nat \<Rightarrow> nat \<Rightarrow> nat \<times> nat" where
  "split_year y d = (if d < year_len y then (y, d) else split_year (Suc y) (d - year_len y))"
  by pat_completeness auto
termination
  by (relation "measure snd") (auto simp: year_len_def)

declare split_year.simps [simp del]

fun split_month :: "nat list \<Rightarrow> nat \<Rightarrow> nat \<Rightarrow> nat \<times> nat" where
  "split_month [] m d = (m, d)"
| "split_month (l # ls) m d = (if d < l then (m, d) else split_month ls (Suc m) (d - l))"

definition pad2 :: "nat \<Rightarrow> string" where
  "pad2 n = [digit_char (n div 10), digit_char (n mod 10)]"

definition utc_stamp_of_minute :: "nat \<Rightarrow> string" where
  "utc_stamp_of_minute mins =
     (let days = mins div 1440; rest = mins mod 1440;
          (y, yd) = split_year 1970 days;
          (m, md) = split_month (month_lens y) 1 yd
      in show_nat y @ pad2 m @ pad2 (md + 1) @ pad2 (rest div 60) @ pad2 (rest mod 60))"

definition minute_of :: "int \<Rightarrow> nat" where
  "minute_of now_ms = nat (now_ms div 60000)"

definition utc_stamp :: "int \<Rightarrow> string" where
  "utc_stamp now_ms = utc_stamp_of_minute (minute_of now_ms)"

section \<open>The calendar is a bijection\<close>

lemma split_year_inv:
  "split_year y d = (y', d') \<Longrightarrow> d' < year_len y' \<and> y \<le> y' \<and> (\<Sum>k = y..<y'. year_len k) + d' = d"
proof (induction y d rule: split_year.induct)
  case (1 y d)
  show ?case
  proof (cases "d < year_len y")
    case True
    with "1.prems" show ?thesis by (simp add: split_year.simps [of y d])
  next
    case False
    with "1.prems" have "split_year (Suc y) (d - year_len y) = (y', d')"
      by (simp add: split_year.simps [of y d])
    with "1.IH" False have ih: "d' < year_len y'" "Suc y \<le> y'"
      "(\<Sum>k = Suc y..<y'. year_len k) + d' = d - year_len y" by auto
    then have "(\<Sum>k = y..<y'. year_len k) = year_len y + (\<Sum>k = Suc y..<y'. year_len k)"
      by (simp add: sum.atLeast_Suc_lessThan)
    with ih False show ?thesis by simp
  qed
qed

lemma split_month_inv:
  "split_month ls m d = (m', d') \<Longrightarrow> d < sum_list ls \<Longrightarrow>
     m \<le> m' \<and> m' - m < length ls \<and> d' < ls ! (m' - m) \<and> sum_list (take (m' - m) ls) + d' = d"
proof (induction ls m d rule: split_month.induct)
  case (2 l ls m d)
  show ?case
  proof (cases "d < l")
    case True
    with 2 show ?thesis by simp
  next
    case False
    with "2.prems" have ih: "Suc m \<le> m' \<and> m' - Suc m < length ls \<and> d' < ls ! (m' - Suc m)
        \<and> sum_list (take (m' - Suc m) ls) + d' = d - l"
      by (intro "2.IH") auto
    then obtain k where "m' = Suc (m + k)" using less_eq_Suc_le nat_le_iff_add by auto
    with ih False show ?thesis by (auto simp: Suc_diff_le)
  qed
qed simp

lemma sum_month_lens: "sum_list (month_lens y) = year_len y"
  by (simp add: month_lens_def year_len_def)

lemma month_lens_bounds: "length (month_lens y) = 12" "i < 12 \<Longrightarrow> month_lens y ! i \<le> 31"
proof -
  show len: "length (month_lens y) = 12" by (simp add: month_lens_def)
  assume "i < 12"
  then have "month_lens y ! i \<in> set (month_lens y)" using len by (metis nth_mem)
  then show "month_lens y ! i \<le> 31" by (auto simp: month_lens_def split: if_splits)
qed

lemma pad2_inject: "a < 100 \<Longrightarrow> b < 100 \<Longrightarrow> pad2 a = pad2 b \<longleftrightarrow> a = b"
proof
  assume ab: "a < 100" "b < 100" and eq: "pad2 a = pad2 b"
  have small: "a div 10 < 10" "b div 10 < 10" using ab by simp_all
  have "digit_val (digit_char (a div 10)) = digit_val (digit_char (b div 10))"
    and "digit_val (digit_char (a mod 10)) = digit_val (digit_char (b mod 10))"
    using eq unfolding pad2_def by simp_all
  then have "a div 10 = b div 10" "a mod 10 = b mod 10" using small by simp_all
  then show "a = b" by (metis div_mult_mod_eq)
qed simp

lemma length_pad2 [simp]: "length (pad2 n) = 2"
  by (simp add: pad2_def)

text \<open>The fields of a stamp, with the bounds that make its printed form readable back.\<close>

lemma stamp_fields:
  obtains y m d where
    "utc_stamp_of_minute mins = show_nat y @ pad2 m @ pad2 (d + 1)
        @ pad2 (mins mod 1440 div 60) @ pad2 (mins mod 1440 mod 60)"
    and "m \<le> 12" "1 \<le> m" "d < 31"
    and "mins div 1440 = (\<Sum>k = 1970..<y. year_len k) + sum_list (take (m - 1) (month_lens y)) + d"
proof -
  obtain y yd where y: "split_year 1970 (mins div 1440) = (y, yd)" by fastforce
  obtain m md where m: "split_month (month_lens y) 1 yd = (m, md)" by fastforce
  from split_year_inv [OF y] have yd: "yd < year_len y"
    and ys: "(\<Sum>k = 1970..<y. year_len k) + yd = mins div 1440" by auto
  from split_month_inv [OF m] yd have mb: "1 \<le> m" "m - 1 < 12" "md < month_lens y ! (m - 1)"
    and ms: "sum_list (take (m - 1) (month_lens y)) + md = yd"
    by (auto simp: sum_month_lens month_lens_bounds)
  show thesis
  proof
    show "utc_stamp_of_minute mins = show_nat y @ pad2 m @ pad2 (md + 1)
        @ pad2 (mins mod 1440 div 60) @ pad2 (mins mod 1440 mod 60)"
      using m by (simp add: utc_stamp_of_minute_def y Let_def)
    show "md < 31" using mb month_lens_bounds(2) [of "m - 1" y] by linarith
    show "mins div 1440 = (\<Sum>k = 1970..<y. year_len k) + sum_list (take (m - 1) (month_lens y)) + md"
      using ys ms by simp
  qed (use mb in auto)
qed

lemma minute_field_bounds: "n mod 1440 div 60 < (100 :: nat)" "n mod 1440 mod 60 < (100 :: nat)"
proof -
  have "n mod 1440 < 1440" by simp
  then show "n mod 1440 div 60 < 100" by linarith
  have "n mod 1440 mod 60 < 60" by simp
  then show "n mod 1440 mod 60 < 100" by linarith
qed

theorem utc_stamp_of_minute_inject: "utc_stamp_of_minute a = utc_stamp_of_minute b \<longleftrightarrow> a = b"
proof
  assume eq: "utc_stamp_of_minute a = utc_stamp_of_minute b"
  obtain y m d where A: "utc_stamp_of_minute a = show_nat y @ pad2 m @ pad2 (d + 1)
        @ pad2 (a mod 1440 div 60) @ pad2 (a mod 1440 mod 60)"
    "m \<le> 12" "1 \<le> m" "d < 31"
    "a div 1440 = (\<Sum>k = 1970..<y. year_len k) + sum_list (take (m - 1) (month_lens y)) + d"
    by (rule stamp_fields)
  obtain y' m' d' where B: "utc_stamp_of_minute b = show_nat y' @ pad2 m' @ pad2 (d' + 1)
        @ pad2 (b mod 1440 div 60) @ pad2 (b mod 1440 mod 60)"
    "m' \<le> 12" "1 \<le> m'" "d' < 31"
    "b div 1440 = (\<Sum>k = 1970..<y'. year_len k) + sum_list (take (m' - 1) (month_lens y')) + d'"
    by (rule stamp_fields)
  have parts: "show_nat y = show_nat y'" "pad2 m = pad2 m'" "pad2 (d + 1) = pad2 (d' + 1)"
    "pad2 (a mod 1440 div 60) = pad2 (b mod 1440 div 60)"
    "pad2 (a mod 1440 mod 60) = pad2 (b mod 1440 mod 60)"
    using eq A(1) B(1) by (simp_all add: append_eq_append_conv)
  have "y = y'" using parts(1) by simp
  moreover have "m = m'" using parts(2) A(2) B(2) by (simp add: pad2_inject)
  moreover have "d = d'" using parts(3) A(4) B(4) by (simp add: pad2_inject)
  ultimately have days: "a div 1440 = b div 1440" using A(5) B(5) by simp
  have hours: "a mod 1440 div 60 = b mod 1440 div 60"
    using parts(4) minute_field_bounds [of a] minute_field_bounds [of b] by (simp add: pad2_inject)
  have "a mod 1440 mod 60 = b mod 1440 mod 60"
    using parts(5) minute_field_bounds [of a] minute_field_bounds [of b] by (simp add: pad2_inject)
  with hours have "a mod 1440 = b mod 1440" by (metis div_mult_mod_eq)
  with days show "a = b" by (metis div_mult_mod_eq)
qed simp

lemma utc_stamp_eq_iff:
  assumes "0 \<le> s" "0 \<le> t"
  shows "utc_stamp s = utc_stamp t \<longleftrightarrow> s div 60000 = t div 60000"
  using assms by (simp add: utc_stamp_def minute_of_def utc_stamp_of_minute_inject
      pos_imp_zdiv_nonneg_iff eq_nat_nat_iff)

text \<open>The stamp's characters and length, which is what makes a name built with it a valid one.\<close>

lemma digit_char_alnum: "d < 10 \<Longrightarrow> is_alnum (digit_char d)"
  by (simp add: is_alnum_def)

lemma utc_stamp_chars: "\<forall>c \<in> set (utc_stamp now). is_digit c"
proof -
  obtain y m d where A: "utc_stamp_of_minute (minute_of now) = show_nat y @ pad2 m @ pad2 (d + 1)
        @ pad2 (minute_of now mod 1440 div 60) @ pad2 (minute_of now mod 1440 mod 60)"
    "m \<le> 12" "d < 31" by (metis stamp_fields)
  have p: "n < 100 \<Longrightarrow> c \<in> set (pad2 n) \<Longrightarrow> is_digit c" for n c
    by (auto simp: pad2_def)
  have "m < 100" "d + 1 < 100" using A by simp_all
  then show ?thesis
    using A(1) show_nat_digits [of y] p [OF minute_field_bounds(1)] p [OF minute_field_bounds(2)]
      p [of m] p [of "d + 1"] unfolding utc_stamp_def by auto
qed

text \<open>
  A name that ends in a dash and a stamp can be split in only one way, so names built from the same
  separator are equal only for the same prefix and the same minute.
\<close>

lemma is_digit_not_dash: "is_digit c \<Longrightarrow> c \<noteq> CHR ''-''"
  by (auto simp: is_digit_def)

lemma stamped_split:
  assumes "a @ CHR ''-'' # s = b @ CHR ''-'' # t"
    and "\<forall>c \<in> set s. is_digit c" and "\<forall>c \<in> set t. is_digit c"
  shows "a = b \<and> s = t"
proof -
  have "takeWhile is_digit (rev s @ CHR ''-'' # rev a) = takeWhile is_digit (rev t @ CHR ''-'' # rev b)"
    using arg_cong [OF assms(1), of rev] by simp
  moreover have "\<not> is_digit CHR ''-''" by (simp add: is_digit_def)
  moreover have "takeWhile is_digit (rev s) = rev s" "takeWhile is_digit (rev t) = rev t"
    using assms(2,3) by (simp_all add: takeWhile_eq_all_conv)
  ultimately have "rev s = rev t" by (simp add: takeWhile_tail)
  then have "s = t" by simp
  with assms(1) show ?thesis by simp
qed

lemma stamped_name_inject:
  assumes "a @ CHR ''-'' # utc_stamp s = b @ CHR ''-'' # utc_stamp t" and "0 \<le> s" and "0 \<le> t"
  shows "a = b \<and> s div 60000 = t div 60000"
  using stamped_split [OF assms(1) utc_stamp_chars utc_stamp_chars] assms(2,3)
  by (simp add: utc_stamp_eq_iff)

end
