(* ===== verification/Retention.thy ===== *)
theory Retention
  imports Prelude
begin

text \<open>
  What the two retention planners (snapshots of one vdisk, sets of one protection domain) have in
  common: candidates are put in order, newest first, a window of them is kept, and each of the rest
  is pruned unless there is a reason to spare it. The interface \<open>window_retention\<close> states that
  contract; its lemmas are the guarantees an operator relies on, proved once.
\<close>

record 'why retention =
  r_keep :: "string list"
  r_prune :: "string list"
  r_protected :: "(string \<times> 'why) list"

definition window :: "int \<Rightarrow> nat" where
  "window keep_last = nat (max 1 keep_last)"

lemma window_pos [simp]: "0 < window k"
  by (simp add: window_def)

text \<open>The loop over what is outside the window: sort each entry into pruned or protected.\<close>

fun sift :: "('r \<Rightarrow> string) \<Rightarrow> ('r \<Rightarrow> 'why option) \<Rightarrow> 'r list \<Rightarrow>
    string list \<Rightarrow> (string \<times> 'why) list \<Rightarrow> string list \<times> (string \<times> 'why) list" where
  "sift sid spare [] prune prot = (prune, prot)"
| "sift sid spare (r # rs) prune prot =
     (case spare r of
        Some why \<Rightarrow> sift sid spare rs prune (dict_set (sid r) why prot)
      | None \<Rightarrow> sift sid spare rs (prune @ [sid r]) prot)"

lemma sift_prune:
  "fst (sift sid spare rs prune prot) = prune @ map sid (filter (\<lambda>r. spare r = None) rs)"
  by (induction sid spare rs prune prot rule: sift.induct) (auto split: option.splits)

lemma set_dict_set: "set (dict_set k v d) \<subseteq> insert (k, v) (set d)"
  by (induction k v d rule: dict_set.induct) auto

lemma sift_protected_sound:
  "(s, why) \<in> set (snd (sift sid spare rs prune prot)) \<Longrightarrow>
     (s, why) \<in> set prot \<or> (\<exists>r \<in> set rs. sid r = s \<and> spare r = Some why)"
proof (induction sid spare rs prune prot rule: sift.induct)
  case (2 sid spare r rs prune prot)
  show ?case
  proof (cases "spare r")
    case None
    with 2 show ?thesis by auto
  next
    case (Some w)
    with 2 have "(s, why) \<in> set (dict_set (sid r) w prot) \<or> (\<exists>r \<in> set rs. sid r = s \<and> spare r = Some why)"
      by simp
    with Some set_dict_set [of "sid r" w prot] show ?thesis by auto
  qed
qed simp

lemma sift_protected_complete:
  "s \<in> fst ` set (snd (sift sid spare rs prune prot)) \<longleftrightarrow>
     s \<in> fst ` set prot \<or> (\<exists>r \<in> set rs. sid r = s \<and> spare r \<noteq> None)"
proof (induction sid spare rs prune prot rule: sift.induct)
  case (2 sid spare r rs prune prot)
  then show ?case
    by (cases "spare r") (auto simp: dict_set_keys simp del: image_iff)
qed simp

locale window_retention =
  fixes cand :: "'r \<Rightarrow> bool"
    and age_key :: "'r \<Rightarrow> int \<times> string"
    and sid :: "'r \<Rightarrow> string"
    and spare :: "'r \<Rightarrow> 'why option"
    and plan :: "'r list \<Rightarrow> int \<Rightarrow> 'why retention"
  assumes keep_law: "r_keep (plan rows k) =
        map sid (take (window k) (sort_key age_key (filter cand rows)))"
    and prune_law: "r_prune (plan rows k) =
        map sid (filter (\<lambda>r. spare r = None) (drop (window k) (sort_key age_key (filter cand rows))))"
    and protected_law: "s \<in> fst ` set (r_protected (plan rows k)) \<longleftrightarrow>
        (\<exists>r \<in> set (drop (window k) (sort_key age_key (filter cand rows))). sid r = s \<and> spare r \<noteq> None)"
begin

lemma keep_size: "length (r_keep (plan rows k)) = min (window k) (length (filter cand rows))"
  by (simp add: keep_law)

lemma prune_is_older:
  assumes "s \<in> set (r_prune (plan rows k))"
  shows "\<exists>r \<in> set rows. sid r = s \<and> cand r \<and> spare r = None
     \<and> window k < length (filter (\<lambda>r'. cand r' \<and> age_key r' \<le> age_key r) rows)"
proof -
  let ?ours = "sort_key age_key (filter cand rows)"
  from assms obtain r where r: "r \<in> set (drop (window k) ?ours)" "sid r = s" "spare r = None"
    by (auto simp: prune_law)
  then have rin: "r \<in> set rows" "cand r" by (auto dest: in_set_dropD)
  have le: "\<forall>x \<in> set (take (window k) ?ours). age_key x \<le> age_key r"
    using r(1) by (metis sorted_key_take_drop)
  have "window k < length ?ours" using r by (metis drop_all empty_iff empty_set not_less)
  then have wlen: "length (take (window k) ?ours) = window k" by simp
  have "length (filter (\<lambda>x. age_key x \<le> age_key r) ?ours)
      = length (filter (\<lambda>x. age_key x \<le> age_key r) (take (window k) ?ours))
        + length (filter (\<lambda>x. age_key x \<le> age_key r) (drop (window k) ?ours))"
    by (metis append_take_drop_id filter_append length_append)
  moreover have "filter (\<lambda>x. age_key x \<le> age_key r) (take (window k) ?ours) = take (window k) ?ours"
    using le by simp
  moreover have "filter (\<lambda>x. age_key x \<le> age_key r) (drop (window k) ?ours) \<noteq> []"
    using r by (auto simp: filter_empty_conv)
  ultimately have "window k + 1 \<le> length (filter (\<lambda>x. age_key x \<le> age_key r) ?ours)"
    using wlen by (cases "filter (\<lambda>x. age_key x \<le> age_key r) (drop (window k) ?ours)") auto
  also have "\<dots> = length (filter (\<lambda>r'. cand r' \<and> age_key r' \<le> age_key r) rows)"
  proof -
    have "mset (filter (\<lambda>x. age_key x \<le> age_key r) ?ours)
        = mset (filter (\<lambda>x. age_key x \<le> age_key r) (filter cand rows))"
      by (simp only: mset_filter mset_sort)
    then have "length (filter (\<lambda>x. age_key x \<le> age_key r) ?ours)
        = length (filter (\<lambda>x. age_key x \<le> age_key r) (filter cand rows))" by (metis size_mset)
    then show ?thesis by (simp add: conj_commute)
  qed
  finally show ?thesis using r rin by auto
qed

lemma keep_prune_disjoint:
  assumes "distinct (map sid rows)"
  shows "set (r_keep (plan rows k)) \<inter> set (r_prune (plan rows k)) = {}"
proof -
  let ?ours = "sort_key age_key (filter cand rows)"
  have "distinct (map sid (filter cand rows))" using assms by (simp add: distinct_map_filter)
  then have "distinct (map sid ?ours)" by (simp add: distinct_map_sort_key)
  then have "distinct (map sid (take (window k) ?ours) @ map sid (drop (window k) ?ours))"
    by (metis append_take_drop_id map_append)
  then show ?thesis by (auto simp: keep_law prune_law)
qed

text \<open>Every candidate is accounted for.\<close>

lemma accounted:
  assumes "r \<in> set rows" and "cand r"
  shows "sid r \<in> set (r_keep (plan rows k)) \<union> set (r_prune (plan rows k))
               \<union> fst ` set (r_protected (plan rows k))"
proof -
  let ?ours = "sort_key age_key (filter cand rows)"
  from assms have "r \<in> set ?ours" by simp
  then have "r \<in> set (take (window k) ?ours) \<union> set (drop (window k) ?ours)"
    by (metis append_take_drop_id set_append)
  then show ?thesis
    by (cases "spare r") (auto simp: keep_law prune_law protected_law)
qed

end

end
