(* ===== verification/Snapshot_Policy.thy ===== *)
theory Snapshot_Policy
  imports Cql Utc Retention
begin

text \<open>
  The decisions of the snapshot policy (\<open>src/helios_snapshots.py\<close>, everything above \<open>Runner\<close>):
  which policies can be stored, which one governs a vdisk, when a snapshot is due and how it is
  named, what retention may delete, and when a rollback must not start. All of them are pure, as
  in the source. Rows read from Hydra are records whose columns are options: a missing or null
  column is \<^const>\<open>None\<close>.
\<close>

section \<open>Constants and rows\<close>

abbreviation scope_cluster :: string where "scope_cluster \<equiv> ''cluster''"
abbreviation scope_container :: string where "scope_container \<equiv> ''container''"
abbreviation scope_vdisk :: string where "scope_vdisk \<equiv> ''vdisk''"

definition scopes :: "string list" where
  "scopes = [scope_cluster, scope_container, scope_vdisk]"

definition scope_precedence :: "string list" where
  "scope_precedence = [scope_vdisk, scope_container, scope_cluster]"

abbreviation cluster_target :: string where "cluster_target \<equiv> ''*''"

abbreviation origin_policy :: string where "origin_policy \<equiv> ''policy''"
abbreviation origin_pre_rollback :: string where "origin_pre_rollback \<equiv> ''pre-rollback''"

definition run_interval_seconds :: int where "run_interval_seconds = 3600"
definition due_slack_seconds :: int where "due_slack_seconds = 300"
definition max_keep_last :: int where "max_keep_last = 1000"

definition name_re :: "string \<Rightarrow> bool" where
  "name_re s = name_shape 62 s"

record policy =
  p_scope :: "string option"
  p_target :: "string option"
  p_enabled :: "bool option"
  p_interval :: "int option"
  p_keep_last :: "int option"

record index_row =
  ix_snapshot :: string
  ix_created :: "int option"
  ix_origin :: "string option"

record vdisk_row =
  v_id :: string
  v_class :: "string option"
  v_owner :: "string option"
  v_container :: "string option"
  v_parent :: "string option"

record vm_row =
  vm_name :: string
  vm_state :: "string option"
  vm_status :: "string option"
  vm_host_ip :: "string option"
  vm_disks_list :: "string option"

datatype policy_error =
    Bad_Scope | Bad_Name string | Not_Whole_Numbers | Interval_Too_Short | Keep_Out_Of_Range
  | Name_Too_Long

section \<open>Policies\<close>

definition cql_text :: "string \<Rightarrow> string" where
  "cql_text v = quote_char # double_quotes v @ [quote_char]"

definition normal_target :: "string \<Rightarrow> string option \<Rightarrow> policy_error + string" where
  "normal_target scope target =
     (if scope \<notin> set scopes then Inl Bad_Scope
      else if scope = scope_cluster then Inr cluster_target
      else if \<not> name_re (or_str target []) then Inl (Bad_Name scope)
      else Inr (or_str target []))"

definition validate_policy ::
    "string \<Rightarrow> string option \<Rightarrow> pynum \<Rightarrow> pynum \<Rightarrow> policy_error + string \<times> string \<times> int \<times> int" where
  "validate_policy scope target interval keep =
     (case normal_target scope target of
        Inl e \<Rightarrow> Inl e
      | Inr tgt \<Rightarrow>
          (case (py_int interval, py_int keep) of
             (Some i, Some k) \<Rightarrow>
               (if i < run_interval_seconds then Inl Interval_Too_Short
                else if k < 1 \<or> k > max_keep_last then Inl Keep_Out_Of_Range
                else Inr (scope, tgt, i, k))
           | _ \<Rightarrow> Inl Not_Whole_Numbers))"

definition policy_insert_statement ::
    "string \<Rightarrow> string option \<Rightarrow> bool \<Rightarrow> pynum \<Rightarrow> pynum \<Rightarrow> int \<Rightarrow> policy_error + piece list" where
  "policy_insert_statement scope target enabled interval keep now_ms =
     (case validate_policy scope target interval keep of
        Inl e \<Rightarrow> Inl e
      | Inr (sc, tgt, i, k) \<Rightarrow> Inr
          [Lit ''INSERT INTO hydra.dfs_snapshot_policies (scope, target, enabled, interval_seconds, keep_last, updated_at_ms) VALUES ('',
           Val sc, Lit '', '', Val tgt,
           Lit ('', '' @ (if enabled then ''true'' else ''false'') @ '', '' @ show_int i @ '', ''
                @ show_int k @ '', '' @ show_int now_ms @ '');'')])"

definition policy_delete_statement :: "string \<Rightarrow> string option \<Rightarrow> policy_error + piece list" where
  "policy_delete_statement scope target =
     (case normal_target scope target of
        Inl e \<Rightarrow> Inl e
      | Inr tgt \<Rightarrow> Inr
          [Lit ''DELETE FROM hydra.dfs_snapshot_policies WHERE scope = '', Val scope,
           Lit '' AND target = '', Val tgt, Lit '';''])"

fun first_policy :: "policy list \<Rightarrow> (string \<times> string option) list \<Rightarrow> policy option" where
  "first_policy policies [] = None"
| "first_policy policies ((sc, tgt) # rest) =
     (case dict_of (\<lambda>p. (p_scope p, p_target p)) policies (Some sc, tgt) of
        None \<Rightarrow> first_policy policies rest
      | Some row \<Rightarrow> if truthy (p_enabled row) then Some row else None)"

definition effective_policy :: "policy list \<Rightarrow> string \<Rightarrow> string option \<Rightarrow> policy option" where
  "effective_policy policies vdisk container =
     first_policy policies (map (\<lambda>sc. (sc, if sc = scope_vdisk then Some vdisk
                                           else if sc = scope_container then container
                                           else Some cluster_target)) scope_precedence)"

section \<open>Taking\<close>

definition snapshot_name :: "string \<Rightarrow> int \<Rightarrow> policy_error + string" where
  "snapshot_name vdisk now_ms =
     (let name = vdisk @ ''-auto-'' @ utc_stamp now_ms
      in if name_re name then Inr name else Inl Name_Too_Long)"

definition pre_rollback_name :: "string \<Rightarrow> int \<Rightarrow> policy_error + string" where
  "pre_rollback_name vdisk now_ms =
     (let name = vdisk @ ''-pre-rollback-'' @ utc_stamp now_ms
      in if name_re name then Inr name else Inl Name_Too_Long)"

definition is_due :: "int option \<Rightarrow> int option \<Rightarrow> int \<Rightarrow> bool" where
  "is_due interval newest now_ms =
     (case newest of
        None \<Rightarrow> True
      | Some t \<Rightarrow> now_ms - t \<ge> or_int interval run_interval_seconds * 1000 - due_slack_seconds * 1000)"

section \<open>Retention\<close>

datatype spared = Derived | Attached_On string

definition spare_snapshot ::
    "string set \<Rightarrow> (string \<Rightarrow> string option) \<Rightarrow> index_row \<Rightarrow> spared option" where
  "spare_snapshot referenced attached r =
     (if ix_snapshot r \<in> referenced then Some Derived
      else map_option Attached_On (attached (ix_snapshot r)))"

definition index_age_key :: "index_row \<Rightarrow> int \<times> string" where
  "index_age_key r = (- or_int (ix_created r) 0, ix_snapshot r)"

definition by_policy :: "index_row \<Rightarrow> bool" where
  "by_policy r = (ix_origin r = Some origin_policy)"

definition plan_retention ::
    "string set \<Rightarrow> (string \<Rightarrow> string option) \<Rightarrow> index_row list \<Rightarrow> int \<Rightarrow> spared retention" where
  "plan_retention referenced attached snapshots keep_last =
     (let ours = sort_key index_age_key (filter by_policy snapshots);
          n = window keep_last;
          (prune, prot) = sift ix_snapshot (spare_snapshot referenced attached) (drop n ours) [] []
      in \<lparr>r_keep = map ix_snapshot (take n ours), r_prune = prune, r_protected = prot\<rparr>)"

section \<open>Rollback\<close>

text \<open>\<open>\A(.+)-disk(\d+)\Z\<close>, the VM's name being the first group.\<close>

definition vm_for_vdisk :: "string \<Rightarrow> string option" where
  "vm_for_vdisk s =
     (let ds = takeWhile is_digit (rev s);
          rest = take (length s - length ds) s;
          name = take (length rest - 5) rest
      in if ds \<noteq> [] \<and> ends_with rest ''-disk'' \<and> name \<noteq> [] \<and> CHR 0x0A \<notin> set name
         then Some name else None)"

datatype rollback_refused =
    No_Vdisk string | No_Snapshot string | Not_A_Snapshot_Of string string
  | Vm_Not_Stopped string | Vm_Mid_Operation string | Still_Attached "string list"
  | Could_Not_Ask "string list"

definition rollback_refusal ::
    "string \<Rightarrow> string \<Rightarrow> vdisk_row option \<Rightarrow> vdisk_row option \<Rightarrow> vm_row option
     \<Rightarrow> string list \<Rightarrow> string list \<Rightarrow> rollback_refused option" where
  "rollback_refusal vdisk snap vrow srow vm attached_on unreachable =
     (case vrow of None \<Rightarrow> Some (No_Vdisk vdisk) | Some _ \<Rightarrow>
      (case srow of None \<Rightarrow> Some (No_Snapshot snap) | Some s \<Rightarrow>
       if or_str (v_parent s) [] \<noteq> vdisk then Some (Not_A_Snapshot_Of snap vdisk)
       else
         (case vm of
            Some m \<Rightarrow>
              if lower (strip (or_str (vm_state m) [])) \<noteq> ''stopped'' then Some (Vm_Not_Stopped (vm_name m))
              else if strip (or_str (vm_status m) []) \<noteq> [] then Some (Vm_Mid_Operation (vm_name m))
              else if attached_on \<noteq> [] then Some (Still_Attached (sort attached_on))
              else if unreachable \<noteq> [] then Some (Could_Not_Ask (sort unreachable))
              else None
          | None \<Rightarrow>
              if attached_on \<noteq> [] then Some (Still_Attached (sort attached_on))
              else if unreachable \<noteq> [] then Some (Could_Not_Ask (sort unreachable))
              else None)))"

section \<open>Interpretations\<close>

interpretation snap_quote: quoting cql_text
  by unfold_locales (simp add: cql_text_def skip_literal_doubled not_quote_first_def split: list.splits)

interpretation snap_ret: window_retention by_policy index_age_key ix_snapshot
    "spare_snapshot referenced attached" "plan_retention referenced attached"
  for referenced attached
proof unfold_locales
  fix rows k
  let ?ours = "sort_key index_age_key (filter by_policy rows)"
  let ?rest = "drop (window k) ?ours"
  let ?sift = "sift ix_snapshot (spare_snapshot referenced attached) ?rest [] []"
  have plan: "plan_retention referenced attached rows k =
    \<lparr>r_keep = map ix_snapshot (take (window k) ?ours), r_prune = fst ?sift, r_protected = snd ?sift\<rparr>"
    by (simp add: plan_retention_def Let_def split_beta)
  show "r_keep (plan_retention referenced attached rows k) = map ix_snapshot (take (window k) ?ours)"
    by (simp add: plan)
  show "r_prune (plan_retention referenced attached rows k) =
      map ix_snapshot (filter (\<lambda>r. spare_snapshot referenced attached r = None) ?rest)"
    by (simp add: plan sift_prune)
  show "s \<in> fst ` set (r_protected (plan_retention referenced attached rows k)) \<longleftrightarrow>
      (\<exists>r \<in> set ?rest. ix_snapshot r = s \<and> spare_snapshot referenced attached r \<noteq> None)" for s
    by (simp add: plan sift_protected_complete)
qed

section \<open>Properties\<close>

text \<open>
  Retention never plans the deletion of a snapshot that is needed: each one it would prune was taken by
  the policy, is no vdisk's parent, is attached nowhere, and has more than the window's number of policy
  snapshots at least as recent as itself (itself among them); and as many of the newest are kept as the
  window holds, or all of them. The window is at least one, whatever \<open>keep_last\<close> says.
\<close>

theorem retention_keeps_what_is_needed:
  "list_all (\<lambda>s. s \<notin> referenced \<and> attached s = None \<and>
       list_ex (\<lambda>r. ix_snapshot r = s \<and> by_policy r \<and>
          window keep < length (filter (\<lambda>r'. by_policy r' \<and> index_age_key r' \<le> index_age_key r) rows)) rows)
     (r_prune (plan_retention referenced attached rows keep))
   \<and> length (r_keep (plan_retention referenced attached rows keep))
       = min (nat (max 1 keep)) (length (filter by_policy rows))"
proof -
  have "s \<notin> referenced \<and> attached s = None \<and>
       list_ex (\<lambda>r. ix_snapshot r = s \<and> by_policy r \<and>
          window keep < length (filter (\<lambda>r'. by_policy r' \<and> index_age_key r' \<le> index_age_key r) rows)) rows"
    if "s \<in> set (r_prune (plan_retention referenced attached rows keep))" for s
    using snap_ret.prune_is_older [OF that] by (auto simp: spare_snapshot_def list_ex_iff split: if_splits)
  then show ?thesis by (simp add: list_all_iff snap_ret.keep_size window_def)
qed

text \<open>
  Nothing is lost track of: every snapshot the policy took is, in the plan, kept, pruned or spared with a
  reason, and with distinct snapshot ids none is both kept and pruned.
\<close>

theorem retention_accounts_for_all:
  assumes "distinct (map ix_snapshot rows)"
  shows "set (map ix_snapshot (filter by_policy rows))
       \<subseteq> set (r_keep (plan_retention referenced attached rows keep))
         \<union> set (r_prune (plan_retention referenced attached rows keep))
         \<union> fst ` set (r_protected (plan_retention referenced attached rows keep))
     \<and> set (r_keep (plan_retention referenced attached rows keep))
         \<inter> set (r_prune (plan_retention referenced attached rows keep)) = {}"
proof
  show "set (map ix_snapshot (filter by_policy rows))
       \<subseteq> set (r_keep (plan_retention referenced attached rows keep))
         \<union> set (r_prune (plan_retention referenced attached rows keep))
         \<union> fst ` set (r_protected (plan_retention referenced attached rows keep))"
    using snap_ret.accounted [of _ rows] by fastforce
qed (rule snap_ret.keep_prune_disjoint [OF assms])

theorem retention_accounts_for_all_witness:
  "let rows = [\<lparr>ix_snapshot = ''a'', ix_created = Some 1, ix_origin = Some origin_policy\<rparr>,
               \<lparr>ix_snapshot = ''b'', ix_created = Some 2, ix_origin = Some origin_policy\<rparr>];
       plan = plan_retention {} (\<lambda>_. None) rows 1
   in r_keep plan = [''b''] \<and> r_prune plan = [''a''] \<and> set (r_keep plan) \<inter> set (r_prune plan) = {}"
proof -
  let ?rows = "[\<lparr>ix_snapshot = ''a'', ix_created = Some 1, ix_origin = Some origin_policy\<rparr>,
               \<lparr>ix_snapshot = ''b'', ix_created = Some 2, ix_origin = Some origin_policy\<rparr>]"
  have "r_keep (plan_retention {} (\<lambda>_. None) ?rows 1) = [''b'']
      \<and> r_prune (plan_retention {} (\<lambda>_. None) ?rows 1) = [''a'']" by code_simp
  moreover have "set (r_keep (plan_retention {} (\<lambda>_. None) ?rows 1))
      \<inter> set (r_prune (plan_retention {} (\<lambda>_. None) ?rows 1)) = {}"
    using retention_accounts_for_all [of ?rows "{}" "\<lambda>_. None" 1] by simp
  ultimately show ?thesis by (simp add: Let_def)
qed

text \<open>
  A vdisk's own row, disabled, exempts that vdisk whatever its container and the cluster say, and changes
  the policy of no other vdisk.
\<close>

theorem disabled_row_exempts_one_vdisk:
  "effective_policy (ps @ [\<lparr>p_scope = Some scope_vdisk, p_target = Some v, p_enabled = Some False,
                           p_interval = i, p_keep_last = k\<rparr>]) w c
     = (if w = v then None else effective_policy ps w c)"
  by (simp add: effective_policy_def scope_precedence_def dict_of_def split: option.split)

text \<open>
  Two runs of the policy give a snapshot the same name exactly when they name it for the same vdisk in the
  same minute: names never collide between vdisks, and the run that comes second within a minute
  asks for the name that exists already.
\<close>

theorem snapshot_names_do_not_collide:
  assumes "snapshot_name v t = Inr a" and "snapshot_name w u = Inr b" and "0 \<le> t" and "0 \<le> u"
  shows "a = b \<longleftrightarrow> v = w \<and> t div 60000 = u div 60000"
proof -
  have ab: "a = (v @ ''-auto'') @ CHR ''-'' # utc_stamp t" "b = (w @ ''-auto'') @ CHR ''-'' # utc_stamp u"
    using assms by (auto simp: snapshot_name_def Let_def split: if_splits)
  show ?thesis
  proof
    assume "a = b"
    then have "(v @ ''-auto'') @ CHR ''-'' # utc_stamp t = (w @ ''-auto'') @ CHR ''-'' # utc_stamp u"
      by (simp add: ab)
    from stamped_name_inject [OF this assms(3,4)] show "v = w \<and> t div 60000 = u div 60000" by simp
  qed (use assms(3,4) in \<open>simp add: ab utc_stamp_eq_iff\<close>)
qed

theorem snapshot_names_do_not_collide_witness:
  "snapshot_name ''vm1-disk0'' 60000 = Inr ''vm1-disk0-auto-197001010001''
   \<and> snapshot_name ''vm1-disk0'' 65000 = Inr ''vm1-disk0-auto-197001010001''
   \<and> (60000 :: int) div 60000 = 65000 div 60000"
proof -
  have n: "snapshot_name ''vm1-disk0'' 60000 = Inr ''vm1-disk0-auto-197001010001''"
    "snapshot_name ''vm1-disk0'' 65000 = Inr ''vm1-disk0-auto-197001010001''" by code_simp+
  with snapshot_names_do_not_collide [OF n] show ?thesis by simp
qed

end
