(* ===== verification/Sha256.thy ===== *)
theory Sha256
  imports Prelude "HOL-Library.Word"
begin

text \<open>
  SHA-256 as \<open>hashlib.sha256(text.encode()).hexdigest()\<close> computes it: the padding of the message, the
  message schedule, the compression of one block of sixteen words and the printing of the eight words
  of the state. The sources use it for names that must differ and for digests that must agree.
\<close>

unbundle bit_operations_syntax

type_synonym w32 = "32 word"

definition rotr :: "nat \<Rightarrow> w32 \<Rightarrow> w32" where
  "rotr n w = (drop_bit n w OR push_bit (32 - n) w)"

definition round_constants :: "w32 list" where
  "round_constants =
    [1116352408, 1899447441, 3049323471, 3921009573, 961987163, 1508970993,
     2453635748, 2870763221, 3624381080, 310598401, 607225278, 1426881987,
     1925078388, 2162078206, 2614888103, 3248222580, 3835390401, 4022224774,
     264347078, 604807628, 770255983, 1249150122, 1555081692, 1996064986,
     2554220882, 2821834349, 2952996808, 3210313671, 3336571891, 3584528711,
     113926993, 338241895, 666307205, 773529912, 1294757372, 1396182291,
     1695183700, 1986661051, 2177026350, 2456956037, 2730485921, 2820302411,
     3259730800, 3345764771, 3516065817, 3600352804, 4094571909, 275423344,
     430227734, 506948616, 659060556, 883997877, 958139571, 1322822218,
     1537002063, 1747873779, 1955562222, 2024104815, 2227730452, 2361852424,
     2428436474, 2756734187, 3204031479, 3329325298]"

type_synonym sha_state = "w32 \<times> w32 \<times> w32 \<times> w32 \<times> w32 \<times> w32 \<times> w32 \<times> w32"

definition initial_hash :: sha_state where
  "initial_hash = (1779033703, 3144134277, 1013904242, 2773480762, 1359893119, 2600822924, 528734635, 1541459225)"

text \<open>The schedule is kept with the newest word first.\<close>

definition next_word :: "w32 list \<Rightarrow> w32" where
  "next_word ws =
     (let s0 = rotr 7 (ws ! 14) XOR rotr 18 (ws ! 14) XOR drop_bit 3 (ws ! 14);
          s1 = rotr 17 (ws ! 1) XOR rotr 19 (ws ! 1) XOR drop_bit 10 (ws ! 1)
      in ws ! 15 + s0 + ws ! 6 + s1)"

fun extend :: "nat \<Rightarrow> w32 list \<Rightarrow> w32 list" where
  "extend 0 ws = ws"
| "extend (Suc n) ws = extend n (next_word ws # ws)"

definition schedule :: "w32 list \<Rightarrow> w32 list" where
  "schedule block = rev (extend 48 (rev block))"

definition one_round :: "sha_state \<Rightarrow> w32 \<times> w32 \<Rightarrow> sha_state" where
  "one_round s kw = (case s of (a, b, c, d, e, f, g, h) \<Rightarrow>
     let s1 = rotr 6 e XOR rotr 11 e XOR rotr 25 e;
         ch = (e AND f) XOR (NOT e AND g);
         t1 = h + s1 + ch + fst kw + snd kw;
         s0 = rotr 2 a XOR rotr 13 a XOR rotr 22 a;
         maj = (a AND b) XOR (a AND c) XOR (b AND c)
     in (t1 + (s0 + maj), a, b, c, d + t1, e, f, g))"

definition compress :: "sha_state \<Rightarrow> w32 list \<Rightarrow> sha_state" where
  "compress s block =
     (case (s, foldl one_round s (zip round_constants (schedule block))) of
        ((a, b, c, d, e, f, g, h), (a', b', c', d', e', f', g', h')) \<Rightarrow>
          (a + a', b + b', c + c', d + d', e + e', f + f', g + g', h + h'))"

section \<open>Padding\<close>

fun bytes_be :: "nat \<Rightarrow> nat \<Rightarrow> nat list" where
  "bytes_be 0 n = []"
| "bytes_be (Suc k) n = bytes_be k (n div 256) @ [n mod 256]"

definition pad :: "nat list \<Rightarrow> nat list" where
  "pad bs = bs @ [128] @ replicate ((119 - length bs mod 64) mod 64) 0 @ bytes_be 8 (8 * length bs)"

fun words_of :: "nat list \<Rightarrow> w32 list" where
  "words_of (a # b # c # d # rest) =
     word_of_nat (a * 16777216 + b * 65536 + c * 256 + d) # words_of rest"
| "words_of _ = []"

function blocks :: "w32 list \<Rightarrow> w32 list list" where
  "blocks ws = (if length ws < 16 then [] else take 16 ws # blocks (drop 16 ws))"
  by auto
termination by (relation "measure length") auto

declare blocks.simps [simp del]

section \<open>The digest\<close>

definition hex_digit :: "nat \<Rightarrow> char" where
  "hex_digit n = (if n < 10 then char_of (48 + n) else char_of (87 + n))"

definition hex_byte :: "nat \<Rightarrow> string" where
  "hex_byte n = [hex_digit (n div 16), hex_digit (n mod 16)]"

definition hex_word :: "w32 \<Rightarrow> string" where
  "hex_word w = concat (map hex_byte (bytes_be 4 (unat w)))"

definition sha256_hex :: "string \<Rightarrow> string" where
  "sha256_hex s =
     (case foldl compress initial_hash (blocks (words_of (pad (map of_char s)))) of
        (a, b, c, d, e, f, g, h) \<Rightarrow> concat (map hex_word [a, b, c, d, e, f, g, h]))"

lemma length_bytes_be [simp]: "length (bytes_be k n) = k"
  by (induction k n rule: bytes_be.induct) auto

lemma bytes_be_bound: "b \<in> set (bytes_be k n) \<Longrightarrow> b < 256"
  by (induction k n rule: bytes_be.induct) auto

text \<open>The padded message is a whole number of blocks, so none of it is dropped.\<close>

lemma length_pad: "64 dvd length (pad bs)"
proof -
  define m q where "m = length bs mod 64" and "q = length bs div 64"
  have "m < 64" by (simp add: m_def)
  then have "(119 - m) mod 64 = (if m \<le> 55 then 55 - m else 119 - m)"
    by (auto simp: mod_if)
  moreover have "length bs = 64 * q + m" by (simp add: m_def q_def)
  ultimately have "length (pad bs) = 64 * (if m \<le> 55 then q + 1 else q + 2)"
    using \<open>m < 64\<close> by (simp add: pad_def m_def [symmetric])
  then show ?thesis by simp
qed

lemma length_concat_hex: "length (concat (map hex_byte bs)) = 2 * length bs"
  by (induction bs) (simp_all add: hex_byte_def)

lemma length_sha256_hex [simp]: "length (sha256_hex s) = 64"
  by (simp add: sha256_hex_def hex_word_def length_concat_hex split: prod.split)

definition hex_lower :: "char \<Rightarrow> bool" where
  "hex_lower c = (let n = (of_char c :: nat) in (48 \<le> n \<and> n \<le> 57) \<or> (97 \<le> n \<and> n \<le> 102))"

lemma hex_digit_lower: "n < 16 \<Longrightarrow> hex_lower (hex_digit n)"
  by (simp add: hex_lower_def hex_digit_def Let_def)

lemma hex_word_chars: "c \<in> set (hex_word w) \<Longrightarrow> hex_lower c"
  by (auto simp: hex_word_def hex_byte_def dest!: bytes_be_bound intro!: hex_digit_lower)

lemma sha256_hex_chars: "c \<in> set (sha256_hex s) \<Longrightarrow> hex_lower c"
proof -
  assume "c \<in> set (sha256_hex s)"
  then have "\<exists>w. c \<in> set (hex_word w)"
    unfolding sha256_hex_def by (simp split: prod.splits) blast
  then show ?thesis using hex_word_chars by blast
qed

end
