(* ===== verification/Replication_Plan.thy ===== *)
theory Replication_Plan
  imports Snapshot_Policy Sha256
begin

text \<open>
  What a replication sends (\<open>src/rauru_replication.py\<close>, the pure half): the name a replica is stored
  under, the manifest built from the rows of the block map and of the extent groups, the text its
  digest is taken over, its validation, and the delta against what the remote holds.
\<close>

abbreviation manifest_format :: int where "manifest_format \<equiv> 1"
abbreviation footer_len :: int where "footer_len \<equiv> 32"
abbreviation chunk :: int where "chunk \<equiv> 1048576"
abbreviation max_group :: int where "max_group \<equiv> 268435456"

datatype tstate = Offered | Sending | Publishing | Visible | Paused | Failed

datatype repl_error =
    Cannot_Name string | Names_Extent_Id int | Group_Not_Shippable string "string option"
  | Row_Past_End string | Group_Too_Large string
  | Unknown_Format int | Bad_Snapshot_Name string | Bad_Group_Id string | Bad_Group_Length string
  | Listed_Twice string | Rows_Not_Ordered int | Group_Not_Listed int string | Row_Past_Group int
  | Bad_Transition tstate tstate
  | Remote_Failure string

section \<open>Names\<close>

definition repl_char :: "char \<Rightarrow> bool" where
  "repl_char c = (name_char c \<or> c = CHR ''~'')"

definition repl_name_re :: "string \<Rightarrow> bool" where
  "repl_name_re s = (case s of [] \<Rightarrow> False
     | c # cs \<Rightarrow> is_alnum c \<and> length cs \<le> 199 \<and> list_all repl_char cs)"

text \<open>\<open>\A[A-Za-z0-9][A-Za-z0-9_.-]*\Z\<close>\<close>

definition replica_part :: "string \<Rightarrow> bool" where
  "replica_part s = name_shape (length s) s"

definition replica_vdisk_name :: "string \<Rightarrow> string \<Rightarrow> repl_error + string" where
  "replica_vdisk_name site_id snapshot =
     (if \<not> replica_part site_id then Inl (Cannot_Name site_id)
      else if \<not> replica_part snapshot then Inl (Cannot_Name snapshot)
      else
        (let name = ''r-'' @ take 8 site_id @ ''-'' @ snapshot in
         if length name \<le> 63 then Inr name
         else Inr (take 52 name @ ''-'' @ take 10 (sha256_hex (site_id @ ''/'' @ snapshot)))))"

definition target_group_id :: "string \<Rightarrow> int \<Rightarrow> bool \<Rightarrow> string" where
  "target_group_id source_id len sealed = (if sealed then source_id else source_id @ ''~'' @ show_int len)"

section \<open>The manifest\<close>

record block_row =
  br_extent :: int
  br_group :: string
  br_offset :: int
  br_length :: int
  br_hash :: int
  br_extent_id :: "string option"

record egroup =
  eg_state :: "string option"
  eg_size :: int
  eg_seal :: "string option"

record map_row =
  w_extent :: int
  w_group :: string
  w_offset :: int
  w_length :: int
  w_hash :: int

record group =
  g_id :: string
  g_length :: int
  g_seal :: string

record manifest =
  mf_format :: int
  mf_snapshot :: string
  mf_size :: int
  mf_extent :: int
  mf_rows :: "map_row list"
  mf_groups :: "group list"

fun check_groups :: "group list \<Rightarrow> (string \<times> int) list \<Rightarrow> repl_error + (string \<times> int) list" where
  "check_groups [] lengths = Inr lengths"
| "check_groups (g # gs) lengths =
     (if \<not> repl_name_re (g_id g) \<or> starts_with (g_id g) ''.'' then Inl (Bad_Group_Id (g_id g))
      else if \<not> (0 < g_length g \<and> g_length g \<le> max_group) then Inl (Bad_Group_Length (g_id g))
      else if map_of lengths (g_id g) \<noteq> None then Inl (Listed_Twice (g_id g))
      else check_groups gs (dict_set (g_id g) (g_length g) lengths))"

fun check_rows :: "(string \<times> int) list \<Rightarrow> int option \<Rightarrow> map_row list \<Rightarrow> repl_error + unit" where
  "check_rows lengths prev [] = Inr ()"
| "check_rows lengths prev (r # rs) =
     (if (case prev of None \<Rightarrow> False | Some p \<Rightarrow> w_extent r \<le> p) then Inl (Rows_Not_Ordered (w_extent r))
      else (case map_of lengths (w_group r) of
          None \<Rightarrow> Inl (Group_Not_Listed (w_extent r) (w_group r))
        | Some len \<Rightarrow>
            if w_offset r + w_length r + footer_len > len then Inl (Row_Past_Group (w_extent r))
            else check_rows lengths (Some (w_extent r)) rs))"

definition validate_manifest :: "manifest \<Rightarrow> repl_error + unit" where
  "validate_manifest m =
     (if mf_format m \<noteq> manifest_format then Inl (Unknown_Format (mf_format m))
      else if \<not> repl_name_re (mf_snapshot m) then Inl (Bad_Snapshot_Name (mf_snapshot m))
      else (case check_groups (mf_groups m) [] of
          Inl e \<Rightarrow> Inl e
        | Inr lengths \<Rightarrow> check_rows lengths None (mf_rows m)))"

text \<open>\<open>build_manifest\<close>: rows by group, then one group at a time in the order of their ids.\<close>

fun group_rows :: "block_row list \<Rightarrow> (string \<times> block_row list) list \<Rightarrow>
    repl_error + (string \<times> block_row list) list" where
  "group_rows [] d = Inr d"
| "group_rows (r # rs) d =
     (if truthy_str (br_extent_id r) then Inl (Names_Extent_Id (br_extent r))
      else group_rows rs (dict_append (br_group r) r d))"

definition row_end :: "block_row \<Rightarrow> int" where
  "row_end r = br_offset r + br_length r + footer_len"

definition rows_end :: "block_row list \<Rightarrow> int" where
  "rows_end rs = Max (set (map row_end rs))"

definition ship_group :: "(string \<Rightarrow> egroup option) \<Rightarrow> string \<Rightarrow> block_row list \<Rightarrow> repl_error + string \<times> group" where
  "ship_group egroups gid rs =
     (case egroups gid of
        None \<Rightarrow> Inl (Group_Not_Shippable gid None)
      | Some info \<Rightarrow>
          if eg_state info \<notin> {Some ''sealed'', Some ''open''} then Inl (Group_Not_Shippable gid (eg_state info))
          else
            (let sealed = (eg_state info = Some ''sealed'');
                 len = (if sealed then eg_size info else rows_end rs);
                 tid = target_group_id gid len sealed
             in if rows_end rs > len then Inl (Row_Past_End gid)
                else if len > max_group then Inl (Group_Too_Large gid)
                else Inr (tid, \<lparr>g_id = tid, g_length = len,
                               g_seal = (if sealed then or_str (eg_seal info) [] else [])\<rparr>)))"

definition ship_row :: "string \<Rightarrow> block_row \<Rightarrow> map_row" where
  "ship_row tid r = \<lparr>w_extent = br_extent r, w_group = tid, w_offset = br_offset r,
     w_length = br_length r, w_hash = br_hash r\<rparr>"

fun ship_groups :: "(string \<Rightarrow> egroup option) \<Rightarrow> (string \<times> block_row list) list \<Rightarrow>
    group list \<Rightarrow> map_row list \<Rightarrow> (string \<times> string) list \<Rightarrow>
    repl_error + group list \<times> map_row list \<times> (string \<times> string) list" where
  "ship_groups egroups [] gs rows ids = Inr (gs, rows, ids)"
| "ship_groups egroups ((gid, rs) # rest) gs rows ids =
     (case ship_group egroups gid rs of
        Inl e \<Rightarrow> Inl e
      | Inr (tid, g) \<Rightarrow>
          ship_groups egroups rest (gs @ [g]) (rows @ map (ship_row tid) rs) (dict_set tid gid ids))"

definition build_manifest :: "string \<Rightarrow> int \<Rightarrow> int \<Rightarrow> block_row list \<Rightarrow> (string \<Rightarrow> egroup option) \<Rightarrow>
    repl_error + manifest \<times> (string \<times> string) list" where
  "build_manifest snapshot size_bytes extent_bytes block_rows egroups =
     (case group_rows block_rows [] of
        Inl e \<Rightarrow> Inl e
      | Inr per_group \<Rightarrow>
          (case ship_groups egroups (sort_key fst per_group) [] [] [] of
             Inl e \<Rightarrow> Inl e
           | Inr (gs, rows, ids) \<Rightarrow>
               (let m = \<lparr>mf_format = manifest_format, mf_snapshot = snapshot, mf_size = size_bytes,
                         mf_extent = extent_bytes, mf_rows = sort_key w_extent rows, mf_groups = gs\<rparr>
                in case validate_manifest m of Inl e \<Rightarrow> Inl e | Inr _ \<Rightarrow> Inr (m, ids))))"

section \<open>The digest\<close>

abbreviation newline :: string where "newline \<equiv> [CHR 0x0A]"

definition row_line :: "map_row \<Rightarrow> string" where
  "row_line r = show_int (w_extent r) @ '' '' @ w_group r @ '' '' @ show_int (w_offset r) @ '' ''
     @ show_int (w_length r) @ '' '' @ show_int (w_hash r) @ newline"

definition canonical :: "manifest \<Rightarrow> string" where
  "canonical m = ''helios-map-v'' @ show_int manifest_format @ newline @ ''size '' @ show_int (mf_size m) @ newline
     @ ''extent '' @ show_int (mf_extent m) @ newline @ concat (map row_line (mf_rows m))"

definition map_digest :: "manifest \<Rightarrow> string" where
  "map_digest m = sha256_hex (canonical m)"

section \<open>The delta\<close>

datatype holding = Have_Complete | Have_Absent | Have_Partial int

record delta =
  d_ship :: "(string \<times> int) list"
  d_bytes_needed :: int
  d_complete :: "string list"

definition ship_start :: "group \<Rightarrow> holding \<Rightarrow> int" where
  "ship_start g h = (case h of Have_Partial staged \<Rightarrow> min staged (g_length g) div chunk * chunk | _ \<Rightarrow> 0)"

definition have_of :: "(string \<Rightarrow> holding option) \<Rightarrow> group \<Rightarrow> holding" where
  "have_of held g = (case held (g_id g) of None \<Rightarrow> Have_Absent | Some h \<Rightarrow> h)"

definition delta_step :: "(string \<Rightarrow> holding option) \<Rightarrow> delta \<Rightarrow> group \<Rightarrow> delta" where
  "delta_step held d g =
     (if have_of held g = Have_Complete then d\<lparr>d_complete := d_complete d @ [g_id g]\<rparr>
      else let start = ship_start g (have_of held g) in
        d\<lparr>d_ship := d_ship d @ [(g_id g, start)], d_bytes_needed := d_bytes_needed d + (g_length g - start)\<rparr>)"

definition plan_delta :: "manifest \<Rightarrow> (string \<Rightarrow> holding option) \<Rightarrow> delta" where
  "plan_delta m held = foldl (delta_step held) \<lparr>d_ship = [], d_bytes_needed = 0, d_complete = []\<rparr> (mf_groups m)"

section \<open>Lemmas: what validation ensures\<close>

lemma check_groups_ok:
  assumes "check_groups gs lengths = Inr ls"
  shows "distinct (map g_id gs) \<and> (\<forall>g \<in> set gs. 0 < g_length g \<and> g_length g \<le> max_group \<and> repl_name_re (g_id g)
            \<and> map_of lengths (g_id g) = None \<and> map_of ls (g_id g) = Some (g_length g))
     \<and> (\<forall>k. k \<notin> g_id ` set gs \<longrightarrow> map_of ls k = map_of lengths k)"
  using assms
proof (induction gs lengths rule: check_groups.induct)
  case (2 g gs lengths)
  from "2.prems" have ok: "repl_name_re (g_id g)" "0 < g_length g" "g_length g \<le> max_group"
    "map_of lengths (g_id g) = None" "check_groups gs (dict_set (g_id g) (g_length g) lengths) = Inr ls"
    by (auto split: if_splits)
  with "2.IH" "2.prems" have ih: "distinct (map g_id gs)" "\<forall>x \<in> set gs. 0 < g_length x \<and> g_length x \<le> max_group
      \<and> repl_name_re (g_id x) \<and> map_of (dict_set (g_id g) (g_length g) lengths) (g_id x) = None
      \<and> map_of ls (g_id x) = Some (g_length x)"
    "\<forall>k. k \<notin> g_id ` set gs \<longrightarrow> map_of ls k = map_of (dict_set (g_id g) (g_length g) lengths) k"
    by (auto split: if_splits)
  have "g_id g \<notin> g_id ` set gs" using ih(2) by auto
  then show ?case using ok ih by (auto split: if_splits)
qed simp

lemma check_rows_ok:
  assumes "check_rows lengths p rs = Inr ()"
  shows "sorted_wrt (<) (map w_extent rs) \<and> (\<forall>q. p = Some q \<longrightarrow> (\<forall>r \<in> set rs. q < w_extent r))
     \<and> (\<forall>r \<in> set rs. \<exists>len. map_of lengths (w_group r) = Some len \<and> w_offset r + w_length r + footer_len \<le> len)"
  using assms
  by (induction lengths p rs rule: check_rows.induct) (force split: if_splits option.splits)+

definition sound_manifest :: "manifest \<Rightarrow> bool" where
  "sound_manifest m \<longleftrightarrow> distinct (map g_id (mf_groups m)) \<and> sorted_wrt (<) (map w_extent (mf_rows m))
     \<and> list_all (\<lambda>g. repl_name_re (g_id g) \<and> 0 < g_length g \<and> g_length g \<le> max_group) (mf_groups m)
     \<and> list_all (\<lambda>r. list_ex (\<lambda>g. g_id g = w_group r \<and> w_offset r + w_length r + footer_len \<le> g_length g) (mf_groups m)) (mf_rows m)"

lemma validate_manifest_sound:
  assumes "validate_manifest m = Inr ()"
  shows "sound_manifest m"
proof -
  from assms obtain ls where ls: "check_groups (mf_groups m) [] = Inr ls" "check_rows ls None (mf_rows m) = Inr ()"
    by (auto simp: validate_manifest_def split: if_splits sum.splits)
  note g = check_groups_ok [OF ls(1)] and r = check_rows_ok [OF ls(2)]
  have "list_ex (\<lambda>g. g_id g = w_group x \<and> w_offset x + w_length x + footer_len \<le> g_length g) (mf_groups m)"
    if "x \<in> set (mf_rows m)" for x
  proof -
    from r that obtain len where len: "map_of ls (w_group x) = Some len" "w_offset x + w_length x + footer_len \<le> len"
      by blast
    then have "w_group x \<in> g_id ` set (mf_groups m)" using g by (metis map_of.simps(1) option.distinct(1))
    with g len show ?thesis by (auto simp: list_ex_iff)
  qed
  with g r show ?thesis by (simp add: sound_manifest_def list_all_iff)
qed

section \<open>Lemmas: what a manifest is built of\<close>

lemma concat_dict_append: "mset (concat (map snd (dict_append k v d))) = add_mset v (mset (concat (map snd d)))"
  unfolding dict_append_def by (induction d) auto

lemma mset_concat_snd: "mset (concat (map snd d)) = sum_mset (image_mset (\<lambda>p. mset (snd p)) (mset d))"
  by (induction d) auto

definition own_rows :: "(string \<times> block_row list) list \<Rightarrow> bool" where
  "own_rows d = list_all (\<lambda>(gid, rs). rs \<noteq> [] \<and> list_all (\<lambda>r. br_group r = gid) rs) d"

lemma own_rows_append: "own_rows d \<Longrightarrow> own_rows (dict_append (br_group r) r d)"
  unfolding dict_append_def own_rows_def by (induction d) auto

lemma group_rows_ok:
  assumes "group_rows rs d = Inr d'" and "own_rows d"
  shows "mset (concat (map snd d')) = mset (concat (map snd d)) + mset rs \<and> own_rows d'"
  using assms
proof (induction rs d rule: group_rows.induct)
  case (2 r rs d)
  then show ?case using own_rows_append [of d r] by (auto simp: concat_dict_append split: if_splits)
qed simp

text \<open>The id a group's rows are shipped under.\<close>

definition tid_of :: "(string \<Rightarrow> egroup option) \<Rightarrow> string \<Rightarrow> block_row list \<Rightarrow> string" where
  "tid_of egroups gid rs = (case ship_group egroups gid rs of Inl _ \<Rightarrow> [] | Inr (tid, _) \<Rightarrow> tid)"

lemma ship_group_tid: "ship_group egroups gid rs = Inr (tid, g) \<Longrightarrow> tid = tid_of egroups gid rs \<and> g_id g = tid"
  by (auto simp: tid_of_def ship_group_def Let_def split: option.splits if_splits)

lemma ship_groups_ok:
  assumes "ship_groups egroups per gs rows ids = Inr (gs', rows', ids')"
  shows "map g_id gs' = map g_id gs @ map (\<lambda>(gid, rs). tid_of egroups gid rs) per
     \<and> rows' = rows @ concat (map (\<lambda>(gid, rs). map (ship_row (tid_of egroups gid rs)) rs) per)
     \<and> (\<forall>t. t \<notin> set (map (\<lambda>(gid, rs). tid_of egroups gid rs) per) \<longrightarrow> map_of ids' t = map_of ids t)
     \<and> (distinct (map (\<lambda>(gid, rs). tid_of egroups gid rs) per) \<longrightarrow>
          (\<forall>(gid, rs) \<in> set per. map_of ids' (tid_of egroups gid rs) = Some gid))"
  using assms
proof (induction egroups per gs rows ids rule: ship_groups.induct)
  case (2 egroups gid rs rest gs rows ids)
  from "2.prems" obtain tid g where s: "ship_group egroups gid rs = Inr (tid, g)"
    "ship_groups egroups rest (gs @ [g]) (rows @ map (ship_row tid) rs) (dict_set tid gid ids) = Inr (gs', rows', ids')"
    by (auto split: sum.splits)
  from ship_group_tid [OF s(1)] have t: "tid = tid_of egroups gid rs" "g_id g = tid" by simp_all
  show ?case using "2.IH" [OF s(1) refl s(2)] by (auto simp: t)
qed simp

definition source_row :: "(string \<times> string) list \<Rightarrow> map_row \<Rightarrow> int \<times> string option \<times> int \<times> int \<times> int" where
  "source_row ids r = (w_extent r, map_of ids (w_group r), w_offset r, w_length r, w_hash r)"

definition block_of :: "block_row \<Rightarrow> int \<times> string option \<times> int \<times> int \<times> int" where
  "block_of r = (br_extent r, Some (br_group r), br_offset r, br_length r, br_hash r)"

text \<open>
  A manifest that is built describes the snapshot and nothing else: its rows are, row for row and each
  exactly once, the block map's rows under the ids the remote will know their groups by; it is
  sound (rows strictly in order, groups listed once and of an acceptable length, every row with its
  footer inside its group); and no row of the snapshot named an extent id.
\<close>

theorem manifest_is_the_block_map:
  assumes "build_manifest snap sz ext rows egroups = Inr (m, ids)"
  shows "mset (map (source_row ids) (mf_rows m)) = mset (map block_of rows) \<and> sound_manifest m"
proof -
  from assms obtain per gs rs where per: "group_rows rows [] = Inr per"
    and ship: "ship_groups egroups (sort_key fst per) [] [] [] = Inr (gs, rs, ids)"
    and m: "m = \<lparr>mf_format = manifest_format, mf_snapshot = snap, mf_size = sz, mf_extent = ext,
                 mf_rows = sort_key w_extent rs, mf_groups = gs\<rparr>"
    and val: "validate_manifest m = Inr ()"
    by (auto simp: build_manifest_def Let_def split: sum.splits)
  from val have sound: "sound_manifest m" by (rule validate_manifest_sound)
  have own: "own_rows per" and all: "mset (concat (map snd per)) = mset rows"
    using group_rows_ok [OF per] by (simp_all add: own_rows_def)
  note ok = ship_groups_ok [OF ship]
  have "distinct (map g_id gs)" using sound by (simp add: sound_manifest_def m)
  with ok have ids: "map_of ids (tid_of egroups gid rs) = Some gid" if "(gid, rs) \<in> set per" for gid rs
    using that by auto
  have "map (source_row ids) (map (ship_row (tid_of egroups gid xs)) xs) = map block_of xs"
    if "(gid, xs) \<in> set per" for gid xs
    using own that ids [OF that]
    by (auto simp: own_rows_def list_all_iff source_row_def block_of_def ship_row_def)
  then have "map (source_row ids) rs = map block_of (concat (map snd (sort_key fst per)))"
    using ok by (auto simp: map_concat comp_def split_beta intro!: arg_cong [where f = concat] map_cong)
  then have "mset (map (source_row ids) rs) = image_mset block_of (mset (concat (map snd (sort_key fst per))))"
    by simp
  also have "mset (concat (map snd (sort_key fst per))) = mset (concat (map snd per))"
    by (simp add: mset_concat_snd)
  finally show ?thesis using all sound by (simp add: m)
qed

definition sample_row :: block_row where
  "sample_row = \<lparr>br_extent = 3, br_group = ''eg-1'', br_offset = 0, br_length = 8, br_hash = -7, br_extent_id = None\<rparr>"

definition sample_groups :: "string \<Rightarrow> egroup option" where
  "sample_groups g = (if g = ''eg-1'' then Some \<lparr>eg_state = Some ''open'', eg_size = 0, eg_seal = None\<rparr> else None)"

theorem manifest_is_the_block_map_witness:
  "\<exists>m. build_manifest ''snap-1'' 8192 4096 [sample_row] sample_groups = Inr (m, [(''eg-1~40'', ''eg-1'')])
     \<and> sound_manifest m
     \<and> mset (map (source_row [(''eg-1~40'', ''eg-1'')]) (mf_rows m)) = mset (map block_of [sample_row])"
proof -
  have "case build_manifest ''snap-1'' 8192 4096 [sample_row] sample_groups of Inl _ \<Rightarrow> False
      | Inr (m, ids) \<Rightarrow> ids = [(''eg-1~40'', ''eg-1'')]" by code_simp
  then obtain m where m: "build_manifest ''snap-1'' 8192 4096 [sample_row] sample_groups = Inr (m, [(''eg-1~40'', ''eg-1'')])"
    by (auto split: sum.splits)
  with manifest_is_the_block_map [OF m] show ?thesis by blast
qed

section \<open>Lemmas: reading a line back\<close>

lemma cut_at:
  assumes "a @ c # x = b @ c # y" and "c \<notin> set a" and "c \<notin> set b"
  shows "a = b \<and> x = y"
  using assms
proof (induction a arbitrary: b)
  case Nil
  then show ?case by (cases b) auto
next
  case (Cons d a)
  then show ?case by (cases b) auto
qed

lemma show_int_chars: "c \<in> set (show_int n) \<Longrightarrow> is_digit c \<or> c = CHR ''-''"
  using show_nat_digits by (auto simp: show_int_def split: if_splits)

lemma field_cut:
  assumes "show_int i @ c # x = show_int j @ c # y" and "c = CHR '' '' \<or> c = CHR 0x0A"
  shows "i = j \<and> x = y"
proof -
  have "c \<notin> set (show_int n)" for n
    using show_int_chars [of c n] assms(2) by (auto simp: is_digit_def)
  from cut_at [OF assms(1) this this] show ?thesis by simp
qed

lemma row_line_cut:
  assumes "row_line r @ x = row_line s @ y" and "CHR '' '' \<notin> set (w_group r)" and "CHR '' '' \<notin> set (w_group s)"
  shows "r = s \<and> x = y"
proof -
  from field_cut [of "w_extent r" "CHR '' ''" _ "w_extent s"] assms(1)
  have 1: "w_extent r = w_extent s" "w_group r @ CHR '' '' # show_int (w_offset r) @ CHR '' '' # show_int (w_length r) @ CHR '' '' # show_int (w_hash r) @ CHR 0x0A # x
      = w_group s @ CHR '' '' # show_int (w_offset s) @ CHR '' '' # show_int (w_length s) @ CHR '' '' # show_int (w_hash s) @ CHR 0x0A # y"
    by (auto simp: row_line_def)
  from cut_at [OF 1(2) assms(2,3)]
  have 2: "w_group r = w_group s" "show_int (w_offset r) @ CHR '' '' # show_int (w_length r) @ CHR '' '' # show_int (w_hash r) @ CHR 0x0A # x
      = show_int (w_offset s) @ CHR '' '' # show_int (w_length s) @ CHR '' '' # show_int (w_hash s) @ CHR 0x0A # y"
    by simp_all
  from field_cut [OF 2(2)] have 3: "w_offset r = w_offset s" "show_int (w_length r) @ CHR '' '' # show_int (w_hash r) @ CHR 0x0A # x
      = show_int (w_length s) @ CHR '' '' # show_int (w_hash s) @ CHR 0x0A # y" by simp_all
  from field_cut [OF 3(2)] have 4: "w_length r = w_length s" "show_int (w_hash r) @ CHR 0x0A # x = show_int (w_hash s) @ CHR 0x0A # y"
    by simp_all
  from field_cut [OF 4(2)] 1(1) 2(1) 3(1) 4(1) show ?thesis by simp
qed

lemma row_lines_inject:
  assumes "concat (map row_line rs) = concat (map row_line ss)"
    and "\<forall>r \<in> set rs \<union> set ss. CHR '' '' \<notin> set (w_group r)"
  shows "rs = ss"
  using assms
proof (induction rs arbitrary: ss)
  case Nil
  then show ?case by (cases ss) (auto simp: row_line_def)
next
  case (Cons r rs)
  show ?case
  proof (cases ss)
    case Nil
    with Cons.prems show ?thesis by (auto simp: row_line_def)
  next
    case (Cons s ss')
    with Cons.prems row_line_cut [of r "concat (map row_line rs)" s "concat (map row_line ss')"]
    have "r = s" "concat (map row_line rs) = concat (map row_line ss')" by simp_all
    with Cons.IH [of ss'] Cons.prems Cons show ?thesis by simp
  qed
qed

lemma valid_rows_plain: "validate_manifest m = Inr () \<Longrightarrow> r \<in> set (mf_rows m) \<Longrightarrow> CHR '' '' \<notin> set (w_group r)"
proof -
  assume "validate_manifest m = Inr ()" "r \<in> set (mf_rows m)"
  then have "repl_name_re (w_group r)"
    using validate_manifest_sound [of m] by (fastforce simp: sound_manifest_def list_all_iff list_ex_iff)
  then show ?thesis
    by (auto simp: repl_name_re_def list_all_iff repl_char_def name_char_def is_alnum_def is_alpha_def is_digit_def
        split: list.splits)
qed

text \<open>
  The digest covers the whole map: two manifests that pass validation and give the same text to the digest
  agree on the size, the extent size and every row, so only a collision of SHA-256 could let two
  different maps share a digest.
\<close>

theorem canonical_covers_the_map:
  assumes "validate_manifest m = Inr ()" and "validate_manifest n = Inr ()" and "canonical m = canonical n"
  shows "mf_size m = mf_size n \<and> mf_extent m = mf_extent n \<and> mf_rows m = mf_rows n"
proof -
  have "show_int (mf_size m) @ CHR 0x0A # ''extent '' @ show_int (mf_extent m) @ CHR 0x0A # concat (map row_line (mf_rows m))
      = show_int (mf_size n) @ CHR 0x0A # ''extent '' @ show_int (mf_extent n) @ CHR 0x0A # concat (map row_line (mf_rows n))"
    using assms(3) by (simp add: canonical_def)
  from field_cut [OF this] have 1: "mf_size m = mf_size n"
    "show_int (mf_extent m) @ CHR 0x0A # concat (map row_line (mf_rows m))
      = show_int (mf_extent n) @ CHR 0x0A # concat (map row_line (mf_rows n))" by simp_all
  from field_cut [OF 1(2)] have 2: "mf_extent m = mf_extent n"
    "concat (map row_line (mf_rows m)) = concat (map row_line (mf_rows n))" by simp_all
  have "mf_rows m = mf_rows n"
    using row_lines_inject [OF 2(2)] valid_rows_plain [OF assms(1)] valid_rows_plain [OF assms(2)] by blast
  with 1 2 show ?thesis by simp
qed

definition sample_manifest :: manifest where
  "sample_manifest = \<lparr>mf_format = 1, mf_snapshot = ''snap-1'', mf_size = 8192, mf_extent = 4096,
     mf_rows = [\<lparr>w_extent = 3, w_group = ''eg-1'', w_offset = 0, w_length = 8, w_hash = -7\<rparr>],
     mf_groups = [\<lparr>g_id = ''eg-1'', g_length = 40, g_seal = []\<rparr>]\<rparr>"

theorem canonical_covers_the_map_witness:
  "validate_manifest sample_manifest = Inr ()
   \<and> canonical (sample_manifest\<lparr>mf_snapshot := ''snap-2''\<rparr>) = canonical sample_manifest
   \<and> mf_rows (sample_manifest\<lparr>mf_snapshot := ''snap-2''\<rparr>) = mf_rows sample_manifest"
proof -
  have v: "validate_manifest sample_manifest = Inr ()"
    "validate_manifest (sample_manifest\<lparr>mf_snapshot := ''snap-2''\<rparr>) = Inr ()" by code_simp+
  have c: "canonical (sample_manifest\<lparr>mf_snapshot := ''snap-2''\<rparr>) = canonical sample_manifest"
    by (simp add: canonical_def)
  from canonical_covers_the_map [OF v(2,1) c] v(1) c show ?thesis by simp
qed

section \<open>Properties of the delta and of names\<close>

definition missing :: "(string \<Rightarrow> holding option) \<Rightarrow> manifest \<Rightarrow> group list" where
  "missing held m = filter (\<lambda>g. have_of held g \<noteq> Have_Complete) (mf_groups m)"

lemma delta_foldl:
  "foldl (delta_step held) d gs =
     d\<lparr>d_ship := d_ship d @ map (\<lambda>g. (g_id g, ship_start g (have_of held g))) (filter (\<lambda>g. have_of held g \<noteq> Have_Complete) gs),
       d_bytes_needed := d_bytes_needed d
          + sum_list (map (\<lambda>g. g_length g - ship_start g (have_of held g)) (filter (\<lambda>g. have_of held g \<noteq> Have_Complete) gs)),
       d_complete := d_complete d @ map g_id (filter (\<lambda>g. have_of held g = Have_Complete) gs)\<rparr>"
  by (induction gs arbitrary: d) (simp_all add: delta_step_def Let_def)

lemma ship_start_bounds:
  assumes "0 < g_length g" and "\<And>n. h = Have_Partial n \<Longrightarrow> 0 \<le> n"
  shows "0 \<le> ship_start g h \<and> ship_start g h \<le> g_length g \<and> ship_start g h mod chunk = 0
     \<and> (\<forall>n. h = Have_Partial n \<longrightarrow> ship_start g h \<le> n \<and> min n (g_length g) < ship_start g h + chunk)"
proof (cases h)
  case (Have_Partial n)
  then have n: "0 \<le> n" using assms(2) by simp
  define k where "k = min n (g_length g)"
  have k: "0 \<le> k" "k \<le> n" "k \<le> g_length g" using n assms(1) by (simp_all add: k_def)
  have "k = chunk * (k div chunk) + k mod chunk" "0 \<le> k mod chunk" "k mod chunk < chunk" by simp_all
  then have "k div chunk * chunk \<le> k" "k < k div chunk * chunk + chunk" by linarith+
  moreover have "0 \<le> k div chunk * chunk" using k by simp
  ultimately show ?thesis using Have_Partial k by (simp add: ship_start_def flip: k_def)
qed (use assms(1) in \<open>simp_all add: ship_start_def\<close>)

text \<open>
  The delta sends what is missing and nothing more: every group of the manifest is, in order, either listed as
  held complete or shipped; a shipped group starts at a whole chunk no later than what the remote
  says it staged, less than a chunk is sent again, and the bytes announced are the bytes from each
  start to the end of its group.
\<close>

theorem delta_ships_what_is_missing:
  assumes "sound_manifest m" and "\<And>k n. held k = Some (Have_Partial n) \<Longrightarrow> 0 \<le> n"
  shows "d_ship (plan_delta m held) = map (\<lambda>g. (g_id g, ship_start g (have_of held g))) (missing held m)
     \<and> d_complete (plan_delta m held) = map g_id (filter (\<lambda>g. have_of held g = Have_Complete) (mf_groups m))
     \<and> d_bytes_needed (plan_delta m held) = (\<Sum>g \<leftarrow> missing held m. g_length g - ship_start g (have_of held g))
     \<and> list_all (\<lambda>g. 0 \<le> ship_start g (have_of held g) \<and> ship_start g (have_of held g) \<le> g_length g
          \<and> ship_start g (have_of held g) mod chunk = 0
          \<and> (\<forall>n. have_of held g = Have_Partial n \<longrightarrow> ship_start g (have_of held g) \<le> n
                \<and> min n (g_length g) < ship_start g (have_of held g) + chunk)) (missing held m)"
proof -
  have "0 < g_length g" "\<And>n. have_of held g = Have_Partial n \<Longrightarrow> 0 \<le> n" if "g \<in> set (missing held m)" for g
    using that assms by (auto simp: missing_def sound_manifest_def list_all_iff have_of_def split: option.splits)
  then have "\<forall>g \<in> set (missing held m). 0 \<le> ship_start g (have_of held g) \<and> ship_start g (have_of held g) \<le> g_length g
      \<and> ship_start g (have_of held g) mod chunk = 0
      \<and> (\<forall>n. have_of held g = Have_Partial n \<longrightarrow> ship_start g (have_of held g) \<le> n
            \<and> min n (g_length g) < ship_start g (have_of held g) + chunk)"
    by (intro ballI ship_start_bounds)
  then show ?thesis by (simp add: plan_delta_def delta_foldl list_all_iff flip: missing_def)
qed

theorem delta_ships_what_is_missing_witness:
  "d_ship (plan_delta sample_manifest (\<lambda>_. Some (Have_Partial 7))) = [(''eg-1'', 0)]
   \<and> d_bytes_needed (plan_delta sample_manifest (\<lambda>_. Some (Have_Partial 7))) = 40"
proof -
  have "sound_manifest sample_manifest" by code_simp
  from delta_ships_what_is_missing [OF this, of "\<lambda>_. Some (Have_Partial 7)"] show ?thesis
    by (simp add: missing_def have_of_def sample_manifest_def ship_start_def)
qed

lemma replica_part_chars: "replica_part s \<Longrightarrow> c \<in> set s \<Longrightarrow> name_char c"
  using name_shape_chars [of "length s" s] by (auto simp: replica_part_def)

lemma hex_lower_name_char: "hex_lower c \<Longrightarrow> name_char c"
  by (auto simp: hex_lower_def name_char_def is_alnum_def is_alpha_def is_digit_def Let_def)

text \<open>
  Whatever the site id and the snapshot are called, the name a replica is stored under is a valid vdisk id,
  and starts with the mark of a replica; and for one site, snapshots whose names fit get different
  replica names.
\<close>

theorem replica_name_is_vdisk_id:
  assumes "replica_vdisk_name site_id snap = Inr n"
  shows "name_re n \<and> starts_with n ''r-''
     \<and> (\<forall>snap'. length snap \<le> 52 \<and> length snap' \<le> 52 \<and> replica_vdisk_name site_id snap' = Inr n \<longrightarrow> snap' = snap)"
proof -
  let ?name = "''r-'' @ take 8 site_id @ ''-'' @ snap"
  let ?tag = "take 10 (sha256_hex (site_id @ ''/'' @ snap))"
  have parts: "replica_part site_id" "replica_part snap"
    and n: "n = (if length ?name \<le> 63 then ?name else take 52 ?name @ ''-'' @ ?tag)"
    using assms by (auto simp: replica_vdisk_name_def Let_def split: if_splits)
  have lits: "name_char CHR ''r''" "name_char CHR ''-''" "is_alnum CHR ''r''"
    by (simp_all add: name_char_def is_alnum_def is_alpha_def)
  have name: "\<forall>c \<in> set ?name. name_char c"
    using parts replica_part_chars lits by (auto dest: in_set_takeD)
  have tag: "\<forall>c \<in> set ?tag. name_char c"
    using sha256_hex_chars hex_lower_name_char by (blast dest: in_set_takeD)
  have "\<forall>c \<in> set n. name_char c"
  proof (cases "length ?name \<le> 63")
    case False
    then have "set n \<subseteq> set ?name \<union> set ''-'' \<union> set ?tag" using n set_take_subset [of 52 ?name] by auto
    with name tag lits show ?thesis by auto
  qed (use n name in simp)
  moreover have "length n \<le> 63" by (auto simp: n)
  moreover obtain t where "n = CHR ''r'' # t"
    by (cases "length ?name \<le> 63") (simp_all add: n)
  ultimately have "name_re n" using lits by (simp add: name_re_def name_shape_def list_all_iff)
  moreover have "starts_with n ''r-''" by (simp add: n)
  moreover have "snap' = snap" if "length snap \<le> 52" "length snap' \<le> 52" "replica_vdisk_name site_id snap' = Inr n" for snap'
    using that n by (auto simp: replica_vdisk_name_def Let_def split: if_splits)
  ultimately show ?thesis by blast
qed

theorem replica_name_is_vdisk_id_witness:
  "replica_vdisk_name ''0a1b2c3d-4e5f'' ''web-disk0'' = Inr ''r-0a1b2c3d-web-disk0'' \<and> name_re ''r-0a1b2c3d-web-disk0''"
proof -
  have "replica_vdisk_name ''0a1b2c3d-4e5f'' ''web-disk0'' = Inr ''r-0a1b2c3d-web-disk0''"
    by (simp add: replica_vdisk_name_def replica_part_def name_shape_def name_char_def is_alnum_def is_alpha_def is_digit_def)
  with replica_name_is_vdisk_id [OF this] show ?thesis by simp
qed

text \<open>
  Replicas of two sites can nevertheless get one name: only eight characters of a site id enter it, and a dash
  does not separate the parts, so neither two long site ids with the same start nor a site id that
  continues another are told apart.
\<close>

theorem replica_names_of_two_sites_collide:
  "replica_vdisk_name ''datacentre-east'' ''web-disk0'' = replica_vdisk_name ''datacentre-west'' ''web-disk0''
   \<and> replica_vdisk_name ''dc'' ''1-web-disk0'' = replica_vdisk_name ''dc-1'' ''web-disk0''
   \<and> replica_vdisk_name ''dc'' ''1-web-disk0'' = Inr ''r-dc-1-web-disk0''"
  by (simp add: replica_vdisk_name_def replica_part_def name_shape_def name_char_def is_alnum_def is_alpha_def is_digit_def)

end
