(* ===== verification/Json.thy ===== *)
theory Json
  imports Prelude
begin

text \<open>
  The text \<open>json.dumps\<close> prints for the values the sources print: strings with their escapes, \<open>null\<close>,
  lists and objects whose keys are given in the order they are printed; and the values a program reads from a JSON
  text, whose numbers are integers here.
\<close>

definition hex_char :: "nat \<Rightarrow> char" where
  "hex_char n = (if n < 10 then char_of (48 + n) else char_of (87 + n))"

definition json_char :: "char \<Rightarrow> string" where
  "json_char c =
     (let n = (of_char c :: nat) in
      if n = 34 then [CHR 0x5C, CHR 0x22] else if n = 92 then [CHR 0x5C, CHR 0x5C]
      else if n = 10 then [CHR 0x5C, CHR ''n''] else if n = 13 then [CHR 0x5C, CHR ''r'']
      else if n = 9 then [CHR 0x5C, CHR ''t''] else if n = 8 then [CHR 0x5C, CHR ''b'']
      else if n = 12 then [CHR 0x5C, CHR ''f'']
      else if n < 32 \<or> 126 < n then CHR 0x5C # ''u00'' @ [hex_char (n div 16), hex_char (n mod 16)]
      else [c])"

definition json_str :: "string \<Rightarrow> string" where
  "json_str s = [CHR 0x22] @ concat (map json_char s) @ [CHR 0x22]"

definition json_key :: "string \<Rightarrow> string \<Rightarrow> string" where
  "json_key k v = json_str k @ '': '' @ v"

definition json_obj :: "(string \<times> string) list \<Rightarrow> string" where
  "json_obj kvs = ''{'' @ join '', '' (map (\<lambda>(k, v). json_key k v) kvs) @ ''}''"

definition json_opt :: "string option \<Rightarrow> string" where
  "json_opt v = (case v of None \<Rightarrow> ''null'' | Some s \<Rightarrow> json_str s)"

definition json_list :: "('a \<Rightarrow> string) \<Rightarrow> 'a list \<Rightarrow> string" where
  "json_list f xs = ''['' @ join '', '' (map f xs) @ '']''"

section \<open>Values\<close>

datatype jval =
    J_Null | J_Bool bool | J_Num int | J_Str string | J_List "jval list" | J_Dict "(string \<times> jval) list"

text \<open>\<open>d.update(e)\<close>.\<close>

definition dict_update :: "('k \<times> 'v) list \<Rightarrow> ('k \<times> 'v) list \<Rightarrow> ('k \<times> 'v) list" where
  "dict_update d e = foldl (\<lambda>m (k, v). dict_set k v m) d e"

lemma map_of_dict_update: "map_of (dict_update d e) k = (case map_of (rev e) k of None \<Rightarrow> map_of d k | Some v \<Rightarrow> Some v)"
  unfolding dict_update_def
  by (induction e rule: rev_induct) (auto simp: map_of_dict_set split: option.splits)

text \<open>The truth of a value, and \<open>str\<close> of it; quotes inside the texts of a list or dictionary are not escaped.\<close>

definition truthy_jval :: "jval option \<Rightarrow> bool" where
  "truthy_jval v = (case v of
     None \<Rightarrow> False
   | Some J_Null \<Rightarrow> False
   | Some (J_Bool b) \<Rightarrow> b
   | Some (J_Num n) \<Rightarrow> n \<noteq> 0
   | Some (J_Str s) \<Rightarrow> s \<noteq> []
   | Some (J_List xs) \<Rightarrow> xs \<noteq> []
   | Some (J_Dict d) \<Rightarrow> d \<noteq> [])"

definition quoted :: "string \<Rightarrow> string" where
  "quoted s = [CHR 0x27] @ s @ [CHR 0x27]"

fun jval_repr :: "jval \<Rightarrow> string" where
  "jval_repr J_Null = ''None''"
| "jval_repr (J_Bool b) = (if b then ''True'' else ''False'')"
| "jval_repr (J_Num n) = show_int n"
| "jval_repr (J_Str s) = quoted s"
| "jval_repr (J_List xs) = ''['' @ join '', '' (map jval_repr xs) @ '']''"
| "jval_repr (J_Dict d) = ''{'' @ join '', '' (map (\<lambda>(k, v). quoted k @ '': '' @ jval_repr v) d) @ ''}''"

definition jval_text :: "jval \<Rightarrow> string" where
  "jval_text v = (case v of J_Str s \<Rightarrow> s | _ \<Rightarrow> jval_repr v)"

text \<open>\<open>json.dumps\<close> with its default separators.\<close>

fun dumps :: "jval \<Rightarrow> string" where
  "dumps J_Null = ''null''"
| "dumps (J_Bool b) = (if b then ''true'' else ''false'')"
| "dumps (J_Num n) = show_int n"
| "dumps (J_Str s) = json_str s"
| "dumps (J_List xs) = ''['' @ join '', '' (map dumps xs) @ '']''"
| "dumps (J_Dict d) = ''{'' @ join '', '' (map (\<lambda>(k, v). json_str k @ '': '' @ dumps v) d) @ ''}''"

end
