(* ===== verification/Replication.thy ===== *)
theory Replication
  imports Replication_Plan Json Effects
begin

text \<open>
  How a transfer is driven (\<open>src/rauru_replication.py\<close>, the other half): the record of a transfer and the
  transitions it may make, the store the records live in, which sets retention must leave alone, and
  \<open>Replicator\<close>, the loop that offers, sends, publishes and records. The remote site is a parameter
  that may answer anything or raise any of the module's exceptions at each call; the store is another,
  with the interface \<open>state_store\<close>.
\<close>

section \<open>Transfer records\<close>

record transfer =
  tr_state :: "tstate option"
  tr_digest :: "string option"
  tr_job :: "string option"
  tr_error :: "string option"
  tr_bytes :: "int option"
  tr_attempts :: "int option"

definition no_record :: transfer where
  "no_record = \<lparr>tr_state = None, tr_digest = None, tr_job = None, tr_error = None, tr_bytes = None, tr_attempts = None\<rparr>"

fun transitions :: "tstate \<Rightarrow> tstate list" where
  "transitions Offered = [Sending, Publishing, Visible, Paused, Failed]"
| "transitions Sending = [Publishing, Paused, Failed]"
| "transitions Publishing = [Visible, Paused, Failed]"
| "transitions Paused = [Offered, Failed]"
| "transitions Visible = []"
| "transitions Failed = [Offered]"

definition may_go :: "tstate option \<Rightarrow> tstate \<Rightarrow> bool" where
  "may_go cur st = (case cur of None \<Rightarrow> True | Some c \<Rightarrow> st = c \<or> st \<in> set (transitions c))"

definition advance :: "transfer \<Rightarrow> tstate \<Rightarrow> (transfer \<Rightarrow> transfer) \<Rightarrow> repl_error + transfer" where
  "advance r st upd =
     (if may_go (tr_state r) st then Inr (upd (r\<lparr>tr_state := Some st\<rparr>))
      else Inl (Bad_Transition (the (tr_state r)) st))"

section \<open>The store\<close>

type_synonym key = "string \<times> string \<times> string"

record 's store =
  st_get :: "'s \<Rightarrow> key \<Rightarrow> transfer option"
  st_put :: "'s \<Rightarrow> key \<Rightarrow> transfer \<Rightarrow> 's"

type_synonym memory = "(key \<times> transfer) list"

definition memory_store :: "memory store" where
  "memory_store = \<lparr>st_get = map_of, st_put = (\<lambda>d k r. dict_set k r d)\<rparr>"

definition memory_records :: "memory \<Rightarrow> string \<Rightarrow> (string \<times> string \<times> transfer) list" where
  "memory_records d site = map (\<lambda>(k, r). (fst (snd k), snd (snd k), r)) (filter (\<lambda>(k, r). fst k = site) d)"

definition is_visible :: "transfer option \<Rightarrow> bool" where
  "is_visible r = (case r of None \<Rightarrow> False | Some t \<Rightarrow> tr_state t = Some Visible)"

definition pinned_sets :: "'s store \<Rightarrow> 's \<Rightarrow> string \<Rightarrow> (string \<times> string list) list \<Rightarrow> string list" where
  "pinned_sets st d site required =
     map fst (filter (\<lambda>(set_id, snaps). \<not> list_all (\<lambda>sn. is_visible (st_get st d (site, set_id, sn))) snaps) required)"

section \<open>The loop\<close>

datatype remote_exn =
    Link_Dropped string | No_Space string | Group_Damaged string | Conflict string | Other_Error repl_error

datatype offer = Already_Present | Proceed "string \<Rightarrow> holding option"

record ('m, 's) repl_env =
  r_offer :: "string \<Rightarrow> string \<Rightarrow> 'm \<Rightarrow> (remote_exn + offer) \<times> 'm"
  r_send :: "string \<Rightarrow> manifest \<Rightarrow> (string \<times> int) list \<Rightarrow> 'm \<Rightarrow> (remote_exn + int) \<times> 'm"
  r_publish :: "string \<Rightarrow> string \<Rightarrow> 'm \<Rightarrow> (remote_exn + unit) \<times> 'm"
  r_store :: "'s store"
  max_attempts :: int

datatype repl_event =
    Offer_Made "remote_exn + offer" | Sent "(string \<times> int) list" "remote_exn + int"
  | Publish_Asked "remote_exn + unit" | Stored key transfer

record result =
  rs_state :: tstate
  rs_bytes :: int
  rs_attempts :: nat
  rs_error :: "string option"

definition job_id :: "string \<Rightarrow> string \<Rightarrow> string \<Rightarrow> string \<Rightarrow> string" where
  "job_id site set_id snapshot digest =
     ''j-'' @ take 24 (sha256_hex (site @ ''/'' @ set_id @ ''/'' @ snapshot @ ''/'' @ digest))"

definition json_row :: "map_row \<Rightarrow> string" where
  "json_row r = json_list id [show_int (w_extent r), json_str (w_group r), show_int (w_offset r),
     show_int (w_length r), show_int (w_hash r)]"

definition json_group :: "group \<Rightarrow> string" where
  "json_group g = json_list id [json_str (g_id g), show_int (g_length g), json_str (g_seal g)]"

definition manifest_to_json :: "manifest \<Rightarrow> string" where
  "manifest_to_json m = json_obj
     [(''extent_bytes'', show_int (mf_extent m)), (''format'', show_int (mf_format m)),
      (''groups'', json_list json_group (mf_groups m)), (''map_sha256'', json_str (map_digest m)),
      (''rows'', json_list json_row (mf_rows m)), (''size_bytes'', show_int (mf_size m)),
      (''snapshot'', json_str (mf_snapshot m))]"

text \<open>One call each. The hidden state is the remote's state and the store's content.\<close>

definition remote :: "('m \<Rightarrow> 'r \<times> 'm) \<Rightarrow> 'm \<times> 's \<Rightarrow> 'r \<times> 'm \<times> 's" where
  "remote f h = (case h of (m, d) \<Rightarrow> case f m of (r, m') \<Rightarrow> (r, m', d))"

definition offer_call where
  "offer_call env job body = act (remote (r_offer env job body)) Offer_Made"

definition send_call where
  "send_call env job m wants = act (remote (r_send env job m wants)) (Sent wants)"

definition publish_call where
  "publish_call env job body = act (remote (r_publish env job body)) Publish_Asked"

definition put_call :: "('m, 's) repl_env \<Rightarrow> key \<Rightarrow> transfer \<Rightarrow> ('m \<times> 's, repl_event, unit) eff" where
  "put_call env k r = act (\<lambda>(m, d). ((), m, st_put (r_store env) d k r)) (\<lambda>_. Stored k r)"

definition get_call :: "('m, 's) repl_env \<Rightarrow> key \<Rightarrow> ('m \<times> 's, repl_event, transfer option) eff" where
  "get_call env k = look (\<lambda>(m, d). (st_get (r_store env) d k, m, d))"

text \<open>
  The body of the \<open>try\<close>: what it came to, with the values \<open>record\<close> and \<open>sent\<close> have then.
\<close>

datatype outcome = Arrived | Threw remote_exn

definition attempt :: "('m, 's) repl_env \<Rightarrow> key \<Rightarrow> string \<Rightarrow> manifest \<Rightarrow> transfer \<Rightarrow> int \<Rightarrow>
    ('m \<times> 's, repl_event, outcome \<times> transfer \<times> int) eff" where
  "attempt env k job m rec sent = do {
     answer \<leftarrow> offer_call env job (manifest_to_json m);
     case answer of
       Inl x \<Rightarrow> ret (Threw x, rec, sent)
     | Inr off \<Rightarrow>
         (case off of
            Already_Present \<Rightarrow> ret (Arrived, rec, sent)
          | Proceed held \<Rightarrow>
              (case advance rec Sending (\<lambda>r. r\<lparr>tr_attempts := Some (or_int (tr_attempts rec) 0 + 1)\<rparr>) of
                 Inl e \<Rightarrow> ret (Threw (Other_Error e), rec, sent)
               | Inr rec1 \<Rightarrow> do {
                   put_call env k rec1;
                   n \<leftarrow> (if d_ship (plan_delta m held) \<noteq> [] then send_call env job m (d_ship (plan_delta m held))
                        else ret (Inr 0));
                   case n of
                     Inl x \<Rightarrow> ret (Threw x, rec1, sent)
                   | Inr bytes \<Rightarrow>
                       (case advance rec1 Publishing (\<lambda>r. r\<lparr>tr_bytes := Some (sent + bytes)\<rparr>) of
                          Inl e \<Rightarrow> ret (Threw (Other_Error e), rec1, sent + bytes)
                        | Inr rec2 \<Rightarrow> do {
                            put_call env k rec2;
                            p \<leftarrow> publish_call env job (manifest_to_json m);
                            ret (case p of Inl x \<Rightarrow> Threw x | Inr _ \<Rightarrow> Arrived, rec2, sent + bytes) }) })) }"

text \<open>\<open>advance\<close> and then \<open>store.put\<close>, as every handler does.\<close>

definition move :: "('m, 's) repl_env \<Rightarrow> key \<Rightarrow> transfer \<Rightarrow> tstate \<Rightarrow> (transfer \<Rightarrow> transfer) \<Rightarrow>
    ('m \<times> 's, repl_event, repl_error + transfer) eff" where
  "move env k rec st upd =
     bindE (ret (advance rec st upd)) (\<lambda>r. bindE (liftE (put_call env k r)) (\<lambda>_. okE r))"

definition finished :: "tstate \<Rightarrow> int \<Rightarrow> nat \<Rightarrow> string option \<Rightarrow> ('s, repl_error + result) state" where
  "finished st sent tries err = okE \<lparr>rs_state = st, rs_bytes = sent, rs_attempts = tries, rs_error = err\<rparr>"

definition arrived :: "('m, 's) repl_env \<Rightarrow> key \<Rightarrow> transfer \<Rightarrow> int \<Rightarrow> nat \<Rightarrow>
    ('m \<times> 's, repl_event, repl_error + result) eff" where
  "arrived env k rec sent tries =
     bindE (move env k rec Visible (\<lambda>r. r\<lparr>tr_bytes := Some sent, tr_error := None\<rparr>)) (\<lambda>_.
       finished Visible sent tries None)"

text \<open>The \<open>while\<close>: the first number counts the attempts that are left, the second those made.\<close>

fun attempts_loop :: "('m, 's) repl_env \<Rightarrow> key \<Rightarrow> string \<Rightarrow> manifest \<Rightarrow> nat \<Rightarrow> nat \<Rightarrow> transfer \<Rightarrow> int \<Rightarrow>
    ('m \<times> 's, repl_event, repl_error + result) eff" where
  "attempts_loop env k job m 0 tries rec sent = finished Paused sent tries (tr_error rec)"
| "attempts_loop env k job m (Suc n) tries rec sent =
     bindE (liftE (attempt env k job m rec sent)) (\<lambda>(out, rec', sent').
       case out of
         Arrived \<Rightarrow> arrived env k rec' sent' (Suc tries)
       | Threw (Link_Dropped e) \<Rightarrow>
           bindE (move env k rec' Paused (\<lambda>r. r\<lparr>tr_error := Some e, tr_bytes := Some sent'\<rparr>)) (\<lambda>r.
             if n = 0 then finished Paused sent' (Suc tries) (Some e)
             else bindE (ret (advance r Offered id)) (\<lambda>r'. attempts_loop env k job m n (Suc tries) r' sent'))
       | Threw (No_Space e) \<Rightarrow>
           bindE (move env k rec' Paused (\<lambda>r. r\<lparr>tr_error := Some e, tr_bytes := Some sent'\<rparr>)) (\<lambda>r.
             finished Paused sent' (Suc tries) (Some (''no space: '' @ e)))
       | Threw (Group_Damaged e) \<Rightarrow>
           bindE (move env k rec' Paused (\<lambda>r. r\<lparr>tr_error := Some e, tr_bytes := Some sent'\<rparr>)) (\<lambda>r.
             if n = 0 then
               bindE (move env k r Failed (\<lambda>r. r\<lparr>tr_error := Some e\<rparr>)) (\<lambda>_.
                 finished Failed sent' (Suc tries) (Some e))
             else bindE (ret (advance r Offered id)) (\<lambda>r'. attempts_loop env k job m n (Suc tries) r' sent'))
       | Threw (Conflict e) \<Rightarrow>
           bindE (move env k rec' Failed (\<lambda>r. r\<lparr>tr_error := Some e\<rparr>)) (\<lambda>_.
             finished Failed sent' (Suc tries) (Some e))
       | Threw (Other_Error e) \<Rightarrow> raiseE e)"

definition replicate_snapshot :: "('m, 's) repl_env \<Rightarrow> string \<Rightarrow> string \<Rightarrow> manifest \<Rightarrow>
    ('m \<times> 's, repl_event, repl_error + result) eff" where
  "replicate_snapshot env site set_id m =
     bindE (ret (validate_manifest m)) (\<lambda>_.
       let digest = map_digest m; k = (site, set_id, mf_snapshot m);
           job = job_id site set_id (mf_snapshot m) digest
       in bindE (liftE (get_call env k)) (\<lambda>found.
            let rec = (case found of None \<Rightarrow> no_record | Some r \<Rightarrow> r) in
            if tr_state rec = Some Visible \<and> tr_digest rec = Some digest then finished Visible 0 0 None
            else
              bindE (move env k rec Offered (\<lambda>r. r\<lparr>tr_digest := Some digest, tr_job := Some job, tr_error := None\<rparr>)) (\<lambda>r.
                attempts_loop env k job m (nat (max_attempts env)) 0 r (or_int (tr_bytes r) 0))))"

definition replicate_set :: "('m, 's) repl_env \<Rightarrow> string \<Rightarrow> string \<Rightarrow> manifest list \<Rightarrow>
    ('m \<times> 's, repl_event, repl_error + tstate \<times> (string \<times> result) list) eff" where
  "replicate_set env site set_id ms =
     bindE (for_eachE (\<lambda>m acc. bindE (replicate_snapshot env site set_id m) (\<lambda>r.
              okE (dict_set (mf_snapshot m) r acc))) ms []) (\<lambda>results.
       okE (if list_all (\<lambda>(_, r). rs_state r = Visible) results then Visible
            else if list_ex (\<lambda>(_, r). rs_state r = Failed) results then Failed else Paused, results))"

section \<open>Lemmas: the order of calls\<close>

text \<open>
  Reads the calls to the remote in order. A group list is sent only right after an offer that was told
  to proceed, and is the delta of that answer; a publish is asked only when that send returned, or when
  there was nothing to send.
\<close>

datatype phase = Idle | Told "(string \<times> int) list" | Ready

fun after_offer :: "manifest \<Rightarrow> remote_exn + offer \<Rightarrow> phase" where
  "after_offer m (Inr (Proceed held)) =
     (if d_ship (plan_delta m held) = [] then Ready else Told (d_ship (plan_delta m held)))"
| "after_offer m _ = Idle"

fun orderly :: "manifest \<Rightarrow> phase \<Rightarrow> repl_event list \<Rightarrow> bool" where
  "orderly m ph [] = True"
| "orderly m ph (Stored k r # es) = orderly m ph es"
| "orderly m ph (Offer_Made a # es) = orderly m (after_offer m a) es"
| "orderly m ph (Sent wants a # es) = (ph = Told wants \<and> orderly m (case a of Inl _ \<Rightarrow> Idle | Inr _ \<Rightarrow> Ready) es)"
| "orderly m ph (Publish_Asked a # es) = (ph = Ready \<and> orderly m Idle es)"

lemma orderly_mono: "orderly m Idle es \<Longrightarrow> orderly m ph es"
  by (induction m ph es rule: orderly.induct) auto

lemma orderly_append: "orderly m ph xs \<Longrightarrow> orderly m Idle ys \<Longrightarrow> orderly m ph (xs @ ys)"
  by (induction m ph xs rule: orderly.induct) (auto intro: orderly_mono)

interpretation order: trace_property "orderly m Idle" for m
  by unfold_locales (auto intro: orderly_append)

lemma orderly_move: "yields (move env k rec st upd) (\<lambda>_. orderly m Idle)"
  unfolding move_def put_call_def
  by (intro order.rules yields_act) simp

lemma orderly_attempt: "yields (attempt env k job m rec sent) (\<lambda>_. orderly m Idle)"
  unfolding attempt_def offer_call_def send_call_def publish_call_def put_call_def
  by (auto intro!: yields_intros split: offer.split sum.splits)

lemma orderly_loop: "yields (attempts_loop env k job m n tries rec sent) (\<lambda>_. orderly m Idle)"
proof (induction n arbitrary: tries rec sent)
  case 0
  show ?case by (simp add: finished_def order.of_ret)
next
  case (Suc n)
  show ?case
    unfolding attempts_loop.simps finished_def arrived_def
    by (auto intro!: order.of_bindE order.of_liftE orderly_attempt orderly_move order.of_ret Suc.IH
        split: outcome.split remote_exn.split)
qed

text \<open>
  C4. The remote is never asked to publish what it was not given: in every run of \<open>replicate\<close>, whatever the
  remote answers or raises, the groups sent are the delta of the answer to the offer just made, and
  the publish comes only after that send returned, or when the delta was empty.
\<close>

theorem publish_follows_the_delta:
  "yields (replicate_snapshot env site set_id m) (\<lambda>_. orderly m Idle)"
  unfolding replicate_snapshot_def Let_def finished_def get_call_def
  by (intro order.rules orderly_move orderly_loop)

section \<open>Lemmas: what a call ends with\<close>

fun remote_says :: "repl_event \<Rightarrow> outcome option" where
  "remote_says (Offer_Made (Inl x)) = Some (Threw x)"
| "remote_says (Offer_Made (Inr Already_Present)) = Some Arrived"
| "remote_says (Sent w (Inl x)) = Some (Threw x)"
| "remote_says (Publish_Asked (Inl x)) = Some (Threw x)"
| "remote_says (Publish_Asked (Inr u)) = Some Arrived"
| "remote_says _ = None"

text \<open>The last decisive word of the remote, and the last record stored.\<close>

definition last_remote :: "repl_event list \<Rightarrow> outcome option" where
  "last_remote es = foldl (\<lambda>acc e. case remote_says e of None \<Rightarrow> acc | Some x \<Rightarrow> Some x) None es"

definition last_stored :: "repl_event list \<Rightarrow> transfer option" where
  "last_stored es = foldl (\<lambda>acc e. case e of Stored k r \<Rightarrow> Some r | _ \<Rightarrow> acc) None es"

definition offers :: "repl_event list \<Rightarrow> nat" where
  "offers es = length (filter (\<lambda>e. case e of Offer_Made _ \<Rightarrow> True | _ \<Rightarrow> False) es)"

lemma last_remote_snoc: "last_remote (es @ [e]) = (case remote_says e of None \<Rightarrow> last_remote es | Some x \<Rightarrow> Some x)"
  by (simp add: last_remote_def split: option.split)

lemma last_stored_snoc: "last_stored (es @ [e]) = (case e of Stored k r \<Rightarrow> Some r | _ \<Rightarrow> last_stored es)"
  by (simp add: last_stored_def split: repl_event.split)

lemma last_remote_append: "last_remote (xs @ ys) = (case last_remote ys of None \<Rightarrow> last_remote xs | Some x \<Rightarrow> Some x)"
  by (induction ys rule: rev_induct)
     (simp_all add: last_remote_snoc flip: append_assoc split: option.split, simp add: last_remote_def)

lemma last_stored_append: "last_stored (xs @ ys) = (case last_stored ys of None \<Rightarrow> last_stored xs | Some x \<Rightarrow> Some x)"
  by (induction ys rule: rev_induct)
     (simp_all add: last_stored_snoc flip: append_assoc split: option.split repl_event.split, simp add: last_stored_def)

lemma last_simps:
  "last_remote [] = None" "last_stored [] = None" "last_remote [e] = remote_says e"
  "last_stored [Stored k r] = Some r" "last_stored [Offer_Made a] = None" "last_stored [Sent w b] = None"
  "last_stored [Publish_Asked c] = None"
  by (simp_all add: last_remote_def last_stored_def split: option.split)

lemma Cons_as_append: "NO_MATCH [] es \<Longrightarrow> e # es = [e] @ es"
  by simp

lemma offers_append: "offers (xs @ ys) = offers xs + offers ys"
  by (simp add: offers_def)

lemma attempt_ends:
  assumes "tr_state rec = Some Offered"
  shows "yields (attempt env k job m rec sent) (\<lambda>(out, rec', _) es.
     last_remote es = Some out \<and> offers es = 1 \<and> tr_digest rec' = tr_digest rec
     \<and> tr_state rec' \<in> {Some Offered, Some Sending, Some Publishing} \<and> (out = Arrived \<longrightarrow> tr_state rec' \<noteq> Some Sending))"
  unfolding attempt_def offer_call_def send_call_def publish_call_def put_call_def
  using assms
  by (auto intro!: yields_intros simp: advance_def may_go_def last_remote_def offers_def split: offer.split sum.splits)

text \<open>How a call ends: what it returns or raises, against the last word of the remote and the last record stored.\<close>

definition ends :: "string option \<Rightarrow> repl_error + result \<Rightarrow> repl_event list \<Rightarrow> bool" where
  "ends digest r es =
     (case r of
        Inl e \<Rightarrow> last_remote es = Some (Threw (Other_Error e))
      | Inr res \<Rightarrow>
          (case last_stored es of
             None \<Rightarrow> False
           | Some t \<Rightarrow> tr_state t = Some (rs_state res) \<and> tr_digest t = digest
               \<and> rs_state res \<in> {Visible, Paused, Failed}
               \<and> last_remote es \<noteq> None \<and> (rs_state res = Visible) = (last_remote es = Some Arrived)))"

lemma move_ends:
  "may_go (tr_state rec) st \<Longrightarrow> yields (move env k rec st upd) (\<lambda>r es.
      r = Inr (upd (rec\<lparr>tr_state := Some st\<rparr>)) \<and> es = [Stored k (upd (rec\<lparr>tr_state := Some st\<rparr>))])"
  unfolding move_def put_call_def advance_def by (auto intro!: yields_intros)

lemma ends_prefix: "ends d r ys \<Longrightarrow> ends d r (xs @ ys)"
  by (auto simp: ends_def last_remote_append last_stored_append split: sum.splits option.splits)

lemma ends_cases:
  "ends d (Inl e) es \<longleftrightarrow> last_remote es = Some (Threw (Other_Error e))"
  "ends d (Inr \<lparr>rs_state = st, rs_bytes = b, rs_attempts = a, rs_error = x\<rparr>) es \<longleftrightarrow>
     (\<exists>t. last_stored es = Some t \<and> tr_state t = Some st \<and> tr_digest t = d \<and> st \<in> {Visible, Paused, Failed}
        \<and> last_remote es \<noteq> None \<and> (st = Visible) = (last_remote es = Some Arrived))"
  by (auto simp: ends_def split: option.splits)

lemma offers_simps [simp]: "offers [] = 0" "offers (Stored k t # es) = offers es"
  by (simp_all add: offers_def)

lemma stored_tail:
  "last_remote (xs @ [Stored k t]) = last_remote xs" "last_stored (xs @ [Stored k t]) = Some t"
  "last_remote (xs @ [Stored k u, Stored k t]) = last_remote xs" "last_stored (xs @ [Stored k u, Stored k t]) = Some t"
  "last_remote (xs @ Stored k u # ys) = last_remote (xs @ ys)"
  by (simp_all add: last_remote_append last_stored_append last_simps last_remote_def last_stored_def)

lemma loop_ends:
  assumes "tr_state rec = Some Offered" and "tr_digest rec = d"
  shows "yields (attempts_loop env k job m (Suc n) tries rec sent) (\<lambda>r es. ends d r es \<and> offers es \<le> Suc n)"
  using assms
proof (induction n arbitrary: tries rec sent)
  case 0
  show ?case
    unfolding attempts_loop.simps arrived_def finished_def bindE_def liftE_def
    by (intro yields_bind yields_mono [OF attempt_ends [OF "0.prems"(1)]])
       (use "0.prems" in \<open>auto intro!: yields_intros yields_mono [OF move_ends]
        simp: may_go_def ends_def offers_append stored_tail split: outcome.split remote_exn.split\<close>)
next
  case (Suc n)
  have again: "yields (attempts_loop env k job m (Suc n) t' r' s')
      (\<lambda>b es. ends (tr_digest rec) b (xs @ Stored k u # es) \<and> offers es \<le> Suc n)"
    if "tr_state r' = Some Offered" "tr_digest r' = tr_digest rec" for t' r' s' xs u
    using Suc.prems(2) that ends_prefix [of d _ _ "xs @ [Stored k u]"]
    by (auto intro!: yields_mono [OF Suc.IH] simp del: attempts_loop.simps)
  show ?case
    unfolding attempts_loop.simps(2) [of _ _ _ _ "Suc n"] arrived_def finished_def bindE_def liftE_def
    by (intro yields_bind yields_mono [OF attempt_ends [OF Suc.prems(1)]])
       (use Suc.prems in \<open>auto intro!: yields_intros yields_mono [OF move_ends] again
        simp: may_go_def ends_cases advance_def offers_append stored_tail
        simp del: attempts_loop.simps split: outcome.split remote_exn.split\<close>)
qed

text \<open>
  A call tells the truth and stops: with at least one attempt allowed, a run of \<open>replicate\<close> that got as
  far as recording the offer makes at most \<open>max_attempts\<close> offers; it returns the state it recorded
  last, under the digest of this map; that is visible exactly when the last decisive word of the
  remote was that the snapshot is there; and it raises only what the remote raised and no handler
  names. A run that records nothing returns visible, because the record said so for this map, or
  raises before any call.
\<close>

theorem replicate_ends_truthfully:
  assumes "1 \<le> max_attempts env"
  shows "yields (replicate_snapshot env site set_id m) (\<lambda>r es.
     if es = [] then (\<exists>e. r = Inl e) \<or> (\<exists>res. r = Inr res \<and> rs_state res = Visible)
     else ends (Some (map_digest m)) r es \<and> int (offers es) \<le> max_attempts env)"
proof -
  define n where "n = nat (max_attempts env) - 1"
  have n: "nat (max_attempts env) = Suc n" "int (Suc n) = max_attempts env" using assms by (auto simp: n_def)
  have loop: "yields (attempts_loop env k job m (Suc n) 0 r sent) (\<lambda>b es.
      ends (Some (map_digest m)) b (Stored k u # es) \<and> int (offers es) \<le> max_attempts env)"
    if "tr_state r = Some Offered" "tr_digest r = Some (map_digest m)" for k job r sent u
    by (rule yields_mono [OF loop_ends [OF that]]) (use n(2) ends_prefix [of _ _ _ "[Stored k u]"] in auto)
  have mv: "yields (move env k rec Offered upd) (\<lambda>r es. (\<exists>e. r = Inl e \<and> es = [])
      \<or> (r = Inr (upd (rec\<lparr>tr_state := Some Offered\<rparr>)) \<and> (\<exists>u. es = [Stored k u])))" for k rec upd
    unfolding move_def put_call_def advance_def by (auto intro!: yields_intros)
  show ?thesis
    unfolding replicate_snapshot_def Let_def finished_def get_call_def n(1) bindE_def liftE_def
    by (intro yields_bind yields_case_sum yields_if yields_ret yields_look yields_mono [OF mv])
       (auto intro!: loop simp del: attempts_loop.simps)
qed

text \<open>A remote that holds every snapshot already, and one whose publish fails with an error no handler names.\<close>

definition present_remote :: "(unit, memory) repl_env" where
  "present_remote = \<lparr>r_offer = (\<lambda>_ _ u. (Inr Already_Present, u)), r_send = (\<lambda>_ _ _ u. (Inr 0, u)),
     r_publish = (\<lambda>_ _ u. (Inr (), u)), r_store = memory_store, max_attempts = 3\<rparr>"

definition failing_remote :: "(unit, memory) repl_env" where
  "failing_remote = present_remote\<lparr>r_offer := (\<lambda>_ _ u. (Inr (Proceed (\<lambda>_. Some Have_Complete)), u)),
     r_publish := (\<lambda>_ _ u. (Inl (Other_Error (Remote_Failure ''disk'')), u))\<rparr>"

theorem replicate_ends_truthfully_witness:
  "yields (replicate_snapshot present_remote ''b'' ''set-1'' sample_manifest) (\<lambda>r es.
     if es = [] then (\<exists>e. r = Inl e) \<or> (\<exists>res. r = Inr res \<and> rs_state res = Visible)
     else ends (Some (map_digest sample_manifest)) r es \<and> int (offers es) \<le> max_attempts present_remote)"
  by (rule replicate_ends_truthfully) (simp add: present_remote_def)

text \<open>
  A transfer interrupted while it was sending or publishing cannot be taken up again: one unnamed error of
  the remote's publish leaves the record in \<open>publishing\<close>, and from then on every call for that
  snapshot, whatever the remote would answer, raises before asking it anything.
\<close>

theorem interrupted_transfer_is_stuck:
  "\<exists>s1. run_state (replicate_snapshot failing_remote ''b'' ''set-1'' sample_manifest)
            \<lparr>hidden = ((), []), trace = [], memo = None\<rparr> = (Inl (Remote_Failure ''disk''), s1)
     \<and> run_state (replicate_snapshot \<lparr>r_offer = f, r_send = g, r_publish = h, r_store = memory_store, max_attempts = n\<rparr>
            ''b'' ''set-1'' sample_manifest) s1 = (Inl (Bad_Transition Publishing Offered), s1)"
proof -
  have v: "validate_manifest sample_manifest = Inr ()" by code_simp
  have snap: "mf_snapshot sample_manifest = ''snap-1''" by (simp add: sample_manifest_def)
  have delta: "d_ship (plan_delta sample_manifest (\<lambda>_. Some Have_Complete)) = []"
    by (simp add: plan_delta_def sample_manifest_def delta_step_def have_of_def)
  show ?thesis
    by (simp add: replicate_snapshot_def v snap delta Let_def run_rules get_call_def move_def put_call_def attempt_def
        offer_call_def publish_call_def remote_def failing_remote_def present_remote_def memory_store_def no_record_def
        advance_def may_go_def numeral_eq_Suc)
qed

section \<open>The store\<close>

text \<open>What the loop relies on: a record put is the record got, and no other is touched.\<close>

locale state_store =
  fixes st :: "'s store"
  assumes get_put: "st_get st (st_put st d k r) k' = (if k' = k then Some r else st_get st d k')"
begin

lemma get_fold:
  "st_get st (foldl (\<lambda>d e. case e of Stored k r \<Rightarrow> st_put st d k r | _ \<Rightarrow> d) d es) k' =
     (case foldl (\<lambda>acc e. case e of Stored k r \<Rightarrow> if k = k' then Some r else acc | _ \<Rightarrow> acc) None es of
        None \<Rightarrow> st_get st d k' | Some r \<Rightarrow> Some r)"
  by (induction es rule: rev_induct) (auto simp: get_put split: repl_event.split option.split)

end

interpretation mem: state_store memory_store
  by unfold_locales (simp add: memory_store_def)

text \<open>Programs that change the store only by what the trace says they stored.\<close>

definition replay :: "'s store \<Rightarrow> 's \<Rightarrow> repl_event list \<Rightarrow> 's" where
  "replay st d es = foldl (\<lambda>d e. case e of Stored k r \<Rightarrow> st_put st d k r | _ \<Rightarrow> d) d es"

definition tracks :: "'s store \<Rightarrow> ('m \<times> 's, repl_event, 'a) eff \<Rightarrow> bool" where
  "tracks st m \<longleftrightarrow> (\<forall>s. \<exists>es. trace (snd (run_state m s)) = trace s @ es
      \<and> snd (hidden (snd (run_state m s))) = replay st (snd (hidden s)) es)"

lemma tracks_ret: "tracks st (ret a)"
  by (simp add: tracks_def run_ret replay_def)

lemma tracks_bind:
  assumes "tracks st m" and "\<And>a. tracks st (f a)"
  shows "tracks st (State_Monad.bind m f)"
  unfolding tracks_def
proof
  fix s
  obtain a s1 where m: "run_state m s = (a, s1)" by fastforce
  with assms(1) obtain xs where xs: "trace s1 = trace s @ xs" "snd (hidden s1) = replay st (snd (hidden s)) xs"
    unfolding tracks_def by (metis snd_conv)
  obtain ys where "trace (snd (run_state (f a) s1)) = trace s1 @ ys"
    "snd (hidden (snd (run_state (f a) s1))) = replay st (snd (hidden s1)) ys"
    using assms(2) unfolding tracks_def by metis
  with xs m show "\<exists>es. trace (snd (run_state (State_Monad.bind m f) s)) = trace s @ es
      \<and> snd (hidden (snd (run_state (State_Monad.bind m f) s))) = replay st (snd (hidden s)) es"
    by (intro exI [of _ "xs @ ys"]) (simp add: run_bind replay_def)
qed

lemma tracks_bindE: "tracks st m \<Longrightarrow> (\<And>a. tracks st (f a)) \<Longrightarrow> tracks st (bindE m f)"
  unfolding bindE_def by (rule tracks_bind) (auto intro: tracks_ret split: sum.split)

lemma tracks_liftE: "tracks st m \<Longrightarrow> tracks st (liftE m)"
  unfolding liftE_def by (rule tracks_bind) (auto intro: tracks_ret)

lemma tracks_calls:
  "tracks st (offer_call env job b)" "tracks st (send_call env job m w)" "tracks st (publish_call env job b)"
  "tracks st (get_call env k)" "r_store env = st \<Longrightarrow> tracks st (put_call env k r)"
  by (auto simp: tracks_def offer_call_def send_call_def publish_call_def get_call_def put_call_def run_act run_look
      remote_def replay_def split: prod.splits)

lemmas tracks_rules = tracks_ret tracks_bind tracks_bindE tracks_liftE tracks_calls

lemma tracks_move: "r_store env = st \<Longrightarrow> tracks st (move env k rec ts upd)"
  unfolding move_def by (auto intro!: tracks_rules)

lemma tracks_loop: "r_store env = st \<Longrightarrow> tracks st (attempts_loop env k job m n tries rec sent)"
proof (induction n arbitrary: tries rec sent)
  case (Suc n)
  have "tracks st (attempt env k job m rec sent)" for rec sent
    using Suc.prems unfolding attempt_def by (auto intro!: tracks_rules split: sum.split offer.split)
  with Suc show ?case
    by (auto simp: arrived_def finished_def intro!: tracks_rules tracks_move split: outcome.split remote_exn.split)
qed (simp add: finished_def tracks_ret)

lemma tracks_replicate: "r_store env = st \<Longrightarrow> tracks st (replicate_snapshot env site set_id m)"
  unfolding replicate_snapshot_def Let_def finished_def
  by (auto intro!: tracks_rules tracks_move tracks_loop)

text \<open>A call stores under its own key only.\<close>

definition about_key :: "key \<Rightarrow> repl_event \<Rightarrow> bool" where
  "about_key k e = (case e of Stored k' r \<Rightarrow> k' = k | _ \<Rightarrow> True)"

lemma about_key_move: "emits (about_key k) (move env k rec ts upd)"
  unfolding move_def put_call_def by (intro emits_intros) (simp add: about_key_def)

lemma about_key_loop: "emits (about_key k) (attempts_loop env k job m n tries rec sent)"
proof (induction n arbitrary: tries rec sent)
  case (Suc n)
  have "emits (about_key k) (attempt env k job m rec sent)" for rec sent
    unfolding attempt_def offer_call_def send_call_def publish_call_def put_call_def
    by (auto intro!: emits_intros simp: about_key_def split: offer.split)
  with Suc show ?case
    by (auto simp: arrived_def finished_def intro!: emits_intros about_key_move split: outcome.split remote_exn.split)
qed (simp add: finished_def all_events.of_ret)

lemma about_key_replicate: "emits (about_key (site, set_id, mf_snapshot m)) (replicate_snapshot env site set_id m)"
  unfolding replicate_snapshot_def Let_def finished_def get_call_def
  by (auto intro!: emits_intros about_key_move about_key_loop)

lemma last_for_key:
  assumes "list_all (about_key k) es"
  shows "foldl (\<lambda>acc e. case e of Stored k0 r \<Rightarrow> if k0 = k' then Some r else acc | _ \<Rightarrow> acc) None es
      = (if k' = k then last_stored es else None)"
  using assms
  by (induction es rule: rev_induct)
     (auto simp: last_stored_snoc about_key_def split: repl_event.splits, simp_all add: last_stored_def)

text \<open>A visible result leaves a visible record.\<close>

definition shown :: "repl_error + result \<Rightarrow> repl_event list \<Rightarrow> bool" where
  "shown r es = (case r of Inl _ \<Rightarrow> True
     | Inr res \<Rightarrow> rs_state res = Visible \<longrightarrow> (\<exists>t. last_stored es = Some t \<and> tr_state t = Some Visible))"

lemma shown_prefix: "shown r ys \<Longrightarrow> shown r (xs @ ys)"
  by (auto simp: shown_def last_stored_append split: sum.splits)

lemma shown_Cons: "shown r ys \<Longrightarrow> shown r (e # ys)"
  using shown_prefix [of r ys "[e]"] by simp

lemma move_shown:
  "yields (move env k rec ts upd) (\<lambda>r es. \<forall>a. r = Inr a \<longrightarrow> a = upd (rec\<lparr>tr_state := Some ts\<rparr>) \<and> es = [Stored k a])"
  unfolding move_def put_call_def advance_def by (auto intro!: yields_intros)

lemma loop_shown: "yields (attempts_loop env k job m n tries rec sent) shown"
proof (induction n arbitrary: tries rec sent)
  case 0
  show ?case by (auto simp: finished_def shown_def intro!: yields_ret)
next
  case (Suc n)
  have any: "yields (attempt env k job m rec sent) (\<lambda>_ _. True)" by (rule yields_mono [OF orderly_attempt]) simp
  have again: "yields (attempts_loop env k job m n t' r' s') (\<lambda>b es. shown b (xs @ Stored k u # es))" for t' r' s' xs u
    by (rule yields_mono [OF Suc.IH]) (use shown_prefix [of _ _ "xs @ [Stored k u]"] in simp)
  have other: "shown (Inr \<lparr>rs_state = Paused, rs_bytes = b, rs_attempts = c, rs_error = e\<rparr>) es"
    "shown (Inr \<lparr>rs_state = Failed, rs_bytes = b, rs_attempts = c, rs_error = e\<rparr>) es" "shown (Inl x) es" for b c e x es
    by (simp_all add: shown_def)
  have done': "shown (Inr \<lparr>rs_state = Visible, rs_bytes = b, rs_attempts = c, rs_error = e\<rparr>) (es @ [Stored k t])"
    if "tr_state t = Some Visible" for b c e t es
    using that by (simp add: shown_def last_stored_snoc)
  show ?case
    unfolding attempts_loop.simps arrived_def finished_def bindE_def liftE_def
    by (intro yields_bind yields_mono [OF any])
       (auto intro!: yields_intros yields_mono [OF move_shown] again other done'
        simp del: attempts_loop.simps split: outcome.split remote_exn.split)
qed

text \<open>Trace and store together.\<close>

lemma stored_get:
  assumes "run_state p s = (r, s')" and "tracks memory_store p" and "emits (about_key k) p" and "yields p Q"
  obtains es where "Q r es"
    "\<And>k'. st_get memory_store (snd (hidden s')) k' =
       (case if k' = k then last_stored es else None of None \<Rightarrow> st_get memory_store (snd (hidden s)) k' | Some t \<Rightarrow> Some t)"
proof -
  from yields_conj [OF assms(3,4)] assms(1) obtain es where es: "trace s' = trace s @ es" "list_all (about_key k) es" "Q r es"
    by (auto elim: yieldsD)
  from assms(1,2) obtain es' where "trace s' = trace s @ es'" "snd (hidden s') = replay memory_store (snd (hidden s)) es'"
    unfolding tracks_def by (metis snd_conv)
  with es have "snd (hidden s') = replay memory_store (snd (hidden s)) es" by simp
  then show ?thesis
    using that es(3) mem.get_fold [of "snd (hidden s)" es] by (simp only: replay_def last_for_key [OF es(2)])
qed

lemma replicate_others:
  assumes "run_state (replicate_snapshot env site set_id m) s = (r, s')" and "r_store env = memory_store"
    and "k' \<noteq> (site, set_id, mf_snapshot m)"
  shows "st_get memory_store (snd (hidden s')) k' = st_get memory_store (snd (hidden s)) k'"
  by (rule stored_get [OF assms(1) tracks_replicate [OF assms(2)] about_key_replicate about_key_replicate])
     (use assms(3) in simp)

lemma replicate_visible:
  assumes "run_state (replicate_snapshot env site set_id m) s = (Inr res, s')" and "rs_state res = Visible"
    and st: "r_store env = memory_store"
  shows "is_visible (st_get memory_store (snd (hidden s')) (site, set_id, mf_snapshot m))"
proof -
  let ?k = "(site, set_id, mf_snapshot m)"
  let ?job = "job_id site set_id (mf_snapshot m) (map_digest m)"
  define found where "found = st_get memory_store (snd (hidden s)) ?k"
  define rec where "rec = (case found of None \<Rightarrow> no_record | Some r \<Rightarrow> r)"
  define rest where "rest = bindE (move env ?k rec Offered (\<lambda>r. r\<lparr>tr_digest := Some (map_digest m), tr_job := Some ?job, tr_error := None\<rparr>))
     (\<lambda>r. attempts_loop env ?k ?job m (nat (max_attempts env)) 0 r (or_int (tr_bytes r) 0))"
  have get: "run_state (get_call env ?k) s = (found, s)"
    by (simp add: get_call_def run_look st found_def split: prod.splits)
  have run: "(if tr_state rec = Some Visible \<and> tr_digest rec = Some (map_digest m)
      then run_state (finished Visible 0 0 None) s else run_state rest s) = (Inr res, s')"
    using assms(1) get by (auto simp: replicate_snapshot_def Let_def run_rules rest_def rec_def split: sum.splits if_splits)
  show ?thesis
  proof (cases "tr_state rec = Some Visible \<and> tr_digest rec = Some (map_digest m)")
    case True
    with run have "s' = s" by (simp add: finished_def run_ret)
    with True show ?thesis
      by (auto simp: is_visible_def rec_def found_def no_record_def split: option.splits)
  next
    case False
    with run have run': "run_state rest s = (Inr res, s')" by auto
    have tr: "tracks memory_store rest" unfolding rest_def using st by (auto intro!: tracks_rules tracks_move tracks_loop)
    have ab: "emits (about_key ?k) rest" unfolding rest_def by (intro emits_intros about_key_move about_key_loop)
    have sh: "yields rest shown"
      unfolding rest_def bindE_def
      by (intro yields_bind yields_case_sum yields_mono [OF move_shown] yields_ret)
         (auto intro!: yields_mono [OF loop_shown] simp: shown_Cons shown_def [of "Inl _"])
    show ?thesis
      by (rule stored_get [OF run' tr ab sh]) (use assms(2) in \<open>auto simp: shown_def is_visible_def\<close>)
  qed
qed

text \<open>The members that a set's results call visible have visible records.\<close>

definition results_shown :: "string \<Rightarrow> string \<Rightarrow> memory \<Rightarrow> (string \<times> result) list \<Rightarrow> bool" where
  "results_shown site set_id d rs \<longleftrightarrow>
     (\<forall>sn r. map_of rs sn = Some r \<longrightarrow> rs_state r = Visible \<longrightarrow> is_visible (st_get memory_store d (site, set_id, sn)))"

lemma replicate_results_shown:
  assumes "run_state (replicate_snapshot env site set_id m) s = (Inr r, s')" and "r_store env = memory_store"
    and "results_shown site set_id (snd (hidden s)) acc"
  shows "results_shown site set_id (snd (hidden s')) (dict_set (mf_snapshot m) r acc)"
  using replicate_visible [OF assms(1) _ assms(2)] replicate_others [OF assms(1,2)] assms(3)
  by (auto simp: results_shown_def)

lemma replicate_members_shown:
  assumes "run_state (for_eachE (\<lambda>m acc. bindE (replicate_snapshot env site set_id m) (\<lambda>r.
              okE (dict_set (mf_snapshot m) r acc))) ms acc) s = (Inr rs, s')"
    and "r_store env = memory_store" and "results_shown site set_id (snd (hidden s)) acc"
  shows "results_shown site set_id (snd (hidden s')) rs \<and> fst ` set rs = fst ` set acc \<union> mf_snapshot ` set ms"
  using assms
proof (induction ms arbitrary: acc s)
  case Nil
  then show ?case by (simp add: run_ret)
next
  case (Cons m ms)
  then obtain r s1 where r: "run_state (replicate_snapshot env site set_id m) s = (Inr r, s1)"
    and rest: "run_state (for_eachE (\<lambda>m acc. bindE (replicate_snapshot env site set_id m) (\<lambda>r.
              okE (dict_set (mf_snapshot m) r acc))) ms (dict_set (mf_snapshot m) r acc)) s1 = (Inr rs, s')"
    by (auto simp: run_rules split: prod.splits sum.splits)
  show ?case
    using Cons.IH [OF rest Cons.prems(2) replicate_results_shown [OF r Cons.prems(2,3)]]
    by (auto simp: dict_set_keys)
qed

text \<open>
  Retention is released only by arrival: once \<open>replicate_set\<close> reports a set visible at a site, over the
  memory store, every member's record is visible there and the set is pinned no longer; and a set
  is reported visible only so.
\<close>

theorem visible_set_is_unpinned:
  assumes "run_state (replicate_set env site set_id ms) s = (Inr (Visible, rs), s')" and "r_store env = memory_store"
  shows "pinned_sets memory_store (snd (hidden s')) site [(set_id, map mf_snapshot ms)] = []"
proof -
  from assms(1) have run: "run_state (for_eachE (\<lambda>m acc. bindE (replicate_snapshot env site set_id m) (\<lambda>r.
              okE (dict_set (mf_snapshot m) r acc))) ms []) s = (Inr rs, s')"
    and all: "list_all (\<lambda>(_, r). rs_state r = Visible) rs"
    by (auto simp: replicate_set_def run_rules split: prod.splits sum.splits if_splits)
  from replicate_members_shown [OF run assms(2)]
  have shown: "results_shown site set_id (snd (hidden s')) rs" and keys: "fst ` set rs = mf_snapshot ` set ms"
    by (simp_all add: results_shown_def)
  have "is_visible (st_get memory_store (snd (hidden s')) (site, set_id, mf_snapshot m))" if "m \<in> set ms" for m
  proof -
    from that keys have "mf_snapshot m \<in> fst ` set rs" by auto
    then obtain r where r: "map_of rs (mf_snapshot m) = Some r" by (metis domD dom_map_of_conv_image_fst)
    with all have "rs_state r = Visible" by (auto simp: list_all_iff dest: map_of_SomeD)
    with shown r show ?thesis by (simp add: results_shown_def)
  qed
  then show ?thesis by (simp add: pinned_sets_def list_all_iff)
qed

theorem visible_set_is_unpinned_witness:
  "\<exists>rs s'. run_state (replicate_set present_remote ''b'' ''set-1'' [sample_manifest])
        \<lparr>hidden = ((), []), trace = [], memo = None\<rparr> = (Inr (Visible, rs), s')
     \<and> pinned_sets memory_store (snd (hidden s')) ''b'' [(''set-1'', map mf_snapshot [sample_manifest])] = []
     \<and> pinned_sets memory_store [] ''b'' [(''set-1'', map mf_snapshot [sample_manifest])] = [''set-1'']"
proof -
  have v: "validate_manifest sample_manifest = Inr ()" by code_simp
  have snap: "mf_snapshot sample_manifest = ''snap-1''" by (simp add: sample_manifest_def)
  have "\<exists>rs s'. run_state (replicate_set present_remote ''b'' ''set-1'' [sample_manifest])
        \<lparr>hidden = ((), []), trace = [], memo = None\<rparr> = (Inr (Visible, rs), s')"
    by (simp add: replicate_set_def replicate_snapshot_def v snap Let_def run_rules get_call_def move_def put_call_def
        attempt_def offer_call_def remote_def present_remote_def memory_store_def no_record_def arrived_def finished_def
        advance_def may_go_def numeral_eq_Suc)
  then obtain rs s' where run: "run_state (replicate_set present_remote ''b'' ''set-1'' [sample_manifest])
        \<lparr>hidden = ((), []), trace = [], memo = None\<rparr> = (Inr (Visible, rs), s')" by blast
  have "r_store present_remote = memory_store" by (simp add: present_remote_def)
  from visible_set_is_unpinned [OF run this] run show ?thesis
    by (auto simp: pinned_sets_def memory_store_def is_visible_def)
qed

end
