(* ===== verification/Task_Rows.thy ===== *)
theory Task_Rows
  imports Cql
begin

text \<open>
  The task rows of \<open>src/helios_schema.py\<close>: the statements that write \<open>hydra.catalyst_tasks\<close>, built
  as templates (fixed text and quoted values), and the compare-and-swap that allocates a component's
  sequence numbers. Daruk's endpoint is a parameter.
\<close>

section \<open>Literals\<close>

definition quote :: "string \<Rightarrow> string" where
  "quote v = [quote_char] @ double_quotes v @ [quote_char]"

interpretation schema_quote: quoting quote
  by unfold_locales (simp add: quote_def skip_literal_doubled not_quote_first_def split: list.splits)

definition is_hex :: "char \<Rightarrow> bool" where
  "is_hex c = (let n = (of_char c :: nat)
     in (48 \<le> n \<and> n \<le> 57) \<or> (65 \<le> n \<and> n \<le> 70) \<or> (97 \<le> n \<and> n \<le> 102))"

fun hex_digits :: "bool \<Rightarrow> string \<Rightarrow> bool" where
  "hex_digits after [] = after"
| "hex_digits after (c # cs) =
     (if is_hex c then hex_digits True cs
      else if c = CHR ''_'' \<and> after then hex_digits False cs else False)"

text \<open>Whether \<open>int(s, 16)\<close> accepts the text: white space around it, a sign, a \<open>0x\<close> prefix.\<close>

definition accepts_base16 :: "string \<Rightarrow> bool" where
  "accepts_base16 s =
     (let t = strip s;
          u = (case t of c # cs \<Rightarrow> if c = CHR ''+'' \<or> c = CHR ''-'' then cs else t | [] \<Rightarrow> [])
      in if starts_with (lower u) ''0x'' then
           (case drop 2 u of
              [] \<Rightarrow> False
            | c # cs \<Rightarrow> if c = CHR ''_'' then hex_digits False cs else hex_digits False (c # cs))
         else hex_digits False u)"

definition uuid_or_null :: "string option \<Rightarrow> string" where
  "uuid_or_null v =
     (let text = strip (or_str v []);
          stripped = filter (\<lambda>c. c \<noteq> CHR ''-'') text
      in if text = [] \<or> length stripped \<noteq> 32 \<or> \<not> accepts_base16 stripped then ''NULL'' else text)"

definition int_or_null :: "pynum \<Rightarrow> string" where
  "int_or_null v = (case py_int v of None \<Rightarrow> ''NULL'' | Some n \<Rightarrow> show_int n)"

definition text_or_null :: "string option \<Rightarrow> piece" where
  "text_or_null v = (case v of None \<Rightarrow> Lit ''NULL'' | Some s \<Rightarrow> if s = [] then Lit ''NULL'' else Val s)"

section \<open>Task rows\<close>

abbreviation task_pending :: string where "task_pending \<equiv> ''pending''"
abbreviation task_processing :: string where "task_processing \<equiv> ''processing''"
abbreviation task_completed :: string where "task_completed \<equiv> ''completed''"
abbreviation task_failed :: string where "task_failed \<equiv> ''failed''"

definition task_terminal :: "string list" where
  "task_terminal = [task_completed, task_failed]"

record task_row =
  t_id :: "string option"
  t_service :: "string option"
  t_action :: "string option"
  t_payload :: string
  t_component :: "string option"
  t_type :: "string option"
  t_sequence :: pynum
  t_parent :: "string option"
  t_status :: "string option"
  t_progress :: int

definition or_else :: "string option \<Rightarrow> string option \<Rightarrow> string option" where
  "or_else a b = (if truthy_str a then a else b)"

definition task_insert_statement :: "task_row \<Rightarrow> int \<Rightarrow> piece list" where
  "task_insert_statement t now_ms =
     [Lit (''INSERT INTO hydra.catalyst_tasks (task_id, parent_task_id, component, sequence_id, service, action, task_type, status, payload, progress, created_at, updated_at) VALUES (''
        @ uuid_or_null (t_id t) @ '', '' @ uuid_or_null (t_parent t) @ '', ''),
      text_or_null (or_else (t_component t) (t_service t)),
      Lit ('', '' @ int_or_null (t_sequence t) @ '', ''),
      text_or_null (t_service t), Lit '', '', text_or_null (t_action t), Lit '', '',
      text_or_null (or_else (t_type t) (t_action t)), Lit '', '', text_or_null (t_status t), Lit '', '',
      Val (t_payload t),
      Lit ('', '' @ show_int (t_progress t) @ '', '' @ show_int now_ms @ '', '' @ show_int now_ms @ '');'')]"

definition task_update_statement ::
    "string option \<Rightarrow> string option \<Rightarrow> int \<Rightarrow> int \<Rightarrow> string option \<Rightarrow> piece list" where
  "task_update_statement tid status progress now_ms err =
     [Lit ''UPDATE hydra.catalyst_tasks SET status = '', text_or_null status,
      Lit ('', progress = '' @ show_int progress @ '', updated_at = '' @ show_int now_ms)]
     @ (if truthy_str err then [Lit '', error_msg = '', Val (the err)] else [])
     @ [Lit ((if status \<in> Some ` set task_terminal then '', completed_at = '' @ show_int now_ms else [])
             @ '' WHERE task_id = '' @ uuid_or_null tid @ '';'')]"

section \<open>Sequence numbers\<close>

text \<open>
  One compare-and-swap on a component's counter row: proposed value, value it must still hold.
  The answer says whether the call worked, whether the swap applied, and the row's current value.
\<close>

record lwt_answer =
  lwt_ok :: bool
  lwt_applied_flag :: bool
  lwt_current :: pynum

fun claim_loop ::
    "(string \<Rightarrow> int \<Rightarrow> int option \<Rightarrow> 's \<Rightarrow> lwt_answer \<times> 's) \<Rightarrow> string \<Rightarrow> nat \<Rightarrow> int option \<Rightarrow> 's
     \<Rightarrow> int option \<times> 's" where
  "claim_loop lwt component 0 expected s = (None, s)"
| "claim_loop lwt component (Suc n) expected s =
     (let proposed = or_int expected 0 + 1;
          (a, s') = lwt component proposed expected s
      in if \<not> lwt_ok a then (None, s')
         else if lwt_applied_flag a then (Some proposed, s')
         else (case lwt_current a of
                 Nothing \<Rightarrow> claim_loop lwt component n None s'
               | v \<Rightarrow> (case py_int v of
                          None \<Rightarrow> (None, s')
                        | Some e \<Rightarrow> claim_loop lwt component n (Some e) s')))"

definition claim_task_sequence ::
    "(string \<Rightarrow> int \<Rightarrow> int option \<Rightarrow> 's \<Rightarrow> lwt_answer \<times> 's) \<Rightarrow> string \<Rightarrow> pynum \<Rightarrow> int \<Rightarrow> 's
     \<Rightarrow> int option \<times> 's" where
  "claim_task_sequence lwt component expected attempts s =
     claim_loop lwt component (nat (max 1 attempts)) (py_int expected) s"

section \<open>Lemmas\<close>

text \<open>
  What the claim relies on: the endpoint is a compare-and-swap on the counter row. \<open>read\<close> is the
  counter's value; \<open>v\<close> is its value at the moment of the swap, which other submitters may have
  advanced. A call that failed may have been applied or not, but never moves the counter back. The
  gateway keeps these laws (theory \<open>Daruk_Clients\<close>).
\<close>

locale cas_counter =
  fixes lwt :: "string \<Rightarrow> int \<Rightarrow> int option \<Rightarrow> 's \<Rightarrow> lwt_answer \<times> 's"
    and c :: string
    and read :: "'s \<Rightarrow> int option"
    and ok :: "'s \<Rightarrow> bool"
  assumes keeps: "ok s \<Longrightarrow> ok (snd (lwt c p e s))"
    and swap: "ok s \<Longrightarrow> lwt c p e s = (a, s') \<Longrightarrow> lwt_ok a \<Longrightarrow>
      \<exists>v. or_int (read s) 0 \<le> or_int v 0 \<and> lwt_applied_flag a = (v = e) \<and>
           (if v = e then read s' = Some p else read s' = v \<and> lwt_current a = (case v of None \<Rightarrow> Nothing | Some n \<Rightarrow> Num n))"
    and failed: "ok s \<Longrightarrow> lwt c p e s = (a, s') \<Longrightarrow> \<not> lwt_ok a \<Longrightarrow> or_int e 0 < p \<Longrightarrow> or_int (read s) 0 \<le> or_int (read s') 0"
begin

lemma claim_loop_fresh:
  "ok s \<Longrightarrow> claim_loop lwt c n e s = (Some k, s') \<Longrightarrow> or_int (read s) 0 < k \<and> read s' = Some k"
proof (induction n arbitrary: e s)
  case (Suc n)
  obtain a s1 where l: "lwt c (or_int e 0 + 1) e s = (a, s1)" by fastforce
  have ok: "lwt_ok a" using Suc.prems l by (auto simp: Let_def split: if_splits)
  have ok1: "ok s1" using keeps [OF Suc.prems(1), of "or_int e 0 + 1" e] l by simp
  from swap [OF Suc.prems(1) l ok] obtain v where v: "or_int (read s) 0 \<le> or_int v 0" "lwt_applied_flag a = (v = e)"
    "if v = e then read s1 = Some (or_int e 0 + 1)
     else read s1 = v \<and> lwt_current a = (case v of None \<Rightarrow> Nothing | Some n \<Rightarrow> Num n)"
    by blast
  show ?case
  proof (cases "v = e")
    case True
    with Suc.prems l ok v show ?thesis by (auto simp: Let_def)
  next
    case False
    with Suc.prems l ok v have "claim_loop lwt c n v s1 = (Some k, s')"
      by (cases v) (auto simp: Let_def)
    then have "or_int (read s1) 0 < k \<and> read s' = Some k" by (rule Suc.IH [OF ok1])
    with False v show ?thesis by auto
  qed
qed simp

text \<open>Whether or not a number comes of it, a claim never takes the counter back.\<close>

lemma claim_loop_monotone: "ok s \<Longrightarrow> claim_loop lwt c n e s = (r, s') \<Longrightarrow> or_int (read s) 0 \<le> or_int (read s') 0"
proof (induction n arbitrary: e s)
  case (Suc n)
  obtain a s1 where l: "lwt c (or_int e 0 + 1) e s = (a, s1)" by fastforce
  have ok1: "ok s1" using keeps [OF Suc.prems(1), of "or_int e 0 + 1" e] l by simp
  show ?case
  proof (cases "lwt_ok a")
    case False
    with Suc.prems l failed [OF Suc.prems(1) l] show ?thesis by (auto simp: Let_def)
  next
    case True
    from swap [OF Suc.prems(1) l True] have up: "or_int (read s) 0 \<le> or_int (read s1) 0" by (auto simp: or_int_def split: if_splits option.splits)
    then show ?thesis
      using Suc.prems l True Suc.IH [OF ok1] by (fastforce simp: Let_def split: if_splits pynum.splits option.splits)
  qed
qed simp

end

text \<open>A counter held in memory, the instance the witnesses use.\<close>

definition mem_counter :: "string \<Rightarrow> int \<Rightarrow> int option \<Rightarrow> int option \<Rightarrow> lwt_answer \<times> int option" where
  "mem_counter c p e v =
     (if v = e then (\<lparr>lwt_ok = True, lwt_applied_flag = True, lwt_current = Nothing\<rparr>, Some p)
      else (\<lparr>lwt_ok = True, lwt_applied_flag = False,
              lwt_current = (case v of None \<Rightarrow> Nothing | Some n \<Rightarrow> Num n)\<rparr>, v))"

text \<open>
  What is interpolated without quotes holds no quote and no letter i: neither a literal nor the
  keyword of a condition can begin in it.
\<close>

definition inert :: "string \<Rightarrow> bool" where
  "inert s = list_all (\<lambda>c. c \<noteq> quote_char \<and> \<not> an_i c) s"

lemma inert_append: "inert (a @ b) \<longleftrightarrow> inert a \<and> inert b"
  by (simp add: inert_def)

lemma inert_char:
  assumes "is_ws c \<or> is_hex c \<or> c \<in> {CHR ''_'', CHR ''+'', CHR ''-'', CHR ''x'', CHR ''X''}"
  shows "c \<noteq> quote_char \<and> \<not> an_i c"
  using assms by (auto simp: is_ws_def is_hex_def Let_def)

lemma inert_show_int: "inert (show_int n)"
proof -
  have digit: "c \<noteq> quote_char \<and> \<not> an_i c" if "is_digit c" for c
    using that by (auto simp: is_digit_def Let_def)
  then have "inert (show_nat m)" for m using show_nat_digits by (auto simp: inert_def list_all_iff)
  then show ?thesis by (auto simp: show_int_def inert_def)
qed

lemma strip_members: "c \<in> set s \<Longrightarrow> is_ws c \<or> c \<in> set (strip s)"
proof -
  have drop: "c \<in> set xs \<Longrightarrow> is_ws c \<or> c \<in> set (dropWhile is_ws xs)" for xs
    by (induction xs) auto
  assume "c \<in> set s"
  from drop [OF this] show ?thesis using drop [of "rev (dropWhile is_ws s)"] by (auto simp: strip_def)
qed

lemma hex_digits_chars: "hex_digits p s \<Longrightarrow> c \<in> set s \<Longrightarrow> is_hex c \<or> c = CHR ''_''"
  by (induction p s rule: hex_digits.induct) (auto split: if_splits)

lemma lower_char_x: "lower_char c = CHR ''0'' \<Longrightarrow> is_hex c" "lower_char c = CHR ''x'' \<Longrightarrow> c \<in> {CHR ''x'', CHR ''X''}"
  unfolding lower_char_eq insert_iff char_eq_code [of c] Let_def is_hex_def by (auto split: if_splits)

lemma accepts_base16_chars:
  assumes "accepts_base16 s" and "c \<in> set s"
  shows "is_ws c \<or> is_hex c \<or> c \<in> {CHR ''_'', CHR ''+'', CHR ''-'', CHR ''x'', CHR ''X''}"
proof -
  define t where "t = strip s"
  define u where "u = (case t of c # cs \<Rightarrow> if c = CHR ''+'' \<or> c = CHR ''-'' then cs else t | [] \<Rightarrow> [])"
  have tu: "x \<in> set t \<Longrightarrow> x \<in> {CHR ''+'', CHR ''-''} \<or> x \<in> set u" for x
    unfolding u_def by (cases t) (simp_all, blast)
  have pre: "x \<in> set u \<Longrightarrow> is_hex x \<or> x \<in> {CHR ''x'', CHR ''X''} \<or> x \<in> set (drop 2 u)"
    if "starts_with (lower u) ''0x''" for x
  proof -
    from that obtain a b v where "u = a # b # v" "lower_char a = CHR ''0''" "lower_char b = CHR ''x''"
      by (auto simp: starts_with_iff lower_def map_eq_Cons_conv map_eq_append_conv)
    then show "x \<in> set u \<Longrightarrow> ?thesis" using lower_char_x by auto
  qed
  have "is_hex x \<or> x \<in> {CHR ''_'', CHR ''x'', CHR ''X''}" if "x \<in> set u" for x
    using assms(1) that pre [of x] hex_digits_chars [of False _ x] hex_digits_chars [of True _ x]
    unfolding accepts_base16_def Let_def t_def [symmetric] u_def [symmetric]
    by (auto split: if_splits list.splits)
  with tu strip_members [OF assms(2)] show ?thesis by (auto simp: t_def)
qed

lemma inert_uuid: "inert (uuid_or_null v)"
proof (cases "uuid_or_null v = ''NULL''")
  case False
  define body where "body = strip (or_str v [])"
  from False have u: "uuid_or_null v = body" "accepts_base16 (filter (\<lambda>c. c \<noteq> CHR ''-'') body)"
    by (auto simp: uuid_or_null_def body_def Let_def split: if_splits)
  have "c \<noteq> quote_char \<and> \<not> an_i c" if "c \<in> set body" for c
    using accepts_base16_chars [OF u(2), of c] that inert_char [of c] by (cases "c = CHR ''-''") auto
  then show ?thesis by (simp add: u inert_def list_all_iff)
qed (simp add: inert_def)

lemma inert_int_or_null: "inert (int_or_null v)"
  by (cases "py_int v") (simp_all add: int_or_null_def inert_show_int, simp add: inert_def)

section \<open>Properties\<close>

text \<open>
  A wrong hint costs one refusal and nothing else: with no other submitter in the way, two
  attempts always suffice, and the claim gives the counter's value plus one.
\<close>

theorem claim_succeeds_uncontended:
  assumes "2 \<le> attempts"
  shows "claim_task_sequence mem_counter c hint attempts v = (Some (or_int v 0 + 1), Some (or_int v 0 + 1))"
proof -
  have n: "nat (max 1 attempts) = Suc (Suc (nat (attempts - 2)))"
    using assms by linarith
  show ?thesis
    by (cases v) (auto simp: claim_task_sequence_def n mem_counter_def Let_def)
qed

theorem claim_succeeds_uncontended_witness:
  "claim_task_sequence mem_counter ''Rauru'' (Num 9) 6 None = (Some 1, Some 1)"
  using claim_succeeds_uncontended [of 6 "''Rauru''" "Num 9" None] by simp

text \<open>
  A task id is interpolated unquoted when it reads as 32 hexadecimal digits once its dashes are
  taken out, wherever the dashes stand; so an id with two dashes together puts a CQL comment into
  the statement, although the guard is there to keep such text out.
\<close>

theorem uuid_guard_lets_comment_through:
  "uuid_or_null (Some ''--0123456789abcdef0123456789abcdef'') = ''--0123456789abcdef0123456789abcdef''
   \<and> contains (fill quote (task_update_statement (Some ''--0123456789abcdef0123456789abcdef'')
        (Some task_failed) 100 0 None)) ''task_id = --''"
  by code_simp

end
