(* ===== verification/Text_Lines.thy ===== *)
theory Text_Lines
  imports Prelude
begin

text \<open>
  Python's \<open>str.split()\<close>, \<open>str.splitlines()\<close>, \<open>str.partition\<close> and \<open>str.upper\<close>, which the readers
  of command output use, with the facts that let a reader be run backwards on what was printed.
\<close>

section \<open>Words\<close>

function split_ws :: "string \<Rightarrow> string list" where
  "split_ws [] = []"
| "split_ws (c # s) =
     (if is_ws c then split_ws s
      else (c # takeWhile (\<lambda>d. \<not> is_ws d) s) # split_ws (dropWhile (\<lambda>d. \<not> is_ws d) s))"
  by pat_completeness auto
termination by (relation "measure length") (auto simp: le_imp_less_Suc length_dropWhile_le)

definition upper_char :: "char \<Rightarrow> char" where
  "upper_char c = (let n = (of_char c :: nat)
     in if (97 \<le> n \<and> n \<le> 122) \<or> (224 \<le> n \<and> n \<le> 254 \<and> n \<noteq> 247) then char_of (n - 32) else c)"

definition upper :: "string \<Rightarrow> string" where
  "upper s = map upper_char s"

section \<open>Lines\<close>

definition is_break :: "char \<Rightarrow> bool" where
  "is_break c = (let n = (of_char c :: nat) in (10 \<le> n \<and> n \<le> 13) \<or> (28 \<le> n \<and> n \<le> 30) \<or> n = 133)"

definition after_break :: "string \<Rightarrow> string" where
  "after_break s = (case s of
     [] \<Rightarrow> []
   | c # r \<Rightarrow> if c = CHR 0x0D \<and> r \<noteq> [] \<and> hd r = CHR 0x0A then tl r else r)"

lemma after_break_shorter: "s \<noteq> [] \<Longrightarrow> length (after_break s) < length s"
  by (auto simp: after_break_def split: list.split)

lemma after_line_shorter: "s \<noteq> [] \<Longrightarrow> length (after_break (dropWhile p s)) < length s"
proof (cases "dropWhile p s = []")
  case True
  then show "s \<noteq> [] \<Longrightarrow> ?thesis" unfolding True by (simp add: after_break_def)
next
  case False
  then show ?thesis using after_break_shorter [OF False] length_dropWhile_le [of p s] by linarith
qed

function splitlines :: "string \<Rightarrow> string list" where
  "splitlines s = (if s = [] then []
     else takeWhile (\<lambda>c. \<not> is_break c) s # splitlines (after_break (dropWhile (\<lambda>c. \<not> is_break c) s)))"
  by pat_completeness auto

termination by (relation "measure length") (auto simp: after_line_shorter)

declare splitlines.simps [simp del]

definition partition_on :: "char \<Rightarrow> string \<Rightarrow> string \<times> string" where
  "partition_on c s = (takeWhile (\<lambda>d. d \<noteq> c) s, drop 1 (dropWhile (\<lambda>d. d \<noteq> c) s))"

section \<open>Lemmas\<close>

lemma break_is_ws: "is_break c \<Longrightarrow> is_ws c"
  by (auto simp: is_break_def is_ws_def Let_def)

definition is_word :: "string \<Rightarrow> bool" where
  "is_word s \<longleftrightarrow> s \<noteq> [] \<and> list_all (\<lambda>c. \<not> is_ws c) s"

lemma takeWhile_whole: "list_all p s \<Longrightarrow> takeWhile p (s @ c # r) = s @ takeWhile p (c # r)"
  by (induction s) auto

lemma dropWhile_whole: "list_all p s \<Longrightarrow> dropWhile p (s @ r) = dropWhile p r"
  by (induction s) auto

lemma split_ws_word: "is_word s \<Longrightarrow> split_ws s = [s]"
proof -
  assume s: "is_word s"
  then obtain c r where "s = c # r" by (cases s) (auto simp: is_word_def)
  with s show ?thesis by (simp add: is_word_def list_all_iff takeWhile_eq_all_conv dropWhile_eq_Nil_conv [THEN iffD2])
qed

lemma split_ws_join:
  assumes "is_word s" and "is_ws b"
  shows "split_ws (s @ b # r) = s # split_ws r"
proof -
  from assms(1) obtain c t where s: "s = c # t" by (cases s) (auto simp: is_word_def)
  have t: "list_all (\<lambda>d. \<not> is_ws d) t" "\<not> is_ws c" using assms(1) by (auto simp: is_word_def s)
  show ?thesis using t assms(2) by (simp add: s takeWhile_whole [OF t(1)] dropWhile_whole [OF t(1)])
qed

lemma split_ws_words: "w \<in> set (split_ws s) \<Longrightarrow> is_word w"
proof (induction s rule: split_ws.induct)
  case (2 c s)
  show ?case
  proof (cases "is_ws c")
    case False
    have "is_word (c # takeWhile (\<lambda>d. \<not> is_ws d) s)"
      using False by (auto simp: is_word_def list_all_iff dest: set_takeWhileD)
    with 2 False show ?thesis by auto
  qed (use 2 in simp)
qed simp

lemma strip_word: "is_word s \<Longrightarrow> strip s = s"
proof -
  assume s: "is_word s"
  then have "dropWhile is_ws s = s" "dropWhile is_ws (rev s) = rev s"
    by (auto simp: is_word_def dropWhile_eq_self_iff list_all_iff hd_rev)
  then show ?thesis by (simp add: strip_def)
qed

lemma splitlines_line:
  assumes "list_all (\<lambda>c. \<not> is_break c) l"
  shows "splitlines (l @ CHR 0x0A # r) = l # splitlines r"
proof -
  have "is_break CHR 0x0A" by (simp add: is_break_def)
  then show ?thesis
    by (subst splitlines.simps)
       (simp add: takeWhile_whole [OF assms] dropWhile_whole [OF assms] after_break_def)
qed

lemma splitlines_last: "list_all (\<lambda>c. \<not> is_break c) l \<Longrightarrow> l \<noteq> [] \<Longrightarrow> splitlines l = [l]"
  by (subst splitlines.simps)
     (simp add: after_break_def list_all_iff takeWhile_eq_all_conv dropWhile_eq_Nil_conv [THEN iffD2] splitlines.simps)

lemma is_word_unbroken: "is_word s \<Longrightarrow> list_all (\<lambda>c. \<not> is_break c) s"
  by (auto simp: is_word_def list_all_iff dest: break_is_ws)

definition blanks :: "nat \<Rightarrow> string" where
  "blanks n = replicate n CHR '' ''"

lemma blank_ws: "is_ws CHR '' ''" "\<not> is_break CHR '' ''"
  by (simp_all add: is_ws_def is_break_def)

lemma dropWhile_blanks: "dropWhile is_ws (blanks n @ s) = dropWhile is_ws s"
  by (induction n) (simp_all add: blanks_def blank_ws)

lemma strip_blanks:
  assumes "s \<noteq> []" and "\<not> is_ws (hd s)" and "\<not> is_ws (last s)"
  shows "strip (blanks m @ s @ blanks n) = s"
proof -
  have front: "dropWhile is_ws (s @ t) = s @ t" for t using assms(1, 2) by (cases s) auto
  have rev: "rev (blanks n) = blanks n" by (simp add: blanks_def)
  have rear: "dropWhile is_ws (rev s) = rev s" using assms(1, 3) by (cases s rule: rev_cases) auto
  show ?thesis by (simp add: strip_def dropWhile_blanks front rev rear)
qed

lemma blanks_unbroken: "list_all (\<lambda>c. \<not> is_break c) (blanks n)"
  by (simp add: blanks_def list_all_iff blank_ws)

lemma is_word_ends: "is_word s \<Longrightarrow> s \<noteq> [] \<and> \<not> is_ws (hd s) \<and> \<not> is_ws (last s)"
  by (auto simp: is_word_def list_all_iff)

lemma splitlines_all:
  assumes "\<And>l. l \<in> set ls \<Longrightarrow> list_all (\<lambda>c. \<not> is_break c) l"
  shows "splitlines (concat (map (\<lambda>l. l @ [CHR 0x0A]) ls) @ r) = ls @ splitlines r"
  using assms by (induction ls) (simp_all add: splitlines_line)

end
