(* ===== verification/Schema.thy ===== *)
theory Schema
  imports Task_Rows Text_Lines Sha256 Effects "HOL-Library.Sublist"
begin

text \<open>
  The schema ledger of \<open>src/helios_schema.py\<close>: what identifies a migration, which migrations are
  pending, how the answers of the two database paths are read, and \<open>ensure_schema\<close>, which applies
  what is pending under a lock. The executor is a parameter that answers from a hidden state; each
  statement it is given is a value of \<open>sstmt\<close>, whose text is \<open>sstmt_text\<close>. \<open>json.loads\<close> of one row
  of \<open>hydra.gatoway_networks\<close> and the reading of its three columns is the parameter \<open>loads\<close>, where a
  \<open>vlan_id\<close> that is null, a boolean or no whole number is \<^const>\<open>None\<close>.
\<close>

datatype backfill = Backfill_Vlan_Claims

definition backfill_name :: "backfill \<Rightarrow> string" where
  "backfill_name b = (case b of Backfill_Vlan_Claims \<Rightarrow> ''backfill_vlan_claims'')"

record migration =
  mg_id :: string
  mg_statements :: "string list"
  mg_backfill :: "backfill option"

datatype schema_exn = Schema_Error string | Schema_Divergence string string string

record net_row =
  nr_net_id :: "string option"
  nr_name :: "string option"
  nr_vlan :: "int option"

section \<open>What identifies a migration\<close>

definition lf :: string where
  "lf = [CHR 0x0A]"

definition one_spaced :: "string \<Rightarrow> string" where
  "one_spaced s = join '' '' (split_ws s)"

definition checksum_text :: "migration \<Rightarrow> string" where
  "checksum_text m =
     concat (map (\<lambda>s. one_spaced s @ lf) (mg_statements m))
     @ (case mg_backfill m of None \<Rightarrow> [] | Some b \<Rightarrow> ''backfill:'' @ backfill_name b @ lf)"

definition checksum :: "migration \<Rightarrow> string" where
  "checksum m = sha256_hex (checksum_text m)"

fun pending :: "migration list \<Rightarrow> (string \<Rightarrow> string option) \<Rightarrow> schema_exn + migration list" where
  "pending [] applied = Inr []"
| "pending (m # ms) applied =
     (case applied (mg_id m) of
        None \<Rightarrow> (case pending ms applied of Inl e \<Rightarrow> Inl e | Inr out \<Rightarrow> Inr (m # out))
      | Some recorded \<Rightarrow>
          if recorded \<noteq> checksum m then Inl (Schema_Divergence (mg_id m) recorded (checksum m))
          else pending ms applied)"

section \<open>Reading answers\<close>

definition ruled :: "string \<Rightarrow> bool" where
  "ruled s = list_all (\<lambda>c. c \<in> {CHR ''-'', CHR ''+'', CHR '' ''}) s"

definition applied_row :: "string \<Rightarrow> (string \<times> string) option" where
  "applied_row line =
     (let stripped = strip line in
      if stripped = [] \<or> ruled stripped \<or> starts_with stripped ''('' then None
      else
        (let kv = (if CHR ''|'' \<in> set stripped
                   then (case partition_on CHR ''|'' stripped of (l, r) \<Rightarrow> Some (strip l, strip r))
                   else (case split_ws stripped of [k, v] \<Rightarrow> Some (k, v) | _ \<Rightarrow> None))
         in case kv of
              None \<Rightarrow> None
            | Some (k, v) \<Rightarrow> if k = [] \<or> v = [] \<or> k = ''id'' then None else Some (k, v)))"

definition parse_applied :: "string \<Rightarrow> string \<Rightarrow> string option" where
  "parse_applied out = map_of (rev (List.map_filter applied_row (splitlines out)))"

definition verdict :: "string \<Rightarrow> bool option" where
  "verdict first =
     (if first \<in> {''True'', ''true''} then Some True
      else if first \<in> {''False'', ''false''} then Some False else None)"

fun first_verdict :: "string list \<Rightarrow> bool" where
  "first_verdict [] = False"
| "first_verdict (line # rest) =
     (let stripped = strip line in
      if stripped = [] \<or> contains stripped ''[applied]'' \<or> ruled stripped then first_verdict rest
      else (case verdict (strip (takeWhile (\<lambda>c. c \<noteq> CHR ''|'') stripped)) of
              Some b \<Rightarrow> b | None \<Rightarrow> first_verdict rest))"

definition lwt_applied :: "string \<Rightarrow> bool" where
  "lwt_applied out =
     (if \<not> contains out ''[applied]'' then
        (case split_ws out of [] \<Rightarrow> False | w # _ \<Rightarrow> (case verdict w of Some b \<Rightarrow> b | None \<Rightarrow> False))
      else first_verdict (splitlines out))"

definition json_rows :: "(string \<Rightarrow> net_row option) \<Rightarrow> string \<Rightarrow> net_row list option" where
  "json_rows loads out =
     (let lines = filter (\<lambda>l. starts_with l ''{'' \<and> ends_with l ''}'') (map strip (splitlines out));
          rows = map loads lines
      in if None \<in> set rows then None else Some (map the rows))"

section \<open>Statements\<close>

definition lock_name :: string where "lock_name = ''hydra-schema''"
definition lock_ttl_seconds :: int where "lock_ttl_seconds = 300"

definition bookkeeping :: "string list" where
  "bookkeeping =
     [''CREATE TABLE IF NOT EXISTS hydra.schema_migrations ( id text PRIMARY KEY, checksum text, applied_at timestamp, applied_by text );'',
      ''CREATE TABLE IF NOT EXISTS hydra.schema_lock ( name text PRIMARY KEY, holder text, acquired_at timestamp );'']"

datatype sstmt =
    Bookkeeping string
  | Migrate string
  | Read_Ledger
  | Take_Lock string int
  | Free_Lock string
  | Record_Migration string string int string
  | Read_Networks
  | Claim_Vlan int "string option" "string option" int
  | Read_Claim int

text \<open>\<open>str(value)\<close> of a column that may be null.\<close>

definition str_of :: "string option \<Rightarrow> string" where
  "str_of v = (case v of None \<Rightarrow> ''None'' | Some s \<Rightarrow> s)"

fun sstmt_text :: "sstmt \<Rightarrow> string" where
  "sstmt_text (Bookkeeping s) = s"
| "sstmt_text (Migrate s) = s"
| "sstmt_text Read_Ledger = ''SELECT id, checksum FROM hydra.schema_migrations;''"
| "sstmt_text (Take_Lock node now) =
     ''INSERT INTO hydra.schema_lock (name, holder, acquired_at) VALUES ('' @ quote lock_name @ '', '' @ quote node
     @ '', '' @ show_int now @ '') IF NOT EXISTS USING TTL '' @ show_int lock_ttl_seconds @ '';''"
| "sstmt_text (Free_Lock node) =
     ''DELETE FROM hydra.schema_lock WHERE name = '' @ quote lock_name @ '' IF holder = '' @ quote node @ '';''"
| "sstmt_text (Record_Migration i c now node) =
     ''INSERT INTO hydra.schema_migrations (id, checksum, applied_at, applied_by) VALUES ('' @ quote i @ '', ''
     @ quote c @ '', '' @ show_int now @ '', '' @ quote node @ '');''"
| "sstmt_text Read_Networks = ''SELECT JSON net_id, name, vlan_id FROM hydra.gatoway_networks;''"
| "sstmt_text (Claim_Vlan vlan net name now) =
     ''INSERT INTO hydra.gatoway_vlan_claims (vlan_id, net_id, name, claimed_at_ms) VALUES ('' @ show_int vlan @ '', ''
     @ quote (str_of net) @ '', '' @ quote (str_of name) @ '', '' @ show_int now @ '') IF NOT EXISTS;''"
| "sstmt_text (Read_Claim vlan) =
     ''SELECT JSON net_id, name FROM hydra.gatoway_vlan_claims WHERE vlan_id = '' @ show_int vlan @ '';''"

section \<open>Running one statement\<close>

record 'w schema_env =
  execute :: "sstmt \<Rightarrow> 'w \<Rightarrow> (int \<times> string \<times> string) \<times> 'w"
  loads_row :: "string \<Rightarrow> net_row option"

datatype sevent =
    Ran sstmt int string string
  | Reported int net_row "net_row list"

definition is_column_already_there :: "string \<Rightarrow> string \<Rightarrow> bool" where
  "is_column_already_there statement message =
     (let text = upper (one_spaced statement); lowered = lower message in
      starts_with text ''ALTER TABLE'' \<and> contains text '' ADD ''
      \<and> (contains lowered ''conflicts with an existing column''
         \<or> (contains lowered ''already exists'' \<and> contains lowered ''column'')))"

text \<open>Whether the executor's answer to a statement counts as success.\<close>

definition went_well :: "sstmt \<Rightarrow> int \<Rightarrow> string \<Rightarrow> string \<Rightarrow> bool" where
  "went_well st rc out err \<longleftrightarrow> rc = 0 \<or> is_column_already_there (sstmt_text st) (err @ '' '' @ out)"

definition run_stmt :: "'w schema_env \<Rightarrow> sstmt \<Rightarrow> ('w, sevent, schema_exn + string) eff" where
  "run_stmt env st = do {
     (rc, out, err) \<leftarrow> act (execute env st) (\<lambda>(rc, out, err). Ran st rc out err);
     if went_well st rc out err then okE out
     else raiseE (Schema_Error (strip (or_str (Some err) out) @ lf @ ''  statement: '' @ take 200 (sstmt_text st))) }"

definition claim_holder :: "'w schema_env \<Rightarrow> int \<Rightarrow> ('w, sevent, net_row option) eff" where
  "claim_holder env vlan = do {
     r \<leftarrow> run_stmt env (Read_Claim vlan);
     ret (case r of
            Inl _ \<Rightarrow> None
          | Inr out \<Rightarrow> (case json_rows (loads_row env) out of Some (row # _) \<Rightarrow> Some row | _ \<Rightarrow> None)) }"

definition by_vlan :: "net_row list \<Rightarrow> (int \<times> net_row list) list" where
  "by_vlan rows = foldl (\<lambda>d r. case nr_vlan r of None \<Rightarrow> d | Some v \<Rightarrow> dict_append v r d) [] rows"

definition claim_one :: "'w schema_env \<Rightarrow> int \<Rightarrow> int \<times> net_row list \<Rightarrow> ('w, sevent, schema_exn + unit) eff" where
  "claim_one env now p =
     (let vlan = fst p; holders = sort_key (\<lambda>r. or_str (nr_net_id r) []) (snd p); winner = hd holders in
      bindE (run_stmt env (Claim_Vlan vlan (nr_net_id winner) (nr_name winner) now)) (\<lambda>out.
      bindE (if lwt_applied out then okE winner
             else liftE (do { h \<leftarrow> claim_holder env vlan; ret (case h of None \<Rightarrow> winner | Some r \<Rightarrow> r) })) (\<lambda>holder.
        let losers = filter (\<lambda>r. str_of (nr_net_id r) \<noteq> str_of (nr_net_id holder)) holders in
        if losers = [] then okE ()
        else liftE (act (\<lambda>w. ((), w)) (\<lambda>_. Reported vlan holder losers)))))"

definition backfill_vlan_claims :: "'w schema_env \<Rightarrow> int \<Rightarrow> ('w, sevent, schema_exn + unit) eff" where
  "backfill_vlan_claims env now =
     bindE (run_stmt env Read_Networks) (\<lambda>out.
       case json_rows (loads_row env) out of
         None \<Rightarrow> raiseE (Schema_Error ''a row of hydra.gatoway_networks did not parse'')
       | Some rows \<Rightarrow> for_eachE (\<lambda>p _. claim_one env now p) (sort_key fst (by_vlan rows)) ())"

definition run_backfill :: "'w schema_env \<Rightarrow> int \<Rightarrow> backfill option \<Rightarrow> ('w, sevent, schema_exn + unit) eff" where
  "run_backfill env now b = (case b of
     None \<Rightarrow> okE () | Some Backfill_Vlan_Claims \<Rightarrow> backfill_vlan_claims env now)"

section \<open>Applying what is pending\<close>

definition acquire_lock :: "'w schema_env \<Rightarrow> string \<Rightarrow> int \<Rightarrow> ('w, sevent, schema_exn + bool) eff" where
  "acquire_lock env node now = bindE (run_stmt env (Take_Lock node now)) (\<lambda>out. okE (lwt_applied out))"

definition release_lock :: "'w schema_env \<Rightarrow> string \<Rightarrow> ('w, sevent, unit) eff" where
  "release_lock env node = do { _ \<leftarrow> run_stmt env (Free_Lock node); ret () }"

definition run_all :: "'w schema_env \<Rightarrow> sstmt list \<Rightarrow> ('w, sevent, schema_exn + unit) eff" where
  "run_all env sts = for_eachE (\<lambda>st _. bindE (run_stmt env st) (\<lambda>_. okE ())) sts ()"

definition apply_one :: "'w schema_env \<Rightarrow> string \<Rightarrow> int \<Rightarrow> migration \<Rightarrow> string list \<Rightarrow>
    ('w, sevent, schema_exn + string list) eff" where
  "apply_one env node now m here =
     bindE (run_all env (map Migrate (mg_statements m))) (\<lambda>_.
     bindE (run_backfill env now (mg_backfill m)) (\<lambda>_.
     bindE (run_stmt env (Record_Migration (mg_id m) (checksum m) now node)) (\<lambda>_.
       okE (here @ [mg_id m]))))"

text \<open>The second half of \<open>ensure_schema\<close>: the lock, the loop, and the release in its \<open>finally\<close>.\<close>

definition migrate_locked :: "'w schema_env \<Rightarrow> string \<Rightarrow> int \<Rightarrow> migration list \<Rightarrow>
    ('w, sevent, schema_exn + string list) eff" where
  "migrate_locked env node now outstanding =
     bindE (acquire_lock env node now) (\<lambda>mine.
       if \<not> mine then okE []
       else do {
         r \<leftarrow> for_eachE (apply_one env node now) outstanding [];
         release_lock env node;
         ret r })"

definition ensure_schema :: "migration list \<Rightarrow> 'w schema_env \<Rightarrow> string \<Rightarrow> int \<Rightarrow>
    ('w, sevent, schema_exn + string list) eff" where
  "ensure_schema ms env node now =
     bindE (run_all env (map Bookkeeping bookkeeping)) (\<lambda>_.
     bindE (run_stmt env Read_Ledger) (\<lambda>out.
       case pending ms (parse_applied out) of
         Inl e \<Rightarrow> raiseE e
       | Inr outstanding \<Rightarrow>
           if outstanding = [] then okE [] else migrate_locked env node now outstanding))"

section \<open>What is pending\<close>

text \<open>
  \<open>pending\<close> is the declared list without what is recorded: it raises exactly when a recorded
  checksum differs from the migration's, and otherwise returns, in declaration order, the migrations
  the ledger does not name.
\<close>

theorem pending_is_the_unrecorded:
  "pending ms applied =
     (case List.find (\<lambda>m. applied (mg_id m) \<notin> {None, Some (checksum m)}) ms of
        None \<Rightarrow> Inr (filter (\<lambda>m. applied (mg_id m) = None) ms)
      | Some m \<Rightarrow> Inl (Schema_Divergence (mg_id m) (the (applied (mg_id m))) (checksum m)))"
  by (induction ms) (auto split: option.splits sum.splits)

section \<open>The lock\<close>

lemma yields_run_stmt:
  assumes "\<And>rc out err. went_well st rc out err \<Longrightarrow> Q (Inr out) [Ran st rc out err]"
    and "\<And>rc out err e. \<not> went_well st rc out err \<Longrightarrow> Q (Inl (Schema_Error e)) [Ran st rc out err]"
  shows "yields (run_stmt env st) Q"
  unfolding run_stmt_def by (auto intro!: yields_intros assms)

lemma emits_run_stmt: "(\<And>rc out err. P (Ran st rc out err)) \<Longrightarrow> emits P (run_stmt env st)"
  by (rule yields_run_stmt) simp_all

text \<open>
  Reads a trace from the left, knowing whether this node holds the lock: it is taken when free and
  released when held, everything that changes the schema happens while it is held, and it is not held
  at the end.
\<close>

definition under_lock :: "sevent \<Rightarrow> bool" where
  "under_lock e = (case e of
     Ran st _ _ _ \<Rightarrow> (case st of
         Bookkeeping _ \<Rightarrow> False | Read_Ledger \<Rightarrow> False | Take_Lock _ _ \<Rightarrow> False | Free_Lock _ \<Rightarrow> False | _ \<Rightarrow> True)
   | Reported _ _ _ \<Rightarrow> True)"

fun lock_ok :: "string \<Rightarrow> bool \<Rightarrow> sevent list \<Rightarrow> bool" where
  "lock_ok node held [] = (\<not> held)"
| "lock_ok node held (Ran (Take_Lock n t) rc out err # es) =
     (\<not> held \<and> n = node \<and> lock_ok node (rc = 0 \<and> lwt_applied out) es)"
| "lock_ok node held (Ran (Free_Lock n) rc out err # es) = (held \<and> n = node \<and> lock_ok node False es)"
| "lock_ok node held (e # es) = ((under_lock e \<longrightarrow> held) \<and> lock_ok node held es)"

definition outside_lock :: "sevent \<Rightarrow> bool" where
  "outside_lock e = (case e of Ran (Bookkeeping _) _ _ _ \<Rightarrow> True | Ran Read_Ledger _ _ _ \<Rightarrow> True | _ \<Rightarrow> False)"

lemma lock_ok_before: "list_all outside_lock xs \<Longrightarrow> lock_ok node h (xs @ ys) = lock_ok node h ys"
  by (induction node h xs rule: lock_ok.induct) (auto simp: outside_lock_def under_lock_def)

lemma lock_ok_during: "list_all under_lock xs \<Longrightarrow> lock_ok node True (xs @ ys) = lock_ok node True ys"
proof (induction xs)
  case (Cons e xs)
  show ?case
  proof (cases e)
    case (Ran st rc out err)
    with Cons show ?thesis by (cases st) (auto simp: under_lock_def)
  qed (use Cons in \<open>simp add: under_lock_def\<close>)
qed simp

lemma emits_claim_one: "emits under_lock (claim_one env now p)"
  unfolding claim_one_def claim_holder_def Let_def
  by (intro emits_intros emits_run_stmt) (simp_all add: under_lock_def)

lemma emits_apply_one: "emits under_lock (apply_one env node now m here)"
  unfolding apply_one_def run_all_def run_backfill_def backfill_vlan_claims_def
  by (auto intro!: emits_intros emits_run_stmt emits_claim_one simp: under_lock_def split: option.split backfill.split)

text \<open>Only an \<open>ALTER TABLE\<close> is ever forgiven an error.\<close>

lemma not_alter:
  assumes "is_word w" and "is_ws b" and "upper_char (hd w) \<noteq> CHR ''A''"
  shows "\<not> is_column_already_there (w @ b # r) message"
proof -
  obtain c cs where w: "w = c # cs" using assms(1) by (cases w) (auto simp: is_word_def)
  have "\<exists>t. join '' '' ((c # cs) # ws) = c # t" for ws by (cases ws) auto
  then obtain t where t: "join '' '' ((c # cs) # split_ws r) = c # t" by blast
  have "one_spaced (w @ b # r) = c # t"
    unfolding one_spaced_def split_ws_join [OF assms(1, 2)] unfolding w by (rule t)
  with assms(3) show ?thesis by (simp add: is_column_already_there_def Let_def upper_def w)
qed

lemma insert_forgiven: "\<not> is_column_already_there (''INSERT'' @ CHR '' '' # r) message"
  by (rule not_alter) (simp_all add: is_word_def is_ws_def upper_char_def Let_def char_eq_code)

lemma went_well_simps [simp]:
  "went_well (Take_Lock n t) rc out err \<longleftrightarrow> rc = 0" "went_well (Record_Migration i c t n) rc out err \<longleftrightarrow> rc = 0"
  using insert_forgiven by (simp_all add: went_well_def)

text \<open>
  The schema changes only under the lock: whatever the database answers, \<open>ensure_schema\<close> runs no
  migration statement, no backfill and no ledger write unless it took the lock before and was told so,
  and once it has taken the lock it releases it, on its own name, before it returns or raises.
\<close>

theorem schema_changes_under_the_lock: "yields (ensure_schema ms env node now) (\<lambda>_ es. lock_ok node False es)"
proof -
  have early: "emits outside_lock (run_all env (map Bookkeeping sts))" "emits outside_lock (run_stmt env Read_Ledger)" for sts
    unfolding run_all_def by (auto intro!: emits_intros emits_run_stmt simp: outside_lock_def)
  have loop: "emits under_lock (for_eachE (apply_one env node now) out here)" for out here
    by (intro emits_intros emits_apply_one)
  have free: "yields (release_lock env node) (\<lambda>_ es. \<exists>rc out err. es = [Ran (Free_Lock node) rc out err])"
    unfolding release_lock_def by (rule yields_bind, rule yields_run_stmt) (auto intro: yields_ret)
  have body: "yields (do { r \<leftarrow> for_eachE (apply_one env node now) out []; release_lock env node; ret r })
      (\<lambda>_ es. lock_ok node True es)" for out
    by (intro yields_bind yields_mono [OF loop] yields_mono [OF free] yields_ret) (auto simp: lock_ok_during)
  have locked: "yields (migrate_locked env node now out) (\<lambda>_ es. lock_ok node False es)" for out
    unfolding migrate_locked_def acquire_lock_def bindE_def
    by (intro yields_bind yields_run_stmt yields_case_sum yields_ret yields_if yields_mono [OF body]) auto
  have alone: "list_all outside_lock es \<Longrightarrow> lock_ok node False es" for es
    using lock_ok_before [of es node False "[]"] by simp
  show ?thesis
    unfolding ensure_schema_def bindE_def
    by (intro yields_bind yields_mono [OF early(1)] yields_mono [OF early(2)] yields_case_sum yields_ret yields_if
        yields_mono [OF locked]) (auto simp: lock_ok_before intro!: alone)
qed

section \<open>The ledger\<close>

text \<open>The migrations recorded, and a scan that knows which migration statements went well so far.\<close>

definition recorded1 :: "sevent \<Rightarrow> string list" where
  "recorded1 e = (case e of Ran (Record_Migration i _ _ _) rc _ _ \<Rightarrow> if rc = 0 then [i] else [] | _ \<Rightarrow> [])"

definition recorded :: "sevent list \<Rightarrow> string list" where
  "recorded es = concat (map recorded1 es)"

definition done1 :: "sevent \<Rightarrow> string set" where
  "done1 e = (case e of Ran (Migrate s) rc out err \<Rightarrow> if went_well (Migrate s) rc out err then {s} else {} | _ \<Rightarrow> {})"

definition entry_ok :: "migration list \<Rightarrow> string set \<Rightarrow> sevent \<Rightarrow> bool" where
  "entry_ok ms K e = (case e of
     Ran (Record_Migration i c _ _) _ _ _ \<Rightarrow> \<exists>m \<in> set ms. mg_id m = i \<and> checksum m = c \<and> set (mg_statements m) \<subseteq> K
   | _ \<Rightarrow> True)"

fun ledger_ok :: "migration list \<Rightarrow> string set \<Rightarrow> sevent list \<Rightarrow> bool" where
  "ledger_ok ms K [] = True"
| "ledger_ok ms K (e # es) = (entry_ok ms K e \<and> ledger_ok ms (K \<union> done1 e) es)"

definition done_set :: "sevent list \<Rightarrow> string set" where
  "done_set es = (\<Union>e \<in> set es. done1 e)"

lemma done_set_simps [simp]: "done_set [] = {}" "done_set (e # es) = done1 e \<union> done_set es" "done_set (xs @ ys) = done_set xs \<union> done_set ys"
  by (auto simp: done_set_def)

lemma recorded_simps [simp]: "recorded [] = []" "recorded (e # es) = recorded1 e @ recorded es" "recorded (xs @ ys) = recorded xs @ recorded ys"
  by (simp_all add: recorded_def)

lemma ledger_ok_append: "ledger_ok ms K (xs @ ys) \<longleftrightarrow> ledger_ok ms K xs \<and> ledger_ok ms (K \<union> done_set xs) ys"
  by (induction xs arbitrary: K) (auto simp: Un_assoc)

text \<open>Events that touch neither the ledger nor the schema.\<close>

definition aside :: "sevent \<Rightarrow> bool" where
  "aside e = (case e of Ran (Record_Migration _ _ _ _) _ _ _ \<Rightarrow> False | Ran (Migrate _) _ _ _ \<Rightarrow> False | _ \<Rightarrow> True)"

lemma aside_events: "list_all aside es \<Longrightarrow> recorded es = [] \<and> done_set es = {} \<and> ledger_ok ms K es"
proof (induction es arbitrary: K)
  case (Cons e es)
  then have "aside e" by simp
  then have "recorded1 e = [] \<and> done1 e = {} \<and> entry_ok ms K e"
    by (simp add: aside_def recorded1_def done1_def entry_ok_def split: sevent.splits sstmt.splits)
  with Cons show ?case by simp
qed simp

lemma run_all_migrate:
  "yields (run_all env (map Migrate sts)) (\<lambda>r es. recorded es = [] \<and> (\<forall>ms K. ledger_ok ms K es)
     \<and> (\<forall>u. r = Inr u \<longrightarrow> set sts \<subseteq> done_set es))"
  unfolding run_all_def
proof (induction sts)
  case (Cons s sts)
  have one: "yields (bindE (run_stmt env (Migrate s)) (\<lambda>_. okE ())) (\<lambda>r es. recorded es = [] \<and> (\<forall>ms K. ledger_ok ms K es)
     \<and> (\<forall>u. r = Inr u \<longrightarrow> s \<in> done_set es))"
    unfolding bindE_def
    by (intro yields_bind yields_run_stmt yields_case_sum yields_ret) (auto simp: recorded1_def done1_def entry_ok_def)
  show ?case
    unfolding list.map for_eachE.simps
    by (rule yields_bindE, rule yields_mono [OF one])
       (auto split: sum.split intro!: yields_mono [OF Cons.IH] simp: ledger_ok_append)
qed (simp add: yields_ret)

lemma backfill_aside: "emits aside (run_backfill env now b)"
  unfolding run_backfill_def backfill_vlan_claims_def claim_one_def claim_holder_def Let_def
  by (auto intro!: emits_intros emits_run_stmt simp: aside_def split: option.split backfill.split)

lemma apply_one_ledger:
  assumes "m \<in> set ms"
  shows "yields (apply_one env node now m here) (\<lambda>r es. (\<forall>K. ledger_ok ms K es)
     \<and> (case r of Inl _ \<Rightarrow> recorded es = [] | Inr h \<Rightarrow> h = here @ [mg_id m] \<and> recorded es = [mg_id m]))"
proof -
  have entry: "ledger_ok ms K (xs @ ys @ [Ran (Record_Migration (mg_id m) (checksum m) now node) rc out err])"
    if "\<forall>ms K. ledger_ok ms K xs" "set (mg_statements m) \<subseteq> done_set xs" "list_all aside ys" for K xs ys rc out err
  proof -
    have "entry_ok ms (K \<union> done_set xs) (Ran (Record_Migration (mg_id m) (checksum m) now node) rc out err)"
      using assms that(2) by (auto simp: entry_ok_def)
    with that aside_events [OF that(3)] show ?thesis by (simp add: ledger_ok_append)
  qed
  have half: "ledger_ok ms K (xs @ ys)" if "\<forall>ms K. ledger_ok ms K xs" "list_all aside ys" for K xs ys
    using that aside_events [OF that(2)] by (simp add: ledger_ok_append)
  show ?thesis
    unfolding apply_one_def bindE_def
    by (intro yields_bind yields_mono [OF run_all_migrate] yields_mono [OF backfill_aside] yields_run_stmt yields_case_sum yields_ret)
       (auto intro!: entry intro: half simp: recorded1_def aside_events)
qed

text \<open>
  C35. The ledger is true: a migration is recorded only with its own checksum and after each of its
  statements went well in this very call, the migrations recorded stand in the order of the list, and
  what \<open>ensure_schema\<close> returns is the list of those it recorded.
\<close>

theorem ledger_is_true:
  "yields (ensure_schema ms env node now) (\<lambda>r es. ledger_ok ms {} es \<and> subseq (recorded es) (map mg_id ms)
     \<and> (case r of Inl _ \<Rightarrow> True | Inr ids \<Rightarrow> ids = recorded es))"
proof -
  have loop: "yields (for_eachE (apply_one env node now) out here) (\<lambda>r es. (\<forall>K. ledger_ok ms K es)
      \<and> (\<exists>k. recorded es = take k (map mg_id out)) \<and> (case r of Inl _ \<Rightarrow> True | Inr ids \<Rightarrow> ids = here @ recorded es))"
    if "set out \<subseteq> set ms" for out here
    using that
  proof (induction out arbitrary: here)
    case (Cons m out)
    have more: "\<exists>k. i # rest = take k (i # ids)" if "\<exists>k. rest = take k ids" for i :: string and rest ids
      using that by (metis take_Suc_Cons)
    have none: "\<exists>k. [] = take k (x # xs)" for x :: string and xs by (rule exI [of _ 0]) simp
    show ?case
      unfolding for_eachE.simps bindE_def
      by (intro yields_bind yields_mono [OF apply_one_ledger] yields_case_sum yields_ret yields_mono [OF Cons.IH])
         (use Cons.prems in \<open>auto simp: ledger_ok_append none intro: more split: sum.splits\<close>)
  qed (simp add: yields_ret)
  have early: "emits aside (run_all env (map Bookkeeping sts))" "emits aside (run_stmt env Read_Ledger)"
    "emits aside (acquire_lock env node now)" "emits aside (release_lock env node)" for sts
    unfolding run_all_def acquire_lock_def release_lock_def by (auto intro!: emits_intros emits_run_stmt simp: aside_def)
  have locked: "yields (migrate_locked env node now out) (\<lambda>r es. (\<forall>K. ledger_ok ms K es)
      \<and> (\<exists>k. recorded es = take k (map mg_id out)) \<and> (case r of Inl _ \<Rightarrow> True | Inr ids \<Rightarrow> ids = recorded es))"
    if "set out \<subseteq> set ms" for out
    unfolding migrate_locked_def bindE_def
    by (intro yields_bind yields_mono [OF early(3)] yields_mono [OF early(4)] yields_mono [OF loop [OF that]] yields_case_sum yields_if yields_ret)
       (auto simp: ledger_ok_append aside_events intro: exI [of _ "0::nat"] split: sum.splits)
  have sub: "subseq (take k (map mg_id out)) (map mg_id ms)" if "pending ms applied = Inr out" for k out applied
  proof -
    from that have "out = filter (\<lambda>m. applied (mg_id m) = None) ms"
      by (induction ms arbitrary: out) (auto split: option.splits sum.splits if_splits)
    then have "subseq (map mg_id out) (map mg_id ms)" by (simp add: subseq_map subseq_filter_left)
    then show ?thesis by (meson prefix_imp_subseq subseq_order.trans take_is_prefix)
  qed
  have within: "set out \<subseteq> set ms" if "pending ms applied = Inr out" for out applied
    using that by (induction ms arbitrary: out) (auto split: option.splits sum.splits if_splits)
  show ?thesis
    unfolding ensure_schema_def bindE_def
    by (intro yields_bind yields_mono [OF early(1)] yields_mono [OF early(2)] yields_case_sum yields_ret yields_if
        yields_mono [OF locked] within) (auto simp: ledger_ok_append aside_events sub split: sum.splits)
qed

section \<open>Reading the ledger back\<close>

text \<open>
  A row as the two paths print it: Daruk the values with a blank between them, \<open>cqlsh\<close> a table with a
  heading, a rule and a count, its columns padded.
\<close>

definition entry_name :: "string \<Rightarrow> bool" where
  "entry_name k \<longleftrightarrow> is_word k \<and> CHR ''|'' \<notin> set k \<and> \<not> ruled k \<and> hd k \<noteq> CHR ''('' \<and> k \<noteq> ''id''"

definition entry_value :: "string \<Rightarrow> bool" where
  "entry_value v \<longleftrightarrow> is_word v \<and> CHR ''|'' \<notin> set v"

definition daruk_line :: "string \<times> string \<Rightarrow> string" where
  "daruk_line p = fst p @ '' '' @ snd p"

definition cqlsh_line :: "nat \<Rightarrow> nat \<Rightarrow> string \<times> string \<Rightarrow> string" where
  "cqlsh_line m n p = blanks m @ (fst p @ '' | '' @ snd p) @ blanks n"

definition text_of :: "string list \<Rightarrow> string" where
  "text_of ls = concat (map (\<lambda>l. l @ lf) ls)"

definition cqlsh_table :: "nat \<Rightarrow> nat \<Rightarrow> (string \<times> string) list \<Rightarrow> string" where
  "cqlsh_table m n kvs =
     text_of ([[], '' id | checksum'', ''----+----''] @ map (cqlsh_line m n) kvs @ [[], ''('' @ show_nat (length kvs) @ '' rows)''])"

lemma daruk_row: "entry_name k \<Longrightarrow> entry_value v \<Longrightarrow> applied_row (daruk_line (k, v)) = Some (k, v)"
proof -
  assume k: "entry_name k" and v: "entry_value v"
  have words: "is_word k" "is_word v" using k v by (auto simp: entry_name_def entry_value_def)
  have st: "strip (k @ '' '' @ v) = k @ '' '' @ v"
    using strip_blanks [of "k @ '' '' @ v" 0 0] is_word_ends [OF words(1)] is_word_ends [OF words(2)]
    by (simp add: blanks_def)
  have sp: "split_ws (k @ CHR '' '' # v) = [k, v]"
    using split_ws_join [OF words(1) blank_ws(1)] split_ws_word [OF words(2)] by simp
  have "\<not> starts_with (k @ t) ''(''" for t
    using is_word_ends [OF words(1)] k by (cases k) (auto simp: entry_name_def)
  moreover have "\<not> ruled (k @ t)" for t using k by (auto simp: entry_name_def ruled_def)
  ultimately show ?thesis
    using k v is_word_ends [OF words(1)] is_word_ends [OF words(2)] st sp
    by (simp add: applied_row_def daruk_line_def Let_def entry_name_def entry_value_def)
qed

lemma cqlsh_row: "entry_name k \<Longrightarrow> entry_value v \<Longrightarrow> applied_row (cqlsh_line m n (k, v)) = Some (k, v)"
proof -
  assume k: "entry_name k" and v: "entry_value v"
  have words: "is_word k" "is_word v" using k v by (auto simp: entry_name_def entry_value_def)
  have st: "strip (blanks m @ (k @ '' | '' @ v) @ blanks n) = k @ '' | '' @ v"
    by (rule strip_blanks) (use is_word_ends [OF words(1)] is_word_ends [OF words(2)] in auto)
  have "list_all (\<lambda>d. d \<noteq> CHR ''|'') (k @ '' '')" using k by (auto simp: entry_name_def list_all_iff)
  then have part: "partition_on CHR ''|'' (k @ '' | '' @ v) = (k @ '' '', CHR '' '' # v)"
    using takeWhile_whole [of "\<lambda>d. d \<noteq> CHR ''|''" "k @ '' ''" "CHR ''|''" "CHR '' '' # v"]
      dropWhile_whole [of "\<lambda>d. d \<noteq> CHR ''|''" "k @ '' ''" "CHR ''|'' # CHR '' '' # v"]
    by (simp add: partition_on_def)
  have sides: "strip (k @ '' '') = k" "strip (CHR '' '' # v) = v"
    using strip_blanks [of k 0 1] strip_blanks [of v 1 0] is_word_ends [OF words(1)] is_word_ends [OF words(2)]
    by (simp_all add: blanks_def)
  have "\<not> starts_with (k @ t) ''(''" for t
    using is_word_ends [OF words(1)] k by (cases k) (auto simp: entry_name_def)
  moreover have "\<not> ruled (k @ t)" for t using k by (auto simp: entry_name_def ruled_def)
  ultimately show ?thesis
    using k v is_word_ends [OF words(1)] is_word_ends [OF words(2)] st part sides
    by (simp add: applied_row_def cqlsh_line_def Let_def entry_name_def)
qed

lemma text_of_lines:
  assumes "\<And>l. l \<in> set ls \<Longrightarrow> list_all (\<lambda>c. \<not> is_break c) l"
  shows "splitlines (text_of ls) = ls"
  using splitlines_all [of ls "[]", OF assms] by (simp add: text_of_def lf_def splitlines.simps)

lemma map_filter_rows:
  assumes "\<And>p. p \<in> set kvs \<Longrightarrow> f (g p) = Some p"
  shows "List.map_filter f (map g kvs) = kvs"
  using assms by (induction kvs) (simp_all add: List.map_filter_simps)

definition ledger_rows :: "(string \<times> string) list \<Rightarrow> bool" where
  "ledger_rows kvs = list_all (\<lambda>p. entry_name (fst p) \<and> entry_value (snd p)) kvs"

lemma unbroken_lines:
  assumes "entry_name k" and "entry_value v"
  shows "list_all (\<lambda>c. \<not> is_break c) (daruk_line (k, v))" "list_all (\<lambda>c. \<not> is_break c) (cqlsh_line m n (k, v))"
  using assms is_word_unbroken [of k] is_word_unbroken [of v]
  by (auto simp: entry_name_def entry_value_def daruk_line_def cqlsh_line_def blank_ws blanks_unbroken)
     (simp_all add: is_break_def)

lemma daruk_reads_back: "ledger_rows kvs \<Longrightarrow> parse_applied (text_of (map daruk_line kvs)) = map_of (rev kvs)"
proof -
  assume rows: "ledger_rows kvs"
  have "splitlines (text_of (map daruk_line kvs)) = map daruk_line kvs"
    by (rule text_of_lines) (use rows unbroken_lines(1) in \<open>force simp: ledger_rows_def list_all_iff\<close>)
  moreover have "List.map_filter applied_row (map daruk_line kvs) = kvs"
    by (rule map_filter_rows) (use rows daruk_row in \<open>force simp: ledger_rows_def list_all_iff\<close>)
  ultimately show ?thesis by (simp add: parse_applied_def)
qed

lemma applied_row_dressing:
  "applied_row [] = None" "applied_row '' id | checksum'' = None" "applied_row ''----+----'' = None"
  "applied_row (''('' @ t @ '' rows)'') = None"
proof -
  show "applied_row [] = None" by (simp add: applied_row_def strip_def)
  have head: "strip '' id | checksum'' = ''id | checksum''"
    using strip_blanks [of "''id | checksum''" 1 0] by (simp add: blanks_def is_ws_def)
  then show "applied_row '' id | checksum'' = None"
    using strip_blanks [of "''id''" 0 1]
    by (simp add: applied_row_def Let_def ruled_def partition_on_def blanks_def is_ws_def)
  show "applied_row ''----+----'' = None"
    using strip_blanks [of "''----+----''" 0 0] by (simp add: applied_row_def Let_def ruled_def blanks_def is_ws_def)
  show "applied_row (''('' @ t @ '' rows)'') = None"
    using strip_blanks [of "''('' @ t @ '' rows)''" 0 0] by (simp add: applied_row_def Let_def blanks_def is_ws_def)
qed

lemma cqlsh_reads_back: "ledger_rows kvs \<Longrightarrow> parse_applied (cqlsh_table m n kvs) = map_of (rev kvs)"
proof -
  assume rows: "ledger_rows kvs"
  let ?pre = "[[], '' id | checksum'', ''----+----'']"
  let ?post = "[[], ''('' @ show_nat (length kvs) @ '' rows)'']"
  have digits: "list_all (\<lambda>c. \<not> is_break c) (show_nat n)" for n
    using show_nat_digits [of n] by (auto simp: list_all_iff is_break_def is_digit_def Let_def)
  have "splitlines (cqlsh_table m n kvs) = ?pre @ map (cqlsh_line m n) kvs @ ?post"
    unfolding cqlsh_table_def
    by (rule text_of_lines) (use rows unbroken_lines(2) digits in \<open>auto simp: ledger_rows_def list_all_iff is_break_def\<close>)
  moreover have "List.map_filter applied_row (map (cqlsh_line m n) kvs) = kvs"
    by (rule map_filter_rows) (use rows cqlsh_row in \<open>force simp: ledger_rows_def list_all_iff\<close>)
  moreover have "List.map_filter applied_row ?pre = []" "List.map_filter applied_row ?post = []"
    by (simp_all add: List.map_filter_simps applied_row_dressing [simplified])
  moreover have "List.map_filter f (xs @ ys) = List.map_filter f xs @ List.map_filter f ys" for f :: "string \<Rightarrow> (string \<times> string) option" and xs ys
    by (simp add: List.map_filter_def)
  ultimately show ?thesis
    by (simp only: parse_applied_def append_Nil append_Nil2)
qed

text \<open>
  What the ledger holds is what \<open>parse_applied\<close> reads, by either path: for rows whose columns are
  single words without a bar, the printed text of Daruk and the printed table of \<open>cqlsh\<close>, whatever its
  padding, are read back as the same map, a later row winning.
\<close>

theorem ledger_reads_back:
  assumes "ledger_rows kvs"
  shows "parse_applied (text_of (map daruk_line kvs)) = map_of (rev kvs)
    \<and> parse_applied (cqlsh_table m n kvs) = map_of (rev kvs)"
  using daruk_reads_back [OF assms] cqlsh_reads_back [OF assms] by simp

theorem ledger_reads_back_witness:
  "parse_applied (cqlsh_table 2 0 [(''0001-baseline'', ''1f4c'')]) ''0001-baseline'' = Some ''1f4c''"
  using ledger_reads_back [of "[(''0001-baseline'', ''1f4c'')]" 2 0, THEN conjunct2]
  by (simp add: ledger_rows_def entry_name_def entry_value_def is_word_def is_ws_def ruled_def)

section \<open>Against a database\<close>

text \<open>
  The contract of \<open>ensure_schema\<close>, over the ledger as a map: raise if a recorded migration was edited,
  else record every migration that was not.
\<close>

definition brought_up_to_date :: "migration list \<Rightarrow> (string \<Rightarrow> string option) \<Rightarrow> string \<Rightarrow> string option" where
  "brought_up_to_date ms applied = (\<lambda>i. case applied i of
     Some c \<Rightarrow> Some c | None \<Rightarrow> map_option checksum (List.find (\<lambda>m. mg_id m = i) ms))"

text \<open>
  What is asked of the database, which is not part of the program. \<open>ledger\<close> is the table's content as a map. No statement but a record changes
  it, and that one only its own entry; a record that is answered stands, and one that fails may stand or not; the read prints rows
  that are the table, by either path. Other nodes may write meanwhile, as long as they record what this list of migrations
  has: an entry that is there stays, and one that is not is as it was or is brought up to date. Any statement may fail.
\<close>

definition steps_to :: "migration list \<Rightarrow> (string \<Rightarrow> string option) \<Rightarrow> (string \<Rightarrow> string option) \<Rightarrow> bool" where
  "steps_to ms applied applied' \<longleftrightarrow> (\<forall>i. applied' i \<in> {applied i, brought_up_to_date ms applied i})"

definition prints :: "(string \<Rightarrow> string option) \<Rightarrow> string \<Rightarrow> bool" where
  "prints applied out \<longleftrightarrow> (\<exists>kvs. ledger_rows kvs \<and> applied = map_of (rev kvs)
     \<and> (out = text_of (map daruk_line kvs) \<or> (\<exists>m n. out = cqlsh_table m n kvs)))"

definition keeps_ledger :: "migration list \<Rightarrow> ('w \<Rightarrow> string \<Rightarrow> string option) \<Rightarrow> 'w schema_env \<Rightarrow> bool" where
  "keeps_ledger ms ledger env \<longleftrightarrow>
     (\<forall>st w rc out err w'. execute env st w = ((rc, out, err), w') \<longrightarrow>
        (case st of
           Record_Migration i c _ _ \<Rightarrow>
             (\<forall>j. j \<noteq> i \<longrightarrow> ledger w' j \<in> {ledger w j, brought_up_to_date ms (ledger w) j})
             \<and> (if rc = 0 then ledger w' i = Some c else ledger w' i \<in> {ledger w i, Some c, brought_up_to_date ms (ledger w) i})
         | Read_Ledger \<Rightarrow> steps_to ms (ledger w) (ledger w') \<and> (rc = 0 \<longrightarrow> prints (ledger w') out)
         | _ \<Rightarrow> steps_to ms (ledger w) (ledger w')))"

lemma steps_refl: "steps_to ms L L"
  by (simp add: steps_to_def)

lemma steps_iff:
  "steps_to ms L L' \<longleftrightarrow> (\<forall>i. L' i = L i \<or> L i = None \<and> L' i = map_option checksum (List.find (\<lambda>m. mg_id m = i) ms))"
  unfolding steps_to_def brought_up_to_date_def by (intro all_cong1) (auto split: option.splits)

lemma steps_trans: "steps_to ms L L1 \<Longrightarrow> steps_to ms L1 L2 \<Longrightarrow> steps_to ms L L2"
  unfolding steps_iff by (metis (no_types))

lemma steps_keep: "steps_to ms L L' \<Longrightarrow> L i = Some c \<Longrightarrow> L' i = Some c"
  unfolding steps_to_def brought_up_to_date_def by (metis insertE option.simps(5) singletonD)

lemma prints_reads: "prints applied out \<Longrightarrow> parse_applied out = applied"
  unfolding prints_def using daruk_reads_back cqlsh_reads_back by blast

lemma read_forgiven: "went_well Read_Ledger rc out err \<longleftrightarrow> rc = 0"
proof -
  have "\<not> is_column_already_there (''SELECT'' @ CHR '' '' # ''id, checksum FROM hydra.schema_migrations;'') message" for message
    by (rule not_alter) (simp_all add: is_word_def is_ws_def upper_char_def Let_def char_eq_code)
  then show ?thesis by (simp add: went_well_def)
qed

text \<open>From the ledger \<open>L\<close> on, the entries stand or are brought up to date, and the migrations in \<open>ks\<close> are recorded.\<close>

definition on_course :: "migration list \<Rightarrow> ('w \<Rightarrow> string \<Rightarrow> string option) \<Rightarrow> (string \<Rightarrow> string option) \<Rightarrow> migration list \<Rightarrow>
    ('w, sevent) world \<Rightarrow> bool" where
  "on_course ms ledger L ks s \<longleftrightarrow> steps_to ms L (ledger (hidden s))
     \<and> (\<forall>m \<in> set ks. ledger (hidden s) (mg_id m) = Some (checksum m))"

definition writes_ledger :: "sstmt \<Rightarrow> bool" where
  "writes_ledger st = (case st of Record_Migration _ _ _ _ \<Rightarrow> True | _ \<Rightarrow> False)"

lemma on_course_steps:
  "on_course ms ledger L ks s \<Longrightarrow> steps_to ms (ledger (hidden s)) (ledger w) \<Longrightarrow> on_course ms ledger L ks (s\<lparr>hidden := w, trace := es\<rparr>)"
  using steps_trans [of ms L "ledger (hidden s)" "ledger w"] steps_keep [of ms "ledger (hidden s)" "ledger w"]
  by (auto simp: on_course_def)

lemma ledger_stmt:
  assumes "keeps_ledger ms ledger env" "\<not> writes_ledger st" "execute env st w = ((rc, out, err), w')"
  shows "steps_to ms (ledger w) (ledger w')"
  using assms unfolding keeps_ledger_def by (cases st) (fastforce simp: writes_ledger_def)+

lemma ledger_read:
  assumes "keeps_ledger ms ledger env" "execute env Read_Ledger w = ((0, out, err), w')"
  shows "parse_applied out = ledger w'"
  using assms prints_reads unfolding keeps_ledger_def by fastforce

lemma on_course_stmt:
  assumes "keeps_ledger ms ledger env" "\<not> writes_ledger st"
  shows "triple (on_course ms ledger L ks) (run_stmt env st) (\<lambda>_. on_course ms ledger L ks)"
proof -
  note ledger_stmt [OF assms]
  then have "on_course ms ledger L ks (s\<lparr>hidden := w', trace := es\<rparr>)"
    if "on_course ms ledger L ks s" "execute env st (hidden s) = ((rc, out, err), w')" for s rc out err w' es
    using that by (intro on_course_steps) auto
  then show ?thesis
    unfolding run_stmt_def
    by (intro triple_bind [where R = "\<lambda>_. on_course ms ledger L ks"] triple_act triple_case_prod triple_if triple_ret) auto
qed

text \<open>What a program keeps on course, built up from its statements.\<close>

lemma kept_bind: "triple P m (\<lambda>_. P) \<Longrightarrow> (\<And>a. triple P (f a) (\<lambda>_. P)) \<Longrightarrow> triple P (State_Monad.bind m f) (\<lambda>_. P)"
  by (rule triple_bind)

lemma kept_bindE: "triple P m (\<lambda>_. P) \<Longrightarrow> (\<And>a. triple P (f a) (\<lambda>_. P)) \<Longrightarrow> triple P (bindE m f) (\<lambda>_. P)"
  by (rule triple_bindE [where R = "\<lambda>_. P"]) (auto simp: triple_def split: sum.splits)

lemma kept_for_eachE: "(\<And>x a. triple P (f x a) (\<lambda>_. P)) \<Longrightarrow> triple P (for_eachE f xs a) (\<lambda>_. P)"
  by (induction xs arbitrary: a) (auto intro: triple_ret kept_bindE)

lemma kept_option: "triple P m (\<lambda>_. P) \<Longrightarrow> (\<And>a. triple P (f a) (\<lambda>_. P)) \<Longrightarrow> triple P (case x of None \<Rightarrow> m | Some a \<Rightarrow> f a) (\<lambda>_. P)"
  by (cases x) auto

lemmas kept_rules = kept_bind kept_bindE kept_for_eachE kept_option triple_liftE triple_if triple_ret

lemma on_course_all:
  assumes "keeps_ledger ms ledger env"
  shows "list_all (\<lambda>st. \<not> writes_ledger st) sts \<Longrightarrow>
    triple (on_course ms ledger L ks) (run_all env sts) (\<lambda>_. on_course ms ledger L ks)"
  unfolding run_all_def
proof (induction sts)
  case (Cons st sts)
  have "triple (on_course ms ledger L ks) (bindE (run_stmt env st) (\<lambda>_. okE ())) (\<lambda>_. on_course ms ledger L ks)"
    using Cons.prems by (intro kept_bindE on_course_stmt [OF assms] triple_ret) simp_all
  with Cons show ?case by (auto intro!: kept_bindE)
qed (simp add: triple_ret)

lemma on_course_statements:
  assumes "keeps_ledger ms ledger env"
  shows "triple (on_course ms ledger L ks) (run_all env (map Migrate sts)) (\<lambda>_. on_course ms ledger L ks)"
    and "triple (on_course ms ledger L ks) (run_all env (map Bookkeeping sts)) (\<lambda>_. on_course ms ledger L ks)"
  by (rule on_course_all [OF assms], simp add: list_all_iff writes_ledger_def)+

lemma on_course_backfill:
  assumes "keeps_ledger ms ledger env"
  shows "triple (on_course ms ledger L ks) (run_backfill env now b) (\<lambda>_. on_course ms ledger L ks)"
proof -
  have report: "triple (on_course ms ledger L ks) (act (\<lambda>w. ((), w)) ev) (\<lambda>_. on_course ms ledger L ks)" for ev :: "unit \<Rightarrow> sevent"
    by (rule triple_act) (simp add: on_course_def)
  have "triple (on_course ms ledger L ks) (backfill_vlan_claims env now) (\<lambda>_. on_course ms ledger L ks)"
    unfolding backfill_vlan_claims_def claim_one_def claim_holder_def Let_def
    by (intro kept_rules on_course_stmt [OF assms] report) (simp_all add: writes_ledger_def)
  then show ?thesis by (auto simp: run_backfill_def intro: triple_ret split: option.split backfill.split)
qed

lemma find_own: "distinct (map mg_id ms) \<Longrightarrow> m \<in> set ms \<Longrightarrow> List.find (\<lambda>n. mg_id n = mg_id m) ms = Some m"
  by (induction ms) (auto simp: rev_image_eqI)

lemma on_course_record:
  assumes "keeps_ledger ms ledger env" "distinct (map mg_id ms)" "m \<in> set ms" "L (mg_id m) = None"
  shows "triple (on_course ms ledger L ks) (run_stmt env (Record_Migration (mg_id m) (checksum m) now node))
     (\<lambda>r s. case r of Inl _ \<Rightarrow> on_course ms ledger L ks s | Inr _ \<Rightarrow> on_course ms ledger L (ks @ [m]) s)"
proof -
  let ?st = "Record_Migration (mg_id m) (checksum m) now node"
  have own: "brought_up_to_date ms L (mg_id m) = Some (checksum m)"
    using find_own [OF assms(2,3)] assms(4) by (simp add: brought_up_to_date_def)
  have step: "steps_to ms (ledger w) (ledger w') \<and> (rc = 0 \<longrightarrow> ledger w' (mg_id m) = Some (checksum m))"
    if x: "execute env ?st w = ((rc, out, err), w')" and on: "steps_to ms L (ledger w)" for w rc out err w'
  proof -
    have "ledger w (mg_id m) \<in> {None, Some (checksum m)}" using on own assms(4) unfolding steps_to_def by (metis insertE insertI1 insertI2 singletonD)
    then have up: "brought_up_to_date ms (ledger w) (mg_id m) = Some (checksum m)"
      using find_own [OF assms(2,3)] by (auto simp: brought_up_to_date_def)
    have "(\<forall>j. j \<noteq> mg_id m \<longrightarrow> ledger w' j \<in> {ledger w j, brought_up_to_date ms (ledger w) j})"
      "if rc = 0 then ledger w' (mg_id m) = Some (checksum m)
       else ledger w' (mg_id m) \<in> {ledger w (mg_id m), Some (checksum m), brought_up_to_date ms (ledger w) (mg_id m)}"
      using assms(1) x unfolding keeps_ledger_def by fastforce+
    with up show ?thesis by (auto simp: steps_to_def split: if_splits) metis+
  qed
  then have ran: "on_course ms ledger L (if rc = 0 then ks @ [m] else ks) (s\<lparr>hidden := w', trace := es\<rparr>)"
    if on: "on_course ms ledger L ks s" and x: "execute env ?st (hidden s) = ((rc, out, err), w')" for s rc out err w' es
  proof -
    have "steps_to ms L (ledger (hidden s))" using on by (simp add: on_course_def)
    from step [OF x this] on_course_steps [OF on, of w' es] show ?thesis by (auto simp: on_course_def)
  qed
  show ?thesis
    unfolding run_stmt_def
    by (intro triple_bind [where R = "\<lambda>(rc, out, err). on_course ms ledger L (if rc = 0 then ks @ [m] else ks)"] triple_act triple_case_prod
        triple_if triple_ret)
      (use ran in \<open>auto split: if_splits\<close>)
qed

lemma on_course_apply:
  assumes "keeps_ledger ms ledger env" "distinct (map mg_id ms)" "m \<in> set ms" "L (mg_id m) = None"
  shows "triple (on_course ms ledger L ks) (apply_one env node now m here)
     (\<lambda>r s. case r of Inl _ \<Rightarrow> on_course ms ledger L ks s | Inr a \<Rightarrow> a = here @ [mg_id m] \<and> on_course ms ledger L (ks @ [m]) s)"
  unfolding apply_one_def
  by (rule triple_bindE [where R = "\<lambda>_. on_course ms ledger L ks"],
      rule triple_conseq [OF on_course_statements(1) [OF assms(1)]], assumption, simp split: sum.split,
      rule triple_bindE [where R = "\<lambda>_. on_course ms ledger L ks"],
      rule triple_conseq [OF on_course_backfill [OF assms(1)]], assumption, simp split: sum.split,
      rule triple_bindE [where R = "\<lambda>_. on_course ms ledger L (ks @ [m])"],
      rule triple_conseq [OF on_course_record [where L = L, OF assms]], assumption, simp split: sum.splits, rule triple_ret, simp)

lemma on_course_loop:
  assumes "keeps_ledger ms ledger env" "distinct (map mg_id ms)" "\<forall>m \<in> set out. m \<in> set ms \<and> L (mg_id m) = None"
  shows "triple (on_course ms ledger L ks) (for_eachE (apply_one env node now) out here)
     (\<lambda>r s. on_course ms ledger L [] s \<and> (\<forall>a. r = Inr a \<longrightarrow> a = here @ map mg_id out \<and> on_course ms ledger L (ks @ out) s))"
  using assms(3)
proof (induction out arbitrary: ks here)
  case Nil
  show ?case by (auto intro!: triple_ret simp: on_course_def)
next
  case (Cons m out)
  show ?case
    unfolding for_eachE.simps
  proof (rule triple_bindE [where R = "\<lambda>a s. a = here @ [mg_id m] \<and> on_course ms ledger L (ks @ [m]) s"])
    show "triple (on_course ms ledger L ks) (apply_one env node now m here)
       (\<lambda>r s. case r of Inl x \<Rightarrow> on_course ms ledger L [] s \<and>
            (\<forall>a. Inl x = Inr a \<longrightarrow> a = here @ map mg_id (m # out) \<and> on_course ms ledger L (ks @ m # out) s)
          | Inr a \<Rightarrow> a = here @ [mg_id m] \<and> on_course ms ledger L (ks @ [m]) s)"
      using Cons.prems by (intro triple_conseq [OF on_course_apply [where L = L, OF assms(1,2)]]) (auto simp: on_course_def split: sum.splits)
    show "triple (\<lambda>s. a = here @ [mg_id m] \<and> on_course ms ledger L (ks @ [m]) s) (for_eachE (apply_one env node now) out a)
       (\<lambda>r s. on_course ms ledger L [] s \<and> (\<forall>a. r = Inr a \<longrightarrow> a = here @ map mg_id (m # out) \<and> on_course ms ledger L (ks @ m # out) s))" for a
      using Cons.IH [of "ks @ [m]" "here @ [mg_id m]"] Cons.prems by (auto simp: triple_def)
  qed
qed

lemma pending_Inr: "pending ms applied = Inr out \<Longrightarrow> out = filter (\<lambda>m. applied (mg_id m) = None) ms"
  by (induction ms arbitrary: out) (auto split: option.splits sum.splits if_splits)

lemma pending_Inr_iff: "(\<exists>out. pending ms applied = Inr out) \<longleftrightarrow> (\<forall>m \<in> set ms. applied (mg_id m) \<in> {None, Some (checksum m)})"
  by (induction ms) (auto split: option.splits sum.splits if_splits)

lemma nothing_left:
  assumes "pending ms applied = Inr out"  and "distinct (map mg_id ms)"
  shows "pending ms (brought_up_to_date ms applied) = Inr []"
proof -
  have found: "List.find (\<lambda>n. mg_id n = mg_id m) ms = Some m" if "m \<in> set ms" for m
    using that assms(2) by (induction ms) (auto simp: rev_image_eqI)
  have ok: "brought_up_to_date ms applied (mg_id m) = Some (checksum m)" if "m \<in> set ms" for m
    using pending_Inr_iff [of ms applied] assms(1) that found [OF that]
    by (auto simp: brought_up_to_date_def split: option.split)
  then obtain out' where out': "pending ms (brought_up_to_date ms applied) = Inr out'"
    using pending_Inr_iff [of ms "brought_up_to_date ms applied"] by auto
  from pending_Inr [OF this] ok have "out' = []" by (auto simp: filter_empty_conv)
  with out' show ?thesis by simp
qed

lemma on_course_read:
  assumes "keeps_ledger ms ledger env"
  shows "triple (on_course ms ledger L ks) (run_stmt env Read_Ledger)
     (\<lambda>r s. on_course ms ledger L ks s \<and> (\<forall>out. r = Inr out \<longrightarrow> parse_applied out = ledger (hidden s)))"
proof -
  have "\<not> writes_ledger Read_Ledger" by (simp add: writes_ledger_def)
  note stmt = ledger_stmt [OF assms this]
  have "on_course ms ledger L ks (s\<lparr>hidden := w', trace := es\<rparr>) \<and> (rc = 0 \<longrightarrow> parse_applied out = ledger w')"
    if "on_course ms ledger L ks s" "execute env Read_Ledger (hidden s) = ((rc, out, err), w')" for s rc out err w' es
    using on_course_steps [OF that(1) stmt [OF that(2)]] that(2) ledger_read [OF assms] by auto
  then show ?thesis
    unfolding run_stmt_def
    by (intro triple_bind [where R = "\<lambda>(rc, out, err) s. on_course ms ledger L ks s \<and> (rc = 0 \<longrightarrow> parse_applied out = ledger (hidden s))"]
        triple_act triple_case_prod triple_if triple_ret) (auto simp: read_forgiven)
qed

text \<open>The last thing that happened was that the lock was asked for and not granted.\<close>

definition lock_refused :: "string \<Rightarrow> int \<Rightarrow> sevent list \<Rightarrow> bool" where
  "lock_refused node now es \<longleftrightarrow> (\<exists>out err. es \<noteq> [] \<and> last es = Ran (Take_Lock node now) 0 out err \<and> \<not> lwt_applied out)"

lemma on_course_lock:
  assumes "keeps_ledger ms ledger env"
  shows "triple (on_course ms ledger L ks) (acquire_lock env node now)
     (\<lambda>r s. on_course ms ledger L ks s \<and> (r = Inr False \<longrightarrow> lock_refused node now (trace s)))"
proof -
  have "\<not> writes_ledger (Take_Lock node now)" by (simp add: writes_ledger_def)
  note stmt = ledger_stmt [OF assms this]
  have "on_course ms ledger L ks (s\<lparr>hidden := w', trace := es\<rparr>)"
    if "on_course ms ledger L ks s" "execute env (Take_Lock node now) (hidden s) = ((rc, out, err), w')" for s rc out err w' es
    using on_course_steps [OF that(1) stmt [OF that(2)]] .
  then show ?thesis
    unfolding acquire_lock_def run_stmt_def
    by (intro triple_bindE [where R = "\<lambda>out s. on_course ms ledger L ks s \<and> (\<exists>es err. trace s = es @ [Ran (Take_Lock node now) 0 out err])"]
        triple_bind [where R = "\<lambda>(rc, out, err) s. on_course ms ledger L ks s \<and> (\<exists>es. trace s = es @ [Ran (Take_Lock node now) rc out err])"]
        triple_act triple_case_prod triple_if triple_ret)
      (auto simp: lock_refused_def)
qed

lemma caught_up:
  assumes "distinct (map mg_id ms)" "steps_to ms L L1" "pending ms L1 = Inr out" "steps_to ms L1 L'"
    and "\<forall>m \<in> set out. L' (mg_id m) = Some (checksum m)"
  shows "L' = brought_up_to_date ms L" "pending ms L' = Inr []"
proof -
  have out: "out = filter (\<lambda>m. L1 (mg_id m) = None) ms" using assms(3) by (rule pending_Inr)
  have L1: "L1 (mg_id m) \<in> {None, Some (checksum m)}" if "m \<in> set ms" for m
    using pending_Inr_iff [of ms L1] assms(3) that by blast
  have here: "L' (mg_id m) = Some (checksum m)" if "m \<in> set ms" for m
    using L1 [OF that] steps_keep [OF assms(4)] assms(5) that by (auto simp: out)
  show eq: "L' = brought_up_to_date ms L"
  proof
    fix i
    have stays: "L i = Some c \<Longrightarrow> L' i = Some c" for c using steps_keep [OF steps_trans [OF assms(2,4)]] .
    have "L i = None \<Longrightarrow> L' i = map_option checksum (List.find (\<lambda>m. mg_id m = i) ms)"
    proof (cases "List.find (\<lambda>m. mg_id m = i) ms")
      case None
      then show "L i = None \<Longrightarrow> L' i = map_option checksum (List.find (\<lambda>m. mg_id m = i) ms)"
        using steps_trans [OF assms(2,4)] unfolding steps_iff by (metis option.simps(8))
    next
      case (Some m)
      then have "m \<in> set ms" "mg_id m = i" by (auto simp: find_Some_iff)
      with here Some show "L' i = map_option checksum (List.find (\<lambda>m. mg_id m = i) ms)" by auto
    qed
    with stays show "L' i = brought_up_to_date ms L i" by (cases "L i") (simp_all add: brought_up_to_date_def)
  qed
  have "L (mg_id m) \<in> {None, Some (checksum m)}" if "m \<in> set ms" for m
    using L1 [OF that] steps_keep [OF assms(2), of "mg_id m"] by (cases "L (mg_id m)") auto
  then obtain o' where "pending ms L = Inr o'" using pending_Inr_iff [of ms L] by blast
  with nothing_left [OF this assms(1)] eq show "pending ms L' = Inr []" by simp
qed

text \<open>The second half, from the ledger \<open>L\<close> that was read.\<close>

lemma migrate_brings_up_to_date:
  assumes "keeps_ledger ms ledger env" "distinct (map mg_id ms)" "\<forall>m \<in> set out. m \<in> set ms \<and> L (mg_id m) = None"
  shows "triple (on_course ms ledger L []) (migrate_locked env node now out)
     (\<lambda>r s. on_course ms ledger L [] s \<and> (\<forall>names. r = Inr names \<longrightarrow>
        names = map mg_id out \<and> on_course ms ledger L out s \<or> names = [] \<and> lock_refused node now (trace s)))"
proof -
  let ?Q = "\<lambda>r s. on_course ms ledger L [] s \<and> (\<forall>names. r = Inr names \<longrightarrow>
        names = map mg_id out \<and> on_course ms ledger L out s \<or> names = [] \<and> lock_refused node now (trace s))"
  have release: "triple (\<lambda>s. on_course ms ledger L [] s \<and> (\<forall>a. r = Inr a \<longrightarrow> a = map mg_id out \<and> on_course ms ledger L out s))
      (release_lock env node) (\<lambda>_. ?Q r)" for r
  proof (cases r)
    case (Inl e)
    show ?thesis
      unfolding release_lock_def Inl
      by (rule triple_bind [where R = "\<lambda>_. on_course ms ledger L []"], rule triple_conseq [OF on_course_stmt [OF assms(1)]])
        (auto simp: writes_ledger_def intro!: triple_ret)
  next
    case (Inr a)
    have less: "on_course ms ledger L out s \<Longrightarrow> on_course ms ledger L [] s" for s :: "('a, sevent) world"
      by (simp add: on_course_def)
    show ?thesis
      unfolding release_lock_def Inr
    proof (cases "a = map mg_id out")
      case True
      show "triple (\<lambda>s. on_course ms ledger L [] s \<and> (\<forall>a'. Inr a = Inr a' \<longrightarrow> a' = map mg_id out \<and> on_course ms ledger L out s))
        (State_Monad.bind (run_stmt env (Free_Lock node)) (\<lambda>_. ret ())) (\<lambda>_. ?Q (Inr a))"
        by (rule triple_bind [where R = "\<lambda>_. on_course ms ledger L out"], rule triple_conseq [OF on_course_stmt [OF assms(1)]])
          (auto simp: writes_ledger_def True less intro!: triple_ret)
    qed (simp add: triple_def)
  qed
  have loop: "triple (on_course ms ledger L []) (for_eachE (apply_one env node now) out [])
      (\<lambda>r s. on_course ms ledger L [] s \<and> (\<forall>a. r = Inr a \<longrightarrow> a = map mg_id out \<and> on_course ms ledger L out s))"
    using on_course_loop [where L = L and ks = "[]" and here = "[]", OF assms] by simp
  show ?thesis
    unfolding migrate_locked_def
    by (rule triple_bindE [where R = "\<lambda>mine s. on_course ms ledger L [] s \<and> (\<not> mine \<longrightarrow> lock_refused node now (trace s))"],
        rule triple_conseq [OF on_course_lock [OF assms(1)]], assumption, simp split: sum.split, rule triple_if, rule triple_ret, simp,
        rule triple_bind [OF triple_conseq [OF loop]], simp, assumption, rule triple_bind [OF release], rule triple_ret, simp)
qed

text \<open>
  C36. \<open>ensure_schema\<close> brings the ledger up to date or says why not. Over a database that keeps the ledger, where any
  statement may fail and other nodes may be recording the same list of migrations: no entry is ever changed and none is made but with the
  checksum of its migration. When the call returns, the names it returns are of migrations the ledger did not have, and either the
  ledger is brought up to date and nothing is pending, or nothing is returned and the lock was refused last. A ledger in which a recorded
  migration was edited makes it raise.
\<close>

theorem ensure_schema_refines:
  assumes "keeps_ledger ms ledger env" "distinct (map mg_id ms)" "run_state (ensure_schema ms env node now) s = (r, s')"
  shows "steps_to ms (ledger (hidden s)) (ledger (hidden s'))
    \<and> (\<forall>names. r = Inr names \<longrightarrow> (\<forall>i \<in> set names. ledger (hidden s) i = None)
         \<and> (ledger (hidden s') = brought_up_to_date ms (ledger (hidden s)) \<and> pending ms (ledger (hidden s')) = Inr []
            \<or> names = [] \<and> lock_refused node now (trace s')))
    \<and> ((\<exists>e. pending ms (ledger (hidden s)) = Inl e) \<longrightarrow> (\<exists>e. r = Inl e))"
proof -
  let ?L = "ledger (hidden s)"
  have on: "on_course ms ledger ?L [] s" by (simp add: on_course_def steps_refl)
  obtain r0 s1 where book: "run_state (run_all env (map Bookkeeping bookkeeping)) s = (r0, s1)" by fastforce
  have on1: "on_course ms ledger ?L [] s1" using tripleD [OF on_course_statements(2) [OF assms(1)] on book] .
  show ?thesis
  proof (cases r0)
    case (Inl e)
    then show ?thesis using assms(3) book on1 by (auto simp: ensure_schema_def run_rules on_course_def)
  next
    case (Inr u)
    obtain r1 s2 where readl: "run_state (run_stmt env Read_Ledger) s1 = (r1, s2)" by fastforce
    have on2: "steps_to ms ?L (ledger (hidden s2))" and parsed: "\<And>out. r1 = Inr out \<Longrightarrow> parse_applied out = ledger (hidden s2)"
      using tripleD [OF on_course_read [OF assms(1)] on1 readl] by (auto simp: on_course_def)
    show ?thesis
    proof (cases r1)
      case (Inl e)
      then show ?thesis using assms(3) book Inr readl on2 by (auto simp: ensure_schema_def run_rules)
    next
      case (Inr text')
      let ?L1 = "ledger (hidden s2)"
      have go: "run_state (case pending ms ?L1 of Inl e \<Rightarrow> raiseE e
          | Inr outstanding \<Rightarrow> if outstanding = [] then okE [] else migrate_locked env node now outstanding) s2 = (r, s')"
        using assms(3) book \<open>r0 = Inr u\<close> readl Inr parsed by (simp add: ensure_schema_def run_rules)
      have edited: "\<exists>e. pending ms ?L1 = Inl e" if diverged: "pending ms ?L = Inl e" for e
      proof -
        obtain m where m: "m \<in> set ms" "?L (mg_id m) \<notin> {None, Some (checksum m)}"
          using pending_Inr_iff [of ms ?L] diverged by (metis sum.distinct(1))
        then obtain c where "?L (mg_id m) = Some c" "c \<noteq> checksum m" by auto
        then have "?L1 (mg_id m) \<notin> {None, Some (checksum m)}" using steps_keep [OF on2, of "mg_id m" c] by simp
        with m(1)
        show ?thesis using pending_Inr_iff [of ms ?L1] by (cases "pending ms ?L1") auto
      qed
      show ?thesis
      proof (cases "pending ms ?L1")
        case (Inl e)
        then show ?thesis using go on2 by (auto simp: run_rules)
      next
        case (Inr out)
        have out: "out = filter (\<lambda>m. ?L1 (mg_id m) = None) ms" using Inr by (rule pending_Inr)
        have fresh: "?L (mg_id m) = None" if "m \<in> set out" for m
          using that steps_keep [OF on2, of "mg_id m"] by (cases "?L (mg_id m)") (auto simp: out)
        have start: "on_course ms ledger ?L1 [] s2" by (simp add: on_course_def steps_refl)
        have "on_course ms ledger ?L1 [] s' \<and> (\<forall>names. r = Inr names \<longrightarrow>
            names = map mg_id out \<and> on_course ms ledger ?L1 out s' \<or> names = [] \<and> lock_refused node now (trace s'))"
        proof (cases "out = []")
          case True
          then show ?thesis using go Inr start by (auto simp: run_rules)
        next
          case False
          have "\<forall>m \<in> set out. m \<in> set ms \<and> ?L1 (mg_id m) = None" by (auto simp: out)
          from tripleD [OF migrate_brings_up_to_date [where L = ?L1, OF assms(1,2) this] start] go Inr False show ?thesis by simp
        qed
        then have moved: "steps_to ms ?L1 (ledger (hidden s'))"
          "\<And>names. r = Inr names \<Longrightarrow> names = map mg_id out \<and> (\<forall>m \<in> set out. ledger (hidden s') (mg_id m) = Some (checksum m))
             \<or> names = [] \<and> lock_refused node now (trace s')"
          by (auto simp: on_course_def)
        have "(\<forall>i \<in> set names. ?L i = None)
            \<and> (ledger (hidden s') = brought_up_to_date ms ?L \<and> pending ms (ledger (hidden s')) = Inr [] \<or> names = [] \<and> lock_refused node now (trace s'))"
          if "r = Inr names" for names
          using moved(2) [OF that] fresh caught_up [OF assms(2) on2 Inr moved(1)] by auto
        then show ?thesis using steps_trans [OF on2 moved(1)] edited Inr by fastforce
      qed
    qed
  qed
qed

text \<open>A table in memory, which reads back as long as its rows are those of a ledger, and one migration to record.\<close>

fun remember :: "sstmt \<Rightarrow> (string \<times> string) list \<Rightarrow> (int \<times> string \<times> string) \<times> (string \<times> string) list" where
  "remember Read_Ledger db = (if ledger_rows db then (0, text_of (map daruk_line db), []) else (1, [], ''malformed''), db)"
| "remember (Record_Migration i c now node) db = ((0, [], []), db @ [(i, c)])"
| "remember st db = ((0, ''True'', []), db)"

definition memory_schema :: "(string \<times> string) list schema_env" where
  "memory_schema = \<lparr>execute = remember, loads_row = (\<lambda>_. None)\<rparr>"

definition one_migration :: "migration list" where
  "one_migration = [\<lparr>mg_id = ''0001-baseline'', mg_statements = [''CREATE TABLE t;''], mg_backfill = None\<rparr>]"

lemma memory_keeps_ledger: "keeps_ledger ms (\<lambda>db. map_of (rev db)) memory_schema"
  unfolding keeps_ledger_def
proof (intro allI impI)
  fix st w rc out err w'
  assume "execute memory_schema st w = ((rc, out, err), w')"
  then show "case st of
           Record_Migration i c _ _ \<Rightarrow>
             (\<forall>j. j \<noteq> i \<longrightarrow> map_of (rev w') j \<in> {map_of (rev w) j, brought_up_to_date ms (map_of (rev w)) j})
             \<and> (if rc = 0 then map_of (rev w') i = Some c else map_of (rev w') i \<in> {map_of (rev w) i, Some c, brought_up_to_date ms (map_of (rev w)) i})
         | Read_Ledger \<Rightarrow> steps_to ms (map_of (rev w)) (map_of (rev w')) \<and> (rc = 0 \<longrightarrow> prints (map_of (rev w')) out)
         | _ \<Rightarrow> steps_to ms (map_of (rev w)) (map_of (rev w'))"
    by (cases st) (auto simp: memory_schema_def steps_refl prints_def split: if_splits)
qed

theorem ensure_schema_refines_witness:
  "\<exists>r s'. run_state (ensure_schema one_migration memory_schema ''node1'' 7) \<lparr>hidden = [], trace = [], memo = None\<rparr> = (r, s')
     \<and> steps_to one_migration Map.empty (map_of (rev (hidden s')))"
proof -
  obtain r s' where run: "run_state (ensure_schema one_migration memory_schema ''node1'' 7) \<lparr>hidden = [], trace = [], memo = None\<rparr> = (r, s')"
    by fastforce
  have "distinct (map mg_id one_migration)" by (simp add: one_migration_def)
  from ensure_schema_refines [OF memory_keeps_ledger this run] run show ?thesis by simp
qed

end
