(* ===== verification/Schema_Migrations.thy ===== *)
theory Schema_Migrations
  imports Schema
begin

text \<open>
  The declared migrations (\<open>MIGRATIONS\<close> of \<open>src/helios_schema.py\<close>) with their ids, statements and
  backfill steps, in their order; the descriptions, which are prose, are left out. \<open>ensure_schema\<close> is
  meant to be called with \<open>migrations\<close>.
\<close>

definition mg :: "string \<Rightarrow> string list \<Rightarrow> migration" where
  "mg i sts = \<lparr>mg_id = i, mg_statements = sts, mg_backfill = None\<rparr>"

definition baseline :: "migration list" where
  "baseline =
    [mg ''0001-baseline''
       [''CREATE TABLE IF NOT EXISTS hydra.catalyst_tasks ( task_id uuid PRIMARY KEY, service text, action text, status text, payload text, progress int, error_msg text, created_at timestamp, updated_at timestamp );'',
        ''CREATE TABLE IF NOT EXISTS hydra.cluster_settings ( key text PRIMARY KEY, value text );'',
        ''CREATE TABLE IF NOT EXISTS hydra.console_metrics ( vm_name text, timestamp timestamp, avg_fps float, low_fps float, latency float, PRIMARY KEY (vm_name, timestamp) ) WITH CLUSTERING ORDER BY (timestamp DESC) AND default_time_to_live = 86400;'',
        ''CREATE TABLE IF NOT EXISTS hydra.console_sessions ( console_token text PRIMARY KEY, host_ip text, port int, expires_at int );'',
        ''CREATE TABLE IF NOT EXISTS hydra.dagur_runs ( job_name text, start_time timestamp, run_id uuid, end_time timestamp, status text, exit_code int, output text, PRIMARY KEY (job_name, start_time) ) WITH CLUSTERING ORDER BY (start_time DESC);'',
        ''CREATE TABLE IF NOT EXISTS hydra.dagur_schedules ( job_name text PRIMARY KEY, task_type text, cron_expression text, interval_seconds int, enabled boolean, last_run_epoch bigint, command text );'',
        ''CREATE TABLE IF NOT EXISTS hydra.gatoway_networks ( net_id uuid PRIMARY KEY, name text, type text, vlan_id int );'',
        ''CREATE TABLE IF NOT EXISTS hydra.hylia_jobs ( job_id uuid PRIMARY KEY, state text, target_nodes list<text>, current_node text, build_number text, manifest_json text, changelog_md text );'',
        ''CREATE TABLE IF NOT EXISTS hydra.hylia_logs ( job_id uuid, timestamp timestamp, log_line text, PRIMARY KEY (job_id, timestamp) ) WITH CLUSTERING ORDER BY (timestamp ASC);'',
        ''CREATE TABLE IF NOT EXISTS hydra.lanayru_clusters ( cluster_id uuid PRIMARY KEY, name text, control_nodes int, overlay_segment_id uuid, status text, created_at timestamp );'',
        ''CREATE TABLE IF NOT EXISTS hydra.lanayru_k8s_state ( cluster_id uuid, name text, value blob, version int, is_dir boolean, ttl int, PRIMARY KEY (cluster_id, name) );'',
        ''CREATE TABLE IF NOT EXISTS hydra.lcm_inventory ( key text PRIMARY KEY, inventory_json text, last_updated timestamp );'',
        ''CREATE TABLE IF NOT EXISTS hydra.lcm_update_state ( key text PRIMARY KEY, latest_version text, release_date text, download_url text, sha256 text, size bigint, changelog text, current_version text, update_available boolean, last_checked timestamp, error_msg text );'',
        ''CREATE TABLE IF NOT EXISTS hydra.logos_metrics ( node_ip text, timestamp timestamp, cpu_pct float, mem_pct float, mem_total_kb bigint, cpu_cores int, disk_iops float, disk_bandwidth_kbps float, net_rx_kbps float, net_tx_kbps float, PRIMARY KEY (node_ip, timestamp) ) WITH CLUSTERING ORDER BY (timestamp DESC) AND default_time_to_live = 86400;'',
        ''CREATE TABLE IF NOT EXISTS hydra.mimir_results ( category text, check_name text, node_ip text, status text, output text, execution_id uuid, timestamp timestamp, PRIMARY KEY (category, check_name, node_ip) );'',
        ''CREATE TABLE IF NOT EXISTS hydra.mimir_schedules ( schedule_name text PRIMARY KEY, category text, enabled boolean, last_run_epoch bigint );'',
        ''CREATE TABLE IF NOT EXISTS hydra.nodes ( hostname text PRIMARY KEY, ip text, status text, maintenance_mode boolean );'',
        ''CREATE TABLE IF NOT EXISTS hydra.sessions ( session_token text PRIMARY KEY, username text, created_at timestamp );'',
        ''CREATE TABLE IF NOT EXISTS hydra.storage_containers ( name text PRIMARY KEY, tier text, quota_bytes bigint, path text, ftt int );'',
        ''CREATE TABLE IF NOT EXISTS hydra.urbosa_firewall_rules ( rule_id uuid PRIMARY KEY, description text, source_ip text, dest_ip text, protocol text, port int, action text, priority int );'',
        ''CREATE TABLE IF NOT EXISTS hydra.urbosa_segments ( segment_id uuid PRIMARY KEY, name text, vni int, t1_link_id uuid, subnet_cidr text, gateway_ip text, dhcp_enabled boolean, dhcp_start text, dhcp_end text );'',
        ''CREATE TABLE IF NOT EXISTS hydra.urbosa_t0_routers ( router_id uuid PRIMARY KEY, name text, uplink_interface text, uplink_ip text, gateway_ip text, nat_rules text );'',
        ''CREATE TABLE IF NOT EXISTS hydra.urbosa_t1_routers ( router_id uuid PRIMARY KEY, name text, t0_link_id uuid, dhcp_enabled boolean );'',
        ''CREATE TABLE IF NOT EXISTS hydra.urbosa_tunnel_metrics ( node_ip text, interface_name text, timestamp timestamp, rx_kbps float, tx_kbps float, rx_packets float, tx_packets float, PRIMARY KEY ((node_ip, interface_name), timestamp) ) WITH CLUSTERING ORDER BY (timestamp DESC) AND default_time_to_live = 86400;'',
        ''CREATE TABLE IF NOT EXISTS hydra.users ( username text PRIMARY KEY, password_hash text );'',
        ''CREATE TABLE IF NOT EXISTS hydra.valhalla_images ( name text PRIMARY KEY, filename text, size_bytes bigint, type text, path text, created_at timestamp );'',
        ''CREATE TABLE IF NOT EXISTS hydra.vali_drs_history ( event_time timestamp, vm_name text, source_host text, target_host text, reason text, PRIMARY KEY (event_time, vm_name) );'',
        ''CREATE TABLE IF NOT EXISTS hydra.vali_drs_status ( cluster_name text PRIMARY KEY, current_deviation double, status_str text, last_drs_run bigint, drs_enabled boolean );'',
        ''CREATE TABLE IF NOT EXISTS hydra.vali_tasks ( task_id uuid PRIMARY KEY, vm_name text, action text, status text, target_host text, created_at bigint, updated_at bigint, error_msg text );'',
        ''CREATE TABLE IF NOT EXISTS hydra.vm_nvram ( vm_name text PRIMARY KEY, nvram_data text );'',
        ''CREATE TABLE IF NOT EXISTS hydra.vms ( name text PRIMARY KEY, vcpu int, memory int, disk_path text, disk_size int, state text, host_ip text, disks_list text, firmware text, iso text, boot_device text, network_id text, cpu_model text, audio_enabled boolean, status text );'']]"

definition storage_migrations :: "migration list" where
  "storage_migrations =
    [mg ''0002-cluster-locks''
       [''CREATE TABLE IF NOT EXISTS hydra.cluster_locks ( name text PRIMARY KEY, holder text, holder_token text, reason text, acquired_at_ms bigint );''],
     mg ''0003-bound-task-history''
       [''ALTER TABLE hydra.catalyst_tasks WITH default_time_to_live = 2592000;''],
     mg ''0004-urbosa-transit-pool''
       [''CREATE TABLE IF NOT EXISTS hydra.urbosa_transit_pool ( subnet_index int PRIMARY KEY, router_id text, node_id text, allocated_at_ms bigint );''],
     mg ''0005-dfs-extent-store''
       [''CREATE TABLE IF NOT EXISTS hydra.dfs_vdisks ( vdisk_id text PRIMARY KEY, container text, size_bytes bigint, class text, owner text, epoch bigint, drain_seq bigint, extent_bytes int, egroup_bytes int, created_at_ms bigint, parent_vdisk text );'',
        ''CREATE TABLE IF NOT EXISTS hydra.dfs_block_map ( vdisk_id text, extent_index bigint, egroup_id text, egroup_offset int, length int, epoch bigint, PRIMARY KEY ((vdisk_id), extent_index) );'',
        ''CREATE TABLE IF NOT EXISTS hydra.dfs_egroups ( egroup_id text PRIMARY KEY, state text, node text, path text, size int, seal_hash text, vdisk_hint text, created_at_ms bigint );'']]"

definition replica_migrations :: "migration list" where
  "replica_migrations =
    [mg ''0006-dfs-replication''
       [''ALTER TABLE hydra.dfs_vdisks ADD replicas list<text>;'',
        ''ALTER TABLE hydra.dfs_vdisks ADD rf int;'',
        ''CREATE TABLE IF NOT EXISTS hydra.dfs_egroup_replicas ( egroup_id text, node text, path text, state text, PRIMARY KEY ((egroup_id), node) );''],
     mg ''0007-dfs-snapshots''
       [''ALTER TABLE hydra.dfs_block_map ADD vdisk_hash bigint;''],
     mg ''0008-container-compression''
       [''ALTER TABLE hydra.storage_containers ADD compression text;'',
        ''ALTER TABLE hydra.valhalla_images ADD container text;'']]"

definition console_migrations :: "migration list" where
  "console_migrations =
    [(mg ''0009-vlan-claims''
       [''CREATE TABLE IF NOT EXISTS hydra.gatoway_vlan_claims ( vlan_id int PRIMARY KEY, net_id text, name text, claimed_at_ms bigint );''])\<lparr>mg_backfill := Some Backfill_Vlan_Claims\<rparr>,
     mg ''0010-vm-graphics''
       [''ALTER TABLE hydra.vms ADD graphics text;'']]"

definition task_migrations :: "migration list" where
  "task_migrations =
    [mg ''0011-catalyst-task-parent''
       [''ALTER TABLE hydra.catalyst_tasks ADD parent_task_id uuid;''],
     mg ''0012-catalyst-task-component''
       [''ALTER TABLE hydra.catalyst_tasks ADD component text;''],
     mg ''0013-catalyst-task-sequence-id''
       [''ALTER TABLE hydra.catalyst_tasks ADD sequence_id bigint;''],
     mg ''0014-catalyst-task-type''
       [''ALTER TABLE hydra.catalyst_tasks ADD task_type text;''],
     mg ''0015-catalyst-task-completed-at''
       [''ALTER TABLE hydra.catalyst_tasks ADD completed_at timestamp;''],
     mg ''0016-catalyst-task-sequence''
       [''CREATE TABLE IF NOT EXISTS hydra.catalyst_task_sequence ( component text PRIMARY KEY, next_sequence_id bigint );'']]"

definition extent_migrations :: "migration list" where
  "extent_migrations =
    [mg ''0017-egroup-access-data''
       [''CREATE TABLE IF NOT EXISTS hydra.dfs_egroup_access ( egroup_id text, node text, reads bigint, writes bigint, bytes_read bigint, bytes_written bigint, last_read_ms bigint, last_write_ms bigint, since_ms bigint, updated_at_ms bigint, PRIMARY KEY ((egroup_id), node) );''],
     mg ''0020-dfs-extent-id-map''
       [''CREATE TABLE IF NOT EXISTS hydra.dfs_extent_id_map ( extent_id text PRIMARY KEY, egroup_id text, egroup_offset int, length int, vdisk_hash bigint, created_at_ms bigint );''],
     mg ''0021-dfs-block-map-extent-id''
       [''ALTER TABLE hydra.dfs_block_map ADD extent_id text;'']]"

definition snapshot_migrations :: "migration list" where
  "snapshot_migrations =
    [mg ''0022-snapshot-policies''
       [''CREATE TABLE IF NOT EXISTS hydra.dfs_snapshot_policies ( scope text, target text, enabled boolean, interval_seconds int, keep_last int, updated_at_ms bigint, PRIMARY KEY ((scope), target) );''],
     mg ''0023-snapshot-index''
       [''CREATE TABLE IF NOT EXISTS hydra.dfs_snapshot_index ( vdisk_id text, created_at_ms bigint, snapshot_id text, origin text, PRIMARY KEY ((vdisk_id), created_at_ms, snapshot_id) ) WITH CLUSTERING ORDER BY (created_at_ms DESC, snapshot_id ASC);''],
     mg ''0025-drop-dfs-egroup-replicas''
       [''DROP TABLE IF EXISTS hydra.dfs_egroup_replicas;'']]"

definition protection_migrations :: "migration list" where
  "protection_migrations =
    [mg ''0030-protection-domains''
       [''CREATE TABLE IF NOT EXISTS hydra.dfs_protection_domains ( name text PRIMARY KEY, enabled boolean, interval_seconds int, keep_last int, quiesce text, max_pause_seconds int, created_at_ms bigint, updated_at_ms bigint );''],
     mg ''0031-protection-domain-members''
       [''CREATE TABLE IF NOT EXISTS hydra.dfs_protection_domain_members ( domain text, kind text, name text, added_at_ms bigint, PRIMARY KEY ((domain), kind, name) );''],
     mg ''0032-protection-sets''
       [''CREATE TABLE IF NOT EXISTS hydra.dfs_protection_sets ( domain text, taken_at_ms bigint, set_id text, origin text, state text, consistency text, quiesce text, started_at_ms bigint, finished_at_ms bigint, cut_start_ms bigint, cut_end_ms bigint, paused_ms bigint, members text, paused_vms text, error text, PRIMARY KEY ((domain), taken_at_ms, set_id) ) WITH CLUSTERING ORDER BY (taken_at_ms DESC, set_id ASC);'']]"

definition migrations :: "migration list" where
  "migrations = baseline @ storage_migrations @ replica_migrations @ console_migrations @ task_migrations @ extent_migrations @ snapshot_migrations @ protection_migrations"

lemmas migration_groups = baseline_def storage_migrations_def replica_migrations_def console_migrations_def
  task_migrations_def extent_migrations_def snapshot_migrations_def protection_migrations_def

text \<open>
  A statement that may run twice: one that does nothing when its work is done, a change of table
  properties, or the addition of a column, whose second run \<open>run_stmt\<close> forgives.
\<close>

definition rerunnable :: "string \<Rightarrow> bool" where
  "rerunnable s \<longleftrightarrow> starts_with s ''CREATE TABLE IF NOT EXISTS '' \<or> starts_with s ''DROP TABLE IF EXISTS ''
     \<or> (starts_with s ''ALTER TABLE '' \<and> contains s '' WITH '')
     \<or> is_column_already_there s ''conflicts with an existing column''"

definition migration_ids :: "string list" where
  "migration_ids =
     [''0001-baseline'',
      ''0002-cluster-locks'',
      ''0003-bound-task-history'',
      ''0004-urbosa-transit-pool'',
      ''0005-dfs-extent-store'',
      ''0006-dfs-replication'',
      ''0007-dfs-snapshots'',
      ''0008-container-compression'',
      ''0009-vlan-claims'',
      ''0010-vm-graphics'',
      ''0011-catalyst-task-parent'',
      ''0012-catalyst-task-component'',
      ''0013-catalyst-task-sequence-id'',
      ''0014-catalyst-task-type'',
      ''0015-catalyst-task-completed-at'',
      ''0016-catalyst-task-sequence'',
      ''0017-egroup-access-data'',
      ''0020-dfs-extent-id-map'',
      ''0021-dfs-block-map-extent-id'',
      ''0022-snapshot-policies'',
      ''0023-snapshot-index'',
      ''0025-drop-dfs-egroup-replicas'',
      ''0030-protection-domains'',
      ''0031-protection-domain-members'',
      ''0032-protection-sets'']"

lemma rerun_made:
  "starts_with s ''CREATE TABLE IF NOT EXISTS '' \<Longrightarrow> rerunnable s" "starts_with s ''DROP TABLE IF EXISTS '' \<Longrightarrow> rerunnable s"
  "starts_with s ''ALTER TABLE '' \<Longrightarrow> contains s '' WITH '' \<Longrightarrow> rerunnable s"
  by (simp_all add: rerunnable_def)

lemma upper_append: "upper (a @ b) = upper a @ upper b" "upper (c # b) = upper_char c # upper b"
  by (simp_all add: upper_def)

lemma upper_words: "upper ''ALTER TABLE '' = ''ALTER TABLE ''" "upper '' ADD '' = '' ADD ''"
  by (simp_all add: upper_def upper_char_def)

lemma conflict_text: "contains (lower ''conflicts with an existing column'') ''conflicts with an existing column''"
  by code_simp

lemma add_column_rerun:
  assumes "is_word table" and "is_word column"
  shows "rerunnable (''ALTER TABLE '' @ table @ '' ADD '' @ column @ CHR '' '' # rest)"
proof -
  let ?s = "''ALTER TABLE '' @ table @ '' ADD '' @ column @ CHR '' '' # rest"
  have fixed: "is_word ''ALTER''" "is_word ''TABLE''" "is_word ''ADD''" by (simp_all add: is_word_def is_ws_def)
  have "split_ws ?s = [''ALTER'', ''TABLE'', table, ''ADD'', column] @ split_ws rest"
    using split_ws_join [OF fixed(1) blank_ws(1), of "''TABLE '' @ table @ '' ADD '' @ column @ CHR '' '' # rest"]
      split_ws_join [OF fixed(2) blank_ws(1), of "table @ '' ADD '' @ column @ CHR '' '' # rest"]
      split_ws_join [OF assms(1) blank_ws(1), of "''ADD '' @ column @ CHR '' '' # rest"]
      split_ws_join [OF fixed(3) blank_ws(1), of "column @ CHR '' '' # rest"]
      split_ws_join [OF assms(2) blank_ws(1), of rest]
    by (simp del: split_ws.simps)
  then obtain t where "one_spaced ?s = ''ALTER TABLE '' @ table @ '' ADD '' @ t"
    by (simp add: one_spaced_def del: split_ws.simps)
  then have up: "upper (one_spaced ?s) = ''ALTER TABLE '' @ upper table @ '' ADD '' @ upper t"
    by (simp only: upper_append(1) upper_words)
  have "starts_with (upper (one_spaced ?s)) ''ALTER TABLE''" unfolding up by simp
  moreover have "contains (upper (one_spaced ?s)) '' ADD ''"
    unfolding up contains_iff by (intro exI [of _ "''ALTER TABLE '' @ upper table"] exI [of _ "upper t"]) simp
  ultimately show ?thesis
    unfolding rerunnable_def is_column_already_there_def Let_def using conflict_text by blast
qed

lemmas added_columns =
  add_column_rerun [of "''hydra.dfs_vdisks''" "''replicas''" "''list<text>;''"]
  add_column_rerun [of "''hydra.dfs_vdisks''" "''rf''" "''int;''"]
  add_column_rerun [of "''hydra.dfs_block_map''" "''vdisk_hash''" "''bigint;''"]
  add_column_rerun [of "''hydra.storage_containers''" "''compression''" "''text;''"]
  add_column_rerun [of "''hydra.valhalla_images''" "''container''" "''text;''"]
  add_column_rerun [of "''hydra.vms''" "''graphics''" "''text;''"]
  add_column_rerun [of "''hydra.catalyst_tasks''" "''parent_task_id''" "''uuid;''"]
  add_column_rerun [of "''hydra.catalyst_tasks''" "''component''" "''text;''"]
  add_column_rerun [of "''hydra.catalyst_tasks''" "''sequence_id''" "''bigint;''"]
  add_column_rerun [of "''hydra.catalyst_tasks''" "''task_type''" "''text;''"]
  add_column_rerun [of "''hydra.catalyst_tasks''" "''completed_at''" "''timestamp;''"]
  add_column_rerun [of "''hydra.dfs_block_map''" "''extent_id''" "''text;''"]

text \<open>
  A migration that died half way can be run again: each statement of each declared migration may run
  twice; the ids are in increasing order, so no two are the same, and each can be read back from the ledger.
\<close>

theorem migrations_can_be_repeated:
  "list_all (\<lambda>m. entry_name (mg_id m) \<and> list_all rerunnable (mg_statements m)) migrations
   \<and> sorted_wrt (<) (map mg_id migrations)"
proof
  note words = is_word_def is_ws_def entry_name_def ruled_def
  show "list_all (\<lambda>m. entry_name (mg_id m) \<and> list_all rerunnable (mg_statements m)) migrations"
    unfolding migrations_def migration_groups mg_def
    using added_columns [unfolded words]
    by (simp add: words rerun_made)
  have "map mg_id migrations = migration_ids"
    unfolding migrations_def migration_groups mg_def migration_ids_def by simp
  moreover have "sorted_wrt (<) migration_ids" by code_simp
  ultimately show "sorted_wrt (<) (map mg_id migrations)" by simp
qed

end
