(* ===== verification/Cluster_Env.thy ===== *)
theory Cluster_Env
  imports Snapshot_Policy Task_Rows Json
begin

text \<open>
  The environment of the two runners: \<open>Env\<close> of \<open>src/helios_snapshots.py\<close> and its extension in
  \<open>src/rauru_protection.py\<close>. Every effect is a parameter. A \<open>SELECT JSON\<close> and the reading of its rows
  (\<open>parse_json_rows\<close>) is one typed reader per table, answering with an error or with rows; a write is a
  value of \<open>stmt\<close>, whose text is \<open>stmt_pieces\<close>. The log lines of \<open>say\<close> are left out. The task log
  (\<open>TaskLog\<close>), which both runners write through, is here too.
\<close>

section \<open>Rows of the protection tables\<close>

record domain_row =
  d_name :: string
  d_enabled :: "bool option"
  d_interval :: "int option"
  d_keep_last :: "int option"
  d_quiesce :: "string option"
  d_max_pause :: "int option"
  d_created :: "int option"

record member_row =
  mr_domain :: string
  mr_kind :: string
  mr_name :: string

record set_member =
  m_vm :: string
  m_vdisk :: string
  m_snapshot :: string
  m_status :: string
  m_node :: "string option"

record pause =
  pz_name :: string
  pz_host_ip :: "string option"

record set_row =
  s_domain :: string
  s_taken_at :: int
  s_set_id :: string
  s_origin :: "string option"
  s_state :: "string option"
  s_consistency :: "string option"
  s_quiesce :: "string option"
  s_started :: "int option"
  s_finished :: "int option"
  s_cut_start :: "int option"
  s_cut_end :: "int option"
  s_paused_ms :: "int option"
  s_members :: "set_member list"
  s_paused_vms :: "pause list"
  s_error :: "string option"

section \<open>Statements\<close>

datatype stmt =
    Index_Insert string int string string
  | Index_Delete string int string
  | Task_Insert task_row int
  | Task_Update "string option" "string option" int int "string option"
  | Domain_Insert string bool int int string int int int
  | Domain_Delete string
  | Member_Insert string string string int
  | Member_Delete string string string
  | Set_Write set_row
  | Set_Delete string int string

text \<open>The two JSON columns of a set, keys in order.\<close>

definition json_member :: "set_member \<Rightarrow> string" where
  "json_member m =
     ''{'' @ join '', '' ((case m_node m of None \<Rightarrow> [] | Some n \<Rightarrow> [json_key ''node'' (json_str n)])
        @ [json_key ''snapshot'' (json_str (m_snapshot m)), json_key ''status'' (json_str (m_status m)),
           json_key ''vdisk'' (json_str (m_vdisk m)), json_key ''vm'' (json_str (m_vm m))]) @ ''}''"

definition json_pause :: "pause \<Rightarrow> string" where
  "json_pause p = ''{'' @ join '', '' [json_key ''host_ip'' (json_opt (pz_host_ip p)),
       json_key ''name'' (json_str (pz_name p))] @ ''}''"

definition num_or_null :: "int option \<Rightarrow> string" where
  "num_or_null v = (case v of None \<Rightarrow> ''null'' | Some n \<Rightarrow> show_int n)"

definition text_col :: "string option \<Rightarrow> piece" where
  "text_col v = (case v of None \<Rightarrow> Lit ''null'' | Some s \<Rightarrow> Val s)"

definition set_row_pieces :: "set_row \<Rightarrow> piece list" where
  "set_row_pieces r =
     [Lit ''INSERT INTO hydra.dfs_protection_sets (domain, taken_at_ms, set_id, origin, state, consistency, quiesce, started_at_ms, finished_at_ms, cut_start_ms, cut_end_ms, paused_ms, members, paused_vms, error) VALUES ('',
      Val (s_domain r), Lit ('', '' @ show_int (s_taken_at r) @ '', ''), Val (s_set_id r), Lit '', '',
      text_col (s_origin r), Lit '', '', text_col (s_state r), Lit '', '', text_col (s_consistency r), Lit '', '',
      text_col (s_quiesce r),
      Lit ('', '' @ num_or_null (s_started r) @ '', '' @ num_or_null (s_finished r) @ '', ''
           @ num_or_null (s_cut_start r) @ '', '' @ num_or_null (s_cut_end r) @ '', ''
           @ num_or_null (s_paused_ms r) @ '', ''),
      Val (json_list json_member (s_members r)), Lit '', '',
      Val (json_list json_pause (s_paused_vms r)), Lit '', '', text_col (s_error r), Lit '');'']"

fun stmt_pieces :: "stmt \<Rightarrow> piece list" where
  "stmt_pieces (Index_Insert v t s o') =
     [Lit ''INSERT INTO hydra.dfs_snapshot_index (vdisk_id, created_at_ms, snapshot_id, origin) VALUES ('',
      Val v, Lit ('', '' @ show_int t @ '', ''), Val s, Lit '', '', Val o', Lit '');'']"
| "stmt_pieces (Index_Delete v t s) =
     [Lit ''DELETE FROM hydra.dfs_snapshot_index WHERE vdisk_id = '', Val v,
      Lit ('' AND created_at_ms = '' @ show_int t @ '' AND snapshot_id = ''), Val s, Lit '';'']"
| "stmt_pieces (Task_Insert t now) = task_insert_statement t now"
| "stmt_pieces (Task_Update tid st pr now err) = task_update_statement tid st pr now err"
| "stmt_pieces (Domain_Insert n e i k q p c u) =
     [Lit ''INSERT INTO hydra.dfs_protection_domains (name, enabled, interval_seconds, keep_last, quiesce, max_pause_seconds, created_at_ms, updated_at_ms) VALUES ('',
      Val n, Lit ('', '' @ (if e then ''true'' else ''false'') @ '', '' @ show_int i @ '', '' @ show_int k @ '', ''),
      Val q, Lit ('', '' @ show_int p @ '', '' @ show_int c @ '', '' @ show_int u @ '');'')]"
| "stmt_pieces (Domain_Delete n) =
     [Lit ''DELETE FROM hydra.dfs_protection_domains WHERE name = '', Val n, Lit '';'']"
| "stmt_pieces (Member_Insert d k n t) =
     [Lit ''INSERT INTO hydra.dfs_protection_domain_members (domain, kind, name, added_at_ms) VALUES ('',
      Val d, Lit '', '', Val k, Lit '', '', Val n, Lit ('', '' @ show_int t @ '');'')]"
| "stmt_pieces (Member_Delete d k n) =
     [Lit ''DELETE FROM hydra.dfs_protection_domain_members WHERE domain = '', Val d,
      Lit '' AND kind = '', Val k, Lit '' AND name = '', Val n, Lit '';'']"
| "stmt_pieces (Set_Write r) = set_row_pieces r"
| "stmt_pieces (Set_Delete d t s) =
     [Lit ''DELETE FROM hydra.dfs_protection_sets WHERE domain = '', Val d,
      Lit ('' AND taken_at_ms = '' @ show_int t @ '' AND set_id = ''), Val s, Lit '';'']"

definition stmt_text :: "stmt \<Rightarrow> string" where
  "stmt_text s = fill cql_text (stmt_pieces s)"

section \<open>Lemmas: every statement is a template\<close>

lemma inert_no_quote: "inert s \<Longrightarrow> quote_char \<notin> set s"
  by (auto simp: inert_def list_all_iff)

lemma inert_if_free: "inert a \<Longrightarrow> if_free False (a @ b) = if_free False b"
  by (rule if_free_skip) (auto simp: inert_def list_all_iff)

lemma inert_num_or_null: "inert (num_or_null v)"
  by (cases v) (simp_all add: num_or_null_def inert_show_int, simp add: inert_def)

lemmas inerts = inert_show_int inert_uuid inert_int_or_null inert_num_or_null

lemmas inert_simps = inerts [THEN inert_no_quote] inerts [THEN inert_if_free]

lemma column_template:
  "template (text_or_null v # Lit (c # s) # ps) = template (Lit (c # s) # ps)"
  "template (text_col v # Lit (c # s) # ps) = template (Lit (c # s) # ps)"
  by (auto simp: text_or_null_def text_col_def split: option.split)

lemma column_if_free:
  "if_free False (blank (text_or_null v # ps)) = if_free False (blank ps)"
  "if_free False (blank (text_col v # ps)) = if_free False (blank ps)"
  by (auto simp: text_or_null_def text_col_def split: option.split)

lemma stmt_template: "template (stmt_pieces st)"
  by (cases st) (simp_all add: inert_simps column_template set_row_pieces_def task_insert_statement_def
      task_update_statement_def)

lemma stmt_if_free: "if_free False (blank (stmt_pieces st))"
  by (cases st) (simp_all add: inert_simps column_if_free set_row_pieces_def task_insert_statement_def
      task_update_statement_def)

text \<open>
  No value can break out of a statement that the snapshot policy, the protection domains or their task log
  write: outside string literals the text is the statement's fixed text with an empty literal in the
  place of each value, and none of these statements is conditional, whatever the values are.
\<close>

theorem statements_hold_their_values:
  "cql_outside_string_literals (stmt_text st) = blank (stmt_pieces st) \<and> \<not> is_conditional_cql (stmt_text st)"
  by (simp add: stmt_text_def snap_quote.outside_fill snap_quote.fill_conditional_iff stmt_template
      if_free_unconditional stmt_if_free)

section \<open>Exceptions, requests, events\<close>

datatype domain_error =
    Bad_Domain_Name | Not_Whole | Short_Interval | Bad_Keep | Bad_Quiesce | Bad_Max_Pause
  | Not_A_Member | Set_Name_Too_Long string

datatype domain_refused =
    No_Domain string | No_Vm string | No_Such_Vdisk string | Not_Writable string
  | Holds_Sets nat | No_Set string | Has_Children "(string \<times> string list) list"
  | Not_Complete "string option" | No_Snapshots | Nothing_Restored "(string \<times> rollback_refused) list"
  | Nothing_Captured string

datatype exn =
    Runtime_Error string | Attribute_Error
  | Rollback_Refused rollback_refused | Policy_Exn policy_error
  | Domain_Error domain_error | Domain_Refused domain_refused
  | Group_Failed string | Restore_Incomplete "string list" "string list"

record node =
  n_hostname :: "string option"
  n_ip :: string

record attached_item =
  at_vdisk :: string
  at_role :: string

record dfs_body =
  b_error :: "string option"
  b_attached :: "attached_item list option"
  b_kept_as :: "string option"

datatype dfs_req =
    Dfs_List | Dfs_Snapshot string string | Dfs_Delete string | Dfs_Rollback string string "string option"

type_synonym dfs_answer = "int \<times> dfs_body option \<times> string"

record power_body =
  pw_state :: "string option"
  pw_error :: "string option"

type_synonym power_answer = "int \<times> power_body option \<times> string"

type_synonym 'a answer = "string + 'a list"

record 'w env =
  q_policies :: "'w \<Rightarrow> policy answer \<times> 'w"
  q_vdisks :: "'w \<Rightarrow> vdisk_row answer \<times> 'w"
  q_index :: "string \<Rightarrow> 'w \<Rightarrow> index_row answer \<times> 'w"
  q_vm :: "string \<Rightarrow> 'w \<Rightarrow> vm_row answer \<times> 'w"
  q_vms :: "'w \<Rightarrow> vm_row answer \<times> 'w"
  q_domains :: "'w \<Rightarrow> domain_row answer \<times> 'w"
  q_members :: "'w \<Rightarrow> member_row answer \<times> 'w"
  q_sets :: "string \<Rightarrow> 'w \<Rightarrow> set_row answer \<times> 'w"
  q_exec :: "stmt \<Rightarrow> 'w \<Rightarrow> (int \<times> string) \<times> 'w"
  q_dfs :: "string \<Rightarrow> dfs_req \<Rightarrow> 'w \<Rightarrow> dfs_answer \<times> 'w"
  q_power :: "string option \<Rightarrow> string \<Rightarrow> string \<Rightarrow> 'w \<Rightarrow> power_answer \<times> 'w"
  q_nodes :: "'w \<Rightarrow> node list \<times> 'w"
  q_lwt :: "string \<Rightarrow> int \<Rightarrow> int option \<Rightarrow> 'w \<Rightarrow> lwt_answer \<times> 'w"
  q_now :: "'w \<Rightarrow> int \<times> 'w"
  q_uuid :: "'w \<Rightarrow> string \<times> 'w"
  parent_task :: "string option"

datatype event =
    Read_Table
  | Saw_Vdisks "vdisk_row list"
  | Saw_Vm string "vm_row list"
  | Exec stmt int
  | Dfs string dfs_req dfs_answer
  | Power "string option" string string power_answer

section \<open>One call each\<close>

text \<open>\<open>Runner._rows\<close>: a read that failed raises.\<close>

definition rows_or_raise :: "('w, event, 'a answer) eff \<Rightarrow> ('w, event, exn + 'a list) eff" where
  "rows_or_raise m = do {
     a \<leftarrow> m;
     case a of Inl err \<Rightarrow> raiseE (Runtime_Error (''could not read the cluster: '' @ err)) | Inr rows \<Rightarrow> okE rows }"

definition policies :: "'w env \<Rightarrow> ('w, event, exn + policy list) eff" where
  "policies env = rows_or_raise (act (q_policies env) (\<lambda>_. Read_Table))"

definition vdisk_event :: "vdisk_row answer \<Rightarrow> event" where
  "vdisk_event a = (case a of Inl _ \<Rightarrow> Read_Table | Inr rows \<Rightarrow> Saw_Vdisks rows)"

definition vdisks :: "'w env \<Rightarrow> ('w, event, exn + vdisk_row list) eff" where
  "vdisks env = rows_or_raise (act (q_vdisks env) vdisk_event)"

definition index :: "'w env \<Rightarrow> string \<Rightarrow> ('w, event, exn + index_row list) eff" where
  "index env v = rows_or_raise (act (q_index env v) (\<lambda>_. Read_Table))"

definition vm_event :: "string \<Rightarrow> vm_row answer \<Rightarrow> event" where
  "vm_event n a = (case a of Inl _ \<Rightarrow> Read_Table | Inr rows \<Rightarrow> Saw_Vm n rows)"

definition vm_named :: "'w env \<Rightarrow> string \<Rightarrow> ('w, event, exn + vm_row list) eff" where
  "vm_named env n = rows_or_raise (act (q_vm env n) (vm_event n))"

definition exec :: "'w env \<Rightarrow> stmt \<Rightarrow> ('w, event, int \<times> string) eff" where
  "exec env s = act (q_exec env s) (\<lambda>r. Exec s (fst r))"

definition dfs :: "'w env \<Rightarrow> string \<Rightarrow> dfs_req \<Rightarrow> ('w, event, dfs_answer) eff" where
  "dfs env ip req = act (q_dfs env ip req) (Dfs ip req)"

definition nodes :: "'w env \<Rightarrow> ('w, event, node list) eff" where
  "nodes env = look (q_nodes env)"

definition now_ms :: "'w env \<Rightarrow> ('w, event, int) eff" where
  "now_ms env = look (q_now env)"

text \<open>\<open>(body.get("error") if isinstance(body, dict) and body.get("error") else err) or d\<close>\<close>

definition dfs_error :: "dfs_answer \<Rightarrow> string \<Rightarrow> string" where
  "dfs_error a d = (case a of (rc, body, err) \<Rightarrow>
     or_str (Some (case body of None \<Rightarrow> err | Some b \<Rightarrow> or_str (b_error b) err)) d)"

definition first_ip :: "node list \<Rightarrow> string" where
  "first_ip ns = (case ns of [] \<Rightarrow> ''127.0.0.1'' | n # _ \<Rightarrow> n_ip n)"

section \<open>The task log\<close>

abbreviation task_component :: string where "task_component \<equiv> ''Rauru''"
abbreviation task_service :: string where "task_service \<equiv> ''rauru''"

definition task_sequence :: "'w env \<Rightarrow> ('w, event, int option) eff" where
  "task_sequence env = do {
     hint \<leftarrow> get_memo;
     claimed \<leftarrow> look (claim_task_sequence (q_lwt env) task_component
                        (case hint of None \<Rightarrow> Nothing | Some n \<Rightarrow> Num n) 6);
     (case claimed of None \<Rightarrow> ret () | Some n \<Rightarrow> set_memo (Some n));
     ret claimed }"

definition task_start :: "'w env \<Rightarrow> string \<Rightarrow> string \<Rightarrow> string \<Rightarrow> ('w, event, string option) eff" where
  "task_start env task_type action payload = do {
     tid \<leftarrow> look (q_uuid env);
     now \<leftarrow> now_ms env;
     sq \<leftarrow> task_sequence env;
     (rc, _) \<leftarrow> exec env (Task_Insert
        \<lparr>t_id = Some tid, t_service = Some task_service, t_action = Some action, t_payload = payload,
         t_component = Some task_component, t_type = Some task_type,
         t_sequence = (case sq of None \<Rightarrow> Nothing | Some n \<Rightarrow> Num n), t_parent = parent_task env,
         t_status = Some task_processing, t_progress = 0\<rparr> now);
     ret (if rc = 0 then Some tid else None) }"

definition task_finish :: "'w env \<Rightarrow> string option \<Rightarrow> string option \<Rightarrow> ('w, event, unit) eff" where
  "task_finish env tid err =
     (if \<not> truthy_str tid then ret ()
      else do {
        now \<leftarrow> now_ms env;
        _ \<leftarrow> exec env (Task_Update tid
                (Some (if truthy_str err then task_failed else task_completed)) 100 now err);
        ret () })"

section \<open>What each call leaves in the trace\<close>

lemma emits_rows_or_raise: "emits P m \<Longrightarrow> emits P (rows_or_raise m)"
  unfolding rows_or_raise_def by (auto intro!: emits_intros split: sum.split)

lemma emits_reads:
  assumes "P Read_Table"
  shows "emits P (policies env)" "emits P (index env v)"
  using assms by (auto simp: policies_def index_def intro!: emits_intros emits_rows_or_raise)

lemma emits_vdisks: "P Read_Table \<Longrightarrow> (\<And>rows. P (Saw_Vdisks rows)) \<Longrightarrow> emits P (vdisks env)"
  by (auto simp: vdisks_def vdisk_event_def intro!: emits_intros emits_rows_or_raise split: sum.split)

lemma emits_vm_named: "P Read_Table \<Longrightarrow> (\<And>rows. P (Saw_Vm n rows)) \<Longrightarrow> emits P (vm_named env n)"
  by (auto simp: vm_named_def vm_event_def intro!: emits_intros emits_rows_or_raise split: sum.split)

lemma emits_exec: "(\<And>rc. P (Exec s rc)) \<Longrightarrow> emits P (exec env s)"
  by (auto simp: exec_def intro!: emits_intros)

lemma emits_dfs: "(\<And>a. P (Dfs ip req a)) \<Longrightarrow> emits P (dfs env ip req)"
  by (auto simp: dfs_def intro!: emits_intros)

lemma emits_nodes: "emits P (nodes env)" "emits P (now_ms env)"
  by (auto simp: nodes_def now_ms_def intro!: emits_intros)

lemma emits_tasks:
  assumes "\<And>t now rc. P (Exec (Task_Insert t now) rc)"
    and "\<And>a b c d e rc. P (Exec (Task_Update a b c d e) rc)"
  shows "emits P (task_start env ty ac pl)" "emits P (task_finish env tid err)"
  using assms
  by (auto simp: task_start_def task_finish_def task_sequence_def
      intro!: emits_intros emits_exec emits_nodes split: prod.split)

lemmas emits_calls = emits_reads emits_vdisks emits_vm_named emits_exec emits_dfs emits_nodes emits_tasks

end
