(* ===== verification/Domain_Claims.thy ===== *)
theory Domain_Claims
  imports Cluster_Env
begin

text \<open>
  What ties a VM to its disks (\<open>vm_vdisk_ids\<close>) and the vdisks that enabled protection domains claim
  (\<open>claimed_vdisks\<close>), both of \<open>src/rauru_protection.py\<close>. They stand before the snapshot runner, which
  asks for the claims so as to leave those disks to their domain.
\<close>

abbreviation kind_vm :: string where "kind_vm \<equiv> ''vm''"
abbreviation kind_vdisk :: string where "kind_vdisk \<equiv> ''vdisk''"

definition disk_count :: "string option \<Rightarrow> nat" where
  "disk_count disks_list =
     (let disks = or_str disks_list [] in
      if disks \<noteq> [] \<and> disks \<notin> {''NONE'', ''None'', ''null''}
      then length (filter (\<lambda>d. strip d \<noteq> []) (split_on CHR '','' disks)) else 1)"

definition disk_id :: "string \<Rightarrow> nat \<Rightarrow> string" where
  "disk_id vm i = vm @ ''-disk'' @ show_nat i"

definition vm_vdisk_ids :: "vm_row \<Rightarrow> string list" where
  "vm_vdisk_ids r = map (disk_id (vm_name r)) [0..<max 1 (disk_count (vm_disks_list r))]"

text \<open>A read that fails gives no rows here, and raises nothing.\<close>

definition rows_or_none :: "('w \<Rightarrow> 'a answer \<times> 'w) \<Rightarrow> ('w, event, 'a list) eff" where
  "rows_or_none f = do {
     a \<leftarrow> act f (\<lambda>_. Read_Table);
     ret (case a of Inl _ \<Rightarrow> [] | Inr rows \<Rightarrow> rows) }"

definition claimed_vdisks :: "'w env \<Rightarrow> ('w, event, string set) eff" where
  "claimed_vdisks env = do {
     ds \<leftarrow> rows_or_none (q_domains env);
     let enabled = set (map d_name (filter (\<lambda>d. truthy (d_enabled d)) ds));
     if enabled = {} then ret {}
     else do {
       ms \<leftarrow> rows_or_none (q_members env);
       let mine = filter (\<lambda>m. mr_domain m \<in> enabled) ms;
       let claimed = set (map mr_name (filter (\<lambda>m. mr_kind m = kind_vdisk) mine));
       let names = set (map mr_name (filter (\<lambda>m. mr_kind m = kind_vm) mine));
       if names = {} then ret claimed
       else do {
         vs \<leftarrow> rows_or_none (q_vms env);
         ret (claimed \<union> set (concat (map vm_vdisk_ids (filter (\<lambda>v. vm_name v \<in> names) vs)))) } } }"

lemma emits_claimed: "P Read_Table \<Longrightarrow> emits P (claimed_vdisks env)"
  unfolding claimed_vdisks_def rows_or_none_def Let_def by (auto intro!: emits_intros)

lemma vm_vdisk_ids_nonempty: "vm_vdisk_ids r \<noteq> []"
  by (simp add: vm_vdisk_ids_def)

lemma disk_id_inject: "disk_id vm i = disk_id vm j \<longleftrightarrow> i = j"
  by (simp add: disk_id_def)

lemma distinct_vm_vdisk_ids: "distinct (vm_vdisk_ids r)"
  by (simp add: vm_vdisk_ids_def distinct_map inj_on_def disk_id_inject)

lemma disk_id_digits: "takeWhile is_digit (rev (disk_id vm i)) = rev (show_nat i)"
proof -
  have "\<not> is_digit CHR ''k''" by (simp add: is_digit_def)
  moreover have "takeWhile is_digit (rev (show_nat i)) = rev (show_nat i)"
    using show_nat_digits [of i] by (simp add: takeWhile_eq_all_conv)
  ultimately show ?thesis by (simp add: disk_id_def takeWhile_tail)
qed

lemma vm_for_disk_id: "vm \<noteq> [] \<Longrightarrow> CHR 0x0A \<notin> set vm \<Longrightarrow> vm_for_vdisk (disk_id vm i) = Some vm"
proof -
  assume vm: "vm \<noteq> []" "CHR 0x0A \<notin> set vm"
  have rest: "take (length (disk_id vm i) - length (rev (show_nat i))) (disk_id vm i) = vm @ ''-disk''"
    by (simp add: disk_id_def)
  show ?thesis
    unfolding vm_for_vdisk_def disk_id_digits Let_def rest
    using vm by (auto simp: ends_with_iff)
qed

text \<open>Distinct VMs share no disk ids.\<close>

lemma disk_id_vm_inject:
  assumes "disk_id a i = disk_id b j"
  shows "a = b \<and> i = j"
proof -
  have "rev (show_nat i) = rev (show_nat j)"
    using disk_id_digits [of a i] disk_id_digits [of b j] assms by simp
  then have "i = j" by simp
  with assms show ?thesis by (simp add: disk_id_def)
qed

end
