(* ===== verification/Snapshot_Runner.thy ===== *)
theory Snapshot_Runner
  imports Domain_Claims
begin

text \<open>
  One pass of the snapshot policy over the cluster, and rollback (\<open>Runner\<close> of
  \<open>src/helios_snapshots.py\<close>): what is read, in which order, which calls go to Sidon and to Hydra, and
  what a failed call leads to. The class's \<open>dry_run\<close> attribute is an argument.
\<close>

datatype reason =
    Because string | Policy_Problem policy_error | Not_Attached | Not_Seen "string list"
  | Spared_Because spared | Children_Of "string list" | No_Address string

record summary =
  taken :: "string list"
  pruned :: "string list"
  skipped :: "(string \<times> reason) list"
  spared_list :: "(string \<times> reason) list"
  failures :: "(string \<times> reason) list"

definition empty_summary :: summary where
  "empty_summary = \<lparr>taken = [], pruned = [], skipped = [], spared_list = [], failures = []\<rparr>"

definition summary_ok :: "summary \<Rightarrow> bool" where
  "summary_ok s = (failures s = [])"

section \<open>Reading\<close>

definition node_label :: "node \<Rightarrow> string" where
  "node_label n = or_str (n_hostname n) (n_ip n)"

definition place_of :: "node \<Rightarrow> attached_item \<Rightarrow> string" where
  "place_of n it = node_label n @ '' ('' @ at_role it @ '')''"

definition note_attached ::
    "node \<Rightarrow> attached_item list \<Rightarrow> (string \<times> string list) list \<Rightarrow> (string \<times> string list) list" where
  "note_attached n items whr = foldl (\<lambda>w it. dict_append (at_vdisk it) (place_of n it) w) whr items"

definition ask_node :: "'w env \<Rightarrow> node \<Rightarrow> (string \<times> string list) list \<times> string list \<Rightarrow>
    ('w, event, (string \<times> string list) list \<times> string list) eff" where
  "ask_node env n acc = do {
     (rc, body, err) \<leftarrow> dfs env (n_ip n) Dfs_List;
     ret (case body of
            None \<Rightarrow> (fst acc, snd acc @ [node_label n])
          | Some b \<Rightarrow>
              (case b_attached b of
                 None \<Rightarrow> (fst acc, snd acc @ [node_label n])
               | Some items \<Rightarrow>
                   if rc \<noteq> 0 then (fst acc, snd acc @ [node_label n])
                   else (note_attached n items (fst acc), snd acc))) }"

definition attached :: "'w env \<Rightarrow> ('w, event, (string \<times> string list) list \<times> string list) eff" where
  "attached env = do {
     ns \<leftarrow> nodes env;
     for_each (ask_node env) ns ([], []) }"

definition owner_of_places :: "string list \<Rightarrow> string option" where
  "owner_of_places places =
     (case filter (\<lambda>p. ends_with p ''(owner)'') places of
        [] \<Rightarrow> None
      | ps \<Rightarrow> Some (hd (split_on CHR '' '' (last ps))))"

definition owners_of :: "(string \<times> string list) list \<Rightarrow> string \<Rightarrow> string option" where
  "owners_of whr v = (case map_of whr v of None \<Rightarrow> None | Some places \<Rightarrow> owner_of_places places)"

definition ip_for_owner :: "'w env \<Rightarrow> string \<Rightarrow> ('w, event, string option) eff" where
  "ip_for_owner env host = do {
     ns \<leftarrow> nodes env;
     ret (map_option n_ip (List.find (\<lambda>n. n_hostname n = Some host) ns)) }"

section \<open>Taking\<close>

definition record_snapshot :: "'w env \<Rightarrow> string \<Rightarrow> string \<Rightarrow> string \<Rightarrow> int \<Rightarrow> ('w, event, unit) eff" where
  "record_snapshot env v snap origin now = do { _ \<leftarrow> exec env (Index_Insert v now snap origin); ret () }"

definition take_snapshot :: "'w env \<Rightarrow> bool \<Rightarrow> summary \<Rightarrow> vdisk_row \<Rightarrow> string \<Rightarrow> int \<Rightarrow>
    ('w, event, bool \<times> summary) eff" where
  "take_snapshot env dry sm v owner now =
     (case snapshot_name (v_id v) now of
        Inl e \<Rightarrow> ret (False, sm\<lparr>failures := failures sm @ [(v_id v, Policy_Problem e)]\<rparr>)
      | Inr child \<Rightarrow>
          if dry then ret (True, sm)
          else do {
            ip \<leftarrow> ip_for_owner env owner;
            task \<leftarrow> task_start env ''snapshot_policy'' ''snapshot''
                      (json_obj [(''vdisk_id'', json_str (v_id v)), (''snapshot_id'', json_str child)]);
            (case ip of
               None \<Rightarrow> do {
                 task_finish env task (Some (''snapshot of '' @ v_id v @ '' failed: no address for node ''
                                                  @ owner @ '' in cluster.json''));
                 ret (False, sm\<lparr>failures := failures sm @ [(v_id v, No_Address owner)]\<rparr>) }
             | Some addr \<Rightarrow> do {
                 a \<leftarrow> dfs env addr (Dfs_Snapshot (v_id v) child);
                 if fst a \<noteq> 0 then
                   (let error = dfs_error a ''snapshot refused'' in
                    if contains error ''already exists'' then do {
                      task_finish env task None;
                      ret (True, sm) }
                    else do {
                      task_finish env task (Some (''snapshot of '' @ v_id v @ '' failed: '' @ error));
                      ret (False, sm\<lparr>failures := failures sm @ [(v_id v, Because error)]\<rparr>) })
                 else do {
                   record_snapshot env (v_id v) child origin_policy now;
                   task_finish env task None;
                   ret (True, sm\<lparr>taken := taken sm @ [child]\<rparr>) } }) })"

section \<open>Pruning\<close>

definition children_now :: "'w env \<Rightarrow> string \<Rightarrow> ('w, event, exn + string list) eff" where
  "children_now env snap =
     bindE (vdisks env) (\<lambda>rows. okE (map v_id (filter (\<lambda>v. v_parent v = Some snap) rows)))"

definition created_ms :: "'w env \<Rightarrow> string \<Rightarrow> string \<Rightarrow> ('w, event, exn + int) eff" where
  "created_ms env v snap =
     bindE (index env v) (\<lambda>rows. okE (case List.find (\<lambda>r. ix_snapshot r = snap) rows of
        None \<Rightarrow> 0 | Some r \<Rightarrow> or_int (ix_created r) 0))"

definition exn_text :: "exn \<Rightarrow> string" where
  "exn_text x = (case x of Runtime_Error m \<Rightarrow> m | Group_Failed m \<Rightarrow> m | _ \<Rightarrow> [])"

text \<open>The body of the \<open>try\<close> of \<open>_prune\<close> after the second look: delete, then drop the index row.\<close>

definition prune_delete :: "'w env \<Rightarrow> string \<Rightarrow> string \<Rightarrow> ('w, event, exn + unit) eff" where
  "prune_delete env v snap = do {
     ns \<leftarrow> nodes env;
     a \<leftarrow> dfs env (first_ip ns) (Dfs_Delete snap);
     if fst a \<noteq> 0 then raiseE (Runtime_Error (dfs_error a ''delete refused''))
     else bindE (created_ms env v snap) (\<lambda>t.
       liftE (do { _ \<leftarrow> exec env (Index_Delete v t snap); ret () })) }"

text \<open>How \<open>_prune\<close> ends: the \<open>except\<close> branch, or the summary's new entry.\<close>

definition prune_close :: "'w env \<Rightarrow> string option \<Rightarrow> string \<Rightarrow> summary \<Rightarrow> exn + unit \<Rightarrow>
    ('w, event, summary) eff" where
  "prune_close env task snap sm r =
     (case r of
        Inl x \<Rightarrow> do {
          task_finish env task (Some (''pruning '' @ snap @ '' failed: '' @ exn_text x));
          ret (sm\<lparr>failures := failures sm @ [(snap, Because (exn_text x))]\<rparr>) }
      | Inr _ \<Rightarrow> do {
          task_finish env task None;
          ret (sm\<lparr>pruned := pruned sm @ [snap]\<rparr>) })"

definition prune_task :: "'w env \<Rightarrow> string \<Rightarrow> string \<Rightarrow> summary \<Rightarrow> ('w, event, summary) eff" where
  "prune_task env v snap sm = do {
     task \<leftarrow> task_start env ''snapshot_prune'' ''snapshot_prune''
               (json_obj [(''vdisk_id'', json_str v), (''snapshot_id'', json_str snap)]);
     r \<leftarrow> prune_delete env v snap;
     prune_close env task snap sm r }"

definition prune_snapshot :: "'w env \<Rightarrow> bool \<Rightarrow> string \<Rightarrow> string \<Rightarrow> summary \<Rightarrow> ('w, event, summary) eff" where
  "prune_snapshot env dry v snap sm =
     (if dry then ret sm
      else do {
        looked \<leftarrow> children_now env snap;
        case looked of
          Inl x \<Rightarrow> ret (sm\<lparr>failures := failures sm @ [(snap, Because (exn_text x))]\<rparr>)
        | Inr children \<Rightarrow>
            if children \<noteq> [] then
              ret (sm\<lparr>spared_list := spared_list sm @ [(snap, Children_Of children)]\<rparr>)
            else prune_task env v snap sm })"

section \<open>The run\<close>

definition newest_policy :: "index_row list \<Rightarrow> int option" where
  "newest_policy rows =
     (case map (\<lambda>r. or_int (ix_created r) 0) (filter by_policy rows) of
        [] \<Rightarrow> None | t # ts \<Rightarrow> Some (foldl max t ts))"

text \<open>The first half of \<open>_one_vdisk\<close>: take one if it is due. The flag is \<open>failed_here\<close>.\<close>

definition take_if_due :: "'w env \<Rightarrow> bool \<Rightarrow> summary \<Rightarrow> vdisk_row \<Rightarrow> policy \<Rightarrow> string option \<Rightarrow>
    string list \<Rightarrow> int option \<Rightarrow> int \<Rightarrow> ('w, event, bool \<times> summary) eff" where
  "take_if_due env dry sm v pol owner unreachable newest now =
     (if \<not> is_due (p_interval pol) newest now then ret (False, sm)
      else (case owner of
          None \<Rightarrow> ret (False, sm\<lparr>skipped := skipped sm @
                   [(v_id v, if unreachable = [] then Not_Attached else Not_Seen (sort unreachable))]\<rparr>)
        | Some o' \<Rightarrow> do {
            (ok, sm') \<leftarrow> take_snapshot env dry sm v o' now;
            ret (\<not> ok, sm') }))"

definition attached_map :: "(string \<times> string list) list \<Rightarrow> string \<Rightarrow> string option" where
  "attached_map whr v = map_option (join '', '') (map_of whr v)"

definition prune_all :: "'w env \<Rightarrow> bool \<Rightarrow> string \<Rightarrow> spared retention \<Rightarrow> summary \<Rightarrow> ('w, event, summary) eff" where
  "prune_all env dry v plan sm =
     for_each (prune_snapshot env dry v) (r_prune plan)
       (sm\<lparr>spared_list := spared_list sm
            @ map (\<lambda>(s, why). (s, Spared_Because why)) (sort_key fst (r_protected plan))\<rparr>)"

definition one_vdisk :: "'w env \<Rightarrow> bool \<Rightarrow> summary \<Rightarrow> vdisk_row \<Rightarrow> policy \<Rightarrow>
    (string \<times> string list) list \<Rightarrow> string list \<Rightarrow> string set \<Rightarrow> ('w, event, exn + summary) eff" where
  "one_vdisk env dry sm v pol whr unreachable referenced =
     bindE (index env (v_id v)) (\<lambda>ix.
     bindE (liftE (now_ms env)) (\<lambda>now.
     bindE (liftE (take_if_due env dry sm v pol (owners_of whr (v_id v)) unreachable (newest_policy ix) now))
       (\<lambda>(failed_here, sm1).
        if failed_here then okE sm1
        else if unreachable \<noteq> [] then okE sm1
        else bindE (index env (v_id v)) (\<lambda>ix'.
          liftE (prune_all env dry (v_id v)
            (plan_retention referenced (attached_map whr) ix' (or_int (p_keep_last pol) 1)) sm1)))))"

definition referenced_of :: "vdisk_row list \<Rightarrow> string set" where
  "referenced_of vs = set (map (\<lambda>v. or_str (v_parent v) []) (filter (\<lambda>v. truthy_str (v_parent v)) vs))"

definition governed_vdisk :: "policy list \<Rightarrow> string set \<Rightarrow> vdisk_row \<Rightarrow> policy option" where
  "governed_vdisk ps claimed v =
     (if or_str (v_class v) ''rw'' \<noteq> ''rw'' then None
      else case effective_policy ps (v_id v) (v_container v) of
             None \<Rightarrow> None
           | Some p \<Rightarrow> if v_id v \<in> claimed then None else Some p)"

definition run :: "'w env \<Rightarrow> bool \<Rightarrow> ('w, event, exn + summary) eff" where
  "run env dry =
     bindE (policies env) (\<lambda>ps.
      if \<not> list_ex (\<lambda>p. truthy (p_enabled p)) ps then okE empty_summary
      else
        bindE (vdisks env) (\<lambda>vs.
        bindE (liftE (claimed_vdisks env)) (\<lambda>claimed.
        bindE (liftE (attached env)) (\<lambda>(whr, unreachable).
          for_eachE (\<lambda>v sm.
              case governed_vdisk ps claimed v of
                None \<Rightarrow> okE sm
              | Some p \<Rightarrow> one_vdisk env dry sm v p whr unreachable (referenced_of vs))
            (sort_key v_id vs) empty_summary))))"

section \<open>Rollback\<close>

text \<open>
  Several rows of one vdisk id would collapse to the last; \<open>hydra.vms\<close> is asked for the VM only
  when the vdisk's name yields one that is a valid name.
\<close>

definition vm_of_vdisk :: "'w env \<Rightarrow> string \<Rightarrow> ('w, event, exn + vm_row option) eff" where
  "vm_of_vdisk env v =
     (case vm_for_vdisk v of
        None \<Rightarrow> okE None
      | Some n \<Rightarrow>
          if name_re n then bindE (vm_named env n) (\<lambda>found. okE (case found of [] \<Rightarrow> None | r # _ \<Rightarrow> Some r))
          else okE None)"

definition check_rollback :: "'w env \<Rightarrow> string \<Rightarrow> string \<Rightarrow> ('w, event, exn + (string \<Rightarrow> vdisk_row option)) eff" where
  "check_rollback env v snap =
     bindE (vdisks env) (\<lambda>vs.
       let rows = dict_of v_id vs in
       bindE (vm_of_vdisk env v) (\<lambda>vm.
       bindE (liftE (attached env)) (\<lambda>(whr, unreachable).
         case rollback_refusal v snap (rows v) (rows snap) vm
                (case map_of whr v of None \<Rightarrow> [] | Some ps \<Rightarrow> ps) unreachable of
           Some r \<Rightarrow> raiseE (Rollback_Refused r)
         | None \<Rightarrow> okE rows)))"

definition rollback_ip :: "'w env \<Rightarrow> vdisk_row option \<Rightarrow> ('w, event, string) eff" where
  "rollback_ip env row = do {
     let owner = strip (case row of None \<Rightarrow> [] | Some r \<Rightarrow> or_str (v_owner r) []);
     found \<leftarrow> (if owner = [] then ret None else ip_for_owner env owner);
     case found of
       Some ip \<Rightarrow> ret ip
     | None \<Rightarrow> do { ns \<leftarrow> nodes env; ret (first_ip ns) } }"

text \<open>The second half of \<open>rollback\<close>: the request to Sidon and what its answer leads to.\<close>

definition rollback_send :: "'w env \<Rightarrow> string \<Rightarrow> string \<Rightarrow> int \<Rightarrow> string option \<Rightarrow> string \<Rightarrow> string option \<Rightarrow>
    ('w, event, exn + dfs_body option) eff" where
  "rollback_send env v snap now keep_as ip task =
     bindE (liftE (dfs env ip (Dfs_Rollback v snap keep_as))) (\<lambda>a.
       if fst a \<noteq> 0 then
         bindE (liftE (task_finish env task (Some (''rollback of '' @ v @ '' to '' @ snap @ '' failed: ''
                   @ dfs_error a ''rollback refused'')))) (\<lambda>_.
           raiseE (Runtime_Error (dfs_error a ''rollback refused'')))
       else (case (keep_as, fst (snd a)) of
           (Some k, None) \<Rightarrow> raiseE Attribute_Error
         | (Some k, Some b) \<Rightarrow>
             bindE (liftE (if truthy_str (b_kept_as b) then record_snapshot env v k origin_pre_rollback now
                           else ret ())) (\<lambda>_.
             bindE (liftE (task_finish env task None)) (\<lambda>_. okE (Some b)))
         | (None, b) \<Rightarrow> bindE (liftE (task_finish env task None)) (\<lambda>_. okE b)))"

definition rollback :: "'w env \<Rightarrow> string \<Rightarrow> string \<Rightarrow> bool \<Rightarrow> ('w, event, exn + dfs_body option) eff" where
  "rollback env v snap keep =
     bindE (check_rollback env v snap) (\<lambda>rows.
     bindE (liftE (now_ms env)) (\<lambda>now.
     bindE (ret (if keep then map_sum Policy_Exn Some (pre_rollback_name v now) else Inr None)) (\<lambda>keep_as.
     bindE (liftE (rollback_ip env (rows v))) (\<lambda>ip.
     bindE (liftE (task_start env ''snapshot_rollback'' ''snapshot_rollback''
         (json_obj [(''vdisk_id'', json_str v), (''snapshot_id'', json_str snap), (''keep_as'', json_opt keep_as)]))) (\<lambda>task.
       rollback_send env v snap now keep_as ip task)))))"

section \<open>What a run does to the cluster\<close>

text \<open>The classes of events the guarantees are about.\<close>

definition is_delete :: "event \<Rightarrow> bool" where
  "is_delete e = (case e of Dfs _ (Dfs_Delete _) _ \<Rightarrow> True | _ \<Rightarrow> False)"

definition usable :: "dfs_answer \<Rightarrow> attached_item list option" where
  "usable a = (case a of (rc, body, err) \<Rightarrow>
     (case body of None \<Rightarrow> None | Some b \<Rightarrow> if rc \<noteq> 0 then None else b_attached b))"

text \<open>A node asked what it serves has answered.\<close>

definition answered :: "event \<Rightarrow> bool" where
  "answered e = (case e of Dfs _ Dfs_List a \<Rightarrow> usable a \<noteq> None | _ \<Rightarrow> True)"

definition mutates :: "event \<Rightarrow> bool" where
  "mutates e = (case e of
       Exec _ _ \<Rightarrow> True | Dfs _ req _ \<Rightarrow> req \<noteq> Dfs_List | Power _ _ _ _ \<Rightarrow> True | _ \<Rightarrow> False)"

text \<open>
  Reads a trace from the left, remembering the last full read of the vdisks while nothing but the
  opening of a task row has happened since: every delete must come with such a read at hand, one that
  shows no vdisk derived from what is deleted.
\<close>

fun second_look :: "vdisk_row list option \<Rightarrow> event list \<Rightarrow> bool" where
  "second_look l [] = True"
| "second_look l (Saw_Vdisks rows # es) = second_look (Some rows) es"
| "second_look l (Exec (Task_Insert t n) rc # es) = second_look l es"
| "second_look l (Dfs ip (Dfs_Delete s) a # es) =
     ((case l of None \<Rightarrow> False | Some rows \<Rightarrow> list_all (\<lambda>v. v_parent v \<noteq> Some s) rows) \<and> second_look None es)"
| "second_look l (e # es) = second_look None es"

lemma second_look_mono: "second_look None es \<Longrightarrow> second_look l es"
  by (induction l es rule: second_look.induct) auto

lemma second_look_append: "second_look l xs \<Longrightarrow> second_look None ys \<Longrightarrow> second_look l (xs @ ys)"
  by (induction l xs rule: second_look.induct) (auto intro: second_look_mono)

lemma second_look_no_delete: "list_all (\<lambda>e. \<not> is_delete e) es \<Longrightarrow> second_look l es"
  by (induction l es rule: second_look.induct) (auto simp: is_delete_def)

lemma second_look_append_quiet:
  "second_look l xs \<Longrightarrow> list_all (\<lambda>e. \<not> is_delete e) ys \<Longrightarrow> second_look l (xs @ ys)"
  by (rule second_look_append) (auto intro: second_look_no_delete)

lemma yields_second_look:
  "emits (\<lambda>e. \<not> is_delete e) m \<Longrightarrow> yields m (\<lambda>_. second_look None)"
  by (erule yields_mono) (rule second_look_no_delete)

section \<open>Lemmas: the events of each operation\<close>

text \<open>Each operation's events, by class: what holds of a class holds of the operation.\<close>

lemma emits_attached: "(\<And>ip a. P (Dfs ip Dfs_List a)) \<Longrightarrow> emits P (attached env)"
  unfolding attached_def ask_node_def by (auto intro!: emits_intros emits_calls)

lemma emits_ip_for_owner: "emits P (ip_for_owner env h)"
  unfolding ip_for_owner_def by (auto intro!: emits_intros emits_calls)

lemma emits_record: "(\<And>st rc. P (Exec st rc)) \<Longrightarrow> emits P (record_snapshot env v s og t)"
  unfolding record_snapshot_def by (auto intro!: emits_intros emits_calls)

lemma emits_take_snapshot:
  assumes "\<And>st rc. \<not> dry \<Longrightarrow> P (Exec st rc)" and "\<And>ip a b c. \<not> dry \<Longrightarrow> P (Dfs ip (Dfs_Snapshot a b) c)"
  shows "emits P (take_snapshot env dry sm v owner now)"
  using assms unfolding take_snapshot_def Let_def
  by (auto intro!: emits_intros emits_calls emits_ip_for_owner emits_record)

lemma emits_take_if_due:
  assumes "\<And>st rc. \<not> dry \<Longrightarrow> P (Exec st rc)" and "\<And>ip a b c. \<not> dry \<Longrightarrow> P (Dfs ip (Dfs_Snapshot a b) c)"
  shows "emits P (take_if_due env dry sm v pol owner unr newest now)"
  using assms unfolding take_if_due_def by (auto intro!: emits_intros emits_take_snapshot)

lemma emits_children_now: "P Read_Table \<Longrightarrow> (\<And>rows. P (Saw_Vdisks rows)) \<Longrightarrow> emits P (children_now env s)"
  unfolding children_now_def by (auto intro!: emits_intros emits_calls)

lemma emits_created_ms: "P Read_Table \<Longrightarrow> emits P (created_ms env v s)"
  unfolding created_ms_def by (auto intro!: emits_intros emits_calls)

lemma emits_prune_close: "(\<And>st rc. P (Exec st rc)) \<Longrightarrow> emits P (prune_close env task snap sm r)"
  unfolding prune_close_def by (auto intro!: emits_intros emits_calls)

lemma emits_prune_snapshot:
  assumes "\<not> dry \<Longrightarrow> P Read_Table" and "\<And>rows. \<not> dry \<Longrightarrow> P (Saw_Vdisks rows)"
    and "\<And>st rc. \<not> dry \<Longrightarrow> P (Exec st rc)" and "\<And>ip s a. \<not> dry \<Longrightarrow> P (Dfs ip (Dfs_Delete s) a)"
  shows "emits P (prune_snapshot env dry v s sm)"
  using assms unfolding prune_snapshot_def prune_task_def prune_delete_def
  by (auto intro!: emits_intros emits_calls emits_children_now emits_created_ms emits_prune_close)

lemma emits_one_vdisk:
  assumes "P Read_Table" and "\<And>rows. P (Saw_Vdisks rows)"
    and "\<And>st rc. \<not> dry \<Longrightarrow> P (Exec st rc)" and "\<And>ip a b c. \<not> dry \<Longrightarrow> P (Dfs ip (Dfs_Snapshot a b) c)"
    and "\<And>ip s a. \<not> dry \<Longrightarrow> unr = [] \<Longrightarrow> P (Dfs ip (Dfs_Delete s) a)"
  shows "emits P (one_vdisk env dry sm v pol whr unr ref)"
  using assms unfolding one_vdisk_def prune_all_def
  by (auto intro!: emits_intros emits_calls emits_take_if_due emits_prune_snapshot)

lemma emits_run:
  assumes "P Read_Table" and "\<And>rows. P (Saw_Vdisks rows)" and "\<And>ip a. P (Dfs ip Dfs_List a)"
    and "\<And>st rc. \<not> dry \<Longrightarrow> P (Exec st rc)" and "\<And>ip a b c. \<not> dry \<Longrightarrow> P (Dfs ip (Dfs_Snapshot a b) c)"
    and "\<And>ip s a. \<not> dry \<Longrightarrow> P (Dfs ip (Dfs_Delete s) a)"
  shows "emits P (run env dry)"
  using assms unfolding run_def
  by (auto intro!: emits_intros emits_calls emits_claimed emits_attached emits_one_vdisk)

lemmas emits_ops = emits_attached emits_ip_for_owner emits_record emits_take_snapshot emits_take_if_due
  emits_children_now emits_created_ms emits_prune_close emits_prune_snapshot emits_one_vdisk

section \<open>Lemmas: the second look\<close>

definition is_task_insert :: "event \<Rightarrow> bool" where
  "is_task_insert e = (case e of Exec (Task_Insert _ _) _ \<Rightarrow> True | _ \<Rightarrow> False)"

lemma second_look_skip: "list_all is_task_insert xs \<Longrightarrow> second_look l (xs @ ys) = second_look l ys"
proof (induction xs)
  case (Cons e xs)
  then obtain t n rc where "e = Exec (Task_Insert t n) rc"
    by (auto simp: is_task_insert_def split: event.splits stmt.splits)
  with Cons show ?case by simp
qed simp

lemma task_start_events: "emits is_task_insert (task_start env ty ac pl)"
  unfolding task_start_def task_sequence_def exec_def now_ms_def
  by (auto intro!: emits_intros simp: is_task_insert_def)

lemma children_now_events:
  "yields (children_now env snap) (\<lambda>r es.
     (\<exists>rows. es = [Saw_Vdisks rows] \<and> r = Inr (map v_id (filter (\<lambda>v. v_parent v = Some snap) rows)))
     \<or> (es = [Read_Table] \<and> (\<exists>x. r = Inl x)))"
  unfolding children_now_def vdisks_def rows_or_raise_def vdisk_event_def
  by (auto intro!: yields_intros split: sum.split)

lemma prune_delete_events:
  "yields (prune_delete env v snap) (\<lambda>_ es.
     \<exists>ip a rest. es = Dfs ip (Dfs_Delete snap) a # rest \<and> list_all (\<lambda>e. \<not> is_delete e) rest)"
proof -
  have nd: "emits (\<lambda>e. \<not> is_delete e) (bindE (created_ms env v snap) (\<lambda>t.
       liftE (do { _ \<leftarrow> exec env (Index_Delete v t snap); ret () })))"
    by (auto intro!: emits_intros emits_calls emits_created_ms simp: is_delete_def)
  show ?thesis
    unfolding prune_delete_def dfs_def nodes_def
    by (auto intro!: yields_intros yields_mono [OF nd] simp: is_delete_def)
qed

lemma nd_prune_close: "emits (\<lambda>e. \<not> is_delete e) (prune_close env task snap sm r)"
  by (rule emits_prune_close) (simp add: is_delete_def)

lemma prune_task_second_look:
  assumes "filter (\<lambda>v. v_parent v = Some snap) rows = []"
  shows "yields (prune_task env v snap sm) (\<lambda>_ es. second_look (Some rows) es)"
proof -
  have "yields (State_Monad.bind (prune_delete env v snap) (prune_close env task snap sm))
      (\<lambda>_ es. second_look (Some rows) es)" for task
  proof (rule yields_bind, rule yields_mono [OF prune_delete_events])
    fix r es
    assume "\<exists>ip a rest. es = Dfs ip (Dfs_Delete snap) a # rest \<and> list_all (\<lambda>e. \<not> is_delete e) rest"
    then obtain ip a rest where es: "es = Dfs ip (Dfs_Delete snap) a # rest"
      and nd: "list_all (\<lambda>e. \<not> is_delete e) rest" by blast
    from nd have "second_look None rest" by (rule second_look_no_delete)
    with assms have "second_look (Some rows) es" by (simp add: es list_all_iff filter_empty_conv)
    then show "yields (prune_close env task snap sm r) (\<lambda>_ es'. second_look (Some rows) (es @ es'))"
      by (rule yields_mono [OF nd_prune_close second_look_append_quiet])
  qed
  then show ?thesis
    unfolding prune_task_def
    by (intro yields_bind [of "task_start env _ _ _"] yields_mono [OF task_start_events]) (simp add: second_look_skip)
qed

lemma prune_snapshot_second_look: "yields (prune_snapshot env dry v snap sm) (\<lambda>_ es. second_look None es)"
  unfolding prune_snapshot_def
  by (auto intro!: yields_if yields_ret yields_bind yields_mono [OF children_now_events] prune_task_second_look
      simp: filter_empty_conv split: sum.split)

interpretation looks: trace_property "second_look None"
  by unfold_locales (auto intro: second_look_append)

lemma one_vdisk_second_look: "yields (one_vdisk env dry sm v pol whr unr ref) (\<lambda>_. second_look None)"
  unfolding one_vdisk_def prune_all_def
  by (intro looks.rules prune_snapshot_second_look yields_second_look [OF emits_take_if_due]
      yields_second_look [OF emits_nodes(2)] yields_second_look [OF emits_reads(2)]) (simp_all add: is_delete_def)

text \<open>
  C38. Whatever the database and the nodes answer, every delete that a pass of the snapshot policy sends
  follows a read of all vdisks with nothing but the opening of its task row in between, and in that
  read no vdisk is derived from the snapshot that is deleted.
\<close>

theorem run_looks_twice: "yields (run env dry) (\<lambda>_ es. second_look None es)"
  unfolding run_def
  by (intro looks.rules one_vdisk_second_look yields_second_look [OF emits_reads(1)]
      yields_second_look [OF emits_vdisks] yields_second_look [OF emits_claimed]
      yields_second_look [OF emits_attached]) (simp_all add: is_delete_def)

text \<open>
  A dry run changes nothing: it sends no statement that writes, no request to Sidon but the question
  what is attached, and no power operation.
\<close>

theorem dry_run_changes_nothing: "emits (\<lambda>e. \<not> mutates e) (run env True)"
  by (rule emits_run) (simp_all add: mutates_def)

section \<open>What the nodes say\<close>

text \<open>An answer of some node lists \<open>v\<close> among the vdisks it serves.\<close>

definition served :: "string \<Rightarrow> event \<Rightarrow> bool" where
  "served v e = (case e of
       Dfs _ Dfs_List a \<Rightarrow> (case usable a of None \<Rightarrow> False | Some items \<Rightarrow> list_ex (\<lambda>it. at_vdisk it = v) items)
     | _ \<Rightarrow> False)"

definition places :: "(string \<times> string list) list \<Rightarrow> string \<Rightarrow> string list" where
  "places whr v = (case map_of whr v of None \<Rightarrow> [] | Some ps \<Rightarrow> ps)"

lemma places_dict_append: "places (dict_append k p whr) v = (if v = k then places whr v @ [p] else places whr v)"
  by (auto simp: places_def map_of_dict_append split: option.splits)

lemma places_note_attached:
  "places (note_attached n items whr) v = [] \<longleftrightarrow>
     places whr v = [] \<and> \<not> list_ex (\<lambda>it. at_vdisk it = v) items"
proof -
  have "places (foldl (\<lambda>w it. dict_append (at_vdisk it) (place_of n it) w) whr items) v = [] \<longleftrightarrow>
     places whr v = [] \<and> \<not> list_ex (\<lambda>it. at_vdisk it = v) items"
    by (induction items arbitrary: whr) (auto simp: places_dict_append)
  then show ?thesis by (simp add: note_attached_def)
qed

lemma listing_simps [simp]:
  "answered (Dfs ip Dfs_List a) \<longleftrightarrow> usable a \<noteq> None"
  "served v (Dfs ip Dfs_List a) \<longleftrightarrow> list_ex (\<lambda>it. at_vdisk it = v) (case usable a of None \<Rightarrow> [] | Some items \<Rightarrow> items)"
  by (simp_all add: answered_def served_def split: option.split)

lemma ask_node_usable:
  "ask_node env n acc = State_Monad.bind (dfs env (n_ip n) Dfs_List) (\<lambda>a.
     ret (case usable a of
            None \<Rightarrow> (fst acc, snd acc @ [node_label n])
          | Some items \<Rightarrow> (note_attached n items (fst acc), snd acc)))"
  unfolding ask_node_def
  by (rule arg_cong [where f = "State_Monad.bind (dfs env (n_ip n) Dfs_List)"])
     (auto simp: usable_def fun_eq_iff split: option.splits)

lemma attached_events:
  "yields (attached env) (\<lambda>acc es. (snd acc = [] \<longleftrightarrow> list_all answered es)
      \<and> (\<forall>v. places (fst acc) v = [] \<longleftrightarrow> list_all (\<lambda>e. \<not> served v e) es))"
proof -
  let ?I = "\<lambda>acc es. (snd acc = [] \<longleftrightarrow> list_all answered es)
      \<and> (\<forall>v. places (fst acc) v = [] \<longleftrightarrow> list_all (\<lambda>e. \<not> served v e) es)"
  have step: "yields (ask_node env n acc) (\<lambda>acc' es'. ?I acc' (es @ es'))" if "?I acc es" for n acc es
    unfolding ask_node_usable dfs_def
    by (intro yields_bind yields_act yields_ret)
       (use that in \<open>auto simp: places_note_attached split: option.split\<close>)
  have "yields (for_each (ask_node env) ns ([], [])) (\<lambda>acc es. ?I acc ([] @ es))" for ns
    by (rule yields_for_each) (use step in \<open>auto simp: places_def\<close>)
  then show ?thesis
    unfolding attached_def nodes_def by (intro yields_bind yields_look) simp
qed

lemma nd_answered_one_vdisk:
  "unr = [] \<Longrightarrow> emits answered (one_vdisk env dry sm v pol whr unr ref)"
  "unr \<noteq> [] \<Longrightarrow> emits (\<lambda>e. \<not> is_delete e) (one_vdisk env dry sm v pol whr unr ref)"
  by (intro emits_one_vdisk; simp add: answered_def is_delete_def)+

text \<open>
  A pass of the snapshot policy either deletes nothing, or every node it asked said what it serves:
  one node that does not answer is enough to stop all pruning.
\<close>

theorem silent_node_stops_pruning:
  "yields (run env dry) (\<lambda>_ es. list_all (\<lambda>e. \<not> is_delete e) es \<or> list_all answered es)"
proof -
  let ?calm = "\<lambda>e. \<not> is_delete e \<and> answered e"
  let ?Q = "\<lambda>(_ :: exn + summary) es. list_all (\<lambda>e. \<not> is_delete e) es \<or> list_all answered es"
  have prefix: "yields (bindE m f) ?Q"
    if "emits ?calm m" "\<And>a. yields (f a) ?Q" for m :: "('a, event, exn + 'b) eff" and f
    by (rule yields_bindE, rule yields_mono [OF that(1)])
       (auto split: sum.split simp: list_all_iff intro!: yields_mono [OF that(2)])
  have loop: "emits P (for_eachE (\<lambda>v sm. case governed_vdisk ps claimed v of None \<Rightarrow> okE sm
        | Some p \<Rightarrow> one_vdisk env dry sm v p whr unr ref) vs sm)"
    if "\<And>sm v p. emits P (one_vdisk env dry sm v p whr unr ref)" for P ps claimed whr unr ref vs sm
    by (intro emits_intros that)
  have att: "yields (attached env) (\<lambda>acc es. list_all (\<lambda>e. \<not> is_delete e) es \<and> (snd acc = [] \<longrightarrow> list_all answered es))"
    by (rule yields_mono [OF yields_conj [OF emits_attached [of "\<lambda>e. \<not> is_delete e"] attached_events]])
       (auto simp: is_delete_def)
  have body: "yields (bindE (liftE (attached env)) (\<lambda>(whr, unr). for_eachE (\<lambda>v sm.
        case governed_vdisk ps claimed v of None \<Rightarrow> okE sm
        | Some p \<Rightarrow> one_vdisk env dry sm v p whr unr ref) vs sm)) ?Q" for ps claimed ref vs sm
  proof (rule yields_bindE, rule yields_liftE, rule yields_mono [OF att], goal_cases)
    case (1 acc es)
    obtain whr unr where acc: "acc = (whr, unr)" by (cases acc)
    show ?case
      by (cases "unr = []") (use 1 in \<open>auto simp: acc intro!: yields_mono [OF loop] nd_answered_one_vdisk\<close>)
  qed
  show ?thesis
    unfolding run_def
    by (intro prefix yields_if yields_ret body all_events.of_liftE emits_calls emits_claimed)
       (simp_all add: is_delete_def answered_def)
qed

section \<open>The summary tells what happened\<close>

definition made1 :: "event \<Rightarrow> string list" where
  "made1 e = (case e of Dfs _ (Dfs_Snapshot _ c) a \<Rightarrow> if fst a = 0 then [c] else [] | _ \<Rightarrow> [])"

definition made :: "event list \<Rightarrow> string list" where
  "made es = concat (map made1 es)"

definition deleted1 :: "event \<Rightarrow> string list" where
  "deleted1 e = (case e of Dfs _ (Dfs_Delete s) a \<Rightarrow> if fst a = 0 then [s] else [] | _ \<Rightarrow> [])"

definition deleted :: "event list \<Rightarrow> string list" where
  "deleted es = concat (map deleted1 es)"

definition failed_ids :: "summary \<Rightarrow> string set" where
  "failed_ids sm = fst ` set (failures sm)"

text \<open>What a stretch of events adds to a summary.\<close>

definition tells :: "summary \<Rightarrow> event list \<Rightarrow> summary \<Rightarrow> bool" where
  "tells sm es sm' \<longleftrightarrow> taken sm' = taken sm @ made es
     \<and> set (pruned sm) \<subseteq> set (pruned sm') \<and> failed_ids sm \<subseteq> failed_ids sm'
     \<and> set (pruned sm') \<subseteq> set (pruned sm) \<union> set (deleted es)
     \<and> set (deleted es) \<subseteq> set (pruned sm') \<union> failed_ids sm'"

abbreviation silent :: "event \<Rightarrow> bool" where
  "silent e \<equiv> made1 e = [] \<and> deleted1 e = []"

lemma silent_events: "list_all silent es \<Longrightarrow> made es = [] \<and> deleted es = []"
  by (auto simp: made_def deleted_def list_all_iff)

lemma silent_calls:
  "silent Read_Table" "silent (Saw_Vdisks rows)" "silent (Exec st rc)" "silent (Dfs ip Dfs_List a)"
  by (simp_all add: made1_def deleted1_def)

lemma made_append [simp]: "made (xs @ ys) = made xs @ made ys" "deleted (xs @ ys) = deleted xs @ deleted ys"
  by (simp_all add: made_def deleted_def)

lemma made_Cons: "made (x # ys) = made1 x @ made ys" "deleted (x # ys) = deleted1 x @ deleted ys"
  by (simp_all add: made_def deleted_def)

lemma tells_refl: "list_all silent es \<Longrightarrow> tells sm es sm"
  by (simp add: tells_def silent_events)

lemma tells_trans: "tells a xs b \<Longrightarrow> tells b ys c \<Longrightarrow> tells a (xs @ ys) c"
  unfolding tells_def by auto

definition no_news :: "'a \<Rightarrow> event list \<Rightarrow> bool" where
  "no_news _ es \<longleftrightarrow> made es = [] \<and> deleted es = []"

lemma no_newsI: "emits silent m \<Longrightarrow> yields m no_news"
  by (erule yields_mono) (simp add: no_news_def silent_events)

lemma no_news_calls:
  "yields (ip_for_owner env h) no_news" "yields (task_start env ty ac pl) no_news"
  "yields (task_finish env t er) no_news" "yields (record_snapshot env w c og n) no_news"
  "yields (index env w) no_news" "yields (children_now env w) no_news" "yields (exec env st) no_news"
  "yields (created_ms env w c) no_news" "yields (policies env) no_news" "yields (vdisks env) no_news"
  "yields (claimed_vdisks env) no_news" "yields (attached env) no_news"
  by (auto intro!: no_newsI emits_calls emits_claimed emits_ops simp: silent_calls)

lemmas quiet_calls = no_news_calls [THEN yields_mono]

lemmas news_simps = tells_def no_news_def made_Cons made1_def deleted1_def failed_ids_def made_def [of "[]"] deleted_def [of "[]"]

lemma take_snapshot_tells:
  "yields (take_snapshot env dry sm v owner now) (\<lambda>r es. tells sm es (snd r))"
  unfolding take_snapshot_def Let_def dfs_def
  by (intro yields_if yields_case_sum yields_case_option yields_ret yields_bind yields_act quiet_calls)
     (auto simp: news_simps)

lemma take_if_due_tells:
  "yields (take_if_due env dry sm v pol owner unr newest now) (\<lambda>r es. tells sm es (snd r))"
  unfolding take_if_due_def
  by (intro yields_if yields_case_option yields_case_prod yields_ret yields_bind
      yields_mono [OF take_snapshot_tells]) (auto simp: news_simps)

lemma prune_snapshot_tells: "yields (prune_snapshot env dry v snap sm) (\<lambda>sm' es. tells sm es sm')"
  unfolding prune_snapshot_def prune_task_def prune_delete_def prune_close_def dfs_def nodes_def bindE_def liftE_def
  by (intro yields_if yields_case_sum yields_case_option yields_ret yields_bind yields_act yields_look quiet_calls)
     (auto simp: news_simps)

lemma prune_all_tells: "yields (prune_all env dry v plan sm) (\<lambda>sm' es. tells sm es sm')"
proof -
  let ?sm = "sm\<lparr>spared_list := spared_list sm @ map (\<lambda>(s, why). (s, Spared_Because why)) (sort_key fst (r_protected plan))\<rparr>"
  have "yields (for_each (prune_snapshot env dry v) (r_prune plan) ?sm) (\<lambda>sm' es. tells sm ([] @ es) sm')"
    by (rule yields_for_each) (auto intro: yields_mono [OF prune_snapshot_tells tells_trans], simp add: news_simps)
  then show ?thesis by (simp add: prune_all_def)
qed

lemma one_vdisk_tells:
  "yields (one_vdisk env dry sm v pol whr unr ref) (\<lambda>r es. case r of Inl _ \<Rightarrow> True | Inr sm' \<Rightarrow> tells sm es sm')"
  unfolding one_vdisk_def bindE_def liftE_def now_ms_def
  by (intro yields_if yields_case_sum yields_case_prod yields_ret yields_bind yields_look quiet_calls
      yields_mono [OF take_if_due_tells] yields_mono [OF prune_all_tells])
     (auto simp: no_news_def tells_def)

text \<open>
  The summary of a pass is true: the snapshots it lists as taken are exactly those Sidon acknowledged,
  in order; every one it lists as pruned is one whose delete Sidon acknowledged; and every delete Sidon
  acknowledged is listed, as pruned or as a failure.
\<close>

theorem run_summary_is_true:
  "yields (run env dry) (\<lambda>r es. case r of Inl _ \<Rightarrow> True
     | Inr sm \<Rightarrow> taken sm = made es \<and> set (pruned sm) \<subseteq> set (deleted es)
               \<and> set (deleted es) \<subseteq> set (pruned sm) \<union> failed_ids sm)"
proof -
  have tells_empty: "tells empty_summary es sm \<Longrightarrow> taken sm = made es \<and> set (pruned sm) \<subseteq> set (deleted es)
               \<and> set (deleted es) \<subseteq> set (pruned sm) \<union> failed_ids sm" for es sm
    by (simp add: tells_def empty_summary_def)
  have loop: "yields (for_eachE (\<lambda>v sm. case governed_vdisk ps claimed v of None \<Rightarrow> okE sm
        | Some p \<Rightarrow> one_vdisk env dry sm v p whr unr ref) vs empty_summary)
      (\<lambda>r es. case r of Inl _ \<Rightarrow> True | Inr sm \<Rightarrow> tells empty_summary ([] @ es) sm)"
    for ps claimed whr unr ref vs
    by (rule yields_for_eachE [where I = "\<lambda>sm es. tells empty_summary es sm" and J = "\<lambda>_ _. True"];
        auto intro!: yields_case_option yields_ret yields_mono [OF one_vdisk_tells] tells_refl
        elim: tells_trans split: sum.splits)
  show ?thesis
    unfolding run_def bindE_def liftE_def
    by (intro yields_if yields_case_sum yields_case_prod yields_ret yields_bind quiet_calls yields_mono [OF loop])
       (auto simp: no_news_def news_simps empty_summary_def dest: tells_empty split: sum.splits)
qed

section \<open>When a rollback is sent\<close>

definition is_rollback :: "event \<Rightarrow> bool" where
  "is_rollback e = (case e of Dfs _ (Dfs_Rollback _ _ _) _ \<Rightarrow> True | _ \<Rightarrow> False)"

definition lineage :: "string \<Rightarrow> string \<Rightarrow> event \<Rightarrow> bool" where
  "lineage v snap e = (case e of
       Saw_Vdisks rows \<Rightarrow> dict_of v_id rows v \<noteq> None
         \<and> (case dict_of v_id rows snap of None \<Rightarrow> False | Some r \<Rightarrow> or_str (v_parent r) [] = v)
     | _ \<Rightarrow> False)"

definition idle :: "vm_row \<Rightarrow> bool" where
  "idle m \<longleftrightarrow> lower (strip (or_str (vm_state m) [])) = ''stopped'' \<and> strip (or_str (vm_status m) []) = []"

definition vm_idle :: "string \<Rightarrow> event list \<Rightarrow> bool" where
  "vm_idle v es = (case vm_for_vdisk v of
       None \<Rightarrow> True
     | Some n \<Rightarrow> \<not> name_re n \<or> list_ex (\<lambda>e. case e of
           Saw_Vm n' found \<Rightarrow> n' = n \<and> (case found of [] \<Rightarrow> True | m # _ \<Rightarrow> idle m) | _ \<Rightarrow> False) es)"

text \<open>What must have been seen before a rollback request goes out.\<close>

definition rollback_ready :: "string \<Rightarrow> string \<Rightarrow> event list \<Rightarrow> bool" where
  "rollback_ready v snap es \<longleftrightarrow> list_ex (lineage v snap) es \<and> vm_idle v es
     \<and> list_all answered es \<and> list_all (\<lambda>e. \<not> served v e) es"

lemma rollback_allowed:
  "rollback_refusal v snap vrow srow vm on unr = None \<longleftrightarrow>
     vrow \<noteq> None \<and> (case srow of None \<Rightarrow> False | Some r \<Rightarrow> or_str (v_parent r) [] = v)
     \<and> (case vm of None \<Rightarrow> True | Some m \<Rightarrow> idle m) \<and> on = [] \<and> unr = []"
  by (auto simp: rollback_refusal_def idle_def split: option.splits)

lemma seen_simps [simp]:
  "answered (Saw_Vdisks rows)" "answered Read_Table" "answered (Saw_Vm n ms)" "answered (Exec st rc)"
  "\<not> served v (Saw_Vdisks rows)" "\<not> served v Read_Table" "\<not> served v (Saw_Vm n ms)" "\<not> served v (Exec st rc)"
  "\<not> is_rollback (Saw_Vdisks rows)" "\<not> is_rollback Read_Table" "\<not> is_rollback (Saw_Vm n ms)"
  "\<not> is_rollback (Exec st rc)"
  by (simp_all add: answered_def served_def is_rollback_def)

lemma vm_of_vdisk_events:
  "yields (vm_of_vdisk env v) (\<lambda>r es. list_all (\<lambda>e. \<not> is_rollback e \<and> answered e \<and> \<not> served v e) es
     \<and> (\<forall>vm. r = Inr vm \<longrightarrow> (case vm of None \<Rightarrow> True | Some m \<Rightarrow> idle m) \<longrightarrow> vm_idle v es))"
  unfolding vm_of_vdisk_def vm_named_def rows_or_raise_def vm_event_def
  by (auto intro!: yields_intros simp: vm_idle_def split: sum.split list.splits)

lemma vdisks_events:
  "yields (vdisks env) (\<lambda>r es. (\<exists>rows. es = [Saw_Vdisks rows] \<and> r = Inr rows) \<or> (es = [Read_Table] \<and> (\<exists>x. r = Inl x)))"
  unfolding vdisks_def rows_or_raise_def vdisk_event_def by (auto intro!: yields_intros split: sum.split)

lemma rollback_ready_append:
  "rollback_ready v snap xs \<Longrightarrow> list_all is_task_insert ys \<Longrightarrow> rollback_ready v snap (xs @ ys)"
proof -
  assume xs: "rollback_ready v snap xs" and ys: "list_all is_task_insert ys"
  have "answered e \<and> \<not> served v e" if "is_task_insert e" for e
    using that by (simp add: is_task_insert_def answered_def served_def split: event.splits)
  with ys have "list_all answered ys" "list_all (\<lambda>e. \<not> served v e) ys" by (auto simp: list_all_iff)
  with xs show ?thesis by (auto simp: rollback_ready_def vm_idle_def split: option.splits)
qed

lemma check_rollback_events:
  "yields (check_rollback env v snap) (\<lambda>r es. list_all (\<lambda>e. \<not> is_rollback e) es
     \<and> (\<forall>rows. r = Inr rows \<longrightarrow> rollback_ready v snap es))"
proof -
  have att: "yields (attached env) (\<lambda>acc es. list_all (\<lambda>e. \<not> is_rollback e) es \<and> (snd acc = [] \<longleftrightarrow> list_all answered es)
      \<and> (\<forall>v. places (fst acc) v = [] \<longleftrightarrow> list_all (\<lambda>e. \<not> served v e) es))"
    by (rule yields_conj [OF emits_attached attached_events]) (simp add: is_rollback_def)
  show ?thesis
    unfolding check_rollback_def Let_def places_def [symmetric] bindE_def liftE_def
    by (intro yields_bind yields_case_sum yields_case_prod yields_case_option yields_ret
        yields_mono [OF vdisks_events] yields_mono [OF vm_of_vdisk_events] yields_mono [OF att])
      (auto simp: rollback_allowed rollback_ready_def lineage_def seen_simps vm_idle_def list_all_iff
        split: option.splits)
qed

text \<open>One rollback request, for this vdisk and snapshot, after all that must be seen was seen.\<close>

definition guarded_request :: "string \<Rightarrow> string \<Rightarrow> bool \<Rightarrow> event list \<Rightarrow> bool" where
  "guarded_request v snap keep es \<longleftrightarrow>
     (\<exists>before ip k a after. es = before @ Dfs ip (Dfs_Rollback v snap k) a # after
          \<and> (k \<noteq> None) = keep \<and> rollback_ready v snap before
          \<and> list_all (\<lambda>e. \<not> is_rollback e) (before @ after))"

text \<open>
  A rollback either sends no rollback request, or sends one, for this vdisk and this snapshot, with a
  name to keep the current data under exactly when that was asked for; and before it goes out, the table
  of vdisks showed the snapshot to be derived from the vdisk, the VM the disk belongs to was read and
  found stopped with no operation under way, and every node answered and none serves the disk.
\<close>

theorem rollback_only_when_safe:
  "yields (rollback env v snap keep) (\<lambda>_ es.
     list_all (\<lambda>e. \<not> is_rollback e) es \<or> guarded_request v snap keep es)"
proof -
  have fin: "emits (\<lambda>e. \<not> is_rollback e) (task_finish env t er)" for t er
    by (rule emits_calls) (simp_all add: is_rollback_def)
  have rec: "emits (\<lambda>e. \<not> is_rollback e) (record_snapshot env w c og n)" for w c og n
    by (rule emits_record) (simp_all add: is_rollback_def)
  have send: "yields (rollback_send env v snap now k ip task) (\<lambda>_ es. \<exists>a after.
      es = Dfs ip (Dfs_Rollback v snap k) a # after \<and> list_all (\<lambda>e. \<not> is_rollback e) after)" for now k ip task
    unfolding rollback_send_def dfs_def bindE_def liftE_def
    by (intro yields_bind yields_act yields_case_sum yields_case_prod yields_case_option yields_ret yields_if
        yields_mono [OF fin] yields_mono [OF rec]) auto
  have ip: "yields (rollback_ip env row) (\<lambda>_ es. es = [])" for row
    unfolding rollback_ip_def Let_def ip_for_owner_def nodes_def by (auto intro!: yields_intros)
  have joined: "guarded_request v snap (k \<noteq> None) (es @ ts @ ds)"
    if "list_all (\<lambda>e. \<not> is_rollback e) es" "rollback_ready v snap es" "list_all is_task_insert ts"
      "\<exists>a after. ds = Dfs ip (Dfs_Rollback v snap k) a # after \<and> list_all (\<lambda>e. \<not> is_rollback e) after"
    for es ts ds ip k
  proof -
    from that(4) obtain a after where "ds = Dfs ip (Dfs_Rollback v snap k) a # after"
      "list_all (\<lambda>e. \<not> is_rollback e) after" by blast
    moreover have "list_all (\<lambda>e. \<not> is_rollback e) ts"
      using that(3) by (auto simp: list_all_iff is_task_insert_def is_rollback_def split: event.splits)
    ultimately show ?thesis
      using that rollback_ready_append [of v snap es ts] unfolding guarded_request_def
      by (intro exI [of _ "es @ ts"] exI [of _ ip] exI [of _ k] exI [of _ a] exI [of _ after]) simp
  qed
  have kept: "(if keep then map_sum Policy_Exn Some (pre_rollback_name v now) else Inr None) = Inr k \<Longrightarrow> (k \<noteq> None) = keep" for now k
    by (cases "pre_rollback_name v now") (auto split: if_splits)
  show ?thesis
    unfolding rollback_def bindE_def liftE_def now_ms_def
    by (intro yields_bind yields_case_sum yields_ret yields_look yields_mono [OF check_rollback_events]
        yields_mono [OF ip] yields_mono [OF task_start_events] yields_mono [OF send])
       (auto dest!: kept intro!: joined)
qed

end
