(* ===== verification/Protection_Plan.thy ===== *)
theory Protection_Plan
  imports Domain_Claims
begin

text \<open>
  The decisions of the protection domains (\<open>src/rauru_protection.py\<close>, everything above \<open>Runner\<close>): what can
  be stored, how a set and its snapshots are named, what one set captures and behind which barriers,
  which sets retention may delete, which failed rows are dropped and which rows a dead run left.
\<close>

abbreviation quiesce_none :: string where "quiesce_none \<equiv> ''none''"
abbreviation quiesce_vm :: string where "quiesce_vm \<equiv> ''vm''"
abbreviation quiesce_domain :: string where "quiesce_domain \<equiv> ''domain''"

definition quiesces :: "string list" where
  "quiesces = [quiesce_none, quiesce_vm, quiesce_domain]"

abbreviation consistency_domain :: string where "consistency_domain \<equiv> ''crash:domain''"
abbreviation consistency_vm :: string where "consistency_vm \<equiv> ''crash:vm''"
abbreviation consistency_none :: string where "consistency_none \<equiv> ''none''"

abbreviation set_taking :: string where "set_taking \<equiv> ''taking''"
abbreviation set_complete :: string where "set_complete \<equiv> ''complete''"
abbreviation set_failed :: string where "set_failed \<equiv> ''failed''"

abbreviation set_origin_policy :: string where "set_origin_policy \<equiv> ''policy''"
abbreviation set_origin_manual :: string where "set_origin_manual \<equiv> ''manual''"
abbreviation origin_domain :: string where "origin_domain \<equiv> ''domain''"

definition default_max_pause_seconds :: int where "default_max_pause_seconds = 30"
definition max_pause_ceiling_seconds :: int where "max_pause_ceiling_seconds = 300"
definition resume_attempts :: nat where "resume_attempts = 3"
definition stale_taking_ms :: int where "stale_taking_ms = 10 * 60 * 1000"
definition failed_rows_kept :: nat where "failed_rows_kept = 5"

section \<open>Names and statements\<close>

definition validate_domain_name :: "string \<Rightarrow> domain_error + string" where
  "validate_domain_name name = (if name_re name then Inr name else Inl Bad_Domain_Name)"

definition validate_domain_policy :: "pynum \<Rightarrow> pynum \<Rightarrow> string \<Rightarrow> pynum \<Rightarrow> domain_error + int \<times> int \<times> string \<times> int" where
  "validate_domain_policy interval keep quiesce max_pause =
     (case (py_int interval, py_int keep, py_int max_pause) of
        (Some i, Some k, Some p) \<Rightarrow>
          (if i < run_interval_seconds then Inl Short_Interval
           else if k < 1 \<or> k > max_keep_last then Inl Bad_Keep
           else if quiesce \<notin> set quiesces then Inl Bad_Quiesce
           else if p < 1 \<or> p > max_pause_ceiling_seconds then Inl Bad_Max_Pause
           else Inr (i, k, quiesce, p))
      | _ \<Rightarrow> Inl Not_Whole)"

definition domain_insert_statement ::
    "string \<Rightarrow> bool \<Rightarrow> pynum \<Rightarrow> pynum \<Rightarrow> string \<Rightarrow> pynum \<Rightarrow> int \<Rightarrow> int \<Rightarrow> domain_error + stmt" where
  "domain_insert_statement name enabled interval keep quiesce max_pause created updated =
     (case validate_domain_name name of
        Inl e \<Rightarrow> Inl e
      | Inr _ \<Rightarrow>
          (case validate_domain_policy interval keep quiesce max_pause of
             Inl e \<Rightarrow> Inl e
           | Inr (i, k, q, p) \<Rightarrow> Inr (Domain_Insert name enabled i k q p created updated)))"

definition domain_delete_statement :: "string \<Rightarrow> domain_error + stmt" where
  "domain_delete_statement name =
     (case validate_domain_name name of Inl e \<Rightarrow> Inl e | Inr _ \<Rightarrow> Inr (Domain_Delete name))"

text \<open>\<open>spec.partition(":")\<close> and the checks on its parts.\<close>

definition parse_member :: "string \<Rightarrow> domain_error + string \<times> string" where
  "parse_member spec =
     (let kind = takeWhile (\<lambda>c. c \<noteq> CHR '':'') spec; rest = dropWhile (\<lambda>c. c \<noteq> CHR '':'') spec
      in (case rest of
            [] \<Rightarrow> Inl Not_A_Member
          | _ # name \<Rightarrow>
              if kind \<in> {kind_vm, kind_vdisk} \<and> name_re name then Inr (kind, name) else Inl Not_A_Member))"

definition member_insert_statement :: "string \<Rightarrow> string \<Rightarrow> string \<Rightarrow> int \<Rightarrow> domain_error + stmt" where
  "member_insert_statement domain kind name added =
     (case validate_domain_name domain of
        Inl e \<Rightarrow> Inl e
      | Inr _ \<Rightarrow>
          (case parse_member (kind @ '':'' @ name) of
             Inl e \<Rightarrow> Inl e
           | Inr (k, n) \<Rightarrow> Inr (Member_Insert domain k n added)))"

definition member_delete_statement :: "string \<Rightarrow> string \<Rightarrow> string \<Rightarrow> domain_error + stmt" where
  "member_delete_statement domain kind name =
     (case validate_domain_name domain of
        Inl e \<Rightarrow> Inl e
      | Inr _ \<Rightarrow>
          (case parse_member (kind @ '':'' @ name) of
             Inl e \<Rightarrow> Inl e
           | Inr (k, n) \<Rightarrow> Inr (Member_Delete domain k n)))"

definition set_id_for :: "string \<Rightarrow> int \<Rightarrow> string" where
  "set_id_for domain now = domain @ ''-'' @ utc_stamp now"

definition member_snapshot_name :: "string \<Rightarrow> int \<Rightarrow> domain_error + string" where
  "member_snapshot_name vdisk now =
     (let name = vdisk @ ''-dom-'' @ utc_stamp now
      in if name_re name then Inr name else Inl (Set_Name_Too_Long vdisk))"

section \<open>What a set captures\<close>

record target =
  tg_vm :: string
  tg_vdisk :: string
  tg_owner :: string
  tg_snapshot :: string

record barrier =
  targets :: "target list"
  pause_vms :: "pause list"

definition atomic :: "barrier \<Rightarrow> bool" where
  "atomic g \<longleftrightarrow> length (targets g) \<le> 1 \<or> list_all (\<lambda>t. tg_vm t \<in> set (map pz_name (pause_vms g))) (targets g)"

datatype plan_note =
    No_Such_Vm | Vm_Busy string | Vm_Not_Running "string option" | No_Host
  | Disk_Missing string | Disk_Class string "string option" | Disk_Detached string "string list"
  | No_Such_Disk | Wrong_Class "string option" | Nothing_New | Maybe_Elsewhere "string list"

record set_plan =
  sp_groups :: "barrier list"
  sp_skipped :: "(string \<times> plan_note) list"
  sp_failures :: "(string \<times> plan_note) list"
  sp_consistency :: string

text \<open>The variables of the loop over the members.\<close>

record plan_acc =
  pa_per_vm :: "(string \<times> target list) list"
  pa_bare :: "target list"
  pa_seen :: "string set"
  pa_skipped :: "(string \<times> plan_note) list"
  pa_failures :: "(string \<times> plan_note) list"

definition skip_note :: "string \<Rightarrow> plan_note \<Rightarrow> plan_acc \<Rightarrow> plan_acc" where
  "skip_note l r a = a\<lparr>pa_skipped := pa_skipped a @ [(l, r)]\<rparr>"

definition fail_note :: "string \<Rightarrow> plan_note \<Rightarrow> plan_acc \<Rightarrow> plan_acc" where
  "fail_note l r a = a\<lparr>pa_failures := pa_failures a @ [(l, r)]\<rparr>"

definition disk_problem :: "(string \<Rightarrow> vdisk_row option) \<Rightarrow> (string \<Rightarrow> string option) \<Rightarrow> string list \<Rightarrow>
    string \<Rightarrow> plan_note option" where
  "disk_problem disks owners unreachable v =
     (case disks v of
        None \<Rightarrow> Some (Disk_Missing v)
      | Some r \<Rightarrow>
          if or_str (v_class r) ''rw'' \<noteq> ''rw'' then Some (Disk_Class v (v_class r))
          else if owners v = None then Some (Disk_Detached v (sort unreachable)) else None)"

fun first_problem :: "('a \<Rightarrow> 'b option) \<Rightarrow> 'a list \<Rightarrow> 'b option" where
  "first_problem p [] = None"
| "first_problem p (x # xs) = (case p x of Some y \<Rightarrow> Some y | None \<Rightarrow> first_problem p xs)"

definition mk_target :: "(string \<Rightarrow> string option) \<Rightarrow> int \<Rightarrow> string \<Rightarrow> string \<Rightarrow> domain_error + target" where
  "mk_target owners now vm v =
     (case member_snapshot_name v now of
        Inl e \<Rightarrow> Inl e
      | Inr s \<Rightarrow> Inr \<lparr>tg_vm = vm, tg_vdisk = v, tg_owner = (case owners v of None \<Rightarrow> [] | Some o' \<Rightarrow> o'), tg_snapshot = s\<rparr>)"

fun add_disks :: "(string \<Rightarrow> string option) \<Rightarrow> int \<Rightarrow> string \<Rightarrow> string list \<Rightarrow> plan_acc \<Rightarrow> domain_error + plan_acc" where
  "add_disks owners now vm [] a = Inr a"
| "add_disks owners now vm (v # vs) a =
     (if v \<in> pa_seen a then add_disks owners now vm vs a
      else (case mk_target owners now vm v of
          Inl e \<Rightarrow> Inl e
        | Inr t \<Rightarrow> add_disks owners now vm vs
            (a\<lparr>pa_seen := insert v (pa_seen a), pa_per_vm := dict_append vm t (pa_per_vm a)\<rparr>)))"

definition plan_vm :: "(string \<Rightarrow> vm_row option) \<Rightarrow> (string \<Rightarrow> vdisk_row option) \<Rightarrow> (string \<Rightarrow> string option) \<Rightarrow>
    string list \<Rightarrow> int \<Rightarrow> string \<Rightarrow> plan_acc \<Rightarrow> domain_error + plan_acc" where
  "plan_vm vms disks owners unreachable now name a =
     (let label = ''vm:'' @ name in
      case vms name of
        None \<Rightarrow> Inr (skip_note label No_Such_Vm a)
      | Some r \<Rightarrow>
          if strip (or_str (vm_status r) []) \<noteq> [] then Inr (fail_note label (Vm_Busy (or_str (vm_status r) [])) a)
          else if lower (strip (or_str (vm_state r) [])) \<noteq> ''running'' then Inr (skip_note label (Vm_Not_Running (vm_state r)) a)
          else if \<not> truthy_str (vm_host_ip r) then Inr (fail_note label No_Host a)
          else (case first_problem (disk_problem disks owners unreachable) (vm_vdisk_ids r) of
              Some p \<Rightarrow> Inr (fail_note label p a)
            | None \<Rightarrow> add_disks owners now name (vm_vdisk_ids r) a))"

definition plan_vdisk :: "(string \<Rightarrow> vdisk_row option) \<Rightarrow> (string \<Rightarrow> string option) \<Rightarrow>
    string list \<Rightarrow> int \<Rightarrow> string \<Rightarrow> plan_acc \<Rightarrow> domain_error + plan_acc" where
  "plan_vdisk disks owners unreachable now name a =
     (let label = ''vdisk:'' @ name in
      if name \<in> pa_seen a then Inr a
      else (case disks name of
          None \<Rightarrow> Inr (skip_note label No_Such_Disk a)
        | Some r \<Rightarrow>
            if or_str (v_class r) ''rw'' \<noteq> ''rw'' then Inr (skip_note label (Wrong_Class (v_class r)) a)
            else if owners name = None then
              Inr (skip_note label (if unreachable = [] then Nothing_New else Maybe_Elsewhere (sort unreachable)) a)
            else (case mk_target owners now [] name of
                Inl e \<Rightarrow> Inl e
              | Inr t \<Rightarrow> Inr (a\<lparr>pa_seen := insert name (pa_seen a), pa_bare := pa_bare a @ [t]\<rparr>))))"

fun plan_members :: "(string \<Rightarrow> vm_row option) \<Rightarrow> (string \<Rightarrow> vdisk_row option) \<Rightarrow> (string \<Rightarrow> string option) \<Rightarrow>
    string list \<Rightarrow> int \<Rightarrow> (string \<times> string) list \<Rightarrow> plan_acc \<Rightarrow> domain_error + plan_acc" where
  "plan_members vms disks owners unreachable now [] a = Inr a"
| "plan_members vms disks owners unreachable now ((kind, name) # ms) a =
     (case (if kind = kind_vm then plan_vm vms disks owners unreachable now name a
            else plan_vdisk disks owners unreachable now name a) of
        Inl e \<Rightarrow> Inl e
      | Inr a' \<Rightarrow> plan_members vms disks owners unreachable now ms a')"

definition pause_for :: "(string \<Rightarrow> vm_row option) \<Rightarrow> string \<Rightarrow> pause" where
  "pause_for vms n = \<lparr>pz_name = n, pz_host_ip = (case vms n of None \<Rightarrow> None | Some r \<Rightarrow> vm_host_ip r)\<rparr>"

definition by_vdisk :: "target list \<Rightarrow> target list" where
  "by_vdisk ts = sort_key tg_vdisk ts"

definition form_groups :: "(string \<Rightarrow> vm_row option) \<Rightarrow> string \<Rightarrow> plan_acc \<Rightarrow> barrier list" where
  "form_groups vms quiesce a =
     (let per_vm = pa_per_vm a; bare = pa_bare a;
          every = concat (map snd per_vm) @ bare
      in if quiesce = quiesce_none then
           (if every = [] then [] else [\<lparr>targets = by_vdisk every, pause_vms = []\<rparr>])
         else if quiesce = quiesce_vm then
           map (\<lambda>(n, ts). \<lparr>targets = ts, pause_vms = (if length ts > 1 then [pause_for vms n] else [])\<rparr>) (sort_key fst per_vm)
           @ (if bare = [] then [] else [\<lparr>targets = by_vdisk bare, pause_vms = []\<rparr>])
         else
           (if every = [] then []
            else [\<lparr>targets = by_vdisk every,
                   pause_vms = (if length every > 1 then map (pause_for vms) (sort (map fst per_vm)) else [])\<rparr>]))"

definition label_of :: "barrier list \<Rightarrow> string" where
  "label_of gs =
     (if gs = [] then consistency_domain
      else if length gs = 1 \<and> atomic (hd gs) then consistency_domain
      else if list_all atomic gs then consistency_vm
      else consistency_none)"

definition plan_set :: "(string \<times> string) list \<Rightarrow> (string \<Rightarrow> vm_row option) \<Rightarrow> (string \<Rightarrow> vdisk_row option) \<Rightarrow>
    (string \<Rightarrow> string option) \<Rightarrow> string list \<Rightarrow> string \<Rightarrow> int \<Rightarrow> domain_error + set_plan" where
  "plan_set members vms disks owners unreachable quiesce now =
     (case plan_members vms disks owners unreachable now (sort (remdups members))
             \<lparr>pa_per_vm = [], pa_bare = [], pa_seen = {}, pa_skipped = [], pa_failures = []\<rparr> of
        Inl e \<Rightarrow> Inl e
      | Inr a \<Rightarrow>
          Inr \<lparr>sp_groups = form_groups vms quiesce a, sp_skipped = pa_skipped a, sp_failures = pa_failures a,
               sp_consistency = label_of (form_groups vms quiesce a)\<rparr>)"

definition plan_targets :: "set_plan \<Rightarrow> target list" where
  "plan_targets p = concat (map targets (sp_groups p))"

section \<open>Retention of sets\<close>

datatype set_spared = Pinned string | Set_Derived "string list" | Set_Busy string string

definition set_snaps :: "set_row \<Rightarrow> string list" where
  "set_snaps s = filter (\<lambda>x. x \<noteq> []) (map m_snapshot (s_members s))"

definition spare_set :: "string set \<Rightarrow> (string \<Rightarrow> string option) \<Rightarrow> (string \<Rightarrow> string option) \<Rightarrow>
    set_row \<Rightarrow> set_spared option" where
  "spare_set referenced attached pinned s =
     (let derived = filter (\<lambda>x. x \<in> referenced) (set_snaps s);
          busy = filter (\<lambda>x. attached x \<noteq> None) (set_snaps s)
      in case pinned (s_set_id s) of
           Some why \<Rightarrow> Some (Pinned why)
         | None \<Rightarrow> if derived \<noteq> [] then Some (Set_Derived (sort derived))
                   else if busy \<noteq> [] then Some (Set_Busy (hd busy) (the (attached (hd busy))))
                   else None)"

definition set_age_key :: "set_row \<Rightarrow> int \<times> string" where
  "set_age_key s = (- s_taken_at s, s_set_id s)"

definition policy_complete :: "set_row \<Rightarrow> bool" where
  "policy_complete s \<longleftrightarrow> s_origin s = Some set_origin_policy \<and> s_state s = Some set_complete"

definition plan_set_retention :: "string set \<Rightarrow> (string \<Rightarrow> string option) \<Rightarrow> (string \<Rightarrow> string option) \<Rightarrow>
    set_row list \<Rightarrow> int \<Rightarrow> set_spared retention" where
  "plan_set_retention referenced attached pinned sets keep_last =
     (let ours = sort_key set_age_key (filter policy_complete sets);
          (prune, prot) = sift s_set_id (spare_set referenced attached pinned) (drop (window keep_last) ours) [] []
      in \<lparr>r_keep = map s_set_id (take (window keep_last) ours), r_prune = prune, r_protected = prot\<rparr>)"

definition failed_rows_to_drop :: "set_row list \<Rightarrow> set_row list" where
  "failed_rows_to_drop sets =
     drop failed_rows_kept (sort_key (\<lambda>s. - s_taken_at s) (filter (\<lambda>s. s_state s = Some set_failed) sets))"

definition began_at :: "set_row \<Rightarrow> int" where
  "began_at s = or_int (s_cut_start s) (or_int (s_started s) 0)"

definition stale_taking :: "set_row list \<Rightarrow> int \<Rightarrow> bool \<Rightarrow> set_row list" where
  "stale_taking sets now force =
     filter (\<lambda>s. s_state s = Some set_taking \<and> (force \<or> now - began_at s \<ge> stale_taking_ms)) sets"

section \<open>Interpretation\<close>

interpretation set_ret: window_retention policy_complete set_age_key s_set_id
    "spare_set referenced attached pinned" "plan_set_retention referenced attached pinned"
  for referenced attached pinned
proof unfold_locales
  fix rows k
  let ?rest = "drop (window k) (sort_key set_age_key (filter policy_complete rows))"
  let ?sift = "sift s_set_id (spare_set referenced attached pinned) ?rest [] []"
  have plan: "plan_set_retention referenced attached pinned rows k =
    \<lparr>r_keep = map s_set_id (take (window k) (sort_key set_age_key (filter policy_complete rows))),
     r_prune = fst ?sift, r_protected = snd ?sift\<rparr>"
    by (simp add: plan_set_retention_def Let_def split_beta)
  show "r_keep (plan_set_retention referenced attached pinned rows k) =
      map s_set_id (take (window k) (sort_key set_age_key (filter policy_complete rows)))" by (simp add: plan)
  show "r_prune (plan_set_retention referenced attached pinned rows k) =
      map s_set_id (filter (\<lambda>r. spare_set referenced attached pinned r = None) ?rest)" by (simp add: plan sift_prune)
  show "s \<in> fst ` set (r_protected (plan_set_retention referenced attached pinned rows k)) \<longleftrightarrow>
      (\<exists>r \<in> set ?rest. s_set_id r = s \<and> spare_set referenced attached pinned r \<noteq> None)" for s
    by (simp add: plan sift_protected_complete)
qed

section \<open>Lemmas: what the members come to\<close>

text \<open>A target that can be captured: a writable vdisk, its owner known, its snapshot's name valid.\<close>

definition capturable :: "(string \<Rightarrow> vdisk_row option) \<Rightarrow> (string \<Rightarrow> string option) \<Rightarrow> int \<Rightarrow> target \<Rightarrow> bool" where
  "capturable disks owners now t \<longleftrightarrow> owners (tg_vdisk t) = Some (tg_owner t)
     \<and> (case disks (tg_vdisk t) of None \<Rightarrow> False | Some r \<Rightarrow> or_str (v_class r) ''rw'' = ''rw'')
     \<and> member_snapshot_name (tg_vdisk t) now = Inr (tg_snapshot t)"

definition every_target :: "plan_acc \<Rightarrow> target list" where
  "every_target a = concat (map snd (pa_per_vm a)) @ pa_bare a"

definition own_targets :: "(string \<times> target list) list \<Rightarrow> bool" where
  "own_targets d = list_all (\<lambda>(n, ts). ts \<noteq> [] \<and> list_all (\<lambda>t. tg_vm t = n) ts) d"

definition acc_ok :: "(string \<Rightarrow> vdisk_row option) \<Rightarrow> (string \<Rightarrow> string option) \<Rightarrow> int \<Rightarrow> plan_acc \<Rightarrow> bool" where
  "acc_ok disks owners now a \<longleftrightarrow> distinct (map tg_vdisk (every_target a))
     \<and> set (map tg_vdisk (every_target a)) = pa_seen a
     \<and> list_all (capturable disks owners now) (every_target a)
     \<and> own_targets (pa_per_vm a)"

lemma mset_dict_append: "mset (concat (map snd (dict_append k v d))) = add_mset v (mset (concat (map snd d)))"
  unfolding dict_append_def by (induction d) auto

lemma set_dict_append: "set (concat (map snd (dict_append k v d))) = insert v (set (concat (map snd d)))"
  using arg_cong [OF mset_dict_append, of set_mset k v d] by simp

lemma distinct_dict_append:
  "distinct (map f (concat (map snd (dict_append k v d)))) = (f v \<notin> f ` set (concat (map snd d)) \<and> distinct (map f (concat (map snd d))))"
proof -
  have "mset (map f (concat (map snd (dict_append k v d)))) = mset (map f (v # concat (map snd d)))"
    by (simp add: mset_dict_append)
  then show ?thesis by (metis (no_types, lifting) distinct.simps(2) list.simps(9) list.set_map mset_eq_imp_distinct_iff)
qed

lemma owned_dict_append: "own_targets d \<Longrightarrow> tg_vm t = n \<Longrightarrow> own_targets (dict_append n t d)"
  unfolding dict_append_def own_targets_def by (induction d) auto

lemma acc_ok_notes [simp]:
  "acc_ok disks owners now (skip_note l r a) = acc_ok disks owners now a"
  "acc_ok disks owners now (fail_note l r a) = acc_ok disks owners now a"
  by (simp_all add: acc_ok_def every_target_def skip_note_def fail_note_def)

lemma acc_ok_add:
  assumes "acc_ok disks owners now a" and "capturable disks owners now t" and "tg_vdisk t \<notin> pa_seen a"
  shows "tg_vm t = n \<Longrightarrow> acc_ok disks owners now
      (a\<lparr>pa_seen := insert (tg_vdisk t) (pa_seen a), pa_per_vm := dict_append n t (pa_per_vm a)\<rparr>)"
    and "acc_ok disks owners now (a\<lparr>pa_seen := insert (tg_vdisk t) (pa_seen a), pa_bare := pa_bare a @ [t]\<rparr>)"
  using assms
  by (auto simp: acc_ok_def every_target_def list_all_iff distinct_dict_append set_dict_append owned_dict_append
      simp del: set_concat)

lemma first_problem_None: "first_problem p xs = None \<longleftrightarrow> (\<forall>x \<in> set xs. p x = None)"
  by (induction p xs rule: first_problem.induct) (auto split: option.splits)

lemma mk_target_capturable:
  assumes "mk_target owners now vm v = Inr t" and "disk_problem disks owners unr v = None"
  shows "capturable disks owners now t \<and> tg_vdisk t = v \<and> tg_vm t = vm"
  using assms by (auto simp: mk_target_def disk_problem_def capturable_def split: sum.splits option.splits if_splits)

lemma add_disks_ok:
  assumes "add_disks owners now vm vs a = Inr a'" and "acc_ok disks owners now a"
    and "\<forall>v \<in> set vs. disk_problem disks owners unr v = None"
  shows "acc_ok disks owners now a' \<and> pa_bare a' = pa_bare a"
  using assms
proof (induction owners now vm vs a rule: add_disks.induct)
  case (2 owners now vm v vs a)
  show ?case
  proof (cases "v \<in> pa_seen a")
    case False
    with "2.prems"(1) obtain t where t: "mk_target owners now vm v = Inr t"
      "add_disks owners now vm vs (a\<lparr>pa_seen := insert v (pa_seen a), pa_per_vm := dict_append vm t (pa_per_vm a)\<rparr>) = Inr a'"
      by (auto split: sum.splits)
    have cap: "capturable disks owners now t" "tg_vdisk t = v" "tg_vm t = vm"
      using mk_target_capturable [OF t(1)] "2.prems"(3) by auto
    have "acc_ok disks owners now (a\<lparr>pa_seen := insert v (pa_seen a), pa_per_vm := dict_append vm t (pa_per_vm a)\<rparr>)"
      using acc_ok_add(1) [OF "2.prems"(2) cap(1)] False cap by simp
    with "2.IH"(2) [OF False t] "2.prems"(3) show ?thesis by simp
  qed (use 2 in auto)
qed simp

lemma plan_members_ok:
  assumes "plan_members vms disks owners unr now ms a = Inr a'" and "acc_ok disks owners now a"
  shows "acc_ok disks owners now a'"
  using assms
proof (induction vms disks owners unr now ms a rule: plan_members.induct)
  case (2 vms disks owners unr now kind name ms a)
  have vm: "acc_ok disks owners now b" if "plan_vm vms disks owners unr now name a = Inr b" for b
    using that "2.prems"(2) add_disks_ok [of owners now name _ a b disks unr]
    by (auto simp: plan_vm_def Let_def first_problem_None split: option.splits if_splits)
  have vd: "acc_ok disks owners now b" if "plan_vdisk disks owners unr now name a = Inr b" for b
    using that "2.prems"(2) acc_ok_add(2) [OF "2.prems"(2), of _]
    by (auto simp: plan_vdisk_def Let_def disk_problem_def split: option.splits if_splits sum.splits
        dest!: mk_target_capturable [where disks = disks and unr = unr])
  from 2 vm vd show ?case by (auto split: sum.splits if_splits)
qed simp

lemma form_groups_targets: "mset (concat (map targets (form_groups vms q a))) = mset (every_target a)"
proof -
  have "mset (concat (map snd (sort_key fst d))) = mset (concat (map snd d))" for d :: "(string \<times> target list) list"
  proof -
    have "mset (concat (map snd e)) = sum_mset (image_mset (\<lambda>p. mset (snd p)) (mset e))" for e :: "(string \<times> target list) list"
      by (induction e) auto
    then show ?thesis by simp
  qed
  moreover have "targets \<circ> (\<lambda>(n, ts). \<lparr>targets = ts, pause_vms = f n ts\<rparr>) = snd" for f :: "string \<Rightarrow> target list \<Rightarrow> pause list"
    by (auto simp: fun_eq_iff)
  ultimately show ?thesis
    by (auto simp: form_groups_def Let_def every_target_def by_vdisk_def simp del: mset_concat)
qed

text \<open>
  A plan names only what can be captured, once: whatever the members are, each target is a writable vdisk, with
  the node that serves it, and a valid name for its snapshot; and no vdisk is captured twice, not
  even one that is a member itself and a disk of a member VM.
\<close>

theorem plan_is_capturable:
  assumes "plan_set members vms disks owners unreachable quiesce now = Inr p"
  shows "distinct (map tg_vdisk (plan_targets p)) \<and> list_all (capturable disks owners now) (plan_targets p)"
proof -
  from assms obtain a where a: "plan_members vms disks owners unreachable now (sort (remdups members))
      \<lparr>pa_per_vm = [], pa_bare = [], pa_seen = {}, pa_skipped = [], pa_failures = []\<rparr> = Inr a"
    and p: "sp_groups p = form_groups vms quiesce a"
    by (auto simp: plan_set_def split: sum.splits)
  have "acc_ok disks owners now a"
    by (rule plan_members_ok [OF a]) (simp add: acc_ok_def every_target_def own_targets_def)
  then have ok: "distinct (map tg_vdisk (every_target a))" "list_all (capturable disks owners now) (every_target a)"
    by (simp_all add: acc_ok_def)
  have m: "mset (plan_targets p) = mset (every_target a)"
    by (simp add: plan_targets_def p form_groups_targets)
  then have "mset (map tg_vdisk (plan_targets p)) = mset (map tg_vdisk (every_target a))" by simp
  with ok m show ?thesis by (metis list_all_iff mset_eq_imp_distinct_iff mset_eq_setD)
qed

definition sample_vms :: "string \<Rightarrow> vm_row option" where
  "sample_vms n = (if n = ''web'' then Some \<lparr>vm_name = ''web'', vm_state = Some ''running'', vm_status = None,
     vm_host_ip = Some ''10.0.0.1'', vm_disks_list = Some ''a,b''\<rparr> else None)"

definition sample_disks :: "string \<Rightarrow> vdisk_row option" where
  "sample_disks v = (if v = ''web-disk0'' \<or> v = ''web-disk1''
     then Some \<lparr>v_id = v, v_class = None, v_owner = Some ''node1'', v_container = None, v_parent = None\<rparr> else None)"

lemma sample_stamp: "utc_stamp 0 = ''197001010000''"
  by code_simp

lemma sample_names:
  "member_snapshot_name ''web-disk0'' 0 = Inr ''web-disk0-dom-197001010000''"
  "member_snapshot_name ''web-disk1'' 0 = Inr ''web-disk1-dom-197001010000''"
  by (simp_all add: member_snapshot_name_def sample_stamp name_re_def name_shape_def name_char_def is_alnum_def
      is_alpha_def is_digit_def)

lemma sample_ids:
  "vm_vdisk_ids \<lparr>vm_name = ''web'', vm_state = Some ''running'', vm_status = None, vm_host_ip = Some ''10.0.0.1'',
     vm_disks_list = Some ''a,b''\<rparr> = [''web-disk0'', ''web-disk1'']"
  by code_simp

lemma sample_running: "lower (strip ''running'') = ''running''"
  by code_simp

lemma sample_order: "sort [(kind_vm, ''web''), (kind_vdisk, ''web-disk0'')] = [(kind_vdisk, ''web-disk0''), (kind_vm, ''web'')]"
  by code_simp

lemmas sample_simps = Let_def sample_vms_def sample_disks_def sample_ids sample_names sample_running sample_order
  disk_problem_def mk_target_def dict_append_def form_groups_def label_of_def atomic_def plan_targets_def by_vdisk_def
  strip_def [of "[]"] pause_for_def

theorem plan_is_capturable_witness:
  "\<exists>p. plan_set [(kind_vm, ''web'')] sample_vms sample_disks (\<lambda>_. Some ''node1'') [] quiesce_vm 0 = Inr p
     \<and> map tg_vdisk (plan_targets p) = [''web-disk0'', ''web-disk1''] \<and> sp_consistency p = consistency_domain
     \<and> list_all (capturable sample_disks (\<lambda>_. Some ''node1'') 0) (plan_targets p)"
proof -
  let ?plan = "plan_set [(kind_vm, ''web'')] sample_vms sample_disks (\<lambda>_. Some ''node1'') [] quiesce_vm 0"
  have "case ?plan of Inl _ \<Rightarrow> False | Inr p \<Rightarrow> map tg_vdisk (plan_targets p) = [''web-disk0'', ''web-disk1'']
      \<and> sp_consistency p = consistency_domain"
    by (simp add: plan_set_def plan_vm_def sample_simps)
  from case_InrE [OF this] obtain p where p: "?plan = Inr p"
    and q: "map tg_vdisk (plan_targets p) = [''web-disk0'', ''web-disk1''] \<and> sp_consistency p = consistency_domain"
    by (elim exE conjE) (rule that; (assumption | intro conjI))
  show ?thesis
    by (intro exI [of _ p] conjI p q [THEN conjunct1] q [THEN conjunct2] plan_is_capturable [OF p, THEN conjunct2])
qed

text \<open>
  A label can promise more than the set has: with a VM and one of its two disks both members of a domain that
  quiesces per VM, the disk is captured apart from its VM's other disk, neither behind a barrier, and
  the set is still labelled as one in which each VM's disks share a barrier.
\<close>

theorem label_can_overstate:
  "case plan_set [(kind_vm, ''web''), (kind_vdisk, ''web-disk0'')] sample_vms sample_disks (\<lambda>_. Some ''node1'') [] quiesce_vm 0 of
     Inl _ \<Rightarrow> False
   | Inr p \<Rightarrow> sp_consistency p = consistency_vm
       \<and> map (\<lambda>g. (map tg_vdisk (targets g), pause_vms g)) (sp_groups p) = [([''web-disk1''], []), ([''web-disk0''], [])]"
  by (simp add: plan_set_def plan_vm_def plan_vdisk_def sample_simps)

end
