(* ===== verification/Protection_Runner.thy ===== *)
theory Protection_Runner
  imports Snapshot_Runner Protection_Plan
begin

text \<open>
  One pass of the protection domains over the cluster, and the operations an operator asks for
  (\<open>Runner\<close> of \<open>src/rauru_protection.py\<close>): taking a set behind its barriers, abandoning a set that
  failed, deleting, sweeping, recovering what a dead run left and restoring. The \<open>dry_run\<close> attribute
  is an argument. Python's exceptions end a computation and leave what was mutated before them; where
  the code goes on to use it (\<open>taken\<close> and \<open>row\<close> of \<open>take_set\<close>), the result carries both.
\<close>

datatype dreason =
    Noted plan_note | Text string | Bad_Name domain_error | Spared_By set_spared | Refused_By domain_refused
  | This_Minute | Leftover | Not_Resumed "(string \<times> string) list"

record dsummary =
  ds_taken :: "string list"
  ds_pruned :: "string list"
  ds_skipped :: "(string \<times> dreason) list"
  ds_spared :: "(string \<times> dreason) list"
  ds_failures :: "(string \<times> dreason) list"
  ds_resumed :: "string list"

definition no_dsummary :: dsummary where
  "no_dsummary = \<lparr>ds_taken = [], ds_pruned = [], ds_skipped = [], ds_spared = [], ds_failures = [], ds_resumed = []\<rparr>"

definition dsummary_ok :: "dsummary \<Rightarrow> bool" where
  "dsummary_ok s = (ds_failures s = [])"

definition ds_fail :: "string \<Rightarrow> dreason \<Rightarrow> dsummary \<Rightarrow> dsummary" where
  "ds_fail what why sm = sm\<lparr>ds_failures := ds_failures sm @ [(what, why)]\<rparr>"

section \<open>Reading\<close>

definition domains :: "'w env \<Rightarrow> ('w, event, exn + domain_row list) eff" where
  "domains env = rows_or_raise (act (q_domains env) (\<lambda>_. Read_Table))"

definition domain_named :: "'w env \<Rightarrow> string \<Rightarrow> ('w, event, exn + domain_row option) eff" where
  "domain_named env name = bindE (domains env) (\<lambda>ds. okE (List.find (\<lambda>d. d_name d = name) ds))"

definition members_of :: "'w env \<Rightarrow> string \<Rightarrow> ('w, event, exn + (string \<times> string) list) eff" where
  "members_of env name =
     bindE (rows_or_raise (act (q_members env) (\<lambda>_. Read_Table))) (\<lambda>ms.
       okE (map (\<lambda>m. (mr_kind m, mr_name m)) (filter (\<lambda>m. mr_domain m = name) ms)))"

definition sets_of :: "'w env \<Rightarrow> string \<Rightarrow> ('w, event, exn + set_row list) eff" where
  "sets_of env name = rows_or_raise (act (q_sets env name) (\<lambda>_. Read_Table))"

definition vms_map :: "'w env \<Rightarrow> ('w, event, exn + (string \<Rightarrow> vm_row option)) eff" where
  "vms_map env = bindE (rows_or_raise (act (q_vms env) (\<lambda>_. Read_Table))) (\<lambda>vs. okE (dict_of vm_name vs))"

definition vdisks_map :: "'w env \<Rightarrow> ('w, event, exn + (string \<Rightarrow> vdisk_row option)) eff" where
  "vdisks_map env = bindE (vdisks env) (\<lambda>vs. okE (dict_of v_id vs))"

definition owners_and_unreachable ::
    "'w env \<Rightarrow> ('w, event, (string \<Rightarrow> string option) \<times> (string \<times> string list) list \<times> string list) eff" where
  "owners_and_unreachable env = do {
     (whr, unreachable) \<leftarrow> attached env;
     ret (owners_of whr, whr, unreachable) }"

section \<open>Administration\<close>

definition write_row :: "'w env \<Rightarrow> stmt \<Rightarrow> string \<Rightarrow> ('w, event, exn + unit) eff" where
  "write_row env st what = do {
     (rc, err) \<leftarrow> exec env st;
     if rc \<noteq> 0 then raiseE (Runtime_Error (what @ '': '' @ or_str (Some err) (stmt_text st))) else okE () }"

definition write_checked :: "'w env \<Rightarrow> domain_error + stmt \<Rightarrow> string \<Rightarrow> ('w, event, exn + unit) eff" where
  "write_checked env checked what = (case checked of Inl e \<Rightarrow> raiseE (Domain_Error e) | Inr st \<Rightarrow> write_row env st what)"

definition create_domain :: "'w env \<Rightarrow> string \<Rightarrow> bool \<Rightarrow> pynum \<Rightarrow> pynum \<Rightarrow> string \<Rightarrow> pynum \<Rightarrow>
    ('w, event, exn + bool) eff" where
  "create_domain env name enabled interval keep quiesce max_pause =
     bindE (liftE (now_ms env)) (\<lambda>now.
     bindE (domain_named env name) (\<lambda>existing.
     let created = (case existing of None \<Rightarrow> now | Some d \<Rightarrow> or_int (d_created d) now) in
     bindE (write_checked env (domain_insert_statement name enabled interval keep quiesce max_pause created now)
              ''could not write the domain'') (\<lambda>_.
       okE (existing = None))))"

definition add_member :: "'w env \<Rightarrow> string \<Rightarrow> string \<Rightarrow> string \<Rightarrow> ('w, event, exn + unit) eff" where
  "add_member env domain kind name =
     bindE (domain_named env domain) (\<lambda>found.
       if found = None then raiseE (Domain_Refused (No_Domain domain))
       else
         bindE (if kind = kind_vm
                then bindE (vms_map env) (\<lambda>vms.
                       if vms name = None then raiseE (Domain_Refused (No_Vm name)) else okE ())
                else okE ()) (\<lambda>_.
         bindE (if kind = kind_vdisk
                then bindE (vdisks_map env) (\<lambda>disks.
                       case disks name of
                         None \<Rightarrow> raiseE (Domain_Refused (No_Such_Vdisk name))
                       | Some r \<Rightarrow>
                           if or_str (v_class r) ''rw'' \<noteq> ''rw'' then raiseE (Domain_Refused (Not_Writable name))
                           else okE ())
                else okE ()) (\<lambda>_.
         bindE (liftE (now_ms env)) (\<lambda>now.
           write_checked env (member_insert_statement domain kind name now) ''could not add the member''))))"

definition remove_member :: "'w env \<Rightarrow> string \<Rightarrow> string \<Rightarrow> string \<Rightarrow> ('w, event, exn + unit) eff" where
  "remove_member env domain kind name =
     write_checked env (member_delete_statement domain kind name) ''could not remove the member''"

section \<open>Pausing, snapshotting, resuming\<close>

definition power_state :: "power_answer \<Rightarrow> string" where
  "power_state a = (case a of (rc, body, err) \<Rightarrow>
     (case body of None \<Rightarrow> [] | Some b \<Rightarrow> lower (strip (or_str (pw_state b) []))))"

definition power_reason :: "power_answer \<Rightarrow> string \<Rightarrow> string" where
  "power_reason a want = (case a of (rc, body, err) \<Rightarrow>
     or_str (Some (case body of None \<Rightarrow> err | Some b \<Rightarrow> or_str (pw_error b) err))
       (''the domain is '' @ or_str (Some (power_state a)) ''in an unknown state'' @ '', not '' @ want))"

fun power_tries :: "'w env \<Rightarrow> pause \<Rightarrow> string \<Rightarrow> string \<Rightarrow> nat \<Rightarrow> string \<Rightarrow> ('w, event, string + unit) eff" where
  "power_tries env vm action want 0 why = ret (Inl why)"
| "power_tries env vm action want (Suc n) why = do {
     a \<leftarrow> act (q_power env (pz_host_ip vm) (pz_name vm) action) (Power (pz_host_ip vm) (pz_name vm) action);
     if power_state a = want then ret (Inr ())
     else power_tries env vm action want n (power_reason a want) }"

definition power_call :: "'w env \<Rightarrow> pause \<Rightarrow> string \<Rightarrow> string \<Rightarrow> nat \<Rightarrow> ('w, event, string + unit) eff" where
  "power_call env vm action want attempts = power_tries env vm action want (max 1 attempts) ''no answer''"

definition mark_member :: "string \<Rightarrow> (set_member \<Rightarrow> set_member) \<Rightarrow> set_row \<Rightarrow> set_row" where
  "mark_member snap f row =
     row\<lparr>s_members := map (\<lambda>m. if m_snapshot m = snap then f m else m) (s_members row)\<rparr>"

definition snapshot_target :: "'w env \<Rightarrow> target \<Rightarrow> target list \<times> set_row \<Rightarrow>
    ('w, event, exn option \<times> target list \<times> set_row) eff" where
  "snapshot_target env t p = do {
     ip \<leftarrow> ip_for_owner env (tg_owner t);
     case ip of
       None \<Rightarrow> ret (Some (Group_Failed (''no address for node '' @ tg_owner t @ '' in cluster.json'')), p)
     | Some addr \<Rightarrow> do {
         a \<leftarrow> dfs env addr (Dfs_Snapshot (tg_vdisk t) (tg_snapshot t));
         if fst a \<noteq> 0 then
           ret (Some (Group_Failed (''snapshot of '' @ tg_vdisk t @ '' failed: '' @ dfs_error a ''snapshot refused'')), p)
         else do {
           now \<leftarrow> now_ms env;
           record_snapshot env (tg_vdisk t) (tg_snapshot t) origin_domain now;
           ret (None, fst p @ [t],
                mark_member (tg_snapshot t) (\<lambda>m. m\<lparr>m_status := ''taken'', m_node := Some (tg_owner t)\<rparr>) (snd p)) } } }"

definition pause_one :: "'w env \<Rightarrow> pause \<Rightarrow> pause list \<Rightarrow> ('w, event, exn option \<times> pause list) eff" where
  "pause_one env vm paused = do {
     r \<leftarrow> power_call env vm ''suspend'' ''paused'' 1;
     ret (case r of
            Inl why \<Rightarrow> (Some (Group_Failed (''could not pause '' @ pz_name vm @ '': '' @ why)), paused)
          | Inr _ \<Rightarrow> (None, paused @ [vm])) }"

definition resume_one :: "'w env \<Rightarrow> pause \<Rightarrow> (pause \<times> string) list \<Rightarrow> ('w, event, (pause \<times> string) list) eff" where
  "resume_one env vm stranded = do {
     r \<leftarrow> power_call env vm ''resume'' ''running'' resume_attempts;
     ret (case r of Inl why \<Rightarrow> stranded @ [(vm, why)] | Inr _ \<Rightarrow> stranded) }"

definition stranded_error :: "(pause \<times> string) list \<Rightarrow> exn" where
  "stranded_error vs = Group_Failed (''STRANDED: could not resume '' @ join '', '' (map (pz_name \<circ> fst) vs)
     @ ''. They are suspended; run `valcli storage.domain.recover`. '' @ join ''; '' (map snd vs))"

text \<open>One round of the loop over the targets: the time limit, the start of the cut, the snapshot.\<close>

definition take_target :: "'w env \<Rightarrow> int \<Rightarrow> bool \<Rightarrow> int \<Rightarrow> target \<Rightarrow> int option \<times> target list \<times> set_row \<Rightarrow>
    ('w, event, exn option \<times> int option \<times> target list \<times> set_row) eff" where
  "take_target env budget held began t p = do {
     late \<leftarrow> (if held then do { now \<leftarrow> now_ms env; ret (now - began > budget) } else ret False);
     if late then
       ret (Some (Group_Failed (''the guests were still paused after '' @ show_int (budget div 1000)
              @ '' seconds, the limit for this domain, so the set was abandoned rather than hold them longer'')), p)
     else do {
       first \<leftarrow> (case fst p of Some c \<Rightarrow> ret (Some c) | None \<Rightarrow> do { now \<leftarrow> now_ms env; ret (Some now) });
       (x, q) \<leftarrow> snapshot_target env t (snd p);
       ret (x, first, q) } }"

text \<open>The body of the \<open>try\<close> once every guest is paused: when it began, the first and last cut.\<close>

definition take_targets :: "'w env \<Rightarrow> int \<Rightarrow> bool \<Rightarrow> target list \<Rightarrow> target list \<times> set_row \<Rightarrow>
    ('w, event, (exn + int \<times> int option \<times> int) \<times> target list \<times> set_row) eff" where
  "take_targets env budget held ts p = do {
     began \<leftarrow> now_ms env;
     (x, first, q) \<leftarrow> for_keep (take_target env budget held began) ts (None, p);
     case x of
       Some e \<Rightarrow> ret (Inl e, q)
     | None \<Rightarrow> do { cut_end \<leftarrow> now_ms env; ret (Inr (began, first, cut_end), q) } }"

definition take_group :: "'w env \<Rightarrow> barrier \<Rightarrow> int \<Rightarrow> target list \<times> set_row \<Rightarrow>
    ('w, event, (exn + int \<times> int \<times> int) \<times> target list \<times> set_row) eff" where
  "take_group env g budget p = do {
     (x, paused) \<leftarrow> for_keep (pause_one env) (pause_vms g) [];
     (r, q) \<leftarrow> (case x of
                  Some e \<Rightarrow> ret (Inl e, p)
                | None \<Rightarrow> take_targets env budget (paused \<noteq> []) (targets g) p);
     stranded \<leftarrow> for_each (resume_one env) (rev paused) [];
     ret (if stranded \<noteq> [] then Inl (stranded_error stranded)
          else (case r of
              Inl e \<Rightarrow> Inl e
            | Inr (began, first, cut_end) \<Rightarrow>
                Inr (case first of None \<Rightarrow> cut_end | Some c \<Rightarrow> c, cut_end, if paused \<noteq> [] then cut_end - began else 0)),
          q) }"

section \<open>Deleting\<close>

definition says_gone :: "string \<Rightarrow> bool" where
  "says_gone message \<longleftrightarrow> contains (lower message) ''does not exist'' \<or> contains (lower message) ''no vdisk''
     \<or> contains (lower message) ''not found''"

definition delete_snapshot :: "'w env \<Rightarrow> string \<Rightarrow> string \<Rightarrow> ('w, event, exn + bool) eff" where
  "delete_snapshot env v snap =
     bindE (liftE (nodes env)) (\<lambda>ns.
     bindE (liftE (dfs env (first_ip ns) (Dfs_Delete snap))) (\<lambda>a.
       if fst a \<noteq> 0 \<and> \<not> says_gone (dfs_error a []) then okE False
       else
         bindE (index env v) (\<lambda>rows.
         bindE (liftE (for_each (\<lambda>r _. do { _ \<leftarrow> exec env (Index_Delete v (or_int (ix_created r) 0) snap); ret () })
                        (filter (\<lambda>r. ix_snapshot r = snap) rows) ())) (\<lambda>_.
           okE True))))"

definition abandon_one :: "'w env \<Rightarrow> string \<times> string \<Rightarrow> set_row \<times> string list \<Rightarrow>
    ('w, event, exn + set_row \<times> string list) eff" where
  "abandon_one env t p =
     bindE (delete_snapshot env (fst t) (snd t)) (\<lambda>ok.
       okE (if ok then (mark_member (snd t) (\<lambda>m. m\<lparr>m_status := ''deleted''\<rparr>) (fst p), snd p)
            else (fst p, snd p @ [snd t])))"

definition abandon :: "'w env \<Rightarrow> set_row \<Rightarrow> (string \<times> string) list \<Rightarrow> string \<Rightarrow> ('w, event, exn + unit) eff" where
  "abandon env row took error =
     bindE (for_eachE (abandon_one env) took (row, [])) (\<lambda>(row', leftovers).
     bindE (liftE (now_ms env)) (\<lambda>now.
     bindE (liftE (write_row env (Set_Write (row'\<lparr>s_state := Some set_failed, s_finished := Some now,
               s_error := Some (error @ (if leftovers = [] then [] else ''; could not delete '' @ join '', '' leftovers))\<rparr>))
             ''could not record the failed set'')) (\<lambda>_.
       okE ())))"

definition children_of :: "'w env \<Rightarrow> string list \<Rightarrow> ('w, event, exn + (string \<times> string list) list) eff" where
  "children_of env snaps =
     bindE (vdisks env) (\<lambda>rows.
       okE (foldl (\<lambda>found v. dict_append (or_str (v_parent v) []) (v_id v) found) []
              (filter (\<lambda>v. \<exists>s \<in> set snaps. v_parent v = Some s) rows)))"

definition find_set :: "'w env \<Rightarrow> string \<Rightarrow> string \<Rightarrow> ('w, event, exn + set_row) eff" where
  "find_set env domain sid =
     bindE (sets_of env domain) (\<lambda>held.
       case sort_key (\<lambda>s. s_state s = Some set_failed) (filter (\<lambda>s. s_set_id s = sid) held) of
         [] \<Rightarrow> raiseE (Domain_Refused (No_Set sid))
       | s # _ \<Rightarrow> okE s)"

definition with_snapshot :: "set_row \<Rightarrow> set_member list" where
  "with_snapshot s = filter (\<lambda>m. m_snapshot m \<noteq> []) (s_members s)"

definition delete_members :: "'w env \<Rightarrow> set_member list \<Rightarrow> ('w, event, exn + string list) eff" where
  "delete_members env ms =
     for_eachE (\<lambda>m failed. bindE (delete_snapshot env (m_vdisk m) (m_snapshot m)) (\<lambda>ok.
         okE (if ok then failed else failed @ [m_snapshot m]))) ms []"

definition delete_set :: "'w env \<Rightarrow> string \<Rightarrow> string \<Rightarrow> ('w, event, exn + unit) eff" where
  "delete_set env domain sid =
     bindE (find_set env domain sid) (\<lambda>entry.
     bindE (children_of env (map m_snapshot (with_snapshot entry))) (\<lambda>children.
       if children \<noteq> [] then raiseE (Domain_Refused (Has_Children (sort_key fst children)))
       else
         bindE (delete_members env (with_snapshot entry)) (\<lambda>failed.
           if failed \<noteq> [] then
             raiseE (Runtime_Error (''could not delete '' @ join '', '' failed @ ''; the set is kept so a retry finds them''))
           else write_row env (Set_Delete domain (s_taken_at entry) sid) ''could not delete the set'')))"

definition delete_domain :: "'w env \<Rightarrow> string \<Rightarrow> bool \<Rightarrow> ('w, event, exn + unit) eff" where
  "delete_domain env name with_sets =
     bindE (domain_named env name) (\<lambda>found.
       if found = None then raiseE (Domain_Refused (No_Domain name))
       else
         bindE (sets_of env name) (\<lambda>held.
           if held \<noteq> [] \<and> \<not> with_sets then raiseE (Domain_Refused (Holds_Sets (length held)))
           else
             bindE (for_eachE (\<lambda>s _. delete_set env name (s_set_id s)) held ()) (\<lambda>_.
             bindE (members_of env name) (\<lambda>ms.
             bindE (for_eachE (\<lambda>(kind, m) _. remove_member env name kind m) ms ()) (\<lambda>_.
               write_checked env (domain_delete_statement name) ''could not delete the domain'')))))"

definition prune_set :: "'w env \<Rightarrow> bool \<Rightarrow> string \<Rightarrow> string \<Rightarrow> dsummary \<Rightarrow> ('w, event, exn + dsummary) eff" where
  "prune_set env dry domain sid sm =
     (if dry then okE sm
      else do {
        task \<leftarrow> task_start env ''protection_set_prune'' ''protection_set_prune''
                  (json_obj [(''domain'', json_str domain), (''set_id'', json_str sid)]);
        r \<leftarrow> delete_set env domain sid;
        case r of
          Inr _ \<Rightarrow> do { task_finish env task None; okE (sm\<lparr>ds_pruned := ds_pruned sm @ [sid]\<rparr>) }
        | Inl x \<Rightarrow>
            (case x of
               Domain_Refused why \<Rightarrow> do {
                 task_finish env task None;
                 okE (sm\<lparr>ds_spared := ds_spared sm @ [(sid, Refused_By why)]\<rparr>) }
             | Runtime_Error why \<Rightarrow> do {
                 task_finish env task (Some (''pruning '' @ sid @ '' failed: '' @ why));
                 okE (ds_fail sid (Text why) sm) }
             | _ \<Rightarrow> raiseE x) })"

section \<open>Taking a set\<close>

text \<open>The text of the reasons that are stored with a failed set.\<close>

definition note_text :: "plan_note \<Rightarrow> string" where
  "note_text n = (case n of
     Vm_Busy st \<Rightarrow> ''it is mid-operation ('' @ st @ ''); try again when it has finished''
   | No_Host \<Rightarrow> ''it is running but Hydra records no host for it, so it cannot be paused''
   | Disk_Missing v \<Rightarrow> ''it is running but its disk '' @ v @ '' does not exist''
   | Disk_Class v c \<Rightarrow> ''it is running but its disk '' @ v @ '' has class '' @ or_str c []
   | Disk_Detached v unr \<Rightarrow> ''it is running but its disk '' @ v @ '' is not attached on any node''
       @ (if unr = [] then [] else '' ('' @ join '', '' unr @ '' did not answer, so it may be there)'')
   | No_Such_Vm \<Rightarrow> ''no such VM''
   | Vm_Not_Running st \<Rightarrow> ''it is '' @ or_str st ''not running''
       @ '', so nothing is writing and its disks cannot be snapshotted detached''
   | No_Such_Disk \<Rightarrow> ''no such vdisk''
   | Wrong_Class c \<Rightarrow> ''its class is '' @ or_str c []
   | Nothing_New \<Rightarrow> ''not attached on any node, so there is nothing new to capture''
   | Maybe_Elsewhere unr \<Rightarrow> ''not seen attached; '' @ join '', '' unr @ '' did not answer, so it may be on one of them'')"

text \<open>The reason of a summary's entry as text; \<open>%r\<close> of a vdisk id, which has no quotes, is the id in quotes.\<close>

definition dreason_text :: "dreason \<Rightarrow> string" where
  "dreason_text r = (case r of
     Noted n \<Rightarrow> note_text n
   | Text t \<Rightarrow> t
   | Bad_Name (Set_Name_Too_Long v) \<Rightarrow> [quote_char] @ v @ [quote_char]
       @ '' is too long to name a domain snapshot from (the result must be at most 63 characters)''
   | This_Minute \<Rightarrow> ''a set was already taken this minute''
   | Leftover \<Rightarrow> ''a failed set''  @ [quote_char] @ ''s snapshot could not be deleted''
   | Not_Resumed vs \<Rightarrow> ''could not resume '' @ join '', '' (map (\<lambda>(n, why). n @ '' ('' @ why @ '')'') vs)
   | _ \<Rightarrow> [])"

record progress =
  pg_taken :: "target list"
  pg_row :: set_row
  pg_start :: "int option"
  pg_end :: "int option"
  pg_paused :: int

text \<open>One barrier: the row is written before it with the guests it is about to pause.\<close>

definition group_step :: "'w env \<Rightarrow> int \<Rightarrow> barrier \<Rightarrow> progress \<Rightarrow> ('w, event, exn option \<times> progress) eff" where
  "group_step env budget g p = do {
     now \<leftarrow> now_ms env;
     let p' = p\<lparr>pg_row := (pg_row p)\<lparr>s_paused_vms := pause_vms g, s_cut_start := Some now\<rparr>\<rparr>;
     w \<leftarrow> write_row env (Set_Write (pg_row p')) ''could not record the set'';
     case w of
       Inl x \<Rightarrow> ret (Some x, p')
     | Inr _ \<Rightarrow> do {
         (r, took, row) \<leftarrow> take_group env g budget (pg_taken p', pg_row p');
         let q = p'\<lparr>pg_taken := took, pg_row := row\<rparr>;
         ret (case r of
                Inl x \<Rightarrow> (Some x, q)
              | Inr (st, en, pz) \<Rightarrow>
                  (None, q\<lparr>pg_start := Some (case pg_start q of None \<Rightarrow> st | Some c \<Rightarrow> min c st),
                           pg_end := Some (case pg_end q of None \<Rightarrow> en | Some c \<Rightarrow> max c en),
                           pg_paused := max (pg_paused q) pz\<rparr>)) } }"

definition take_groups :: "'w env \<Rightarrow> int \<Rightarrow> barrier list \<Rightarrow> set_row \<Rightarrow> ('w, event, exn option \<times> progress) eff" where
  "take_groups env budget gs row = do {
     let p = \<lparr>pg_taken = [], pg_row = row, pg_start = None, pg_end = None, pg_paused = 0\<rparr>;
     w \<leftarrow> write_row env (Set_Write row) ''could not record the set'';
     case w of
       Inl x \<Rightarrow> ret (Some x, p)
     | Inr _ \<Rightarrow> for_keep (group_step env budget) gs p }"

definition fail_set :: "'w env \<Rightarrow> string option \<Rightarrow> dsummary \<Rightarrow> set_row \<Rightarrow> target list \<Rightarrow> string \<Rightarrow>
    ('w, event, exn + bool \<times> dsummary) eff" where
  "fail_set env task sm row took error =
     bindE (abandon env row (map (\<lambda>t. (tg_vdisk t, tg_snapshot t)) took) error) (\<lambda>_.
     bindE (liftE (task_finish env task (Some (''domain '' @ s_domain row @ '': '' @ error)))) (\<lambda>_.
       okE (False, ds_fail (s_domain row) (Text error) sm)))"

definition close_set :: "'w env \<Rightarrow> string option \<Rightarrow> dsummary \<Rightarrow> progress \<Rightarrow> ('w, event, exn + bool \<times> dsummary) eff" where
  "close_set env task sm p = do {
     now \<leftarrow> now_ms env;
     let row = (pg_row p)\<lparr>s_state := Some set_complete, s_finished := Some now, s_cut_start := pg_start p,
                          s_cut_end := pg_end p, s_paused_ms := Some (pg_paused p), s_paused_vms := []\<rparr>;
     w \<leftarrow> write_row env (Set_Write row) ''could not record the finished set'';
     case w of
       Inl x \<Rightarrow> fail_set env task sm row (pg_taken p) (exn_text x)
     | Inr _ \<Rightarrow> do {
         task_finish env task None;
         okE (True, sm\<lparr>ds_taken := ds_taken sm @ [s_set_id row]\<rparr>) } }"

definition attempt_set :: "'w env \<Rightarrow> dsummary \<Rightarrow> int \<Rightarrow> barrier list \<Rightarrow> set_row \<Rightarrow>
    ('w, event, exn + bool \<times> dsummary) eff" where
  "attempt_set env sm budget gs row = do {
     task \<leftarrow> task_start env ''protection_set'' ''protection_set''
               (json_obj [(''domain'', json_str (s_domain row)), (''set_id'', json_str (s_set_id row))]);
     (x, p) \<leftarrow> take_groups env budget gs row;
     case x of
       Some e \<Rightarrow> fail_set env task sm (pg_row p) (pg_taken p) (exn_text e)
     | None \<Rightarrow> close_set env task sm p }"

definition planned_member :: "target \<Rightarrow> set_member" where
  "planned_member t = \<lparr>m_vm = tg_vm t, m_vdisk = tg_vdisk t, m_snapshot = tg_snapshot t, m_status = ''planned'', m_node = None\<rparr>"

definition fresh_row :: "string \<Rightarrow> int \<Rightarrow> string \<Rightarrow> string \<Rightarrow> set_plan \<Rightarrow> set_row" where
  "fresh_row name now origin quiesce plan =
     \<lparr>s_domain = name, s_taken_at = now, s_set_id = set_id_for name now, s_origin = Some origin,
      s_state = Some set_taking, s_consistency = Some (sp_consistency plan), s_quiesce = Some quiesce,
      s_started = Some now, s_finished = None, s_cut_start = None, s_cut_end = None, s_paused_ms = None,
      s_members = map planned_member (plan_targets plan), s_paused_vms = [], s_error = None\<rparr>"

definition refused_row :: "string \<Rightarrow> int \<Rightarrow> string \<Rightarrow> string \<Rightarrow> set_plan \<Rightarrow> set_row" where
  "refused_row name now origin quiesce plan =
     (fresh_row name now origin quiesce plan)\<lparr>s_state := Some set_failed, s_finished := Some now, s_members := [],
        s_error := Some (join ''; '' (map (\<lambda>(l, r). l @ '': '' @ note_text r) (sp_failures plan)))\<rparr>"

definition take_planned :: "'w env \<Rightarrow> bool \<Rightarrow> dsummary \<Rightarrow> domain_row \<Rightarrow> string \<Rightarrow> int \<Rightarrow> string \<Rightarrow> set_plan \<Rightarrow>
    ('w, event, exn + bool \<times> dsummary) eff" where
  "take_planned env dry sm d origin now quiesce plan =
     (let sm1 = sm\<lparr>ds_skipped := ds_skipped sm @ map (\<lambda>(l, r). (l, Noted r)) (sp_skipped plan)\<rparr>;
          sm2 = sm1\<lparr>ds_failures := ds_failures sm1 @ map (\<lambda>(l, r). (l, Noted r)) (sp_failures plan)\<rparr>
      in if sp_failures plan \<noteq> [] then
           bindE (if dry then okE ()
                  else write_row env (Set_Write (refused_row (d_name d) now origin quiesce plan))
                         ''could not record the failed set'') (\<lambda>_.
             okE (False, sm2))
         else if sp_groups plan = [] \<or> dry then okE (True, sm1)
         else attempt_set env sm1 (or_int (d_max_pause d) default_max_pause_seconds * 1000) (sp_groups plan)
                (fresh_row (d_name d) now origin quiesce plan))"

definition take_set :: "'w env \<Rightarrow> bool \<Rightarrow> dsummary \<Rightarrow> domain_row \<Rightarrow> string \<Rightarrow>
    ('w, event, exn + bool \<times> dsummary) eff" where
  "take_set env dry sm d origin =
     bindE (liftE (now_ms env)) (\<lambda>now.
     bindE (sets_of env (d_name d)) (\<lambda>held.
       if list_ex (\<lambda>s. s_set_id s = set_id_for (d_name d) now \<and> s_state s \<noteq> Some set_failed) held then
         okE (True, sm\<lparr>ds_skipped := ds_skipped sm @ [(d_name d, This_Minute)]\<rparr>)
       else
         bindE (liftE (owners_and_unreachable env)) (\<lambda>(owners, whr, unreachable).
         bindE (members_of env (d_name d)) (\<lambda>ms.
         bindE (vms_map env) (\<lambda>vms.
         bindE (vdisks_map env) (\<lambda>disks.
         let quiesce = or_str (d_quiesce d) quiesce_vm in
           case plan_set ms vms disks owners unreachable quiesce now of
             Inl e \<Rightarrow> okE (False, ds_fail (d_name d) (Bad_Name e) sm)
           | Inr plan \<Rightarrow> take_planned env dry sm d origin now quiesce plan))))))"

section \<open>Recovering\<close>

definition resume_left :: "'w env \<Rightarrow> pause \<Rightarrow> dsummary \<times> (string \<times> string) list \<Rightarrow>
    ('w, event, dsummary \<times> (string \<times> string) list) eff" where
  "resume_left env vm p = do {
     r \<leftarrow> power_call env vm ''resume'' ''running'' resume_attempts;
     ret (case r of
            Inr _ \<Rightarrow> ((fst p)\<lparr>ds_resumed := ds_resumed (fst p) @ [pz_name vm]\<rparr>, snd p)
          | Inl why \<Rightarrow> (fst p, snd p @ [(pz_name vm, why)])) }"

definition taken_members :: "set_row \<Rightarrow> set_member list" where
  "taken_members s = filter (\<lambda>m. m_status m = ''taken'') (s_members s)"

definition recover_set :: "'w env \<Rightarrow> set_row \<Rightarrow> dsummary \<Rightarrow> ('w, event, exn + dsummary) eff" where
  "recover_set env entry sm =
     bindE (liftE (for_each (resume_left env) (s_paused_vms entry) (sm, []))) (\<lambda>(sm', stuck).
       if stuck \<noteq> [] then okE (ds_fail (s_set_id entry) (Not_Resumed stuck) sm')
       else
         bindE (abandon env (entry\<lparr>s_paused_vms := []\<rparr>)
                  (map (\<lambda>m. (m_vdisk m, m_snapshot m)) (taken_members entry))
                  ''interrupted: the run that took it died'') (\<lambda>_.
           okE sm'))"

definition recover :: "'w env \<Rightarrow> bool \<Rightarrow> bool \<Rightarrow> dsummary \<Rightarrow> ('w, event, exn + dsummary) eff" where
  "recover env dry force sm =
     (if dry then okE sm
      else
        bindE (liftE (now_ms env)) (\<lambda>now.
        bindE (domains env) (\<lambda>ds.
          for_eachE (\<lambda>d sm1.
            bindE (sets_of env (d_name d)) (\<lambda>held.
              for_eachE (recover_set env) (stale_taking held now force) sm1)) ds sm)))"

definition snapshot_domain :: "'w env \<Rightarrow> bool \<Rightarrow> string \<Rightarrow> string \<Rightarrow> ('w, event, exn + set_row) eff" where
  "snapshot_domain env dry name origin =
     bindE (domain_named env name) (\<lambda>found.
       case found of
         None \<Rightarrow> raiseE (Domain_Refused (No_Domain name))
       | Some d \<Rightarrow>
           bindE (recover env dry False no_dsummary) (\<lambda>sm.
           bindE (take_set env dry sm d origin) (\<lambda>(ok, sm').
             if \<not> ok then raiseE (Runtime_Error (case ds_failures sm' of
                 [] \<Rightarrow> ''the set could not be taken'' | (_, why) # _ \<Rightarrow> dreason_text why))
             else (case ds_taken sm' of
                 [] \<Rightarrow> raiseE (Domain_Refused (Nothing_Captured (case ds_skipped sm' of
                   [] \<Rightarrow> ''nothing was captured'' | (_, why) # _ \<Rightarrow> dreason_text why)))
               | sid # _ \<Rightarrow>
                   bindE (sets_of env name) (\<lambda>held.
                     case List.find (\<lambda>s. s_set_id s = sid) held of
                       Some s \<Rightarrow> okE s
                     | None \<Rightarrow> raiseE (Runtime_Error ''the set was taken but could not be read back''))))))"

section \<open>Sweeping and the run\<close>

definition sweep_member :: "'w env \<Rightarrow> set_member \<Rightarrow> set_member list \<times> bool \<times> dsummary \<Rightarrow>
    ('w, event, exn + set_member list \<times> bool \<times> dsummary) eff" where
  "sweep_member env m p = (case p of (ms, changed, sm) \<Rightarrow>
     if m_status m \<noteq> ''taken'' then okE (ms @ [m], changed, sm)
     else
       bindE (delete_snapshot env (m_vdisk m) (m_snapshot m)) (\<lambda>ok.
         okE (if ok then (ms @ [m\<lparr>m_status := ''deleted''\<rparr>], True, sm)
              else (ms @ [m], changed, ds_fail (m_snapshot m) Leftover sm))))"

definition sweep_set :: "'w env \<Rightarrow> set_row \<Rightarrow> set_row list \<times> dsummary \<Rightarrow>
    ('w, event, exn + set_row list \<times> dsummary) eff" where
  "sweep_set env s p =
     (if s_state s \<noteq> Some set_failed then okE (fst p @ [s], snd p)
      else
        bindE (for_eachE (sweep_member env) (s_members s) ([], False, snd p)) (\<lambda>(ms, changed, sm).
        let s' = s\<lparr>s_members := ms\<rparr> in
        bindE (if changed then write_row env (Set_Write s') ''could not update the failed set'' else okE ()) (\<lambda>_.
          okE (fst p @ [s'], sm))))"

definition sweep_failed :: "'w env \<Rightarrow> string \<Rightarrow> dsummary \<Rightarrow> ('w, event, exn + dsummary) eff" where
  "sweep_failed env name sm =
     bindE (sets_of env name) (\<lambda>held.
     bindE (for_eachE (sweep_set env) held ([], sm)) (\<lambda>(held', sm').
     bindE (for_eachE (\<lambda>s _. if taken_members s = []
                then write_row env (Set_Delete name (s_taken_at s) (s_set_id s)) ''could not drop an old failed set''
                else okE ()) (failed_rows_to_drop held') ()) (\<lambda>_.
       okE sm')))"

definition domain_pinned_sets :: "string \<Rightarrow> string \<Rightarrow> string option" where
  "domain_pinned_sets domain = (\<lambda>_. None)"

definition newest_set :: "set_row list \<Rightarrow> int option" where
  "newest_set held = (case map s_taken_at (filter policy_complete held) of
     [] \<Rightarrow> None | t # ts \<Rightarrow> Some (foldl max t ts))"

definition prune_sets :: "'w env \<Rightarrow> bool \<Rightarrow> domain_row \<Rightarrow> string set \<Rightarrow> (string \<times> string list) list \<Rightarrow> dsummary \<Rightarrow>
    ('w, event, exn + dsummary) eff" where
  "prune_sets env dry d referenced whr sm =
     bindE (sweep_failed env (d_name d) sm) (\<lambda>sm1.
     bindE (sets_of env (d_name d)) (\<lambda>held.
     let plan = plan_set_retention referenced (attached_map whr) (domain_pinned_sets (d_name d)) held (or_int (d_keep_last d) 1);
         sm2 = sm1\<lparr>ds_spared := ds_spared sm1 @ map (\<lambda>(s, why). (s, Spared_By why)) (sort_key fst (r_protected plan))\<rparr>
     in for_eachE (prune_set env dry (d_name d)) (r_prune plan) sm2))"

definition one_domain :: "'w env \<Rightarrow> bool \<Rightarrow> string set \<Rightarrow> (string \<times> string list) list \<Rightarrow> string list \<Rightarrow>
    domain_row \<Rightarrow> dsummary \<Rightarrow> ('w, event, exn + dsummary) eff" where
  "one_domain env dry referenced whr unreachable d sm =
     bindE (sets_of env (d_name d)) (\<lambda>held.
     bindE (liftE (now_ms env)) (\<lambda>now.
     bindE (if is_due (d_interval d) (newest_set held) now then take_set env dry sm d set_origin_policy
            else okE (True, sm)) (\<lambda>(ok, sm1).
       if \<not> ok \<or> unreachable \<noteq> [] then okE sm1
       else prune_sets env dry d referenced whr sm1)))"

definition run_domains :: "'w env \<Rightarrow> bool \<Rightarrow> ('w, event, exn + dsummary) eff" where
  "run_domains env dry =
     bindE (recover env dry False no_dsummary) (\<lambda>sm.
     bindE (domains env) (\<lambda>ds.
     let enabled = filter (\<lambda>d. truthy (d_enabled d)) ds in
       if enabled = [] then okE sm
       else
         bindE (liftE (owners_and_unreachable env)) (\<lambda>(owners, whr, unreachable).
         bindE (vdisks env) (\<lambda>vs.
           for_eachE (one_domain env dry (referenced_of vs) whr unreachable) (sort_key d_name enabled) sm))))"

section \<open>Restoring\<close>

definition check_members :: "'w env \<Rightarrow> set_member list \<Rightarrow> ('w, event, exn + (string \<times> rollback_refused) list) eff" where
  "check_members env ms =
     for_eachE (\<lambda>m refusals. do {
         r \<leftarrow> check_rollback env (m_vdisk m) (m_snapshot m);
         case r of
           Inr _ \<Rightarrow> okE refusals
         | Inl x \<Rightarrow> (case x of Rollback_Refused why \<Rightarrow> okE (refusals @ [(m_vdisk m, why)]) | _ \<Rightarrow> raiseE x) }) ms []"

definition restore_one :: "'w env \<Rightarrow> bool \<Rightarrow> set_member list \<Rightarrow> set_member \<Rightarrow> string list \<Rightarrow>
    ('w, event, exn + string list) eff" where
  "restore_one env keep ms m done = do {
     r \<leftarrow> rollback env (m_vdisk m) (m_snapshot m) keep;
     case r of
       Inr _ \<Rightarrow> okE (done @ [m_vdisk m])
     | Inl x \<Rightarrow>
         (let incomplete = Restore_Incomplete done (filter (\<lambda>v. v \<notin> set done) (map m_vdisk ms)) in
          case x of
            Rollback_Refused _ \<Rightarrow> raiseE incomplete
          | Runtime_Error _ \<Rightarrow> raiseE incomplete
          | Policy_Exn _ \<Rightarrow> raiseE incomplete
          | _ \<Rightarrow> raiseE x) }"

definition restore_set :: "'w env \<Rightarrow> string \<Rightarrow> string \<Rightarrow> bool \<Rightarrow> ('w, event, exn + string list) eff" where
  "restore_set env domain sid keep =
     bindE (find_set env domain sid) (\<lambda>entry.
       if s_state entry \<noteq> Some set_complete then raiseE (Domain_Refused (Not_Complete (s_state entry)))
       else if taken_members entry = [] then raiseE (Domain_Refused No_Snapshots)
       else
         bindE (check_members env (taken_members entry)) (\<lambda>refusals.
           if refusals \<noteq> [] then raiseE (Domain_Refused (Nothing_Restored refusals))
           else for_eachE (restore_one env keep (taken_members entry)) (taken_members entry) []))"

end
