(* ===== verification/Protection_Safety.thy ===== *)
theory Protection_Safety
  imports Protection_Runner
begin

text \<open>
  What the protection runner guarantees about a cluster, whatever the cluster answers: guests it
  pauses are resumed, a set recorded as complete is complete, a set that failed deletes what it took,
  a set is deleted only after a look at what was derived from it, and a restore sends nothing unless
  every member may be rolled back.
\<close>

section \<open>Guests\<close>

text \<open>
  The guests that answered a suspend with the state \<open>paused\<close> and were not released since: by a resume
  request, or, when \<open>confirm\<close> holds, by a resume whose answer is the state \<open>running\<close>.
\<close>

fun still_held :: "bool \<Rightarrow> (string option \<times> string) set \<Rightarrow> event list \<Rightarrow> (string option \<times> string) set" where
  "still_held confirm H [] = H"
| "still_held confirm H (Power h n action a # es) =
     still_held confirm
       (if action = ''suspend'' \<and> power_state a = ''paused'' then insert (h, n) H
        else if action = ''resume'' \<and> (\<not> confirm \<or> power_state a = ''running'') then H - {(h, n)}
        else H) es"
| "still_held confirm H (e # es) = still_held confirm H es"

definition releases :: "bool \<Rightarrow> event list \<Rightarrow> bool" where
  "releases confirm es \<longleftrightarrow> (\<forall>H. still_held confirm H es \<subseteq> H)"

definition is_suspend :: "event \<Rightarrow> bool" where
  "is_suspend e = (case e of Power _ _ action _ \<Rightarrow> action = ''suspend'' | _ \<Rightarrow> False)"

definition guest :: "pause \<Rightarrow> string option \<times> string" where
  "guest vm = (pz_host_ip vm, pz_name vm)"

lemma holding_append: "still_held c H (xs @ ys) = still_held c (still_held c H xs) ys"
  by (induction c H xs rule: still_held.induct) auto

lemma holding_no_suspend: "list_all (\<lambda>e. \<not> is_suspend e) es \<Longrightarrow> still_held c H es \<subseteq> H"
  by (induction c H es rule: still_held.induct) (auto simp: is_suspend_def split: if_splits)

lemma releases_no_suspend: "list_all (\<lambda>e. \<not> is_suspend e) es \<Longrightarrow> releases c es"
  by (simp add: releases_def holding_no_suspend)

interpretation released: trace_property "releases c" for c
proof
  show "releases c []" by (simp add: releases_def)
  show "releases c xs \<Longrightarrow> releases c ys \<Longrightarrow> releases c (xs @ ys)" for xs ys
    unfolding releases_def by (auto simp: holding_append)
qed

text \<open>The events of each operation, by class.\<close>

lemma emits_power_tries:
  "(\<And>a. P (Power (pz_host_ip vm) (pz_name vm) action a)) \<Longrightarrow> emits P (power_tries env vm action want n why)"
  by (induction n arbitrary: why) (auto intro!: emits_intros)

lemma emits_readers:
  assumes "P Read_Table"
  shows "emits P (domains env)" "emits P (domain_named env n)" "emits P (members_of env n)" "emits P (sets_of env n)"
    "emits P (vms_map env)" "emits P (find_set env n sid)"
  using assms unfolding domain_named_def find_set_def domains_def members_of_def sets_of_def vms_map_def
  by (auto intro!: emits_intros emits_rows_or_raise split: list.split)

lemma emits_vdisks_map: "P Read_Table \<Longrightarrow> (\<And>rows. P (Saw_Vdisks rows)) \<Longrightarrow> emits P (vdisks_map env)"
  unfolding vdisks_map_def by (auto intro!: emits_intros emits_calls)

lemma emits_owners: "(\<And>ip a. P (Dfs ip Dfs_List a)) \<Longrightarrow> emits P (owners_and_unreachable env)"
  unfolding owners_and_unreachable_def by (auto intro!: emits_intros emits_attached)

lemma emits_write_row: "(\<And>rc. P (Exec st rc)) \<Longrightarrow> emits P (write_row env st what)"
  unfolding write_row_def by (auto intro!: emits_intros emits_calls)

lemma emits_snapshot_target:
  assumes "\<And>st rc. P (Exec st rc)" and "\<And>ip v s a. P (Dfs ip (Dfs_Snapshot v s) a)"
  shows "emits P (snapshot_target env t p)"
  using assms unfolding snapshot_target_def by (auto intro!: emits_intros emits_calls emits_ip_for_owner emits_record)

lemma emits_take_targets:
  assumes "\<And>st rc. P (Exec st rc)" and "\<And>ip v s a. P (Dfs ip (Dfs_Snapshot v s) a)"
  shows "emits P (take_targets env budget held ts p)"
  using assms unfolding take_targets_def take_target_def
  by (auto intro!: emits_intros emits_calls emits_snapshot_target)

lemma emits_delete_snapshot:
  assumes "P Read_Table" "\<And>st rc. P (Exec st rc)" and "\<And>ip a. P (Dfs ip (Dfs_Delete snap) a)"
  shows "emits P (delete_snapshot env v snap)"
  using assms unfolding delete_snapshot_def by (auto intro!: emits_intros emits_calls)

lemma emits_abandon:
  assumes "P Read_Table" "\<And>st rc. P (Exec st rc)" and "\<And>ip s a. P (Dfs ip (Dfs_Delete s) a)"
  shows "emits P (abandon env row took error)"
  using assms unfolding abandon_def abandon_one_def
  by (auto intro!: emits_intros emits_calls emits_delete_snapshot emits_write_row)

lemma emits_fail_set:
  assumes "P Read_Table" "\<And>st rc. P (Exec st rc)" and "\<And>ip s a. P (Dfs ip (Dfs_Delete s) a)"
  shows "emits P (fail_set env task sm row took error)"
  using assms unfolding fail_set_def by (auto intro!: emits_intros emits_calls emits_abandon)

lemma emits_close_set:
  assumes "P Read_Table" "\<And>st rc. P (Exec st rc)" and "\<And>ip s a. P (Dfs ip (Dfs_Delete s) a)"
  shows "emits P (close_set env task sm p)"
  using assms unfolding close_set_def Let_def by (auto intro!: emits_intros emits_calls emits_write_row emits_fail_set)

lemma emits_recover:
  assumes "P Read_Table" "\<And>st rc. P (Exec st rc)" and "\<And>ip s a. P (Dfs ip (Dfs_Delete s) a)"
    and "\<And>h n a. P (Power h n ''resume'' a)"
  shows "emits P (recover env dry force sm)"
  using assms unfolding recover_def recover_set_def resume_left_def power_call_def
  by (auto intro!: emits_intros emits_calls emits_readers emits_power_tries emits_abandon)

lemma emits_delete_set:
  assumes "P Read_Table" "\<And>rows. P (Saw_Vdisks rows)" "\<And>st rc. P (Exec st rc)" and "\<And>ip s a. P (Dfs ip (Dfs_Delete s) a)"
  shows "emits P (delete_set env d sid)"
  using assms unfolding delete_set_def children_of_def delete_members_def
  by (auto intro!: emits_intros emits_calls emits_readers emits_delete_snapshot emits_write_row)

lemma emits_prune_sets:
  assumes "P Read_Table" "\<And>rows. P (Saw_Vdisks rows)" "\<And>st rc. P (Exec st rc)" and "\<And>ip s a. P (Dfs ip (Dfs_Delete s) a)"
  shows "emits P (prune_sets env dry d referenced whr sm)"
proof -
  have "emits P (prune_set env dry (d_name d) sid sm)" for sid sm
    using assms unfolding prune_set_def
    by (auto intro!: emits_intros emits_calls emits_delete_set split: exn.split)
  moreover have "emits P (sweep_failed env (d_name d) sm)" for sm
    using assms unfolding sweep_failed_def sweep_set_def sweep_member_def Let_def
    by (auto intro!: emits_intros emits_readers emits_delete_snapshot emits_write_row)
  ultimately show ?thesis
    using assms unfolding prune_sets_def Let_def by (auto intro!: emits_intros emits_readers)
qed

lemmas emits_protection = emits_readers emits_vdisks_map emits_owners emits_write_row emits_snapshot_target
  emits_take_targets emits_delete_snapshot emits_abandon emits_fail_set emits_close_set emits_recover
  emits_delete_set emits_prune_sets

text \<open>Pausing holds only what it returns; resuming releases what it is given.\<close>

definition holds :: "bool \<Rightarrow> (string option \<times> string) set \<Rightarrow> event list \<Rightarrow> bool" where
  "holds confirm G es \<longleftrightarrow> (\<forall>H. still_held confirm H es \<subseteq> H \<union> G)"

definition frees :: "bool \<Rightarrow> (string option \<times> string) set \<Rightarrow> event list \<Rightarrow> bool" where
  "frees confirm G es \<longleftrightarrow> (\<forall>H. still_held confirm H es \<subseteq> H - G)"

lemma holds_append:
  assumes "holds c G xs" and "holds c K ys"
  shows "holds c (G \<union> K) (xs @ ys)"
  unfolding holds_def
proof
  fix H
  have "still_held c (still_held c H xs) ys \<subseteq> still_held c H xs \<union> K" using assms(2) unfolding holds_def by blast
  also have "still_held c H xs \<subseteq> H \<union> G" using assms(1) unfolding holds_def by blast
  finally show "still_held c H (xs @ ys) \<subseteq> H \<union> (G \<union> K)" unfolding holding_append by blast
qed

lemma frees_append:
  assumes "frees c G xs" and "frees c K ys"
  shows "frees c (G \<union> K) (xs @ ys)"
  unfolding frees_def
proof
  fix H
  have "still_held c (still_held c H xs) ys \<subseteq> still_held c H xs - K" using assms(2) unfolding frees_def by blast
  also have "still_held c H xs \<subseteq> H - G" using assms(1) unfolding frees_def by blast
  finally show "still_held c H (xs @ ys) \<subseteq> H - (G \<union> K)" unfolding holding_append by blast
qed

lemma holds_then_frees:
  assumes "holds c G xs" and "releases c ys" and "frees c G zs"
  shows "releases c (xs @ ys @ zs)"
  unfolding releases_def
proof
  fix H
  have "still_held c (still_held c (still_held c H xs) ys) zs \<subseteq> still_held c (still_held c H xs) ys - G"
    using assms(3) unfolding frees_def by blast
  also have "still_held c (still_held c H xs) ys \<subseteq> still_held c H xs" using assms(2) by (simp add: releases_def)
  also have "still_held c H xs \<subseteq> H \<union> G" using assms(1) unfolding holds_def by blast
  finally show "still_held c H (xs @ ys @ zs) \<subseteq> H" unfolding holding_append by blast
qed

lemma pause_one_events:
  "yields (pause_one env vm paused) (\<lambda>r es.
     \<exists>G. holds c G es \<and> snd r = (if fst r = None then paused @ [vm] else paused) \<and> G = (if fst r = None then {guest vm} else {}))"
  unfolding pause_one_def power_call_def
  by (auto intro!: yields_intros simp: holds_def guest_def)

lemma pause_all_events:
  "yields (for_keep (pause_one env) vms []) (\<lambda>r es. holds c (guest ` set (snd r)) es)"
proof -
  let ?I = "\<lambda>a es. holds c (guest ` set a) es"
  have step: "yields (pause_one env vm a) (\<lambda>r es'. ?I (snd r) (es @ es'))" if "?I a es" for vm a es
    by (rule yields_mono [OF pause_one_events [where c = c]])
       (use that in \<open>auto dest: holds_append split: if_splits\<close>)
  have "yields (for_keep (pause_one env) vms []) (\<lambda>r es. case fst r of
      Some _ \<Rightarrow> ?I (snd r) ([] @ es) | None \<Rightarrow> ?I (snd r) ([] @ es))"
    by (rule yields_for_keep [where I = "\<lambda>_. ?I" and J = "\<lambda>_. ?I"], rule yields_mono, erule step)
       (auto simp: holds_def split: option.splits)
  then show ?thesis by (rule yields_mono) (auto split: option.splits)
qed

lemma resume_tries_events:
  "yields (power_tries env vm ''resume'' ''running'' n why) (\<lambda>r es.
     (n > 0 \<longrightarrow> frees False {guest vm} es) \<and> (\<forall>u. r = Inr u \<longrightarrow> frees True {guest vm} es))"
proof (induction n arbitrary: why)
  case (Suc n)
  have "emits (\<lambda>e. \<not> is_suspend e) (power_tries env vm ''resume'' ''running'' n w)" for w
    by (rule emits_power_tries) (simp add: is_suspend_def)
  then have tries: "yields (power_tries env vm ''resume'' ''running'' n w) (\<lambda>r es. releases False es
      \<and> (\<forall>u. r = Inr u \<longrightarrow> frees True {guest vm} es))" for w
    by (rule yields_mono [OF yields_conj [OF _ Suc.IH]]) (auto intro: releases_no_suspend)
  show ?case
    by (auto intro!: yields_bind yields_act yields_if yields_ret yields_mono [OF tries] simp: guest_def frees_def releases_def; blast)
qed (simp add: yields_ret)

lemma resume_one_events:
  "yields (resume_one env vm stranded) (\<lambda>st es. frees False {guest vm} es
     \<and> (st = [] \<longrightarrow> stranded = [] \<and> frees True {guest vm} es))"
  unfolding resume_one_def power_call_def
  by (intro yields_bind yields_mono [OF resume_tries_events] yields_ret) (auto split: sum.splits)

lemma resume_all_events:
  "yields (for_each (resume_one env) vms st) (\<lambda>st' es. frees False (guest ` set vms) es
     \<and> (st' = [] \<longrightarrow> st = [] \<and> frees True (guest ` set vms) es))"
proof (induction vms arbitrary: st)
  case (Cons vm vms)
  show ?case
    by (auto intro!: yields_bind yields_mono [OF resume_one_events] yields_mono [OF Cons.IH] dest: frees_append)
qed (simp add: yields_ret frees_def)

lemma take_group_releases:
  "yields (take_group env g budget p) (\<lambda>r es. releases False es \<and> (case fst r of Inl _ \<Rightarrow> True | Inr _ \<Rightarrow> releases True es))"
proof -
  let ?body = "\<lambda>x b. case x of Some e \<Rightarrow> ret (Inl e, p) | None \<Rightarrow> take_targets env budget b (targets g) p"
  have "emits (\<lambda>e. \<not> is_suspend e) (?body x b)" for x b
    by (intro emits_intros emits_take_targets) (simp_all add: is_suspend_def)
  then have tt: "yields (?body x b) (\<lambda>_ es. releases True es \<and> releases False es)" for x b
    by (rule yields_mono) (simp add: releases_no_suspend)
  have pp: "yields (for_keep (pause_one env) (pause_vms g) [])
      (\<lambda>r es. holds True (guest ` set (snd r)) es \<and> holds False (guest ` set (snd r)) es)"
    by (rule yields_conj) (rule pause_all_events)+
  show ?thesis
    unfolding take_group_def
    by (intro yields_bind yields_mono [OF pp] yields_case_prod yields_mono [OF tt] yields_mono [OF resume_all_events] yields_ret)
       (auto intro: holds_then_frees split: sum.splits if_splits)
qed

lemma releases_quiet: "emits (\<lambda>e. \<not> is_suspend e) m \<Longrightarrow> yields m (\<lambda>_. releases c)"
  by (erule yields_mono) (rule releases_no_suspend)

text \<open>What \<open>take_set\<close> promises of the guests, for its result and its events.\<close>

definition guests_released :: "exn + bool \<times> dsummary \<Rightarrow> event list \<Rightarrow> bool" where
  "guests_released r es \<longleftrightarrow> still_held False {} es = {} \<and> (\<forall>sm. r = Inr (True, sm) \<longrightarrow> still_held True {} es = {})"

lemma group_step_releases:
  "yields (group_step env budget g p) (\<lambda>r es. releases False es \<and> (fst r = None \<longrightarrow> releases True es))"
proof -
  have w: "yields (write_row env st what) (\<lambda>_ es. releases False es \<and> releases True es)" for st what
    by (intro yields_conj releases_quiet emits_write_row) (simp_all add: is_suspend_def)
  show ?thesis
    unfolding group_step_def Let_def now_ms_def
    by (intro yields_bind yields_look yields_mono [OF w] yields_case_sum yields_ret yields_mono [OF take_group_releases] yields_case_prod)
       (auto intro: released.together split: sum.splits)
qed

lemma take_groups_releases:
  "yields (take_groups env budget gs row) (\<lambda>r es. releases False es \<and> (fst r = None \<longrightarrow> releases True es))"
proof -
  have w: "yields (write_row env st what) (\<lambda>_ es. releases False es \<and> releases True es)" for st what
    by (intro yields_conj releases_quiet emits_write_row) (simp_all add: is_suspend_def)
  have "yields (for_keep (group_step env budget) gs p) (\<lambda>r es. case fst r of
      Some _ \<Rightarrow> releases False ([] @ es) | None \<Rightarrow> releases False ([] @ es) \<and> releases True ([] @ es))" for p
    by (rule yields_for_keep [where I = "\<lambda>_ _ es. releases False es \<and> releases True es" and J = "\<lambda>_ _. releases False"],
        rule yields_mono [OF group_step_releases])
       (auto intro: released.together released.no_events split: option.splits)
  note loop = yields_mono [OF this]
  show ?thesis
    unfolding take_groups_def Let_def
    by (intro yields_bind yields_mono [OF w] yields_case_sum yields_ret loop)
       (auto intro: released.together split: option.splits)
qed

lemma attempt_set_releases:
  "yields (attempt_set env sm budget gs row) (\<lambda>r es. releases False es \<and> (\<forall>sm'. r = Inr (True, sm') \<longrightarrow> releases True es))"
proof -
  have start: "yields (task_start env ty ac pl) (\<lambda>_ es. releases False es \<and> releases True es)" for ty ac pl
    by (intro yields_conj releases_quiet emits_calls) (simp_all add: is_suspend_def)
  have close: "yields (close_set env task sm p) (\<lambda>_ es. releases False es \<and> releases True es)" for task p
    by (intro yields_conj releases_quiet emits_close_set) (simp_all add: is_suspend_def)
  have ab: "yields (abandon env r t e) (\<lambda>_. releases False)" for r t e
    by (intro releases_quiet emits_abandon) (simp_all add: is_suspend_def)
  have fin: "yields (task_finish env t e) (\<lambda>_. releases False)" for t e
    by (intro releases_quiet emits_calls) (simp_all add: is_suspend_def)
  have failing: "yields (fail_set env task sm r t e) (\<lambda>x es. releases False es \<and> (\<forall>sm'. x \<noteq> Inr (True, sm')))" for task r t e
    unfolding fail_set_def bindE_def liftE_def
    by (intro yields_bind yields_case_sum yields_ret yields_mono [OF ab] yields_mono [OF fin]) (auto intro: released.together)
  show ?thesis
    unfolding attempt_set_def
    by (intro yields_bind yields_mono [OF start] yields_case_prod yields_mono [OF take_groups_releases] yields_case_option
        yields_mono [OF close] yields_mono [OF failing]) (auto intro: released.together)
qed

lemma take_planned_releases:
  "yields (take_planned env dry sm d origin now q plan)
     (\<lambda>r es. releases False es \<and> (\<forall>sm'. r = Inr (True, sm') \<longrightarrow> releases True es))"
proof -
  have w: "yields (write_row env st what) (\<lambda>_ es. releases False es \<and> releases True es)" for st what
    by (intro yields_conj releases_quiet emits_write_row) (simp_all add: is_suspend_def)
  show ?thesis
    unfolding take_planned_def Let_def bindE_def
    by (intro yields_if yields_bind yields_case_sum yields_ret yields_mono [OF w] attempt_set_releases)
       (auto intro: released.no_events)
qed

text \<open>A prefix that pauses nobody.\<close>

lemma releases_prefix:
  assumes m: "emits (\<lambda>e. \<not> is_suspend e) m"
    and f: "\<And>a. yields (f a) (\<lambda>r es. releases False es \<and> (\<forall>sm. r = Inr (True, sm) \<longrightarrow> releases True es))"
  shows "yields (bindE m f) (\<lambda>r es. releases False es \<and> (\<forall>sm. r = Inr (True, sm) \<longrightarrow> releases True es))"
  by (rule yields_bindE, rule yields_mono [OF m])
     (auto split: sum.split intro!: yields_mono [OF f] intro: releases_no_suspend released.together)

lemma take_set_releases:
  "yields (take_set env dry sm d origin) (\<lambda>r es. releases False es \<and> (\<forall>sm'. r = Inr (True, sm') \<longrightarrow> releases True es))"
  unfolding take_set_def Let_def
  by (intro releases_prefix yields_if yields_ret yields_case_sum yields_case_prod take_planned_releases
      all_events.of_liftE emits_calls emits_protection)
     (simp_all add: is_suspend_def released.no_events)

lemma one_domain_releases: "yields (one_domain env dry ref whr unr d sm) (\<lambda>_. releases False)"
proof -
  have ts: "yields (take_set env dry sm d origin) (\<lambda>_. releases False)" for origin
    by (rule yields_mono [OF take_set_releases]) simp
  have ps: "yields (prune_sets env dry d ref whr sm1) (\<lambda>_. releases False)" for sm1
    by (intro releases_quiet emits_protection) (simp_all add: is_suspend_def)
  have reads: "yields (sets_of env n) (\<lambda>_. releases False)" "yields (now_ms env) (\<lambda>_. releases False)" for n
    by (intro releases_quiet emits_protection emits_calls; simp add: is_suspend_def)+
  show ?thesis
    unfolding one_domain_def by (intro released.rules ts ps reads)
qed

lemma run_domains_releases: "yields (run_domains env dry) (\<lambda>_. releases False)"
proof -
  have quiet: "yields (recover env dry False s) (\<lambda>_. releases False)" "yields (domains env) (\<lambda>_. releases False)"
    "yields (owners_and_unreachable env) (\<lambda>_. releases False)" "yields (vdisks env) (\<lambda>_. releases False)" for s
    by (intro releases_quiet emits_protection emits_calls; simp add: is_suspend_def)+
  show ?thesis
    unfolding run_domains_def Let_def by (intro released.rules one_domain_releases quiet)
qed

text \<open>
  C1. No guest stays suspended because of a set: every guest that answered a suspend with the state
  paused is sent a resume before \<open>take_set\<close> ends, however it ends, and before a whole pass of the
  domains ends; and where \<open>take_set\<close> reports no failure, each of them answered with the state running.
\<close>

theorem paused_guests_are_resumed:
  "yields (take_set env dry sm d origin) guests_released
   \<and> yields (run_domains env dry) (\<lambda>_ es. still_held False {} es = {})"
proof
  show "yields (take_set env dry sm d origin) guests_released"
    by (rule yields_mono [OF take_set_releases]) (auto simp: guests_released_def releases_def)
  show "yields (run_domains env dry) (\<lambda>_ es. still_held False {} es = {})"
    by (rule yields_mono [OF run_domains_releases]) (auto simp: releases_def)
qed

text \<open>
  A suspend whose answer is lost is never undone: when the one guest of a barrier answers a suspend
  with anything but the state paused, the group fails after that single request, and no resume is sent.
\<close>

theorem lost_suspend_is_not_undone:
  assumes "\<And>w. power_state (fst (q_power env (pz_host_ip vm) (pz_name vm) ''suspend'' w)) \<noteq> ''paused''"
  shows "fst (fst (run_state (take_group env \<lparr>targets = ts, pause_vms = [vm]\<rparr> budget p) s)) \<noteq> Inr x
    \<and> (\<exists>a. trace (snd (run_state (take_group env \<lparr>targets = ts, pause_vms = [vm]\<rparr> budget p) s)) =
             trace s @ [Power (pz_host_ip vm) (pz_name vm) ''suspend'' a])"
  using assms [of "hidden s"]
  by (auto simp: take_group_def pause_one_def power_call_def run_rules split: prod.split)

text \<open>A cluster in which nothing answers.\<close>

definition mute_env :: "unit env" where
  "mute_env = \<lparr>q_policies = \<lambda>w. (Inl [], w), q_vdisks = \<lambda>w. (Inl [], w), q_index = \<lambda>_ w. (Inl [], w),
     q_vm = \<lambda>_ w. (Inl [], w), q_vms = \<lambda>w. (Inl [], w), q_domains = \<lambda>w. (Inl [], w), q_members = \<lambda>w. (Inl [], w),
     q_sets = \<lambda>_ w. (Inl [], w), q_exec = \<lambda>_ w. ((-1, []), w), q_dfs = \<lambda>_ _ w. ((-1, None, []), w),
     q_power = \<lambda>_ _ _ w. ((-1, None, ''timed out''), w), q_nodes = \<lambda>w. ([], w), q_lwt = \<lambda>_ _ _ w. (\<lparr>lwt_ok = False, lwt_applied_flag = False, lwt_current = Nothing\<rparr>, w),
     q_now = \<lambda>w. (0, w), q_uuid = \<lambda>w. ([], w), parent_task = None\<rparr>"

definition empty_plan :: set_plan where
  "empty_plan = \<lparr>sp_groups = [], sp_skipped = [], sp_failures = [], sp_consistency = consistency_domain\<rparr>"

theorem lost_suspend_is_not_undone_witness:
  "\<exists>a. trace (snd (run_state (take_group mute_env
        \<lparr>targets = [], pause_vms = [\<lparr>pz_name = ''web'', pz_host_ip = Some ''10.0.0.1''\<rparr>]\<rparr> 1000
        ([], fresh_row ''d'' 0 set_origin_policy quiesce_vm empty_plan)) \<lparr>hidden = (), trace = [], memo = None\<rparr>)) =
      [Power (Some ''10.0.0.1'') ''web'' ''suspend'' a]"
  using lost_suspend_is_not_undone [of mute_env "\<lparr>pz_name = ''web'', pz_host_ip = Some ''10.0.0.1''\<rparr>" "[]" 1000
      "([], fresh_row ''d'' 0 set_origin_policy quiesce_vm empty_plan)" "\<lparr>hidden = (), trace = [], memo = None\<rparr>" "(0, 0, 0)"]
  by (simp add: mute_env_def power_state_def)

section \<open>Sets\<close>

text \<open>The snapshots Sidon acknowledged, as pairs of the vdisk and the snapshot.\<close>

definition acked1 :: "event \<Rightarrow> (string \<times> string) set" where
  "acked1 e = (case e of Dfs _ (Dfs_Snapshot v s) a \<Rightarrow> if fst a = 0 then {(v, s)} else {} | _ \<Rightarrow> {})"

definition acked :: "event list \<Rightarrow> (string \<times> string) set" where
  "acked es = (\<Union>e \<in> set es. acked1 e)"

text \<open>
  Reads a trace from the left with the snapshots acknowledged so far: a row written as complete must
  have every member marked as taken and acknowledged.
\<close>

definition row_ok :: "(string \<times> string) set \<Rightarrow> event \<Rightarrow> bool" where
  "row_ok K e = (case e of
     Exec (Set_Write r) _ \<Rightarrow> s_state r \<noteq> Some set_complete
       \<or> list_all (\<lambda>m. m_status m = ''taken'' \<and> (m_vdisk m, m_snapshot m) \<in> K) (s_members r)
   | _ \<Rightarrow> True)"

fun complete_ok :: "(string \<times> string) set \<Rightarrow> event list \<Rightarrow> bool" where
  "complete_ok K [] = True"
| "complete_ok K (e # es) = (row_ok K e \<and> complete_ok (K \<union> acked1 e) es)"

text \<open>The snapshots acknowledged and not sent a delete since.\<close>

definition delete_sent :: "event \<Rightarrow> string set" where
  "delete_sent e = (case e of Dfs _ (Dfs_Delete s) _ \<Rightarrow> {s} | _ \<Rightarrow> {})"

fun undeleted :: "string set \<Rightarrow> event list \<Rightarrow> string set" where
  "undeleted K [] = K"
| "undeleted K (e # es) = undeleted (K \<union> snd ` acked1 e - delete_sent e) es"

definition writes_complete :: "event \<Rightarrow> bool" where
  "writes_complete e = (case e of Exec (Set_Write r) _ \<Rightarrow> s_state r = Some set_complete | _ \<Rightarrow> False)"

lemma acked_simps [simp]: "acked [] = {}" "acked (e # es) = acked1 e \<union> acked es" "acked (xs @ ys) = acked xs \<union> acked ys"
  by (auto simp: acked_def)

lemma acked1_simps [simp]:
  "acked1 (Exec st rc) = {}" "acked1 Read_Table = {}" "acked1 (Saw_Vdisks rows) = {}" "acked1 (Power h n ac pa) = {}"
  "acked1 (Dfs ip Dfs_List a) = {}" "acked1 (Dfs ip (Dfs_Delete s) a) = {}"
  "acked1 (Dfs ip (Dfs_Snapshot v s) a) = (if fst a = 0 then {(v, s)} else {})"
  by (simp_all add: acked1_def)

lemma complete_ok_append: "complete_ok K (xs @ ys) \<longleftrightarrow> complete_ok K xs \<and> complete_ok (K \<union> acked xs) ys"
  by (induction xs arbitrary: K) (auto simp: Un_assoc)

lemma row_ok_mono: "row_ok K e \<Longrightarrow> K \<subseteq> L \<Longrightarrow> row_ok L e"
  by (auto simp: row_ok_def list_all_iff split: event.splits stmt.splits)

lemma complete_ok_mono: "complete_ok K es \<Longrightarrow> K \<subseteq> L \<Longrightarrow> complete_ok L es"
proof (induction es arbitrary: K L)
  case (Cons e es)
  then show ?case using Cons.IH [of "K \<union> acked1 e" "L \<union> acked1 e"] row_ok_mono by auto
qed simp

lemma complete_ok_routine: "list_all (\<lambda>e. \<not> writes_complete e) es \<Longrightarrow> complete_ok K es"
  by (induction es arbitrary: K) (auto simp: writes_complete_def row_ok_def split: event.split stmt.split)

lemma undeleted_append: "undeleted K (xs @ ys) = undeleted (undeleted K xs) ys"
  by (induction xs arbitrary: K) auto

lemma undeleted_bound: "undeleted K es \<subseteq> K \<union> snd ` acked es"
proof (induction es arbitrary: K)
  case (Cons e es)
  show ?case using Cons.IH [of "K \<union> snd ` acked1 e - delete_sent e"] by auto
qed simp

interpretation completes: trace_property "complete_ok {}"
proof
  show "complete_ok {} xs \<Longrightarrow> complete_ok {} ys \<Longrightarrow> complete_ok {} (xs @ ys)" for xs ys
    by (auto simp: complete_ok_append intro: complete_ok_mono)
qed simp

lemma completes_routine: "emits (\<lambda>e. \<not> writes_complete e) m \<Longrightarrow> yields m (\<lambda>_. complete_ok {})"
  by (erule yields_mono) (rule complete_ok_routine)

text \<open>Events that acknowledge no snapshot and write no complete row.\<close>

definition plain :: "event \<Rightarrow> bool" where
  "plain e \<longleftrightarrow> \<not> writes_complete e \<and> acked1 e = {}"

lemma plain_calls:
  "plain Read_Table" "plain (Saw_Vdisks rows)" "plain (Dfs ip Dfs_List a)" "plain (Dfs ip (Dfs_Delete s) a)"
  "plain (Power h n ac pa)" "plain (Exec (Task_Insert t now) rc)" "plain (Exec (Task_Update i st pr now er) rc)"
  "plain (Exec (Index_Insert v now sn og) rc)" "plain (Exec (Index_Delete v now sn) rc)"
  "plain (Exec (Set_Delete d now sid) rc)" "s_state r \<noteq> Some set_complete \<Longrightarrow> plain (Exec (Set_Write r) rc)"
  by (simp_all add: plain_def writes_complete_def)

lemma plain_events: "list_all plain es \<Longrightarrow> list_all (\<lambda>e. \<not> writes_complete e) es \<and> acked es = {}"
  by (induction es) (auto simp: plain_def)

text \<open>What the row and the list of what was taken have to do with each other while a set is taken.\<close>

definition pair_of :: "target \<Rightarrow> string \<times> string" where
  "pair_of t = (tg_vdisk t, tg_snapshot t)"

definition row_inv :: "(string \<times> string) list \<Rightarrow> target list \<times> set_row \<Rightarrow> bool" where
  "row_inv pairs p \<longleftrightarrow> s_state (snd p) = Some set_taking
     \<and> map (\<lambda>m. (m_vdisk m, m_snapshot m)) (s_members (snd p)) = pairs
     \<and> (\<forall>m \<in> set (s_members (snd p)). m_snapshot m \<in> tg_snapshot ` set (fst p) \<longrightarrow> m_status m = ''taken'')"

definition set_inv :: "(string \<times> string) list \<Rightarrow> target list \<times> set_row \<Rightarrow> event list \<Rightarrow> bool" where
  "set_inv pairs p es \<longleftrightarrow> row_inv pairs p \<and> acked es = pair_of ` set (fst p)
     \<and> list_all (\<lambda>e. \<not> writes_complete e) es"

lemma row_inv_mark:
  "row_inv pairs p \<Longrightarrow> row_inv pairs
     (fst p @ [t], mark_member (tg_snapshot t) (\<lambda>m. m\<lparr>m_status := ''taken'', m_node := n\<rparr>) (snd p))"
  unfolding row_inv_def mark_member_def by (auto simp: o_def if_distrib cong: if_cong)

lemma set_inv_plain: "set_inv pairs p xs \<Longrightarrow> list_all plain ys \<Longrightarrow> set_inv pairs p (xs @ ys)"
  using plain_events [of ys] by (simp add: set_inv_def)

lemma snapshot_target_events:
  assumes "set_inv pairs p pre"
  shows "yields (snapshot_target env t p) (\<lambda>r es. set_inv pairs (snd r) (pre @ es)
     \<and> fst (snd r) = (if fst r = None then fst p @ [t] else fst p))"
proof -
  have ip: "yields (ip_for_owner env h) (\<lambda>_ es. es = [])" for h
    unfolding ip_for_owner_def nodes_def by (auto intro!: yields_intros)
  show ?thesis
    using assms unfolding snapshot_target_def record_snapshot_def dfs_def now_ms_def exec_def
    by (intro yields_bind yields_mono [OF ip] yields_case_option yields_ret yields_act yields_if yields_look)
       (auto simp: set_inv_def row_inv_mark pair_of_def writes_complete_def)
qed

lemma take_target_events:
  assumes "set_inv pairs (snd p) pre"
  shows "yields (take_target env budget held began t p) (\<lambda>r es. set_inv pairs (snd (snd r)) (pre @ es)
     \<and> fst (snd (snd r)) = (if fst r = None then fst (snd p) @ [t] else fst (snd p)))"
proof -
  note st = yields_mono [OF snapshot_target_events [OF assms]]
  have silent: "yields (if held then do { now \<leftarrow> now_ms env; ret (now - began > budget) } else ret False) (\<lambda>_ es. es = [])"
    "yields (case x of Some c \<Rightarrow> ret (Some c) | None \<Rightarrow> do { now \<leftarrow> now_ms env; ret (Some now) }) (\<lambda>_ es. es = [])" for x
    unfolding now_ms_def by (auto intro!: yields_intros)
  show ?thesis
    unfolding take_target_def
    by (intro yields_bind yields_mono [OF silent(1)] yields_mono [OF silent(2)] yields_if yields_ret yields_case_prod st)
       (use assms in auto)
qed

lemma take_targets_events:
  assumes "set_inv pairs p pre"
  shows "yields (take_targets env budget held ts p) (\<lambda>r es. set_inv pairs (snd r) (pre @ es)
     \<and> (\<forall>x. fst r = Inr x \<longrightarrow> fst (snd r) = fst p @ ts))"
proof -
  have loop: "yields (for_keep (take_target env budget held began) ts (None, p)) (\<lambda>r es. case fst r of
      Some _ \<Rightarrow> set_inv pairs (snd (snd r)) (pre @ es)
    | None \<Rightarrow> set_inv pairs (snd (snd r)) (pre @ es) \<and> fst (snd (snd r)) = fst p @ ts)" for began
    by (rule yields_for_keep [where I = "\<lambda>done a es. set_inv pairs (snd a) es \<and> fst (snd a) = fst p @ done"
            and J = "\<lambda>_ a es. set_inv pairs (snd a) es"];
        (erule conjE, rule yields_mono, erule take_target_events)?)
       (use assms in \<open>auto split: option.splits\<close>)
  show ?thesis
    unfolding take_targets_def now_ms_def
    by (intro yields_bind yields_look yields_case_prod yields_mono [OF loop] yields_case_option yields_ret) auto
qed

lemma take_group_events:
  assumes "set_inv pairs p pre"
  shows "yields (take_group env g budget p) (\<lambda>r es. set_inv pairs (snd r) (pre @ es)
     \<and> (\<forall>x. fst r = Inr x \<longrightarrow> fst (snd r) = fst p @ targets g))"
proof -
  have pz: "emits plain (for_keep (pause_one env) vs st)" for vs st
    unfolding pause_one_def power_call_def by (intro emits_intros emits_power_tries plain_calls)
  have rs: "emits plain (for_each (resume_one env) vs st)" for vs st
    unfolding resume_one_def power_call_def by (intro emits_intros emits_power_tries plain_calls)
  have body: "yields (case x of Some e \<Rightarrow> ret (Inl e, p) | None \<Rightarrow> take_targets env budget h (targets g) p)
     (\<lambda>r es'. set_inv pairs (snd r) (pre @ es @ es') \<and> (\<forall>x. fst r = Inr x \<longrightarrow> fst (snd r) = fst p @ targets g))"
    if "list_all plain es" for x h es
    using set_inv_plain [OF assms that]
    by (intro yields_case_option yields_ret yields_mono [OF take_targets_events]) auto
  show ?thesis
    unfolding take_group_def
    by (intro yields_bind yields_mono [OF pz] yields_case_prod yields_mono [OF body] yields_mono [OF rs] yields_ret, assumption)
       (auto dest: set_inv_plain split: sum.splits if_splits)
qed

lemma group_step_events:
  assumes "set_inv pairs (pg_taken p, pg_row p) pre"
  shows "yields (group_step env budget g p) (\<lambda>r es. set_inv pairs (pg_taken (snd r), pg_row (snd r)) (pre @ es)
     \<and> (fst r = None \<longrightarrow> pg_taken (snd r) = pg_taken p @ targets g))"
proof -
  let ?row = "\<lambda>now. (pg_row p)\<lparr>s_paused_vms := pause_vms g, s_cut_start := Some now\<rparr>"
  have inv: "set_inv pairs (pg_taken p, ?row now) pre" for now
    using assms by (simp add: set_inv_def row_inv_def)
  have w: "emits plain (write_row env (Set_Write (?row now)) what)" for now what
    by (rule emits_write_row, rule plain_calls) (use assms in \<open>simp add: set_inv_def row_inv_def\<close>)
  have tg: "yields (take_group env g budget (pg_taken p, ?row now)) (\<lambda>r es'. set_inv pairs (snd r) (pre @ es @ es')
     \<and> (\<forall>x. fst r = Inr x \<longrightarrow> fst (snd r) = pg_taken p @ targets g))" if "list_all plain es" for now es
    using take_group_events [OF set_inv_plain [OF inv that]] by simp
  show ?thesis
    unfolding group_step_def Let_def now_ms_def
    by (simp, intro yields_bind yields_look yields_mono [OF w] yields_case_sum yields_ret yields_case_prod yields_mono [OF tg])
       (auto intro: set_inv_plain [OF inv] split: sum.splits)
qed

lemma take_groups_events:
  assumes "row_inv pairs ([], row)"
  shows "yields (take_groups env budget gs row) (\<lambda>r es. set_inv pairs (pg_taken (snd r), pg_row (snd r)) es
     \<and> (fst r = None \<longrightarrow> pg_taken (snd r) = concat (map targets gs)))"
proof -
  let ?inv = "\<lambda>p es. set_inv pairs (pg_taken p, pg_row p) es"
  let ?p = "\<lparr>pg_taken = [], pg_row = row, pg_start = None, pg_end = None, pg_paused = 0\<rparr>"
  have loop: "yields (for_keep (group_step env budget) gs ?p) (\<lambda>r es. case fst r of
      Some _ \<Rightarrow> ?inv (snd r) (pre @ es) | None \<Rightarrow> ?inv (snd r) (pre @ es) \<and> pg_taken (snd r) = concat (map targets gs))"
    if "list_all plain pre" for pre
    by (rule yields_for_keep [where I = "\<lambda>done p es. ?inv p es \<and> pg_taken p = concat (map targets done)" and J = "\<lambda>_. ?inv"];
        (erule conjE, rule yields_mono, erule group_step_events)?)
       (use assms plain_events [OF that] in \<open>auto simp: set_inv_def split: option.splits\<close>)
  have w: "emits plain (write_row env (Set_Write row) what)" for what
    by (rule emits_write_row, rule plain_calls) (use assms in \<open>simp add: row_inv_def\<close>)
  show ?thesis
    unfolding take_groups_def Let_def
    by (intro yields_bind yields_mono [OF w] yields_case_sum yields_ret yields_mono [OF loop])
       (use assms in \<open>auto simp: set_inv_def dest: plain_events split: option.splits\<close>)
qed

text \<open>Events that acknowledge nothing and send a delete for each snapshot of \<open>S\<close>.\<close>

definition wipes :: "string set \<Rightarrow> event list \<Rightarrow> bool" where
  "wipes S es \<longleftrightarrow> list_all plain es \<and> (\<forall>K. undeleted K es \<subseteq> K - S)"

lemma wipes_plain: "list_all plain es \<Longrightarrow> wipes {} es"
  using undeleted_bound [of _ es] plain_events [of es] by (auto simp: wipes_def)

lemma wipes_only_plain: "wipes S es \<Longrightarrow> list_all plain es"
  by (simp add: wipes_def)

lemma wipes_append:
  assumes "wipes S xs" and "wipes T ys"
  shows "wipes (S \<union> T) (xs @ ys)"
proof -
  have "undeleted K (xs @ ys) \<subseteq> K - (S \<union> T)" for K
  proof -
    have "undeleted (undeleted K xs) ys \<subseteq> undeleted K xs - T" using assms(2) unfolding wipes_def by blast
    also have "undeleted K xs \<subseteq> K - S" using assms(1) unfolding wipes_def by blast
    finally show ?thesis unfolding undeleted_append by blast
  qed
  with assms show ?thesis by (simp add: wipes_def)
qed

lemma wipes_insert: "wipes {s} xs \<Longrightarrow> wipes T ys \<Longrightarrow> wipes (insert s T) (xs @ ys)"
  using wipes_append [of "{s}" xs T ys] by simp

lemma wipes_then_plain: "wipes S xs \<Longrightarrow> wipes {} ys \<Longrightarrow> wipes S (xs @ ys)"
  using wipes_append [of S xs "{}" ys] by simp

lemma delete_snapshot_wipes: "yields (delete_snapshot env v snap) (\<lambda>_. wipes {snap})"
proof -
  have rest: "yields (bindE (index env v) (\<lambda>rows. bindE (liftE (for_each (\<lambda>r _. do {
        _ \<leftarrow> exec env (Index_Delete v (or_int (ix_created r) 0) snap); ret () })
        (filter (\<lambda>r. ix_snapshot r = snap) rows) ())) (\<lambda>_. okE True))) (\<lambda>_. wipes {})"
    by (rule yields_mono [where Q = "\<lambda>_. list_all plain"])
       (intro emits_intros emits_calls plain_calls, rule wipes_plain)
  have first: "wipes {snap} [Dfs ip (Dfs_Delete snap) a]" for ip a
    by (auto simp: wipes_def delete_sent_def plain_calls)
  show ?thesis
    unfolding delete_snapshot_def nodes_def dfs_def
    by (intro yields_bindE yields_liftE yields_look, simp)
       (intro yields_bindE yields_liftE yields_act, simp, intro conjI impI yields_ret yields_mono [OF rest],
         auto intro: first wipes_then_plain [OF first, simplified])
qed

lemma abandon_wipes:
  "yields (abandon env row took error) (\<lambda>r es. list_all plain es \<and> (\<forall>u. r = Inr u \<longrightarrow> wipes (snd ` set took) es))"
proof -
  have loop: "yields (for_eachE (abandon_one env) took acc) (\<lambda>r es. list_all plain es \<and> (\<forall>u. r = Inr u \<longrightarrow> wipes (snd ` set took) es))" for acc
  proof (induction took arbitrary: acc)
    case (Cons t took)
    have one: "yields (abandon_one env t acc) (\<lambda>_. wipes {snd t})" for acc
      unfolding abandon_one_def bindE_def
      by (intro yields_bind yields_case_sum yields_mono [OF delete_snapshot_wipes] yields_ret) auto
    show ?case
      unfolding for_eachE.simps bindE_def
      by (intro yields_bind yields_mono [OF one] yields_case_sum yields_ret yields_mono [OF Cons.IH])
         (auto intro: wipes_only_plain wipes_insert)
  qed (simp add: yields_ret wipes_plain)
  have w: "yields (write_row env (Set_Write (r\<lparr>s_state := Some set_failed, s_finished := f, s_error := e\<rparr>)) what) (\<lambda>_. wipes {})" for r f e what
    by (rule yields_mono [OF emits_write_row [where P = plain] wipes_plain]) (simp_all add: plain_calls)
  show ?thesis
    unfolding abandon_def bindE_def liftE_def now_ms_def
    by (intro yields_bind yields_mono [OF loop] yields_case_sum yields_case_prod yields_ret yields_look yields_mono [OF w])
       (auto intro: wipes_only_plain wipes_then_plain)
qed

lemma task_finish_plain: "emits plain (task_finish env task er)"
  by (intro emits_calls plain_calls)

lemma fail_set_wipes:
  "yields (fail_set env task sm row took error) (\<lambda>r es. list_all plain es
     \<and> (case r of Inl _ \<Rightarrow> True | Inr (ok, _) \<Rightarrow> \<not> ok \<and> wipes (tg_snapshot ` set took) es))"
proof -
  have snds: "snd ` set (map (\<lambda>t. (tg_vdisk t, tg_snapshot t)) took) = tg_snapshot ` set took" by force
  note ab = abandon_wipes [of env row "map (\<lambda>t. (tg_vdisk t, tg_snapshot t)) took" error, unfolded snds]
  show ?thesis
    unfolding fail_set_def bindE_def liftE_def
    by (intro yields_bind yields_mono [OF ab] yields_case_sum yields_ret yields_mono [OF task_finish_plain])
       (auto intro: wipes_then_plain wipes_plain)
qed

text \<open>What \<open>take_set\<close> promises of the snapshots, for its result and its events.\<close>

definition set_accounted :: "exn + bool \<times> dsummary \<Rightarrow> event list \<Rightarrow> bool" where
  "set_accounted r es \<longleftrightarrow> complete_ok {} es
     \<and> (case r of Inl _ \<Rightarrow> True | Inr (ok, _) \<Rightarrow> ok \<or> undeleted {} es = {})"

lemma wipes_all:
  assumes "acked xs = pair_of ` set took" and "wipes (tg_snapshot ` set took) ys"
  shows "undeleted {} (xs @ ys) = {}"
proof -
  have "undeleted {} xs \<subseteq> tg_snapshot ` set took"
    using undeleted_bound [of "{}" xs] by (auto simp: assms(1) pair_of_def image_image)
  moreover have "undeleted (undeleted {} xs) ys \<subseteq> undeleted {} xs - tg_snapshot ` set took"
    using assms(2) by (auto simp: wipes_def)
  ultimately show ?thesis by (auto simp: undeleted_append)
qed

lemma close_set_events:
  assumes inv: "set_inv (map pair_of (pg_taken p)) (pg_taken p, pg_row p) pre"
  shows "yields (close_set env task sm p) (\<lambda>r es. set_accounted r (pre @ es))"
proof -
  let ?row = "\<lambda>now. (pg_row p)\<lparr>s_state := Some set_complete, s_finished := Some now, s_cut_start := pg_start p,
                          s_cut_end := pg_end p, s_paused_ms := Some (pg_paused p), s_paused_vms := []\<rparr>"
  have pre: "complete_ok {} pre" "acked pre = pair_of ` set (pg_taken p)"
    using inv by (auto simp: set_inv_def intro: complete_ok_routine)
  have member: "m_status m = ''taken'' \<and> (m_vdisk m, m_snapshot m) \<in> acked pre" if "m \<in> set (s_members (pg_row p))" for m
  proof -
    have "(m_vdisk m, m_snapshot m) \<in> set (map (\<lambda>m. (m_vdisk m, m_snapshot m)) (s_members (pg_row p)))"
      using that by auto
    also have "\<dots> = pair_of ` set (pg_taken p)" using inv by (simp add: set_inv_def row_inv_def)
    finally have pair: "(m_vdisk m, m_snapshot m) \<in> pair_of ` set (pg_taken p)" .
    then have "m_snapshot m \<in> tg_snapshot ` set (pg_taken p)" by (auto simp: pair_of_def)
    with inv that pair pre(2) show ?thesis by (auto simp: set_inv_def row_inv_def)
  qed
  have ok: "complete_ok {} (pre @ Exec (Set_Write (?row now)) rc # es)" if "list_all plain es" for now rc es
    using pre member complete_ok_routine [of es] plain_events [OF that]
    by (auto simp: complete_ok_append row_ok_def list_all_iff)
  have gone: "undeleted {} (pre @ Exec (Set_Write r) rc # es) = {}" if "wipes (tg_snapshot ` set (pg_taken p)) es" for r rc es
    using wipes_all [of "pre @ [Exec (Set_Write r) rc]", OF _ that] pre(2) by simp
  show ?thesis
    unfolding close_set_def Let_def write_row_def exec_def now_ms_def
    by (intro yields_bind yields_look yields_act yields_case_prod yields_if yields_ret yields_case_sum
        yields_mono [OF fail_set_wipes] yields_mono [OF task_finish_plain])
       (auto simp: set_accounted_def gone intro: ok split: sum.splits)
qed

lemma attempt_set_events:
  assumes "s_state row = Some set_taking" and "s_members row = map planned_member (concat (map targets gs))"
  shows "yields (attempt_set env sm budget gs row) set_accounted"
proof -
  let ?pairs = "map pair_of (concat (map targets gs))"
  have row: "row_inv ?pairs ([], row)"
    using assms by (simp add: row_inv_def pair_of_def planned_member_def o_def)
  have start: "emits plain (task_start env ty ac pl)" for ty ac pl by (intro emits_calls plain_calls)
  have groups: "yields (take_groups env budget gs row) (\<lambda>r es. set_inv ?pairs (pg_taken (snd r), pg_row (snd r)) (xs @ es)
      \<and> (fst r = None \<longrightarrow> pg_taken (snd r) = concat (map targets gs)))" if "list_all plain xs" for xs
    by (rule yields_mono [OF take_groups_events [OF row]]) (use plain_events [OF that] in \<open>auto simp: set_inv_def\<close>)
  have failing: "yields (fail_set env task sm (pg_row p) (pg_taken p) er) (\<lambda>r es. set_accounted r (pre @ es))"
    if "set_inv ?pairs (pg_taken p, pg_row p) pre" for task p er pre
  proof (rule yields_mono [OF fail_set_wipes], goal_cases)
    case (1 r es)
    have "complete_ok {} (pre @ es)"
      using that 1 plain_events [of es] by (auto simp: set_inv_def intro!: complete_ok_routine)
    moreover have "undeleted {} (pre @ es) = {}" if "wipes (tg_snapshot ` set (pg_taken p)) es"
      by (rule wipes_all [OF _ that]) (use \<open>set_inv _ _ pre\<close> in \<open>simp add: set_inv_def\<close>)
    ultimately show ?case using 1 by (auto simp: set_accounted_def split: sum.splits)
  qed
  have closing: "yields (close_set env task sm p) (\<lambda>r es. set_accounted r (pre @ es))"
    if "set_inv ?pairs (pg_taken p, pg_row p) pre" "pg_taken p = concat (map targets gs)" for task p pre
    using close_set_events [of p pre env task sm] that by simp
  have then_close: "yields (case r of (x, p) \<Rightarrow> case x of Some e \<Rightarrow> fail_set env task sm (pg_row p) (pg_taken p) (exn_text e)
        | None \<Rightarrow> close_set env task sm p) (\<lambda>r es'. set_accounted r (xs @ es @ es'))"
    if "set_inv ?pairs (pg_taken (snd r), pg_row (snd r)) (xs @ es)
      \<and> (fst r = None \<longrightarrow> pg_taken (snd r) = concat (map targets gs))" for r task xs es
    using that failing [of "snd r" "xs @ es"] closing [of "snd r" "xs @ es"]
    by (cases r) (auto intro!: yields_case_option)
  show ?thesis
    unfolding attempt_set_def
    by (rule yields_bind, rule yields_mono [OF start], rule yields_bind, rule yields_mono [OF groups], assumption, erule then_close)
qed

lemma take_planned_events:
  "yields (take_planned env dry sm d origin now q plan) set_accounted"
proof -
  have w: "emits plain (write_row env (Set_Write (refused_row n now origin q plan)) what)" for n what
    by (rule emits_write_row, rule plain_calls) (simp add: refused_row_def fresh_row_def)
  have plain_ok: "set_accounted r es" if "list_all plain es" for r es
    using plain_events [OF that] undeleted_bound [of "{}" es]
    by (auto simp: set_accounted_def intro: complete_ok_routine split: sum.split)
  show ?thesis
    unfolding take_planned_def Let_def bindE_def
    by (intro yields_if yields_bind yields_case_sum yields_ret yields_mono [OF w] attempt_set_events)
       (auto simp: plain_ok fresh_row_def plan_targets_def)
qed

lemma set_accounted_prefix:
  assumes "emits plain m" and "\<And>a. yields (f a) set_accounted"
  shows "yields (bindE m f) set_accounted"
proof -
  have front: "set_accounted r (xs @ ys)" if "list_all plain xs" "set_accounted r ys" for r xs ys
  proof -
    have "undeleted {} (xs @ ys) = undeleted {} ys"
      using undeleted_bound [of "{}" xs] plain_events [OF that(1)] by (simp add: undeleted_append)
    with that plain_events [OF that(1)] show ?thesis
      by (auto simp: set_accounted_def complete_ok_append intro: complete_ok_routine split: sum.splits)
  qed
  have alone: "set_accounted (Inl x) xs" if "list_all plain xs" for x xs
    using plain_events [OF that] by (auto simp: set_accounted_def intro: complete_ok_routine)
  show ?thesis
    by (rule yields_bindE, rule yields_mono [OF assms(1)])
       (auto split: sum.split intro: alone intro!: yields_mono [OF assms(2)] front)
qed

text \<open>
  C2. A set is what its row says. Whatever the cluster answers, \<open>take_set\<close> writes a row as complete only
  when each of its members is marked as taken and Sidon has acknowledged the member's snapshot before;
  and when it reports a failure, it has sent a delete for every snapshot that was acknowledged.
\<close>

theorem complete_sets_are_complete: "yields (take_set env dry sm d origin) set_accounted"
  unfolding take_set_def Let_def
  by (intro set_accounted_prefix yields_if yields_ret yields_case_sum yields_case_prod take_planned_events
      all_events.of_liftE emits_calls emits_protection plain_calls)
     (simp_all add: set_accounted_def)

section \<open>Deleting a set\<close>

text \<open>The events that remove something; those among them that remove a snapshot no vdisk of \<open>rows\<close> is derived from.\<close>

definition is_removal :: "event \<Rightarrow> bool" where
  "is_removal e = (case e of Dfs _ (Dfs_Delete _) _ \<Rightarrow> True | Exec (Set_Delete _ _ _) _ \<Rightarrow> True | _ \<Rightarrow> False)"

definition childless :: "vdisk_row list \<Rightarrow> event \<Rightarrow> bool" where
  "childless rows e = (case e of
     Dfs _ (Dfs_Delete s) _ \<Rightarrow> list_all (\<lambda>v. v_parent v \<noteq> Some s) rows | _ \<Rightarrow> \<not> is_removal e)"

text \<open>A delete that is answered with success, or with an error that says there is nothing to delete.\<close>

definition deleted_well :: "event \<Rightarrow> bool" where
  "deleted_well e = (case e of Dfs _ (Dfs_Delete s) a \<Rightarrow> fst a = 0 \<or> says_gone (dfs_error a []) | _ \<Rightarrow> True)"

definition removal :: "string \<Rightarrow> string \<Rightarrow> vdisk_row list \<Rightarrow> event list \<Rightarrow> bool" where
  "removal domain sid rows es \<longleftrightarrow> (\<exists>dels rest. es = dels @ rest \<and> list_all (childless rows) dels
     \<and> (rest = [] \<or> (\<exists>t rc. rest = [Exec (Set_Delete domain t sid) rc] \<and> list_all deleted_well dels)))"

definition looked_first :: "string \<Rightarrow> string \<Rightarrow> event list \<Rightarrow> bool" where
  "looked_first domain sid es \<longleftrightarrow> list_all (\<lambda>e. \<not> is_removal e) es
     \<or> (\<exists>before rows after. es = before @ Saw_Vdisks rows # after
          \<and> list_all (\<lambda>e. \<not> is_removal e) before \<and> removal domain sid rows after)"

lemma childless_calls:
  "childless rows Read_Table" "childless rows (Exec (Index_Delete v t s) rc)"
  "childless rows (Dfs ip (Dfs_Delete s) a) \<longleftrightarrow> list_all (\<lambda>v. v_parent v \<noteq> Some s) rows"
  by (simp_all add: childless_def is_removal_def)

lemma well_calls:
  "deleted_well Read_Table" "deleted_well (Exec st rc)"
  "deleted_well (Dfs ip (Dfs_Delete s) a) \<longleftrightarrow> fst a = 0 \<or> says_gone (dfs_error a [])"
  by (simp_all add: deleted_well_def)

lemma delete_snapshot_events:
  "yields (delete_snapshot env v snap) (\<lambda>r es. (list_all (\<lambda>w. v_parent w \<noteq> Some snap) rows \<longrightarrow> list_all (childless rows) es)
     \<and> (r = Inr True \<longrightarrow> list_all deleted_well es))"
proof -
  have rest: "emits (\<lambda>e. childless rows e \<and> deleted_well e)
      (bindE (index env v) (\<lambda>rows. bindE (liftE (for_each (\<lambda>r _. do {
        _ \<leftarrow> exec env (Index_Delete v (or_int (ix_created r) 0) snap); ret () })
        (filter (\<lambda>r. ix_snapshot r = snap) rows) ())) (\<lambda>_. okE True)))"
    by (intro emits_intros emits_calls) (simp_all add: childless_calls well_calls)
  show ?thesis
    unfolding delete_snapshot_def nodes_def dfs_def
    by (intro yields_bindE yields_liftE yields_look, simp)
       (intro yields_bindE yields_liftE yields_act, simp, intro conjI impI yields_ret yields_mono [OF rest],
         auto simp: childless_calls well_calls list_all_iff)
qed

lemma delete_members_events:
  assumes "\<forall>m \<in> set ms. list_all (\<lambda>w. v_parent w \<noteq> Some (m_snapshot m)) rows"
  shows "yields (delete_members env ms) (\<lambda>r es. list_all (childless rows) es \<and> (r = Inr [] \<longrightarrow> list_all deleted_well es))"
proof -
  let ?body = "\<lambda>m failed. bindE (delete_snapshot env (m_vdisk m) (m_snapshot m)) (\<lambda>ok.
         okE (if ok then failed else failed @ [m_snapshot m]))"
  have "yields (for_eachE ?body ms failed) (\<lambda>r es. list_all (childless rows) es
      \<and> (r = Inr [] \<longrightarrow> failed = [] \<and> list_all deleted_well es))" for failed
    using assms
  proof (induction ms arbitrary: failed)
    case (Cons m ms)
    then have m: "list_all (\<lambda>w. v_parent w \<noteq> Some (m_snapshot m)) rows" by simp
    have one: "yields (?body m failed) (\<lambda>r es. list_all (childless rows) es
        \<and> (\<forall>f. r = Inr f \<longrightarrow> f = [] \<longrightarrow> failed = [] \<and> list_all deleted_well es))"
      unfolding bindE_def
      by (intro yields_bind yields_mono [OF delete_snapshot_events [where rows = rows]] yields_case_sum yields_ret) (use m in auto)
    show ?case
      using Cons.IH Cons.prems unfolding for_eachE.simps
      by (intro yields_bindE yields_mono [OF one]) (auto split: sum.split intro!: yields_mono [OF Cons.IH])
  qed (simp add: yields_ret)
  from this [of "[]"] show ?thesis unfolding delete_members_def by (rule yields_mono) auto
qed

lemma dict_append_not_Nil: "dict_append k v d \<noteq> []"
  by (cases d) (auto simp: dict_append_def)

lemma gathered_Nil: "foldl (\<lambda>found v. dict_append (f v) (g v) found) acc xs = [] \<longleftrightarrow> acc = [] \<and> xs = []"
  by (induction xs arbitrary: acc) (simp_all add: dict_append_not_Nil)

lemma children_of_events:
  "yields (children_of env snaps) (\<lambda>r es. (\<exists>rows. es = [Saw_Vdisks rows]
        \<and> (\<forall>found. r = Inr found \<longrightarrow> found = [] \<longrightarrow> (\<forall>s \<in> set snaps. list_all (\<lambda>v. v_parent v \<noteq> Some s) rows)))
     \<or> (es = [Read_Table] \<and> (\<exists>x. r = Inl x)))"
  unfolding children_of_def bindE_def
  by (intro yields_bind yields_mono [OF vdisks_events] yields_case_sum yields_ret)
     (auto simp: gathered_Nil filter_empty_conv list_all_iff)

text \<open>
  A set is deleted whole or not at all, after a look: \<open>delete_set\<close> removes nothing until it has read
  all vdisks and none of them is derived from any snapshot it then deletes, and it removes the set's row
  only at the end, when each delete succeeded or found nothing to delete.
\<close>

theorem delete_set_looks_first: "yields (delete_set env domain sid) (\<lambda>_. looked_first domain sid)"
proof -
  have find: "emits (\<lambda>e. \<not> is_removal e) (find_set env domain sid)"
    by (intro emits_protection) (simp add: is_removal_def)
  have dm: "yields (delete_members env (with_snapshot s)) (\<lambda>r es. list_all (childless rows) es \<and> (r = Inr [] \<longrightarrow> list_all deleted_well es))"
    if "\<forall>x \<in> set (map m_snapshot (with_snapshot s)). list_all (\<lambda>v. v_parent v \<noteq> Some x) rows" for s rows
    by (rule delete_members_events) (use that in auto)
  have w: "yields (write_row env st what) (\<lambda>_ es. \<exists>rc. es = [Exec st rc])" for st what
    unfolding write_row_def exec_def by (auto intro!: yields_intros)
  have tail: "yields (bindE (delete_members env (with_snapshot s)) (\<lambda>failed.
           if failed \<noteq> [] then raiseE (Runtime_Error (e failed))
           else write_row env (Set_Delete domain (s_taken_at s) sid) what))
     (\<lambda>_. removal domain sid rows)"
    if "\<forall>x \<in> set (map m_snapshot (with_snapshot s)). list_all (\<lambda>v. v_parent v \<noteq> Some x) rows" for s rows e what
    unfolding bindE_def
    by (intro yields_bind yields_mono [OF dm [OF that]] yields_case_sum yields_if yields_ret yields_mono [OF w])
       (auto simp: removal_def)
  have look_then: "yields (bindE (children_of env (map m_snapshot (with_snapshot s))) (\<lambda>children.
       if children \<noteq> [] then raiseE (Domain_Refused (Has_Children (sort_key fst children)))
       else bindE (delete_members env (with_snapshot s)) (\<lambda>failed.
           if failed \<noteq> [] then
             raiseE (Runtime_Error (''could not delete '' @ join '', '' failed @ ''; the set is kept so a retry finds them''))
           else write_row env (Set_Delete domain (s_taken_at s) sid) ''could not delete the set'')))
     (\<lambda>_ es'. looked_first domain sid (before @ es'))" if "list_all (\<lambda>e. \<not> is_removal e) before" for s before
  proof (rule yields_bindE, rule yields_mono [OF children_of_events], goal_cases)
    case (1 r es)
    show ?case
    proof (cases r)
      case (Inl x)
      with 1 that show ?thesis by (auto simp: looked_first_def is_removal_def)
    next
      case (Inr found)
      with 1 obtain rows where rows: "es = [Saw_Vdisks rows]"
        "found = [] \<Longrightarrow> \<forall>x \<in> set (map m_snapshot (with_snapshot s)). list_all (\<lambda>v. v_parent v \<noteq> Some x) rows" by auto
      have closed: "looked_first domain sid (before @ es @ es')" if "removal domain sid rows es'" for es'
        unfolding looked_first_def rows(1)
        by (rule disjI2, rule exI [of _ before]) (use that \<open>list_all (\<lambda>e. \<not> is_removal e) before\<close> in auto)
      have "looked_first domain sid (before @ es)" using that by (simp add: looked_first_def rows(1) is_removal_def)
      then show ?thesis
        unfolding Inr sum.case
        by (intro yields_if yields_ret yields_mono [OF tail [OF rows(2)]] closed) (auto simp: removal_def)
    qed
  qed
  show ?thesis
    unfolding delete_set_def
    by (rule yields_bindE, rule yields_mono [OF find])
       (auto split: sum.split simp: looked_first_def [of _ _ "es" for es] intro!: yields_mono [OF look_then])
qed

section \<open>Restoring a set\<close>
















end
