(* ===== verification/Election.thy ===== *)
theory Election
  imports Text_Lines Effects Machines Complex_Main
begin

text \<open>
  Per-service leadership (\<open>src/helios_zk.py\<close>): the ballots, \<open>Election\<close>, which is the ZooKeeper recipe,
  and \<open>Candidacy\<close>, which keeps one standing across sessions. The ensemble is a parameter: each call of
  the client is a function of a hidden state, \<^const>\<open>None\<close> or a failure standing for the exceptions the
  source catches (\<open>ZKError\<close>, \<open>OSError\<close>). Times are reals. The lock of \<open>Candidacy\<close> makes each of its
  methods one step.
\<close>

section \<open>Ballots\<close>

definition leaders_root :: string where "leaders_root = ''/helios/leaders''"
definition ballot_prefix :: string where "ballot_prefix = ''n_''"

text \<open>\<open>name.rsplit(p, 1)[-1]\<close>: what follows the last \<open>p\<close>, or all of it.\<close>

fun after_last :: "string \<Rightarrow> string \<Rightarrow> string" where
  "after_last p [] = []"
| "after_last p (c # s) =
     (if contains s p then after_last p s
      else if starts_with (c # s) p then drop (length p) (c # s) else c # s)"

definition ballot_sequence :: "string \<Rightarrow> int option" where
  "ballot_sequence name = int_of_text (after_last ballot_prefix name)"

definition standing_ballots :: "string list \<Rightarrow> (int \<times> string) list" where
  "standing_ballots children =
     List.map_filter (\<lambda>n. map_option (\<lambda>q. (q, n)) (ballot_sequence n)) children"

definition lowest_ballot :: "string list \<Rightarrow> string option" where
  "lowest_ballot children =
     (case standing_ballots children of [] \<Rightarrow> None | b # bs \<Rightarrow> Some (snd (foldl min b bs)))"

section \<open>The client\<close>

datatype created = Made string | Node_Exists | Zk_Failed

record 'w zk_env =
  z_open :: "'w \<Rightarrow> bool \<times> 'w"
  z_create :: "string \<Rightarrow> string \<Rightarrow> bool \<Rightarrow> bool \<Rightarrow> 'w \<Rightarrow> created \<times> 'w"
  z_children :: "string \<Rightarrow> 'w \<Rightarrow> string list option \<times> 'w"
  z_get :: "string \<Rightarrow> 'w \<Rightarrow> string option \<times> 'w"
  z_delete :: "string \<Rightarrow> 'w \<Rightarrow> bool \<times> 'w"
  z_close :: "'w \<Rightarrow> unit \<times> 'w"
  z_now :: "'w \<Rightarrow> real \<times> 'w"

datatype zevent =
    Z_Open bool
  | Z_Create string created
  | Z_Children string "string list option"
  | Z_Get string "string option"
  | Z_Delete string bool
  | Z_Close

definition strip_slashes :: "string \<Rightarrow> string" where
  "strip_slashes s = rev (dropWhile (\<lambda>c. c = CHR ''/'') (rev (dropWhile (\<lambda>c. c = CHR ''/'') s)))"

definition path_parts :: "string \<Rightarrow> string list" where
  "path_parts path = filter (\<lambda>p. p \<noteq> []) (split_on CHR ''/'' (strip_slashes path))"

fun make_parts :: "'w zk_env \<Rightarrow> string \<Rightarrow> string list \<Rightarrow> ('w, zevent, bool) eff" where
  "make_parts env current [] = ret True"
| "make_parts env current (p # ps) = do {
     let here = current @ ''/'' @ p;
     r \<leftarrow> act (z_create env here [] False False) (Z_Create here);
     case r of Zk_Failed \<Rightarrow> ret False | _ \<Rightarrow> make_parts env here ps }"

definition ensure_path :: "'w zk_env \<Rightarrow> string \<Rightarrow> ('w, zevent, bool) eff" where
  "ensure_path env path = make_parts env [] (path_parts path)"

section \<open>One election\<close>

definition parent_of :: "string \<Rightarrow> string" where
  "parent_of service = leaders_root @ ''/'' @ service"

definition base_name :: "string \<Rightarrow> string" where
  "base_name path = last (split_on CHR ''/'' path)"

text \<open>\<open>stand\<close>; the ballot of the \<open>Election\<close> is its state. \<^const>\<open>None\<close> as a result is an exception.\<close>

definition stand :: "'w zk_env \<Rightarrow> string \<Rightarrow> string \<Rightarrow> string option \<Rightarrow> ('w, zevent, string option) eff" where
  "stand env service identity ballot =
     (case ballot of
        Some b \<Rightarrow> ret (Some b)
      | None \<Rightarrow> do {
          ok \<leftarrow> ensure_path env (parent_of service);
          if \<not> ok then ret None
          else do {
            let path = parent_of service @ ''/'' @ ballot_prefix;
            r \<leftarrow> act (z_create env path identity True True) (Z_Create path);
            ret (case r of Made p \<Rightarrow> Some (base_name p) | _ \<Rightarrow> None) } })"

definition children_at :: "'w zk_env \<Rightarrow> string \<Rightarrow> ('w, zevent, string list option) eff" where
  "children_at env service = act (z_children env (parent_of service)) (Z_Children (parent_of service))"

definition is_leader :: "'w zk_env \<Rightarrow> string \<Rightarrow> string option \<Rightarrow> ('w, zevent, bool) eff" where
  "is_leader env service ballot =
     (case ballot of
        None \<Rightarrow> ret False
      | Some b \<Rightarrow> do {
          children \<leftarrow> children_at env service;
          ret (case children of None \<Rightarrow> False | Some cs \<Rightarrow> b \<in> set cs \<and> lowest_ballot cs = Some b) })"

definition standing :: "'w zk_env \<Rightarrow> string \<Rightarrow> string option \<Rightarrow> ('w, zevent, bool) eff" where
  "standing env service ballot =
     (case ballot of
        None \<Rightarrow> ret False
      | Some b \<Rightarrow> do {
          children \<leftarrow> children_at env service;
          ret (case children of None \<Rightarrow> False | Some cs \<Rightarrow> b \<in> set cs) })"

definition election_leader_identity :: "'w zk_env \<Rightarrow> string \<Rightarrow> ('w, zevent, string option) eff" where
  "election_leader_identity env service = do {
     children \<leftarrow> children_at env service;
     case children of
       None \<Rightarrow> ret None
     | Some cs \<Rightarrow>
         (case lowest_ballot cs of
            None \<Rightarrow> ret None
          | Some w \<Rightarrow>
              (let path = parent_of service @ ''/'' @ w in act (z_get env path) (Z_Get path))) }"

definition resign :: "'w zk_env \<Rightarrow> string \<Rightarrow> string option \<Rightarrow> ('w, zevent, string option) eff" where
  "resign env service ballot =
     (case ballot of
        None \<Rightarrow> ret None
      | Some b \<Rightarrow> do {
          let path = parent_of service @ ''/'' @ b;
          _ \<leftarrow> act (z_delete env path) (Z_Delete path);
          ret None })"

section \<open>A candidacy\<close>

definition candidacy_retry_seconds :: real where "candidacy_retry_seconds = 5"
definition identity_cache_seconds :: real where "identity_cache_seconds = 3"

record config =
  cf_service :: string
  cf_identity :: string
  cf_retry :: real
  cf_ttl :: real

text \<open>\<open>cy_election\<close> is the \<open>Election\<close>, by its ballot.\<close>

record candidacy =
  cy_client :: bool
  cy_election :: "string option option"
  cy_blocked :: real
  cy_cache :: "string option"
  cy_cache_at :: real

definition new_candidacy :: candidacy where
  "new_candidacy = \<lparr>cy_client = False, cy_election = None, cy_blocked = 0, cy_cache = None, cy_cache_at = 0\<rparr>"

definition drop_session :: "config \<Rightarrow> 'w zk_env \<Rightarrow> bool \<Rightarrow> candidacy \<Rightarrow> ('w, zevent, candidacy) eff" where
  "drop_session cf env block cy = do {
     until \<leftarrow> (if block then do { now \<leftarrow> look (z_now env); ret (now + cf_retry cf) } else ret (cy_blocked cy));
     (if cy_client cy then act (z_close env) (\<lambda>_. Z_Close) else ret ());
     ret \<lparr>cy_client = False, cy_election = None, cy_blocked = until, cy_cache = None, cy_cache_at = 0\<rparr> }"

definition session :: "config \<Rightarrow> 'w zk_env \<Rightarrow> candidacy \<Rightarrow> ('w, zevent, bool \<times> candidacy) eff" where
  "session cf env cy =
     (if cy_client cy then ret (True, cy)
      else do {
        now \<leftarrow> look (z_now env);
        if now < cy_blocked cy then ret (False, cy)
        else do {
          ok \<leftarrow> act (z_open env) Z_Open;
          if ok then ret (True, cy\<lparr>cy_client := True\<rparr>)
          else do { cy' \<leftarrow> drop_session cf env True cy; ret (False, cy') } } })"

definition ballot_of :: "candidacy \<Rightarrow> string option" where
  "ballot_of cy = (case cy_election cy of None \<Rightarrow> None | Some b \<Rightarrow> b)"

definition ensure_ballot :: "config \<Rightarrow> 'w zk_env \<Rightarrow> candidacy \<Rightarrow> ('w, zevent, bool \<times> candidacy) eff" where
  "ensure_ballot cf env cy =
     (if ballot_of cy \<noteq> None then ret (True, cy)
      else do {
        (ok, cy1) \<leftarrow> session cf env cy;
        if \<not> ok then ret (False, cy1)
        else do {
          b \<leftarrow> stand env (cf_service cf) (cf_identity cf) None;
          case b of
            None \<Rightarrow> do { cy2 \<leftarrow> drop_session cf env True cy1; ret (False, cy2) }
          | Some n \<Rightarrow> ret (True, cy1\<lparr>cy_election := Some (Some n)\<rparr>) } })"

definition leading :: "config \<Rightarrow> 'w zk_env \<Rightarrow> candidacy \<Rightarrow> ('w, zevent, bool \<times> candidacy) eff" where
  "leading cf env cy = do {
     (ok, cy1) \<leftarrow> ensure_ballot cf env cy;
     if \<not> ok then ret (False, cy1)
     else do {
       leads \<leftarrow> is_leader env (cf_service cf) (ballot_of cy1);
       if leads then ret (True, cy1)
       else do {
         there \<leftarrow> standing env (cf_service cf) (ballot_of cy1);
         if there then ret (False, cy1)
         else do { cy2 \<leftarrow> drop_session cf env True cy1; ret (False, cy2) } } } }"

definition leader_identity :: "config \<Rightarrow> 'w zk_env \<Rightarrow> candidacy \<Rightarrow> ('w, zevent, string option \<times> candidacy) eff" where
  "leader_identity cf env cy = do {
     moment \<leftarrow> look (z_now env);
     if cy_cache cy \<noteq> None \<and> moment - cy_cache_at cy < cf_ttl cf then ret (cy_cache cy, cy)
     else do {
       (ok, cy1) \<leftarrow> session cf env cy;
       if \<not> ok then ret (None, cy1)
       else do {
         found \<leftarrow> election_leader_identity env (cf_service cf);
         ret (found, case found of None \<Rightarrow> cy1 | Some i \<Rightarrow> cy1\<lparr>cy_cache := Some i, cy_cache_at := moment\<rparr>) } } }"

definition withdraw :: "config \<Rightarrow> 'w zk_env \<Rightarrow> candidacy \<Rightarrow> ('w, zevent, candidacy) eff" where
  "withdraw cf env cy =
     (case cy_election cy of
        None \<Rightarrow> ret cy
      | Some b \<Rightarrow> do { b' \<leftarrow> resign env (cf_service cf) b; ret (cy\<lparr>cy_election := Some b'\<rparr>) })"

definition close_candidacy :: "config \<Rightarrow> 'w zk_env \<Rightarrow> candidacy \<Rightarrow> ('w, zevent, candidacy) eff" where
  "close_candidacy cf env cy = do { cy' \<leftarrow> withdraw cf env cy; drop_session cf env False cy' }"

text \<open>\<open>cluster_candidacy\<close>: the addresses in the order they are dialled, this node's own first.\<close>

definition dial_order :: "string \<Rightarrow> string list \<Rightarrow> string list" where
  "dial_order ident addresses =
     (let rest = (if ident \<in> set addresses then ident # filter (\<lambda>a. a \<noteq> ident) addresses else addresses)
      in if rest = [] then [''127.0.0.1''] else rest)"

section \<open>Who wins\<close>

text \<open>The name the ensemble gives the ballot with counter \<open>q\<close>: the prefix, then ten digits at least.\<close>

definition ballot_name :: "nat \<Rightarrow> string" where
  "ballot_name q = ballot_prefix @ replicate (10 - length (show_nat q)) (digit_char 0) @ show_nat q"

lemma int_digits_digits:
  "list_all is_digit s \<Longrightarrow> s \<noteq> [] \<or> after \<Longrightarrow>
   int_digits after n s = Some (foldl (\<lambda>n c. 10 * n + digit_val c) n s)"
  by (induction s arbitrary: after n) auto

lemma digit_not_ws: "is_digit c \<Longrightarrow> \<not> is_ws c"
  by (auto simp: is_digit_def is_ws_def Let_def)

lemma strip_digits: "list_all is_digit s \<Longrightarrow> strip s = s"
proof -
  have keep: "dropWhile is_ws t = t" if "list_all is_digit t" for t
    using that digit_not_ws by (cases t) auto
  assume "list_all is_digit s"
  then show ?thesis by (simp add: strip_def keep)
qed

lemma int_of_text_digits:
  assumes "list_all is_digit s" "s \<noteq> []"
  shows "int_of_text s = Some (int (read_nat s))"
proof -
  obtain c cs where s: "s = c # cs" using assms(2) by (cases s) auto
  then have "is_digit c" using assms(1) by simp
  then have "c \<noteq> CHR ''-''" "c \<noteq> CHR ''+''" by (auto simp: is_digit_def)
  then show ?thesis
    using strip_digits [OF assms(1)] int_digits_digits [OF assms(1), of False 0] assms(2)
    by (simp add: int_of_text_def read_nat_def s del: int_digits.simps)
qed

lemma read_nat_padded: "read_nat (replicate k (digit_char 0) @ s) = read_nat s"
proof -
  have "foldl (\<lambda>n c. 10 * n + digit_val c) 0 (replicate k (digit_char 0)) = 0"
    by (induction k) auto
  then show ?thesis by (simp add: read_nat_def)
qed

lemma contains_member: "contains s (c # p) \<Longrightarrow> c \<in> set s"
  by (auto simp: contains_iff)

lemma ballot_sequence_name: "ballot_sequence (ballot_name q) = Some (int q)"
proof -
  let ?t = "replicate (10 - length (show_nat q)) (digit_char 0) @ show_nat q"
  have t: "list_all is_digit ?t" "?t \<noteq> []"
    using show_nat_digits [of q] by (auto simp: list_all_iff)
  moreover have "\<not> is_digit CHR ''n''" by (simp add: is_digit_def)
  ultimately have "CHR ''n'' \<notin> set ?t" unfolding list_all_iff by blast
  then have "CHR ''n'' \<notin> set (CHR ''_'' # ?t)" by simp
  then have "\<not> contains (CHR ''_'' # ?t) ''n_''" using contains_member by blast
  then have "after_last ''n_'' (CHR ''n'' # CHR ''_'' # ?t) = ?t" by (simp del: contains.simps)
  then show ?thesis
    using int_of_text_digits [OF t]
    by (simp add: ballot_sequence_def ballot_name_def ballot_prefix_def read_nat_padded)
qed

lemma foldl_min: "foldl min (b :: 'a :: linorder) bs = Min (set (b # bs))"
  by (simp add: Min.set_eq_fold foldl_conv_fold min.commute del: list.set)

lemma lowest_ballot_Min:
  "lowest_ballot cs = (if standing_ballots cs = [] then None else Some (snd (Min (set (standing_ballots cs)))))"
  by (auto simp: lowest_ballot_def foldl_min split: list.split simp del: list.set)

lemma standing_ballots_names:
  "standing_ballots (map ballot_name qs) = map (\<lambda>q. (int q, ballot_name q)) qs"
  by (induction qs) (auto simp: standing_ballots_def map_filter_simps ballot_sequence_name)

text \<open>
  The candidate that stood first wins. Whatever the order in which the ensemble lists the ballots,
  and also when the counter has outgrown its ten digits, the winning ballot is the one with the smallest
  counter, so candidates that stand later or give up do not change the winner while it stands.
\<close>

theorem oldest_ballot_wins:
  "lowest_ballot (map ballot_name qs) = (if qs = [] then None else Some (ballot_name (Min (set qs))))"
proof (cases "qs = []")
  case False
  have "mono (\<lambda>q. (int q, ballot_name q))"
    by (auto simp: mono_def less_eq_prod_def le_less)
  then have "Min ((\<lambda>q. (int q, ballot_name q)) ` set qs) = (int (Min (set qs)), ballot_name (Min (set qs)))"
    using mono_Min_commute [of "\<lambda>q. (int q, ballot_name q)" "set qs"] False by simp
  with False show ?thesis by (simp add: lowest_ballot_Min standing_ballots_names)
qed (simp add: lowest_ballot_def standing_ballots_def map_filter_simps)

section \<open>What a candidacy does with it\<close>

definition is_create :: "zevent \<Rightarrow> bool" where
  "is_create e = (case e of Z_Create _ _ \<Rightarrow> True | _ \<Rightarrow> False)"

text \<open>
  The answer of a call of \<open>leading\<close> that made the events \<open>es\<close>: it is yes only when the last thing the
  process learned is a list of children in which the ballot it still holds is the lowest, and a ballot it
  held on entry is not replaced within the call.
\<close>

definition answered_from :: "config \<Rightarrow> candidacy \<Rightarrow> bool \<Rightarrow> candidacy \<Rightarrow> zevent list \<Rightarrow> bool" where
  "answered_from cf cy yes cy' es \<longleftrightarrow>
     (yes \<longrightarrow> (\<exists>pre cs b. es = pre @ [Z_Children (parent_of (cf_service cf)) (Some cs)]
        \<and> ballot_of cy' = Some b \<and> b \<in> set cs \<and> lowest_ballot cs = Some b))
     \<and> (ballot_of cy \<noteq> None \<longrightarrow> \<not> list_ex is_create es \<and> ballot_of cy' \<in> {None, ballot_of cy})
     \<and> (\<not> yes \<and> ballot_of cy' \<noteq> None \<longrightarrow> list_ex (\<lambda>e. e \<in> range (\<lambda>cs. Z_Children (parent_of (cf_service cf)) (Some cs))) es)"

lemma is_leader_yields:
  "yields (is_leader env service ballot) (\<lambda>r es. \<not> list_ex is_create es \<and>
     (r \<longrightarrow> (\<exists>cs b. es = [Z_Children (parent_of service) (Some cs)] \<and> ballot = Some b \<and> b \<in> set cs \<and> lowest_ballot cs = Some b)))"
  unfolding is_leader_def children_at_def
  by (intro yields_intros) (auto split: option.splits simp: is_create_def intro!: yields_ret)

lemma standing_yields:
  "yields (standing env service ballot) (\<lambda>r es. \<not> list_ex is_create es \<and>
     (r \<longrightarrow> (\<exists>cs. es = [Z_Children (parent_of service) (Some cs)])))"
  unfolding standing_def children_at_def
  by (intro yields_intros) (auto split: option.splits simp: is_create_def intro!: yields_ret)

lemma drop_session_yields:
  "yields (drop_session cf env block cy) (\<lambda>cy' es. ballot_of cy' = None \<and> \<not> list_ex is_create es)"
  unfolding drop_session_def
  by (intro yields_intros) (auto simp: ballot_of_def is_create_def intro!: yields_intros)

lemma session_yields:
  "yields (session cf env cy) (\<lambda>r es. ballot_of cy = None \<longrightarrow> ballot_of (snd r) = None)"
  unfolding session_def
  by (intro yields_intros yields_mono [OF drop_session_yields]) (auto simp: ballot_of_def)

lemma ensure_ballot_yields:
  "yields (ensure_ballot cf env cy) (\<lambda>r es. fst r = (ballot_of (snd r) \<noteq> None)
     \<and> (ballot_of cy \<noteq> None \<longrightarrow> snd r = cy \<and> es = []))"
proof -
  have parts: "yields (make_parts env cur ps) (\<lambda>_ _. True)" for cur ps
    by (induction ps arbitrary: cur) (auto intro!: yields_intros split: created.split)
  have any: "yields (stand env svc i b) (\<lambda>_ _. True)" for svc i b
    unfolding stand_def ensure_path_def
    by (intro yields_intros yields_mono [OF parts]) auto
  show ?thesis unfolding ensure_ballot_def
    by (intro yields_intros yields_mono [OF session_yields] yields_mono [OF any] yields_mono [OF drop_session_yields])
      (auto simp: ballot_of_def split: if_splits)
qed

lemmas candidacy_yields = is_leader_yields standing_yields drop_session_yields ensure_ballot_yields

lemma leading_answers: "yields (leading cf env cy) (\<lambda>r es. answered_from cf cy (fst r) (snd r) es)"
  unfolding leading_def
  by (intro yields_intros candidacy_yields [THEN yields_mono]) (auto simp: answered_from_def)

text \<open>
  A process is told that it leads only by evidence. Whatever the ensemble answers, \<open>leading\<close> says
  yes only when the last read of the children of the service shows the ballot it holds as the lowest one,
  and a process that stood before the call does not get a new ballot within it: losing the ballot is
  reported before another is asked for.
\<close>

theorem leading_is_backed:
  "yields (leading cf env cy) (\<lambda>r es. answered_from cf cy (fst r) (snd r) es)"
  by (rule leading_answers)

text \<open>
  A read that fails costs the candidacy. A process that holds a ballot and whose reads of the
  children fail during one call of \<open>leading\<close> is told no, as it should be, and also loses its ballot and
  closes its session, though the ballot may well still stand: \<open>standing\<close> answers no when the answer
  cannot be established, and \<open>leading\<close> takes that no for a ballot that is gone.
\<close>

theorem unreadable_ensemble_costs_the_ballot:
  "case run_state (leading cf (env\<lparr>z_children := \<lambda>_ w. (None, w)\<rparr>)
      (cy\<lparr>cy_client := True, cy_election := Some (Some b)\<rparr>)) s of
     ((yes, cy'), s') \<Rightarrow> \<not> yes \<and> ballot_of cy' = None \<and> \<not> cy_client cy' \<and> last (trace s') = Z_Close"
  by (simp add: leading_def ensure_ballot_def ballot_of_def is_leader_def standing_def children_at_def
      drop_session_def act_def look_def State_Monad.bind_def State_Monad.return_def split: prod.splits)

end
