(* ===== verification/Rauru_Daemon.thy ===== *)
theory Rauru_Daemon
  imports Protection_Safety Election "HOL-Library.Word"
begin

text \<open>
  The daemon (\<open>src/rauru.py\<close>): \<open>Backoff\<close>, \<open>hydra_ready\<close>, \<open>run_everything\<close> and \<open>Daemon\<close>, wired as \<open>main\<close>
  wires them, so this is where the election, the snapshot policy and the protection domains meet. Times
  are reals; \<open>random()\<close> is a multiple of \<open>2^-53\<close> below one, as Python documents it. The sleep between two
  steps is the loop's own and leaves an event. The ssl calls (\<open>dfs_call\<close>, \<open>vm_power_call\<close>) are effects of the
  environment, and \<open>check\<close> looks at the modules of the installation.
\<close>

section \<open>Waiting after a failure\<close>

definition poll_seconds :: real where "poll_seconds = 30"
definition backoff_first_seconds :: real where "backoff_first_seconds = 5"
definition backoff_max_seconds :: real where "backoff_max_seconds = 300"

definition random_of :: "53 word \<Rightarrow> real" where
  "random_of k = real (unat k) / 2 ^ 53"

text \<open>\<open>Backoff.fail\<close>, for the number of failures before it.\<close>

definition backoff_fail :: "53 word \<Rightarrow> nat \<Rightarrow> real \<times> nat" where
  "backoff_fail k n =
     (min backoff_max_seconds (backoff_first_seconds * 2 ^ n) * (3 / 4 + 1 / 2 * random_of k), n + 1)"

section \<open>The environment and the passes\<close>

record 'w node_env =
  ne_zk :: "'w zk_env"
  ne_cluster :: "'w env"
  ne_config :: config
  ne_probe :: "'w \<Rightarrow> (string + int \<times> string) \<times> 'w"
  ne_clock :: "'w \<Rightarrow> real \<times> 'w"
  ne_random :: "'w \<Rightarrow> 53 word \<times> 'w"
  ne_protection :: bool

datatype message =
    Say_Leads | Say_Standby | Say_Waiting string | Say_Failures nat | Say_Complete | Say_Error exn
  | Say_No_Domains | Say_Domains_Failed exn | Say_Domain_Failures nat

datatype devent =
    Elected zevent | Worked event | Began real | Ended real | Said message | Slept real

definition hydra_ready :: "'w node_env \<Rightarrow> ('w, devent, bool \<times> string) eff" where
  "hydra_ready ne = do {
     a \<leftarrow> look (ne_probe ne);
     ret (case a of
            Inl e \<Rightarrow> (False, e)
          | Inr (rc, err) \<Rightarrow>
              if rc \<noteq> 0 then (False, take 200 (strip (or_str (Some err) ''the query was refused''))) else (True, '''')) }"

text \<open>Each pass makes a \<open>Runner\<close> of its own, so its task log starts without a hint.\<close>

definition run_snapshot_policy :: "'w node_env \<Rightarrow> ('w, devent, exn + summary) eff" where
  "run_snapshot_policy ne = do { set_memo None; inside Worked (run (ne_cluster ne) False) }"

definition run_domain_pass :: "'w node_env \<Rightarrow> ('w, devent, exn + dsummary) eff" where
  "run_domain_pass ne = do { set_memo None; inside Worked (run_domains (ne_cluster ne) False) }"

text \<open>\<open>said\<close> is \<open>_PROTECTION_SKIP_SAID\<close>.\<close>

definition run_everything :: "'w node_env \<Rightarrow> bool \<Rightarrow> ('w, devent, (exn + summary) \<times> bool) eff" where
  "run_everything ne said = do {
     r \<leftarrow> run_snapshot_policy ne;
     case r of
       Inl e \<Rightarrow> ret (Inl e, said)
     | Inr summary \<Rightarrow>
         if \<not> ne_protection ne then do {
           (if said then ret () else mark (Said Say_No_Domains));
           ret (Inr summary, True) }
         else do {
           d \<leftarrow> run_domain_pass ne;
           (case d of
              Inl e \<Rightarrow> mark (Said (Say_Domains_Failed e))
            | Inr ds \<Rightarrow> if dsummary_ok ds then ret () else mark (Said (Say_Domain_Failures (length (ds_failures ds)))));
           ret (Inr summary, said) } }"

section \<open>The daemon\<close>

record daemon =
  dm_candidacy :: candidacy
  dm_failures :: nat
  dm_next_run :: real
  dm_leading :: "bool option"
  dm_waiting :: "string option"
  dm_skip_said :: bool

definition new_daemon :: daemon where
  "new_daemon = \<lparr>dm_candidacy = new_candidacy, dm_failures = 0, dm_next_run = 0, dm_leading = None,
     dm_waiting = None, dm_skip_said = False\<rparr>"

definition announce_waiting :: "string \<Rightarrow> daemon \<Rightarrow> ('w, devent, daemon) eff" where
  "announce_waiting why d =
     (if dm_waiting d = Some why then ret d
      else do { mark (Said (Say_Waiting why)); ret (d\<lparr>dm_waiting := Some why\<rparr>) })"

definition fail_delay :: "'w node_env \<Rightarrow> daemon \<Rightarrow> ('w, devent, real \<times> daemon) eff" where
  "fail_delay ne d = do {
     k \<leftarrow> look (ne_random ne);
     (case backoff_fail k (dm_failures d) of (delay, n) \<Rightarrow> ret (delay, d\<lparr>dm_failures := n\<rparr>)) }"

definition interval_seconds :: real where
  "interval_seconds = real_of_int run_interval_seconds"

definition announce_leading :: "bool \<Rightarrow> daemon \<Rightarrow> ('w, devent, daemon) eff" where
  "announce_leading leads d =
     (if dm_leading d = Some leads then ret d
      else do { mark (Said (if leads then Say_Leads else Say_Standby)); ret (d\<lparr>dm_leading := Some leads\<rparr>) })"

text \<open>The end of \<open>_step\<close>, with the answer of \<open>run\<close>. An exception that is no \<open>RuntimeError\<close> is handled by \<open>step\<close>.\<close>

definition after_run :: "'w node_env \<Rightarrow> daemon \<Rightarrow> exn + summary \<Rightarrow> ('w, devent, real \<times> daemon) eff" where
  "after_run ne d r =
     (case r of
        Inl (Runtime_Error why) \<Rightarrow> do { d1 \<leftarrow> announce_waiting why d; fail_delay ne d1 }
      | Inl e \<Rightarrow> do { (delay, d1) \<leftarrow> fail_delay ne d; mark (Said (Say_Error e)); ret (delay, d1) }
      | Inr summary \<Rightarrow> do {
          now \<leftarrow> look (ne_clock ne);
          mark (Ended now);
          mark (Said (if summary_ok summary then Say_Complete else Say_Failures (length (failures summary))));
          ret (min poll_seconds interval_seconds,
               d\<lparr>dm_waiting := None, dm_failures := 0, dm_next_run := now + interval_seconds\<rparr>) })"

definition step_leading :: "'w node_env \<Rightarrow> daemon \<Rightarrow> ('w, devent, real \<times> daemon) eff" where
  "step_leading ne d = do {
     now \<leftarrow> look (ne_clock ne);
     if now < dm_next_run d then ret (min poll_seconds (dm_next_run d - now), d)
     else do {
       (ok, why) \<leftarrow> hydra_ready ne;
       if \<not> ok then do {
         d1 \<leftarrow> announce_waiting (''Hydra is not answering ('' @ why @ '')'') d;
         fail_delay ne d1 }
       else do {
         mark (Began now);
         (r, said) \<leftarrow> run_everything ne (dm_skip_said d);
         after_run ne (d\<lparr>dm_skip_said := said\<rparr>) r } } }"

definition daemon_step :: "'w node_env \<Rightarrow> daemon \<Rightarrow> ('w, devent, real \<times> daemon) eff" where
  "daemon_step ne d = do {
     (leads, cy) \<leftarrow> inside Elected (leading (ne_config ne) (ne_zk ne) (dm_candidacy d));
     d1 \<leftarrow> announce_leading leads (d\<lparr>dm_candidacy := cy\<rparr>);
     if \<not> leads then ret (poll_seconds, d1) else step_leading ne d1 }"

text \<open>The first \<open>n\<close> rounds of the loop of \<open>main\<close>.\<close>

primrec daemon_rounds :: "'w node_env \<Rightarrow> nat \<Rightarrow> daemon \<Rightarrow> ('w, devent, daemon) eff" where
  "daemon_rounds ne 0 d = ret d"
| "daemon_rounds ne (Suc n) d = do {
     (delay, d1) \<leftarrow> daemon_step ne d;
     mark (Slept delay);
     daemon_rounds ne n d1 }"

section \<open>Lemmas: the steps that only talk\<close>

definition chatter :: "devent \<Rightarrow> bool" where
  "chatter e = (case e of Said _ \<Rightarrow> True | _ \<Rightarrow> False)"

lemma announce_waiting_yields:
  "yields (announce_waiting why d) (\<lambda>d' es. list_all chatter es \<and> dm_next_run d' = dm_next_run d
     \<and> dm_candidacy d' = dm_candidacy d)"
  unfolding announce_waiting_def by (intro yields_intros yields_mark) (auto simp: chatter_def)

lemma announce_leading_yields:
  "yields (announce_leading leads d) (\<lambda>d' es. list_all chatter es \<and> dm_next_run d' = dm_next_run d
     \<and> dm_candidacy d' = dm_candidacy d)"
  unfolding announce_leading_def by (intro yields_intros yields_mark) (auto simp: chatter_def)

lemma random_bounds: "0 \<le> random_of k" "random_of k < 1"
proof -
  have "unat k < 2 ^ 53" using unsigned_less [of k] by simp
  then have "real (unat k) < real (2 ^ 53)" by (simp only: of_nat_less_iff)
  then show "random_of k < 1" unfolding random_of_def
    by (subst divide_less_eq_1_pos) (simp, simp only: of_nat_power of_nat_numeral)
  show "0 \<le> random_of k" unfolding random_of_def by (rule divide_nonneg_nonneg [OF of_nat_0_le_iff]) simp
qed

text \<open>A delay the loop can sleep: never zero or negative, at most six minutes and a quarter.\<close>

definition sleepable :: "real \<Rightarrow> bool" where
  "sleepable t \<longleftrightarrow> 0 < t \<and> t \<le> 375"

lemma backoff_sleepable: "sleepable (fst (backoff_fail k n))"
proof -
  let ?b = "min (300 :: real) (5 * 2 ^ n)" and ?j = "3 / 4 + 1 / 2 * random_of k"
  have "0 < ?b" "?b \<le> 300" "0 < ?j" "?j \<le> 5 / 4" using random_bounds [of k] by auto
  then have "0 < ?b * ?j" "?b * ?j \<le> 300 * (5 / 4)" by (simp, intro mult_mono) auto
  then show ?thesis
    by (simp add: backoff_fail_def sleepable_def backoff_max_seconds_def backoff_first_seconds_def)
qed

lemma fail_delay_yields:
  "yields (fail_delay ne d) (\<lambda>r es. es = [] \<and> sleepable (fst r) \<and> dm_next_run (snd r) = dm_next_run d
     \<and> dm_candidacy (snd r) = dm_candidacy d)"
  unfolding fail_delay_def
  by (intro yields_intros) (simp_all, metis backoff_sleepable fst_conv)

lemma hydra_ready_yields: "yields (hydra_ready ne) (\<lambda>_ es. es = [])"
  unfolding hydra_ready_def by (intro yields_intros) auto

section \<open>What a pass does\<close>

definition worked1 :: "devent \<Rightarrow> event list" where
  "worked1 e = (case e of Worked x \<Rightarrow> [x] | _ \<Rightarrow> [])"

definition worked :: "devent list \<Rightarrow> event list" where
  "worked es = concat (map worked1 es)"

definition passing :: "devent \<Rightarrow> bool" where
  "passing e = (case e of Worked _ \<Rightarrow> True | Said _ \<Rightarrow> True | _ \<Rightarrow> False)"

definition good_pass :: "devent list \<Rightarrow> bool" where
  "good_pass es \<longleftrightarrow> list_all passing es \<and> releases False (worked es)"

lemma worked_append [simp]: "worked (xs @ ys) = worked xs @ worked ys"
  by (simp add: worked_def)

lemma worked_map [simp]: "worked (map Worked xs) = xs"
  by (induction xs) (simp_all add: worked_def worked1_def)

lemma worked_none: "list_all (\<lambda>e. worked1 e = []) es \<Longrightarrow> worked es = []"
  by (induction es) (auto simp: worked_def)

interpretation passes: trace_property good_pass
proof
  show "good_pass []" by (simp add: good_pass_def worked_def releases_def)
  show "good_pass (xs @ ys)" if "good_pass xs" "good_pass ys" for xs ys
    using that released.together [of False "worked xs" "worked ys"] by (simp add: good_pass_def)
qed

lemma good_pass_work: "yields m (\<lambda>_. releases False) \<Longrightarrow> yields (inside Worked m) (\<lambda>_. good_pass)"
  by (rule yields_inside, erule yields_mono) (auto simp: good_pass_def passing_def list_all_iff)

lemma good_pass_say: "yields (mark (Said x)) (\<lambda>_. good_pass)"
  by (rule yields_mark) (simp add: good_pass_def passing_def worked_def worked1_def releases_def)

lemma run_everything_yields: "yields (run_everything ne said) (\<lambda>_. good_pass)"
proof -
  have "yields (run (ne_cluster ne) False) (\<lambda>_. releases False)"
    by (intro releases_quiet emits_run) (simp_all add: is_suspend_def)
  then show ?thesis
    unfolding run_everything_def run_snapshot_policy_def run_domain_pass_def
    by (intro passes.rules good_pass_work good_pass_say run_domains_releases)
qed

section \<open>Only the leader works\<close>

definition unelected :: "devent \<Rightarrow> bool" where
  "unelected e = (case e of Elected _ \<Rightarrow> False | _ \<Rightarrow> True)"

text \<open>
  The events \<open>es\<close> of a step that ends in \<open>d\<close>: no work, or all of it after a list of children in which the
  ballot the daemon still holds is the lowest, with no later word from the ensemble; and no guest is left
  without the resume it is owed.
\<close>

definition acted_as_leader :: "config \<Rightarrow> daemon \<Rightarrow> devent list \<Rightarrow> bool" where
  "acted_as_leader cf d es \<longleftrightarrow>
     still_held False {} (worked es) = {}
     \<and> (worked es = [] \<or>
        (\<exists>pre cs b rest. es = pre @ Elected (Z_Children (parent_of (cf_service cf)) (Some cs)) # rest
           \<and> worked pre = [] \<and> list_all unelected rest
           \<and> ballot_of (dm_candidacy d) = Some b \<and> b \<in> set cs \<and> lowest_ballot cs = Some b))"

section \<open>Pace\<close>

definition due1 :: "real \<Rightarrow> devent \<Rightarrow> real" where
  "due1 t e = (case e of Ended u \<Rightarrow> u + interval_seconds | _ \<Rightarrow> t)"

definition pace1 :: "real \<Rightarrow> devent \<Rightarrow> bool" where
  "pace1 t e = (case e of Began u \<Rightarrow> t \<le> u | Slept u \<Rightarrow> sleepable u | _ \<Rightarrow> True)"

text \<open>Every run begins no earlier than an interval after the last one ended, and every sleep is one the loop can make.\<close>

fun paced :: "real \<Rightarrow> devent list \<Rightarrow> bool" where
  "paced t [] = True"
| "paced t (e # es) = (pace1 t e \<and> paced (due1 t e) es)"

lemma paced_append: "paced t (xs @ ys) \<longleftrightarrow> paced t xs \<and> paced (foldl due1 t xs) ys"
  by (induction xs arbitrary: t) auto

lemma passing_paced:
  "list_all passing es \<Longrightarrow> paced t es \<and> foldl due1 t es = t \<and> list_all unelected es"
  by (induction es arbitrary: t) (auto simp: passing_def pace1_def due1_def unelected_def split: devent.splits)

lemma chatter_passing: "list_all chatter es \<Longrightarrow> list_all passing es \<and> worked es = []"
  by (auto simp: list_all_iff chatter_def passing_def worked1_def intro!: worked_none split: devent.splits)

text \<open>What a part of a step keeps, for a daemon that enters it as \<open>d\<close> and leaves it as \<open>d'\<close>.\<close>

definition part_ok :: "daemon \<Rightarrow> daemon \<Rightarrow> devent list \<Rightarrow> bool" where
  "part_ok d d' es \<longleftrightarrow>
     paced (dm_next_run d) es \<and> foldl due1 (dm_next_run d) es = dm_next_run d'
     \<and> list_all unelected es \<and> releases False (worked es) \<and> dm_candidacy d' = dm_candidacy d"

lemma part_ok_append: "part_ok d d1 xs \<Longrightarrow> part_ok d1 d2 ys \<Longrightarrow> part_ok d d2 (xs @ ys)"
  by (auto simp: part_ok_def paced_append intro: released.together)

lemma part_ok_pass:
  "good_pass es \<Longrightarrow> dm_next_run d' = dm_next_run d \<Longrightarrow> dm_candidacy d' = dm_candidacy d \<Longrightarrow> part_ok d d' es"
  by (simp add: part_ok_def good_pass_def passing_paced)

lemma part_ok_chatter:
  "list_all chatter es \<Longrightarrow> dm_next_run d' = dm_next_run d \<Longrightarrow> dm_candidacy d' = dm_candidacy d \<Longrightarrow> part_ok d d' es"
  by (rule part_ok_pass) (auto simp: good_pass_def chatter_passing releases_def)

lemma part_ok_say: "part_ok d d' es \<Longrightarrow> part_ok d d' (es @ [Said x])"
  by (rule part_ok_append) (auto intro: part_ok_chatter simp: chatter_def)

lemmas talk = announce_waiting_yields announce_leading_yields fail_delay_yields hydra_ready_yields

lemma after_run_yields:
  "yields (after_run ne d r) (\<lambda>x es. sleepable (fst x) \<and> part_ok d (snd x) es)"
proof -
  have fail: "yields (fail_delay ne d') (\<lambda>x es. sleepable (fst x) \<and> part_ok d' (snd x) es)" for d'
    by (rule yields_mono [OF fail_delay_yields]) (auto intro: part_ok_chatter)
  show ?thesis
  proof (cases r)
    case (Inl e)
    show ?thesis
      unfolding after_run_def Inl
      by (cases e) (auto intro!: yields_intros yields_mark yields_mono [OF announce_waiting_yields] yields_mono [OF fail]
        dest: part_ok_chatter intro: part_ok_append part_ok_say)
  next
    case (Inr sm)
    then show ?thesis
      unfolding after_run_def Inr
      by (auto intro!: yields_intros yields_mark simp: sleepable_def poll_seconds_def interval_seconds_def
          run_interval_seconds_def part_ok_def pace1_def due1_def worked_def worked1_def releases_def unelected_def)
  qed
qed

lemma step_leading_yields:
  "yields (step_leading ne d) (\<lambda>x es. sleepable (fst x) \<and> part_ok d (snd x) es)"
proof -
  have fail: "yields (fail_delay ne d') (\<lambda>x es. sleepable (fst x) \<and> part_ok d' (snd x) es)" for d'
    by (rule yields_mono [OF fail_delay_yields]) (auto intro: part_ok_chatter)
  have wait: "yields (announce_waiting why d) (\<lambda>d' es. part_ok d d' es)" for why
    by (rule yields_mono [OF announce_waiting_yields]) (auto intro: part_ok_chatter)
  have began: "part_ok d d [Began now]" if "dm_next_run d \<le> now" for now
    using that by (simp add: part_ok_def pace1_def due1_def unelected_def worked_def worked1_def releases_def)
  have go: "yields (do { mark (Began now); (r, said) \<leftarrow> run_everything ne b; after_run ne (d\<lparr>dm_skip_said := said\<rparr>) r })
      (\<lambda>x es. sleepable (fst x) \<and> part_ok d (snd x) es)" if "dm_next_run d \<le> now" for now b
    by (intro yields_intros yields_mark yields_mono [OF run_everything_yields] yields_mono [OF after_run_yields])
      (auto dest!: part_ok_pass [of _ "d\<lparr>dm_skip_said := _\<rparr>" d] intro!: part_ok_append [OF began [OF that], unfolded append_Cons append_Nil] intro: part_ok_append)
  show ?thesis
    unfolding step_leading_def
    by (intro yields_intros yields_mono [OF wait] yields_mono [OF fail] yields_mono [OF hydra_ready_yields] yields_mono [OF go])
      (auto simp: sleepable_def poll_seconds_def intro: part_ok_append part_ok_chatter)
qed

text \<open>What the daemon has heard from the ensemble when \<open>leading\<close> has answered.\<close>

definition heard :: "config \<Rightarrow> real \<Rightarrow> bool \<Rightarrow> candidacy \<Rightarrow> devent list \<Rightarrow> bool" where
  "heard cf t leads cy es \<longleftrightarrow> worked es = [] \<and> paced t es \<and> foldl due1 t es = t \<and>
     (leads \<longrightarrow> (\<exists>pre cs b. es = pre @ [Elected (Z_Children (parent_of (cf_service cf)) (Some cs))]
        \<and> worked pre = [] \<and> ballot_of cy = Some b \<and> b \<in> set cs \<and> lowest_ballot cs = Some b))"

lemma leading_heard:
  "yields (inside Elected (leading cf zk cy)) (\<lambda>r. heard cf t (fst r) (snd r))"
proof (rule yields_inside, rule yields_mono [OF leading_answers])
  have calm: "worked (map Elected es) = [] \<and> paced t (map Elected es) \<and> foldl due1 t (map Elected es) = t" for es
    by (induction es) (simp_all add: worked_def worked1_def pace1_def due1_def)
  show "heard cf t (fst r) (snd r) (map Elected es)" if "answered_from cf cy (fst r) (snd r) es" for r es
    using that calm by (auto simp: answered_from_def heard_def)
qed

definition step_ok :: "config \<Rightarrow> daemon \<Rightarrow> real \<times> daemon \<Rightarrow> devent list \<Rightarrow> bool" where
  "step_ok cf d x es \<longleftrightarrow> sleepable (fst x) \<and> acted_as_leader cf (snd x) es
     \<and> paced (dm_next_run d) es \<and> foldl due1 (dm_next_run d) es = dm_next_run (snd x)"

lemma step_ok_idle:
  "heard cf (dm_next_run d) False cy xs \<Longrightarrow> list_all chatter ys \<Longrightarrow> dm_next_run d' = dm_next_run d \<Longrightarrow>
   step_ok cf d (poll_seconds, d') (xs @ ys)"
  using chatter_passing [of ys] passing_paced [of ys "dm_next_run d"]
  by (simp add: step_ok_def acted_as_leader_def paced_append heard_def sleepable_def poll_seconds_def)

lemma step_ok_leading:
  assumes "heard cf (dm_next_run d) True cy xs" "list_all chatter ys" "part_ok d1 d2 zs"
    "dm_next_run d1 = dm_next_run d" "dm_candidacy d1 = cy" "sleepable w"
  shows "step_ok cf d (w, d2) (xs @ ys @ zs)"
proof -
  obtain pre cs b where xs: "xs = pre @ [Elected (Z_Children (parent_of (cf_service cf)) (Some cs))]"
    and pre: "worked pre = []" and b: "ballot_of cy = Some b" "b \<in> set cs" "lowest_ballot cs = Some b"
    using assms(1) unfolding heard_def by blast
  have ys: "worked ys = []" "paced (dm_next_run d) ys" "foldl due1 (dm_next_run d) ys = dm_next_run d"
    "list_all unelected ys"
    using assms(2) chatter_passing passing_paced by blast+
  have "worked (xs @ ys @ zs) = worked zs" using assms(1) ys by (simp add: heard_def)
  moreover have "still_held False {} (worked zs) = {}" using assms(3) by (auto simp: part_ok_def releases_def)
  ultimately have "acted_as_leader cf d2 (xs @ ys @ zs)"
    using assms(3,5) ys b pre unfolding acted_as_leader_def xs
    by (intro conjI disjI2 exI [of _ pre] exI [of _ cs] exI [of _ b] exI [of _ "ys @ zs"])
      (auto simp: part_ok_def)
  then show ?thesis using assms ys by (simp add: step_ok_def paced_append part_ok_def heard_def)
qed

lemma daemon_step_ok: "yields (daemon_step ne d) (step_ok (ne_config ne) d)"
  unfolding daemon_step_def
  by (intro yields_intros yields_mono [OF leading_heard [where t = "dm_next_run d"]]
      yields_mono [OF announce_leading_yields] yields_mono [OF step_leading_yields])
    (auto intro: step_ok_idle step_ok_leading)

text \<open>
  C27. Only the leader works, and it works on evidence. In a step of the daemon a statement, a storage call or a
  power call of either pass happens only after a read of the election in that step in which the ballot
  the daemon still holds is the lowest, with nothing heard from the ensemble in between; and every guest whose
  suspend was answered as paused in the step is sent a resume before the step ends, whatever failed. A suspend whose answer is
  lost is not undone (\<open>lost_suspend_is_not_undone\<close>).
\<close>

theorem only_the_leader_works:
  "yields (daemon_step ne d) (\<lambda>x es. acted_as_leader (ne_config ne) (snd x) es)"
  by (rule yields_mono [OF daemon_step_ok]) (simp add: step_ok_def)

text \<open>
  The loop keeps its pace for ever. However many rounds it makes and whatever fails in them, a run begins
  no earlier than an interval after the last run that returned, and the delay handed to \<open>sleep\<close> is positive
  and at most 375 seconds.
\<close>

theorem rounds_are_paced: "yields (daemon_rounds ne n new_daemon) (\<lambda>_ es. paced 0 es)"
proof -
  have "yields (daemon_rounds ne n d) (\<lambda>_ es. paced (dm_next_run d) es)" for d
  proof (induction n arbitrary: d)
    case (Suc n)
    show ?case
      by (auto intro!: yields_intros yields_mark yields_mono [OF daemon_step_ok] yields_mono [OF Suc.IH]
          simp: step_ok_def paced_append pace1_def due1_def)
  qed (simp add: yields_ret)
  from this [of new_daemon] show ?thesis by (simp add: new_daemon_def)
qed

end
