(* ===== verification/Mipha_Config.thy ===== *)
theory Mipha_Config
  imports Effects Json
begin

text \<open>
  The fencing configuration (\<open>src/mipha.py\<close>): \<open>DEFAULT_FENCING_CONFIG\<close>, \<open>_merge_defaults\<close>,
  \<open>fencing_config_is_private\<close> and \<open>load_fencing_config\<close> with its cache. A configuration is a dictionary of JSON values
  as the file holds it, whose numbers are integers. The file's \<open>stat\<close> and its parsed content are effects; a
  warning is a value, its text left out.
\<close>

type_synonym config_dict = "(string \<times> jval) list"

section \<open>The defaults\<close>

definition policy_key :: string where "policy_key = ''unconfirmed_fence_policy''"

definition default_fencing_config :: config_dict where
  "default_fencing_config =
     [(policy_key, J_Str ''block''),
      (''bmc'', J_Dict [(''defaults'', J_Dict [(''interface'', J_Str ''lanplus''), (''power_off_timeout_seconds'', J_Num 60)]),
                      (''hosts'', J_Dict [])]),
      (''self_fence'', J_Dict [(''enabled'', J_Bool True), (''interval_seconds'', J_Num 10), (''threshold'', J_Num 3),
                             (''grace_seconds'', J_Num 180), (''auto_recover_after_clean_seconds'', J_Num 0),
                             (''quarantine_lift_after_clean_passes'', J_Num 6), (''release_zookeeper_leadership'', J_Bool True)])]"

definition merge_branch :: "config_dict \<Rightarrow> string \<times> jval \<Rightarrow> string \<times> jval" where
  "merge_branch override kv = (case kv of (key, value) \<Rightarrow>
     (key, case value of
             J_Dict d \<Rightarrow> J_Dict (case map_of override key of Some (J_Dict supplied) \<Rightarrow> dict_update d supplied | _ \<Rightarrow> d)
           | _ \<Rightarrow> (case map_of override key of Some x \<Rightarrow> x | None \<Rightarrow> value)))"

definition merge_defaults :: "config_dict \<Rightarrow> config_dict \<Rightarrow> config_dict" where
  "merge_defaults defaults override =
     foldl (\<lambda>merged (key, value). if map_of merged key = None then merged @ [(key, value)] else merged)
       (map (merge_branch override) defaults) override"

section \<open>Loading\<close>

datatype warning = Unreadable_Config string | Not_An_Object | Not_Private nat | Odd_Policy string

text \<open>The bits of a mode that let anyone but the owner at a file: \<open>st_mode & 0o077\<close>.\<close>

definition mode_is_private :: "nat \<Rightarrow> bool" where
  "mode_is_private mode \<longleftrightarrow> mode mod 64 = 0"

text \<open>The file read afresh: what it holds, whether it is private, and the mode to warn about.\<close>

definition raw_config :: "string + jval \<Rightarrow> config_dict \<times> warning list" where
  "raw_config content =
     (case content of
        Inl e \<Rightarrow> ([], [Unreadable_Config e])
      | Inr (J_Dict d) \<Rightarrow> (d, [])
      | Inr _ \<Rightarrow> ([], [Not_An_Object]))"

definition sane_policy :: "config_dict \<Rightarrow> string" where
  "sane_policy config =
     (let policy = lower (jval_text (case map_of config policy_key of Some v \<Rightarrow> v | None \<Rightarrow> J_Str ''block''))
      in if policy = ''block'' \<or> policy = ''failover'' then policy else ''block'')"

definition policy_warning :: "config_dict \<Rightarrow> warning list" where
  "policy_warning config =
     (let policy = lower (jval_text (case map_of config policy_key of Some v \<Rightarrow> v | None \<Rightarrow> J_Str ''block''))
      in if policy = ''block'' \<or> policy = ''failover'' then [] else [Odd_Policy policy])"

definition read_config :: "string + jval \<Rightarrow> bool \<Rightarrow> nat \<Rightarrow> config_dict \<times> warning list" where
  "read_config content private mode =
     (let (raw, w1) = raw_config content;
          w2 = (if private then w1 else w1 @ [Not_Private (mode mod 512)]);
          raw2 = (if private then raw else filter (\<lambda>(k, _). k \<noteq> ''bmc'') raw);
          config = merge_defaults default_fencing_config raw2
      in (dict_set policy_key (J_Str (sane_policy config)) config, w2 @ policy_warning config))"

record file_stat =
  st_mtime_ns :: int
  st_size :: int
  st_mode :: nat

record 'w config_env =
  ce_stat :: "'w \<Rightarrow> file_stat option \<times> 'w"
  ce_read :: "'w \<Rightarrow> (string + jval) \<times> 'w"

text \<open>\<open>_FENCING_CONFIG_CACHE\<close>: time and size of the file read last, and what came of it.\<close>

type_synonym config_cache = "((int \<times> int) \<times> config_dict \<times> warning list) option"

definition fencing_config_is_private :: "'w config_env \<Rightarrow> ('w, 'e, bool) eff" where
  "fencing_config_is_private env = do {
     st \<leftarrow> look (ce_stat env);
     ret (case st of None \<Rightarrow> False | Some s \<Rightarrow> mode_is_private (st_mode s)) }"

definition load_fencing_config :: "'w config_env \<Rightarrow> config_cache \<Rightarrow> ('w, 'e, (config_dict \<times> warning list) \<times> config_cache) eff" where
  "load_fencing_config env cache = do {
     found \<leftarrow> look (ce_stat env);
     case found of
       None \<Rightarrow> ret ((default_fencing_config, []), cache)
     | Some st \<Rightarrow>
         let key = (st_mtime_ns st, st_size st) in
         if map_option fst cache = Some key then ret (snd (the cache), cache)
         else do {
           content \<leftarrow> look (ce_read env);
           private \<leftarrow> fencing_config_is_private env;
           let r = read_config content private (st_mode st);
           ret (r, Some (key, r)) } }"

section \<open>Reading the configuration\<close>

text \<open>The section \<open>bmc\<close> is a dictionary in every configuration the loader returns.\<close>

definition bmc_section :: "config_dict \<Rightarrow> config_dict" where
  "bmc_section config = (case map_of config ''bmc'' of Some (J_Dict d) \<Rightarrow> d | _ \<Rightarrow> [])"

definition bmc_hosts :: "config_dict \<Rightarrow> config_dict option" where
  "bmc_hosts config =
     (let v = map_of (bmc_section config) ''hosts'' in
      if \<not> truthy_jval v then Some [] else (case v of Some (J_Dict d) \<Rightarrow> Some d | _ \<Rightarrow> None))"

text \<open>\<open>dict(...)\<close> of the defaults, which raises on what is no dictionary; a list of pairs is taken for such.\<close>

definition bmc_defaults :: "config_dict \<Rightarrow> string + config_dict" where
  "bmc_defaults config =
     (let v = map_of (bmc_section config) ''defaults'' in
      if \<not> truthy_jval v then Inr []
      else (case v of
          Some (J_Dict d) \<Rightarrow> Inr d
        | Some (J_Str _) \<Rightarrow> Inl ''ValueError: dictionary update sequence element #0 has length 1; 2 is required''
        | Some (J_List _) \<Rightarrow> Inl ''TypeError: cannot convert dictionary update sequence element #0 to a sequence''
        | Some (J_Bool _) \<Rightarrow> Inl ''TypeError: 'bool' object is not iterable''
        | _ \<Rightarrow> Inl ''TypeError: 'int' object is not iterable''))"

definition is_dict :: "jval option \<Rightarrow> bool" where
  "is_dict v = (case v of Some (J_Dict _) \<Rightarrow> True | _ \<Rightarrow> False)"

definition bmc_entry_for :: "string \<Rightarrow> string \<Rightarrow> config_dict \<Rightarrow> string + config_dict option" where
  "bmc_entry_for hostname ip config =
     (case bmc_hosts config of
        None \<Rightarrow> Inr None
      | Some hosts \<Rightarrow>
          (case List.find (\<lambda>k. k \<noteq> [] \<and> is_dict (map_of hosts k)) [hostname, ip] of
             None \<Rightarrow> Inr None
           | Some k \<Rightarrow>
               (case bmc_defaults config of
                  Inl e \<Rightarrow> Inl e
                | Inr entry \<Rightarrow> Inr (Some (dict_update entry (case map_of hosts k of Some (J_Dict h) \<Rightarrow> h | _ \<Rightarrow> []))))))"

definition waives_fence :: "config_dict \<Rightarrow> bool" where
  "waives_fence config \<longleftrightarrow> map_of config policy_key = Some (J_Str ''failover'')"

section \<open>What the loader guarantees\<close>

lemma map_of_merged:
  "map_of (foldl (\<lambda>m (key, value). if map_of m key = None then m @ [(key, value)] else m) m0 kvs) k =
     (case map_of m0 k of Some v \<Rightarrow> Some v | None \<Rightarrow> map_of kvs k)"
proof (induction kvs arbitrary: m0)
  case (Cons kv kvs)
  obtain a b where "kv = (a, b)" by fastforce
  with Cons.IH show ?case by (auto simp: map_add_def split: option.splits)
qed (auto split: option.splits)

lemma merged_policy:
  "map_of (merge_defaults default_fencing_config raw) policy_key =
     Some (case map_of raw policy_key of Some x \<Rightarrow> x | None \<Rightarrow> J_Str ''block'')"
  by (simp add: merge_defaults_def map_of_merged default_fencing_config_def merge_branch_def)

lemma merged_bmc:
  "map_of (merge_defaults default_fencing_config raw) ''bmc'' =
     Some (J_Dict (let d = [(''defaults'', J_Dict [(''interface'', J_Str ''lanplus''), (''power_off_timeout_seconds'', J_Num 60)]),
         (''hosts'', J_Dict [])]
       in case map_of raw ''bmc'' of Some (J_Dict supplied) \<Rightarrow> dict_update d supplied | _ \<Rightarrow> d))"
  by (simp add: merge_defaults_def map_of_merged default_fencing_config_def merge_branch_def policy_key_def Let_def
      split: option.splits jval.splits)

lemma filtered_key: "map_of (filter (\<lambda>(k, _). k \<noteq> a) d) b = (if a = b then None else map_of d b)"
  by (induction d) auto

lemma policy_not_bmc: "policy_key \<noteq> ''bmc''"
  by (simp add: policy_key_def)

lemma loaded_bmc:
  "map_of (fst (read_config content private mode)) ''bmc'' =
     map_of (merge_defaults default_fencing_config
       (if private then fst (raw_config content) else filter (\<lambda>(k, _). k \<noteq> ''bmc'') (fst (raw_config content)))) ''bmc''"
  using policy_not_bmc by (simp add: read_config_def Let_def map_of_dict_set split: prod.splits)

lemma loaded_policy:
  "map_of (fst (read_config content private mode)) policy_key = Some (J_Str
     (let policy = lower (jval_text (case map_of (fst (raw_config content)) policy_key of Some x \<Rightarrow> x | None \<Rightarrow> J_Str ''block''))
      in if policy = ''block'' \<or> policy = ''failover'' then policy else ''block''))"
  using policy_not_bmc
  by (auto simp: read_config_def sane_policy_def Let_def map_of_dict_set merged_policy filtered_key split: prod.splits)

text \<open>
  A configuration errs on the side of caution. Whatever the file holds, a failover without a proven fence is
  allowed only when the file is an object that asks for it in so many words; a file that cannot be read, is no object or
  asks for something else gives the policy to block. And no host has a BMC entry when others than root can
  read the file, so its credentials are not used.
\<close>

theorem config_is_cautious:
  "(waives_fence (fst (read_config content private mode)) \<longleftrightarrow>
      (\<exists>d v. content = Inr (J_Dict d) \<and> map_of d policy_key = Some v \<and> lower (jval_text v) = ''failover''))
   \<and> policy_warning (fst (read_config content private mode)) = []
   \<and> bmc_entry_for hostname ip (fst (read_config content False mode)) = Inr None"
proof (intro conjI)
  have block: "lower (jval_text (J_Str ''block'')) = ''block''" by code_simp
  show "waives_fence (fst (read_config content private mode)) \<longleftrightarrow>
      (\<exists>d v. content = Inr (J_Dict d) \<and> map_of d policy_key = Some v \<and> lower (jval_text v) = ''failover'')"
    unfolding waives_fence_def loaded_policy
    by (auto simp: raw_config_def Let_def block split: sum.splits jval.splits option.splits)
  have known: "lower ''block'' = ''block''" "lower ''failover'' = ''failover''" by code_simp+
  show "policy_warning (fst (read_config content private mode)) = []"
    unfolding policy_warning_def loaded_policy by (auto simp: Let_def jval_text_def known)
  have "bmc_section (fst (read_config content False mode)) =
      [(''defaults'', J_Dict [(''interface'', J_Str ''lanplus''), (''power_off_timeout_seconds'', J_Num 60)]), (''hosts'', J_Dict [])]"
    by (simp add: bmc_section_def loaded_bmc merged_bmc filtered_key)
  then show "bmc_entry_for hostname ip (fst (read_config content False mode)) = Inr None"
    by (simp add: bmc_entry_for_def bmc_hosts_def truthy_jval_def is_dict_def)
qed

text \<open>
  The cache does not see a change of mode: a file first found readable by others gives no BMC entry, and gives none
  after its mode is repaired, though a fresh process reads one, since neither its time nor its size changed.
\<close>

definition chmod_env :: "nat config_env" where
  "chmod_env = \<lparr>ce_stat = (\<lambda>mode. (Some \<lparr>st_mtime_ns = 1, st_size = 90, st_mode = mode\<rparr>, mode)),
     ce_read = (\<lambda>mode. (Inr (J_Dict [(''bmc'', J_Dict [(''hosts'', J_Dict [(''n1'', J_Dict [(''address'', J_Str ''10.0.9.1'')])])])]), mode))\<rparr>"

definition entry_after :: "config_cache \<Rightarrow> nat \<Rightarrow> (string + config_dict option) \<times> config_cache" where
  "entry_after cache mode =
     (case fst (run_state (load_fencing_config chmod_env cache) (\<lparr>hidden = mode, trace = [], memo = None\<rparr> :: (nat, unit) world)) of
        ((config, _), cache') \<Rightarrow> (bmc_entry_for ''n1'' ''10.0.0.1'' config, cache'))"

lemma mode_change_goes_unnoticed:
  "fst (entry_after None 420) = Inr None"
  "fst (entry_after (snd (entry_after None 420)) 384) = Inr None"
  "fst (entry_after None 384) \<noteq> Inr None"
  by code_simp+

end
