(* ===== verification/Mipha_Fence.thy ===== *)
theory Mipha_Fence
  imports Mipha_Config Text_Lines Complex_Main
begin

text \<open>
  Fencing (\<open>src/mipha.py\<close>): \<open>FenceResult\<close>, the ledger of confirmed fences, the three rungs of the ladder
  (\<open>storage_fence_assert\<close>, \<open>spark_fence_host\<close> with \<open>legacy_spark_fence\<close>, \<open>bmc_fence_host\<close>), \<open>fence_host\<close> and
  \<open>failover_permitted\<close>. The database, spark-daemon, the BMC, the clock and the files are effects of the
  environment; the rows of a query are typed. \<open>summary\<close> and \<open>detail\<close> are texts, as in the source; the clock
  time in the text of a ledger step is left out. A rung that raises is the left of a sum. The loop that waits for a chassis to power
  off takes fuel: running out of it is \<^const>\<open>None\<close>, so that returning can be stated.
\<close>

section \<open>What a fence proved\<close>

definition fence_method_none :: string where "fence_method_none = ''none''"
definition fence_method_self :: string where "fence_method_self = ''self''"
definition fence_method_spark :: string where "fence_method_spark = ''spark''"
definition fence_method_bmc :: string where "fence_method_bmc = ''bmc''"
definition fence_method_storage :: string where "fence_method_storage = ''storage-epoch''"
definition node_status_fenced :: string where "node_status_fenced = ''FENCED''"

record fence =
  fn_hostname :: string
  fn_ip :: string
  fn_confirmed :: bool
  fn_method :: string
  fn_detail :: string
  fn_steps :: "(string \<times> bool \<times> string) list"
  fn_at :: real

definition new_fence :: "string \<Rightarrow> string \<Rightarrow> real \<Rightarrow> fence" where
  "new_fence hostname ip now = \<lparr>fn_hostname = hostname, fn_ip = ip, fn_confirmed = False,
     fn_method = fence_method_none, fn_detail = '''', fn_steps = [], fn_at = now\<rparr>"

definition record_step :: "string \<Rightarrow> bool \<Rightarrow> string \<Rightarrow> fence \<Rightarrow> fence" where
  "record_step rung confirmed detail f =
     (let f1 = f\<lparr>fn_steps := fn_steps f @ [(rung, confirmed, detail)]\<rparr>
      in if confirmed \<and> \<not> fn_confirmed f then f1\<lparr>fn_confirmed := True, fn_method := rung, fn_detail := detail\<rparr>
         else f1)"

definition fence_summary :: "fence \<Rightarrow> string" where
  "fence_summary f =
     (if fn_confirmed f then ''confirmed by '' @ fn_method f @ '': '' @ fn_detail f
      else ''NOT confirmed: '' @ or_str (Some (join ''; '' (map (\<lambda>(m, _, d). m @ '' -> '' @ d) (fn_steps f))))
             ''no method was attempted'')"

type_synonym ledger = "string \<Rightarrow> fence option"

definition clear_fence_record :: "string \<Rightarrow> ledger \<Rightarrow> bool \<times> ledger" where
  "clear_fence_record ip led = (led ip \<noteq> None, led(ip := None))"

section \<open>The environment\<close>

record owner_row =
  w_vdisk :: string
  w_owner :: "string option"
  w_epoch :: "int option"

record claim =
  cl_vdisk :: string
  cl_owner :: string
  cl_epoch :: int
  cl_expected_owner :: string
  cl_expected_epoch :: int

text \<open>\<open>run_lwt\<close>: an error, or whether the swap was applied and the owner in the row that stands.\<close>

datatype swap = Swap_Failed string | Swap bool "string option"

record fence_body =
  fb_fenced :: "bool option"
  fb_detail :: "string option"
  fb_text :: string

text \<open>Reading a password file: the text, the reason it is not used, or what was raised.\<close>

datatype secret = Secret string | Unusable string | Raised string

record 'w fence_env =
  fe_sidon :: bool
  fe_tool :: "string option"
  fe_me :: "'w \<Rightarrow> string \<times> 'w"
  fe_rows :: "'w \<Rightarrow> owner_row list option \<times> 'w"
  fe_claim :: "claim \<Rightarrow> 'w \<Rightarrow> swap \<times> 'w"
  fe_spark :: "string \<Rightarrow> 'w \<Rightarrow> (int \<times> fence_body option \<times> string) \<times> 'w"
  fe_shell :: "string \<Rightarrow> string \<Rightarrow> 'w \<Rightarrow> (int \<times> string \<times> string) \<times> 'w"
  fe_attached :: "string \<Rightarrow> 'w \<Rightarrow> (string option list option \<times> string) \<times> 'w"
  fe_config :: "'w \<Rightarrow> config_dict \<times> 'w"
  fe_password_file :: "string \<Rightarrow> 'w \<Rightarrow> secret \<times> 'w"
  fe_argv :: "string list \<Rightarrow> string \<Rightarrow> 'w \<Rightarrow> (int \<times> string \<times> string) \<times> 'w"
  fe_time :: "'w \<Rightarrow> real \<times> 'w"
  fe_sleep :: "real \<Rightarrow> 'w \<Rightarrow> unit \<times> 'w"

datatype fevent =
    F_Rows "owner_row list option"
  | F_Claim claim swap
  | F_Spark string "fence_body option"
  | F_Shell string string "int \<times> string"
  | F_Attached string "string option list option"
  | F_Argv "string list" "int \<times> string"
  | F_Config config_dict

section \<open>Storage\<close>

definition owner_name :: "owner_row \<Rightarrow> string" where
  "owner_name r = strip (or_str (w_owner r) '''')"

definition dead_owner :: "string \<Rightarrow> string \<Rightarrow> string \<Rightarrow> bool" where
  "dead_owner hostname ip owner \<longleftrightarrow> owner = hostname \<or> owner = ip"

definition owned_by :: "string \<Rightarrow> string \<Rightarrow> owner_row list \<Rightarrow> (string \<times> string \<times> int) list" where
  "owned_by hostname ip rows =
     map (\<lambda>r. (w_vdisk r, owner_name r, or_int (w_epoch r) 0))
       (filter (\<lambda>r. owner_name r \<noteq> [] \<and> dead_owner hostname ip (owner_name r)) rows)"

definition claim_of :: "string \<Rightarrow> string \<times> string \<times> int \<Rightarrow> claim" where
  "claim_of me x = (case x of (vdisk, owner, epoch) \<Rightarrow>
     \<lparr>cl_vdisk = vdisk, cl_owner = me, cl_epoch = epoch + 1, cl_expected_owner = owner, cl_expected_epoch = epoch\<rparr>)"

definition moved_on :: "string \<Rightarrow> string \<Rightarrow> swap \<Rightarrow> bool" where
  "moved_on hostname ip a =
     (case a of
        Swap_Failed _ \<Rightarrow> False
      | Swap applied current \<Rightarrow>
          applied \<or> (let c = or_str current '''' in c \<noteq> [] \<and> \<not> dead_owner hostname ip c))"

definition claim_vdisk :: "'w fence_env \<Rightarrow> string \<Rightarrow> string \<Rightarrow> string \<Rightarrow> string \<times> string \<times> int \<Rightarrow>
    string list \<times> string list \<Rightarrow> ('w, fevent, string list \<times> string list) eff" where
  "claim_vdisk env hostname ip me x acc = do {
     let c = claim_of me x;
     a \<leftarrow> act (fe_claim env c) (F_Claim c);
     ret (case acc of (fenced, failed) \<Rightarrow>
       if moved_on hostname ip a then (fenced @ [fst x], failed)
       else (fenced, failed @ [fst x @ '': '' @
         or_str (case a of Swap_Failed e \<Rightarrow> Some e | _ \<Rightarrow> None) ''claim refused, still owned by the dead host''])) }"

definition storage_fence_assert :: "'w fence_env \<Rightarrow> string \<Rightarrow> string \<Rightarrow> ('w, fevent, bool \<times> string) eff" where
  "storage_fence_assert env hostname ip =
     (if \<not> fe_sidon env then ret (False, ''helios_sidon is not installed on this node, so no vdisk can be fenced'')
      else do {
        rows \<leftarrow> act (fe_rows env) F_Rows;
        case rows of
          None \<Rightarrow> ret (False, ''hydra.dfs_vdisks could not be read, so nothing can be fenced'')
        | Some rs \<Rightarrow>
            if owned_by hostname ip rs = [] then
              ret (True, hostname @ '' owns no vdisk; there is nothing it can still write'')
            else do {
              me \<leftarrow> look (fe_me env);
              (fenced, failed) \<leftarrow> for_each (claim_vdisk env hostname ip me) (owned_by hostname ip rs) ([], []);
              ret (if failed \<noteq> [] then
                     (False, ''could not raise the epoch on '' @ join ''; '' (take 5 failed)
                        @ (if length failed > 5 then '' (and '' @ show_nat (length failed - 5) @ '' more)'' else ''''))
                   else (True, show_nat (length fenced) @ '' vdisk(s) moved past '' @ hostname
                        @ CHR 0x27 # ''s epoch; every replica now rejects its writes'')) } })"

section \<open>spark-daemon\<close>

definition fence_cmd :: string where
  "fence_cmd = ''systemctl stop libvirtd virtqemud || true; pkill -9 qemu-system-x86_64 || true; pkill -9 qemu || true''"

definition legacy_spark_fence :: "'w fence_env \<Rightarrow> string \<Rightarrow> ('w, fevent, bool \<times> string) eff" where
  "legacy_spark_fence env ip = do {
     _ \<leftarrow> act (fe_shell env ip fence_cmd) (\<lambda>(rc, out, _). F_Shell ip fence_cmd (rc, out));
     (rc, out, err) \<leftarrow> act (fe_shell env ip ''pgrep -a qemu'') (\<lambda>(rc, out, _). F_Shell ip ''pgrep -a qemu'' (rc, out));
     if rc \<noteq> 0 \<and> rc \<noteq> 1 then
       ret (False, ''could not read the process table on the host after the fence (''
              @ take 200 (strip (or_str (Some err) out)) @ ''), so nothing is proven'')
     else if rc = 0 \<and> strip out \<noteq> [] then
       ret (False, ''guest processes are still running after the fence: '' @ join '' | '' (take 5 (splitlines (strip out))))
     else do {
       (listed, err_s) \<leftarrow> act (fe_attached env ip) (\<lambda>(a, _). F_Attached ip a);
       ret (case listed of
              None \<Rightarrow> (False, ''no qemu is left, but the host's vdisk state could not be read (''
                 @ or_str (Some err_s) ''unparseable response'' @ ''), so it is not proven that it released its disks'')
            | Some vs \<Rightarrow>
                if vs \<noteq> [] then (False, ''the host is still serving ''
                   @ join '', '' (take 5 (map (\<lambda>v. case v of None \<Rightarrow> ''?'' | Some n \<Rightarrow> n) vs)))
                else (True, ''no guest process is left and the host is serving no vdisk'')) } }"

definition spark_fence_host :: "'w fence_env \<Rightarrow> string \<Rightarrow> ('w, fevent, bool \<times> string) eff" where
  "spark_fence_host env ip = do {
     (status, body, err) \<leftarrow> act (fe_spark env ip) (\<lambda>(status, body, _).
        F_Spark ip (if status = 200 \<or> status = 409 then body else None));
     case (if status = 200 \<or> status = 409 then Option.bind body (\<lambda>b. map_option (Pair b) (fb_fenced b)) else None) of
       Some (b, fenced) \<Rightarrow>
         ret (if fenced then (True, or_str (fb_detail b)
                ''spark-daemon reports no guest processes and no served device and no Primary resource'')
              else (False, ''spark-daemon ran the fence and it did not take: '' @ take 300 (or_str (fb_detail b) (fb_text b))))
     | None \<Rightarrow>
         if status = 404 then legacy_spark_fence env ip
         else ret (False, ''spark-daemon did not answer the fence request: '' @ or_str (Some err) ''unknown error'') }"

section \<open>The BMC\<close>

type_synonym bmc_entry = config_dict

text \<open>\<open>str(entry.get(key))\<close>.\<close>

definition text_at :: "bmc_entry \<Rightarrow> string \<Rightarrow> string" where
  "text_at entry key = (case map_of entry key of Some v \<Rightarrow> jval_text v | None \<Rightarrow> ''None'')"

definition bmc_password :: "'w fence_env \<Rightarrow> bmc_entry \<Rightarrow> ('w, fevent, secret) eff" where
  "bmc_password env entry =
     (if truthy_jval (map_of entry ''password_file'') then look (fe_password_file env (text_at entry ''password_file''))
      else ret (case map_of entry ''password'' of
                  Some (J_Str p) \<Rightarrow> if p \<noteq> [] then Secret p else Unusable ''no password or password_file in the BMC entry''
                | _ \<Rightarrow> Unusable ''no password or password_file in the BMC entry''))"

definition bmc_base :: "string \<Rightarrow> bmc_entry \<Rightarrow> string list" where
  "bmc_base tool entry =
     [tool, ''-I'', if truthy_jval (map_of entry ''interface'') then text_at entry ''interface'' else ''lanplus'',
      ''-H'', text_at entry ''address'', ''-U'', text_at entry ''username'', ''-E'']
     @ (if map_of entry ''cipher_suite'' \<noteq> None \<and> map_of entry ''cipher_suite'' \<noteq> Some J_Null
        then [''-C'', text_at entry ''cipher_suite''] else [])
     @ (if truthy_jval (map_of entry ''privilege_level'') then [''-L'', text_at entry ''privilege_level''] else [])"

definition bmc_call :: "'w fence_env \<Rightarrow> string \<Rightarrow> string list \<Rightarrow> ('w, fevent, int \<times> string \<times> string) eff" where
  "bmc_call env password argv = act (fe_argv env argv password) (\<lambda>(rc, out, err). F_Argv argv (rc, or_str (Some out) err))"

text \<open>
  The values of Python's \<open>float\<close>: a real number, the two infinities, and what is not a number. Rounding to
  53 bits is left out; overflow is not: a numeral from half a unit beyond the greatest double on reads as infinite.
\<close>

datatype pyfloat = Real_Float real | Pos_Inf | Neg_Inf | Not_A_Number

text \<open>The sum of a time and a float, and whether a time is before a float.\<close>

fun plus_float :: "real \<Rightarrow> pyfloat \<Rightarrow> pyfloat" where
  "plus_float t (Real_Float x) = Real_Float (t + x)"
| "plus_float t x = x"

fun less_float :: "real \<Rightarrow> pyfloat \<Rightarrow> bool" where
  "less_float t (Real_Float x) \<longleftrightarrow> t < x"
| "less_float t Pos_Inf \<longleftrightarrow> True"
| "less_float t Neg_Inf \<longleftrightarrow> False"
| "less_float t Not_A_Number \<longleftrightarrow> False"

definition float_overflow :: real where
  "float_overflow = 2 ^ 1024 - 2 ^ 970"

definition to_float :: "real \<Rightarrow> pyfloat" where
  "to_float x = (if float_overflow \<le> x then Pos_Inf else if x \<le> - float_overflow then Neg_Inf else Real_Float x)"

text \<open>
  \<open>float\<close> of a text: with the white space off both ends, a sign if there is one, and then one of the words for
  infinity and not-a-number in whatever case, or a decimal numeral with a point and an exponent if it has them. An
  underscore may stand between two digits.
\<close>

definition signed :: "string \<Rightarrow> bool \<times> string" where
  "signed s = (case s of
     [] \<Rightarrow> (False, [])
   | c # r \<Rightarrow> if c = CHR ''-'' then (True, r) else if c = CHR ''+'' then (False, r) else (False, s))"

fun digit_part :: "string \<Rightarrow> string option" where
  "digit_part [] = Some []"
| "digit_part [c] = (if is_digit c then Some [c] else None)"
| "digit_part (c # d # r) =
     (if \<not> is_digit c then None
      else if d = CHR ''_'' then (if r = [] then None else map_option (Cons c) (digit_part r))
      else map_option (Cons c) (digit_part (d # r)))"

definition float_text :: "string \<Rightarrow> pyfloat option" where
  "float_text text0 =
     (let (minus, body) = signed (strip text0);
          mantissa = takeWhile (\<lambda>c. lower_char c \<noteq> CHR ''e'') body;
          tail = dropWhile (\<lambda>c. lower_char c \<noteq> CHR ''e'') body;
          (whole, frac) = partition_on (CHR ''.'') mantissa;
          (eminus, exponent) = signed (drop 1 tail)
      in if lower body = ''inf'' \<or> lower body = ''infinity'' then Some (if minus then Neg_Inf else Pos_Inf)
         else if lower body = ''nan'' then Some Not_A_Number
         else (case (digit_part whole, digit_part frac, digit_part exponent) of
             (Some ws, Some fs, Some es) \<Rightarrow>
               if ws @ fs = [] \<or> (tail \<noteq> [] \<and> es = []) then None
               else Some (to_float ((if minus then -1 else 1) * real (read_nat (ws @ fs)) / 10 ^ length fs
                      * (if eminus then 1 / 10 ^ read_nat es else 10 ^ read_nat es)))
           | _ \<Rightarrow> None))"

text \<open>
  The timeout of an entry, sixty seconds where it has none. A number of the configuration is a whole one here; one too
  large for a float raises.
\<close>

definition power_off_timeout :: "bmc_entry \<Rightarrow> string + pyfloat" where
  "power_off_timeout entry = (let v = map_of entry ''power_off_timeout_seconds'' in
     if \<not> truthy_jval v then Inr (Real_Float 60)
     else (case v of
         Some (J_Bool b) \<Rightarrow> Inr (Real_Float 1)
       | Some (J_Num n) \<Rightarrow> if float_overflow \<le> \<bar>real_of_int n\<bar> then Inl ''OverflowError: int too large to convert to float''
                          else Inr (Real_Float (real_of_int n))
       | Some (J_Str t) \<Rightarrow> (case float_text t of
             Some x \<Rightarrow> Inr x
           | None \<Rightarrow> Inl (''ValueError: could not convert string to float: '' @ quoted t))
       | Some (J_List _) \<Rightarrow> Inl (''TypeError: float() argument must be a string or a real number, not '' @ quoted ''list'')
       | _ \<Rightarrow> Inl (''TypeError: float() argument must be a string or a real number, not '' @ quoted ''dict'')))"

definition power_status :: "string list" where
  "power_status = [''chassis'', ''power'', ''status'']"

text \<open>The loop until the deadline: what the last answer was, and whether it read off.\<close>

fun bmc_poll :: "nat \<Rightarrow> 'w fence_env \<Rightarrow> string \<Rightarrow> string list \<Rightarrow> pyfloat \<Rightarrow> string \<Rightarrow>
    ('w, fevent, (bool \<times> string) option) eff" where
  "bmc_poll 0 env password base deadline latest = ret None"
| "bmc_poll (Suc fuel) env password base deadline latest = do {
     now \<leftarrow> look (fe_time env);
     if \<not> less_float now deadline then ret (Some (False, latest))
     else do {
       (rc, out, err) \<leftarrow> bmc_call env password (base @ power_status);
       let answer = strip (or_str (Some out) err);
       if rc = 0 \<and> contains (lower answer) ''is off'' then ret (Some (True, answer))
       else do {
         _ \<leftarrow> look (fe_sleep env 3);
         bmc_poll fuel env password base deadline answer } } }"

definition bmc_power_off :: "nat \<Rightarrow> 'w fence_env \<Rightarrow> string \<Rightarrow> bmc_entry \<Rightarrow> string \<Rightarrow>
    ('w, fevent, (string + bool \<times> string) option) eff" where
  "bmc_power_off fuel env tool entry password = do {
     let base = bmc_base tool entry;
     let address = text_at entry ''address'';
     (rc, out, err) \<leftarrow> bmc_call env password (base @ [''chassis'', ''power'', ''off'']);
     if rc \<noteq> 0 then ret (Some (Inr (False, ''ipmitool chassis power off failed against '' @ address @ '': ''
            @ take 200 (strip (or_str (Some err) out)))))
     else do {
       now \<leftarrow> look (fe_time env);
       case power_off_timeout entry of
         Inl e \<Rightarrow> ret (Some (Inl e))
       | Inr seconds \<Rightarrow> do {
           r \<leftarrow> bmc_poll fuel env password base (plus_float now seconds) [];
           ret (case r of
                  None \<Rightarrow> None
                | Some (True, _) \<Rightarrow> Some (Inr (True, ''the BMC at '' @ address @ '' reports the chassis powered off''))
                | Some (False, latest) \<Rightarrow> Some (Inr (False, ''the BMC at '' @ address
                    @ '' accepted the power-off but never reported the chassis off (last answer: ''
                    @ or_str (Some latest) ''no answer'' @ ''). The host is not proven to be down.''))) } } }"

definition bmc_fence_host :: "nat \<Rightarrow> 'w fence_env \<Rightarrow> string \<Rightarrow> string \<Rightarrow> config_dict \<Rightarrow>
    ('w, fevent, (string + bool \<times> string) option) eff" where
  "bmc_fence_host fuel env hostname ip cf = do {
     let no = (\<lambda>why. ret (Some (Inr (False, why))));
     case bmc_entry_for hostname ip cf of
       Inl e \<Rightarrow> ret (Some (Inl e))
     | Inr found \<Rightarrow>
         let entry = (case found of None \<Rightarrow> [] | Some d \<Rightarrow> d) in
         if entry = [] then no (''no BMC entry for '' @ hostname
            @ '' in /etc/hci/fencing.json; out-of-band fencing is not configured for this host'')
         else if \<not> truthy_jval (map_of entry ''address'') \<or> \<not> truthy_jval (map_of entry ''username'') then
           no (''the BMC entry for '' @ hostname @ '' has no address or no username'')
         else (case fe_tool env of
             None \<Rightarrow> no ''ipmitool is not installed on this host, so the configured BMC cannot be used''
           | Some tool \<Rightarrow> do {
               password \<leftarrow> bmc_password env entry;
               case password of
                 Raised e \<Rightarrow> ret (Some (Inl e))
               | Unusable e \<Rightarrow> no (''BMC credentials for '' @ hostname @ '' are unusable: '' @ e)
               | Secret p \<Rightarrow> bmc_power_off fuel env tool entry p }) }"

section \<open>The ladder\<close>

text \<open>A rung that confirms ends the ladder and enters the ledger; one that raises did not confirm.\<close>

definition verdict_of :: "string + bool \<times> string \<Rightarrow> bool \<times> string" where
  "verdict_of r = (case r of Inl e \<Rightarrow> (False, ''raised '' @ e) | Inr v \<Rightarrow> v)"

definition climb :: "string \<Rightarrow> ('w, fevent, (string + bool \<times> string) option) eff \<Rightarrow>
    (fence \<Rightarrow> ('w, fevent, (fence \<times> ledger) option) eff) \<Rightarrow> ledger \<Rightarrow> string \<Rightarrow> fence \<Rightarrow>
    ('w, fevent, (fence \<times> ledger) option) eff" where
  "climb rung call others led ip f = do {
     r \<leftarrow> call;
     case r of
       None \<Rightarrow> ret None
     | Some v \<Rightarrow>
         (let f1 = record_step rung (fst (verdict_of v)) (snd (verdict_of v)) f
          in if fst (verdict_of v) then ret (Some (f1, led(ip \<mapsto> f1))) else others f1) }"

definition fence_ladder :: "nat \<Rightarrow> 'w fence_env \<Rightarrow> config_dict \<Rightarrow> string \<Rightarrow> string \<Rightarrow> ledger \<Rightarrow> fence \<Rightarrow>
    ('w, fevent, (fence \<times> ledger) option) eff" where
  "fence_ladder fuel env cf hostname ip led =
     climb fence_method_storage (do { r \<leftarrow> storage_fence_assert env hostname ip; ret (Some (Inr r)) })
       (climb fence_method_spark (do { r \<leftarrow> spark_fence_host env ip; ret (Some (Inr r)) })
         (climb fence_method_bmc (bmc_fence_host fuel env hostname ip cf) (\<lambda>f. ret (Some (f, led))) led ip)
         led ip)
       led ip"

text \<open>The configuration is read only when none is given and the ledger does not know the host.\<close>

definition fence_host :: "nat \<Rightarrow> 'w fence_env \<Rightarrow> config_dict option \<Rightarrow> string \<Rightarrow> string \<Rightarrow> string \<Rightarrow> ledger \<Rightarrow>
    ('w, fevent, (fence \<times> ledger) option) eff" where
  "fence_host fuel env config hostname ip db_status led =
     (case led ip of
       Some c \<Rightarrow> do {
         now \<leftarrow> look (fe_time env);
         ret (Some ((new_fence hostname ip now)\<lparr>fn_confirmed := True, fn_method := fn_method c,
           fn_detail := fn_detail c, fn_at := fn_at c, fn_steps := [(''ledger'', True, ''already fenced by '' @ fn_method c)]\<rparr>, led)) }
     | None \<Rightarrow> do {
         cf \<leftarrow> (case config of Some c \<Rightarrow> ret c | None \<Rightarrow> act (fe_config env) F_Config);
         now \<leftarrow> look (fe_time env);
         if db_status = node_status_fenced then
           (let f = record_step fence_method_self True ''the host fenced itself and recorded it in hydra.nodes''
                      (new_fence hostname ip now)
            in ret (Some (f, led(ip \<mapsto> f))))
         else fence_ladder fuel env cf hostname ip led (new_fence hostname ip now) })"

definition failover_permitted :: "fence \<Rightarrow> config_dict \<Rightarrow> bool \<times> string" where
  "failover_permitted f cf =
     (if fn_confirmed f then (True, ''the fence was confirmed by '' @ fn_method f)
      else if waives_fence cf then
        (True, ''unconfirmed_fence_policy is 'failover', so the failover proceeds on a host that is not proven to have stopped writing'')
      else (False, fence_summary f))"

section \<open>A confirmed fence is a proven one\<close>

text \<open>What each rung has to have read back.\<close>

definition storage_proof :: "string \<Rightarrow> string \<Rightarrow> fevent list \<Rightarrow> bool" where
  "storage_proof hostname ip es \<longleftrightarrow> (\<exists>rows. F_Rows (Some rows) \<in> set es
     \<and> (\<forall>x \<in> set (owned_by hostname ip rows). \<exists>me a. F_Claim (claim_of me x) a \<in> set es \<and> moved_on hostname ip a))"

definition says_fenced :: "string \<Rightarrow> fevent \<Rightarrow> bool" where
  "says_fenced ip e = (case e of F_Spark h (Some b) \<Rightarrow> h = ip \<and> fb_fenced b = Some True | _ \<Rightarrow> False)"

definition no_qemu :: "string \<Rightarrow> fevent \<Rightarrow> bool" where
  "no_qemu ip e = (case e of F_Shell h c (rc, out) \<Rightarrow> h = ip \<and> c = ''pgrep -a qemu'' \<and> (rc = 1 \<or> rc = 0 \<and> strip out = [])
     | _ \<Rightarrow> False)"

definition serves_none :: "string \<Rightarrow> fevent \<Rightarrow> bool" where
  "serves_none ip e = (case e of F_Attached h a \<Rightarrow> h = ip \<and> a = Some [] | _ \<Rightarrow> False)"

definition reads_off :: "fevent \<Rightarrow> bool" where
  "reads_off e = (case e of
     F_Argv argv (rc, out) \<Rightarrow> (\<exists>base. argv = base @ power_status) \<and> rc = 0 \<and> contains (lower (strip out)) ''is off''
   | _ \<Rightarrow> False)"

definition proven :: "string \<Rightarrow> string \<Rightarrow> fevent list \<Rightarrow> bool" where
  "proven hostname ip es \<longleftrightarrow> storage_proof hostname ip es \<or> list_ex (says_fenced ip) es
     \<or> list_ex (no_qemu ip) es \<and> list_ex (serves_none ip) es \<or> list_ex reads_off es"

lemma storage_proof_mono: "storage_proof hostname ip xs \<Longrightarrow> set xs \<subseteq> set ys \<Longrightarrow> storage_proof hostname ip ys"
  unfolding storage_proof_def by (meson subsetD)

lemma proven_append: "proven hostname ip xs \<or> proven hostname ip ys \<Longrightarrow> proven hostname ip (xs @ ys)"
  using storage_proof_mono [of hostname ip xs "xs @ ys"] storage_proof_mono [of hostname ip ys "xs @ ys"]
  unfolding proven_def by auto

lemma proven_Cons: "proven hostname ip es \<Longrightarrow> proven hostname ip (e # es)"
  using proven_append [of hostname ip "[e]" es] by simp

definition rung_ok :: "string \<Rightarrow> string \<Rightarrow> bool \<times> string \<Rightarrow> fevent list \<Rightarrow> bool" where
  "rung_ok hostname ip r es \<longleftrightarrow> (fst r \<longrightarrow> proven hostname ip es)"

lemma claims_yield:
  "yields (for_each (claim_vdisk env hostname ip me) xs acc)
     (\<lambda>r es. snd r = [] \<longrightarrow> snd acc = [] \<and>
       (\<forall>x \<in> set xs. \<exists>a. F_Claim (claim_of me x) a \<in> set es \<and> moved_on hostname ip a))"
proof (induction xs arbitrary: acc)
  case (Cons x xs)
  have one: "yields (claim_vdisk env hostname ip me x acc) (\<lambda>r es. \<exists>a. es = [F_Claim (claim_of me x) a]
      \<and> (snd r = [] \<longrightarrow> snd acc = [] \<and> moved_on hostname ip a))"
    unfolding claim_vdisk_def Let_def
    by (intro yields_intros) (auto split: prod.splits)
  show ?case
    unfolding for_each.simps
    by (rule yields_bind, rule yields_mono [OF one], rule yields_mono [OF Cons.IH]) auto
qed (simp add: yields_ret)

lemma storage_shown:
  "\<forall>x \<in> set (owned_by hostname ip rs). \<exists>a. F_Claim (claim_of me x) a \<in> set es \<and> moved_on hostname ip a \<Longrightarrow>
   proven hostname ip (F_Rows (Some rs) # es)"
  unfolding proven_def storage_proof_def by (rule disjI1, rule exI [of _ rs]) (simp, blast)

lemma storage_rung: "yields (storage_fence_assert env hostname ip) (rung_ok hostname ip)"
  unfolding storage_fence_assert_def
  by (intro yields_intros yields_mono [OF claims_yield])
    (simp_all add: rung_ok_def storage_shown split: if_splits, metis storage_shown)

lemma legacy_rung: "yields (legacy_spark_fence env ip) (rung_ok hostname ip)"
proof -
  have shown: "proven hostname ip (e # [F_Shell ip ''pgrep -a qemu'' (rc, out), F_Attached ip (Some [])])"
    if "rc = 1 \<or> rc = 0 \<and> strip out = []" for e rc out
    using that by (auto simp: proven_def no_qemu_def serves_none_def)
  show ?thesis
    unfolding legacy_spark_fence_def
    by (intro yields_intros) (auto simp: rung_ok_def intro!: shown split: option.splits if_splits)
qed

lemma spark_rung: "yields (spark_fence_host env ip) (rung_ok hostname ip)"
proof -
  have shown: "proven hostname ip [F_Spark ip (Some b)]" if "fb_fenced b = Some True" for b
    using that by (simp add: proven_def says_fenced_def)
  show ?thesis
    unfolding spark_fence_host_def
    by (intro yields_intros yields_mono [OF legacy_rung [of _ _ hostname]])
      (auto simp: rung_ok_def bind_eq_Some_conv intro: proven_Cons shown split: if_splits option.splits)
qed

lemma poll_rung:
  "yields (bmc_poll fuel env password base deadline latest) (\<lambda>r es. \<forall>x. r = Some x \<longrightarrow> rung_ok hostname ip x es)"
proof (induction fuel arbitrary: latest)
  case (Suc fuel)
  have shown: "proven hostname ip [F_Argv (base @ power_status) (0, out)]" if "contains (lower (strip out)) ''is off''" for out
    using that by (simp add: proven_def reads_off_def)
  show ?case
    unfolding bmc_poll.simps bmc_call_def Let_def
    by (intro yields_intros yields_mono [OF Suc.IH])
      (auto simp: rung_ok_def intro: proven_Cons shown)
qed (simp add: yields_ret)

lemma off_rung:
  "yields (bmc_power_off fuel env tool entry p) (\<lambda>r es. \<forall>x. r = Some x \<longrightarrow> rung_ok hostname ip (verdict_of x) es)"
  unfolding bmc_power_off_def bmc_call_def Let_def
  by (intro yields_intros yields_mono [OF poll_rung [of _ _ _ _ _ _ hostname ip]])
    (auto simp: rung_ok_def verdict_of_def intro: proven_Cons split: option.splits bool.splits)

lemma yields_case_secret:
  "(\<And>p. x = Secret p \<Longrightarrow> yields (f p) Q) \<Longrightarrow> (\<And>e. x = Unusable e \<Longrightarrow> yields (g e) Q) \<Longrightarrow>
   (\<And>e. x = Raised e \<Longrightarrow> yields (h e) Q) \<Longrightarrow>
   yields (case x of Secret p \<Rightarrow> f p | Unusable e \<Rightarrow> g e | Raised e \<Rightarrow> h e) Q"
  by (cases x) auto

lemma bmc_rung:
  "yields (bmc_fence_host fuel env hostname ip cf) (\<lambda>r es. \<forall>x. r = Some x \<longrightarrow> rung_ok hostname ip (verdict_of x) es)"
  unfolding bmc_fence_host_def bmc_password_def Let_def
  by (intro yields_intros yields_case_secret yields_mono [OF off_rung [of _ _ _ _ _ hostname ip]])
    (auto simp: rung_ok_def verdict_of_def)

text \<open>
  The answer of \<open>fence_host\<close> for a ledger \<open>led\<close>: confirmed only with proof, from the ledger, from the host's own
  record or read back by a rung in this call; not confirmed only after every rung was tried; and the ledger
  gains exactly the confirmed fences.
\<close>

definition truly_fenced :: "string \<Rightarrow> string \<Rightarrow> string \<Rightarrow> ledger \<Rightarrow> (fence \<times> ledger) option \<Rightarrow> fevent list \<Rightarrow> bool" where
  "truly_fenced hostname ip db_status led r es \<longleftrightarrow>
     (case r of
        None \<Rightarrow> True
      | Some (f, led') \<Rightarrow>
          (if fn_confirmed f
           then (led ip \<noteq> None \<or> db_status = node_status_fenced \<or> proven hostname ip es)
                \<and> led' = (if led ip = None then led(ip \<mapsto> f) else led)
           else led' = led \<and> map fst (fn_steps f) = [fence_method_storage, fence_method_spark, fence_method_bmc]))"

definition ladder_ok :: "string \<Rightarrow> string \<Rightarrow> ledger \<Rightarrow> string list \<Rightarrow> (fence \<times> ledger) option \<Rightarrow> fevent list \<Rightarrow> bool" where
  "ladder_ok hostname ip led tried r es \<longleftrightarrow>
     (case r of
        None \<Rightarrow> True
      | Some (f, led') \<Rightarrow> if fn_confirmed f then proven hostname ip es \<and> led' = led(ip \<mapsto> f)
                        else led' = led \<and> map fst (fn_steps f) = tried)"

lemma climb_ok:
  assumes call: "yields call (\<lambda>r es. \<forall>x. r = Some x \<longrightarrow> rung_ok hostname ip (verdict_of x) es)"
    and others: "\<And>g. \<not> fn_confirmed g \<Longrightarrow> map fst (fn_steps g) = map fst (fn_steps f) @ [rung] \<Longrightarrow>
        yields (others g) (ladder_ok hostname ip led tried)"
    and f: "\<not> fn_confirmed f"
  shows "yields (climb rung call others led ip f) (ladder_ok hostname ip led tried)"
  unfolding climb_def Let_def
proof (rule yields_bind, rule yields_mono [OF call])
  fix r es
  assume r: "\<forall>x. r = Some x \<longrightarrow> rung_ok hostname ip (verdict_of x) es"
  have lift: "ladder_ok hostname ip led tried x ys \<Longrightarrow> ladder_ok hostname ip led tried x (es @ ys)" for x ys
    by (auto simp: ladder_ok_def intro: proven_append split: option.splits prod.splits)
  show "yields (case r of None \<Rightarrow> ret None | Some v \<Rightarrow>
        if fst (verdict_of v) then ret (Some (record_step rung (fst (verdict_of v)) (snd (verdict_of v)) f,
          led(ip \<mapsto> record_step rung (fst (verdict_of v)) (snd (verdict_of v)) f)))
        else others (record_step rung (fst (verdict_of v)) (snd (verdict_of v)) f))
      (\<lambda>b es'. ladder_ok hostname ip led tried b (es @ es'))"
    using r f
    by (intro yields_intros yields_mono [OF others])
      (auto simp: rung_ok_def ladder_ok_def record_step_def Let_def intro: proven_append
        split: option.splits prod.splits)
qed

lemma ladder_proof:
  "\<not> fn_confirmed f \<Longrightarrow> fn_steps f = [] \<Longrightarrow> yields (fence_ladder fuel env cf hostname ip led f)
     (ladder_ok hostname ip led [fence_method_storage, fence_method_spark, fence_method_bmc])"
proof -
  have some: "yields (do { r \<leftarrow> m; ret (Some (Inr r)) }) (\<lambda>r es. \<forall>x. r = Some x \<longrightarrow> rung_ok hostname ip (verdict_of x) es)"
    if "yields m (rung_ok hostname ip)" for m :: "('a, fevent, bool \<times> string) eff"
    by (rule yields_bind, rule yields_mono [OF that]) (auto intro!: yields_ret simp: verdict_of_def)
  assume "\<not> fn_confirmed f" "fn_steps f = []"
  then show ?thesis
    unfolding fence_ladder_def
    by (intro climb_ok some storage_rung spark_rung bmc_rung yields_ret) (auto simp: ladder_ok_def)
qed

lemma fence_host_proof:
  "yields (fence_host fuel env config hostname ip db_status led) (truly_fenced hostname ip db_status led)"
  unfolding fence_host_def Let_def
  by (intro yields_intros yields_mono [OF ladder_proof])
    (auto simp: truly_fenced_def ladder_ok_def new_fence_def record_step_def intro: proven_Cons split: option.splits)

text \<open>
  C26. No fence is taken on trust. When \<open>fence_host\<close> reports a host as fenced, either the ledger or the host's own
  record in the database says so, or in this very call some rung read it back: every vdisk the table gives
  to the host was claimed away or is seen with another owner, spark-daemon reports the host fenced, no qemu is
  left and no vdisk is served, or the BMC reads the chassis off. A host reported as not fenced had every rung tried, and
  only confirmed fences enter the ledger.
\<close>

theorem fence_is_proven:
  "yields (fence_host fuel env config hostname ip db_status led) (truly_fenced hostname ip db_status led)"
  by (rule fence_host_proof)

section \<open>On a table with compare-and-swap\<close>

text \<open>
  Whom each vdisk's row names, and at which epoch. The fence relies on a claim being a compare-and-swap of that pair: the locale's laws. The
  gateway keeps them over a database that keeps its own contract (theory \<open>Daruk_Clients\<close>).
\<close>

type_synonym ownership = "string \<Rightarrow> (string option \<times> int option) option"

definition expects :: "claim \<Rightarrow> (string option \<times> int option) option" where
  "expects c = Some (Some (cl_expected_owner c), Some (cl_expected_epoch c))"

text \<open>
  An answered claim was applied exactly if the row was as expected, and a refused one tells the owner that stands. A claim that failed
  may have been lost before the database or on the way back, so the row is as it was or as asked for.
\<close>

locale claim_table =
  fixes owner_of :: "'w \<Rightarrow> ownership"
    and claim :: "claim \<Rightarrow> 'w \<Rightarrow> swap \<times> 'w"
  assumes answered: "claim c w = (Swap applied x, w') \<Longrightarrow>
      applied = (owner_of w (cl_vdisk c) = expects c)
      \<and> owner_of w' = (if applied then (owner_of w)(cl_vdisk c := Some (Some (cl_owner c), Some (cl_epoch c))) else owner_of w)
      \<and> (\<not> applied \<longrightarrow> (case owner_of w (cl_vdisk c) of Some (Some o', _) \<Rightarrow> x = Some o' | _ \<Rightarrow> True))"
    and unanswered: "claim c w = (Swap_Failed e, w') \<Longrightarrow>
      owner_of w' = owner_of w
      \<or> owner_of w (cl_vdisk c) = expects c \<and> owner_of w' = (owner_of w)(cl_vdisk c := Some (Some (cl_owner c), Some (cl_epoch c)))"

text \<open>A row that names the dead host.\<close>

definition names_dead :: "string \<Rightarrow> string \<Rightarrow> ownership \<Rightarrow> string \<Rightarrow> bool" where
  "names_dead hostname ip own v =
     (case own v of Some (Some o', _) \<Rightarrow> o' \<noteq> [] \<and> dead_owner hostname ip o' | _ \<Rightarrow> False)"

text \<open>The specification: every row of the dead host goes to this node, one epoch up.\<close>

definition taken :: "string \<Rightarrow> string \<Rightarrow> string \<Rightarrow> ownership \<Rightarrow> ownership" where
  "taken me hostname ip own v =
     (case own v of
        Some (Some o', Some e) \<Rightarrow> if o' \<noteq> [] \<and> dead_owner hostname ip o' then Some (Some me, Some (e + 1)) else own v
      | _ \<Rightarrow> own v)"

text \<open>Every row of the table is among the rows read, with its owner and its epoch.\<close>

definition read_whole :: "owner_row list \<Rightarrow> ownership \<Rightarrow> bool" where
  "read_whole rows own \<longleftrightarrow> (\<forall>v x. own v = Some x \<longrightarrow> (\<exists>r \<in> set rows. w_vdisk r = v \<and> (w_owner r, w_epoch r) = x))"

text \<open>
  The rung wired to a table: the rows it reads and what answers its claims. Before each claim, other clients do what they do
  to the database: \<open>others\<close>, any function of the hidden state. What is asked of them is that they give no disk to the dead host.
\<close>

definition amid :: "('w \<Rightarrow> 'w) \<Rightarrow> (claim \<Rightarrow> 'w \<Rightarrow> swap \<times> 'w) \<Rightarrow> claim \<Rightarrow> 'w \<Rightarrow> swap \<times> 'w" where
  "amid others claim c w = claim c (others w)"

definition wired :: "string \<Rightarrow> owner_row list \<Rightarrow> (claim \<Rightarrow> 'w \<Rightarrow> swap \<times> 'w) \<Rightarrow> 'w fence_env \<Rightarrow> 'w fence_env" where
  "wired me rows claim env =
     env\<lparr>fe_sidon := True, fe_me := (\<lambda>w. (me, w)), fe_rows := (\<lambda>w. (Some rows, w)), fe_claim := claim\<rparr>"

definition give_nothing :: "('w \<Rightarrow> ownership) \<Rightarrow> string \<Rightarrow> string \<Rightarrow> ('w \<Rightarrow> 'w) \<Rightarrow> bool" where
  "give_nothing owner_of hostname ip others \<longleftrightarrow>
     (\<forall>w v. names_dead hostname ip (owner_of (others w)) v \<longrightarrow> names_dead hostname ip (owner_of w) v)"

lemma claim_vdisk_run:
  assumes "claim (claim_of me x) (others (hidden s)) = (a, w)"
  obtains acc' s' where "run_state (claim_vdisk (wired me rows (amid others claim) env) hostname ip me x acc) s = (acc', s')"
    "hidden s' = w" "snd acc' = [] \<longleftrightarrow> snd acc = [] \<and> moved_on hostname ip a"
  using that assms by (simp add: claim_vdisk_def wired_def amid_def run_rules Let_def split: prod.splits)

lemma owned_names:
  assumes "(v, o', e) \<in> set (owned_by hostname ip rows)"
  shows "o' \<noteq> []" "dead_owner hostname ip o'"
  using assms by (auto simp: owned_by_def)

text \<open>Rows that name the dead host are found among the rows read.\<close>

lemma dead_rows_are_owned:
  assumes "read_whole rows own" "names_dead hostname ip own v" "strip hostname = hostname" "strip ip = ip"
  shows "v \<in> fst ` set (owned_by hostname ip rows)"
proof -
  obtain o' e where o': "own v = Some (Some o', e)" "o' \<noteq> []" "dead_owner hostname ip o'"
    using assms(2) by (auto simp: names_dead_def split: option.splits prod.splits)
  then obtain r where r: "r \<in> set rows" "w_vdisk r = v" "w_owner r = Some o'" using assms(1) unfolding read_whole_def by blast
  have "owner_name r = o'" using r(3) o'(2,3) assms(3,4) by (auto simp: owner_name_def or_str_def dead_owner_def)
  with r o' show ?thesis by (force simp: owned_by_def)
qed

context claim_table
begin

lemma claim_moves_on:
  assumes "claim (claim_of me (v, o', e)) w = (a, w')" "moved_on hostname ip a" "\<not> dead_owner hostname ip me"
  shows "names_dead hostname ip (owner_of w') v' \<Longrightarrow> names_dead hostname ip (owner_of w) v' \<and> v' \<noteq> v"
proof -
  obtain applied x where a: "a = Swap applied x" using assms(2) by (cases a) (simp_all add: moved_on_def)
  note laws = answered [OF assms(1) [unfolded a]]
  show "names_dead hostname ip (owner_of w') v' \<Longrightarrow> names_dead hostname ip (owner_of w) v' \<and> v' \<noteq> v"
    using laws assms(2,3)
    by (auto simp: a claim_of_def names_dead_def moved_on_def or_str_def Let_def split: if_splits option.splits prod.splits)
qed

lemma claims_fence:
  assumes "\<not> dead_owner hostname ip me" "give_nothing owner_of hostname ip others"
    and "run_state (for_each (claim_vdisk (wired me rows (amid others claim) env) hostname ip me) xs acc) s = (r, s')" "snd r = []"
  shows "snd acc = [] \<and> (\<forall>v. names_dead hostname ip (owner_of (hidden s')) v \<longrightarrow>
      names_dead hostname ip (owner_of (hidden s)) v \<and> v \<notin> fst ` set xs)"
  using assms(3)
proof (induction xs arbitrary: acc s)
  case Nil
  then show ?case using assms(4) by (simp add: State_Monad.return_def)
next
  case (Cons x xs)
  obtain v o' e where x: "x = (v, o', e)" by (cases x)
  obtain a w where c: "claim (claim_of me x) (others (hidden s)) = (a, w)" by fastforce
  obtain acc' s1 where one: "run_state (claim_vdisk (wired me rows (amid others claim) env) hostname ip me x acc) s = (acc', s1)"
    "hidden s1 = w" "snd acc' = [] \<longleftrightarrow> snd acc = [] \<and> moved_on hostname ip a" using claim_vdisk_run [where claim = claim and others = others and s = s, OF c] by metis
  have "run_state (for_each (claim_vdisk (wired me rows (amid others claim) env) hostname ip me) xs acc') s1 = (r, s')"
    using Cons.prems one(1) by (simp add: run_bind)
  from Cons.IH [OF this] one have rest: "snd acc = []" "moved_on hostname ip a"
    "\<And>v. names_dead hostname ip (owner_of (hidden s')) v \<Longrightarrow> names_dead hostname ip (owner_of w) v \<and> v \<notin> fst ` set xs" by auto
  have "names_dead hostname ip (owner_of (hidden s)) v' \<and> v' \<notin> fst ` set (x # xs)"
    if "names_dead hostname ip (owner_of (hidden s')) v'" for v'
    using rest(3) [OF that] claim_moves_on [OF c [unfolded x] rest(2) assms(1), of v'] assms(2) by (auto simp: give_nothing_def x)
  with rest(1) show ?case by blast
qed

lemma fence_holds:
  assumes "\<not> dead_owner hostname ip me" "give_nothing owner_of hostname ip others" "read_whole rows (owner_of (hidden s))"
    and "strip hostname = hostname" "strip ip = ip"
    and "run_state (storage_fence_assert (wired me rows (amid others claim) env) hostname ip) s = ((True, detail), s')"
  shows "\<not> names_dead hostname ip (owner_of (hidden s')) v"
proof (cases "owned_by hostname ip rows = []")
  case True
  then have "hidden s' = hidden s" using assms(6) by (auto simp: storage_fence_assert_def wired_def run_rules)
  with True show ?thesis using dead_rows_are_owned [OF assms(3) _ assms(4,5), of v] by auto
next
  case False
  define s0 where "s0 = s\<lparr>trace := trace s @ [F_Rows (Some rows)]\<rparr>"
  obtain r s1 where loop: "run_state (for_each (claim_vdisk (wired me rows (amid others claim) env) hostname ip me)
      (owned_by hostname ip rows) ([], [])) s0 = (r, s1)" by fastforce
  have "snd r = []" "s' = s1"
    using assms(6) False loop by (auto simp: storage_fence_assert_def wired_def run_rules s0_def split: prod.splits if_splits)
  with claims_fence [OF assms(1,2) loop] show ?thesis
    using dead_rows_are_owned [OF assms(3) _ assms(4,5), of v] by (auto simp: s0_def)
qed

text \<open>Left to itself, the rung changes no row but those it takes, also where claims fail.\<close>

lemma claim_takes:
  assumes "claim (claim_of me (v, o', e)) w = (a, w')" "o' \<noteq> []" "dead_owner hostname ip o'" "\<not> dead_owner hostname ip me"
    and "owner_of w v' = own v' \<or> owner_of w v' = taken me hostname ip own v'"
  shows "owner_of w' v' = own v' \<or> owner_of w' v' = taken me hostname ip own v'"
proof -
  have "owner_of w' v' = owner_of w v' \<or> v' = v \<and> owner_of w v = Some (Some o', Some e) \<and> owner_of w' v = Some (Some me, Some (e + 1))"
  proof (cases a)
    case (Swap applied x)
    show ?thesis using answered [OF assms(1) [unfolded Swap]] by (auto simp: claim_of_def expects_def split: if_splits)
  next
    case (Swap_Failed e')
    show ?thesis using unanswered [OF assms(1) [unfolded Swap_Failed]] by (auto simp: claim_of_def expects_def split: if_splits)
  qed
  with assms(2-) show ?thesis by (auto simp: taken_def split: option.splits if_splits)
qed

lemma claims_take:
  assumes "\<not> dead_owner hostname ip me" "list_all (\<lambda>(v, o', e). o' \<noteq> [] \<and> dead_owner hostname ip o') xs"
    and "run_state (for_each (claim_vdisk (wired me rows (amid (\<lambda>w. w) claim) env) hostname ip me) xs acc) s = (r, s')"
    and "owner_of (hidden s) v = own v \<or> owner_of (hidden s) v = taken me hostname ip own v"
  shows "owner_of (hidden s') v = own v \<or> owner_of (hidden s') v = taken me hostname ip own v"
  using assms(2-)
proof (induction xs arbitrary: acc s)
  case (Cons x xs)
  obtain u o' e where x: "x = (u, o', e)" by (cases x)
  obtain a w where c: "claim (claim_of me x) (hidden s) = (a, w)" by fastforce
  obtain acc' s1 where one: "run_state (claim_vdisk (wired me rows (amid (\<lambda>w. w) claim) env) hostname ip me x acc) s = (acc', s1)" "hidden s1 = w"
    using claim_vdisk_run [where claim = claim and others = "\<lambda>w. w" and s = s, OF c] by metis
  have "owner_of w v = own v \<or> owner_of w v = taken me hostname ip own v"
    using claim_takes [OF c [unfolded x] _ _ assms(1) Cons.prems(3)] Cons.prems(1) x by simp
  with Cons.IH [of acc' s1] Cons.prems(1,2) one show ?case by (simp add: run_bind)
qed (simp add: State_Monad.return_def)

lemma fence_takes:
  assumes "\<not> dead_owner hostname ip me"
    and "run_state (storage_fence_assert (wired me rows (amid (\<lambda>w. w) claim) env) hostname ip) s = (r, s')"
  shows "owner_of (hidden s') v = owner_of (hidden s) v \<or> owner_of (hidden s') v = taken me hostname ip (owner_of (hidden s)) v"
proof (cases "owned_by hostname ip rows = []")
  case True
  then show ?thesis using assms(2) by (auto simp: storage_fence_assert_def wired_def run_rules)
next
  case False
  define s0 where "s0 = s\<lparr>trace := trace s @ [F_Rows (Some rows)]\<rparr>"
  obtain q s1 where loop: "run_state (for_each (claim_vdisk (wired me rows (amid (\<lambda>w. w) claim) env) hostname ip me)
      (owned_by hostname ip rows) ([], [])) s0 = (q, s1)" by fastforce
  have "s' = s1" using assms(2) False loop by (auto simp: storage_fence_assert_def wired_def run_rules s0_def split: prod.splits)
  moreover have "list_all (\<lambda>(v, o', e). o' \<noteq> [] \<and> dead_owner hostname ip o') (owned_by hostname ip rows)"
    using owned_names by (fastforce simp: list_all_iff)
  ultimately show ?thesis
    using claims_take [OF assms(1) _ loop, of v "owner_of (hidden s)"] by (simp add: s0_def)
qed

end

lemma taken_is_fenced:
  "\<not> names_dead hostname ip own v \<Longrightarrow> taken me hostname ip own v = own v"
  by (auto simp: names_dead_def taken_def split: option.splits)

section \<open>The ladder ends\<close>

text \<open>
  What the wait for the chassis needs of the clock: the time read is \<open>tick\<close>, no call takes it back, and three
  seconds of sleep pass.
\<close>

definition steady :: "('w \<Rightarrow> real) \<Rightarrow> 'w fence_env \<Rightarrow> bool" where
  "steady tick env \<longleftrightarrow>
     (\<forall>w. fst (fe_time env w) = tick w \<and> tick w \<le> tick (snd (fe_time env w)))
     \<and> (\<forall>argv p w. tick w \<le> tick (snd (fe_argv env argv p w)))
     \<and> (\<forall>w. tick w + 3 \<le> tick (snd (fe_sleep env 3 w)))"

text \<open>From a time on, so many sleeps of three seconds take one past a deadline. An infinite one is never passed.\<close>

fun allows :: "real \<Rightarrow> pyfloat \<Rightarrow> nat \<Rightarrow> bool" where
  "allows t (Real_Float d) n \<longleftrightarrow> d - t \<le> 3 * real n"
| "allows t Pos_Inf n \<longleftrightarrow> False"
| "allows t Neg_Inf n \<longleftrightarrow> True"
| "allows t Not_A_Number n \<longleftrightarrow> True"

lemma allows_0: "allows t d 0 \<Longrightarrow> \<not> less_float t d"
  by (cases d) simp_all

lemma allows_Suc: "allows t d (Suc n) \<Longrightarrow> t + 3 \<le> t' \<Longrightarrow> allows t' d n"
  by (cases d) simp_all

lemma allows_plus: "allows 0 d n \<Longrightarrow> t \<le> t' \<Longrightarrow> allows t' (plus_float t d) n"
  by (cases d) simp_all

lemma bmc_poll_returns:
  assumes "steady tick env" and "allows (tick (hidden s)) deadline n"
  shows "fst (run_state (bmc_poll (Suc n) env password base deadline latest) s) \<noteq> None"
  using assms(2)
proof (induction n arbitrary: s latest)
  case 0
  obtain now w1 where t: "fe_time env (hidden s) = (now, w1)" by fastforce
  then have "now = tick (hidden s)" using assms(1) unfolding steady_def by (metis fst_conv)
  with 0 show ?case by (simp add: run_rules t allows_0)
next
  case (Suc n)
  obtain now w1 where t: "fe_time env (hidden s) = (now, w1)" by fastforce
  obtain rc out err w2 where a: "fe_argv env (base @ power_status) password w1 = ((rc, out, err), w2)" by (metis surj_pair)
  obtain w3 where z: "fe_sleep env 3 w2 = ((), w3)" by (metis (full_types) old.unit.exhaust surj_pair)
  have now: "now = tick (hidden s)" and "tick (hidden s) \<le> tick w1" "tick w1 \<le> tick w2" "tick w2 + 3 \<le> tick w3"
    using assms(1) t a z unfolding steady_def by (metis fst_conv snd_conv)+
  then have later: "allows (tick w3) deadline n" using allows_Suc [OF Suc.prems, of "tick w3"] by simp
  have again: "fst (run_state (bmc_poll (Suc n) env password base deadline answer) (s\<lparr>trace := es, hidden := w3\<rparr>)) \<noteq> None"
    for answer es
    using later by (intro Suc.IH) simp
  show ?case
    unfolding bmc_poll.simps(2) [of "Suc n"]
    using again by (auto simp: run_rules bmc_call_def Let_def t a z simp del: bmc_poll.simps)
qed

text \<open>
  The timeout of the BMC entry for the host, if there is an entry and it reads as a float, allows for so many looks.
\<close>

definition patience :: "string \<Rightarrow> string \<Rightarrow> config_dict \<Rightarrow> nat \<Rightarrow> bool" where
  "patience hostname ip cf n \<longleftrightarrow>
     (case bmc_entry_for hostname ip cf of
        Inr (Some entry) \<Rightarrow> (case power_off_timeout entry of Inl _ \<Rightarrow> True | Inr seconds \<Rightarrow> allows 0 seconds n)
      | _ \<Rightarrow> True)"

lemma bmc_power_off_returns:
  assumes steady: "steady tick env" and "\<And>seconds. power_off_timeout entry = Inr seconds \<Longrightarrow> allows 0 seconds n"
  shows "fst (run_state (bmc_power_off (Suc n) env tool entry p) s) \<noteq> None"
proof -
  define argv where "argv = bmc_base tool entry @ [''chassis'', ''power'', ''off'']"
  obtain rc out err w1 where a: "fe_argv env argv p (hidden s) = ((rc, out, err), w1)"
    by (metis surj_pair)
  obtain now w2 where t: "fe_time env w1 = (now, w2)" by fastforce
  have now: "now \<le> tick w2" using steady t unfolding steady_def by (metis fst_conv snd_conv)
  have poll: "fst (run_state (bmc_poll (Suc n) env p (bmc_base tool entry) (plus_float now seconds) [])
      (s\<lparr>trace := es, hidden := w2\<rparr>)) \<noteq> None" if "power_off_timeout entry = Inr seconds" for es seconds
    using allows_plus [OF assms(2) [OF that] now] by (intro bmc_poll_returns [OF steady]) simp
  show ?thesis
    unfolding bmc_power_off_def Let_def argv_def [symmetric]
    using poll [of _ "trace s @ [F_Argv argv (rc, or_str (Some out) err)]"]
    by (auto simp: run_rules bmc_call_def a t simp del: bmc_poll.simps split: prod.splits option.splits bool.splits sum.splits)
qed

lemma bmc_fence_host_returns:
  assumes "steady tick env" and "patience hostname ip cf n"
  shows "fst (run_state (bmc_fence_host (Suc n) env hostname ip cf) s) \<noteq> None"
proof (cases "bmc_entry_for hostname ip cf")
  case (Inr found)
  have off: "fst (run_state (bmc_power_off (Suc n) env tool entry p) s) \<noteq> None" if "found = Some entry" for tool p s entry
    using assms(2) Inr that by (intro bmc_power_off_returns [OF assms(1)]) (simp add: patience_def)
  show ?thesis
    using Inr off by (auto simp: bmc_fence_host_def run_rules Let_def split: option.splits secret.splits prod.splits)
qed (simp add: bmc_fence_host_def run_rules Let_def)

lemma climb_returns:
  assumes "\<And>s. fst (run_state call s) \<noteq> None" and "\<And>f s. fst (run_state (others f) s) \<noteq> None"
  shows "fst (run_state (climb rung call others led ip f) s) \<noteq> None"
proof -
  obtain r s1 where r: "run_state call s = (Some r, s1)"
    using assms(1) [of s] by (metis option.exhaust fst_conv surj_pair)
  show ?thesis
    using assms(2) by (simp add: climb_def run_rules r Let_def)
qed

text \<open>
  A BMC entry may give the timeout as the text \<open>inf\<close>, which \<open>float\<close> reads. Then the deadline is never reached: a
  chassis whose status is answered and never reads off keeps the wait going, however many looks are allowed.
\<close>

lemma an_infinite_wait_does_not_end:
  assumes "\<And>argv p w. \<exists>rc err w'. fe_argv env argv p w = ((rc, ''Chassis Power is on'', err), w')"
  shows "fst (run_state (bmc_poll n env password base Pos_Inf latest) s) = None"
proof (induction n arbitrary: s latest)
  case (Suc n)
  obtain now w1 where t: "fe_time env (hidden s) = (now, w1)" by fastforce
  obtain rc err w2 where a: "fe_argv env (base @ power_status) password w1 = ((rc, ''Chassis Power is on'', err), w2)"
    using assms by blast
  obtain w3 where z: "fe_sleep env 3 w2 = ((), w3)" by (metis (full_types) old.unit.exhaust surj_pair)
  have "\<not> contains (lower (strip (or_str (Some ''Chassis Power is on'') err))) ''is off''" by code_simp
  then show ?case using Suc by (auto simp: run_rules bmc_call_def Let_def t a z)
qed (simp add: run_rules)

lemma infinity_is_a_timeout:
  "power_off_timeout [(''power_off_timeout_seconds'', J_Str ''Infinity'')] = Inr Pos_Inf"
  by code_simp

text \<open>
  C34. Fencing comes to an end. With a clock that does not go back and a sleep that takes its three seconds,
  \<open>fence_host\<close> returns a verdict once the wait for the chassis may make one look more than a third of the seconds
  of its timeout, whatever spark-daemon, the database and the BMC answer. The timeout is not infinite: with one that
  is, a chassis that never reads off is waited for without end (\<open>an_infinite_wait_does_not_end\<close>).
\<close>

theorem fencing_ends:
  assumes "steady tick env" and "patience hostname ip cf n" and "config = Some cf \<or> config = None \<and> (\<forall>w. fst (fe_config env w) = cf)"
  shows "\<exists>f led'. fst (run_state (fence_host (Suc n) env config hostname ip db_status led) s) = Some (f, led')"
proof -
  have some: "fst (run_state (do { r \<leftarrow> m; ret (Some (Inr r)) }) s) \<noteq> None"
    for m :: "('a, fevent, bool \<times> string) eff" and s :: "('a, fevent) world"
    by (simp add: run_rules split: prod.splits)
  have ladder: "fst (run_state (fence_ladder (Suc n) env cf hostname ip led f) s) \<noteq> None" for f s
    unfolding fence_ladder_def
    by (intro climb_returns some bmc_fence_host_returns [OF assms(1,2)]) (simp add: run_rules)
  have read: "fst (run_state (case config of Some c \<Rightarrow> ret c | None \<Rightarrow> act (fe_config env) F_Config) s) = cf" for s
    using assms(3) by (cases "fe_config env (hidden s)") (auto simp: run_rules, metis fst_conv)
  have "fst (run_state (fence_host (Suc n) env config hostname ip db_status led) s) \<noteq> None"
    using ladder read [of s] by (auto simp: fence_host_def run_bind run_look run_ret Let_def split: prod.splits option.split)
  then show ?thesis by auto
qed

text \<open>A BMC that accepts the power-off and never reports it, with a timeout of six seconds written as a text.\<close>

definition bmc_config :: config_dict where
  "bmc_config = fst (read_config (Inr (J_Dict [(''bmc'', J_Dict [(''hosts'', J_Dict [(''n1'', J_Dict
     [(''address'', J_Str ''10.0.9.1''), (''username'', J_Str ''admin''), (''password'', J_Str ''x''),
      (''power_off_timeout_seconds'', J_Str ''6.0'')])])])])) True 384)"

text \<open>An environment that knows nothing but the time.\<close>

definition clock_env :: "real fence_env" where
  "clock_env = \<lparr>fe_sidon = False, fe_tool = Some ''ipmitool'', fe_me = (\<lambda>w. (''n3'', w)), fe_rows = (\<lambda>w. (None, w)),
     fe_claim = (\<lambda>_ w. (Swap_Failed [], w)), fe_spark = (\<lambda>_ w. ((0, None, ''timed out''), w)),
     fe_shell = (\<lambda>_ _ w. ((- 1, [], []), w)), fe_attached = (\<lambda>_ w. ((None, []), w)), fe_config = (\<lambda>w. (bmc_config, w)),
     fe_password_file = (\<lambda>_ w. (Unusable [], w)), fe_argv = (\<lambda>_ _ w. ((0, ''Chassis Power is on'', []), w)),
     fe_time = (\<lambda>w. (w, w)), fe_sleep = (\<lambda>t w. ((), w + t))\<rparr>"

theorem fencing_ends_witness:
  "\<exists>f led'. fst (run_state (fence_host 3 clock_env None ''n1'' ''10.0.0.1'' ''NORMAL'' Map.empty)
      \<lparr>hidden = 0, trace = [], memo = None\<rparr>) = Some (f, led')"
proof -
  have steady: "steady (\<lambda>w. w) clock_env" by (simp add: steady_def clock_env_def)
  have "bmc_entry_for ''n1'' ''10.0.0.1'' bmc_config = Inr (Some [(''interface'', J_Str ''lanplus''),
      (''power_off_timeout_seconds'', J_Str ''6.0''), (''address'', J_Str ''10.0.9.1''), (''username'', J_Str ''admin''),
      (''password'', J_Str ''x'')])"
    by code_simp
  moreover have "float_text ''6.0'' = Some (Real_Float 6)"
    by (simp add: float_text_def signed_def strip_def is_ws_def partition_on_def lower_char_def lower_def is_digit_def
        read_nat_def digit_val_def to_float_def float_overflow_def)
  ultimately have "patience ''n1'' ''10.0.0.1'' bmc_config 2"
    by (simp add: patience_def power_off_timeout_def truthy_jval_def)
  with steady show ?thesis
    using fencing_ends [of "\<lambda>w. w" clock_env "''n1''" "''10.0.0.1''" bmc_config 2 None "''NORMAL''" Map.empty]
    by (simp add: clock_env_def)
qed

end
