(* ===== verification/Mipha_Failover.thy ===== *)
theory Mipha_Failover
  imports Mipha_Fence Election
begin

text \<open>
  Host failover (\<open>src/mipha.py\<close>): what a host that came back must drop (\<open>stale_guest_plan\<close>, \<open>stale_vdisks\<close>,
  \<open>reconcile_returning_host\<close>), \<open>release_orphaned_vm\<close>, the maintenance lock, and the control loop of \<open>main\<close>: the health
  check of each host, the rejoin of one that is back and the failover of one that is gone. Queries answer
  with typed rows; writes are events. The lines printed and \<open>report_ring_detach_candidate\<close>, which only prints, are left out.
  The marks \<open>H_Db\<close>, \<open>H_Failover\<close> and \<open>H_Follower\<close> record a status read, a failover begun and a pass without the
  election. A call that is told to sleep is an effect on the hidden state.
\<close>

section \<open>What a returning host drops\<close>

record vm_place =
  vp_name :: string
  vp_host :: "string option"
  vp_state :: "string option"

record domain_state =
  dn_name :: string
  dn_state :: "string option"

record guest_plan =
  gp_destroy :: "string list"
  gp_undefine :: "string list"
  gp_left :: "string list"

definition stale_guest_plan :: "domain_state list \<Rightarrow> (string \<Rightarrow> vm_place option) \<Rightarrow> string \<Rightarrow> guest_plan" where
  "stale_guest_plan ds rows ip =
     foldl (\<lambda>plan d.
         let name = dn_name d; state = lower (strip (or_str (dn_state d) [])) in
         case rows name of
           None \<Rightarrow> plan\<lparr>gp_left := gp_left plan @ [name]\<rparr>
         | Some row \<Rightarrow>
             if or_str (vp_host row) [] = ip then plan\<lparr>gp_left := gp_left plan @ [name]\<rparr>
             else plan\<lparr>gp_destroy := gp_destroy plan @ (if state = ''shut off'' then [] else [name]),
                       gp_undefine := gp_undefine plan @ [name]\<rparr>)
       \<lparr>gp_destroy = [], gp_undefine = [], gp_left = []\<rparr> ds"

text \<open>\<open>_VDISK_OF_VM\<close>: the VM of a name \<open>vm-diskN\<close>, the longest one the greedy match takes.\<close>

definition vm_of_disk :: "string \<Rightarrow> string option" where
  "vm_of_disk s =
     (let digits = takeWhile is_digit (rev s); rest = rev (dropWhile is_digit (rev s))
      in if digits \<noteq> [] \<and> ends_with rest ''-disk'' \<and> length rest > 5 \<and> \<not> list_ex (\<lambda>c. c = CHR 0x0A) (take (length rest - 5) rest)
         then Some (take (length rest - 5) rest) else None)"

definition stale_vdisks :: "string option list \<Rightarrow> (string \<Rightarrow> vm_place option) \<Rightarrow> string \<Rightarrow> string list" where
  "stale_vdisks attached rows ip =
     filter (\<lambda>i. case Option.bind (vm_of_disk i) rows of None \<Rightarrow> False | Some row \<Rightarrow> or_str (vp_host row) [] \<noteq> ip)
       (map (\<lambda>v. or_str v []) attached)"

text \<open>\<open>read_vm_rows\<close>: the rows with a name, by name; a later row replaces an earlier one.\<close>

definition vm_table :: "vm_place list \<Rightarrow> (string \<times> vm_place) list" where
  "vm_table rows = foldl (\<lambda>d r. if vp_name r = [] then d else dict_set (vp_name r) r d) [] rows"

definition guests_left_on :: "string \<Rightarrow> vm_place list option \<Rightarrow> bool" where
  "guests_left_on ip rows =
     (case rows of
        None \<Rightarrow> True
      | Some rs \<Rightarrow> list_ex (\<lambda>(_, r). vp_host r = Some ip \<and> lower (or_str (vp_state r) []) = ''running'') (vm_table rs))"

section \<open>The environment\<close>

record lock_row =
  lk_holder :: string
  lk_token :: "string option"
  lk_reason :: "string option"

datatype request = Destroy string | Undefine string | Detach string

record health =
  hl_ip :: "string option"
  hl_maintenance :: "string option"

record host =
  ho_ip :: "string option"
  ho_name :: string

record 'w ha_env =
  ha_me :: string
  ha_zk :: "'w zk_env"
  ha_candidate :: config
  ha_self_fenced :: "'w \<Rightarrow> bool \<times> 'w"
  ha_fencing :: "'w fence_env"
  ha_config :: "'w \<Rightarrow> config_dict \<times> 'w"
  ha_hosts :: "'w \<Rightarrow> host list \<times> 'w"
  ha_status :: "string \<Rightarrow> 'w \<Rightarrow> string option \<times> 'w"
  ha_set_status :: "string \<Rightarrow> string \<Rightarrow> string \<Rightarrow> 'w \<Rightarrow> (bool \<times> bool) \<times> 'w"
  ha_lock :: "'w \<Rightarrow> lock_row option \<times> 'w"
  ha_renew :: "lock_row \<Rightarrow> 'w \<Rightarrow> (bool \<times> bool) \<times> 'w"
  ha_health :: "string \<Rightarrow> 'w \<Rightarrow> health option \<times> 'w"
  ha_domains :: "string \<Rightarrow> 'w \<Rightarrow> domain_state list option \<times> 'w"
  ha_request :: "string \<Rightarrow> request \<Rightarrow> 'w \<Rightarrow> bool \<times> 'w"
  ha_attached :: "string \<Rightarrow> 'w \<Rightarrow> string option list option \<times> 'w"
  ha_vms :: "'w \<Rightarrow> vm_place list option \<times> 'w"
  ha_release :: "string \<Rightarrow> string \<Rightarrow> 'w \<Rightarrow> (bool \<times> bool) \<times> 'w"
  ha_submit :: "string \<Rightarrow> string \<Rightarrow> 'w \<Rightarrow> string option \<times> 'w"
  ha_task_state :: "string \<Rightarrow> 'w \<Rightarrow> string option \<times> 'w"
  ha_write :: "string \<Rightarrow> 'w \<Rightarrow> unit \<times> 'w"
  ha_zk_leader :: "'w \<Rightarrow> string option \<times> 'w"
  ha_vali :: "string \<Rightarrow> 'w \<Rightarrow> bool \<times> 'w"
  ha_units :: "string option \<Rightarrow> string \<Rightarrow> string list \<Rightarrow> 'w \<Rightarrow> unit \<times> 'w"
  ha_uuid :: "'w \<Rightarrow> string \<times> 'w"
  ha_pause :: "real \<Rightarrow> 'w \<Rightarrow> unit \<times> 'w"

datatype hevent =
    H_Fence fevent
  | H_Vms "vm_place list option"
  | H_Domains "domain_state list option"
  | H_Attached "string option list option"
  | H_Request string request
  | H_Set_Status string string string "bool \<times> bool"
  | H_Status string string
  | H_Renew lock_row
  | H_Task string string nat
  | H_Release string string "bool \<times> bool"
  | H_Start string "string option"
  | H_Units "string option" string "string list"
  | H_Health string bool
  | H_Db string string
  | H_Config config_dict
  | H_Failover string
  | H_Follower
  | H_Zk zevent

section \<open>A host that came back\<close>

definition ask :: "'w ha_env \<Rightarrow> string \<Rightarrow> request \<Rightarrow> ('w, hevent, bool) eff" where
  "ask env ip r = act (ha_request env ip r) (\<lambda>_. H_Request ip r)"

text \<open>The list it returns says what was done and, by \<^const>\<open>False\<close>, what failed.\<close>

definition ask_all :: "'w ha_env \<Rightarrow> string \<Rightarrow> (string \<Rightarrow> request) \<Rightarrow> string list \<Rightarrow> (request \<times> bool) list \<Rightarrow>
    ('w, hevent, (request \<times> bool) list) eff" where
  "ask_all env ip f = for_each (\<lambda>n acc. do { ok \<leftarrow> ask env ip (f n); ret (acc @ [(f n, ok)]) })"

definition drop_stale :: "'w ha_env \<Rightarrow> string \<Rightarrow> (string \<Rightarrow> vm_place option) \<Rightarrow> guest_plan \<Rightarrow> ('w, hevent, (request \<times> bool) list) eff" where
  "drop_stale env ip rows plan = do {
     done1 \<leftarrow> ask_all env ip Destroy (gp_destroy plan) [];
     done2 \<leftarrow> ask_all env ip Undefine (gp_undefine plan) done1;
     listed \<leftarrow> act (ha_attached env ip) H_Attached;
     case listed of
       None \<Rightarrow> ret done2
     | Some vs \<Rightarrow> ask_all env ip Detach (stale_vdisks vs rows ip) done2 }"

definition reconcile_returning_host :: "'w ha_env \<Rightarrow> string \<Rightarrow> ('w, hevent, (request \<times> bool) list option) eff" where
  "reconcile_returning_host env ip = do {
     ds \<leftarrow> act (ha_domains env ip) H_Domains;
     case ds of
       None \<Rightarrow> ret None
     | Some doms \<Rightarrow> do {
         rs \<leftarrow> act (ha_vms env) H_Vms;
         case rs of
           None \<Rightarrow> ret None
         | Some vms \<Rightarrow> do {
             let rows = map_of (vm_table vms);
             r \<leftarrow> drop_stale env ip rows (stale_guest_plan doms rows ip);
             ret (Some r) } } }"

section \<open>Writes\<close>

definition set_task :: "'w ha_env \<Rightarrow> string \<Rightarrow> string \<Rightarrow> nat \<Rightarrow> ('w, hevent, unit) eff" where
  "set_task env tid st progress = act (ha_write env tid) (\<lambda>_. H_Task tid st progress)"

definition rejoin_units :: "string list" where
  "rejoin_units = [''zookeeper'', ''hydra-db'', ''daruk'', ''sidon'', ''spectrum'', ''spectrum-phx'', ''bifrost'', ''dagur'',
     ''mimir'', ''rauru'', ''vali'', ''catalyst'', ''gatoway'', ''logos'', ''mipha'', ''agahnim'', ''slate'', ''hylia'']"

text \<open>The unconditional updates of \<open>hydra.nodes\<close> in the rejoin are \<open>H_Status\<close>, the conditional ones \<open>H_Set_Status\<close>.\<close>

definition rejoin_host :: "'w ha_env \<Rightarrow> string \<Rightarrow> string \<Rightarrow> ('w, hevent, unit) eff" where
  "rejoin_host env hostname ip = do {
     _ \<leftarrow> act (ha_write env hostname) (\<lambda>_. H_Status hostname ''RECOVERING'');
     _ \<leftarrow> reconcile_returning_host env ip;
     tid \<leftarrow> look (ha_uuid env);
     set_task env tid ''processing'' 10;
     _ \<leftarrow> act (ha_units env (Some ip) ''start'' rejoin_units) (\<lambda>_. H_Units (Some ip) ''start'' rejoin_units);
     _ \<leftarrow> look (ha_pause env 10);
     set_task env tid ''processing'' 20;
     set_task env tid ''completed'' 100;
     act (ha_write env hostname) (\<lambda>_. H_Status hostname ''NORMAL'') }"

definition release_orphaned_vm :: "'w ha_env \<Rightarrow> string \<Rightarrow> string \<Rightarrow> ('w, hevent, bool) eff" where
  "release_orphaned_vm env name ip = do {
     (ok, applied) \<leftarrow> act (ha_release env name ip) (H_Release name ip);
     ret (ok \<and> applied) }"

definition set_status :: "'w ha_env \<Rightarrow> string \<Rightarrow> string \<Rightarrow> string \<Rightarrow> ('w, hevent, bool \<times> bool) eff" where
  "set_status env hostname target expected =
     act (ha_set_status env hostname target expected) (H_Set_Status hostname target expected)"

section \<open>The failover of one host\<close>

text \<open>A poll that gives up after so many looks; the progress of the task runs from \<open>base\<close> over 15 per cent.\<close>

fun poll_until :: "'w ha_env \<Rightarrow> string \<Rightarrow> nat \<Rightarrow> nat \<Rightarrow> ('w, hevent, 'a option) eff \<Rightarrow> nat \<Rightarrow> ('w, hevent, 'a option) eff" where
  "poll_until env tid base rounds probe 0 = ret None"
| "poll_until env tid base rounds probe (Suc left) = do {
     set_task env tid ''processing'' (base + (rounds - Suc left) * 15 div rounds);
     r \<leftarrow> probe;
     case r of
       Some x \<Rightarrow> ret (Some x)
     | None \<Rightarrow> do { _ \<leftarrow> look (ha_pause env 2); poll_until env tid base rounds probe left } }"

definition vali_probe :: "'w ha_env \<Rightarrow> string \<Rightarrow> ('w, hevent, unit option) eff" where
  "vali_probe env ip = do { ok \<leftarrow> look (ha_vali env ip); ret (if ok then Some () else None) }"

definition settle_services :: "'w ha_env \<Rightarrow> string \<Rightarrow> host list \<Rightarrow> string \<Rightarrow> ('w, hevent, string) eff" where
  "settle_services env tid hosts ip = do {
     found \<leftarrow> poll_until env tid 10 15 (look (ha_zk_leader env)) 15;
     let leader = (case found of Some l \<Rightarrow> l | None \<Rightarrow> ha_me env);
     vali \<leftarrow> poll_until env tid 30 10 (vali_probe env leader) 10;
     (case vali of
        Some _ \<Rightarrow> ret ()
      | None \<Rightarrow> do {
          for_each (\<lambda>h _. if ho_ip h = Some ip then ret ()
             else act (ha_units env (ho_ip h) ''restart'' [''vali'']) (\<lambda>_. H_Units (ho_ip h) ''restart'' [''vali''])) hosts ();
          _ \<leftarrow> poll_until env tid 50 15 (vali_probe env leader) 15;
          ret () });
     ret leader }"

definition orphaned_vms :: "string \<Rightarrow> vm_place list option \<Rightarrow> vm_place list" where
  "orphaned_vms ip rows =
     (case rows of None \<Rightarrow> [] | Some rs \<Rightarrow> filter (\<lambda>r. vp_host r = Some ip \<and> vp_state r = Some ''Running'') rs)"

definition recover_vm :: "'w ha_env \<Rightarrow> string \<Rightarrow> string \<Rightarrow> vm_place \<Rightarrow> (string \<times> string) list \<Rightarrow>
    ('w, hevent, (string \<times> string) list) eff" where
  "recover_vm env ip tid vm submitted = do {
     mine \<leftarrow> release_orphaned_vm env (vp_name vm) ip;
     if \<not> mine then ret submitted
     else do {
       sub \<leftarrow> act (ha_submit env (vp_name vm) tid) (H_Start (vp_name vm));
       ret (if truthy_str sub then submitted @ [(vp_name vm, the sub)] else submitted) } }"

definition check_tasks :: "'w ha_env \<Rightarrow> (string \<times> string) list \<Rightarrow> string list \<Rightarrow> ('w, hevent, string list) eff" where
  "check_tasks env submitted finished =
     for_each (\<lambda>sub fin. if snd sub \<in> set fin then ret fin
         else do {
           st \<leftarrow> look (ha_task_state env (snd sub));
           ret (if st = Some ''completed'' \<or> st = Some ''failed'' then snd sub # fin else fin) }) submitted finished"

fun await_tasks :: "'w ha_env \<Rightarrow> string \<Rightarrow> (string \<times> string) list \<Rightarrow> nat \<Rightarrow> string list \<Rightarrow> ('w, hevent, unit) eff" where
  "await_tasks env tid submitted 0 finished = ret ()"
| "await_tasks env tid submitted (Suc left) finished = do {
     fin \<leftarrow> check_tasks env submitted finished;
     set_task env tid ''processing'' (70 + length fin * 25 div length submitted);
     if length fin = length submitted then ret ()
     else do { _ \<leftarrow> look (ha_pause env 2); await_tasks env tid submitted left fin } }"

definition recover_guests :: "'w ha_env \<Rightarrow> string \<Rightarrow> string \<Rightarrow> ('w, hevent, unit) eff" where
  "recover_guests env ip tid = do {
     set_task env tid ''processing'' 70;
     rows \<leftarrow> act (ha_vms env) H_Vms;
     let orphans = orphaned_vms ip rows;
     if orphans = [] then set_task env tid ''completed'' 100
     else do {
       submitted \<leftarrow> for_each (recover_vm env ip tid) orphans [];
       (if submitted = [] then ret () else await_tasks env tid submitted 30 []);
       set_task env tid ''completed'' 100 } }"

definition refuse_failover :: "'w ha_env \<Rightarrow> string \<Rightarrow> string \<Rightarrow> string \<Rightarrow> ('w, hevent, unit) eff" where
  "refuse_failover env tid hostname db_status = do {
     _ \<leftarrow> set_status env hostname ''DOWN'' db_status;
     set_task env tid ''failed'' 100 }"

text \<open>A host that fenced itself stays FENCED.\<close>

definition carry_out :: "'w ha_env \<Rightarrow> string \<Rightarrow> host list \<Rightarrow> string \<Rightarrow> string \<Rightarrow> string \<Rightarrow> ('w, hevent, unit) eff" where
  "carry_out env tid hosts hostname ip db_status = do {
     _ \<leftarrow> (if db_status = node_status_fenced then ret (False, False) else set_status env hostname ''DOWN'' db_status);
     _ \<leftarrow> settle_services env tid hosts ip;
     recover_guests env ip tid }"

text \<open>
  From the parent task to its end; the ledger is \<open>FENCE_LEDGER\<close>. \<^const>\<open>None\<close> is a fence still waiting when its
  fuel ends.
\<close>

definition failover_host :: "nat \<Rightarrow> 'w ha_env \<Rightarrow> host list \<Rightarrow> string \<Rightarrow> string \<Rightarrow> string \<Rightarrow> ledger \<Rightarrow>
    ('w, hevent, ledger option) eff" where
  "failover_host fuel env hosts hostname ip db_status led = do {
     tid \<leftarrow> look (ha_uuid env);
     set_task env tid ''processing'' 0;
     fenced \<leftarrow> inside H_Fence (fence_host fuel (ha_fencing env) None hostname ip db_status led);
     case fenced of
       None \<Rightarrow> ret None
     | Some (f, led') \<Rightarrow> do {
         cf \<leftarrow> act (ha_config env) H_Config;
         (if fst (failover_permitted f cf) then carry_out env tid hosts hostname ip db_status
          else refuse_failover env tid hostname db_status);
         ret (Some led') } }"

section \<open>The control loop\<close>

record ha_state =
  hs_candidacy :: candidacy
  hs_failures :: "string \<Rightarrow> nat"
  hs_handled :: "string set"
  hs_withdrawn :: bool
  hs_ledger :: ledger

definition new_ha :: ha_state where
  "new_ha = \<lparr>hs_candidacy = new_candidacy, hs_failures = (\<lambda>_. 0), hs_handled = {}, hs_withdrawn = False,
     hs_ledger = Map.empty\<rparr>"

definition maintenance_lock_states :: "string list" where
  "maintenance_lock_states = [''ENTERING_MAINTENANCE'', ''IN_MAINTENANCE'', ''RECOVERING'']"

definition renew_maintenance_lock_for :: "'w ha_env \<Rightarrow> string \<Rightarrow> ('w, hevent, bool) eff" where
  "renew_maintenance_lock_for env hostname = do {
     found \<leftarrow> look (ha_lock env);
     case found of
       None \<Rightarrow> ret False
     | Some l \<Rightarrow>
         if lk_holder l \<noteq> hostname \<or> \<not> truthy_str (lk_token l) then ret False
         else do { (ok, applied) \<leftarrow> act (ha_renew env l) (\<lambda>_. H_Renew l); ret applied } }"

definition in_maintenance :: "string \<Rightarrow> bool" where
  "in_maintenance st \<longleftrightarrow> st = ''IN_MAINTENANCE'' \<or> st = ''ENTERING_MAINTENANCE''"

definition healthy :: "string \<Rightarrow> health option \<Rightarrow> bool" where
  "healthy ip h = (case h of None \<Rightarrow> False | Some x \<Rightarrow> hl_ip x = Some ip)"

definition maintained :: "string \<Rightarrow> health option \<Rightarrow> bool" where
  "maintained ip h = (healthy ip h \<and> (case h of None \<Rightarrow> False | Some x \<Rightarrow> hl_maintenance x = Some ''IN_MAINTENANCE''))"

text \<open>The two triggers, once the health of the host is known.\<close>

definition maybe_failover :: "nat \<Rightarrow> 'w ha_env \<Rightarrow> host list \<Rightarrow> string \<Rightarrow> string \<Rightarrow> string \<Rightarrow> ha_state \<Rightarrow>
    ('w, hevent, ha_state option) eff" where
  "maybe_failover fuel env hosts hostname ip db_status st = do {
     let self_fenced = (db_status = node_status_fenced);
     let st1 = (if self_fenced then st else st\<lparr>hs_handled := hs_handled st - {ip}\<rparr>);
     already \<leftarrow> (if db_status = ''DOWN'' then do { rows \<leftarrow> act (ha_vms env) H_Vms; ret (\<not> guests_left_on ip rows) }
                 else ret False);
     if hs_failures st1 ip \<ge> 3 \<and> \<not> already \<or> self_fenced \<and> ip \<notin> hs_handled st1 then do {
       mark (H_Failover ip);
       led \<leftarrow> failover_host fuel env hosts hostname ip db_status (hs_ledger st1);
       ret (map_option (\<lambda>l. st1\<lparr>hs_handled := (if self_fenced then insert ip (hs_handled st1) else hs_handled st1),
              hs_failures := (hs_failures st1)(ip := 0), hs_ledger := l\<rparr>) led) }
     else ret (Some st1) }"

definition watch_host :: "nat \<Rightarrow> 'w ha_env \<Rightarrow> host list \<Rightarrow> host \<Rightarrow> ha_state \<Rightarrow> ('w, hevent, ha_state option) eff" where
  "watch_host fuel env hosts h st =
     (case ho_ip h of
        None \<Rightarrow> ret (Some st)
      | Some ip \<Rightarrow>
        if ip = [] then ret (Some st)
        else do {
          found \<leftarrow> look (ha_status env (ho_name h));
          let db_status = (case found of None \<Rightarrow> ''NORMAL'' | Some x \<Rightarrow> x);
          mark (H_Db ip db_status);
          (if db_status \<in> set maintenance_lock_states then do { _ \<leftarrow> renew_maintenance_lock_for env (ho_name h); ret () } else ret ());
          if in_maintenance db_status then ret (Some (st\<lparr>hs_failures := (hs_failures st)(ip := 0)\<rparr>))
          else do {
            hl \<leftarrow> act (ha_health env ip) (\<lambda>x. H_Health ip (healthy ip x));
            if maintained ip hl then ret (Some (st\<lparr>hs_failures := (hs_failures st)(ip := 0)\<rparr>))
            else if \<not> healthy ip hl then
              maybe_failover fuel env hosts (ho_name h) ip db_status
                (st\<lparr>hs_failures := (hs_failures st)(ip := hs_failures st ip + 1)\<rparr>)
            else do {
              (if db_status = ''DOWN'' then rejoin_host env (ho_name h) ip else ret ());
              maybe_failover fuel env hosts (ho_name h) ip db_status
                (st\<lparr>hs_failures := (hs_failures st)(ip := 0),
                    hs_ledger := (if db_status = node_status_fenced then hs_ledger st
                                  else snd (clear_fence_record ip (hs_ledger st)))\<rparr>) } } })"

fun watch_hosts :: "nat \<Rightarrow> 'w ha_env \<Rightarrow> host list \<Rightarrow> host list \<Rightarrow> ha_state \<Rightarrow> ('w, hevent, ha_state option) eff" where
  "watch_hosts fuel env hosts [] st = ret (Some st)"
| "watch_hosts fuel env hosts (h # hs) st = do {
     r \<leftarrow> watch_host fuel env hosts h st;
     case r of None \<Rightarrow> ret None | Some st1 \<Rightarrow> watch_hosts fuel env hosts hs st1 }"

definition ha_pass :: "nat \<Rightarrow> 'w ha_env \<Rightarrow> ha_state \<Rightarrow> ('w, hevent, ha_state option) eff" where
  "ha_pass fuel env st = do {
     fenced \<leftarrow> look (ha_self_fenced env);
     if fenced then do {
       cy \<leftarrow> (if hs_withdrawn st then ret (hs_candidacy st)
              else inside H_Zk (withdraw (ha_candidate env) (ha_zk env) (hs_candidacy st)));
       mark H_Follower;
       ret (Some (st\<lparr>hs_candidacy := cy, hs_withdrawn := True, hs_failures := (\<lambda>_. 0)\<rparr>)) }
     else do {
       (leads, cy) \<leftarrow> inside H_Zk (leading (ha_candidate env) (ha_zk env) (hs_candidacy st));
       let st1 = st\<lparr>hs_candidacy := cy, hs_withdrawn := False\<rparr>;
       if \<not> leads then do { mark H_Follower; ret (Some (st1\<lparr>hs_failures := (\<lambda>_. 0)\<rparr>)) }
       else do {
         hosts \<leftarrow> look (ha_hosts env);
         watch_hosts fuel env hosts (filter (\<lambda>h. ho_ip h \<noteq> Some (ha_me env)) hosts) st1 } } }"

fun ha_passes :: "nat \<Rightarrow> 'w ha_env \<Rightarrow> nat \<Rightarrow> ha_state \<Rightarrow> ('w, hevent, ha_state option) eff" where
  "ha_passes fuel env 0 st = ret (Some st)"
| "ha_passes fuel env (Suc n) st = do {
     r \<leftarrow> ha_pass fuel env st;
     case r of None \<Rightarrow> ret None | Some st1 \<Rightarrow> do { _ \<leftarrow> look (ha_pause env 10); ha_passes fuel env n st1 } }"

section \<open>Restarting a guest elsewhere\<close>

text \<open>Every start follows at once the release of the same guest from the dead host, and the release was applied.\<close>

definition just_released :: "string \<Rightarrow> hevent \<Rightarrow> string option" where
  "just_released ip e = (case e of H_Release n h (ok, applied) \<Rightarrow> if h = ip \<and> ok \<and> applied then Some n else None | _ \<Rightarrow> None)"

definition may_start :: "string option \<Rightarrow> hevent \<Rightarrow> bool" where
  "may_start prev e = (case e of H_Start n _ \<Rightarrow> prev = Some n | _ \<Rightarrow> True)"

fun starts_ok :: "string \<Rightarrow> string option \<Rightarrow> hevent list \<Rightarrow> bool" where
  "starts_ok ip prev [] = True"
| "starts_ok ip prev (e # es) = (may_start prev e \<and> starts_ok ip (just_released ip e) es)"

definition starts_released :: "string \<Rightarrow> hevent list \<Rightarrow> bool" where
  "starts_released ip es \<longleftrightarrow> (\<forall>prev. starts_ok ip prev es)"

definition touches_guest :: "hevent \<Rightarrow> bool" where
  "touches_guest e = (case e of H_Release _ _ _ \<Rightarrow> True | H_Start _ _ \<Rightarrow> True | _ \<Rightarrow> False)"

definition is_start :: "hevent \<Rightarrow> bool" where
  "is_start e = (case e of H_Start _ _ \<Rightarrow> True | _ \<Rightarrow> False)"

definition fences :: "hevent list \<Rightarrow> fevent list" where
  "fences es = concat (map (\<lambda>e. case e of H_Fence x \<Rightarrow> [x] | _ \<Rightarrow> []) es)"

definition at_risk :: "hevent \<Rightarrow> bool" where
  "at_risk e = (case e of H_Config cf \<Rightarrow> waives_fence cf | _ \<Rightarrow> False)"

lemma starts_ok_append: "starts_released ip ys \<Longrightarrow> starts_ok ip p xs \<Longrightarrow> starts_ok ip p (xs @ ys)"
  by (induction xs arbitrary: p) (auto simp: starts_released_def)

lemma starts_quiet: "list_all (\<lambda>e. \<not> is_start e) es \<Longrightarrow> starts_released ip es"
proof -
  have "list_all (\<lambda>e. \<not> is_start e) es \<Longrightarrow> starts_ok ip p es" for p
    by (induction es arbitrary: p) (auto simp: is_start_def may_start_def split: hevent.splits)
  then show "list_all (\<lambda>e. \<not> is_start e) es \<Longrightarrow> starts_released ip es" by (simp add: starts_released_def)
qed

interpretation starting: trace_property "starts_released ip" for ip
  by unfold_locales (auto simp: starts_released_def intro: starts_ok_append [unfolded starts_released_def])

lemma emits_set_task: "(\<And>st p. P (H_Task tid st p)) \<Longrightarrow> emits P (set_task env tid st' p')"
  unfolding set_task_def by (rule emits_act) simp

lemma emits_poll_until:
  assumes "\<And>st p. P (H_Task tid st p)" and "emits P probe"
  shows "emits P (poll_until env tid base rounds probe left)"
proof (induction left)
  case (Suc left)
  show ?case
    unfolding poll_until.simps by (intro emits_intros emits_set_task Suc.IH assms)
qed (auto intro: emits_intros)

lemma emits_settle:
  assumes "\<And>st p. P (H_Task tid st p)" and "\<And>i a us. P (H_Units i a us)"
  shows "emits P (settle_services env tid hosts ip)"
  unfolding settle_services_def vali_probe_def Let_def
  by (intro emits_intros emits_poll_until assms)

lemma emits_await:
  assumes "\<And>st p. P (H_Task tid st p)"
  shows "emits P (await_tasks env tid submitted left finished)"
proof (induction left arbitrary: finished)
  case (Suc left)
  have "emits P (check_tasks env submitted fin)" for fin
    unfolding check_tasks_def by (intro emits_intros)
  then show ?case
    unfolding await_tasks.simps by (intro emits_intros emits_set_task Suc.IH assms)
qed (auto intro: emits_intros)

lemma recover_guests_starts: "yields (recover_guests env ip tid) (\<lambda>_. starts_released ip)"
proof -
  have quiet: "yields m (\<lambda>_. starts_released ip)" if "emits (\<lambda>e. \<not> is_start e) m" for m :: "('a, hevent, 'b) eff"
    by (rule yields_mono [OF that]) (rule starts_quiet)
  have task: "yields (set_task env tid st p) (\<lambda>_. starts_released ip)" for st p
    by (rule quiet, rule emits_set_task) (simp add: is_start_def)
  have read: "yields (act (ha_vms env) H_Vms) (\<lambda>_. starts_released ip)"
    by (rule quiet, rule emits_act) (simp add: is_start_def)
  have wait: "yields (await_tasks env tid sub n fin) (\<lambda>_. starts_released ip)" for sub n fin
    by (rule quiet, rule emits_await) (simp add: is_start_def)
  have one: "yields (recover_vm env ip tid vm sub) (\<lambda>_. starts_released ip)" for vm sub
    unfolding recover_vm_def release_orphaned_vm_def
    by (intro yields_intros) (auto simp: starts_released_def may_start_def just_released_def split: prod.splits)
  show ?thesis
    unfolding recover_guests_def Let_def by (intro starting.rules task read wait one)
qed

text \<open>
  What entitles a failover to move a guest: a fence the ledger or the host itself recorded, one proven in
  this call, or a configuration that takes the risk.
\<close>

definition vouched :: "string \<Rightarrow> string \<Rightarrow> string \<Rightarrow> ledger \<Rightarrow> fevent list \<Rightarrow> bool" where
  "vouched hostname ip db_status led fs \<longleftrightarrow> led ip \<noteq> None \<or> db_status = node_status_fenced \<or> proven hostname ip fs"

definition entitled :: "string \<Rightarrow> string \<Rightarrow> string \<Rightarrow> ledger \<Rightarrow> hevent list \<Rightarrow> bool" where
  "entitled hostname ip db_status led es \<longleftrightarrow> vouched hostname ip db_status led (fences es) \<or> list_ex at_risk es"

definition safe_failover :: "string \<Rightarrow> string \<Rightarrow> string \<Rightarrow> ledger \<Rightarrow> hevent list \<Rightarrow> bool" where
  "safe_failover hostname ip db_status led es \<longleftrightarrow>
     starts_released ip es \<and> (list_ex touches_guest es \<longrightarrow> entitled hostname ip db_status led es)"

lemma fences_config [simp]: "fences (H_Config c # es) = fences es"
  by (simp add: fences_def)

lemma fences_simps [simp]: "fences [] = []" "fences (xs @ ys) = fences xs @ fences ys" "fences (map H_Fence fs) = fs"
  by (simp_all add: fences_def, induction fs) simp_all

lemma fenced_inside:
  "yields (inside H_Fence (fence_host fuel fe cf hostname ip db_status led)) (\<lambda>r es. \<exists>fs. es = map H_Fence fs
     \<and> (\<forall>f l. r = Some (f, l) \<longrightarrow> fn_confirmed f \<longrightarrow> vouched hostname ip db_status led fs))"
  by (rule yields_inside, rule yields_mono [OF fence_host_proof]) (auto simp: truly_fenced_def vouched_def split: if_splits)

lemma fence_starts: "starts_released ip (map H_Fence fs)"
  by (rule starts_quiet) (simp add: list_all_iff is_start_def)

lemma failover_host_safe:
  "yields (failover_host fuel env hosts hostname ip db_status led) (\<lambda>_ es. safe_failover hostname ip db_status led es)"
proof -
  have quiet: "yields m (\<lambda>_ es. starts_released ip es \<and> \<not> list_ex touches_guest es)"
    if "emits (\<lambda>e. \<not> is_start e \<and> \<not> touches_guest e) m" for m :: "('a, hevent, 'b) eff"
    by (rule yields_mono [OF that]) (auto simp: list_all_iff list_ex_iff intro!: starts_quiet)
  have mark1: "emits (\<lambda>e. \<not> is_start e \<and> \<not> touches_guest e) (set_task env tid st p)"
    "emits (\<lambda>e. \<not> is_start e \<and> \<not> touches_guest e) (set_status env hostname t x)" for tid st p t x
    unfolding set_status_def by (intro emits_set_task emits_act; simp add: is_start_def touches_guest_def)+
  have settle: "emits (\<lambda>e. \<not> is_start e \<and> \<not> touches_guest e) (settle_services env tid hosts ip)" for tid
    by (rule emits_settle) (simp_all add: is_start_def touches_guest_def)
  have refuse: "yields (refuse_failover env tid hostname db_status) (\<lambda>_ es. starts_released ip es \<and> \<not> list_ex touches_guest es)" for tid
    unfolding refuse_failover_def by (intro quiet emits_intros mark1)
  have free: "yields m (\<lambda>_. starts_released ip)" if "emits (\<lambda>e. \<not> is_start e \<and> \<not> touches_guest e) m" for m :: "('a, hevent, 'b) eff"
    by (rule yields_mono [OF quiet [OF that]]) simp
  have carry: "yields (carry_out env tid hosts hostname ip db_status) (\<lambda>_. starts_released ip)" for tid
    unfolding carry_out_def by (intro starting.rules free mark1 settle recover_guests_starts)
  have task: "yields (set_task env tid st p) (\<lambda>_ es. starts_released ip es \<and> \<not> list_ex touches_guest es)" for tid st p
    by (rule quiet [OF mark1(1)])
  have conf: "starts_released ip (H_Config c # es)" if "starts_released ip es" for c es
    using starting.together [OF starts_quiet that, of "[H_Config c]"] by (simp add: is_start_def)
  have calm: "\<not> list_ex touches_guest (map H_Fence fs)" "\<not> touches_guest (H_Config c)" for fs c
    by (induction fs) (simp_all add: touches_guest_def)
  have cut_short: "safe_failover hostname ip db_status led (xs @ map H_Fence fs)"
    if "starts_released ip xs \<and> \<not> list_ex touches_guest xs" for xs fs
    using that calm by (auto simp: safe_failover_def intro!: starting.together conf fence_starts)
  have refused: "safe_failover hostname ip db_status led (xs @ map H_Fence fs @ H_Config c' # ys)"
    if "starts_released ip xs \<and> \<not> list_ex touches_guest xs" "starts_released ip ys \<and> \<not> list_ex touches_guest ys" for xs fs c' ys
    using that calm by (auto simp: safe_failover_def intro!: starting.together conf fence_starts)
  have carried: "safe_failover hostname ip db_status led (xs @ map H_Fence fs @ H_Config c' # ys)"
    if "starts_released ip xs \<and> \<not> list_ex touches_guest xs" "starts_released ip ys" "fst (failover_permitted f c')"
      "fn_confirmed f \<longrightarrow> vouched hostname ip db_status led fs" for xs fs c' ys f
  proof -
    have "entitled hostname ip db_status led (xs @ map H_Fence fs @ H_Config c' # ys)"
    proof (cases "fn_confirmed f")
      case True
      then show ?thesis using that(4) by (auto simp: entitled_def vouched_def intro: proven_append)
    next
      case False
      then have "at_risk (H_Config c')" using that(3) by (simp add: failover_permitted_def at_risk_def split: if_splits)
      then show ?thesis by (simp add: entitled_def)
    qed
    then show ?thesis using that by (auto simp: safe_failover_def intro!: starting.together conf fence_starts)
  qed
  show ?thesis
    unfolding failover_host_def
    by (intro yields_bind yields_look yields_mono [OF task] yields_act yields_mono [OF fenced_inside]
        yields_case_option yields_case_prod yields_if yields_mono [OF carry] yields_mono [OF refuse] yields_ret)
      (auto intro: cut_short refused carried)
qed

text \<open>
  C5. A guest is restarted elsewhere only when its host is known to be out. In a failover, every start follows at
  once the release of that guest from the dead host, applied by compare-and-swap; and no guest is released or
  started unless the fence of the host is on record or was proven in this failover, or the configuration
  read in it says that an unconfirmed fence may be ignored.
\<close>

theorem restarts_are_safe:
  "yields (failover_host fuel env hosts hostname ip db_status led) (\<lambda>_ es. safe_failover hostname ip db_status led es)"
  by (rule failover_host_safe)

text \<open>
  A failover that cannot read the guests ends as done. When the read of \<open>hydra.vms\<close> fails, the failover marks
  its task completed without looking at any guest; and a host that recorded itself as FENCED is not tried again,
  since it counts as handled from the moment the failover began.
\<close>

theorem unreadable_guests_are_given_up:
  "trace (snd (run_state (recover_guests (env\<lparr>ha_vms := \<lambda>w. (None, w)\<rparr>) ip tid) s))
     = trace s @ [H_Task tid ''processing'' 70, H_Vms None, H_Task tid ''completed'' 100]
   \<and> run_state (maybe_failover fuel env hosts hostname ip node_status_fenced
       (st\<lparr>hs_handled := insert ip (hs_handled st), hs_failures := (\<lambda>_. 0)\<rparr>)) s
     = (Some (st\<lparr>hs_handled := insert ip (hs_handled st), hs_failures := (\<lambda>_. 0)\<rparr>), s)"
  by (simp add: recover_guests_def set_task_def run_rules orphaned_vms_def maybe_failover_def node_status_fenced_def
      Let_def split: prod.splits)

section \<open>Three strikes\<close>

text \<open>
  What the events say of each host: how many health checks in a row it failed since this process last was
  no leader, last saw the host in maintenance or last failed it over, and whether it was last read as FENCED.
\<close>

definition strike :: "(string \<Rightarrow> nat) \<times> (string \<Rightarrow> bool) \<Rightarrow> hevent \<Rightarrow> (string \<Rightarrow> nat) \<times> (string \<Rightarrow> bool)" where
  "strike s e = (case s of (k, fz) \<Rightarrow>
     (case e of
        H_Health ip ok \<Rightarrow> (k(ip := (if ok then 0 else k ip + 1)), fz)
      | H_Db ip st \<Rightarrow> (k(ip := (if in_maintenance st then 0 else k ip)), fz(ip := (st = node_status_fenced)))
      | H_Follower \<Rightarrow> (\<lambda>_. 0, fz)
      | H_Failover ip \<Rightarrow> (k(ip := 0), fz)
      | _ \<Rightarrow> (k, fz)))"

definition called_for :: "(string \<Rightarrow> nat) \<times> (string \<Rightarrow> bool) \<Rightarrow> hevent \<Rightarrow> bool" where
  "called_for s e = (case e of H_Failover ip \<Rightarrow> 3 \<le> fst s ip \<or> snd s ip | _ \<Rightarrow> True)"

fun justified :: "(string \<Rightarrow> nat) \<times> (string \<Rightarrow> bool) \<Rightarrow> hevent list \<Rightarrow> bool" where
  "justified s [] = True"
| "justified s (e # es) = (called_for s e \<and> justified (strike s e) es)"

definition neutral :: "hevent \<Rightarrow> bool" where
  "neutral e = (case e of H_Health _ _ \<Rightarrow> False | H_Db _ _ \<Rightarrow> False | H_Follower \<Rightarrow> False | H_Failover _ \<Rightarrow> False | _ \<Rightarrow> True)"

lemma justified_append: "justified s (xs @ ys) \<longleftrightarrow> justified s xs \<and> justified (foldl strike s xs) ys"
  by (induction xs arbitrary: s) auto

lemma neutral_step: "neutral e \<Longrightarrow> called_for s e \<and> strike s e = s"
  by (cases e) (auto simp: neutral_def called_for_def strike_def split: prod.splits)

lemma neutral_keeps: "list_all neutral es \<Longrightarrow> justified s es \<and> foldl strike s es = s"
  by (induction es) (auto simp: neutral_step)

text \<open>A part of the loop that enters with the counters of \<open>st\<close> keeps them in step with its events.\<close>

definition counted :: "(string \<Rightarrow> bool) \<Rightarrow> ha_state \<Rightarrow> ha_state option \<Rightarrow> hevent list \<Rightarrow> bool" where
  "counted fz st r es \<longleftrightarrow> justified (hs_failures st, fz) es
     \<and> (case r of None \<Rightarrow> True | Some st' \<Rightarrow> fst (foldl strike (hs_failures st, fz) es) = hs_failures st')"

lemma emits_fencing: "emits neutral (inside H_Fence (m :: ('w, fevent, 'a) eff))" if "yields m (\<lambda>_ _. True)"
  by (rule yields_inside, rule yields_mono [OF that]) (auto simp: list_all_iff neutral_def)

lemma emits_reconcile: "emits neutral (reconcile_returning_host env ip)"
  unfolding reconcile_returning_host_def drop_stale_def ask_all_def ask_def Let_def
  by (intro emits_intros) (simp_all add: neutral_def)

lemma emits_failover: "emits neutral (failover_host fuel env hosts hostname ip db_status led)"
proof -
  have fence: "emits neutral (inside H_Fence (fence_host fuel fe cf hostname ip db_status led))" for fe :: "'a fence_env" and cf
    by (rule emits_fencing, rule yields_mono [OF fence_host_proof]) simp
  have guests: "emits neutral (recover_guests env ip tid)" for tid
    unfolding recover_guests_def recover_vm_def release_orphaned_vm_def Let_def
    by (intro emits_intros emits_set_task emits_await) (simp_all add: neutral_def)
  have settle: "emits neutral (settle_services env tid hosts ip)" for tid
    by (rule emits_settle) (simp_all add: neutral_def)
  show ?thesis
    unfolding failover_host_def carry_out_def refuse_failover_def set_status_def
    by (intro emits_intros emits_set_task fence guests settle) (simp_all add: neutral_def)
qed

lemma emits_rejoin: "emits neutral (rejoin_host env hostname ip)"
  unfolding rejoin_host_def
  by (intro emits_intros emits_set_task emits_reconcile) (simp_all add: neutral_def)

lemma maybe_failover_counted:
  "yields (maybe_failover fuel env hosts hostname ip db_status st)
     (\<lambda>r es. \<forall>fz. counted (fz(ip := (db_status = node_status_fenced))) st r es)"
proof -
  have read: "yields (if db_status = ''DOWN'' then do { rows \<leftarrow> act (ha_vms env) H_Vms; ret (\<not> guests_left_on ip rows) } else ret False)
      (\<lambda>_. list_all neutral)"
    by (intro emits_intros) (simp add: neutral_def)
  show ?thesis
    unfolding maybe_failover_def Let_def
    by (intro yields_bind yields_mono [OF read] yields_if yields_mark yields_mono [OF emits_failover] yields_ret)
      (auto simp: counted_def justified_append neutral_keeps called_for_def strike_def split: option.splits)
qed

lemma watch_host_counted:
  "yields (watch_host fuel env hosts h st) (\<lambda>r es. \<forall>fz. counted fz st r es)"
proof -
  have renew: "emits neutral (renew_maintenance_lock_for env n)" for n
    unfolding renew_maintenance_lock_for_def by (intro emits_intros) (simp add: neutral_def)
  have lock: "yields (if b then do { _ \<leftarrow> renew_maintenance_lock_for env n; ret () } else ret ()) (\<lambda>_. list_all neutral)" for b n
    by (intro emits_intros renew)
  have again: "yields (if b then rejoin_host env n ip else ret ()) (\<lambda>_. list_all neutral)" for b n ip
    by (intro emits_intros emits_rejoin)
  show ?thesis
    unfolding watch_host_def Let_def
    by (intro yields_bind yields_look yields_mono [OF lock] yields_mono [OF again] yields_if yields_mark yields_act
        yields_mono [OF maybe_failover_counted] yields_ret yields_case_option)
      (auto simp: counted_def justified_append neutral_keeps called_for_def strike_def maintained_def split: option.splits)
qed

text \<open>A pass and the rest of the passes, over any prefix that keeps the counters.\<close>

lemma counted_then:
  "counted fz st (Some st1) xs \<Longrightarrow> \<forall>fz. counted fz st1 r ys \<Longrightarrow> counted fz st r (xs @ ys)"
proof -
  assume one: "counted fz st (Some st1) xs" and rest: "\<forall>fz. counted fz st1 r ys"
  obtain fz' where "foldl strike (hs_failures st, fz) xs = (hs_failures st1, fz')"
    using one by (intro that [of "snd (foldl strike (hs_failures st, fz) xs)"]) (simp add: counted_def prod_eq_iff)
  with one rest show ?thesis by (auto simp: counted_def justified_append split: option.splits)
qed

lemma watch_hosts_counted:
  "yields (watch_hosts fuel env hosts hs st) (\<lambda>r es. \<forall>fz. counted fz st r es)"
proof (induction hs arbitrary: st)
  case (Cons h hs)
  show ?case
    unfolding watch_hosts.simps
    by (intro yields_bind yields_mono [OF watch_host_counted] yields_case_option yields_ret yields_mono [OF Cons.IH])
      (auto intro: counted_then)
qed (simp add: yields_ret counted_def)

lemma emits_zk: "yields m (\<lambda>_ _. True) \<Longrightarrow> emits neutral (inside H_Zk m)"
  by (rule yields_inside, erule yields_mono) (auto simp: list_all_iff neutral_def)

lemma emits_withdraw: "emits neutral (inside H_Zk (withdraw cf z cy))"
  unfolding withdraw_def resign_def by (intro emits_zk yields_intros) simp_all

lemma emits_leading: "emits neutral (inside H_Zk (leading cf z cy))"
  by (intro emits_zk yields_mono [OF leading_answers]) simp

lemma ha_pass_counted: "yields (ha_pass fuel env st) (\<lambda>r es. \<forall>fz. counted fz st r es)"
proof -
  have withdrawn: "yields (if b then ret cy else inside H_Zk (withdraw cf z cy)) (\<lambda>_. list_all neutral)" for b cf z cy
    by (intro emits_intros emits_withdraw)
  show ?thesis
    unfolding ha_pass_def Let_def
    by (intro yields_bind yields_look yields_mono [OF withdrawn] yields_mono [OF emits_leading] yields_case_prod yields_if yields_mark
        yields_ret yields_mono [OF watch_hosts_counted])
      (auto simp: counted_def justified_append neutral_keeps called_for_def strike_def split: option.splits)
qed

text \<open>
  Three strikes. However long the control loop runs, a host is failed over only when it failed its last three
  health checks in a row, all of them made since this process last was without the election and since the host was last
  in maintenance or failed over, or when the database, as just read, records that the host fenced itself.
\<close>

theorem failover_needs_three_strikes:
  "yields (ha_passes fuel env n new_ha) (\<lambda>_ es. justified (\<lambda>_. 0, \<lambda>_. False) es)"
proof -
  have "yields (ha_passes fuel env n st) (\<lambda>r es. \<forall>fz. counted fz st r es)" for st
  proof (induction n arbitrary: st)
    case (Suc n)
    show ?case
      unfolding ha_passes.simps
      by (intro yields_bind yields_mono [OF ha_pass_counted] yields_case_option yields_ret yields_look yields_mono [OF Suc.IH])
        (auto intro: counted_then)
  qed (simp add: yields_ret counted_def)
  from this [of new_ha] show ?thesis
    by (rule yields_mono) (auto simp: counted_def new_ha_def)
qed

section \<open>What a returning host is told to drop\<close>

definition lives_elsewhere :: "string \<Rightarrow> (string \<Rightarrow> vm_place option) \<Rightarrow> string \<Rightarrow> bool" where
  "lives_elsewhere ip rows n = (case rows n of None \<Rightarrow> False | Some row \<Rightarrow> or_str (vp_host row) [] \<noteq> ip)"

lemma stale_guest_plan_filters:
  "stale_guest_plan ds rows ip =
     \<lparr>gp_destroy = map dn_name (filter (\<lambda>d. lives_elsewhere ip rows (dn_name d) \<and> lower (strip (or_str (dn_state d) [])) \<noteq> ''shut off'') ds),
      gp_undefine = map dn_name (filter (\<lambda>d. lives_elsewhere ip rows (dn_name d)) ds),
      gp_left = map dn_name (filter (\<lambda>d. \<not> lives_elsewhere ip rows (dn_name d)) ds)\<rparr>"
  by (induction ds rule: rev_induct) (auto simp: stale_guest_plan_def lives_elsewhere_def Let_def split: option.splits)

lemma stale_vdisks_elsewhere:
  "v \<in> set (stale_vdisks vs rows ip) \<Longrightarrow> \<exists>n. vm_of_disk v = Some n \<and> lives_elsewhere ip rows n"
  by (cases "vm_of_disk v") (auto simp: stale_vdisks_def lives_elsewhere_def split: option.splits)

text \<open>A request that the rows \<open>vms\<close> call for: it is about a guest, or a disk of a guest, that they place elsewhere.\<close>

definition fits :: "string \<Rightarrow> vm_place list \<Rightarrow> hevent \<Rightarrow> bool" where
  "fits ip vms e =
     (case e of
        H_Request h (Destroy n) \<Rightarrow> h = ip \<and> lives_elsewhere ip (map_of (vm_table vms)) n
      | H_Request h (Undefine n) \<Rightarrow> h = ip \<and> lives_elsewhere ip (map_of (vm_table vms)) n
      | H_Request h (Detach v) \<Rightarrow> h = ip \<and> (\<exists>n. vm_of_disk v = Some n \<and> lives_elsewhere ip (map_of (vm_table vms)) n)
      | _ \<Rightarrow> True)"

definition is_request :: "hevent \<Rightarrow> bool" where
  "is_request e = (case e of H_Request _ _ \<Rightarrow> True | _ \<Rightarrow> False)"

definition reconciled :: "string \<Rightarrow> hevent list \<Rightarrow> bool" where
  "reconciled ip es \<longleftrightarrow> list_all (\<lambda>e. \<not> is_request e) es
     \<or> (\<exists>pre vms rest. es = pre @ H_Vms (Some vms) # rest \<and> list_all (\<lambda>e. \<not> is_request e) pre \<and> list_all (fits ip vms) rest)"

lemma drop_stale_fits:
  "emits (fits ip vms) (drop_stale env ip (map_of (vm_table vms)) (stale_guest_plan ds (map_of (vm_table vms)) ip))"
proof -
  have asked: "emits (fits ip vms) (ask_all env ip f ns acc)" if "\<And>n. n \<in> set ns \<Longrightarrow> fits ip vms (H_Request ip (f n))" for f ns acc
    unfolding ask_all_def ask_def using that by (intro emits_intros) auto
  show ?thesis
    unfolding drop_stale_def
    by (intro emits_intros asked) (auto simp: fits_def stale_guest_plan_filters stale_vdisks_elsewhere)
qed

lemma reconciledI: "list_all (fits ip vms) es \<Longrightarrow> reconciled ip (H_Domains d # H_Vms (Some vms) # es)"
  unfolding reconciled_def
  by (rule disjI2, rule exI [of _ "[H_Domains d]"], rule exI [of _ vms], rule exI [of _ es]) (simp add: is_request_def)

text \<open>
  A returning host is told to drop only what lives elsewhere. Every request to destroy or undefine a guest or to
  detach a disk goes to the host that came back, after the rows of \<open>hydra.vms\<close> were read in this call, and those rows place the
  guest on another host or on none; when a read fails nothing is requested.
\<close>

theorem returning_host_keeps_its_guests:
  "yields (reconcile_returning_host env ip) (\<lambda>_ es. reconciled ip es)"
proof -
  have nothing_asked: "reconciled ip [H_Domains d]" "reconciled ip [H_Domains d, H_Vms v]" for d v
    by (simp_all add: reconciled_def is_request_def)
  show ?thesis
    unfolding reconcile_returning_host_def Let_def
    by (intro yields_bind yields_act yields_case_option yields_ret yields_mono [OF drop_stale_fits])
      (auto intro: nothing_asked reconciledI)
qed

end
