(* ===== verification/Mipha_Watchdog.thy ===== *)
theory Mipha_Watchdog
  imports Mipha_Fence
begin

text \<open>
  Self-fencing (\<open>src/mipha.py\<close>): the health probe, its verdicts, \<open>self_fence_decide\<close>, \<open>execute_self_fence\<close> with
  \<open>local_fence_fallback\<close>, the announcement in \<open>hydra.nodes\<close>, the marker a fence leaves, \<open>clear_self_fence\<close>, quarantine and
  \<open>self_fence_loop\<close>. The calls of the probes (virsh, Sidon) are effects; settings are read with their
  defaults applied. Printed lines and the time of a fence are left out. \<open>SELF_FENCE_STATE\<close> is a record, the marker file an
  effect; a report in it without \<open>fenced\<close> is \<^const>\<open>None\<close>.
\<close>

section \<open>The decision\<close>

datatype verdict_w = Fine | Broken | Unknown

record unserviceable =
  us_resource :: string
  us_cause :: string
  us_detail :: string

record probe =
  pb_libvirt :: verdict_w
  pb_storage :: verdict_w
  pb_unserviceable :: "unserviceable list"
  pb_libvirt_detail :: string
  pb_storage_detail :: string

record settings =
  sf_enabled :: bool
  sf_interval :: real
  sf_threshold :: int
  sf_grace :: real
  sf_recover_after :: real
  sf_lift_after :: int
  sf_release_zk :: bool

record counters =
  ct_unserviceable :: nat
  ct_libvirt :: nat
  ct_storage :: nat

definition no_counters :: counters where
  "no_counters = \<lparr>ct_unserviceable = 0, ct_libvirt = 0, ct_storage = 0\<rparr>"

datatype decision = Leave_Alone | Quarantine | Fence

text \<open>What one pass of the decision looks at.\<close>

record sighting =
  si_settings :: settings
  si_hosts :: nat
  si_maintenance :: bool
  si_uptime :: real
  si_probe :: probe
  si_peer :: bool

definition exempt :: "sighting \<Rightarrow> bool" where
  "exempt x \<longleftrightarrow> \<not> sf_enabled (si_settings x) \<or> si_hosts x \<le> 1 \<or> si_maintenance x
     \<or> si_uptime x < sf_grace (si_settings x)"

definition hard :: "sighting \<Rightarrow> bool" where
  "hard x \<longleftrightarrow> pb_unserviceable (si_probe x) \<noteq> []"

definition self_fence_decide :: "sighting \<Rightarrow> counters \<Rightarrow> (decision \<times> string) \<times> counters" where
  "self_fence_decide x ct =
     (if \<not> sf_enabled (si_settings x) then
        ((Leave_Alone, ''self-fencing is disabled in /etc/hci/fencing.json''), no_counters)
      else if si_hosts x \<le> 1 then
        ((Leave_Alone, ''this is a single-node cluster: there is nowhere for the guests to be restarted, so fencing would be a pure outage''), no_counters)
      else if si_maintenance x then ((Leave_Alone, ''this host is in maintenance''), no_counters)
      else if si_uptime x < sf_grace (si_settings x) then ((Leave_Alone, ''within the startup grace period''), no_counters)
      else
        let p = si_probe x;
            threshold = sf_threshold (si_settings x);
            ct1 = \<lparr>ct_unserviceable = (if hard x then ct_unserviceable ct + 1 else 0),
                   ct_libvirt = (if pb_libvirt p = Broken then ct_libvirt ct + 1 else 0),
                   ct_storage = (if pb_storage p = Broken then ct_storage ct + 1 else 0)\<rparr>;
            detail = join ''; '' (map us_detail (take 5 (pb_unserviceable p)))
        in (if hard x \<and> int (ct_unserviceable ct1) \<ge> threshold then
              (if \<not> si_peer x then (Quarantine, ''local storage is unserviceable ('' @ detail
                   @ '') but no peer is answering, so stopping the guests here would not get them started anywhere else'')
               else (Fence, ''local storage cannot serve I/O ('' @ detail @ '')''))
            else if int (ct_storage ct1) \<ge> threshold then
              (Quarantine, ''storage has failed '' @ show_nat (ct_storage ct1) @ '' consecutive probes: '' @ pb_storage_detail p)
            else if int (ct_libvirt ct1) \<ge> threshold then
              (Quarantine, ''libvirt has failed '' @ show_nat (ct_libvirt ct1) @ '' consecutive probes: '' @ pb_libvirt_detail p)
            else (Leave_Alone, []), ct1))"

definition decide_all :: "sighting list \<Rightarrow> counters \<Rightarrow> counters" where
  "decide_all xs ct = foldl (\<lambda>c x. snd (self_fence_decide x c)) ct xs"

text \<open>The passes at the end of \<open>xs\<close> in which the storage was seen unserviceable and nothing exempted the host.\<close>

definition streak :: "sighting list \<Rightarrow> nat" where
  "streak xs = length (takeWhile (\<lambda>x. \<not> exempt x \<and> hard x) (rev xs))"

lemma decide_counts:
  "ct_unserviceable (snd (self_fence_decide x ct)) = (if \<not> exempt x \<and> hard x then ct_unserviceable ct + 1 else 0)"
  by (auto simp: self_fence_decide_def exempt_def no_counters_def Let_def)

lemma counter_is_streak: "ct_unserviceable (decide_all xs no_counters) = streak xs"
  by (induction xs rule: rev_induct) (simp_all add: decide_all_def streak_def decide_counts no_counters_def)

text \<open>
  A host fences itself only after a streak. In any sequence of passes from a start of the watchdog the decision is
  to fence exactly when this pass is not exempt (self-fencing is on, the cluster has a second host, the host is not in
  maintenance and past its grace period), its storage is unserviceable now and was in each of the passes
  just before, as many in a row as the threshold, and a peer answers.
\<close>

theorem self_fence_needs_a_streak:
  "fst (fst (self_fence_decide x (decide_all xs no_counters))) = Fence \<longleftrightarrow>
     \<not> exempt x \<and> hard x \<and> sf_threshold (si_settings x) \<le> int (streak (xs @ [x])) \<and> si_peer x"
proof (cases "\<not> exempt x \<and> hard x")
  case True
  then have "streak (xs @ [x]) = streak xs + 1" by (simp add: streak_def)
  with True show ?thesis
    by (auto simp: self_fence_decide_def exempt_def Let_def counter_is_streak)
next
  case False
  then show ?thesis by (auto simp: self_fence_decide_def exempt_def Let_def)
qed

section \<open>The state and the environment\<close>

definition node_status_degraded :: string where "node_status_degraded = ''DEGRADED''"
definition orphan_check_every :: nat where "orphan_check_every = 6"

record fence_report =
  fr_fenced :: bool
  fr_detail :: string

record sf_state =
  sf_active :: bool
  sf_quarantined :: bool
  sf_reason :: string
  sf_announced :: bool
  sf_report :: "fence_report option"
  sf_clean_passes :: nat

definition new_sf :: sf_state where
  "new_sf = \<lparr>sf_active = False, sf_quarantined = False, sf_reason = [], sf_announced = False, sf_report = None,
     sf_clean_passes = 0\<rparr>"

record attached_vdisk =
  av_vdisk :: "string option"
  av_degraded :: "string option"

record 'w wd_env =
  wd_settings :: "'w \<Rightarrow> settings \<times> 'w"
  wd_hosts :: "'w \<Rightarrow> string option list \<times> 'w"
  wd_me :: string
  wd_peer :: "string \<Rightarrow> 'w \<Rightarrow> string option \<times> 'w"
  wd_maintenance :: "'w \<Rightarrow> bool \<times> 'w"
  wd_uptime :: "'w \<Rightarrow> real \<times> 'w"
  wd_clock :: "'w \<Rightarrow> real \<times> 'w"
  wd_virsh :: "'w \<Rightarrow> (int \<times> string \<times> string) option \<times> 'w"
  wd_listed :: "'w \<Rightarrow> (string + attached_vdisk list) \<times> 'w"
  wd_marker :: "'w \<Rightarrow> bool \<times> 'w"
  wd_load :: "'w \<Rightarrow> (string option \<times> fence_report option) option \<times> 'w"
  wd_write_marker :: "string \<Rightarrow> 'w \<Rightarrow> unit \<times> 'w"
  wd_remove_marker :: "'w \<Rightarrow> bool \<times> 'w"
  wd_spark :: "'w \<Rightarrow> (int \<times> fence_body option) \<times> 'w"
  wd_stop :: "string list \<Rightarrow> 'w \<Rightarrow> unit \<times> 'w"
  wd_pids :: "'w \<Rightarrow> nat list \<times> 'w"
  wd_kill :: "nat \<Rightarrow> 'w \<Rightarrow> unit \<times> 'w"
  wd_mounted :: "string \<Rightarrow> 'w \<Rightarrow> bool \<times> 'w"
  wd_sidon :: bool
  wd_attached :: "'w \<Rightarrow> string option list option \<times> 'w"
  wd_detach :: "string \<Rightarrow> 'w \<Rightarrow> bool \<times> 'w"
  wd_zk_leader :: "'w \<Rightarrow> bool \<times> 'w"
  wd_zk_active :: "'w \<Rightarrow> bool \<times> 'w"
  wd_status :: "'w \<Rightarrow> string option \<times> 'w"
  wd_swap :: "string \<Rightarrow> string \<Rightarrow> 'w \<Rightarrow> (bool \<times> bool) \<times> 'w"
  wd_pause :: "real \<Rightarrow> 'w \<Rightarrow> unit \<times> 'w"

datatype wevent =
    W_Marker
  | W_Unmark bool
  | W_Spark int "fence_body option"
  | W_Command "string list"
  | W_Pids "nat list"
  | W_Kill nat
  | W_Loaded "(string option \<times> fence_report option) option"
  | W_Attached "string option list option"
  | W_Detach string bool
  | W_Swap string string "bool \<times> bool"
  | W_Probe probe
  | W_Report fence_report

section \<open>The probe\<close>

text \<open>\<open>virsh\<close> as it answered, \<^const>\<open>None\<close> when it is not installed; 127 is a command that was not found.\<close>

definition virsh_verdict :: "(int \<times> string \<times> string) option \<Rightarrow> verdict_w \<times> string" where
  "virsh_verdict a =
     (case a of
        None \<Rightarrow> (Unknown, ''virsh is not installed'')
      | Some (rc, out, err) \<Rightarrow>
          if rc = 0 then (Fine, [])
          else if rc = 127 then (Unknown, ''virsh disappeared between checks'')
          else (Broken, or_str (Some (take 200 (strip (or_str (Some err) out)))) (''virsh exited '' @ show_int rc)))"

definition storage_verdict :: "string + attached_vdisk list \<Rightarrow> verdict_w \<times> string \<times> unserviceable list" where
  "storage_verdict a =
     (case a of
        Inl e \<Rightarrow> (Broken, take 200 e, [])
      | Inr vs \<Rightarrow> (Fine, [], map (\<lambda>v. \<lparr>us_resource = (case av_vdisk v of None \<Rightarrow> ''?'' | Some i \<Rightarrow> i), us_cause = ''drain-failed'',
            us_detail = take 200 (or_str (av_degraded v) [])\<rparr>) (filter (\<lambda>v. truthy_str (av_degraded v)) vs)))"

definition probe_local_health :: "'w wd_env \<Rightarrow> ('w, wevent, probe) eff" where
  "probe_local_health env = do {
     v \<leftarrow> look (wd_virsh env);
     s \<leftarrow> (if wd_sidon env then do { a \<leftarrow> look (wd_listed env); ret (storage_verdict a) }
           else ret (Unknown, ''helios_sidon is not installed on this node'', []));
     let p = \<lparr>pb_libvirt = fst (virsh_verdict v), pb_storage = fst s, pb_unserviceable = snd (snd s),
              pb_libvirt_detail = snd (virsh_verdict v), pb_storage_detail = fst (snd s)\<rparr>;
     mark (W_Probe p);
     ret p }"

section \<open>Fencing this host\<close>

fun kill_guests :: "'w wd_env \<Rightarrow> nat \<Rightarrow> ('w, wevent, unit) eff" where
  "kill_guests env 0 = ret ()"
| "kill_guests env (Suc n) = do {
     pids \<leftarrow> act (wd_pids env) W_Pids;
     if pids = [] then ret ()
     else do {
       for_each (\<lambda>p _. act (wd_kill env p) (\<lambda>_. W_Kill p)) pids ();
       _ \<leftarrow> look (wd_pause env 2);
       kill_guests env n } }"

definition fenced_mounts :: "string list" where
  "fenced_mounts = [''/var/lib/hci/aether/volumes/default-vm-container'', ''/var/lib/hci/aether/volumes/default-image-container'']"

definition command :: "'w wd_env \<Rightarrow> string list \<Rightarrow> ('w, wevent, unit) eff" where
  "command env argv = act (wd_stop env argv) (\<lambda>_. W_Command argv)"

definition drop_mounts :: "'w wd_env \<Rightarrow> ('w, wevent, unit) eff" where
  "drop_mounts env = for_each (\<lambda>m _. do {
     there \<leftarrow> look (wd_mounted env m);
     if there then command env [''umount'', ''-l'', m] else ret () }) fenced_mounts ()"

definition detach_all :: "'w wd_env \<Rightarrow> ('w, wevent, string list) eff" where
  "detach_all env =
     (if \<not> wd_sidon env then ret []
      else do {
        listed \<leftarrow> act (wd_attached env) W_Attached;
        case listed of
          None \<Rightarrow> ret [''sidon did not answer'']
        | Some vs \<Rightarrow> for_each (\<lambda>v still. if \<not> truthy_str v then ret still
              else do {
                ok \<leftarrow> act (wd_detach env (the v)) (W_Detach (the v));
                ret (if ok then still else still @ [the v]) }) vs [] })"

definition fallback_detail :: "nat list \<Rightarrow> string list \<Rightarrow> string" where
  "fallback_detail pids still =
     (if pids = [] \<and> still = [] then ''fenced locally without spark-daemon''
      else ''local fence did not take: ''
        @ (if pids = [] then [] else ''qemu still running ['' @ join '', '' (map show_nat pids) @ ''] '')
        @ (if still = [] then [] else ''still Primary on ['' @ join '', '' (map quoted still) @ '']''))"

definition local_fence_fallback :: "'w wd_env \<Rightarrow> ('w, wevent, fence_report) eff" where
  "local_fence_fallback env = do {
     command env [''systemctl'', ''stop'', ''libvirtd'', ''virtqemud'', ''libvirtd.socket'', ''virtqemud.socket''];
     kill_guests env 3;
     pids \<leftarrow> act (wd_pids env) W_Pids;
     drop_mounts env;
     still \<leftarrow> detach_all env;
     ret \<lparr>fr_fenced = (pids = [] \<and> still = []), fr_detail = fallback_detail pids still\<rparr> }"

definition self_fence_announcement :: "sf_state \<Rightarrow> string" where
  "self_fence_announcement st =
     (if (case sf_report st of None \<Rightarrow> False | Some r \<Rightarrow> fr_fenced r) then node_status_fenced else node_status_degraded)"

definition announce_node_status :: "'w wd_env \<Rightarrow> string \<Rightarrow> ('w, wevent, bool) eff" where
  "announce_node_status env target = do {
     current \<leftarrow> look (wd_status env);
     case current of
       None \<Rightarrow> ret False
     | Some c \<Rightarrow>
         if c = target then ret True
         else do {
           (ok, applied) \<leftarrow> act (wd_swap env target c) (W_Swap target c);
           ret (ok \<and> applied) } }"

text \<open>The report is spark-daemon's when it has one, otherwise that of the fallback; \<open>W_Report\<close> marks it.\<close>

definition take_report :: "'w wd_env \<Rightarrow> int \<Rightarrow> fence_body option \<Rightarrow> ('w, wevent, fence_report) eff" where
  "take_report env status body =
     (case (if status = 200 \<or> status = 409 then Option.bind body (\<lambda>b. map_option (Pair b) (fb_fenced b)) else None) of
        Some (b, fenced) \<Rightarrow> ret \<lparr>fr_fenced = fenced, fr_detail = or_str (fb_detail b) []\<rparr>
      | None \<Rightarrow> local_fence_fallback env)"

definition execute_self_fence :: "'w wd_env \<Rightarrow> settings \<Rightarrow> nat \<Rightarrow> string \<Rightarrow> sf_state \<Rightarrow> ('w, wevent, sf_state) eff" where
  "execute_self_fence env se hosts reason st = do {
     let st1 = st\<lparr>sf_active := True, sf_reason := reason, sf_announced := False, sf_report := None\<rparr>;
     _ \<leftarrow> act (wd_write_marker env reason) (\<lambda>_. W_Marker);
     (status, body) \<leftarrow> act (wd_spark env) (\<lambda>(status, body). W_Spark status body);
     report \<leftarrow> take_report env status body;
     mark (W_Report report);
     _ \<leftarrow> act (wd_write_marker env reason) (\<lambda>_. W_Marker);
     (if sf_release_zk se \<and> hosts \<ge> 3 then do {
        leads \<leftarrow> look (wd_zk_leader env);
        if leads then command env [''systemctl'', ''stop'', ''zookeeper''] else ret () }
      else ret ());
     let st2 = st1\<lparr>sf_report := Some report\<rparr>;
     _ \<leftarrow> announce_node_status env (self_fence_announcement st2);
     ret st2 }"

section \<open>Returning to service\<close>

definition local_health_is_clean :: "probe \<Rightarrow> bool" where
  "local_health_is_clean p \<longleftrightarrow> pb_unserviceable p = [] \<and> pb_libvirt p \<noteq> Broken \<and> pb_storage p \<noteq> Broken"

text \<open>The exit code and the state; \<open>wd_remove_marker\<close> answers no when the file cannot be removed.\<close>

definition clear_self_fence :: "'w wd_env \<Rightarrow> bool \<Rightarrow> sf_state \<Rightarrow> ('w, wevent, nat \<times> sf_state) eff" where
  "clear_self_fence env force st = do {
     p \<leftarrow> probe_local_health env;
     if \<not> local_health_is_clean p \<and> \<not> force then ret (1, st)
     else do {
       removed \<leftarrow> act (wd_remove_marker env) W_Unmark;
       if \<not> removed then ret (1, st)
       else do {
         let st1 = st\<lparr>sf_active := False, sf_quarantined := False, sf_reason := [], sf_announced := False, sf_report := None\<rparr>;
         current \<leftarrow> look (wd_status env);
         (if current = Some node_status_fenced \<or> current = Some node_status_degraded
          then do { _ \<leftarrow> act (wd_swap env ''NORMAL'' (the current)) (W_Swap ''NORMAL'' (the current)); ret () }
          else ret ());
         running \<leftarrow> look (wd_zk_active env);
         (if running then ret ()
          else command env [''systemctl'', ''start'', ''zookeeper'']);
         ret (0, st1) } } }"

definition quarantine_may_lift :: "bool \<Rightarrow> int \<Rightarrow> sf_state \<Rightarrow> bool \<times> sf_state" where
  "quarantine_may_lift clean needed st =
     (if \<not> clean then (False, st\<lparr>sf_clean_passes := 0\<rparr>)
      else (max 1 needed \<le> int (sf_clean_passes st + 1), st\<lparr>sf_clean_passes := sf_clean_passes st + 1\<rparr>))"

definition clear_orphaned_quarantine :: "'w wd_env \<Rightarrow> sf_state \<Rightarrow> ('w, wevent, bool) eff" where
  "clear_orphaned_quarantine env st = do {
     current \<leftarrow> look (wd_status env);
     if current \<noteq> Some node_status_degraded then ret False
     else do {
       marked \<leftarrow> look (wd_marker env);
       if sf_quarantined st \<or> sf_active st \<or> marked then ret False
       else announce_node_status env ''NORMAL'' } }"

section \<open>The loop\<close>

record watch =
  wt_state :: sf_state
  wt_counters :: counters
  wt_clean_since :: "real option"
  wt_since_orphan :: nat

definition new_watch :: "sf_state \<Rightarrow> watch" where
  "new_watch st = \<lparr>wt_state = st, wt_counters = no_counters, wt_clean_since = None, wt_since_orphan = orphan_check_every\<rparr>"

fun healthy_peer_exists :: "'w wd_env \<Rightarrow> string option list \<Rightarrow> ('w, wevent, bool) eff" where
  "healthy_peer_exists env [] = ret False"
| "healthy_peer_exists env (h # hs) =
     (case h of
        None \<Rightarrow> healthy_peer_exists env hs
      | Some ip \<Rightarrow>
          if ip = [] \<or> ip = wd_me env then healthy_peer_exists env hs
          else do {
            answer \<leftarrow> look (wd_peer env ip);
            if answer = Some ip then ret True else healthy_peer_exists env hs })"

text \<open>A pass of a host that is fenced: announce it until that lands, and recover if the settings ask for it.\<close>

definition fenced_pass :: "'w wd_env \<Rightarrow> settings \<Rightarrow> watch \<Rightarrow> ('w, wevent, watch) eff" where
  "fenced_pass env se wt = do {
     let st = wt_state wt;
     said \<leftarrow> (if sf_announced st then ret True else announce_node_status env (self_fence_announcement st));
     let wt1 = wt\<lparr>wt_state := st\<lparr>sf_announced := said\<rparr>\<rparr>;
     if sf_recover_after se \<le> 0 then ret wt1
     else do {
       p \<leftarrow> probe_local_health env;
       if \<not> local_health_is_clean p then ret (wt1\<lparr>wt_clean_since := None\<rparr>)
       else do {
         since \<leftarrow> (case wt_clean_since wt1 of None \<Rightarrow> look (wd_clock env) | Some t \<Rightarrow> ret t);
         later \<leftarrow> look (wd_clock env);
         if later - since \<ge> sf_recover_after se then do {
           (_, st1) \<leftarrow> clear_self_fence env True (wt_state wt1);
           ret (wt1\<lparr>wt_state := st1, wt_clean_since := None\<rparr>) }
         else ret (wt1\<lparr>wt_clean_since := Some since\<rparr>) } } }"

definition act_on :: "'w wd_env \<Rightarrow> settings \<Rightarrow> nat \<Rightarrow> probe \<Rightarrow> decision \<times> string \<Rightarrow> watch \<Rightarrow> ('w, wevent, watch) eff" where
  "act_on env se hosts p d wt =
     (let st = wt_state wt in
      case fst d of
        Fence \<Rightarrow> do { st1 \<leftarrow> execute_self_fence env se hosts (snd d) st; ret (wt\<lparr>wt_state := st1\<rparr>) }
      | Quarantine \<Rightarrow> do {
          let st1 = (let c = st\<lparr>sf_clean_passes := 0\<rparr> in
             if sf_quarantined c then c else c\<lparr>sf_quarantined := True, sf_reason := snd d, sf_announced := False\<rparr>);
          said \<leftarrow> (if sf_announced st1 then ret True else announce_node_status env node_status_degraded);
          ret (wt\<lparr>wt_state := st1\<lparr>sf_announced := said\<rparr>\<rparr>) }
      | Leave_Alone \<Rightarrow>
          if sf_quarantined st then
            (case quarantine_may_lift (local_health_is_clean p) (sf_lift_after se) st of
               (may, st1) \<Rightarrow>
                 if \<not> may then ret (wt\<lparr>wt_state := st1\<rparr>)
                 else do {
                   lifted \<leftarrow> announce_node_status env ''NORMAL'';
                   ret (wt\<lparr>wt_state := (if lifted then st1\<lparr>sf_quarantined := False, sf_announced := False, sf_reason := [],
                          sf_clean_passes := 0\<rparr> else st1)\<rparr>) })
          else if local_health_is_clean p then
            (if wt_since_orphan wt + 1 \<ge> orphan_check_every then do {
               _ \<leftarrow> clear_orphaned_quarantine env st;
               ret (wt\<lparr>wt_since_orphan := 0\<rparr>) }
             else ret (wt\<lparr>wt_since_orphan := wt_since_orphan wt + 1\<rparr>))
          else ret wt)"

text \<open>The peers are asked only when their answer decides.\<close>

definition watch_pass :: "'w wd_env \<Rightarrow> watch \<Rightarrow> ('w, wevent, watch \<times> real) eff" where
  "watch_pass env wt = do {
     se \<leftarrow> look (wd_settings env);
     hosts \<leftarrow> look (wd_hosts env);
     marked \<leftarrow> look (wd_marker env);
     if sf_active (wt_state wt) \<or> marked then do { wt1 \<leftarrow> fenced_pass env se wt; ret (wt1, sf_interval se) }
     else do {
       p \<leftarrow> probe_local_health env;
       up \<leftarrow> look (wd_uptime env);
       busy \<leftarrow> look (wd_maintenance env);
       let x = \<lparr>si_settings = se, si_hosts = length hosts, si_maintenance = busy, si_uptime = up, si_probe = p, si_peer = True\<rparr>;
       peer \<leftarrow> (if fst (fst (self_fence_decide x (wt_counters wt))) = Fence then healthy_peer_exists env hosts else ret False);
       let (d, ct) = self_fence_decide (x\<lparr>si_peer := peer\<rparr>) (wt_counters wt);
       wt1 \<leftarrow> act_on env se (length hosts) p d (wt\<lparr>wt_counters := ct\<rparr>);
       ret (wt1, sf_interval se) } }"

fun watch_passes :: "'w wd_env \<Rightarrow> nat \<Rightarrow> watch \<Rightarrow> ('w, wevent, watch) eff" where
  "watch_passes env 0 wt = ret wt"
| "watch_passes env (Suc n) wt = do {
     (wt1, interval) \<leftarrow> watch_pass env wt;
     _ \<leftarrow> look (wd_pause env interval);
     watch_passes env n wt1 }"

definition load_self_fence_marker :: "'w wd_env \<Rightarrow> sf_state \<Rightarrow> ('w, wevent, bool \<times> sf_state) eff" where
  "load_self_fence_marker env st = do {
     found \<leftarrow> act (wd_load env) W_Loaded;
     ret (case found of
            None \<Rightarrow> (False, st)
          | Some (reason, report) \<Rightarrow> (True, st\<lparr>sf_active := True,
              sf_reason := (case reason of None \<Rightarrow> ''recorded by an earlier fence'' | Some r \<Rightarrow> r),
              sf_announced := False, sf_report := report\<rparr>)) }"

definition self_fence_loop :: "'w wd_env \<Rightarrow> nat \<Rightarrow> ('w, wevent, watch) eff" where
  "self_fence_loop env n = do {
     _ \<leftarrow> look (wd_settings env);
     (_, st) \<leftarrow> load_self_fence_marker env new_sf;
     watch_passes env n (new_watch st) }"

section \<open>FENCED is a promise\<close>

text \<open>
  What the events so far say: whether the last report, made or found in the marker, is of a fence that took, whether spark-daemon's last answer said fenced,
  whether the last look at the processes found no guest, and which disks listed since then have not been detached; \<^const>\<open>None\<close>
  when none have been listed.
\<close>

record seen =
  sn_took :: bool
  sn_spark :: bool
  sn_clear :: bool
  sn_open :: "string list option"

definition listed_ids :: "string option list \<Rightarrow> string list" where
  "listed_ids vs = map the (filter truthy_str vs)"

definition see :: "seen \<Rightarrow> wevent \<Rightarrow> seen" where
  "see s e =
     (case e of
        W_Report r \<Rightarrow> s\<lparr>sn_took := fr_fenced r\<rparr>
      | W_Loaded (Some (_, Some r)) \<Rightarrow> s\<lparr>sn_took := fr_fenced r\<rparr>
      | W_Spark status body \<Rightarrow> s\<lparr>sn_spark := ((status = 200 \<or> status = 409) \<and> Option.bind body fb_fenced = Some True)\<rparr>
      | W_Pids ps \<Rightarrow> s\<lparr>sn_clear := (ps = []), sn_open := None\<rparr>
      | W_Attached a \<Rightarrow> s\<lparr>sn_open := map_option listed_ids a\<rparr>
      | W_Detach v ok \<Rightarrow> if ok then s\<lparr>sn_open := map_option (removeAll v) (sn_open s)\<rparr> else s
      | _ \<Rightarrow> s)"

text \<open>
  A report of a fence that took rests on what was seen, and FENCED is published only on such a report. With \<open>helios_sidon\<close> on the
  node, the disks were listed and every one of them detached.
\<close>

definition honest :: "bool \<Rightarrow> seen \<Rightarrow> wevent \<Rightarrow> bool" where
  "honest sidon s e =
     (case e of
        W_Swap target _ _ \<Rightarrow> target = node_status_fenced \<longrightarrow> sn_took s
      | W_Report r \<Rightarrow> fr_fenced r \<longrightarrow> sn_spark s \<or> sn_clear s \<and> (sidon \<longrightarrow> sn_open s = Some [])
      | _ \<Rightarrow> True)"

fun honest_run :: "bool \<Rightarrow> seen \<Rightarrow> wevent list \<Rightarrow> bool" where
  "honest_run sidon s [] = True"
| "honest_run sidon s (e # es) = (honest sidon s e \<and> honest_run sidon (see s e) es)"

lemma see_simps [simp]:
  "see s (W_Report r) = s\<lparr>sn_took := fr_fenced r\<rparr>"
  "see s (W_Spark status body) = s\<lparr>sn_spark := ((status = 200 \<or> status = 409) \<and> Option.bind body fb_fenced = Some True)\<rparr>"
  "see s (W_Pids ps) = s\<lparr>sn_clear := (ps = []), sn_open := None\<rparr>"
  "see s (W_Attached a) = s\<lparr>sn_open := map_option listed_ids a\<rparr>"
  "see s (W_Detach v ok) = (if ok then s\<lparr>sn_open := map_option (removeAll v) (sn_open s)\<rparr> else s)"
  "see s W_Marker = s" "see s (W_Unmark b) = s" "see s (W_Command c) = s" "see s (W_Kill n) = s" 
  "see s (W_Swap t u x) = s" "see s (W_Probe p) = s"
  by (simp_all add: see_def)

lemma honest_append: "honest_run sidon s (xs @ ys) \<longleftrightarrow> honest_run sidon s xs \<and> honest_run sidon (foldl see s xs) ys"
  by (induction xs arbitrary: s) auto

definition claims_fenced :: "sf_state \<Rightarrow> bool" where
  "claims_fenced st = (case sf_report st of None \<Rightarrow> False | Some r \<Rightarrow> fr_fenced r)"

text \<open>A part of a pass that takes the state from \<open>st\<close> to \<open>st'\<close>.\<close>

definition keeps_promise :: "bool \<Rightarrow> sf_state \<Rightarrow> sf_state \<Rightarrow> wevent list \<Rightarrow> bool" where
  "keeps_promise sidon st st' es \<longleftrightarrow> (\<forall>s. (claims_fenced st \<longrightarrow> sn_took s) \<longrightarrow>
     honest_run sidon s es \<and> (claims_fenced st' \<longrightarrow> sn_took (foldl see s es)))"

lemma promise_append: "keeps_promise sidon st st1 xs \<Longrightarrow> keeps_promise sidon st1 st2 ys \<Longrightarrow> keeps_promise sidon st st2 (xs @ ys)"
  by (simp add: keeps_promise_def honest_append)

text \<open>Events that publish nothing and report nothing.\<close>

definition silent_w :: "wevent \<Rightarrow> bool" where
  "silent_w e = (case e of W_Swap target _ _ \<Rightarrow> target \<noteq> node_status_fenced | W_Report _ \<Rightarrow> False | W_Loaded _ \<Rightarrow> False | _ \<Rightarrow> True)"

lemma silent_w_simps [simp]:
  "silent_w (W_Spark a b)" "silent_w (W_Pids ps)" "silent_w (W_Attached x)" "silent_w (W_Detach v ok)" "silent_w W_Marker"
  "silent_w (W_Unmark c)" "silent_w (W_Command d)" "silent_w (W_Kill n)" "silent_w (W_Probe p)"
  "silent_w (W_Swap t e y) = (t \<noteq> node_status_fenced)" "\<not> silent_w (W_Report r)"
  by (simp_all add: silent_w_def)

lemma silent_honest: "list_all silent_w es \<Longrightarrow> honest_run sidon s es \<and> sn_took (foldl see s es) = sn_took s"
  by (induction es arbitrary: s) (auto simp: silent_w_def honest_def see_def split: wevent.splits)

lemma silent_promise: "list_all silent_w es \<Longrightarrow> (claims_fenced st' \<longrightarrow> claims_fenced st) \<Longrightarrow> keeps_promise sidon st st' es"
  by (simp add: keeps_promise_def silent_honest)

lemma announce_silent: "target \<noteq> node_status_fenced \<Longrightarrow> emits silent_w (announce_node_status env target)"
  unfolding announce_node_status_def by (intro emits_intros) (simp add: silent_w_def)

lemma announce_promise: "yields (announce_node_status env (self_fence_announcement st)) (\<lambda>_. keeps_promise (wd_sidon env) st st)"
  unfolding announce_node_status_def
  by (intro yields_intros)
    (auto simp: keeps_promise_def honest_def see_def self_fence_announcement_def claims_fenced_def node_status_fenced_def
      node_status_degraded_def split: if_splits)

lemma detach_loop:
  "yields (for_each (\<lambda>v still. if \<not> truthy_str v then ret still
        else do { ok \<leftarrow> act (wd_detach env (the v)) (W_Detach (the v)); ret (if ok then still else still @ [the v]) }) vs still)
     (\<lambda>r es. list_all silent_w es
        \<and> (r = [] \<longrightarrow> still = [] \<and> (\<forall>s. sn_open (foldl see s es) = map_option (filter (\<lambda>v. v \<notin> set (listed_ids vs))) (sn_open s)))
        \<and> (\<forall>s. sn_clear (foldl see s es) = sn_clear s))"
proof (induction vs arbitrary: still)
  case (Cons v vs)
  show ?case
    unfolding for_each.simps
    by (intro yields_intros yields_mono [OF Cons.IH])
      (auto simp: listed_ids_def removeAll_filter_not_eq option.map_comp comp_def conj_commute intro!: option.map_cong filter_cong split: if_splits)
next
  case Nil
  have "map_option (filter (\<lambda>v. v \<notin> set (listed_ids []))) x = x" for x by (cases x) (simp_all add: listed_ids_def)
  then show ?case by (simp add: yields_ret)
qed

lemma kill_silent: "emits silent_w (kill_guests env n)"
  by (induction n) (auto intro!: emits_intros)

lemma command_silent: "emits silent_w (command env argv)"
  unfolding command_def by (rule emits_act) simp

lemma mounts_quiet:
  "yields (drop_mounts env) (\<lambda>_ es. list_all silent_w es \<and> (\<forall>s. foldl see s es = s))"
proof -
  have one: "yields (do { there \<leftarrow> look (wd_mounted env m); if there then command env [''umount'', ''-l'', m] else ret () })
      (\<lambda>_ es. list_all silent_w es \<and> (\<forall>s. foldl see s es = s))" for m
    unfolding command_def by (intro yields_intros) auto
  have "yields (drop_mounts env) (\<lambda>_ es. (\<lambda>_ es. list_all silent_w es \<and> (\<forall>s. foldl see s es = s)) () ([] @ es))"
    unfolding drop_mounts_def by (rule yields_for_each, rule yields_mono [OF one]) auto
  then show ?thesis by simp
qed

lemma fallback_report:
  "yields (local_fence_fallback env) (\<lambda>r es. list_all silent_w es
     \<and> (fr_fenced r \<longrightarrow> (\<forall>s. sn_clear (foldl see s es) \<and> (wd_sidon env \<longrightarrow> sn_open (foldl see s es) = Some []))))"
proof -
  have all: "yields (detach_all env) (\<lambda>r es. list_all silent_w es
      \<and> (r = [] \<longrightarrow> wd_sidon env \<longrightarrow> (\<forall>s. sn_open (foldl see s es) = Some [])) \<and> (\<forall>s. sn_clear (foldl see s es) = sn_clear s))"
    unfolding detach_all_def by (intro yields_intros yields_mono [OF detach_loop]) auto
  show ?thesis
    unfolding local_fence_fallback_def
    by (intro yields_intros yields_mono [OF command_silent] yields_mono [OF kill_silent] yields_mono [OF mounts_quiet] yields_mono [OF all]) auto
qed

text \<open>On a node without \<open>helios_sidon\<close> the fallback reports a fence that took as soon as no guest is left, with no disk listed or detached.\<close>

lemma no_sidon_no_disks:
  assumes "\<not> wd_sidon env" "\<And>w. fst (wd_pids env w) = []"
  shows "yields (local_fence_fallback env) (\<lambda>r es. fr_fenced r \<and> list_all (\<lambda>e. \<forall>a v ok. e \<noteq> W_Attached a \<and> e \<noteq> W_Detach v ok) es)"
proof -
  let ?none = "\<lambda>e. \<forall>a v ok. e \<noteq> W_Attached a \<and> e \<noteq> W_Detach v ok"
  have pids: "yields (act (wd_pids env) W_Pids) (\<lambda>ps es. ps = [] \<and> list_all ?none es)"
    using assms(2) by (auto simp: yields_def run_rules split: prod.splits) (metis fst_conv)
  have kill: "yields (kill_guests env 3) (\<lambda>_. list_all ?none)"
    unfolding numeral_3_eq_3 kill_guests.simps by (intro yields_bind yields_mono [OF pids] yields_if) (auto intro: yields_ret)
  have mounts: "emits ?none (drop_mounts env)" unfolding drop_mounts_def command_def by (intro emits_intros) auto
  have stop: "emits ?none (command env c)" for c unfolding command_def by (intro emits_intros) auto
  have none: "detach_all env = ret []" using assms(1) by (simp add: detach_all_def)
  show ?thesis
    unfolding local_fence_fallback_def none
    by (intro yields_bind yields_mono [OF stop] yields_mono [OF kill] yields_mono [OF pids] yields_mono [OF mounts] yields_ret) auto
qed

lemma take_report_honest:
  "yields (take_report env status body) (\<lambda>r es. list_all silent_w es
     \<and> (\<forall>s. honest (wd_sidon env) (foldl see (see s (W_Spark status body)) es) (W_Report r)))"
  unfolding take_report_def
  by (intro yields_intros yields_mono [OF fallback_report])
    (auto simp: honest_def bind_eq_Some_conv split: if_splits)

text \<open>The whole of \<open>execute_self_fence\<close> up to the announcement.\<close>

lemma report_promise:
  assumes "list_all silent_w es" and "\<forall>s. honest sidon (foldl see (see s (W_Spark status body)) es) (W_Report r)"
    and "list_all silent_w ws" and "sf_report st' = Some r"
  shows "keeps_promise sidon st st' (W_Marker # W_Spark status body # es @ W_Report r # ws)"
proof -
  have "sn_took (foldl see (s\<lparr>sn_took := fr_fenced r\<rparr>) ws) = fr_fenced r" for s
    using silent_honest [OF assms(3)] by simp
  then show ?thesis
    using assms silent_honest [OF assms(1)] silent_honest [OF assms(3)]
    by (simp add: keeps_promise_def honest_append honest_def claims_fenced_def del: see_simps(2))
qed

lemma execute_promise: "yields (execute_self_fence env se hosts reason st) (\<lambda>st'. keeps_promise (wd_sidon env) st st')"
proof -
  have zk: "yields (if b then do { leads \<leftarrow> look (wd_zk_leader env);
        if leads then command env c else ret () } else ret ()) (\<lambda>_. list_all silent_w)" for b c
    by (intro emits_intros command_silent)
  have step: "keeps_promise (wd_sidon env) st st' (W_Marker # W_Spark status body # es @ W_Report r # W_Marker # ws @ zs)"
    if "list_all silent_w es \<and> (\<forall>s. honest (wd_sidon env) (foldl see (see s (W_Spark status body)) es) (W_Report r))"
      "list_all silent_w ws" "keeps_promise (wd_sidon env) st' st' zs" "sf_report st' = Some r" for st' status body es r ws zs
    using report_promise [of es "wd_sidon env" status body r "W_Marker # ws" st' st] that promise_append by fastforce
  show ?thesis
    unfolding execute_self_fence_def Let_def
    by (intro yields_bind yields_case_prod yields_act yields_mono [OF take_report_honest] yields_mark yields_mono [OF zk]
        yields_mono [OF announce_promise] yields_ret)
      (auto intro: step)
qed

lemma probe_marks: "yields (probe_local_health env) (\<lambda>p es. es = [W_Probe p])"
  unfolding probe_local_health_def Let_def by (intro yields_bind yields_look yields_if yields_mark yields_ret) auto

lemma clear_promise: "yields (clear_self_fence env force st) (\<lambda>r. keeps_promise (wd_sidon env) st (snd r))"
proof -
  have back_to_normal: "yields (if b then do { _ \<leftarrow> act (wd_swap env ''NORMAL'' c) (W_Swap ''NORMAL'' c); ret () } else ret ())
      (\<lambda>_. list_all silent_w)" for b c
    by (intro emits_intros) (simp add: node_status_fenced_def)
  have zk: "yields (if b then ret () else command env c) (\<lambda>_. list_all silent_w)" for b c
    by (intro emits_intros command_silent)
  show ?thesis
    unfolding clear_self_fence_def Let_def
    by (intro yields_bind yields_mono [OF probe_marks] yields_act yields_look yields_if yields_mono [OF back_to_normal] yields_mono [OF zk] yields_ret)
      (auto intro!: silent_promise simp: claims_fenced_def)
qed

lemma promise_same: "claims_fenced st = claims_fenced st1 \<Longrightarrow> claims_fenced st' = claims_fenced st2 \<Longrightarrow>
    keeps_promise sidon st st' es = keeps_promise sidon st1 st2 es"
  by (simp add: keeps_promise_def)

lemma fenced_pass_promise: "yields (fenced_pass env se wt) (\<lambda>wt'. keeps_promise (wd_sidon env) (wt_state wt) (wt_state wt'))"
proof -
  have said: "yields (if b then ret True else announce_node_status env (self_fence_announcement st)) (\<lambda>_. keeps_promise (wd_sidon env) st st)" for b st
    by (intro yields_if yields_ret announce_promise) (simp add: keeps_promise_def)
  have since: "yields (case x of None \<Rightarrow> look (wd_clock env) | Some t \<Rightarrow> ret t) (\<lambda>_ es. es = [])" for x
    by (intro yields_intros) simp_all
  have flags: "claims_fenced (st\<lparr>sf_announced := b\<rparr>) = claims_fenced st" for st b by (simp add: claims_fenced_def)
  have probed: "keeps_promise (wd_sidon env) st st (es @ [W_Probe p])" if "keeps_promise (wd_sidon env) st st es" for st es p
    using promise_append [OF that silent_promise [of "[W_Probe p]" st st]] by simp
  have cleared: "keeps_promise (wd_sidon env) st st2 (es @ W_Probe p # zs)"
    if "keeps_promise (wd_sidon env) st st es" "keeps_promise (wd_sidon env) (st\<lparr>sf_announced := b\<rparr>) st2 zs" for st b es p zs st2
    using promise_append [OF that(1) promise_append [OF silent_promise [of "[W_Probe p]" st st], of "wd_sidon env" st2 zs]] that(2)
      promise_same [OF flags refl] by simp
  show ?thesis
    unfolding fenced_pass_def Let_def
    by (intro yields_bind yields_mono [OF said] yields_if yields_mono [OF probe_marks] yields_look yields_mono [OF since] yields_case_prod
        yields_mono [OF clear_promise] yields_ret)
      (auto intro: probed cleared simp: promise_same [OF refl flags])
qed

lemma act_on_promise: "yields (act_on env se hosts p d wt) (\<lambda>wt'. keeps_promise (wd_sidon env) (wt_state wt) (wt_state wt'))"
proof -
  have quiet: "emits silent_w (announce_node_status env node_status_degraded)" "emits silent_w (announce_node_status env ''NORMAL'')"
    "emits silent_w (clear_orphaned_quarantine env st)" for st
    unfolding clear_orphaned_quarantine_def
    by (intro emits_intros announce_silent; simp add: node_status_fenced_def node_status_degraded_def)+
  have said: "yields (if b then ret True else announce_node_status env node_status_degraded) (\<lambda>_. list_all silent_w)" for b
    by (intro emits_intros quiet)
  show ?thesis
  proof (cases "fst d")
    case Leave_Alone
    show ?thesis
      unfolding act_on_def Let_def Leave_Alone decision.case quarantine_may_lift_def
      by (intro yields_bind yields_if yields_case_prod yields_mono [OF quiet(2)] yields_mono [OF quiet(3)] yields_ret)
        (auto intro!: silent_promise simp: claims_fenced_def split: if_splits)
  next
    case Quarantine
    show ?thesis
      unfolding act_on_def Let_def Quarantine decision.case
      by (intro yields_bind yields_mono [OF said] yields_ret) (auto intro!: silent_promise simp: claims_fenced_def)
  next
    case Fence
    show ?thesis
      unfolding act_on_def Let_def Fence decision.case
      by (intro yields_bind yields_mono [OF execute_promise] yields_ret) simp
  qed
qed

lemma peer_silent: "yields (healthy_peer_exists env hs) (\<lambda>_ es. es = [])"
proof (induction hs)
  case (Cons h hs)
  then show ?case unfolding healthy_peer_exists.simps by (intro yields_intros) auto
qed (simp add: yields_ret)

lemma watch_pass_promise: "yields (watch_pass env wt) (\<lambda>r. keeps_promise (wd_sidon env) (wt_state wt) (wt_state (fst r)))"
proof -
  have peer: "yields (if b then healthy_peer_exists env hs else ret False) (\<lambda>_ es. es = [])" for b hs
    by (intro yields_if peer_silent yields_ret) simp
  have seen_it: "keeps_promise (wd_sidon env) st st' (W_Probe p # es)" if "keeps_promise (wd_sidon env) st st' es" for st st' p es
    using promise_append [OF silent_promise [of "[W_Probe p]" st st] that] by simp
  show ?thesis
    unfolding watch_pass_def Let_def
    by (intro yields_bind yields_look yields_mono [OF probe_marks] yields_if yields_mono [OF peer] yields_case_prod yields_mono [OF fenced_pass_promise]
        yields_mono [OF act_on_promise] yields_ret)
      (auto intro: seen_it)
qed

text \<open>
  C33. A host calls itself FENCED only when it is. Over any number of passes of the watchdog from its start, the status FENCED,
  on which the leader restarts the guests elsewhere without fencing again, is written only after the last report, of this
  process or in the marker it found, was of a fence that took; and a report made by this process that says so rests on
  spark-daemon's answer, or on a look at the processes that found no guest and, where \<open>helios_sidon\<close> is on the node, a listing of the
  attached disks after it every one of which was then detached. Without \<open>helios_sidon\<close> no disk is looked at
  (\<open>no_sidon_no_disks\<close>).
\<close>

theorem fenced_is_a_promise:
  "yields (self_fence_loop env n) (\<lambda>_ es. honest_run (wd_sidon env) s es)"
proof -
  have passes: "yields (watch_passes env n wt) (\<lambda>wt'. keeps_promise (wd_sidon env) (wt_state wt) (wt_state wt'))" for wt
  proof (induction n arbitrary: wt)
    case (Suc n)
    show ?case
      unfolding watch_passes.simps
      by (intro yields_bind yields_case_prod yields_look yields_mono [OF watch_pass_promise] yields_mono [OF Suc.IH]) (auto intro: promise_append)
  qed (simp add: yields_ret keeps_promise_def)
  have start: "yields (load_self_fence_marker env new_sf) (\<lambda>r es. \<exists>x. es = [W_Loaded x] \<and>
      (\<forall>s. claims_fenced (snd r) \<longrightarrow> sn_took (see s (W_Loaded x))))"
    unfolding load_self_fence_marker_def
    by (intro yields_bind yields_act yields_ret) (auto simp: claims_fenced_def new_sf_def see_def split: option.splits)
  show ?thesis
    unfolding self_fence_loop_def
    by (intro yields_bind yields_look yields_case_prod yields_mono [OF start] yields_mono [OF passes])
      (auto simp: keeps_promise_def new_watch_def honest_def)
qed

end
