(* ===== verification/Doubles.thy ===== *)
theory Doubles
  imports Prelude "HOL-Library.Log_Nat"
begin

text \<open>
  Floating-point division and multiplication as Python does them on its floats (IEEE 754 binary64, rounding to the nearest and to
  even on a tie), as far as \<open>src/daruk.py\<close> uses them: a quotient of two integers, the product with an integer and the truncation
  back to an integer. A non-zero number is its significand of 53 bits and its exponent, so \<open>(m, e)\<close> stands for \<open>m * 2\<^sup>e\<close>;
  overflow and the denormal numbers, which are beyond any time, are left out. \<open>round_unique\<close> gives the significand of a quotient
  whose range is known.
\<close>

definition nearest :: "int \<Rightarrow> int \<Rightarrow> int" where
  "nearest n d =
     (let q = n div d; r = n mod d
      in if 2 * r < d then q else if 2 * r > d then q + 1 else if even q then q else q + 1)"

definition scaled :: "int \<Rightarrow> int \<Rightarrow> int \<Rightarrow> int \<times> int" where
  "scaled n d e = (if 0 \<le> e then (n, d * 2 ^ nat e) else (n * 2 ^ nat (- e), d))"

definition exponent :: "int \<Rightarrow> int \<Rightarrow> int" where
  "exponent n d =
     (let e = bitlen n - bitlen d - 53; (p, q) = scaled n d e
      in if p < 2 ^ 53 * q then e else e + 1)"

definition round_pos :: "int \<Rightarrow> int \<Rightarrow> int \<times> int" where
  "round_pos n d = (let e = exponent n d; (p, q) = scaled n d e in (nearest p q, e))"

definition round_quotient :: "int \<Rightarrow> int \<Rightarrow> int \<times> int" where
  "round_quotient n d =
     (if n = 0 then (0, 0)
      else if 0 < n then round_pos n d
      else (case round_pos (- n) d of (m, e) \<Rightarrow> (- m, e)))"

definition times_int :: "int \<times> int \<Rightarrow> int \<Rightarrow> int \<times> int" where
  "times_int x k = (case x of (m, e) \<Rightarrow> if 0 \<le> e then round_quotient (m * k * 2 ^ nat e) 1 else round_quotient (m * k) (2 ^ nat (- e)))"

definition truncated :: "int \<times> int \<Rightarrow> int" where
  "truncated x = (case x of (m, e) \<Rightarrow> sgn m * (if 0 \<le> e then \<bar>m\<bar> * 2 ^ nat e else \<bar>m\<bar> div 2 ^ nat (- e)))"

text \<open>\<open>int(us / 10**6 * 1000)\<close>.\<close>

definition millis_of_micros :: "int \<Rightarrow> int" where
  "millis_of_micros us = truncated (times_int (round_quotient us 1000000) 1000)"

lemma two_powr_unique:
  assumes "2 powr real_of_int a \<le> x" "x < 2 powr (real_of_int a + 1)" "2 powr real_of_int b \<le> x" "x < 2 powr (real_of_int b + 1)"
  shows "a = b"
proof -
  have "2 powr real_of_int a < 2 powr (real_of_int b + 1)" "2 powr real_of_int b < 2 powr (real_of_int a + 1)" using assms by linarith+
  then show ?thesis by simp
qed

lemma scaled_quotient:
  assumes "scaled n d e = (p, q)" "0 < d"
  shows "0 < q" "real_of_int p / real_of_int q = real_of_int n / real_of_int d / 2 powr real_of_int e"
proof -
  show "0 < q" using assms by (auto simp: scaled_def split: if_splits)
  show "real_of_int p / real_of_int q = real_of_int n / real_of_int d / 2 powr real_of_int e"
  proof (cases "0 \<le> e")
    case True
    then have "2 powr real_of_int e = 2 ^ nat e" by (simp flip: powr_realpow)
    then show ?thesis using assms True by (auto simp: scaled_def)
  next
    case False
    then have "2 powr real_of_int e = inverse (2 ^ nat (- e))" by (simp flip: powr_realpow powr_minus)
    then show ?thesis using assms False by (auto simp: scaled_def field_simps)
  qed
qed

lemma bitlen_powr:
  assumes "0 < n"
  shows "2 powr (real_of_int (bitlen n) - 1) \<le> real_of_int n" "real_of_int n < 2 powr real_of_int (bitlen n)"
proof -
  have len: "0 < bitlen n" using assms bitlen_nonneg [of n] bitlen_eq_zero_iff [of n] by linarith
  have b: "2 ^ nat (bitlen n - 1) \<le> n" "n < 2 ^ nat (bitlen n)" using bitlen_bounds [OF assms] by simp_all
  have "2 powr (real_of_int (bitlen n) - 1) = 2 ^ nat (bitlen n - 1)" "2 powr real_of_int (bitlen n) = 2 ^ nat (bitlen n)"
    using len by (simp_all flip: powr_realpow)
  then show "2 powr (real_of_int (bitlen n) - 1) \<le> real_of_int n" "real_of_int n < 2 powr real_of_int (bitlen n)"
    using b by (metis of_int_le_iff of_int_numeral of_int_power, metis of_int_less_iff of_int_numeral of_int_power)
qed

text \<open>The exponent leaves a significand of 53 bits.\<close>

lemma exponent_bounds:
  assumes "0 < n" "0 < d"
  shows "2 powr (52 + real_of_int (exponent n d)) \<le> real_of_int n / real_of_int d"
    and "real_of_int n / real_of_int d < 2 powr (53 + real_of_int (exponent n d))"
proof -
  let ?x = "real_of_int n / real_of_int d"
  let ?e = "bitlen n - bitlen d - 53"
  obtain p q where pq: "scaled n d ?e = (p, q)" by fastforce
  note s = scaled_quotient [OF pq assms(2)]
  have "2 powr (real_of_int (bitlen n) - 1) / 2 powr real_of_int (bitlen d) \<le> ?x"
    using bitlen_powr [OF assms(1)] bitlen_powr [OF assms(2)] assms by (intro frac_le) auto
  then have low: "2 powr (52 + real_of_int ?e) \<le> ?x" by (simp add: algebra_simps flip: powr_diff)
  have "?x < 2 powr real_of_int (bitlen n) / 2 powr (real_of_int (bitlen d) - 1)"
    using bitlen_powr [OF assms(1)] bitlen_powr [OF assms(2)] assms by (intro frac_less) auto
  then have high: "?x < 2 powr (54 + real_of_int ?e)" by (simp add: algebra_simps flip: powr_diff)
  have cut: "p < 2 ^ 53 * q \<longleftrightarrow> ?x < 2 powr (53 + real_of_int ?e)"
  proof -
    have "p < 2 ^ 53 * q \<longleftrightarrow> real_of_int p / real_of_int q < 2 ^ 53" using s(1)
      by (subst of_int_less_iff [where ?'a = real, symmetric]) (simp add: divide_less_eq)
    also have "\<dots> \<longleftrightarrow> ?x / 2 powr real_of_int ?e < 2 ^ 53" by (simp only: s(2))
    also have "\<dots> \<longleftrightarrow> ?x < 2 ^ 53 * 2 powr real_of_int ?e" by (rule pos_divide_less_eq) simp
    also have "2 ^ 53 * 2 powr real_of_int ?e = 2 powr (53 + real_of_int ?e)" unfolding powr_add by simp
    finally show ?thesis .
  qed
  have ex: "exponent n d = (if p < 2 ^ 53 * q then ?e else ?e + 1)" by (simp add: exponent_def Let_def pq)
  show "2 powr (52 + real_of_int (exponent n d)) \<le> ?x" "?x < 2 powr (53 + real_of_int (exponent n d))"
    using low high cut unfolding ex by (auto simp: algebra_simps)
qed

lemma exponent_unique:
  assumes "0 < n" "0 < d" "2 ^ 52 * d \<le> n * 2 ^ k" "n * 2 ^ k < 2 ^ 53 * d"
  shows "exponent n d = - int k"
proof -
  let ?x = "real_of_int n / real_of_int d"
  have p: "2 powr (52 + real_of_int (- int k)) = 2 ^ 52 / 2 ^ k" "2 powr (53 + real_of_int (- int k)) = 2 ^ 53 / 2 ^ k"
    by (simp_all add: powr_diff powr_realpow)
  have "real_of_int (2 ^ 52 * d) \<le> real_of_int (n * 2 ^ k)" "real_of_int (n * 2 ^ k) < real_of_int (2 ^ 53 * d)"
    using assms(3,4) by linarith+
  then have "2 powr (52 + real_of_int (- int k)) \<le> ?x" "?x < 2 powr (53 + real_of_int (- int k))"
    unfolding p using assms(1,2) by (simp_all add: field_simps)
  then have "52 + exponent n d = 52 + - int k"
    using exponent_bounds [OF assms(1,2)] by (intro two_powr_unique [of _ ?x]) (simp_all add: algebra_simps)
  then show ?thesis by simp
qed

lemma round_unique:
  assumes "0 < n" "0 < d" "2 ^ 52 * d \<le> n * 2 ^ k" "n * 2 ^ k < 2 ^ 53 * d" "0 < k"
  shows "round_quotient n d = (nearest (n * 2 ^ k) d, - int k)"
  using assms exponent_unique [OF assms(1-4)] by (simp add: round_quotient_def round_pos_def Let_def scaled_def)

lemma nearest_close:
  assumes "0 < d"
  shows "2 * \<bar>nearest n d * d - n\<bar> \<le> d"
proof -
  have q: "n - n div d * d = n mod d" by (simp add: minus_mult_div_eq_mod [symmetric] mult.commute)
  have r: "0 \<le> n mod d" "n mod d < d" using assms by simp_all
  consider "nearest n d = n div d" "2 * (n mod d) \<le> d" | "nearest n d = n div d + 1" "d \<le> 2 * (n mod d)"
    by (cases "2 * (n mod d) < d"; cases "2 * (n mod d) > d"; cases "even (n div d)") (auto simp: nearest_def Let_def)
  then show ?thesis
  proof cases
    case 1
    then have "nearest n d * d - n = - (n mod d)" using q by simp
    then show ?thesis using 1 r by simp
  next
    case 2
    then have "nearest n d * d - n = d - n mod d" using q by (simp add: distrib_right)
    then show ?thesis using 2 r by simp
  qed
qed

lemma nearest_only:
  assumes "0 < d" "2 * \<bar>m * d - n\<bar> < d"
  shows "nearest n d = m"
proof -
  have "\<bar>nearest n d * d - m * d\<bar> \<le> \<bar>nearest n d * d - n\<bar> + \<bar>m * d - n\<bar>" by simp
  then have "\<bar>nearest n d * d - m * d\<bar> < d" using nearest_close [OF assms(1), of n] assms(2) by simp
  moreover have "\<bar>nearest n d * d - m * d\<bar> = \<bar>nearest n d - m\<bar> * d" using assms(1) by (simp add: abs_mult flip: left_diff_distrib)
  ultimately have "\<bar>nearest n d - m\<bar> * d < 1 * d" by simp
  then have "\<bar>nearest n d - m\<bar> < 1" using assms(1) by (simp only: mult_less_cancel_right_pos)
  then show ?thesis by simp
qed

text \<open>Between the powers of two a time in milliseconds is off by too little to matter.\<close>

lemma millis_are_kept:
  assumes "2 ^ 40 < ms" "ms < 2 ^ 31 * 1000"
  shows "millis_of_micros (1000 * ms) = ms"
proof -
  define m where "m = nearest (1000 * ms * 2 ^ 22) 1000000"
  have first: "round_quotient (1000 * ms) 1000000 = (m, - 22)"
    unfolding m_def using assms by (subst round_unique [of _ _ 22]) simp_all
  have "2 * \<bar>m * 1000000 - 1000 * ms * 2 ^ 22\<bar> \<le> 1000000" unfolding m_def by (rule nearest_close) simp
  then have close: "2 * \<bar>m * 1000 - ms * 2 ^ 22\<bar> \<le> 1000" by simp
  have second: "round_quotient (m * 1000) (2 ^ 22) = (nearest (m * 1000 * 2 ^ 12) (2 ^ 22), - 12)"
    using close assms by (subst round_unique [of _ _ 12]) simp_all
  also have "nearest (m * 1000 * 2 ^ 12) (2 ^ 22) = ms * 2 ^ 12" using close by (intro nearest_only) simp_all
  finally have "times_int (m, - 22) 1000 = (ms * 2 ^ 12, - 12)" by (simp add: times_int_def)
  then show ?thesis using assms by (simp add: millis_of_micros_def first truncated_def sgn_if)
qed

text \<open>From 19 January 2038 until September 2039 it is not: a quarter of the milliseconds come back one less.\<close>

lemma millis_are_lost: "millis_of_micros (1000 * 2147483648002) = 2147483648001"
  by code_simp

end
