(* ===== verification/Daruk.thy ===== *)
theory Daruk
  imports Effects Json Text_Lines Doubles
begin

text \<open>
  The database gateway (\<open>src/daruk.py\<close>): the table \<open>LWT_OPS\<close> of compare-and-swap endpoints, the binding of a request to
  the values of an operation (\<open>_coerce\<close>, \<open>_bind_lwt\<close>), the reading of a conditional answer (\<open>_split_lwt_result\<close>,
  \<open>make_serializable\<close>), and the handler: \<open>handle_lwt\<close> and the \<open>/query\<close> path of \<open>do_POST\<close> with its retry. A statement of the
  table is kept by its parts; \<open>lwt_text\<close> prints it, and \<open>lwt_texts\<close> compares the print with the source. The driver's session and
  the body of a request as JSON are effects of the environment; the HTTP server, connecting and the printed lines are left out.
\<close>

section \<open>Statements\<close>

datatype cond = Is string | Is_Not string

datatype lwt_stmt =
    L_Update string bool "string list" "string list" "cond list"
  | L_Insert string "string list" bool
  | L_Delete string "string list" "cond list"

definition cond_text :: "cond \<Rightarrow> string" where
  "cond_text c = (case c of Is a \<Rightarrow> a @ '' = ?'' | Is_Not a \<Rightarrow> a @ '' != ?'')"

definition eq_text :: "string \<Rightarrow> string" where
  "eq_text a = a @ '' = ?''"

definition ttl_text :: "bool \<Rightarrow> string" where
  "ttl_text b = (if b then '' USING TTL ?'' else [])"

definition lwt_text :: "lwt_stmt \<Rightarrow> string" where
  "lwt_text st =
     (case st of
        L_Update t ttl sets ks cs \<Rightarrow>
          ''UPDATE '' @ t @ ttl_text ttl @ '' SET '' @ join '', '' (map eq_text sets)
            @ '' WHERE '' @ join '' AND '' (map eq_text ks) @ '' IF '' @ join '' AND '' (map cond_text cs)
      | L_Insert t cols ttl \<Rightarrow>
          ''INSERT INTO '' @ t @ '' ('' @ join '', '' cols @ '') VALUES ('' @ join '', '' (map (\<lambda>_. ''?'') cols)
            @ '') IF NOT EXISTS'' @ ttl_text ttl
      | L_Delete t ks cs \<Rightarrow>
          ''DELETE FROM '' @ t @ '' WHERE '' @ join '' AND '' (map eq_text ks) @ '' IF '' @ join '' AND '' (map cond_text cs))"

text \<open>What each placeholder of the text stands for, in order.\<close>

datatype slot = S_Ttl | S_Set string | S_Key string | S_Cond cond

definition slots :: "lwt_stmt \<Rightarrow> slot list" where
  "slots st =
     (case st of
        L_Update t ttl sets ks cs \<Rightarrow> (if ttl then [S_Ttl] else []) @ map S_Set sets @ map S_Key ks @ map S_Cond cs
      | L_Insert t cols ttl \<Rightarrow> map S_Set cols @ (if ttl then [S_Ttl] else [])
      | L_Delete t ks cs \<Rightarrow> map S_Key ks @ map S_Cond cs)"

section \<open>Operations\<close>

datatype ptype = P_Text | P_Int | P_Bool | P_List

record param_spec =
  ps_type :: ptype
  ps_required :: bool
  ps_nullable :: bool
  ps_default :: jval

definition needed :: "ptype \<Rightarrow> param_spec" where
  "needed ty = \<lparr>ps_type = ty, ps_required = True, ps_nullable = False, ps_default = J_Null\<rparr>"

definition needed_or_null :: "ptype \<Rightarrow> param_spec" where
  "needed_or_null ty = \<lparr>ps_type = ty, ps_required = True, ps_nullable = True, ps_default = J_Null\<rparr>"

definition optional :: "ptype \<Rightarrow> jval \<Rightarrow> param_spec" where
  "optional ty d = \<lparr>ps_type = ty, ps_required = False, ps_nullable = False, ps_default = d\<rparr>"

definition optional_or_null :: "ptype \<Rightarrow> jval \<Rightarrow> param_spec" where
  "optional_or_null ty d = \<lparr>ps_type = ty, ps_required = False, ps_nullable = True, ps_default = d\<rparr>"

record lwt_op =
  op_cql :: lwt_stmt
  op_binds :: "string list"
  op_fixed :: "(string \<times> jval) list"
  op_params :: "(string \<times> param_spec) list"

definition lwt_vm_claim :: lwt_op where
  "lwt_vm_claim =
     \<lparr>op_cql = L_Update ''hydra.vms'' False [''host_ip'', ''state''] [''name''] [Is ''host_ip''],
      op_binds = [''host_ip'', ''state'', ''name'', ''expected_host_ip''],
      op_fixed = [],
      op_params = [(''name'', needed P_Text), (''host_ip'', needed P_Text),
                   (''expected_host_ip'', optional_or_null P_Text (J_Str '''')), (''state'', optional P_Text (J_Str ''Running''))]\<rparr>"

definition lwt_vm_release :: lwt_op where
  "lwt_vm_release =
     \<lparr>op_cql = L_Update ''hydra.vms'' False [''host_ip'', ''state''] [''name''] [Is ''host_ip''],
      op_binds = [''released_host_ip'', ''state'', ''name'', ''expected_host_ip''],
      op_fixed = [(''released_host_ip'', J_Str '''')],
      op_params = [(''name'', needed P_Text), (''expected_host_ip'', needed_or_null P_Text),
                   (''state'', optional P_Text (J_Str ''Stopped''))]\<rparr>"

definition lwt_vm_set_state :: lwt_op where
  "lwt_vm_set_state =
     \<lparr>op_cql = L_Update ''hydra.vms'' False [''state''] [''name''] [Is ''host_ip''],
      op_binds = [''state'', ''name'', ''expected_host_ip''],
      op_fixed = [],
      op_params = [(''name'', needed P_Text), (''state'', needed P_Text), (''expected_host_ip'', needed_or_null P_Text)]\<rparr>"

definition lwt_vm_migrate_lock :: lwt_op where
  "lwt_vm_migrate_lock =
     \<lparr>op_cql = L_Update ''hydra.vms'' False [''status''] [''name''] [Is_Not ''status''],
      op_binds = [''lock'', ''name'', ''lock''],
      op_fixed = [(''lock'', J_Str ''migrating'')],
      op_params = [(''name'', needed P_Text)]\<rparr>"

definition lwt_vm_migrate_unlock :: lwt_op where
  "lwt_vm_migrate_unlock =
     \<lparr>op_cql = L_Update ''hydra.vms'' False [''status''] [''name''] [Is ''status''],
      op_binds = [''status'', ''name'', ''lock''],
      op_fixed = [(''lock'', J_Str ''migrating'')],
      op_params = [(''name'', needed P_Text), (''status'', optional P_Text (J_Str ''running''))]\<rparr>"

definition lwt_vm_migrate_commit :: lwt_op where
  "lwt_vm_migrate_commit =
     \<lparr>op_cql = L_Update ''hydra.vms'' False [''host_ip'', ''status''] [''name''] [Is ''host_ip'', Is ''status''],
      op_binds = [''host_ip'', ''status'', ''name'', ''expected_host_ip'', ''lock''],
      op_fixed = [(''lock'', J_Str ''migrating'')],
      op_params = [(''name'', needed P_Text), (''host_ip'', needed P_Text), (''expected_host_ip'', needed_or_null P_Text),
                   (''status'', optional P_Text (J_Str ''running''))]\<rparr>"

definition lwt_vm_create :: lwt_op where
  "lwt_vm_create =
     \<lparr>op_cql = L_Insert ''hydra.vms'' [''name'', ''vcpu'', ''memory'', ''disk_path'', ''disk_size'', ''state'', ''host_ip'', ''disks_list'', ''firmware'', ''iso'', ''boot_device'', ''network_id'', ''cpu_model'', ''audio_enabled'', ''status'', ''graphics''] False,
      op_binds = [''name'', ''vcpu'', ''memory'', ''disk_path'', ''disk_size'', ''state'', ''host_ip'', ''disks_list'',
                  ''firmware'', ''iso'', ''boot_device'', ''network_id'', ''cpu_model'', ''audio_enabled'', ''status'',
                  ''graphics''],
      op_fixed = [],
      op_params = [(''name'', needed P_Text), (''vcpu'', optional P_Int (J_Num 1)), (''memory'', optional P_Int (J_Num 1024)),
                   (''disk_path'', optional P_Text (J_Str '''')), (''disk_size'', optional P_Int (J_Num 0)),
                   (''state'', optional P_Text (J_Str ''Stopped'')), (''host_ip'', optional P_Text (J_Str '''')),
                   (''disks_list'', optional P_Text (J_Str ''NONE'')), (''firmware'', optional P_Text (J_Str ''uefi'')),
                   (''iso'', optional P_Text (J_Str '''')), (''boot_device'', optional P_Text (J_Str '''')),
                   (''network_id'', optional P_Text (J_Str '''')), (''cpu_model'', optional P_Text (J_Str '''')),
                   (''audio_enabled'', optional P_Bool (J_Bool False)), (''status'', optional_or_null P_Text J_Null),
                   (''graphics'', optional P_Text (J_Str ''vnc''))]\<rparr>"

definition lwt_schedule_claim_job :: lwt_op where
  "lwt_schedule_claim_job =
     \<lparr>op_cql = L_Update ''hydra.dagur_schedules'' False [''last_run_epoch''] [''job_name''] [Is ''last_run_epoch''],
      op_binds = [''last_run_epoch'', ''job_name'', ''expected_last_run_epoch''],
      op_fixed = [],
      op_params = [(''job_name'', needed P_Text), (''last_run_epoch'', needed P_Int),
                   (''expected_last_run_epoch'', needed_or_null P_Int)]\<rparr>"

definition lwt_catalyst_claim_sequence :: lwt_op where
  "lwt_catalyst_claim_sequence =
     \<lparr>op_cql = L_Update ''hydra.catalyst_task_sequence'' False [''next_sequence_id''] [''component''] [Is ''next_sequence_id''],
      op_binds = [''next_sequence_id'', ''component'', ''expected_sequence_id''],
      op_fixed = [],
      op_params = [(''component'', needed P_Text), (''next_sequence_id'', needed P_Int),
                   (''expected_sequence_id'', needed_or_null P_Int)]\<rparr>"

definition lwt_schedule_claim_check :: lwt_op where
  "lwt_schedule_claim_check =
     \<lparr>op_cql = L_Update ''hydra.mimir_schedules'' False [''last_run_epoch''] [''schedule_name''] [Is ''last_run_epoch''],
      op_binds = [''last_run_epoch'', ''schedule_name'', ''expected_last_run_epoch''],
      op_fixed = [],
      op_params = [(''schedule_name'', needed P_Text), (''last_run_epoch'', needed P_Int),
                   (''expected_last_run_epoch'', needed_or_null P_Int)]\<rparr>"

definition lwt_node_maintenance :: lwt_op where
  "lwt_node_maintenance =
     \<lparr>op_cql = L_Update ''hydra.nodes'' False [''status'', ''maintenance_mode''] [''hostname''] [Is ''status''],
      op_binds = [''status'', ''maintenance_mode'', ''hostname'', ''expected_status''],
      op_fixed = [],
      op_params = [(''hostname'', needed P_Text), (''status'', needed P_Text), (''maintenance_mode'', needed P_Bool),
                   (''expected_status'', needed_or_null P_Text)]\<rparr>"

definition lwt_lock_acquire :: lwt_op where
  "lwt_lock_acquire =
     \<lparr>op_cql = L_Insert ''hydra.cluster_locks'' [''name'', ''holder'', ''holder_token'', ''reason'', ''acquired_at_ms''] True,
      op_binds = [''name'', ''holder'', ''holder_token'', ''reason'', ''acquired_at_ms'', ''ttl_seconds''],
      op_fixed = [],
      op_params = [(''name'', needed P_Text), (''holder'', needed P_Text), (''holder_token'', needed P_Text),
                   (''reason'', optional P_Text (J_Str '''')), (''acquired_at_ms'', needed P_Int), (''ttl_seconds'', needed P_Int)]\<rparr>"

definition lwt_lock_renew :: lwt_op where
  "lwt_lock_renew =
     \<lparr>op_cql = L_Update ''hydra.cluster_locks'' True [''holder'', ''holder_token'', ''reason'', ''acquired_at_ms''] [''name''] [Is ''holder_token''],
      op_binds = [''ttl_seconds'', ''holder'', ''holder_token'', ''reason'', ''acquired_at_ms'', ''name'', ''holder_token''],
      op_fixed = [],
      op_params = [(''name'', needed P_Text), (''holder'', needed P_Text), (''holder_token'', needed P_Text),
                   (''reason'', optional P_Text (J_Str '''')), (''acquired_at_ms'', needed P_Int), (''ttl_seconds'', needed P_Int)]\<rparr>"

definition lwt_lock_release :: lwt_op where
  "lwt_lock_release =
     \<lparr>op_cql = L_Delete ''hydra.cluster_locks'' [''name''] [Is ''holder_token''],
      op_binds = [''name'', ''holder_token''],
      op_fixed = [],
      op_params = [(''name'', needed P_Text), (''holder_token'', needed P_Text)]\<rparr>"

definition lwt_network_claim_vlan :: lwt_op where
  "lwt_network_claim_vlan =
     \<lparr>op_cql = L_Insert ''hydra.gatoway_vlan_claims'' [''vlan_id'', ''net_id'', ''name'', ''claimed_at_ms''] False,
      op_binds = [''vlan_id'', ''net_id'', ''name'', ''claimed_at_ms''],
      op_fixed = [],
      op_params = [(''vlan_id'', needed P_Int), (''net_id'', needed P_Text), (''name'', optional P_Text (J_Str '''')),
                   (''claimed_at_ms'', needed P_Int)]\<rparr>"

definition lwt_network_release_vlan :: lwt_op where
  "lwt_network_release_vlan =
     \<lparr>op_cql = L_Delete ''hydra.gatoway_vlan_claims'' [''vlan_id''] [Is ''net_id''],
      op_binds = [''vlan_id'', ''net_id''],
      op_fixed = [],
      op_params = [(''vlan_id'', needed P_Int), (''net_id'', needed P_Text)]\<rparr>"

definition lwt_network_reclaim_vlan :: lwt_op where
  "lwt_network_reclaim_vlan =
     \<lparr>op_cql = L_Update ''hydra.gatoway_vlan_claims'' False [''net_id'', ''name'', ''claimed_at_ms''] [''vlan_id''] [Is ''net_id''],
      op_binds = [''net_id'', ''name'', ''claimed_at_ms'', ''vlan_id'', ''expected_net_id''],
      op_fixed = [],
      op_params = [(''vlan_id'', needed P_Int), (''net_id'', needed P_Text), (''name'', optional P_Text (J_Str '''')),
                   (''claimed_at_ms'', needed P_Int), (''expected_net_id'', needed_or_null P_Text)]\<rparr>"

definition lwt_dfs_vdisk_create :: lwt_op where
  "lwt_dfs_vdisk_create =
     \<lparr>op_cql = L_Insert ''hydra.dfs_vdisks'' [''vdisk_id'', ''container'', ''size_bytes'', ''class'', ''owner'', ''epoch'', ''drain_seq'', ''extent_bytes'', ''egroup_bytes'', ''created_at_ms'', ''replicas'', ''rf'', ''parent_vdisk''] False,
      op_binds = [''vdisk_id'', ''container'', ''size_bytes'', ''class'', ''owner'', ''epoch'', ''drain_seq'', ''extent_bytes'',
                  ''egroup_bytes'', ''created_at_ms'', ''replicas'', ''rf'', ''parent_vdisk''],
      op_fixed = [],
      op_params = [(''vdisk_id'', needed P_Text), (''container'', optional P_Text (J_Str ''default'')),
                   (''size_bytes'', needed P_Int), (''class'', optional P_Text (J_Str ''rw'')),
                   (''owner'', optional P_Text (J_Str '''')), (''epoch'', optional P_Int (J_Num 0)),
                   (''drain_seq'', optional P_Int (J_Num 0)), (''extent_bytes'', optional P_Int (J_Num 1048576)),
                   (''egroup_bytes'', optional P_Int (J_Num 4194304)), (''created_at_ms'', needed P_Int),
                   (''replicas'', needed P_List), (''rf'', optional P_Int (J_Num 1)),
                   (''parent_vdisk'', optional P_Text (J_Str ''''))]\<rparr>"

definition lwt_dfs_claim :: lwt_op where
  "lwt_dfs_claim =
     \<lparr>op_cql = L_Update ''hydra.dfs_vdisks'' False [''owner'', ''epoch''] [''vdisk_id''] [Is ''owner'', Is ''epoch''],
      op_binds = [''owner'', ''epoch'', ''vdisk_id'', ''expected_owner'', ''expected_epoch''],
      op_fixed = [],
      op_params = [(''vdisk_id'', needed P_Text), (''owner'', needed P_Text), (''epoch'', needed P_Int),
                   (''expected_owner'', needed_or_null P_Text), (''expected_epoch'', needed_or_null P_Int)]\<rparr>"

definition lwt_dfs_drain_commit :: lwt_op where
  "lwt_dfs_drain_commit =
     \<lparr>op_cql = L_Update ''hydra.dfs_vdisks'' False [''drain_seq''] [''vdisk_id''] [Is ''drain_seq'', Is ''epoch''],
      op_binds = [''drain_seq'', ''vdisk_id'', ''expected_drain_seq'', ''expected_epoch''],
      op_fixed = [],
      op_params = [(''vdisk_id'', needed P_Text), (''drain_seq'', needed P_Int), (''expected_drain_seq'', needed P_Int),
                   (''expected_epoch'', needed P_Int)]\<rparr>"

definition lwt_dfs_vdisk_resize :: lwt_op where
  "lwt_dfs_vdisk_resize =
     \<lparr>op_cql = L_Update ''hydra.dfs_vdisks'' False [''size_bytes''] [''vdisk_id''] [Is ''size_bytes''],
      op_binds = [''size_bytes'', ''vdisk_id'', ''expected_size_bytes''],
      op_fixed = [],
      op_params = [(''vdisk_id'', needed P_Text), (''size_bytes'', needed P_Int), (''expected_size_bytes'', needed P_Int)]\<rparr>"

definition lwt_dfs_set_replicas :: lwt_op where
  "lwt_dfs_set_replicas =
     \<lparr>op_cql = L_Update ''hydra.dfs_vdisks'' False [''replicas''] [''vdisk_id''] [Is ''replicas'', Is ''epoch''],
      op_binds = [''replicas'', ''vdisk_id'', ''expected_replicas'', ''expected_epoch''],
      op_fixed = [],
      op_params = [(''vdisk_id'', needed P_Text), (''replicas'', needed P_List), (''expected_replicas'', needed P_List),
                   (''expected_epoch'', needed P_Int)]\<rparr>"

definition lwt_dfs_egroup_create :: lwt_op where
  "lwt_dfs_egroup_create =
     \<lparr>op_cql = L_Insert ''hydra.dfs_egroups'' [''egroup_id'', ''state'', ''node'', ''path'', ''size'', ''seal_hash'', ''vdisk_hint'', ''created_at_ms''] False,
      op_binds = [''egroup_id'', ''state'', ''node'', ''path'', ''size'', ''seal_hash'', ''vdisk_hint'', ''created_at_ms''],
      op_fixed = [],
      op_params = [(''egroup_id'', needed P_Text), (''state'', optional P_Text (J_Str ''open'')), (''node'', needed P_Text),
                   (''path'', needed P_Text), (''size'', optional P_Int (J_Num 0)),
                   (''seal_hash'', optional P_Text (J_Str '''')), (''vdisk_hint'', optional P_Text (J_Str '''')),
                   (''created_at_ms'', needed P_Int)]\<rparr>"

definition lwt_dfs_vdisk_class :: lwt_op where
  "lwt_dfs_vdisk_class =
     \<lparr>op_cql = L_Update ''hydra.dfs_vdisks'' False [''class''] [''vdisk_id''] [Is ''class''],
      op_binds = [''class'', ''vdisk_id'', ''expected_class''],
      op_fixed = [],
      op_params = [(''vdisk_id'', needed P_Text), (''class'', needed P_Text), (''expected_class'', needed P_Text)]\<rparr>"

definition lwt_dfs_vdisk_seal :: lwt_op where
  "lwt_dfs_vdisk_seal =
     \<lparr>op_cql = L_Update ''hydra.dfs_vdisks'' False [''class''] [''vdisk_id''] [Is ''class''],
      op_binds = [''sealed_class'', ''vdisk_id'', ''expected_class''],
      op_fixed = [(''sealed_class'', J_Str ''immutable'')],
      op_params = [(''vdisk_id'', needed P_Text), (''expected_class'', optional P_Text (J_Str ''rw''))]\<rparr>"

definition lwt_dfs_egroup_state :: lwt_op where
  "lwt_dfs_egroup_state =
     \<lparr>op_cql = L_Update ''hydra.dfs_egroups'' False [''state'', ''seal_hash'', ''size''] [''egroup_id''] [Is ''state''],
      op_binds = [''state'', ''seal_hash'', ''size'', ''egroup_id'', ''expected_state''],
      op_fixed = [],
      op_params = [(''egroup_id'', needed P_Text), (''state'', needed P_Text), (''seal_hash'', optional P_Text (J_Str '''')),
                   (''size'', optional P_Int (J_Num 0)), (''expected_state'', needed P_Text)]\<rparr>"

definition lwt_dfs_block_map_repoint :: lwt_op where
  "lwt_dfs_block_map_repoint =
     \<lparr>op_cql = L_Update ''hydra.dfs_block_map'' False [''egroup_id'', ''egroup_offset''] [''vdisk_id'', ''extent_index''] [Is ''egroup_id'', Is ''egroup_offset'', Is ''length''],
      op_binds = [''egroup_id'', ''egroup_offset'', ''vdisk_id'', ''extent_index'', ''expected_egroup_id'',
                  ''expected_egroup_offset'', ''expected_length''],
      op_fixed = [],
      op_params = [(''vdisk_id'', needed P_Text), (''extent_index'', needed P_Int), (''egroup_id'', needed P_Text),
                   (''egroup_offset'', needed P_Int), (''expected_egroup_id'', needed P_Text),
                   (''expected_egroup_offset'', needed P_Int), (''expected_length'', needed P_Int)]\<rparr>"

definition lwt_dfs_extent_repoint :: lwt_op where
  "lwt_dfs_extent_repoint =
     \<lparr>op_cql = L_Update ''hydra.dfs_extent_id_map'' False [''egroup_id'', ''egroup_offset''] [''extent_id''] [Is ''egroup_id'', Is ''egroup_offset''],
      op_binds = [''egroup_id'', ''egroup_offset'', ''extent_id'', ''expected_egroup_id'', ''expected_egroup_offset''],
      op_fixed = [],
      op_params = [(''extent_id'', needed P_Text), (''egroup_id'', needed P_Text), (''egroup_offset'', needed P_Int),
                   (''expected_egroup_id'', needed P_Text), (''expected_egroup_offset'', needed P_Int)]\<rparr>"

definition lwt_ops :: "(string \<times> lwt_op) list" where
  "lwt_ops =
     [(''/v1/vm/claim'', lwt_vm_claim), (''/v1/vm/release'', lwt_vm_release), (''/v1/vm/set-state'', lwt_vm_set_state),
      (''/v1/vm/migrate-lock'', lwt_vm_migrate_lock), (''/v1/vm/migrate-unlock'', lwt_vm_migrate_unlock),
      (''/v1/vm/migrate-commit'', lwt_vm_migrate_commit), (''/v1/vm/create'', lwt_vm_create),
      (''/v1/schedule/claim-job'', lwt_schedule_claim_job), (''/v1/catalyst/claim-sequence'', lwt_catalyst_claim_sequence),
      (''/v1/schedule/claim-check'', lwt_schedule_claim_check), (''/v1/node/maintenance'', lwt_node_maintenance),
      (''/v1/lock/acquire'', lwt_lock_acquire), (''/v1/lock/renew'', lwt_lock_renew), (''/v1/lock/release'', lwt_lock_release),
      (''/v1/network/claim-vlan'', lwt_network_claim_vlan), (''/v1/network/release-vlan'', lwt_network_release_vlan),
      (''/v1/network/reclaim-vlan'', lwt_network_reclaim_vlan), (''/v1/dfs/vdisk-create'', lwt_dfs_vdisk_create),
      (''/v1/dfs/claim'', lwt_dfs_claim), (''/v1/dfs/drain-commit'', lwt_dfs_drain_commit),
      (''/v1/dfs/vdisk-resize'', lwt_dfs_vdisk_resize), (''/v1/dfs/set-replicas'', lwt_dfs_set_replicas),
      (''/v1/dfs/egroup-create'', lwt_dfs_egroup_create), (''/v1/dfs/vdisk-class'', lwt_dfs_vdisk_class),
      (''/v1/dfs/vdisk-seal'', lwt_dfs_vdisk_seal), (''/v1/dfs/egroup-state'', lwt_dfs_egroup_state),
      (''/v1/dfs/block-map-repoint'', lwt_dfs_block_map_repoint), (''/v1/dfs/extent-repoint'', lwt_dfs_extent_repoint)]"

lemma lwt_texts:
  "lwt_text (op_cql lwt_vm_claim) = ''UPDATE hydra.vms SET host_ip = ?, state = ? WHERE name = ? IF host_ip = ?''"
  "lwt_text (op_cql lwt_vm_release) = ''UPDATE hydra.vms SET host_ip = ?, state = ? WHERE name = ? IF host_ip = ?''"
  "lwt_text (op_cql lwt_vm_set_state) = ''UPDATE hydra.vms SET state = ? WHERE name = ? IF host_ip = ?''"
  "lwt_text (op_cql lwt_vm_migrate_lock) = ''UPDATE hydra.vms SET status = ? WHERE name = ? IF status != ?''"
  "lwt_text (op_cql lwt_vm_migrate_unlock) = ''UPDATE hydra.vms SET status = ? WHERE name = ? IF status = ?''"
  "lwt_text (op_cql lwt_vm_migrate_commit) = ''UPDATE hydra.vms SET host_ip = ?, status = ? WHERE name = ? IF host_ip = ? AND status = ?''"
  "lwt_text (op_cql lwt_vm_create) = ''INSERT INTO hydra.vms (name, vcpu, memory, disk_path, disk_size, state, host_ip, disks_list, firmware, iso, boot_device, network_id, cpu_model, audio_enabled, status, graphics) VALUES (?, ?, ?, ?, ?, ?, ?, ?, ?, ?, ?, ?, ?, ?, ?, ?) IF NOT EXISTS''"
  "lwt_text (op_cql lwt_schedule_claim_job) = ''UPDATE hydra.dagur_schedules SET last_run_epoch = ? WHERE job_name = ? IF last_run_epoch = ?''"
  "lwt_text (op_cql lwt_catalyst_claim_sequence) = ''UPDATE hydra.catalyst_task_sequence SET next_sequence_id = ? WHERE component = ? IF next_sequence_id = ?''"
  "lwt_text (op_cql lwt_schedule_claim_check) = ''UPDATE hydra.mimir_schedules SET last_run_epoch = ? WHERE schedule_name = ? IF last_run_epoch = ?''"
  "lwt_text (op_cql lwt_node_maintenance) = ''UPDATE hydra.nodes SET status = ?, maintenance_mode = ? WHERE hostname = ? IF status = ?''"
  "lwt_text (op_cql lwt_lock_acquire) = ''INSERT INTO hydra.cluster_locks (name, holder, holder_token, reason, acquired_at_ms) VALUES (?, ?, ?, ?, ?) IF NOT EXISTS USING TTL ?''"
  "lwt_text (op_cql lwt_lock_renew) = ''UPDATE hydra.cluster_locks USING TTL ? SET holder = ?, holder_token = ?, reason = ?, acquired_at_ms = ? WHERE name = ? IF holder_token = ?''"
  "lwt_text (op_cql lwt_lock_release) = ''DELETE FROM hydra.cluster_locks WHERE name = ? IF holder_token = ?''"
  "lwt_text (op_cql lwt_network_claim_vlan) = ''INSERT INTO hydra.gatoway_vlan_claims (vlan_id, net_id, name, claimed_at_ms) VALUES (?, ?, ?, ?) IF NOT EXISTS''"
  "lwt_text (op_cql lwt_network_release_vlan) = ''DELETE FROM hydra.gatoway_vlan_claims WHERE vlan_id = ? IF net_id = ?''"
  "lwt_text (op_cql lwt_network_reclaim_vlan) = ''UPDATE hydra.gatoway_vlan_claims SET net_id = ?, name = ?, claimed_at_ms = ? WHERE vlan_id = ? IF net_id = ?''"
  "lwt_text (op_cql lwt_dfs_vdisk_create) = ''INSERT INTO hydra.dfs_vdisks (vdisk_id, container, size_bytes, class, owner, epoch, drain_seq, extent_bytes, egroup_bytes, created_at_ms, replicas, rf, parent_vdisk) VALUES (?, ?, ?, ?, ?, ?, ?, ?, ?, ?, ?, ?, ?) IF NOT EXISTS''"
  "lwt_text (op_cql lwt_dfs_claim) = ''UPDATE hydra.dfs_vdisks SET owner = ?, epoch = ? WHERE vdisk_id = ? IF owner = ? AND epoch = ?''"
  "lwt_text (op_cql lwt_dfs_drain_commit) = ''UPDATE hydra.dfs_vdisks SET drain_seq = ? WHERE vdisk_id = ? IF drain_seq = ? AND epoch = ?''"
  "lwt_text (op_cql lwt_dfs_vdisk_resize) = ''UPDATE hydra.dfs_vdisks SET size_bytes = ? WHERE vdisk_id = ? IF size_bytes = ?''"
  "lwt_text (op_cql lwt_dfs_set_replicas) = ''UPDATE hydra.dfs_vdisks SET replicas = ? WHERE vdisk_id = ? IF replicas = ? AND epoch = ?''"
  "lwt_text (op_cql lwt_dfs_egroup_create) = ''INSERT INTO hydra.dfs_egroups (egroup_id, state, node, path, size, seal_hash, vdisk_hint, created_at_ms) VALUES (?, ?, ?, ?, ?, ?, ?, ?) IF NOT EXISTS''"
  "lwt_text (op_cql lwt_dfs_vdisk_class) = ''UPDATE hydra.dfs_vdisks SET class = ? WHERE vdisk_id = ? IF class = ?''"
  "lwt_text (op_cql lwt_dfs_vdisk_seal) = ''UPDATE hydra.dfs_vdisks SET class = ? WHERE vdisk_id = ? IF class = ?''"
  "lwt_text (op_cql lwt_dfs_egroup_state) = ''UPDATE hydra.dfs_egroups SET state = ?, seal_hash = ?, size = ? WHERE egroup_id = ? IF state = ?''"
  "lwt_text (op_cql lwt_dfs_block_map_repoint) = ''UPDATE hydra.dfs_block_map SET egroup_id = ?, egroup_offset = ? WHERE vdisk_id = ? AND extent_index = ? IF egroup_id = ? AND egroup_offset = ? AND length = ?''"
  "lwt_text (op_cql lwt_dfs_extent_repoint) = ''UPDATE hydra.dfs_extent_id_map SET egroup_id = ?, egroup_offset = ? WHERE extent_id = ? IF egroup_id = ? AND egroup_offset = ?''"
  by code_simp+

section \<open>Binding a request\<close>

definition has_type :: "ptype \<Rightarrow> jval \<Rightarrow> bool" where
  "has_type ty v =
     (case ty of
        P_Text \<Rightarrow> (case v of J_Str _ \<Rightarrow> True | _ \<Rightarrow> False)
      | P_Int \<Rightarrow> (case v of J_Num _ \<Rightarrow> True | _ \<Rightarrow> False)
      | P_Bool \<Rightarrow> (case v of J_Bool _ \<Rightarrow> True | _ \<Rightarrow> False)
      | P_List \<Rightarrow> (case v of J_List vs \<Rightarrow> list_all (\<lambda>x. case x of J_Str _ \<Rightarrow> True | _ \<Rightarrow> False) vs | _ \<Rightarrow> False))"

definition coerce_error :: "ptype \<Rightarrow> jval \<Rightarrow> string" where
  "coerce_error ty v =
     (case ty of
        P_Text \<Rightarrow> ''must be a string''
      | P_Int \<Rightarrow> ''must be an integer''
      | P_Bool \<Rightarrow> ''must be a boolean''
      | P_List \<Rightarrow> (case v of J_List _ \<Rightarrow> ''must contain only strings'' | _ \<Rightarrow> ''must be a list''))"

definition coerce :: "string \<Rightarrow> string \<Rightarrow> param_spec \<Rightarrow> jval \<Rightarrow> string + jval" where
  "coerce path key spec v =
     (let complain = (\<lambda>what. Inl (path @ '': parameter '' @ quoted key @ '' '' @ what))
      in if v = J_Null then (if ps_nullable spec then Inr J_Null else complain ''may not be null'')
         else if has_type (ps_type spec) v then Inr v
         else complain (coerce_error (ps_type spec) v))"

fun bind_values :: "string \<Rightarrow> (string \<times> jval) list \<Rightarrow> (string \<times> param_spec) list \<Rightarrow> (string \<times> jval) list \<Rightarrow>
    string + (string \<times> jval) list" where
  "bind_values path params [] values = Inr values"
| "bind_values path params ((key, spec) # specs) values =
     (case map_of params key of
        Some v \<Rightarrow> (case coerce path key spec v of
            Inl e \<Rightarrow> Inl e
          | Inr x \<Rightarrow> bind_values path params specs (dict_set key x values))
      | None \<Rightarrow>
          if ps_required spec then Inl (path @ '': parameter '' @ quoted key @ '' is required'')
          else bind_values path params specs (dict_set key (ps_default spec) values))"

text \<open>An operation whose binds name something undeclared would raise a \<open>KeyError\<close>; \<open>lwt_ops_well_formed\<close> shows there is none.\<close>

definition value_at :: "(string \<times> jval) list \<Rightarrow> string \<Rightarrow> jval" where
  "value_at values name = (case map_of values name of Some v \<Rightarrow> v | None \<Rightarrow> J_Null)"

definition bind_lwt :: "string \<Rightarrow> lwt_op \<Rightarrow> jval \<Rightarrow> string + jval list" where
  "bind_lwt path op body =
     (case body of
        J_Dict params \<Rightarrow>
          (let unknown = sort (filter (\<lambda>k. map_of (op_params op) k = None) (remdups (map fst params)))
           in if unknown \<noteq> [] then Inl (path @ '': unknown parameter(s): '' @ join '', '' unknown)
              else (case bind_values path params (op_params op) (op_fixed op) of
                  Inl e \<Rightarrow> Inl e
                | Inr values \<Rightarrow> Inr (map (value_at values) (op_binds op))))
      | _ \<Rightarrow> Inl (path @ '': request body must be a JSON object of parameters''))"

section \<open>Reading the answer\<close>

text \<open>
  What the driver returns for a column. A time is in microseconds since 1970, UTC when it had no zone; floats and decimals are left out.
\<close>

datatype dval =
    V_Null | V_Bool bool | V_Num int | V_Str string | V_List "dval list" | V_Dict "(string \<times> dval) list"
  | V_Uuid string | V_Datetime int | V_Iso string | V_Timedelta int | V_Bytes "nat list" | V_Ip string

definition hex_digit_pair :: "nat \<Rightarrow> string" where
  "hex_digit_pair b = [hex_char (b div 16), hex_char (b mod 16)]"

fun make_serializable :: "dval \<Rightarrow> jval" where
  "make_serializable V_Null = J_Null"
| "make_serializable (V_Bool b) = J_Bool b"
| "make_serializable (V_Num n) = J_Num n"
| "make_serializable (V_Str s) = J_Str s"
| "make_serializable (V_List vs) = J_List (map make_serializable vs)"
| "make_serializable (V_Dict d) = J_Dict (map (\<lambda>(k, v). (k, make_serializable v)) d)"
| "make_serializable (V_Uuid s) = J_Str s"
| "make_serializable (V_Datetime us) = J_Num (millis_of_micros us)"
| "make_serializable (V_Iso s) = J_Str s"
| "make_serializable (V_Timedelta us) = J_Num (millis_of_micros us)"
| "make_serializable (V_Bytes bs) = J_Str (concat (map hex_digit_pair bs))"
| "make_serializable (V_Ip s) = J_Str s"

record rows =
  rs_names :: "string list"
  rs_rows :: "dval list list"

definition truthy_dval :: "dval \<Rightarrow> bool" where
  "truthy_dval v =
     (case v of
        V_Null \<Rightarrow> False | V_Bool b \<Rightarrow> b | V_Num n \<Rightarrow> n \<noteq> 0 | V_Str s \<Rightarrow> s \<noteq> [] | V_List vs \<Rightarrow> vs \<noteq> [] | V_Dict d \<Rightarrow> d \<noteq> []
      | V_Bytes bs \<Rightarrow> bs \<noteq> [] | V_Timedelta n \<Rightarrow> n \<noteq> 0 | _ \<Rightarrow> True)"

definition applied_column :: string where "applied_column = ''[applied]''"

text \<open>A row shorter than one value raises an \<open>IndexError\<close> on its first.\<close>

definition split_lwt_result :: "rows \<Rightarrow> string + bool \<times> (string \<times> jval) list" where
  "split_lwt_result r =
     (if rs_names r = [] \<or> hd (rs_names r) \<noteq> applied_column
      then Inl ''statement did not execute as a lightweight transaction: no [applied] column''
      else (case rs_rows r of
          [row] \<Rightarrow>
            (case row of
               [] \<Rightarrow> Inl ''tuple index out of range''
             | v # vs \<Rightarrow> Inr (truthy_dval v, dict_update [] (zip (tl (rs_names r)) (map make_serializable vs))))
        | rs \<Rightarrow> Inl (''lightweight transaction returned '' @ show_nat (length rs) @ '' rows, expected 1'')))"

section \<open>The handler\<close>

text \<open>A failure of the driver: whether it is one of availability, and its text.\<close>

record failure =
  fl_degradable :: bool
  fl_text :: string

record 'w daruk_env =
  dk_execute :: "lwt_stmt \<Rightarrow> jval list \<Rightarrow> 'w \<Rightarrow> (string + rows) \<times> 'w"
  dk_query :: "string \<Rightarrow> bool \<Rightarrow> 'w \<Rightarrow> (failure + rows) \<times> 'w"

datatype daruk_event =
    Bound lwt_stmt "jval list"
  | Ran_Query string bool "failure option"

datatype response =
    Bad string
  | Swapped bool "(string \<times> jval) list"
  | Result_Rows "jval list"
  | Not_Found

definition handle_lwt :: "'w daruk_env \<Rightarrow> string \<Rightarrow> lwt_op \<Rightarrow> string + jval \<Rightarrow> ('w, daruk_event, response) eff" where
  "handle_lwt env path op body =
     (case body of
        Inl e \<Rightarrow> ret (Bad e)
      | Inr b \<Rightarrow>
          (case bind_lwt path op b of
             Inl e \<Rightarrow> ret (Bad e)
           | Inr binds \<Rightarrow> do {
               result \<leftarrow> act (dk_execute env (op_cql op) binds) (\<lambda>_. Bound (op_cql op) binds);
               ret (case result of
                      Inl e \<Rightarrow> Bad e
                    | Inr rows \<Rightarrow>
                        (case split_lwt_result rows of
                           Inl e \<Rightarrow> Bad e
                         | Inr (applied, current) \<Rightarrow> Swapped applied (if applied then [] else current))) }))"

definition is_lwt :: "string \<Rightarrow> bool" where
  "is_lwt statement \<longleftrightarrow> contains (lower statement) '' if '' \<or> ends_with (rev (dropWhile is_ws (rev (lower statement)))) '' if exists''"

definition is_read :: "string \<Rightarrow> bool" where
  "is_read statement \<longleftrightarrow> starts_with (lower (dropWhile is_ws statement)) ''select''"

definition named_row :: "string list \<Rightarrow> dval list \<Rightarrow> dval" where
  "named_row names row =
     (if names \<noteq> [] \<and> length names = length row then V_Dict (dict_update [] (zip names row)) else V_List row)"

text \<open>Rows of another width than the column names, which the driver does not return, are given back as lists.\<close>

definition handle_query :: "'w daruk_env \<Rightarrow> string \<Rightarrow> ('w, daruk_event, response) eff" where
  "handle_query env statement = do {
     let answer = (\<lambda>r. Result_Rows (map (\<lambda>row. make_serializable (named_row (rs_names r) row)) (rs_rows r)));
     first \<leftarrow> act (dk_query env statement False) (\<lambda>r. Ran_Query statement False (case r of Inl f \<Rightarrow> Some f | Inr _ \<Rightarrow> None));
     case first of
       Inr r \<Rightarrow> ret (answer r)
     | Inl f \<Rightarrow>
         if \<not> fl_degradable f \<or> \<not> is_read statement \<or> is_lwt statement then ret (Bad (fl_text f))
         else do {
           again \<leftarrow> act (dk_query env statement True) (\<lambda>r. Ran_Query statement True (case r of Inl g \<Rightarrow> Some g | Inr _ \<Rightarrow> None));
           ret (case again of Inl g \<Rightarrow> Bad (fl_text g) | Inr r \<Rightarrow> answer r) } }"

text \<open>The body of a request: as JSON, an empty one being the empty object, for the operations; as text for \<open>/query\<close>.\<close>

definition do_post :: "'w daruk_env \<Rightarrow> string \<Rightarrow> string + jval \<Rightarrow> string \<Rightarrow> ('w, daruk_event, response) eff" where
  "do_post env path json body =
     (case map_of lwt_ops path of
        Some op \<Rightarrow> handle_lwt env path op json
      | None \<Rightarrow> if path = ''/query'' then handle_query env body else ret Not_Found)"

section \<open>Lemmas\<close>

text \<open>What the table of operations has to be for a request to be bound: checked entry by entry.\<close>

definition conditional :: "lwt_stmt \<Rightarrow> bool" where
  "conditional st = (case st of L_Update _ _ _ _ cs \<Rightarrow> cs \<noteq> [] | L_Insert _ _ _ \<Rightarrow> True | L_Delete _ _ cs \<Rightarrow> cs \<noteq> [])"

definition accepts :: "param_spec \<Rightarrow> jval \<Rightarrow> bool" where
  "accepts spec v = (if v = J_Null then ps_nullable spec else has_type (ps_type spec) v)"

definition op_ok :: "lwt_op \<Rightarrow> bool" where
  "op_ok op \<longleftrightarrow>
     length (op_binds op) = length (slots (op_cql op))
     \<and> conditional (op_cql op)
     \<and> list_all (\<lambda>b. b \<in> set (map fst (op_fixed op) @ map fst (op_params op))) (op_binds op)
     \<and> distinct (map fst (op_fixed op) @ map fst (op_params op))
     \<and> list_all (\<lambda>(_, spec). ps_required spec \<or> accepts spec (ps_default spec)) (op_params op)"

lemma lwt_ops_ok: "list_all (\<lambda>(_, op). op_ok op) lwt_ops"
  by code_simp

lemma lwt_ops_distinct: "distinct (map fst lwt_ops)"
  by code_simp

lemma op_of_table: "map_of lwt_ops path = Some op \<Longrightarrow> op_ok op"
  using lwt_ops_ok by (auto simp: list_all_iff dest: map_of_SomeD)

text \<open>The placeholders of a statement are those of its text.\<close>

definition holes :: "string \<Rightarrow> nat" where
  "holes s = length (filter (\<lambda>c. c = CHR ''?'') s)"

lemma lwt_ops_holes: "list_all (\<lambda>(_, op). holes (lwt_text (op_cql op)) = length (op_binds op)) lwt_ops"
  by code_simp

text \<open>Which requests an operation accepts, and the value each name then has.\<close>

definition given :: "(string \<times> jval) list \<Rightarrow> string \<times> param_spec \<Rightarrow> bool" where
  "given d ks = (case ks of (k, spec) \<Rightarrow> (case map_of d k of Some v \<Rightarrow> accepts spec v | None \<Rightarrow> \<not> ps_required spec))"

definition accepted :: "lwt_op \<Rightarrow> (string \<times> jval) list \<Rightarrow> bool" where
  "accepted op d \<longleftrightarrow>
     list_all (\<lambda>(k, _). map_of (op_params op) k \<noteq> None) d
     \<and> list_all (given d) (op_params op)"

definition named_value :: "lwt_op \<Rightarrow> (string \<times> jval) list \<Rightarrow> string \<Rightarrow> jval" where
  "named_value op d k =
     (case map_of (op_params op) k of
        Some spec \<Rightarrow> (case map_of d k of Some v \<Rightarrow> v | None \<Rightarrow> ps_default spec)
      | None \<Rightarrow> value_at (op_fixed op) k)"

definition bound_values :: "lwt_op \<Rightarrow> (string \<times> jval) list \<Rightarrow> jval list" where
  "bound_values op d = map (named_value op d) (op_binds op)"

lemma coerce_spec: "coerce path key spec v = Inr x \<longleftrightarrow> x = v \<and> accepts spec v"
  by (auto simp: coerce_def accepts_def Let_def)

lemma coerce_refused: "\<not> accepts spec v \<Longrightarrow> \<exists>e. coerce path key spec v = Inl e"
  by (auto simp: coerce_def accepts_def Let_def split: if_splits)

lemma bind_values_spec: "(\<exists>vs. bind_values path d specs vals = Inr vs) \<longleftrightarrow> list_all (given d) specs"
proof (induction specs arbitrary: vals)
  case (Cons ks specs)
  obtain k spec where ks: "ks = (k, spec)" by fastforce
  show ?case
  proof (cases "map_of d k")
    case (Some v)
    then show ?thesis
    proof (cases "accepts spec v")
      case True
      then have "coerce path k spec v = Inr v" by (simp add: coerce_spec)
      with Some True ks Cons.IH show ?thesis by (simp add: given_def)
    next
      case False
      with coerce_refused obtain e where "coerce path k spec v = Inl e" by blast
      with Some False ks show ?thesis by (simp add: given_def)
    qed
  qed (simp add: ks Cons.IH given_def)
qed simp

lemma bind_values_keeps:
  "bind_values path d specs vals = Inr vs \<Longrightarrow> k \<notin> fst ` set specs \<Longrightarrow> map_of vs k = map_of vals k"
  by (induction path d specs vals rule: bind_values.induct)
    (auto simp: coerce_spec map_of_dict_set split: option.splits sum.splits if_splits)

lemma bind_values_sets:
  "bind_values path d specs vals = Inr vs \<Longrightarrow> distinct (map fst specs) \<Longrightarrow> (k, spec) \<in> set specs \<Longrightarrow>
     map_of vs k = Some (case map_of d k of Some v \<Rightarrow> v | None \<Rightarrow> ps_default spec)"
proof (induction path d specs vals rule: bind_values.induct)
  case (2 path d key spec' specs vals)
  then show ?case
    by (auto simp: coerce_spec bind_values_keeps map_of_dict_set split: option.splits sum.splits if_splits)
qed simp

lemma unknown_none:
  "sort (filter (\<lambda>k. map_of ps k = None) (remdups (map fst d))) = [] \<longleftrightarrow> list_all (\<lambda>(k, _). map_of ps k \<noteq> None) d"
proof -
  let ?ks = "filter (\<lambda>k. map_of ps k = None) (remdups (map fst d))"
  have "sort ?ks = [] \<longleftrightarrow> ?ks = []" by (metis set_empty set_sort)
  also have "\<dots> \<longleftrightarrow> list_all (\<lambda>(k, _). map_of ps k \<noteq> None) d" by (auto simp: filter_empty_conv list_all_iff)
  finally show ?thesis .
qed

text \<open>A request is bound exactly when it is accepted, and to the values it names.\<close>

lemma bind_lwt_accepts:
  assumes "op_ok op"
  shows "bind_lwt path op (J_Dict d) = Inr vs \<longleftrightarrow> accepted op d \<and> vs = bound_values op d"
proof -
  have distinct: "distinct (map fst (op_params op))" "set (map fst (op_fixed op)) \<inter> set (map fst (op_params op)) = {}"
    using assms by (auto simp: op_ok_def)
  have same: "map (value_at vals) (op_binds op) = bound_values op d"
    if bound: "bind_values path d (op_params op) (op_fixed op) = Inr vals" for vals
  proof -
    have "value_at vals k = named_value op d k" for k
    proof (cases "map_of (op_params op) k")
      case None
      then have "k \<notin> fst ` set (op_params op)" by (simp add: map_of_eq_None_iff)
      with bind_values_keeps [OF bound] None show ?thesis by (simp add: value_at_def named_value_def)
    next
      case (Some spec)
      with bind_values_sets [OF bound distinct(1) map_of_SomeD [OF Some]] show ?thesis
        by (simp add: value_at_def named_value_def)
    qed
    then show ?thesis by (simp add: bound_values_def)
  qed
  show ?thesis
    using same bind_values_spec [of path d "op_params op" "op_fixed op"] unknown_none [of "op_params op" d]
    by (auto simp: bind_lwt_def accepted_def Let_def split: sum.splits)
qed

lemma bind_lwt_refuses:
  assumes "op_ok op" "\<not> (\<exists>d. b = J_Dict d \<and> accepted op d)"
  shows "\<exists>e. bind_lwt path op b = Inl e"
proof (cases "bind_lwt path op b")
  case (Inr vs)
  then obtain d where "b = J_Dict d" by (auto simp: bind_lwt_def split: jval.splits)
  with Inr bind_lwt_accepts [OF assms(1)] assms(2) show ?thesis by blast
qed simp

lemma bind_lwt_dict: "bind_lwt path op b = Inr vs \<Longrightarrow> \<exists>d. b = J_Dict d"
  by (auto simp: bind_lwt_def split: jval.splits)

text \<open>What a request to an operation may do: with an accepted body its own statement once, with its own values; otherwise nothing.\<close>

definition lwt_once :: "lwt_op \<Rightarrow> string + jval \<Rightarrow> response \<Rightarrow> daruk_event list \<Rightarrow> bool" where
  "lwt_once op json r es =
     (case json of
        Inr (J_Dict d) \<Rightarrow>
          if accepted op d then es = [Bound (op_cql op) (bound_values op d)] \<and> ((\<exists>e. r = Bad e) \<or> r = Swapped True [] \<or> (\<exists>c. r = Swapped False c))
          else es = [] \<and> (\<exists>e. r = Bad e)
      | _ \<Rightarrow> es = [] \<and> (\<exists>e. r = Bad e))"

text \<open>
  A statement of \<open>/query\<close> runs once; a second time, and then at the weaker consistency, only after a failure of availability of a
  statement that reads and has no condition.
\<close>

definition query_once :: "string \<Rightarrow> daruk_event list \<Rightarrow> bool" where
  "query_once statement es =
     (case es of
        [Ran_Query q False _] \<Rightarrow> q = statement
      | [Ran_Query q False (Some f), Ran_Query q' True _] \<Rightarrow>
          q = statement \<and> q' = statement \<and> fl_degradable f \<and> is_read statement \<and> \<not> is_lwt statement
      | _ \<Rightarrow> False)"

lemma handle_lwt_once:
  assumes "op_ok op"
  shows "yields (handle_lwt env path op json) (lwt_once op json)"
proof (cases json)
  case (Inl e)
  then show ?thesis by (auto simp: handle_lwt_def lwt_once_def intro: yields_ret)
next
  case json: (Inr b)
  show ?thesis
  proof (cases "\<exists>d. b = J_Dict d \<and> accepted op d")
    case True
    then obtain d where d: "b = J_Dict d" "accepted op d" by blast
    then have bound: "bind_lwt path op b = Inr (bound_values op d)" using bind_lwt_accepts [OF assms] by blast
    show ?thesis unfolding handle_lwt_def json sum.case bound
      by (intro yields_intros) (auto simp: lwt_once_def d split: sum.splits prod.splits)
  next
    case False
    with bind_lwt_refuses [OF assms] obtain e where "bind_lwt path op b = Inl e" by blast
    with json False show ?thesis by (auto simp: handle_lwt_def lwt_once_def intro!: yields_ret split: jval.splits)
  qed
qed

lemma handle_query_once: "yields (handle_query env statement) (\<lambda>_. query_once statement)"
  unfolding handle_query_def Let_def
  by (intro yields_intros) (auto simp: query_once_def split: sum.splits)

section \<open>Properties\<close>

text \<open>
  C30. No text of a request reaches a statement. A request to one of the compare-and-swap operations executes
  nothing but that operation's own statement, once, bound to the values the request names, and only when every parameter is known,
  every required one is there and each has its type; otherwise nothing is executed and the answer is an error. A refused swap is
  answered as such with what stands in the row. A statement given to \<open>/query\<close> runs once, and a second time at
  the weaker consistency only if it reads, has no condition, and the first attempt failed for want of replicas. Any other path does nothing.
\<close>

theorem requests_are_bound:
  "yields (do_post env path json body)
     (\<lambda>r es. case map_of lwt_ops path of
        Some op \<Rightarrow> lwt_once op json r es
      | None \<Rightarrow> if path = ''/query'' then query_once body es else es = [] \<and> r = Not_Found)"
proof (cases "map_of lwt_ops path")
  case (Some op)
  then show ?thesis by (simp add: do_post_def handle_lwt_once [OF op_of_table])
next
  case None
  then show ?thesis
    by (auto simp: do_post_def intro!: yields_ret yields_mono [OF handle_query_once])
qed

text \<open>
  C37. What is bound fits. For every operation of the table and every request it accepts, there is one value for each placeholder of the
  statement's text; each is a constant of the operation or has the type its parameter declares, null only where
  null is allowed; and every statement of the table has a condition.
\<close>

theorem bound_values_fit:
  assumes "map_of lwt_ops path = Some op" "bind_lwt path op body = Inr vs"
  shows "length vs = holes (lwt_text (op_cql op)) \<and> conditional (op_cql op)
    \<and> list_all2 (\<lambda>k v. case map_of (op_params op) k of Some spec \<Rightarrow> accepts spec v | None \<Rightarrow> (k, v) \<in> set (op_fixed op)) (op_binds op) vs"
proof -
  have ok: "op_ok op" by (rule op_of_table) (rule assms(1))
  obtain d where d: "body = J_Dict d" "accepted op d" "vs = bound_values op d"
    using assms(2) bind_lwt_accepts [OF ok] bind_lwt_dict by metis
  have len: "holes (lwt_text (op_cql op)) = length (op_binds op)"
    using lwt_ops_holes map_of_SomeD [OF assms(1)] by (auto simp: list_all_iff)
  have fits: "case map_of (op_params op) k of Some spec \<Rightarrow> accepts spec (named_value op d k) | None \<Rightarrow> (k, named_value op d k) \<in> set (op_fixed op)"
    if "k \<in> set (op_binds op)" for k
  proof (cases "map_of (op_params op) k")
    case None
    then have "k \<in> fst ` set (op_fixed op)" using ok that by (auto simp: op_ok_def list_all_iff map_of_eq_None_iff)
    then obtain v where "map_of (op_fixed op) k = Some v" by (metis map_of_eq_None_iff option.exhaust)
    with None show ?thesis by (auto simp: named_value_def value_at_def dest: map_of_SomeD)
  next
    case (Some spec)
    then have "given d (k, spec)" "ps_required spec \<or> accepts spec (ps_default spec)"
      using d(2) ok by (auto simp: accepted_def op_ok_def list_all_iff dest: map_of_SomeD)
    with Some show ?thesis by (auto simp: named_value_def given_def split: option.splits)
  qed
  show ?thesis using len ok fits by (auto simp: d bound_values_def op_ok_def list_all2_map2 list_all2_same)
qed

text \<open>A claim of a guest that was on no host.\<close>

theorem bound_values_fit_witness:
  "bind_lwt ''/v1/vm/claim'' lwt_vm_claim (J_Dict [(''name'', J_Str ''web''), (''host_ip'', J_Str ''10.0.0.2'')])
     = Inr [J_Str ''10.0.0.2'', J_Str ''Running'', J_Str ''web'', J_Str '''']
   \<and> holes (lwt_text (op_cql lwt_vm_claim)) = 4"
proof -
  let ?body = "J_Dict [(''name'', J_Str ''web''), (''host_ip'', J_Str ''10.0.0.2'')]"
  let ?vs = "[J_Str ''10.0.0.2'', J_Str ''Running'', J_Str ''web'', J_Str '''']"
  have "map_of lwt_ops ''/v1/vm/claim'' = Some lwt_vm_claim" by (simp add: lwt_ops_def)
  moreover have bound: "bind_lwt ''/v1/vm/claim'' lwt_vm_claim ?body = Inr ?vs" by code_simp
  ultimately have "length ?vs = holes (lwt_text (op_cql lwt_vm_claim))" using bound_values_fit by blast
  with bound show ?thesis by simp
qed

text \<open>
  A time comes back as it was written: a time in milliseconds that the database returned as a date is given to the caller as the same
  number, for every millisecond from November 2004 to 19 January 2038.
\<close>

theorem times_survive:
  assumes "2 ^ 40 < ms" "ms < 2 ^ 31 * 1000"
  shows "make_serializable (V_Datetime (1000 * ms)) = J_Num ms"
  using millis_are_kept [OF assms] by simp

theorem times_survive_witness: "make_serializable (V_Datetime 1700000000123000) = J_Num 1700000000123"
  using times_survive [of 1700000000123] by simp

text \<open>From that day until September 2039 one in four comes back a millisecond early.\<close>

lemma times_are_early: "make_serializable (V_Datetime (1000 * 2147483648002)) = J_Num 2147483648001"
  using millis_are_lost by simp

end
