(* ===== verification/Daruk_Store.thy ===== *)
theory Daruk_Store
  imports Daruk
begin

text \<open>
  The gateway of \<open>src/daruk.py\<close> over a database that keeps the conditional statements' contract, as the comments of
  \<open>LWT_OPS\<close> state it of ScyllaDB: the condition and the write are one operation, a missing row has null columns, so \<open>IF col = null\<close>
  matches a row that does not exist and creates it and null satisfies \<open>!=\<close>, a \<open>DELETE ... IF\<close> of a missing row is refused, and an
  empty list is null. The contract is a hypothesis (\<open>serves\<close>) on the driver's session, seen through a view of its hidden state;
  \<open>mem_env\<close> is a database in memory that keeps it. The lemmas say what a request may change, and
  the properties are about one request and about any sequence of them.
\<close>

section \<open>Conditional statements\<close>

type_synonym db_row = "(string \<times> jval) list"
type_synonym db = "string \<Rightarrow> jval list \<Rightarrow> db_row option"

definition db_cell :: "db_row option \<Rightarrow> string \<Rightarrow> jval" where
  "db_cell r c = (case r of None \<Rightarrow> J_Null | Some d \<Rightarrow> (case map_of d c of None \<Rightarrow> J_Null | Some v \<Rightarrow> v))"

definition stored :: "jval \<Rightarrow> jval" where
  "stored v = (if v = J_List [] then J_Null else v)"

text \<open>The key of each table, from \<open>src/helios_schema.py\<close>.\<close>

definition primary_key :: "string \<Rightarrow> string list" where
  "primary_key t =
     (if t = ''hydra.dagur_schedules'' then [''job_name'']
      else if t = ''hydra.catalyst_task_sequence'' then [''component'']
      else if t = ''hydra.mimir_schedules'' then [''schedule_name'']
      else if t = ''hydra.nodes'' then [''hostname'']
      else if t = ''hydra.gatoway_vlan_claims'' then [''vlan_id'']
      else if t = ''hydra.dfs_vdisks'' then [''vdisk_id'']
      else if t = ''hydra.dfs_egroups'' then [''egroup_id'']
      else if t = ''hydra.dfs_block_map'' then [''vdisk_id'', ''extent_index'']
      else if t = ''hydra.dfs_extent_id_map'' then [''extent_id'']
      else [''name''])"

text \<open>A statement with its values: the table, the key, what is written and what is expected.\<close>

record swap_request =
  sr_table :: string
  sr_key :: "jval list"
  sr_sets :: "(string \<times> jval) list"
  sr_expects :: "(cond \<times> jval) list"

definition swap_parts :: "lwt_stmt \<Rightarrow> jval list \<Rightarrow> swap_request" where
  "swap_parts st vals =
     (let vs = map stored vals in
      case st of
        L_Update t ttl sets ks cs \<Rightarrow>
          (let ws = (if ttl then tl vs else vs); n = length sets; m = length ks
           in \<lparr>sr_table = t, sr_key = take m (drop n ws), sr_sets = zip sets ws, sr_expects = zip cs (drop (n + m) ws)\<rparr>)
      | L_Insert t cols ttl \<Rightarrow>
          \<lparr>sr_table = t, sr_key = map (db_cell (Some (zip cols vs))) (primary_key t), sr_sets = zip cols vs, sr_expects = []\<rparr>
      | L_Delete t ks cs \<Rightarrow>
          (let m = length ks in \<lparr>sr_table = t, sr_key = take m vs, sr_sets = [], sr_expects = zip cs (drop m vs)\<rparr>))"

definition meets :: "db_row option \<Rightarrow> cond \<times> jval \<Rightarrow> bool" where
  "meets r x = (case x of (Is c, v) \<Rightarrow> db_cell r c = v | (Is_Not c, v) \<Rightarrow> db_cell r c \<noteq> v)"

definition swaps :: "lwt_stmt \<Rightarrow> jval list \<Rightarrow> db \<Rightarrow> bool" where
  "swaps st vals db =
     (let q = swap_parts st vals; r = db (sr_table q) (sr_key q)
      in case st of
           L_Update _ _ _ _ _ \<Rightarrow> list_all (meets r) (sr_expects q)
         | L_Insert _ _ _ \<Rightarrow> r = None
         | L_Delete _ _ _ \<Rightarrow> r \<noteq> None \<and> list_all (meets r) (sr_expects q))"

definition written :: "lwt_stmt \<Rightarrow> jval list \<Rightarrow> db_row option \<Rightarrow> db_row option" where
  "written st vals r =
     (let q = swap_parts st vals
      in case st of
           L_Delete _ _ _ \<Rightarrow> None
         | _ \<Rightarrow> Some (dict_update (case r of None \<Rightarrow> zip (primary_key (sr_table q)) (sr_key q) | Some d \<Rightarrow> d) (sr_sets q)))"

definition after :: "lwt_stmt \<Rightarrow> jval list \<Rightarrow> db \<Rightarrow> db" where
  "after st vals db =
     (if swaps st vals db
      then (let q = swap_parts st vals; t = sr_table q; k = sr_key q in db(t := (db t)(k := written st vals (db t k))))
      else db)"

definition cond_column :: "cond \<Rightarrow> string" where
  "cond_column c = (case c of Is a \<Rightarrow> a | Is_Not a \<Rightarrow> a)"

text \<open>
  The rows that answer a statement: one, whether it applied first; when it did not, the columns it set conditions on as they are.
  For an \<open>INSERT\<close> the columns of the whole row follow, of which nothing is assumed.
\<close>

definition reports :: "lwt_stmt \<Rightarrow> jval list \<Rightarrow> db \<Rightarrow> rows \<Rightarrow> bool" where
  "reports st vals db rs \<longleftrightarrow>
     (let q = swap_parts st vals; cs = map (cond_column \<circ> fst) (sr_expects q)
      in \<exists>names vs. rs = \<lparr>rs_names = applied_column # names, rs_rows = [V_Bool (swaps st vals db) # vs]\<rparr>
           \<and> (\<not> swaps st vals db \<and> (case st of L_Insert _ _ _ \<Rightarrow> False | _ \<Rightarrow> True) \<longrightarrow>
                names = cs \<and> map make_serializable vs = map (db_cell (db (sr_table q) (sr_key q))) cs))"

text \<open>A call that failed may have been applied or not.\<close>

definition serves :: "('w \<Rightarrow> db) \<Rightarrow> 'w daruk_env \<Rightarrow> bool" where
  "serves view env \<longleftrightarrow>
     (\<forall>st vals w. case dk_execute env st vals w of
        (Inl _, w') \<Rightarrow> view w' = view w \<or> view w' = after st vals (view w)
      | (Inr rs, w') \<Rightarrow> view w' = after st vals (view w) \<and> reports st vals (view w) rs)"

text \<open>A database in memory.\<close>

fun dval_of :: "jval \<Rightarrow> dval" where
  "dval_of J_Null = V_Null"
| "dval_of (J_Bool b) = V_Bool b"
| "dval_of (J_Num n) = V_Num n"
| "dval_of (J_Str s) = V_Str s"
| "dval_of (J_List vs) = V_List (map dval_of vs)"
| "dval_of (J_Dict d) = V_Dict (map (\<lambda>(k, v). (k, dval_of v)) d)"

definition mem_env :: "db daruk_env" where
  "mem_env =
     \<lparr>dk_execute = (\<lambda>st vals db.
        (let q = swap_parts st vals; cs = map (cond_column \<circ> fst) (sr_expects q); applied = swaps st vals db
         in (Inr \<lparr>rs_names = applied_column # cs,
                  rs_rows = [V_Bool applied # map (dval_of \<circ> db_cell (db (sr_table q) (sr_key q))) cs]\<rparr>, after st vals db))),
      dk_query = (\<lambda>_ _ db. (Inr \<lparr>rs_names = [], rs_rows = []\<rparr>, db))\<rparr>"

section \<open>Lemmas\<close>

lemma make_serializable_dval_of: "make_serializable (dval_of v) = v"
proof (induction v)
  case (J_List vs)
  then show ?case by (simp add: map_idI)
next
  case (J_Dict d)
  then have "\<forall>x \<in> set d. (fst x, make_serializable (dval_of (snd x))) = x" by (metis prod.collapse snds.intros)
  then show ?case by (simp add: case_prod_unfold map_idI)
qed simp_all

lemma mem_serves: "serves id mem_env"
  by (simp add: serves_def mem_env_def reports_def Let_def make_serializable_dval_of comp_def)

lemma serves_at:
  "serves view env \<Longrightarrow> case fst (dk_execute env st vals w) of
     Inl _ \<Rightarrow> view (snd (dk_execute env st vals w)) \<in> {view w, after st vals (view w)}
   | Inr rs \<Rightarrow> view (snd (dk_execute env st vals w)) = after st vals (view w) \<and> reports st vals (view w) rs"
  unfolding serves_def by (erule allE [of _ st], erule allE [of _ vals], erule allE [of _ w]) (simp split: prod.splits sum.splits)

lemma after_elsewhere:
  "(t, k) \<noteq> (sr_table (swap_parts st vals), sr_key (swap_parts st vals)) \<Longrightarrow> after st vals db t k = db t k"
  by (auto simp: after_def Let_def)

lemma cell_written:
  assumes "c \<notin> set (primary_key (sr_table (swap_parts st vals)))"
  shows "db_cell (written st vals r) c =
    (case st of L_Delete _ _ _ \<Rightarrow> J_Null
     | _ \<Rightarrow> (case map_of (rev (sr_sets (swap_parts st vals))) c of Some v \<Rightarrow> v | None \<Rightarrow> db_cell r c))"
proof -
  have "map_of (zip (primary_key (sr_table (swap_parts st vals))) (sr_key (swap_parts st vals))) c = None"
    using assms by (auto simp: map_of_eq_None_iff dest: set_zip_leftD)
  then show ?thesis
    by (cases st; cases r) (simp_all add: written_def db_cell_def Let_def map_of_dict_update split: option.splits)
qed

lemma map_of_zip_none: "c \<notin> set cs \<Longrightarrow> map_of (rev (zip cs vs)) c = None"
  by (auto simp: map_of_eq_None_iff dest: set_zip_leftD)

lemma map_of_zip_map: "c \<in> set cs \<Longrightarrow> map_of (rev (zip cs (map f cs))) c = Some (f c)"
proof (induction cs)
  case (Cons x cs)
  then show ?case
    by (cases "c \<in> set cs") (auto simp: map_of_zip_none map_add_def)
qed simp

definition is_insert :: "lwt_stmt \<Rightarrow> bool" where
  "is_insert st = (case st of L_Insert _ _ _ \<Rightarrow> True | _ \<Rightarrow> False)"

text \<open>What a rejected swap tells of the row.\<close>

definition row_told :: "lwt_stmt \<Rightarrow> jval list \<Rightarrow> db \<Rightarrow> (string \<times> jval) list \<Rightarrow> bool" where
  "row_told st vals db cur =
     (let q = swap_parts st vals; r = db (sr_table q) (sr_key q)
      in list_all (\<lambda>(x, _). map_of cur (cond_column x) = Some (db_cell r (cond_column x))) (sr_expects q))"

lemma refusal_tells:
  assumes "reports st vals db rs" "\<not> swaps st vals db" "\<not> is_insert st" "split_lwt_result rs = Inr (b, cur)"
  shows "row_told st vals db cur"
proof -
  let ?q = "swap_parts st vals"
  let ?cs = "map (cond_column \<circ> fst) (sr_expects ?q)"
  let ?f = "db_cell (db (sr_table ?q) (sr_key ?q))"
  have cur: "cur = dict_update [] (zip ?cs (map ?f ?cs))"
    using assms by (cases st) (auto simp: reports_def is_insert_def Let_def split_lwt_result_def)
  have "map_of cur (cond_column x) = Some (?f (cond_column x))" if "(x, v) \<in> set (sr_expects ?q)" for x v
  proof -
    have "cond_column x \<in> set ?cs" using that by force
    then show ?thesis unfolding cur by (simp only: map_of_dict_update map_of_zip_map option.case)
  qed
  then show ?thesis by (auto simp: row_told_def Let_def list_all_iff)
qed

text \<open>One request to an operation.\<close>

lemma post_runs:
  assumes "map_of lwt_ops path = Some op" "json = Inr (J_Dict d)" "accepted op d" "serves view env"
    and "run_state (do_post env path json body) s = (r, s')"
  shows "(view (hidden s') = after (op_cql op) (bound_values op d) (view (hidden s))
          \<or> view (hidden s') = view (hidden s) \<and> (\<exists>e. r = Bad e))
    \<and> (case r of
         Swapped b cur \<Rightarrow> b = swaps (op_cql op) (bound_values op d) (view (hidden s)) \<and> (b \<longrightarrow> cur = [])
           \<and> (\<not> b \<and> \<not> is_insert (op_cql op) \<longrightarrow> row_told (op_cql op) (bound_values op d) (view (hidden s)) cur)
       | Bad _ \<Rightarrow> True | _ \<Rightarrow> False)"
proof -
  let ?st = "op_cql op" and ?vs = "bound_values op d"
  have bound: "bind_lwt path op (J_Dict d) = Inr ?vs"
    using bind_lwt_accepts [OF op_of_table [OF assms(1)]] assms(3) by blast
  obtain a w where x: "dk_execute env ?st ?vs (hidden s) = (a, w)" by fastforce
  have law: "case a of Inl _ \<Rightarrow> view w = view (hidden s) \<or> view w = after ?st ?vs (view (hidden s))
      | Inr rs \<Rightarrow> view w = after ?st ?vs (view (hidden s)) \<and> reports ?st ?vs (view (hidden s)) rs"
    using serves_at [OF assms(4), of ?st ?vs "hidden s"] unfolding x by (simp split: sum.splits)
  have run: "hidden s' = w" "r = (case a of Inl e \<Rightarrow> Bad e | Inr rows \<Rightarrow> (case split_lwt_result rows of Inl e \<Rightarrow> Bad e
      | Inr (applied, current) \<Rightarrow> Swapped applied (if applied then [] else current)))"
    using assms(1,2,5) bound by (auto simp: do_post_def handle_lwt_def run_rules x)
  show ?thesis
  proof (cases a)
    case (Inl e)
    with law run show ?thesis by auto
  next
    case (Inr rs)
    with law have "reports ?st ?vs (view (hidden s)) rs" by simp
    then obtain cur where "split_lwt_result rs = Inr (swaps ?st ?vs (view (hidden s)), cur)"
      by (auto simp: reports_def Let_def split_lwt_result_def truthy_dval_def)
    with law run Inr refusal_tells show ?thesis by auto
  qed
qed

lemma post_refused:
  assumes "map_of lwt_ops path = Some op" "\<not> (\<exists>d. json = Inr (J_Dict d) \<and> accepted op d)"
    and "run_state (do_post env path json body) s = (r, s')"
  shows "hidden s' = hidden s \<and> (\<exists>e. r = Bad e)"
proof (cases json)
  case (Inr b)
  with bind_lwt_refuses [OF op_of_table [OF assms(1)]] assms(2) obtain e where "bind_lwt path op b = Inl e" by blast
  with assms(1,3) Inr show ?thesis by (auto simp: do_post_def handle_lwt_def run_rules)
qed (use assms(1,3) in \<open>auto simp: do_post_def handle_lwt_def run_rules\<close>)

section \<open>Columns that are only swapped\<close>

text \<open>
  The columns that decide who owns what, which every operation that writes them also sets a condition on.
\<close>

definition guarded :: "(string \<times> string) list" where
  "guarded =
     [(''hydra.vms'', ''host_ip''), (''hydra.dagur_schedules'', ''last_run_epoch''), (''hydra.mimir_schedules'', ''last_run_epoch''),
      (''hydra.catalyst_task_sequence'', ''next_sequence_id''), (''hydra.nodes'', ''status''),
      (''hydra.cluster_locks'', ''holder_token''), (''hydra.gatoway_vlan_claims'', ''net_id''),
      (''hydra.dfs_vdisks'', ''owner''), (''hydra.dfs_vdisks'', ''epoch''), (''hydra.dfs_vdisks'', ''drain_seq''),
      (''hydra.dfs_vdisks'', ''size_bytes''), (''hydra.dfs_vdisks'', ''replicas''), (''hydra.dfs_vdisks'', ''class''),
      (''hydra.dfs_egroups'', ''state''), (''hydra.dfs_block_map'', ''egroup_id''), (''hydra.dfs_block_map'', ''egroup_offset''),
      (''hydra.dfs_extent_id_map'', ''egroup_id''), (''hydra.dfs_extent_id_map'', ''egroup_offset'')]"

definition stmt_table :: "lwt_stmt \<Rightarrow> string" where
  "stmt_table st = (case st of L_Update t _ _ _ _ \<Rightarrow> t | L_Insert t _ _ \<Rightarrow> t | L_Delete t _ _ \<Rightarrow> t)"

definition guards :: "lwt_stmt \<Rightarrow> string \<Rightarrow> bool" where
  "guards st c =
     (case st of
        L_Update _ _ sets _ cs \<Rightarrow> c \<in> set sets \<longrightarrow> Is c \<in> set cs
      | L_Insert _ _ _ \<Rightarrow> True
      | L_Delete _ _ cs \<Rightarrow> Is c \<in> set cs)"

lemma ops_guard:
  "list_all (\<lambda>(t, c). c \<notin> set (primary_key t) \<and> list_all (\<lambda>(_, op). stmt_table (op_cql op) = t \<longrightarrow> guards (op_cql op) c) lwt_ops) guarded"
  by code_simp

text \<open>The operations name the whole key of the row they swap.\<close>

definition whole_key :: "lwt_stmt \<Rightarrow> bool" where
  "whole_key st =
     (case st of
        L_Update t _ _ ks _ \<Rightarrow> ks = primary_key t
      | L_Insert t cols _ \<Rightarrow> list_all (\<lambda>k. k \<in> set cols) (primary_key t)
      | L_Delete t ks _ \<Rightarrow> ks = primary_key t)"

lemma ops_whole_key: "list_all (\<lambda>(_, op). whole_key (op_cql op)) lwt_ops"
  by code_simp

lemma sr_table_stmt: "sr_table (swap_parts st vals) = stmt_table st"
  by (simp add: swap_parts_def stmt_table_def Let_def split: lwt_stmt.splits)

text \<open>A value for every placeholder gives every condition its expected value.\<close>

lemma expects_all:
  assumes "length vals = length (slots st)" "x \<in> set (case st of L_Update _ _ _ _ cs \<Rightarrow> cs | L_Insert _ _ _ \<Rightarrow> [] | L_Delete _ _ cs \<Rightarrow> cs)"
  shows "\<exists>v. (x, v) \<in> set (sr_expects (swap_parts st vals))"
proof -
  have zipped: "\<exists>v. (x, v) \<in> set (zip cs vs)" if "x \<in> set cs" "length cs \<le> length vs" for cs and vs :: "jval list"
    using that by (induction cs vs rule: list_induct2') auto
  show ?thesis using assms by (cases st) (auto simp: swap_parts_def slots_def Let_def intro!: zipped split: if_splits)
qed

lemma bound_values_length: "op_ok op \<Longrightarrow> length (bound_values op d) = length (slots (op_cql op))"
  by (simp add: op_ok_def bound_values_def)

lemma swapped_only:
  assumes "op_ok op" "guards (op_cql op) c" "c \<notin> set (primary_key (stmt_table (op_cql op)))"
    and "db_cell (after (op_cql op) (bound_values op d) db t k) c \<noteq> db_cell (db t k) c"
  shows "t = stmt_table (op_cql op) \<and> k = sr_key (swap_parts (op_cql op) (bound_values op d))
    \<and> swaps (op_cql op) (bound_values op d) db
    \<and> (is_insert (op_cql op) \<and> db t k = None \<or> (Is c, db_cell (db t k) c) \<in> set (sr_expects (swap_parts (op_cql op) (bound_values op d))))
    \<and> (case op_cql op of L_Update _ _ sets _ _ \<Rightarrow> c \<in> set sets | _ \<Rightarrow> True)"
proof -
  let ?st = "op_cql op" and ?vs = "bound_values op d"
  let ?q = "swap_parts ?st ?vs"
  have here: "t = sr_table ?q" "k = sr_key ?q" using assms(4) after_elsewhere [of t k ?st ?vs db] by (metis prod.inject)+
  have swapped: "swaps ?st ?vs db" using assms(4) by (auto simp: after_def split: if_splits)
  then have new: "after ?st ?vs db t k = written ?st ?vs (db t k)" by (simp add: after_def Let_def here)
  have cells: "db_cell (written ?st ?vs (db t k)) c = (case ?st of L_Delete _ _ _ \<Rightarrow> J_Null
     | _ \<Rightarrow> (case map_of (rev (sr_sets ?q)) c of Some v \<Rightarrow> v | None \<Rightarrow> db_cell (db t k) c))"
    using assms(3) by (intro cell_written) (simp add: sr_table_stmt)
  have sets: "case ?st of L_Update _ _ sets _ _ \<Rightarrow> c \<in> set sets | _ \<Rightarrow> True"
  proof (cases ?st)
    case (L_Update t' ttl sets ks cs)
    have "c \<in> set sets"
    proof (rule ccontr)
      assume "c \<notin> set sets"
      then have "map_of (rev (sr_sets ?q)) c = None" using L_Update by (simp add: swap_parts_def Let_def map_of_zip_none)
      with cells new assms(4) L_Update show False by simp
    qed
    with L_Update show ?thesis by simp
  qed simp_all
  show ?thesis
  proof (cases "is_insert ?st")
    case True
    then have "db t k = None" using swapped by (auto simp: swaps_def is_insert_def here Let_def split: lwt_stmt.splits)
    with True here swapped sets show ?thesis by (simp add: sr_table_stmt)
  next
    case False
    have "Is c \<in> set (case ?st of L_Update _ _ _ _ cs \<Rightarrow> cs | L_Insert _ _ _ \<Rightarrow> [] | L_Delete _ _ cs \<Rightarrow> cs)"
    proof (cases ?st)
      case (L_Update t' ttl sets ks cs)
      with assms(2) sets L_Update show ?thesis by (simp add: guards_def)
    next
      case (L_Delete t' ks cs)
      with assms(2) show ?thesis by (simp add: guards_def)
    qed (use False in \<open>simp add: is_insert_def\<close>)
    with expects_all [OF bound_values_length [OF assms(1)]] obtain v where v: "(Is c, v) \<in> set (sr_expects ?q)" by blast
    moreover have "list_all (meets (db t k)) (sr_expects ?q)"
      using swapped False by (auto simp: swaps_def is_insert_def here Let_def split: lwt_stmt.splits)
    ultimately have "db_cell (db t k) c = v" by (auto simp: list_all_iff meets_def dest!: bspec)
    with v here swapped sets show ?thesis by (simp add: sr_table_stmt)
  qed
qed

lemma guarded_ops:
  assumes "(t, c) \<in> set guarded" "map_of lwt_ops path = Some op" "t = stmt_table (op_cql op)"
  shows "guards (op_cql op) c" "c \<notin> set (primary_key t)"
  using ops_guard assms by (auto simp: list_all_iff dest!: map_of_SomeD)

text \<open>What changed a guarded column, one request at a time.\<close>

lemma post_swaps_only:
  assumes "serves view env" "(t, c) \<in> set guarded" "map_of lwt_ops path = Some op"
    and "run_state (do_post env path json body) s = (r, s')"
    and "db_cell (view (hidden s') t k) c \<noteq> db_cell (view (hidden s) t k) c"
  obtains d where "json = Inr (J_Dict d)" "accepted op d" "t = stmt_table (op_cql op)"
    "k = sr_key (swap_parts (op_cql op) (bound_values op d))"
    "view (hidden s') = after (op_cql op) (bound_values op d) (view (hidden s))"
    "swaps (op_cql op) (bound_values op d) (view (hidden s))"
    "is_insert (op_cql op) \<and> view (hidden s) t k = None
      \<or> (Is c, db_cell (view (hidden s) t k) c) \<in> set (sr_expects (swap_parts (op_cql op) (bound_values op d)))"
    "case op_cql op of L_Update _ _ sets _ _ \<Rightarrow> c \<in> set sets | _ \<Rightarrow> True"
proof -
  obtain d where d: "json = Inr (J_Dict d)" "accepted op d"
    using post_refused [OF assms(3) _ assms(4)] assms(5) by metis
  have new: "view (hidden s') = after (op_cql op) (bound_values op d) (view (hidden s))"
    using post_runs [OF assms(3) d assms(1,4)] assms(5) by auto
  have t: "t = stmt_table (op_cql op)"
    using assms(5) after_elsewhere [of t k "op_cql op" "bound_values op d" "view (hidden s)"]
    unfolding new sr_table_stmt by (metis prod.inject)
  note g = guarded_ops [OF assms(2,3) t]
  from swapped_only [OF op_of_table [OF assms(3)] g(1), of d "view (hidden s)" t k] g(2) assms(5) that [OF d t _ new]
  show thesis by (simp add: new t)
qed

definition claim_path :: string where "claim_path = ''/v1/dfs/claim''"

definition vdisk_table :: string where "vdisk_table = ''hydra.dfs_vdisks''"

lemma claim_op: "map_of lwt_ops claim_path = Some lwt_dfs_claim"
  by (simp add: lwt_ops_def claim_path_def)

lemma epoch_guarded: "(vdisk_table, ''epoch'') \<in> set guarded" "(vdisk_table, ''owner'') \<in> set guarded"
  by (simp_all add: guarded_def vdisk_table_def)

lemma claim_stmt: "op_cql lwt_dfs_claim = L_Update vdisk_table False [''owner'', ''epoch''] [''vdisk_id''] [Is ''owner'', Is ''epoch'']"
  by (simp add: lwt_dfs_claim_def vdisk_table_def)

section \<open>Properties\<close>

text \<open>
  The answer to a compare-and-swap is true. Over a database that keeps the contract of conditional statements, a request an
  operation accepts and that is answered as applied found every expected value and wrote exactly its own row; one answered as refused
  changed nothing, and the values it gives back for the columns it set conditions on are those of the row; after an error the
  write has happened completely or not at all.
\<close>

theorem answers_are_true:
  assumes "serves view env" "map_of lwt_ops path = Some op" "accepted op d"
    and "run_state (do_post env path (Inr (J_Dict d)) body) s = (r, s')"
  shows "let st = op_cql op; vs = bound_values op d; db = view (hidden s)
    in case r of
         Swapped True cur \<Rightarrow> cur = [] \<and> swaps st vs db \<and> view (hidden s') = after st vs db
       | Swapped False cur \<Rightarrow> \<not> swaps st vs db \<and> view (hidden s') = db
           \<and> (is_insert st \<or> row_told st vs db cur)
       | Bad _ \<Rightarrow> view (hidden s') = db \<or> view (hidden s') = after st vs db
       | _ \<Rightarrow> False"
  using post_runs [OF assms(2) refl assms(3,1,4)] by (auto simp: Let_def after_def split: response.splits bool.splits)

text \<open>
  What decides ownership is only ever swapped. Whatever request any caller makes to an operation, a guarded column of a row (where a
  guest runs, who owns a vdisk and at which epoch, the holder of a lock, of a VLAN, of a schedule's tick, the size, replicas and class of
  a vdisk, ...) changes only if the request named the value that stood there as the expected one, or it creates the row.
\<close>

theorem guarded_columns_are_swapped:
  assumes "serves view env" "(t, c) \<in> set guarded" "map_of lwt_ops path = Some op"
    and "run_state (do_post env path json body) s = (r, s')"
    and "db_cell (view (hidden s') t k) c \<noteq> db_cell (view (hidden s) t k) c"
  shows "\<exists>d. json = Inr (J_Dict d) \<and> accepted op d \<and>
    (let q = swap_parts (op_cql op) (bound_values op d)
     in sr_table q = t \<and> sr_key q = k \<and>
        (is_insert (op_cql op) \<and> view (hidden s) t k = None \<or> (Is c, db_cell (view (hidden s) t k) c) \<in> set (sr_expects q)))"
  by (rule post_swaps_only [OF assms]) (auto simp: Let_def sr_table_stmt)

text \<open>A disk of node \<open>n1\<close> at epoch 4, and a claim.\<close>

definition disk_db :: db where
  "disk_db = (\<lambda>t k. if t = vdisk_table \<and> k = [J_Str ''d1''] then
     Some [(''vdisk_id'', J_Str ''d1''), (''owner'', J_Str ''n1''), (''epoch'', J_Num 4)] else None)"

definition claim_dict :: "string \<Rightarrow> string \<Rightarrow> int \<Rightarrow> string \<Rightarrow> int \<Rightarrow> (string \<times> jval) list" where
  "claim_dict vdisk owner epoch eo ee =
     [(''vdisk_id'', J_Str vdisk), (''owner'', J_Str owner), (''epoch'', J_Num epoch),
      (''expected_owner'', J_Str eo), (''expected_epoch'', J_Num ee)]"

definition at_rest :: "'w \<Rightarrow> ('w, 'e) world" where
  "at_rest w = \<lparr>hidden = w, trace = [], memo = None\<rparr>"

lemma hidden_at_rest [simp]: "hidden (at_rest w) = w"
  by (simp add: at_rest_def)

definition first_claim :: "(string \<times> jval) list" where "first_claim = claim_dict ''d1'' ''n2'' 5 ''n1'' 4"

definition late_claim :: "(string \<times> jval) list" where "late_claim = claim_dict ''d1'' ''n3'' 5 ''n1'' 4"

definition taken_db :: db where
  "taken_db = (\<lambda>t k. if t = vdisk_table \<and> k = [J_Str ''d1''] then Some [(''owner'', J_Str ''n2''), (''epoch'', J_Num 5)] else None)"

theorem guarded_columns_are_swapped_witness:
  "\<exists>r s'. run_state (do_post mem_env claim_path (Inr (J_Dict first_claim)) []) (at_rest disk_db) = (r, s')
     \<and> db_cell (hidden s' vdisk_table [J_Str ''d1'']) ''owner'' = J_Str ''n2''
     \<and> (Is ''owner'', J_Str ''n1'') \<in> set (sr_expects (swap_parts (op_cql lwt_dfs_claim) (bound_values lwt_dfs_claim first_claim)))"
proof -
  obtain r s' where run: "run_state (do_post mem_env claim_path (Inr (J_Dict first_claim)) []) (at_rest disk_db) = (r, s')" by fastforce
  have "db_cell (hidden (snd (run_state (do_post mem_env claim_path (Inr (J_Dict first_claim)) []) (at_rest disk_db))) vdisk_table [J_Str ''d1'']) ''owner''
      = J_Str ''n2''"
    by code_simp
  then have new: "db_cell (hidden s' vdisk_table [J_Str ''d1'']) ''owner'' = J_Str ''n2''" using run by simp
  have old: "db_cell (disk_db vdisk_table [J_Str ''d1'']) ''owner'' = J_Str ''n1''" by (simp add: db_cell_def disk_db_def)
  have "\<not> is_insert (op_cql lwt_dfs_claim)" by (simp add: claim_stmt is_insert_def)
  with guarded_columns_are_swapped [OF mem_serves epoch_guarded(2) claim_op run, of "[J_Str ''d1'']"] run new old
  show ?thesis by (auto simp: Let_def at_rest_def)
qed

theorem answers_are_true_witness:
  "\<exists>cur s'. run_state (do_post mem_env claim_path (Inr (J_Dict late_claim)) []) (at_rest taken_db) = (Swapped False cur, s')
     \<and> hidden s' = taken_db \<and> map_of cur ''owner'' = Some (J_Str ''n2'')"
proof -
  obtain r s' where run: "run_state (do_post mem_env claim_path (Inr (J_Dict late_claim)) []) (at_rest taken_db) = (r, s')" by fastforce
  have "fst (run_state (do_post mem_env claim_path (Inr (J_Dict late_claim)) []) (at_rest taken_db))
      = Swapped False [(''owner'', J_Str ''n2''), (''epoch'', J_Num 5)]"
    by code_simp
  then have r: "r = Swapped False [(''owner'', J_Str ''n2''), (''epoch'', J_Num 5)]" using run by simp
  have "accepted lwt_dfs_claim late_claim" by code_simp
  from answers_are_true [OF mem_serves claim_op this run] have "hidden s' = taken_db" by (simp add: r Let_def at_rest_def)
  with run r show ?thesis by simp
qed

text \<open>
  What the operations leave to their callers, although the comments beside them say otherwise: a resize that shrinks is applied, and so is a
  change of an extent group from sealed back to open.
\<close>

definition one_row :: "string \<Rightarrow> string \<Rightarrow> (string \<times> jval) list \<Rightarrow> db" where
  "one_row t k d = (\<lambda>t' k'. if t' = t \<and> k' = [J_Str k] then Some d else None)"

lemma a_resize_may_shrink:
  "fst (run_state (do_post mem_env ''/v1/dfs/vdisk-resize'' (Inr (J_Dict
      [(''vdisk_id'', J_Str ''d1''), (''size_bytes'', J_Num 1024), (''expected_size_bytes'', J_Num 4096)])) [])
      (at_rest (one_row vdisk_table ''d1'' [(''size_bytes'', J_Num 4096)]))) = Swapped True []"
  by code_simp

lemma a_sealed_group_may_be_opened:
  "fst (run_state (do_post mem_env ''/v1/dfs/egroup-state'' (Inr (J_Dict
      [(''egroup_id'', J_Str ''g1''), (''state'', J_Str ''open''), (''expected_state'', J_Str ''sealed'')])) [])
      (at_rest (one_row ''hydra.dfs_egroups'' ''g1'' [(''state'', J_Str ''sealed'')]))) = Swapped True []"
  by code_simp

end
