(* ===== verification/Daruk_Ratchet.thy ===== *)
theory Daruk_Ratchet
  imports Daruk_Store
begin

text \<open>
  Numbers handed out by the gateway's compare-and-swap operations, under any interleaving of any callers' requests: the epoch of a
  vdisk, its drain counter, the next sequence number of a component's tasks, the last run of a schedule. Each is a column
  that one operation of \<open>LWT_OPS\<close> moves from the value the caller expects to the one it asks for; as long as the callers ask for
  more than they expect, the column never goes back and no value is granted twice. The locale states what an
  operation must be for this, and the five operations of \<open>src/daruk.py\<close> interpret it.
\<close>

section \<open>Sequences of requests\<close>

text \<open>
  Requests of any number of callers, in the order the database executes them: an operation and the body. The server answers each in
  a thread of its own, and a conditional statement is atomic in the database.
\<close>

type_synonym post_request = "string \<times> (string + jval)"

fun serve_all :: "'w daruk_env \<Rightarrow> post_request list \<Rightarrow> ('w, daruk_event, response list) eff" where
  "serve_all env [] = ret []"
| "serve_all env (q # qs) = do {
     r \<leftarrow> do_post env (fst q) (snd q) [];
     rs \<leftarrow> serve_all env qs;
     ret (r # rs) }"

text \<open>The number in a column of a row, and the order in which no number is below all.\<close>

definition number_at :: "string \<Rightarrow> string \<Rightarrow> jval \<Rightarrow> db \<Rightarrow> int option" where
  "number_at t c k db = (case db_cell (db t [k]) c of J_Num n \<Rightarrow> Some n | _ \<Rightarrow> None)"

definition below :: "int option \<Rightarrow> int option \<Rightarrow> bool" where
  "below a b = (case a of None \<Rightarrow> True | Some x \<Rightarrow> (case b of None \<Rightarrow> False | Some y \<Rightarrow> x \<le> y))"

text \<open>What the callers keep to: a request to the operation at \<open>path\<close> asks for a number above the one it expects.\<close>

definition asks_for_more :: "string \<Rightarrow> string \<Rightarrow> string \<Rightarrow> post_request \<Rightarrow> bool" where
  "asks_for_more path np ep q =
     (fst q = path \<longrightarrow>
        (case snd q of
           Inr (J_Dict d) \<Rightarrow> (case (map_of d np, map_of d ep) of (Some (J_Num n), Some (J_Num m)) \<Rightarrow> m < n | _ \<Rightarrow> True)
         | _ \<Rightarrow> True))"

text \<open>A request to the operation for a row and a number, answered as applied.\<close>

definition granted :: "string \<Rightarrow> string \<Rightarrow> string \<Rightarrow> jval \<Rightarrow> int \<Rightarrow> post_request \<Rightarrow> response \<Rightarrow> bool" where
  "granted path kp np k n q r \<longleftrightarrow>
     fst q = path \<and> r = Swapped True [] \<and>
     (case snd q of
        Inr (J_Dict d) \<Rightarrow> map_of d kp = Some k \<and> map_of d np = Some (J_Num n)
      | _ \<Rightarrow> False)"

section \<open>An operation that moves a number\<close>

text \<open>
  The operation at \<open>path\<close> writes column \<open>c\<close> of table \<open>t\<close> with parameter \<open>np\<close>, on the condition that it is \<open>ep\<close>, in the
  row whose key is \<open>kp\<close>; and no other operation updates the column or deletes rows of the table.
\<close>

definition only_writer :: "string \<Rightarrow> string \<Rightarrow> string \<Rightarrow> bool" where
  "only_writer path t c =
     list_all (\<lambda>(p, o'). stmt_table (op_cql o') = t \<longrightarrow>
       (case op_cql o' of L_Update _ _ sets _ _ \<Rightarrow> c \<in> set sets \<longrightarrow> p = path | L_Insert _ _ _ \<Rightarrow> True | L_Delete _ _ _ \<Rightarrow> False)) lwt_ops"

locale ratchet =
  fixes path :: string and op :: lwt_op and t c kp np ep kc :: string
    and sets nb :: "string list" and cs :: "cond list" and eb :: "string list" and espec :: param_spec
  assumes in_table: "map_of lwt_ops path = Some op"
    and guard: "(t, c) \<in> set guarded"
    and writer: "only_writer path t c"
    and stmt: "op_cql op = L_Update t False sets [kc] cs"
    and binds: "op_binds op = nb @ kp # eb" "length nb = length sets" "length eb = length cs"
    and new: "distinct sets" "(c, np) \<in> set (zip sets nb)"
    and old: "(Is c, ep) \<in> set (zip cs eb)"
    and kspec: "map_of (op_params op) kp = Some (needed P_Text)"
    and nspec: "map_of (op_params op) np = Some (needed P_Int)"
    and espec: "map_of (op_params op) ep = Some espec" "ps_required espec" "ps_type espec = P_Int"

lemma below_refl: "below a a" and below_trans: "below a b \<Longrightarrow> below b c \<Longrightarrow> below a c"
  by (auto simp: below_def split: option.splits)

lemma accepted_value:
  assumes "accepted op d" "map_of (op_params op) k = Some spec" "ps_required spec"
  shows "\<exists>v. map_of d k = Some v \<and> accepts spec v \<and> named_value op d k = v"
proof -
  have "given d (k, spec)" using assms(1,2) by (auto simp: accepted_def list_all_iff dest: map_of_SomeD)
  then show ?thesis using assms(2,3) by (auto simp: given_def named_value_def split: option.splits)
qed

lemma zip_map_in: "(x, y) \<in> set (zip xs ys) \<Longrightarrow> (x, f y) \<in> set (zip xs (map f ys))"
  by (auto simp: zip_map2)

context ratchet
begin

text \<open>An accepted request, taken apart.\<close>

lemma request_parts:
  assumes "accepted op d"
  obtains k n ee q where
    "map_of d kp = Some (J_Str k)" "map_of d np = Some (J_Num n)" "map_of d ep = Some ee" "ee = J_Null \<or> (\<exists>m. ee = J_Num m)"
    "swap_parts (op_cql op) (bound_values op d) = q" "sr_table q = t" "sr_key q = [J_Str k]"
    "map_of (rev (sr_sets q)) c = Some (J_Num n)" "(Is c, ee) \<in> set (sr_expects q)"
proof -
  obtain k where k: "map_of d kp = Some (J_Str k)" "named_value op d kp = J_Str k"
    using accepted_value [OF assms kspec]
    by (auto simp: needed_def accepts_def has_type_def split: if_splits jval.splits)
  obtain n where n: "map_of d np = Some (J_Num n)" "named_value op d np = J_Num n"
    using accepted_value [OF assms nspec]
    by (auto simp: needed_def accepts_def has_type_def split: if_splits jval.splits)
  obtain ee where ee: "map_of d ep = Some ee" "named_value op d ep = ee" "ee = J_Null \<or> (\<exists>m. ee = J_Num m)"
    using accepted_value [OF assms espec(1,2)] espec(3)
    by (auto simp: accepts_def has_type_def split: if_splits jval.splits)
  let ?f = "\<lambda>x. stored (named_value op d x)"
  let ?q = "\<lparr>sr_table = t, sr_key = [?f kp], sr_sets = zip sets (map ?f nb), sr_expects = zip cs (map ?f eb)\<rparr>"
  have parts: "swap_parts (op_cql op) (bound_values op d) = ?q"
    using binds(2) by (simp add: stmt swap_parts_def bound_values_def binds(1) Let_def comp_def zip_append2)
  have "(c, ?f np) \<in> set (zip sets (map ?f nb))" using new(2) by (rule zip_map_in)
  moreover have "distinct (map fst (rev (zip sets (map ?f nb))))" using new(1) binds(2) by (simp add: rev_map [symmetric])
  ultimately have "map_of (rev (sr_sets ?q)) c = Some (J_Num n)" using n(2) by (simp add: stored_def)
  moreover have "(Is c, ee) \<in> set (sr_expects ?q)" using zip_map_in [OF old, of ?f] ee(2,3) by (auto simp: stored_def)
  ultimately show ?thesis using that [OF k(1) n(1) ee(1,3) parts] k(2) by (simp add: stored_def)
qed

lemma writes:
  assumes "accepted op d" "swaps (op_cql op) (bound_values op d) db" "map_of d kp = Some k" "map_of d np = Some (J_Num n)" "map_of d ep = Some ee"
  shows "db_cell (after (op_cql op) (bound_values op d) db t [k]) c = J_Num n" "db_cell (db t [k]) c = ee"
proof -
  obtain q where q: "swap_parts (op_cql op) (bound_values op d) = q" "sr_table q = t" "sr_key q = [k]"
    "map_of (rev (sr_sets q)) c = Some (J_Num n)" "(Is c, ee) \<in> set (sr_expects q)"
    using request_parts [OF assms(1)] assms(3-5) by (metis option.inject)
  have "c \<notin> set (primary_key t)" using guarded_ops(2) [OF guard in_table] by (simp add: stmt stmt_table_def)
  with q cell_written [of c "op_cql op" "bound_values op d" "db t [k]"]
  show "db_cell (after (op_cql op) (bound_values op d) db t [k]) c = J_Num n"
    using assms(2) by (simp add: after_def Let_def) (simp add: stmt)
  have "list_all (meets (db t [k])) (sr_expects q)" using assms(2) q by (simp add: swaps_def Let_def) (simp add: stmt)
  with q(5) show "db_cell (db t [k]) c = ee" by (auto simp: list_all_iff meets_def dest!: bspec)
qed

lemma number_rises:
  assumes "serves view env" "map_of lwt_ops (fst q) \<noteq> None" "asks_for_more path np ep q"
    and "run_state (do_post env (fst q) (snd q) body) s = (r, s')"
  shows "below (number_at t c k (view (hidden s))) (number_at t c k (view (hidden s')))"
proof (cases "db_cell (view (hidden s') t [k]) c = db_cell (view (hidden s) t [k]) c")
  case True
  then show ?thesis by (simp add: number_at_def below_refl)
next
  case False
  obtain o' where o': "map_of lwt_ops (fst q) = Some o'" using assms(2) by blast
  from post_swaps_only [OF assms(1) guard o' assms(4) False] obtain d where
    d: "snd q = Inr (J_Dict d)" "accepted o' d" "t = stmt_table (op_cql o')"
    "[k] = sr_key (swap_parts (op_cql o') (bound_values o' d))"
    "view (hidden s') = after (op_cql o') (bound_values o' d) (view (hidden s))"
    "swaps (op_cql o') (bound_values o' d) (view (hidden s))"
    and sets: "case op_cql o' of L_Update _ _ sets _ _ \<Rightarrow> c \<in> set sets | _ \<Rightarrow> True"
    by metis
  show ?thesis
  proof (cases "is_insert (op_cql o')")
    case True
    then have "view (hidden s) t [k] = None"
      using d(4,6) by (auto simp: swaps_def is_insert_def Let_def sr_table_stmt d(3) split: lwt_stmt.splits)
    then show ?thesis by (simp add: number_at_def db_cell_def below_def)
  next
    case False
    then have p: "fst q = path"
      using writer map_of_SomeD [OF o'] sets d(3) [symmetric]
      by (cases "op_cql o'") (force simp: only_writer_def list_all_iff is_insert_def)+
    with o' in_table have "o' = op" by simp
    note d = d [unfolded this]
    obtain k' n ee where v: "map_of d kp = Some (J_Str k')" "map_of d np = Some (J_Num n)" "map_of d ep = Some ee"
      "ee = J_Null \<or> (\<exists>m. ee = J_Num m)" "sr_key (swap_parts (op_cql op) (bound_values op d)) = [J_Str k']"
      using request_parts [OF d(2)] by metis
    then have k: "k = J_Str k'" using d(4) by simp
    note w = writes [OF d(2,6) v(1-3), folded k]
    show ?thesis using w v p d(1) assms(3) by (auto simp: d(5) number_at_def below_def asks_for_more_def)
  qed
qed

lemma grant_rises:
  assumes "serves view env" "asks_for_more path np ep q" "granted path kp np k n q r"
    and "run_state (do_post env (fst q) (snd q) body) s = (r, s')"
  shows "number_at t c k (view (hidden s')) = Some n" "number_at t c k (view (hidden s)) = Some m \<Longrightarrow> m < n"
proof -
  have g: "fst q = path" "r = Swapped True []" using assms(3) by (auto simp: granted_def)
  note op = in_table [folded g(1)]
  obtain d where d: "snd q = Inr (J_Dict d)" "accepted op d"
    using post_refused [OF op _ assms(4)] g(2) by auto
  have v: "map_of d kp = Some k" "map_of d np = Some (J_Num n)" using assms(3) d(1) by (auto simp: granted_def)
  obtain ee where ee: "map_of d ep = Some ee" using request_parts [OF d(2)] by metis
  have ran: "view (hidden s') = after (op_cql op) (bound_values op d) (view (hidden s))"
    "swaps (op_cql op) (bound_values op d) (view (hidden s))"
    using post_runs [OF op d assms(1,4)] g(2) by auto
  note w = writes [OF d(2) ran(2) v ee]
  show "number_at t c k (view (hidden s')) = Some n" using w(1) by (simp add: ran(1) number_at_def)
  show "number_at t c k (view (hidden s)) = Some m \<Longrightarrow> m < n"
    using w(2) v ee d(1) g(1) assms(2) by (auto simp: number_at_def asks_for_more_def split: jval.splits)
qed

lemma grants_above:
  assumes "serves view env"
  shows "run_state (serve_all env qs) s = (rs, s') \<Longrightarrow> list_all (\<lambda>q. map_of lwt_ops (fst q) \<noteq> None \<and> asks_for_more path np ep q) qs \<Longrightarrow>
    j < length qs \<Longrightarrow> granted path kp np k m (qs ! j) (rs ! j) \<Longrightarrow> number_at t c k (view (hidden s)) = Some n \<Longrightarrow> n < m"
proof (induction qs arbitrary: s rs s' j n)
  case (Cons q qs)
  obtain r s1 where one: "run_state (do_post env (fst q) (snd q) []) s = (r, s1)" by fastforce
  obtain rs1 s2 where more: "run_state (serve_all env qs) s1 = (rs1, s2)" by fastforce
  have rs: "rs = r # rs1" using Cons.prems(1) one more by (simp add: run_rules)
  have q: "map_of lwt_ops (fst q) \<noteq> None" "asks_for_more path np ep q" using Cons.prems(2) by simp_all
  show ?case
  proof (cases j)
    case 0
    with Cons.prems(4,5) rs grant_rises(2) [OF assms q(2) _ one] show ?thesis by simp
  next
    case (Suc i)
    have "below (Some n) (number_at t c k (view (hidden s1)))" using number_rises [OF assms q one, of k] Cons.prems(5) by simp
    then obtain n1 where n1: "number_at t c k (view (hidden s1)) = Some n1" "n \<le> n1" by (auto simp: below_def split: option.splits)
    have "n1 < m" using Cons.IH [OF more, of i n1] Cons.prems Suc rs n1 by simp
    with n1 show ?thesis by simp
  qed
qed simp

lemma granted_once:
  assumes "serves view env" "run_state (serve_all env qs) s = (rs, s')"
    and "list_all (\<lambda>q. map_of lwt_ops (fst q) \<noteq> None \<and> asks_for_more path np ep q) qs"
    and "i < j" "j < length qs" "granted path kp np k n (qs ! i) (rs ! i)" "granted path kp np k m (qs ! j) (rs ! j)"
  shows "n < m"
  using assms(2-)
proof (induction qs arbitrary: s rs s' i j)
  case (Cons q qs)
  obtain r s1 where one: "run_state (do_post env (fst q) (snd q) []) s = (r, s1)" by fastforce
  obtain rs1 s2 where more: "run_state (serve_all env qs) s1 = (rs1, s2)" by fastforce
  have rs: "rs = r # rs1" using Cons.prems(1) one more by (simp add: run_rules)
  obtain l where j: "j = Suc l" using Cons.prems(3) by (cases j) auto
  show ?case
  proof (cases i)
    case 0
    then have "number_at t c k (view (hidden s1)) = Some n"
      using Cons.prems(2,5) rs by (intro grant_rises(1) [OF assms(1) _ _ one]) simp_all
    with grants_above [OF assms(1) more, of l k m n] Cons.prems j rs show ?thesis by simp
  next
    case (Suc h)
    with Cons.IH [OF more, of h l] Cons.prems j rs show ?thesis by simp
  qed
qed simp

end

section \<open>The operations\<close>

interpretation epochs: ratchet claim_path lwt_dfs_claim vdisk_table "''epoch''" "''vdisk_id''" "''epoch''" "''expected_epoch''" "''vdisk_id''"
    "[''owner'', ''epoch'']" "[''owner'', ''epoch'']" "[Is ''owner'', Is ''epoch'']" "[''expected_owner'', ''expected_epoch'']"
    "needed_or_null P_Int"
proof unfold_locales
  show "only_writer claim_path vdisk_table ''epoch''" by code_simp
qed (simp_all add: claim_op epoch_guarded claim_stmt, simp_all add: lwt_dfs_claim_def needed_or_null_def)

definition drain_path :: string where "drain_path = ''/v1/dfs/drain-commit''"

interpretation drains: ratchet drain_path lwt_dfs_drain_commit vdisk_table "''drain_seq''" "''vdisk_id''" "''drain_seq''" "''expected_drain_seq''" "''vdisk_id''"
    "[''drain_seq'']" "[''drain_seq'']" "[Is ''drain_seq'', Is ''epoch'']" "[''expected_drain_seq'', ''expected_epoch'']" "needed P_Int"
proof unfold_locales
  show "only_writer drain_path vdisk_table ''drain_seq''" by code_simp
qed (simp_all add: lwt_ops_def drain_path_def guarded_def vdisk_table_def, simp_all add: lwt_dfs_drain_commit_def needed_def)

definition sequence_path :: string where "sequence_path = ''/v1/catalyst/claim-sequence''"

definition sequences :: string where "sequences = ''hydra.catalyst_task_sequence''"

interpretation tasks: ratchet sequence_path lwt_catalyst_claim_sequence sequences "''next_sequence_id''" "''component''" "''next_sequence_id''"
    "''expected_sequence_id''" "''component''" "[''next_sequence_id'']" "[''next_sequence_id'']" "[Is ''next_sequence_id'']" "[''expected_sequence_id'']"
    "needed_or_null P_Int"
proof unfold_locales
  show "only_writer sequence_path sequences ''next_sequence_id''" by code_simp
qed (simp_all add: lwt_ops_def sequence_path_def guarded_def sequences_def, simp_all add: lwt_catalyst_claim_sequence_def needed_or_null_def)

definition job_path :: string where "job_path = ''/v1/schedule/claim-job''"

definition jobs :: string where "jobs = ''hydra.dagur_schedules''"

interpretation jobs: ratchet job_path lwt_schedule_claim_job jobs "''last_run_epoch''" "''job_name''" "''last_run_epoch''" "''expected_last_run_epoch''"
    "''job_name''" "[''last_run_epoch'']" "[''last_run_epoch'']" "[Is ''last_run_epoch'']" "[''expected_last_run_epoch'']" "needed_or_null P_Int"
proof unfold_locales
  show "only_writer job_path jobs ''last_run_epoch''" by code_simp
qed (simp_all add: lwt_ops_def job_path_def guarded_def jobs_def, simp_all add: lwt_schedule_claim_job_def needed_or_null_def)

definition check_path :: string where "check_path = ''/v1/schedule/claim-check''"

definition checks :: string where "checks = ''hydra.mimir_schedules''"

interpretation checks: ratchet check_path lwt_schedule_claim_check checks "''last_run_epoch''" "''schedule_name''" "''last_run_epoch''" "''expected_last_run_epoch''"
    "''schedule_name''" "[''last_run_epoch'']" "[''last_run_epoch'']" "[Is ''last_run_epoch'']" "[''expected_last_run_epoch'']" "needed_or_null P_Int"
proof unfold_locales
  show "only_writer check_path checks ''last_run_epoch''" by code_simp
qed (simp_all add: lwt_ops_def check_path_def guarded_def checks_def, simp_all add: lwt_schedule_claim_check_def needed_or_null_def)

section \<open>Properties\<close>

text \<open>
  C29. A vdisk has one owner per epoch, as far as the compare-and-swap operations go. However the requests of any number of callers to the operations of \<open>LWT_OPS\<close>
  interleave, and whichever of them fail half way: as long as each claim asks for an epoch above the one it expects, the epochs granted for a vdisk strictly rise, so no
  two claims for the same vdisk are granted the same epoch. Statements sent to \<open>/query\<close> are not among them: one that deletes the row starts its epochs anew.
\<close>

theorem one_owner_per_epoch:
  assumes "serves view env" "run_state (serve_all env qs) s = (rs, s')"
    and "list_all (\<lambda>q. map_of lwt_ops (fst q) \<noteq> None \<and> asks_for_more claim_path ''epoch'' ''expected_epoch'' q) qs"
    and "i < j" "j < length qs"
    and "granted claim_path ''vdisk_id'' ''epoch'' v n (qs ! i) (rs ! i)" "granted claim_path ''vdisk_id'' ''epoch'' v m (qs ! j) (rs ! j)"
  shows "n < m"
  using assms by (rule epochs.granted_once)

text \<open>Two nodes that both read owner \<open>n1\<close> at epoch 4 claim the disk; a third claims it from the winner.\<close>

definition race :: "post_request list" where
  "race = [(claim_path, Inr (J_Dict first_claim)), (claim_path, Inr (J_Dict late_claim)), (claim_path, Inr (J_Dict (claim_dict ''d1'' ''n3'' 6 ''n2'' 5)))]"

lemma race_answers:
  "fst (run_state (serve_all mem_env race) (at_rest disk_db)) =
     [Swapped True [], Swapped False [(''owner'', J_Str ''n2''), (''epoch'', J_Num 5)], Swapped True []]"
  by code_simp

theorem one_owner_per_epoch_witness:
  "\<exists>rs s'. run_state (serve_all mem_env race) (at_rest disk_db) = (rs, s')
     \<and> granted claim_path ''vdisk_id'' ''epoch'' (J_Str ''d1'') 5 (race ! 0) (rs ! 0)
     \<and> granted claim_path ''vdisk_id'' ''epoch'' (J_Str ''d1'') 6 (race ! 2) (rs ! 2) \<and> (5::int) < 6"
proof -
  obtain rs s' where run: "run_state (serve_all mem_env race) (at_rest disk_db) = (rs, s')" by fastforce
  then have rs: "rs = [Swapped True [], Swapped False [(''owner'', J_Str ''n2''), (''epoch'', J_Num 5)], Swapped True []]"
    using race_answers by simp
  have g: "granted claim_path ''vdisk_id'' ''epoch'' (J_Str ''d1'') 5 (race ! 0) (rs ! 0)"
    "granted claim_path ''vdisk_id'' ''epoch'' (J_Str ''d1'') 6 (race ! 2) (rs ! 2)"
    by (simp_all add: rs granted_def race_def first_claim_def claim_dict_def)
  have "list_all (\<lambda>q. map_of lwt_ops (fst q) \<noteq> None \<and> asks_for_more claim_path ''epoch'' ''expected_epoch'' q) race" by code_simp
  moreover have "2 < length race" by (simp add: race_def)
  ultimately have "(5::int) < 6" using one_owner_per_epoch [OF mem_serves run _ _ _ g] by simp
  with run g show ?thesis by blast
qed

end
