(* ===== verification/Daruk_Clients.thy ===== *)
theory Daruk_Clients
  imports Daruk_Ratchet Mipha_Fence Task_Rows
begin

text \<open>
  The callers of the gateway: \<open>run_lwt\<close> (\<open>src/helios_cql.py\<close>, and the same in \<open>src/mipha.py\<close>), which turns the gateway's HTTP
  answer into \<open>(ok, applied, current, error)\<close>, the claim of \<open>storage_fence_assert\<close> (\<open>src/mipha.py\<close>) and the sequence numbers of
  \<open>claim_task_sequence\<close> (\<open>src/helios_schema.py\<close>) made through it. Composed with \<open>do_post\<close> over a database that keeps the contract of
  theory \<open>Daruk_Store\<close>, they are the compare-and-swap on which those programs' own theories rely.
\<close>

section \<open>The call\<close>

text \<open>
  What the request comes back as: an answer of status 200 with its object, another status with the object in its
  body if there is one, or no answer with the exception's text.
\<close>

datatype http =
    H_Ok "(string \<times> jval) list"
  | H_Status int "(string \<times> jval) list option"
  | H_Failed string

definition send_json :: "response \<Rightarrow> http" where
  "send_json r =
     (case r of
        Bad e \<Rightarrow> H_Status 400 (Some [(''status'', J_Str ''error''), (''error'', J_Str e)])
      | Swapped applied current \<Rightarrow>
          H_Ok ([(''status'', J_Str ''success''), (''applied'', J_Bool applied)]
            @ (if applied then [] else [(''current'', J_Dict current)]))
      | Result_Rows rows \<Rightarrow> H_Ok [(''status'', J_Str ''success''), (''rows'', J_List rows)]
      | Not_Found \<Rightarrow> H_Status 404 None)"

record lwt_result =
  lr_ok :: bool
  lr_applied :: bool
  lr_current :: "(string \<times> jval) list"
  lr_error :: jval

text \<open>A swap that was made.\<close>

definition wins :: "lwt_result \<Rightarrow> bool" where "wins a \<longleftrightarrow> lr_ok a \<and> lr_applied a"

definition lwt_failed :: "jval \<Rightarrow> lwt_result" where
  "lwt_failed e = \<lparr>lr_ok = False, lr_applied = False, lr_current = [], lr_error = e\<rparr>"

definition daruk_url :: string where "daruk_url = ''http://127.0.0.1:9043''"

text \<open>A \<open>current\<close> that is not an object, which the gateway does not send, is read as the empty one.\<close>

definition run_lwt :: "http \<Rightarrow> lwt_result" where
  "run_lwt answer =
     (case answer of
        H_Status code body \<Rightarrow>
          lwt_failed (case body of
              None \<Rightarrow> J_Str (''HTTP '' @ show_int code)
            | Some d \<Rightarrow> (case map_of d ''error'' of Some e \<Rightarrow> e | None \<Rightarrow> J_Str (''HTTP '' @ show_int code)))
      | H_Failed e \<Rightarrow> lwt_failed (J_Str (''Daruk is not answering on '' @ daruk_url @ '': '' @ e))
      | H_Ok res \<Rightarrow>
          if map_of res ''status'' \<noteq> Some (J_Str ''success'')
          then lwt_failed (case map_of res ''error'' of Some e \<Rightarrow> e | None \<Rightarrow> J_Str ''compare-and-swap failed'')
          else \<lparr>lr_ok = True, lr_applied = truthy_jval (map_of res ''applied''),
                lr_current = (case map_of res ''current'' of Some (J_Dict d) \<Rightarrow> d | _ \<Rightarrow> []), lr_error = J_Str ''''\<rparr>)"

text \<open>
  A call through the gateway: the request is served from the database's hidden state. The connection between a daemon and the
  gateway on its own node is taken to hold; without it \<open>run_lwt\<close> fails as in \<open>H_Failed\<close>.
\<close>

definition call_lwt :: "'w daruk_env \<Rightarrow> string \<Rightarrow> (string \<times> jval) list \<Rightarrow> 'w \<Rightarrow> lwt_result \<times> 'w" where
  "call_lwt env path d w =
     (case run_state (do_post env path (Inr (J_Dict d)) []) (at_rest w) of (r, s) \<Rightarrow> (run_lwt (send_json r), hidden s))"

section \<open>The callers\<close>

definition claim_body :: "claim \<Rightarrow> (string \<times> jval) list" where
  "claim_body c =
     [(''vdisk_id'', J_Str (cl_vdisk c)), (''owner'', J_Str (cl_owner c)), (''epoch'', J_Num (cl_epoch c)),
      (''expected_owner'', J_Str (cl_expected_owner c)), (''expected_epoch'', J_Num (cl_expected_epoch c))]"

definition current_owner :: "(string \<times> jval) list \<Rightarrow> string option" where
  "current_owner d =
     (case map_of d ''owner'' of
        Some (J_Str s) \<Rightarrow> Some s
      | v \<Rightarrow> if truthy_jval v then map_option jval_text v else None)"

definition claim_through :: "'w daruk_env \<Rightarrow> claim \<Rightarrow> 'w \<Rightarrow> swap \<times> 'w" where
  "claim_through env c w =
     (case call_lwt env claim_path (claim_body c) w of (a, w') \<Rightarrow>
        (if lr_ok a then Swap (lr_applied a) (current_owner (lr_current a)) else Swap_Failed (jval_text (lr_error a)), w'))"

definition sequence_body :: "string \<Rightarrow> int \<Rightarrow> int option \<Rightarrow> (string \<times> jval) list" where
  "sequence_body component proposed hint =
     [(''component'', J_Str component), (''next_sequence_id'', J_Num proposed),
      (''expected_sequence_id'', (case hint of None \<Rightarrow> J_Null | Some n \<Rightarrow> J_Num n))]"

text \<open>What \<open>int\<close> is given: a value it does not take raises, as a text that is no number does.\<close>

definition pynum_of :: "jval option \<Rightarrow> pynum" where
  "pynum_of v =
     (case v of
        None \<Rightarrow> Nothing | Some J_Null \<Rightarrow> Nothing | Some (J_Num n) \<Rightarrow> Num n | Some (J_Str s) \<Rightarrow> Text s
      | Some (J_Bool b) \<Rightarrow> Num (if b then 1 else 0) | _ \<Rightarrow> Text [])"

definition sequence_through :: "'w daruk_env \<Rightarrow> string \<Rightarrow> int \<Rightarrow> int option \<Rightarrow> 'w \<Rightarrow> lwt_answer \<times> 'w" where
  "sequence_through env component proposed hint w =
     (case call_lwt env sequence_path (sequence_body component proposed hint) w of (a, w') \<Rightarrow>
        (\<lparr>lwt_ok = lr_ok a, lwt_applied_flag = lr_applied a, lwt_current = pynum_of (map_of (lr_current a) ''next_sequence_id'')\<rparr>, w'))"

section \<open>Lemmas\<close>

lemma run_lwt_swapped:
  "run_lwt (send_json (Swapped b cur)) = \<lparr>lr_ok = True, lr_applied = b, lr_current = (if b then [] else cur), lr_error = J_Str ''''\<rparr>"
  by (simp add: run_lwt_def send_json_def truthy_jval_def)

lemma run_lwt_bad: "lr_ok (run_lwt (send_json (Bad e))) = False"
  by (simp add: run_lwt_def send_json_def lwt_failed_def)

text \<open>A call that the operation accepts, over a database that keeps its contract.\<close>

lemma call_lwt_true:
  assumes "serves view env" "map_of lwt_ops path = Some op" "accepted op d" "call_lwt env path d w = (a, w')"
  shows "let st = op_cql op; vs = bound_values op d
    in (lr_ok a \<longrightarrow> lr_applied a = swaps st vs (view w) \<and> view w' = after st vs (view w)
          \<and> (\<not> lr_applied a \<and> \<not> is_insert st \<longrightarrow> row_told st vs (view w) (lr_current a)))
       \<and> (view w' = view w \<or> view w' = after st vs (view w))"
proof -
  obtain r s where run: "run_state (do_post env path (Inr (J_Dict d)) []) (at_rest w) = (r, s)" by fastforce
  then have a: "a = run_lwt (send_json r)" "w' = hidden s" using assms(4) by (auto simp: call_lwt_def)
  from post_runs [OF assms(2) refl assms(3,1) run] show ?thesis
    by (cases r) (auto simp: a run_lwt_swapped run_lwt_bad Let_def)
qed

section \<open>The fence's claims\<close>

definition jtext_of :: "jval \<Rightarrow> string option" where
  "jtext_of v = (case v of J_Str s \<Rightarrow> Some s | _ \<Rightarrow> None)"

definition number_of :: "jval \<Rightarrow> int option" where
  "number_of v = (case v of J_Num n \<Rightarrow> Some n | _ \<Rightarrow> None)"

definition db_owner :: "db \<Rightarrow> ownership" where
  "db_owner db v =
     map_option (\<lambda>row. (jtext_of (db_cell (Some row) ''owner''), number_of (db_cell (Some row) ''epoch''))) (db vdisk_table [J_Str v])"

lemma claim_accepted: "accepted lwt_dfs_claim (claim_body c)"
  by (simp add: accepted_def claim_body_def lwt_dfs_claim_def given_def needed_def needed_or_null_def accepts_def has_type_def)

lemma claim_request:
  "swap_parts (op_cql lwt_dfs_claim) (bound_values lwt_dfs_claim (claim_body c)) =
     \<lparr>sr_table = vdisk_table, sr_key = [J_Str (cl_vdisk c)], sr_sets = [(''owner'', J_Str (cl_owner c)), (''epoch'', J_Num (cl_epoch c))],
      sr_expects = [(Is ''owner'', J_Str (cl_expected_owner c)), (Is ''epoch'', J_Num (cl_expected_epoch c))]\<rparr>"
  by (simp add: lwt_dfs_claim_def bound_values_def named_value_def claim_body_def swap_parts_def stored_def vdisk_table_def)

lemma claim_swaps:
  "swaps (op_cql lwt_dfs_claim) (bound_values lwt_dfs_claim (claim_body c)) db \<longleftrightarrow> db_owner db (cl_vdisk c) = expects c"
  using claim_request [of c]
  by (simp add: swaps_def Let_def) (auto simp: claim_stmt meets_def db_owner_def expects_def jtext_of_def number_of_def db_cell_def
      split: option.splits jval.splits)

lemma claim_after:
  assumes "swaps (op_cql lwt_dfs_claim) (bound_values lwt_dfs_claim (claim_body c)) db"
  shows "db_owner (after (op_cql lwt_dfs_claim) (bound_values lwt_dfs_claim (claim_body c)) db) =
    (db_owner db)(cl_vdisk c := Some (Some (cl_owner c), Some (cl_epoch c)))"
  using assms claim_request [of c]
  by (simp add: after_def Let_def fun_eq_iff db_owner_def) (simp add: written_def Let_def claim_stmt db_cell_def map_of_dict_update jtext_of_def number_of_def)

lemma through_daruk:
  assumes "serves view env"
  shows "claim_table (\<lambda>w. db_owner (view w)) (claim_through env)"
proof
  fix w c w'
  let ?st = "op_cql lwt_dfs_claim" and ?vs = "bound_values lwt_dfs_claim (claim_body c)"
  obtain a w1 where call: "call_lwt env claim_path (claim_body c) w = (a, w1)" by fastforce
  note true = call_lwt_true [OF assms claim_op claim_accepted call, unfolded Let_def]
  have claimed: "claim_through env c w = (if lr_ok a then Swap (lr_applied a) (current_owner (lr_current a)) else Swap_Failed (jval_text (lr_error a)), w1)"
    using call by (simp add: claim_through_def)
  have moved: "db_owner (after ?st ?vs (view w)) =
      (if db_owner (view w) (cl_vdisk c) = expects c then (db_owner (view w))(cl_vdisk c := Some (Some (cl_owner c), Some (cl_epoch c))) else db_owner (view w))"
    using claim_swaps [of c "view w"] claim_after [of c "view w"] by (auto simp: after_def)
  show "applied = (db_owner (view w) (cl_vdisk c) = expects c)
      \<and> db_owner (view w') = (if applied then (db_owner (view w))(cl_vdisk c := Some (Some (cl_owner c), Some (cl_epoch c))) else db_owner (view w))
      \<and> (\<not> applied \<longrightarrow> (case db_owner (view w) (cl_vdisk c) of Some (Some o', _) \<Rightarrow> x = Some o' | _ \<Rightarrow> True))"
    if "claim_through env c w = (Swap applied x, w')" for applied x
  proof -
    have ok: "lr_ok a" and eq: "applied = lr_applied a" "x = current_owner (lr_current a)" "w' = w1" using that claimed by (auto split: if_splits)
    have told: "row_told ?st ?vs (view w) (lr_current a)" if "\<not> applied" using true ok eq that by (simp add: is_insert_def claim_stmt)
    have "case db_owner (view w) (cl_vdisk c) of Some (Some o', _) \<Rightarrow> x = Some o' | _ \<Rightarrow> True" if "\<not> applied"
    proof -
      have "map_of (lr_current a) ''owner'' = Some (db_cell (view w vdisk_table [J_Str (cl_vdisk c)]) ''owner'')"
        using told [OF that] by (simp add: row_told_def Let_def claim_request cond_column_def)
      then show ?thesis by (auto simp: eq db_owner_def current_owner_def jtext_of_def split: option.splits jval.splits)
    qed
    with true ok eq moved claim_swaps [of c "view w"] show ?thesis by simp
  qed
  show "db_owner (view w') = db_owner (view w)
      \<or> db_owner (view w) (cl_vdisk c) = expects c \<and> db_owner (view w') = (db_owner (view w))(cl_vdisk c := Some (Some (cl_owner c), Some (cl_epoch c)))"
    if "claim_through env c w = (Swap_Failed e, w')" for e
  proof -
    have "w' = w1" using that claimed by (auto split: if_splits)
    with true moved show ?thesis by (cases "db_owner (view w) (cl_vdisk c) = expects c") auto
  qed
qed

interpretation memory: claim_table db_owner "claim_through mem_env"
  using through_daruk [OF mem_serves] by simp

section \<open>Sequence numbers\<close>

definition counter :: "string \<Rightarrow> db \<Rightarrow> int option" where
  "counter component = number_at sequences ''next_sequence_id'' (J_Str component)"

text \<open>The column is a \<open>bigint\<close>: it holds a number or nothing.\<close>

definition counter_typed :: "string \<Rightarrow> db \<Rightarrow> bool" where
  "counter_typed component db =
     (case db_cell (db sequences [J_Str component]) ''next_sequence_id'' of J_Null \<Rightarrow> True | J_Num _ \<Rightarrow> True | _ \<Rightarrow> False)"

definition jnum_or_null :: "int option \<Rightarrow> jval" where
  "jnum_or_null e = (case e of None \<Rightarrow> J_Null | Some n \<Rightarrow> J_Num n)"

lemma counter_typed_cell: "counter_typed c db \<Longrightarrow> db_cell (db sequences [J_Str c]) ''next_sequence_id'' = jnum_or_null (counter c db)"
  by (auto simp: counter_typed_def counter_def number_at_def jnum_or_null_def split: jval.splits)

lemma jnum_or_null_inj: "jnum_or_null a = jnum_or_null b \<longleftrightarrow> a = b"
  by (auto simp: jnum_or_null_def split: option.splits)

lemma sequence_accepted: "accepted lwt_catalyst_claim_sequence (sequence_body c p e)"
  by (cases e) (simp_all add: accepted_def sequence_body_def lwt_catalyst_claim_sequence_def given_def needed_def needed_or_null_def
      accepts_def has_type_def)

lemma sequence_request:
  "swap_parts (op_cql lwt_catalyst_claim_sequence) (bound_values lwt_catalyst_claim_sequence (sequence_body c p e)) =
     \<lparr>sr_table = sequences, sr_key = [J_Str c], sr_sets = [(''next_sequence_id'', J_Num p)],
      sr_expects = [(Is ''next_sequence_id'', jnum_or_null e)]\<rparr>"
  by (cases e) (simp_all add: lwt_catalyst_claim_sequence_def bound_values_def named_value_def sequence_body_def swap_parts_def stored_def
      sequences_def jnum_or_null_def)

lemma sequence_stmt:
  "op_cql lwt_catalyst_claim_sequence = L_Update sequences False [''next_sequence_id''] [''component''] [Is ''next_sequence_id'']"
  by (simp add: lwt_catalyst_claim_sequence_def sequences_def)

lemma sequence_swaps:
  assumes "counter_typed c db"
  shows "swaps (op_cql lwt_catalyst_claim_sequence) (bound_values lwt_catalyst_claim_sequence (sequence_body c p e)) db \<longleftrightarrow> counter c db = e"
  using sequence_request [of c p e] counter_typed_cell [OF assms]
  by (simp add: swaps_def Let_def) (simp add: sequence_stmt meets_def jnum_or_null_inj)

lemma sequence_after:
  assumes "swaps (op_cql lwt_catalyst_claim_sequence) (bound_values lwt_catalyst_claim_sequence (sequence_body c p e)) db"
  shows "db_cell (after (op_cql lwt_catalyst_claim_sequence) (bound_values lwt_catalyst_claim_sequence (sequence_body c p e)) db sequences [J_Str c])
    ''next_sequence_id'' = J_Num p"
  using assms sequence_request [of c p e]
  by (simp add: after_def Let_def) (simp add: written_def Let_def sequence_stmt db_cell_def map_of_dict_update)

lemma sequence_through_daruk:
  assumes "serves view env"
  shows "cas_counter (sequence_through env) c (\<lambda>w. counter c (view w)) (\<lambda>w. counter_typed c (view w))"
proof -
  let ?st = "op_cql lwt_catalyst_claim_sequence" and ?vs = "\<lambda>p e. bound_values lwt_catalyst_claim_sequence (sequence_body c p e)"
  have path: "map_of lwt_ops sequence_path = Some lwt_catalyst_claim_sequence" by (rule tasks.in_table)
  have moved: "counter_typed c (after ?st (?vs p e) db)"
    "counter c (after ?st (?vs p e) db) = (if counter c db = e then Some p else counter c db)" if "counter_typed c db" for p e db
    using that sequence_after [of c p e db] sequence_swaps [OF that, of p e]
    by (auto simp: after_def counter_typed_def counter_def number_at_def Let_def)
  have ran: "(lwt_ok a \<longrightarrow> lwt_applied_flag a = (counter c (view w) = e) \<and> view w' = after ?st (?vs p e) (view w)
        \<and> (\<not> lwt_applied_flag a \<longrightarrow> lwt_current a = (case counter c (view w) of None \<Rightarrow> Nothing | Some n \<Rightarrow> Num n)))
      \<and> (view w' = view w \<or> view w' = after ?st (?vs p e) (view w))"
    if counter_typed: "counter_typed c (view w)" and call: "sequence_through env c p e w = (a, w')" for p e w a w'
  proof -
    obtain b w1 where b: "call_lwt env sequence_path (sequence_body c p e) w = (b, w1)" by fastforce
    then have a: "a = \<lparr>lwt_ok = lr_ok b, lwt_applied_flag = lr_applied b, lwt_current = pynum_of (map_of (lr_current b) ''next_sequence_id'')\<rparr>" "w' = w1"
      using call by (auto simp: sequence_through_def)
    note true = call_lwt_true [OF assms path sequence_accepted b]
    have "pynum_of (Some (jnum_or_null x)) = (case x of None \<Rightarrow> Nothing | Some n \<Rightarrow> Num n)" for x
      by (simp add: pynum_of_def jnum_or_null_def split: option.splits)
    moreover have "\<not> is_insert ?st" by (simp add: is_insert_def sequence_stmt)
    ultimately show ?thesis
      using true counter_typed_cell [OF counter_typed]
      by (auto simp: a Let_def sequence_swaps [OF counter_typed] row_told_def sequence_request cond_column_def)
  qed
  show ?thesis
  proof
    fix s p e
    assume ok: "counter_typed c (view s)"
    obtain a s' where call: "sequence_through env c p e s = (a, s')" by fastforce
    show "counter_typed c (view (snd (sequence_through env c p e s)))" using ran [OF ok call] moved [OF ok] ok call by auto
  next
    fix s p e a s'
    assume ok: "counter_typed c (view s)" and call: "sequence_through env c p e s = (a, s')"
    show "\<exists>v. or_int (counter c (view s)) 0 \<le> or_int v 0 \<and> lwt_applied_flag a = (v = e) \<and>
        (if v = e then counter c (view s') = Some p
         else counter c (view s') = v \<and> lwt_current a = (case v of None \<Rightarrow> Nothing | Some n \<Rightarrow> Num n))" if "lwt_ok a"
      using ran [OF ok call] moved(2) [OF ok, of p e] that by (intro exI [of _ "counter c (view s)"]) auto
    show "or_int (counter c (view s)) 0 \<le> or_int (counter c (view s')) 0" if "\<not> lwt_ok a" "or_int e 0 < p"
      using ran [OF ok call] moved(2) [OF ok, of p e] that by (auto simp: or_int_def split: if_splits)
  qed
qed

interpretation memory_counter: cas_counter "sequence_through mem_env" c "counter c" "counter_typed c" for c
  using sequence_through_daruk [OF mem_serves, of c] by simp

section \<open>Properties\<close>

text \<open>
  C28. A storage fence that confirms has taken the disks, through the gateway and down to the database. The rung reads the table whole;
  its claims are made by \<open>run_lwt\<close> through \<open>/v1/dfs/claim\<close> over a database that keeps the contract of conditional statements, which may
  fail any of them before or after it is made; other clients change what they like between them, as long as they give no disk
  to the dead host. When \<open>storage_fence_assert\<close> then confirms, no row of the table names the dead host any more. The host's
  name and address have no white space around them, and this node is not the dead one.
\<close>

theorem storage_fence_takes_the_disks:
  assumes "serves view denv" "read_whole rows (db_owner (view (hidden s)))"
    and "give_nothing (\<lambda>w. db_owner (view w)) hostname ip others"
    and "\<not> dead_owner hostname ip me" "strip hostname = hostname" "strip ip = ip"
    and "run_state (storage_fence_assert (wired me rows (amid others (claim_through denv)) env) hostname ip) s = ((True, detail), s')"
  shows "\<not> names_dead hostname ip (db_owner (view (hidden s'))) v"
  using claim_table.fence_holds [OF through_daruk [OF assms(1)] assms(4,3,2,5,6,7)] .

text \<open>A node on which nothing but the storage answers.\<close>

definition storage_only :: "db fence_env" where
  "storage_only = \<lparr>fe_sidon = True, fe_tool = None, fe_me = (\<lambda>w. (''n3'', w)), fe_rows = (\<lambda>w. (None, w)),
     fe_claim = (\<lambda>_ w. (Swap_Failed [], w)), fe_spark = (\<lambda>_ w. ((0, None, ''timed out''), w)),
     fe_shell = (\<lambda>_ _ w. ((- 1, [], []), w)), fe_attached = (\<lambda>_ w. ((None, []), w)), fe_config = (\<lambda>w. ([], w)),
     fe_password_file = (\<lambda>_ w. (Unusable [], w)), fe_argv = (\<lambda>_ _ w. ((- 1, [], []), w)),
     fe_time = (\<lambda>w. (0, w)), fe_sleep = (\<lambda>t w. ((), w))\<rparr>"

text \<open>Two disks of a dead host and one of another.\<close>

definition three_disks :: db where
  "three_disks = (\<lambda>t k. if t = vdisk_table then
     (if k = [J_Str ''a''] then Some [(''vdisk_id'', J_Str ''a''), (''owner'', J_Str ''n1''), (''epoch'', J_Num 4)]
      else if k = [J_Str ''b''] then Some [(''vdisk_id'', J_Str ''b''), (''owner'', J_Str ''n2''), (''epoch'', J_Num 7)]
      else if k = [J_Str ''c''] then Some [(''vdisk_id'', J_Str ''c''), (''owner'', J_Str ''n1''), (''epoch'', J_Num 1)]
      else None) else None)"

definition three_rows :: "owner_row list" where
  "three_rows = [\<lparr>w_vdisk = ''a'', w_owner = Some ''n1'', w_epoch = Some 4\<rparr>,
     \<lparr>w_vdisk = ''b'', w_owner = Some ''n2'', w_epoch = Some 7\<rparr>, \<lparr>w_vdisk = ''c'', w_owner = Some ''n1'', w_epoch = Some 1\<rparr>]"

lemma three_listed: "read_whole three_rows (db_owner three_disks)"
  by (auto simp: read_whole_def three_rows_def three_disks_def db_owner_def db_cell_def jtext_of_def number_of_def split: if_splits)

text \<open>Another node takes the third disk while the fence runs.\<close>

definition n2_takes :: "db \<Rightarrow> db" where
  "n2_takes db = (\<lambda>t k. if t = vdisk_table \<and> k = [J_Str ''c''] then Some [(''vdisk_id'', J_Str ''c''), (''owner'', J_Str ''n2''), (''epoch'', J_Num 2)]
     else db t k)"

lemma n2_gives_nothing: "give_nothing db_owner ''n1'' ''10.0.0.1'' n2_takes"
proof -
  have "\<not> dead_owner ''n1'' ''10.0.0.1'' ''n2''" by code_simp
  then show ?thesis
    by (auto simp: give_nothing_def names_dead_def db_owner_def n2_takes_def db_cell_def jtext_of_def split: option.splits if_splits)
qed

theorem storage_fence_takes_the_disks_witness:
  "\<exists>detail s'. run_state (storage_fence_assert (wired ''n3'' three_rows (amid n2_takes (claim_through mem_env)) storage_only) ''n1'' ''10.0.0.1'')
       (at_rest three_disks) = ((True, detail), s')
     \<and> (\<forall>v. \<not> names_dead ''n1'' ''10.0.0.1'' (db_owner (hidden s')) v)"
proof -
  let ?run = "run_state (storage_fence_assert (wired ''n3'' three_rows (amid n2_takes (claim_through mem_env)) storage_only) ''n1'' ''10.0.0.1'')
       (at_rest three_disks)"
  obtain confirmed detail s' where run: "?run = ((confirmed, detail), s')" by (metis surj_pair)
  have "fst (fst ?run)" by code_simp
  with run have run: "?run = ((True, detail), s')" by simp
  have n: "\<not> dead_owner ''n1'' ''10.0.0.1'' ''n3''" "strip ''n1'' = ''n1''" "strip ''10.0.0.1'' = ''10.0.0.1''" by code_simp+
  have whole: "read_whole three_rows (db_owner (id (hidden (at_rest three_disks :: (db, fevent) world))))" using three_listed by simp
  have gives: "give_nothing (\<lambda>w. db_owner (id w)) ''n1'' ''10.0.0.1'' n2_takes" using n2_gives_nothing by simp
  have "\<not> names_dead ''n1'' ''10.0.0.1'' (db_owner (id (hidden s'))) v" for v
    by (rule storage_fence_takes_the_disks [OF mem_serves whole gives n run])
  with run show ?thesis by auto
qed

text \<open>
  Left to itself the rung is the specification \<open>taken\<close>, as far as it gets: each row is as it was or has this node as its owner one
  epoch up in place of the dead host, also where claims fail; and when the rung confirms, every row is as specified.
\<close>

theorem storage_fence_refines:
  assumes "serves view denv" "read_whole rows (db_owner (view (hidden s)))"
    and "\<not> dead_owner hostname ip me" "strip hostname = hostname" "strip ip = ip"
    and "run_state (storage_fence_assert (wired me rows (amid (\<lambda>w. w) (claim_through denv)) env) hostname ip) s = ((confirmed, detail), s')"
  shows "(\<forall>v. db_owner (view (hidden s')) v \<in> {db_owner (view (hidden s)) v, taken me hostname ip (db_owner (view (hidden s))) v})
    \<and> (confirmed \<longrightarrow> db_owner (view (hidden s')) = taken me hostname ip (db_owner (view (hidden s))))"
proof -
  note table = through_daruk [OF assms(1)]
  have each: "db_owner (view (hidden s')) v = db_owner (view (hidden s)) v
      \<or> db_owner (view (hidden s')) v = taken me hostname ip (db_owner (view (hidden s))) v" for v
    using claim_table.fence_takes [OF table assms(3,6)] .
  moreover have "db_owner (view (hidden s')) v = taken me hostname ip (db_owner (view (hidden s))) v" if confirmed for v
  proof -
    have "give_nothing (\<lambda>w. db_owner (view w)) hostname ip (\<lambda>w. w)" by (simp add: give_nothing_def)
    then have "\<not> names_dead hostname ip (db_owner (view (hidden s'))) v"
      using claim_table.fence_holds [OF table assms(3) _ assms(2,4,5)] assms(6) that by simp
    with each [of v] taken_is_fenced [of hostname ip "db_owner (view (hidden s))" v me] show ?thesis by (auto simp: names_dead_def)
  qed
  ultimately show ?thesis by blast
qed

theorem storage_fence_refines_witness:
  "\<exists>detail s'. run_state (storage_fence_assert (wired ''n3'' three_rows (amid (\<lambda>w. w) (claim_through mem_env)) storage_only) ''n1'' ''10.0.0.1'')
       (at_rest three_disks) = ((True, detail), s')
     \<and> map (db_owner (hidden s')) [''a'', ''b'', ''c''] = [Some (Some ''n3'', Some 5), Some (Some ''n2'', Some 7), Some (Some ''n3'', Some 2)]"
proof -
  let ?run = "run_state (storage_fence_assert (wired ''n3'' three_rows (amid (\<lambda>w. w) (claim_through mem_env)) storage_only) ''n1'' ''10.0.0.1'')
       (at_rest three_disks)"
  obtain confirmed detail s' where run: "?run = ((confirmed, detail), s')" by (metis surj_pair)
  have "fst (fst ?run)" by code_simp
  with run have run: "?run = ((True, detail), s')" by simp
  have n: "\<not> dead_owner ''n1'' ''10.0.0.1'' ''n3''" "strip ''n1'' = ''n1''" "strip ''10.0.0.1'' = ''10.0.0.1''" by code_simp+
  have whole: "read_whole three_rows (db_owner (id (hidden (at_rest three_disks :: (db, fevent) world))))" using three_listed by simp
  have "map (taken ''n3'' ''n1'' ''10.0.0.1'' (db_owner three_disks)) [''a'', ''b'', ''c'']
      = [Some (Some ''n3'', Some 5), Some (Some ''n2'', Some 7), Some (Some ''n3'', Some 2)]" by code_simp
  with storage_fence_refines [OF mem_serves whole n run] run show ?thesis by auto
qed

text \<open>
  A task's sequence number is new. Whatever hint a submitter passes to \<open>claim_task_sequence\<close>, with its
  claims made through the gateway over a database that keeps the contract of conditional statements, a number it
  returns is above everything the component's counter had reached, and is what the counter then holds.
\<close>

theorem sequence_numbers_are_fresh:
  assumes "serves view env" "counter_typed component (view w)"
    and "claim_task_sequence (sequence_through env) component hint attempts w = (Some k, w')"
  shows "or_int (counter component (view w)) 0 < k \<and> counter component (view w') = Some k"
  using cas_counter.claim_loop_fresh [OF sequence_through_daruk [OF assms(1)] assms(2)] assms(3) unfolding claim_task_sequence_def .

definition counter_db :: "int \<Rightarrow> db" where
  "counter_db n = (\<lambda>t k. if t = sequences \<and> k = [J_Str ''Rauru''] then Some [(''next_sequence_id'', J_Num n)] else None)"

theorem sequence_numbers_are_fresh_witness:
  "\<exists>w'. claim_task_sequence (sequence_through mem_env) ''Rauru'' (Num 7) 6 (counter_db 41) = (Some 42, w') \<and> counter ''Rauru'' w' = Some 42"
proof -
  obtain r w' where run: "claim_task_sequence (sequence_through mem_env) ''Rauru'' (Num 7) 6 (counter_db 41) = (r, w')" by fastforce
  have "fst (claim_task_sequence (sequence_through mem_env) ''Rauru'' (Num 7) 6 (counter_db 41)) = Some 42" by code_simp
  then have r: "r = Some 42" using run by simp
  have "counter_typed ''Rauru'' (id (counter_db 41))" by (simp add: counter_typed_def counter_db_def db_cell_def)
  from sequence_numbers_are_fresh [OF mem_serves this run [unfolded r]] run r show ?thesis by simp
qed

end
