(* ===== verification/Catalyst.thy ===== *)
theory Catalyst
  imports Cluster_Env Daruk_Clients
begin

text \<open>
  The task engine (\<open>src/catalyst.py\<close>). Its state is the module's: the in-memory queues, one per worker, the completion events and
  results, the ids this process has queued and the hints for sequence numbers. The operations are the handlers of the API
  (submission, update, the workers' poll, the status of a task), the scheduler's pass with the claim of a tick, and the
  dispatch loop that holds the queues and replays recorded tasks. The election, the database, the clock and the ids are
  effects; a \<open>SELECT JSON\<close> with the reading of its lines is one typed reader per table; the fields of a request are texts or missing. The
  HTTP and TLS layers, the loading of the schema module and printed lines are left out.

  The handlers and the two loops run in threads of one process. Each operation below is one thread's work in one piece, except a
  submission, which is cut where another thread can come between its row and its queue entry.
\<close>

section \<open>State\<close>

record queue_entry =
  qe_task :: string
  qe_action :: "string option"
  qe_payload :: "(string \<times> jval) list"

record catalyst =
  ca_queues :: "(string \<times> queue_entry list) list"
  ca_events :: "(string \<times> bool) list"
  ca_results :: "(string \<times> (string \<times> jval) list) list"
  ca_queued :: "string list"
  ca_hints :: "(string \<times> int) list"

definition new_catalyst :: catalyst where
  "new_catalyst = \<lparr>ca_queues = [(''vali'', []), (''dagur'', []), (''lanayru'', [])], ca_events = [], ca_results = [],
     ca_queued = [], ca_hints = []\<rparr>"

definition default_component :: string where "default_component = ''Catalyst''"

definition dict_pop :: "'k \<Rightarrow> ('k \<times> 'v) list \<Rightarrow> ('k \<times> 'v) list" where
  "dict_pop k d = filter (\<lambda>(a, _). a \<noteq> k) d"

definition set_add :: "'a \<Rightarrow> 'a list \<Rightarrow> 'a list" where
  "set_add x xs = (if x \<in> set xs then xs else xs @ [x])"

definition submit_task_to_memory :: "string option \<Rightarrow> queue_entry \<Rightarrow> catalyst \<Rightarrow> catalyst" where
  "submit_task_to_memory service task st =
     (case service of
        None \<Rightarrow> st
      | Some sv \<Rightarrow>
          (case map_of (ca_queues st) sv of
             None \<Rightarrow> st
           | Some q \<Rightarrow>
               st\<lparr>ca_queues := dict_set sv (q @ [task]) (ca_queues st),
                  ca_events := dict_set (qe_task task) False (ca_events st),
                  ca_queued := set_add (qe_task task) (ca_queued st)\<rparr>))"

definition drain_in_memory_queues :: "catalyst \<Rightarrow> nat \<times> catalyst" where
  "drain_in_memory_queues st =
     (sum_list (map (length \<circ> snd) (ca_queues st)), st\<lparr>ca_queues := map (\<lambda>(s, _). (s, [])) (ca_queues st)\<rparr>)"

section \<open>The environment\<close>

record open_row =
  or_task :: "string option"
  or_service :: "string option"
  or_action :: "string option"
  or_status :: "string option"
  or_payload :: "string option"

record schedule_row =
  sd_name :: string
  sd_enabled :: "bool option"
  sd_last_run :: "int option"
  sd_interval :: "int option"
  sd_command :: "string option"

text \<open>
  \<open>ct_loads\<close> is \<open>json.loads\<close>, \<open>None\<close> where it raises. A read of the schedules that failed answers with no rows, as the scheduler treats
  it; a read of the open tasks that failed answers with \<open>None\<close>. \<open>ct_send\<close> says whether the worker that polled got the answer.
\<close>

record 'w catalyst_env =
  ct_dispatch :: "'w \<Rightarrow> bool \<times> 'w"
  ct_scheduler :: "'w \<Rightarrow> bool \<times> 'w"
  ct_exec :: "stmt \<Rightarrow> 'w \<Rightarrow> (int \<times> string) \<times> 'w"
  ct_tasks :: "'w \<Rightarrow> open_row list option \<times> 'w"
  ct_schedules :: "'w \<Rightarrow> schedule_row list \<times> 'w"
  ct_status :: "string \<Rightarrow> 'w \<Rightarrow> (string \<times> jval) list option \<times> 'w"
  ct_lwt :: "string \<Rightarrow> (string \<times> jval) list \<Rightarrow> 'w \<Rightarrow> lwt_result \<times> 'w"
  ct_send :: "queue_entry \<Rightarrow> 'w \<Rightarrow> bool \<times> 'w"
  ct_uuid :: "'w \<Rightarrow> string \<times> 'w"
  ct_time :: "'w \<Rightarrow> real \<times> 'w"
  ct_loads :: "string \<Rightarrow> jval option"

datatype cevent =
    K_Leads bool
  | K_Exec stmt int
  | K_Reported stmt int
  | K_Tasks "open_row list option"
  | K_Schedules "schedule_row list"
  | K_Claim string "int option" int lwt_result
  | K_Queued string string
  | K_Cleared
  | K_Sent queue_entry bool

definition in_seconds :: "real \<Rightarrow> int" where "in_seconds t = \<lfloor>t\<rfloor>"

definition in_millis :: "real \<Rightarrow> int" where "in_millis t = \<lfloor>t * 1000\<rfloor>"

definition run_statement :: "'w catalyst_env \<Rightarrow> stmt \<Rightarrow> ('w, cevent, int \<times> string) eff" where
  "run_statement env s = act (ct_exec env s) (\<lambda>r. K_Exec s (fst r))"

definition holds_dispatch :: "'w catalyst_env \<Rightarrow> ('w, cevent, bool) eff" where
  "holds_dispatch env = act (ct_dispatch env) K_Leads"

text \<open>The queue entry and its mark in the trace, when there is such a queue.\<close>

definition enqueue :: "string option \<Rightarrow> queue_entry \<Rightarrow> catalyst \<Rightarrow> ('w, cevent, catalyst) eff" where
  "enqueue service task st = do {
     _ \<leftarrow> (case service of
          Some sv \<Rightarrow> if map_of (ca_queues st) sv \<noteq> None then mark (K_Queued sv (qe_task task)) else ret ()
        | None \<Rightarrow> ret ());
     ret (submit_task_to_memory service task st) }"

section \<open>Sequence numbers\<close>

definition sequence_lwt :: "'w catalyst_env \<Rightarrow> string \<Rightarrow> int \<Rightarrow> int option \<Rightarrow> 'w \<Rightarrow> lwt_answer \<times> 'w" where
  "sequence_lwt env component proposed hint w =
     (case ct_lwt env sequence_path (sequence_body component proposed hint) w of (a, w') \<Rightarrow>
        (\<lparr>lwt_ok = lr_ok a, lwt_applied_flag = lr_applied a, lwt_current = pynum_of (map_of (lr_current a) ''next_sequence_id'')\<rparr>, w'))"

definition next_sequence_id :: "'w catalyst_env \<Rightarrow> string \<Rightarrow> catalyst \<Rightarrow> ('w, cevent, int option \<times> catalyst) eff" where
  "next_sequence_id env component st = do {
     let hint = (case map_of (ca_hints st) component of None \<Rightarrow> Nothing | Some n \<Rightarrow> Num n);
     claimed \<leftarrow> look (claim_task_sequence (sequence_lwt env) component hint 6);
     ret (case claimed of
            None \<Rightarrow> (None, st)
          | Some n \<Rightarrow> (Some n, st\<lparr>ca_hints := dict_set component n (ca_hints st)\<rparr>)) }"

section \<open>The scheduler\<close>

definition claim_scheduled_run :: "'w catalyst_env \<Rightarrow> string \<Rightarrow> int option \<Rightarrow> int \<Rightarrow> ('w, cevent, bool) eff" where
  "claim_scheduled_run env job recorded now = do {
     a \<leftarrow> act (ct_lwt env job_path
        [(''job_name'', J_Str job), (''last_run_epoch'', J_Num now),
         (''expected_last_run_epoch'', case recorded of None \<Rightarrow> J_Null | Some n \<Rightarrow> J_Num n)]) (K_Claim job recorded now);
     ret (if \<not> lr_ok a then False else if \<not> lr_applied a then False else True) }"

definition queue_scheduled_task :: "'w catalyst_env \<Rightarrow> string option \<Rightarrow> queue_entry \<Rightarrow> catalyst \<Rightarrow> ('w, cevent, bool \<times> catalyst) eff" where
  "queue_scheduled_task env service task st = do {
     mine \<leftarrow> holds_dispatch env;
     if \<not> mine then ret (False, st) else do { st' \<leftarrow> enqueue service task st; ret (True, st') } }"

definition recorded_row :: "string \<Rightarrow> string option \<Rightarrow> string option \<Rightarrow> string \<Rightarrow> string option \<Rightarrow> string option \<Rightarrow> int option \<Rightarrow> string option \<Rightarrow> task_row" where
  "recorded_row tid service action payload component ty sq parent =
     \<lparr>t_id = Some tid, t_service = service, t_action = action, t_payload = payload, t_component = component, t_type = ty,
      t_sequence = (case sq of None \<Rightarrow> Nothing | Some n \<Rightarrow> Num n), t_parent = parent, t_status = Some task_pending, t_progress = 0\<rparr>"

definition job_payload :: "string \<Rightarrow> string option \<Rightarrow> (string \<times> jval) list" where
  "job_payload job command = [(''job_name'', J_Str job), (''command'', case command of None \<Rightarrow> J_Null | Some c \<Rightarrow> J_Str c)]"

text \<open>One due job: claim the tick, then record and queue it.\<close>

definition trigger_job :: "'w catalyst_env \<Rightarrow> int \<Rightarrow> schedule_row \<Rightarrow> (string \<times> int) list \<times> catalyst \<Rightarrow>
    ('w, cevent, (string \<times> int) list \<times> catalyst) eff" where
  "trigger_job env now s x = (case x of (local, st) \<Rightarrow> do {
     mine \<leftarrow> claim_scheduled_run env (sd_name s) (sd_last_run s) now;
     if \<not> mine then ret (local, st)
     else do {
       let local1 = dict_set (sd_name s) now local;
       let payload = job_payload (sd_name s) (sd_command s);
       tid \<leftarrow> look (ct_uuid env);
       t \<leftarrow> look (ct_time env);
       (sq, st1) \<leftarrow> next_sequence_id env default_component st;
       _ \<leftarrow> run_statement env (Task_Insert (recorded_row tid (Some ''dagur'') (Some ''execute'') (dumps (J_Dict payload))
              (Some default_component) (Some ''scheduled_job'') sq None) (in_millis t));
       (_, st2) \<leftarrow> queue_scheduled_task env (Some ''dagur'')
              \<lparr>qe_task = tid, qe_action = Some ''execute'', qe_payload = payload\<rparr> st1;
       ret (local1, st2) } })"

definition job_due :: "int \<Rightarrow> (string \<times> int) list \<Rightarrow> schedule_row \<Rightarrow> bool" where
  "job_due now local s =
     (let interval = or_int (sd_interval s) 3600
      in sd_enabled s = Some True
         \<and> \<not> (case map_of local (sd_name s) of None \<Rightarrow> False | Some before \<Rightarrow> now - before < interval)
         \<and> interval \<le> now - (case sd_last_run s of None \<Rightarrow> 0 | Some n \<Rightarrow> n))"

text \<open>One pass of \<open>scheduler_thread_loop\<close>; between two passes it sleeps.\<close>

definition scheduler_pass :: "'w catalyst_env \<Rightarrow> (string \<times> int) list \<Rightarrow> catalyst \<Rightarrow> ('w, cevent, (string \<times> int) list \<times> catalyst) eff" where
  "scheduler_pass env local st = do {
     leads \<leftarrow> act (ct_scheduler env) K_Leads;
     if \<not> leads then ret (local, st)
     else do {
       rows \<leftarrow> act (ct_schedules env) K_Schedules;
       if rows = [] then ret (local, st)
       else do {
         t \<leftarrow> look (ct_time env);
         for_each (\<lambda>s x. if job_due (in_seconds t) (fst x) s then trigger_job env (in_seconds t) s x else ret x) rows (local, st) } } }"

section \<open>The API\<close>

record submission =
  su_service :: "string option"
  su_action :: "string option"
  su_payload :: jval
  su_component :: "string option"
  su_task_type :: "string option"
  su_type :: "string option"
  su_parent :: "string option"

datatype reply =
    R_Error int string
  | R_Task queue_entry
  | R_Empty
  | R_Accepted string
  | R_Status "(string \<times> jval) list"
  | R_Ok

definition dict_of_payload :: "jval \<Rightarrow> (string \<times> jval) list" where
  "dict_of_payload v = (case v of J_Dict d \<Rightarrow> d | _ \<Rightarrow> [])"

definition parent_of :: "submission \<Rightarrow> string option" where
  "parent_of sub =
     (if truthy_str (su_parent sub) then su_parent sub
      else (let v = map_of (dict_of_payload (su_payload sub)) ''parent_task_id''
            in if truthy_jval v then map_option jval_text v else None))"

definition bad_service :: "string \<Rightarrow> catalyst \<Rightarrow> string" where
  "bad_service service st = ''No queue named '' @ quoted service @ '' exists, so this task would never run. Services with a worker: ''
     @ join '', '' (sort (map fst (ca_queues st))) @ ''.''"

text \<open>The part of \<open>/api/v1/tasks/submit\<close> up to the recorded row: a reply that ends it, or the task to queue.\<close>

definition record_submission :: "'w catalyst_env \<Rightarrow> string + submission \<Rightarrow> catalyst \<Rightarrow>
    ('w, cevent, (reply + string \<times> queue_entry) \<times> catalyst) eff" where
  "record_submission env body st =
     (case body of
        Inl e \<Rightarrow> ret (Inl (R_Error 400 (''Invalid JSON payload: '' @ e)), st)
      | Inr sub \<Rightarrow>
          if \<not> truthy_str (su_service sub) \<or> \<not> truthy_str (su_action sub)
          then ret (Inl (R_Error 400 ''service and action fields required''), st)
          else if map_of (ca_queues st) (the (su_service sub)) = None
          then ret (Inl (R_Error 400 (bad_service (the (su_service sub)) st)), st)
          else do {
            tid \<leftarrow> look (ct_uuid env);
            t \<leftarrow> look (ct_time env);
            let payload = dict_of_payload (su_payload sub);
            let component = or_str (or_else (su_component sub) (su_service sub)) default_component;
            (sq, st1) \<leftarrow> next_sequence_id env component st;
            (rc, err) \<leftarrow> run_statement env (Task_Insert (recorded_row tid (su_service sub) (su_action sub) (dumps (J_Dict payload))
                (Some component) (or_else (su_task_type sub) (su_type sub)) sq (parent_of sub)) (in_millis t));
            if rc \<noteq> 0
            then ret (Inl (R_Error 500 (''the task could not be recorded: '' @ take 200 (strip (if err = [] then ''database error'' else err)))), st1)
            else ret (Inr (the (su_service sub), \<lparr>qe_task = tid, qe_action = su_action sub, qe_payload = payload\<rparr>), st1) })"

definition queue_submission :: "'w catalyst_env \<Rightarrow> string \<Rightarrow> queue_entry \<Rightarrow> catalyst \<Rightarrow> ('w, cevent, reply \<times> catalyst) eff" where
  "queue_submission env service task st = do {
     mine \<leftarrow> holds_dispatch env;
     st' \<leftarrow> (if mine then enqueue (Some service) task st else ret st);
     ret (R_Accepted (qe_task task), st') }"

definition post_submit :: "'w catalyst_env \<Rightarrow> string + submission \<Rightarrow> catalyst \<Rightarrow> ('w, cevent, reply \<times> catalyst) eff" where
  "post_submit env body st = do {
     (r, st1) \<leftarrow> record_submission env body st;
     case r of Inl reply \<Rightarrow> ret (reply, st1) | Inr (service, task) \<Rightarrow> queue_submission env service task st1 }"

record task_update =
  tu_task :: "string option"
  tu_status :: "string option"
  tu_progress :: int
  tu_error :: string
  tu_result :: jval

definition post_update :: "'w catalyst_env \<Rightarrow> string + task_update \<Rightarrow> catalyst \<Rightarrow> ('w, cevent, reply \<times> catalyst) eff" where
  "post_update env body st =
     (case body of
        Inl e \<Rightarrow> ret (R_Error 400 (''Invalid JSON payload: '' @ e), st)
      | Inr up \<Rightarrow>
          if \<not> truthy_str (tu_task up) \<or> \<not> truthy_str (tu_status up)
          then ret (R_Error 400 ''task_id and status fields required'', st)
          else do {
            t \<leftarrow> look (ct_time env);
            let stmt = Task_Update (tu_task up) (tu_status up) (tu_progress up) (in_millis t) (Some (tu_error up));
            _ \<leftarrow> act (ct_exec env stmt) (\<lambda>r. K_Reported stmt (fst r));
            let tid = the (tu_task up);
            ret (R_Ok,
              if the (tu_status up) \<in> set task_terminal then
                (let st1 = st\<lparr>ca_queued := filter (\<lambda>x. x \<noteq> tid) (ca_queued st)\<rparr>
                 in if map_of (ca_events st) tid = None then st1
                    else st1\<lparr>ca_results := dict_set tid [(''status'', J_Str (the (tu_status up))), (''error_msg'', J_Str (tu_error up)),
                               (''result'', tu_result up)] (ca_results st1),
                             ca_events := dict_set tid True (ca_events st1)\<rparr>)
              else st) })"

text \<open>
  \<open>GET /api/v1/queues/<service>\<close>. The wait of thirty seconds on an empty queue ends with an entry or without; here it ends without, and an
  entry that came meanwhile is one that was there.
\<close>

definition get_queue :: "'w catalyst_env \<Rightarrow> string \<Rightarrow> catalyst \<Rightarrow> ('w, cevent, reply \<times> catalyst) eff" where
  "get_queue env service st =
     (case map_of (ca_queues st) service of
        None \<Rightarrow> ret (R_Error 404 (''Unknown service queue: '' @ service), st)
      | Some q \<Rightarrow> do {
          mine \<leftarrow> holds_dispatch env;
          if \<not> mine then ret (R_Error 503 ''this node does not hold the Catalyst dispatch candidacy'', st)
          else (case q of
              [] \<Rightarrow> ret (R_Empty, st)
            | task # rest \<Rightarrow> do {
                _ \<leftarrow> act (ct_send env task) (K_Sent task);
                ret (R_Task task, st\<lparr>ca_queues := dict_set service rest (ca_queues st)\<rparr>) }) })"

text \<open>\<open>GET /api/v1/tasks/status/<id>\<close> from the id in its usual form on; the wait for the event ends with it set or not.\<close>

definition get_status :: "'w catalyst_env \<Rightarrow> string \<Rightarrow> catalyst \<Rightarrow> ('w, cevent, reply \<times> catalyst) eff" where
  "get_status env tid st = do {
     row \<leftarrow> look (ct_status env tid);
     let forget = st\<lparr>ca_events := dict_pop tid (ca_events st), ca_results := dict_pop tid (ca_results st)\<rparr>;
     let finished = (\<lambda>d. map_of d ''status'' \<in> {Some (J_Str task_completed), Some (J_Str task_failed)});
     case row of
       Some d \<Rightarrow>
         if finished d then ret (R_Status d, forget)
         else ret (case map_of (ca_events st) tid of
             Some True \<Rightarrow> (R_Status (case map_of (ca_results st) tid of Some x \<Rightarrow> x | None \<Rightarrow> [(''status'', J_Str ''unknown'')]), forget)
           | Some False \<Rightarrow> (R_Empty, st)
           | None \<Rightarrow> (if d = [] then R_Error 404 ''Task not found'' else R_Status d, st))
     | None \<Rightarrow>
         ret (case map_of (ca_events st) tid of
             Some True \<Rightarrow> (R_Status (case map_of (ca_results st) tid of Some x \<Rightarrow> x | None \<Rightarrow> [(''status'', J_Str ''unknown'')]), forget)
           | Some False \<Rightarrow> (R_Empty, st)
           | None \<Rightarrow> (R_Error 404 ''Task not found'', st)) }"

section \<open>Recovery\<close>

definition in_flight_reason :: string where
  "in_flight_reason = ''Interrupted: this task was running when the Catalyst holding its queue stopped, so how far it got is not recorded. Re-submit it after checking what it had already changed.''"

definition no_queue_reason :: "string option \<Rightarrow> string" where
  "no_queue_reason service = ''No queue named '' @ quoted (case service of None \<Rightarrow> ''None'' | Some s \<Rightarrow> s)
     @ '' exists, so this task has no worker and cannot run.''"

definition open_status :: "open_row \<Rightarrow> bool" where
  "open_status r \<longleftrightarrow> or_status r = Some task_pending \<or> or_status r = Some task_processing"

definition read_open_tasks :: "'w catalyst_env \<Rightarrow> ('w, cevent, open_row list option) eff" where
  "read_open_tasks env = do {
     rows \<leftarrow> act (ct_tasks env) K_Tasks;
     ret (map_option (filter open_status) rows) }"

definition fail_task :: "'w catalyst_env \<Rightarrow> string option \<Rightarrow> string \<Rightarrow> ('w, cevent, unit) eff" where
  "fail_task env tid reason = do {
     t \<leftarrow> look (ct_time env);
     _ \<leftarrow> run_statement env (Task_Update tid (Some task_failed) 100 (in_millis t) (Some reason));
     ret () }"

definition replay_payload :: "'w catalyst_env \<Rightarrow> open_row \<Rightarrow> (string \<times> jval) list" where
  "replay_payload env r =
     (case ct_loads env (or_str (or_payload r) ''{}'') of Some (J_Dict d) \<Rightarrow> d | _ \<Rightarrow> [])"

definition known_service :: "catalyst \<Rightarrow> string option \<Rightarrow> bool" where
  "known_service st service = (case service of None \<Rightarrow> False | Some s \<Rightarrow> map_of (ca_queues st) s \<noteq> None)"

definition recover_row :: "'w catalyst_env \<Rightarrow> bool \<Rightarrow> open_row \<Rightarrow> (nat \<times> nat) \<times> catalyst \<Rightarrow>
    ('w, cevent, (nat \<times> nat) \<times> catalyst) eff" where
  "recover_row env fail_in_flight r x = (case x of ((requeued, failed), st) \<Rightarrow>
     if \<not> truthy_str (or_task r) then ret x
     else if or_status r = Some task_processing then
       (if fail_in_flight then do { _ \<leftarrow> fail_task env (or_task r) in_flight_reason; ret ((requeued, failed + 1), st) } else ret x)
     else if \<not> known_service st (or_service r) then do {
       _ \<leftarrow> fail_task env (or_task r) (no_queue_reason (or_service r));
       ret ((requeued, failed + 1), st) }
     else if the (or_task r) \<in> set (ca_queued st) then ret x
     else do {
       st' \<leftarrow> enqueue (or_service r) \<lparr>qe_task = the (or_task r), qe_action = or_action r, qe_payload = replay_payload env r\<rparr> st;
       ret ((requeued + 1, failed), st') })"

text \<open>The first result is \<open>LAST_RECOVERY_READ_OK\<close>.\<close>

definition recover_open_tasks :: "'w catalyst_env \<Rightarrow> bool \<Rightarrow> catalyst \<Rightarrow> ('w, cevent, bool \<times> (nat \<times> nat) \<times> catalyst) eff" where
  "recover_open_tasks env fail_in_flight st = do {
     rows \<leftarrow> read_open_tasks env;
     case rows of
       None \<Rightarrow> ret (False, (0, 0), st)
     | Some rs \<Rightarrow> do { x \<leftarrow> for_each (recover_row env fail_in_flight) rs ((0, 0), st); ret (True, x) } }"

section \<open>The dispatch loop\<close>

definition dispatch_sweep_seconds :: real where "dispatch_sweep_seconds = 15"

record dispatch_state =
  di_was :: "bool option"
  di_last_sweep :: real
  di_acquired :: bool

definition new_dispatch :: dispatch_state where
  "new_dispatch = \<lparr>di_was = None, di_last_sweep = 0, di_acquired = False\<rparr>"

text \<open>A change of the lead: who takes the queues starts from the recorded rows.\<close>

definition take_dispatch :: "bool \<Rightarrow> dispatch_state \<Rightarrow> catalyst \<Rightarrow> ('w, cevent, dispatch_state \<times> catalyst) eff" where
  "take_dispatch leading di st =
     (if Some leading = di_was di then ret (di, st)
      else (let di1 = di\<lparr>di_was := Some leading\<rparr>
            in if leading then do {
                 _ \<leftarrow> mark K_Cleared;
                 ret (di1\<lparr>di_last_sweep := 0, di_acquired := True\<rparr>, snd (drain_in_memory_queues (st\<lparr>ca_queued := []\<rparr>))) }
               else ret (di1, st)))"

definition dispatch_pass :: "'w catalyst_env \<Rightarrow> dispatch_state \<times> catalyst \<Rightarrow> ('w, cevent, dispatch_state \<times> catalyst) eff" where
  "dispatch_pass env x = (case x of (di, st) \<Rightarrow> do {
     leading \<leftarrow> holds_dispatch env;
     (di1, st1) \<leftarrow> take_dispatch leading di st;
     if \<not> leading then ret (di1, st1)
     else do {
       now \<leftarrow> look (ct_time env);
       if now - di_last_sweep di1 < dispatch_sweep_seconds then ret (di1, st1)
       else do {
         again \<leftarrow> look (ct_time env);
         (read, _, st2) \<leftarrow> recover_open_tasks env (di_acquired di1) st1;
         ret (di1\<lparr>di_last_sweep := again, di_acquired := di_acquired di1 \<and> \<not> read\<rparr>, st2) } } })"

section \<open>A node's threads\<close>

text \<open>
  What the threads of one process do, one operation after the other, in any order and any number: the API's handlers, the scheduler and the
  dispatch loop. The scheduler's memory, the dispatch loop's variables and the shared state.
\<close>

datatype thread_step =
    T_Submit "string + submission" | T_Update "string + task_update" | T_Poll string | T_Status string | T_Schedule | T_Dispatch

record engine =
  en_local :: "(string \<times> int) list"
  en_dispatch :: dispatch_state
  en_state :: catalyst

definition new_engine :: engine where
  "new_engine = \<lparr>en_local = [], en_dispatch = new_dispatch, en_state = new_catalyst\<rparr>"

definition engine_step :: "'w catalyst_env \<Rightarrow> thread_step \<Rightarrow> engine \<Rightarrow> ('w, cevent, engine) eff" where
  "engine_step env step en =
     (case step of
        T_Submit body \<Rightarrow> do { (_, st) \<leftarrow> post_submit env body (en_state en); ret (en\<lparr>en_state := st\<rparr>) }
      | T_Update body \<Rightarrow> do { (_, st) \<leftarrow> post_update env body (en_state en); ret (en\<lparr>en_state := st\<rparr>) }
      | T_Poll service \<Rightarrow> do { (_, st) \<leftarrow> get_queue env service (en_state en); ret (en\<lparr>en_state := st\<rparr>) }
      | T_Status tid \<Rightarrow> do { (_, st) \<leftarrow> get_status env tid (en_state en); ret (en\<lparr>en_state := st\<rparr>) }
      | T_Schedule \<Rightarrow> do { (l, st) \<leftarrow> scheduler_pass env (en_local en) (en_state en); ret (en\<lparr>en_local := l, en_state := st\<rparr>) }
      | T_Dispatch \<Rightarrow> do { (di, st) \<leftarrow> dispatch_pass env (en_dispatch en, en_state en); ret (en\<lparr>en_dispatch := di, en_state := st\<rparr>) })"

definition engine_run :: "'w catalyst_env \<Rightarrow> thread_step list \<Rightarrow> engine \<Rightarrow> ('w, cevent, engine) eff" where
  "engine_run env steps en = for_each (engine_step env) steps en"

section \<open>Lemmas\<close>

definition services :: "string list" where "services = [''vali'', ''dagur'', ''lanayru'']"

definition has_queues :: "catalyst \<Rightarrow> bool" where "has_queues st \<longleftrightarrow> map fst (ca_queues st) = services"

lemma dict_set_known: "map_of d k = Some v \<Longrightarrow> map fst (dict_set k x d) = map fst d"
  by (induction k x d rule: dict_set.induct) (auto split: if_splits)

lemma queues_submit: "has_queues st \<Longrightarrow> has_queues (submit_task_to_memory service task st)"
  by (auto simp: has_queues_def submit_task_to_memory_def dict_set_known split: option.splits)

lemma queues_drain: "has_queues st \<Longrightarrow> has_queues (snd (drain_in_memory_queues (st\<lparr>ca_queued := q\<rparr>)))"
  by (simp add: has_queues_def drain_in_memory_queues_def comp_def case_prod_unfold)

lemma known_iff: "has_queues st \<Longrightarrow> known_service st service \<longleftrightarrow> (\<exists>s. service = Some s \<and> s \<in> set services)"
  unfolding has_queues_def known_service_def by (auto simp: map_of_eq_None_iff split: option.splits simp flip: set_map)

lemma yields_enqueue:
  assumes "\<not> known_service st service \<Longrightarrow> Q (submit_task_to_memory service task st) []"
    and "\<And>sv. service = Some sv \<Longrightarrow> map_of (ca_queues st) sv \<noteq> None \<Longrightarrow> Q (submit_task_to_memory service task st) [K_Queued sv (qe_task task)]"
  shows "yields (enqueue service task st) Q"
  unfolding enqueue_def using assms by (auto simp: known_service_def intro!: yields_intros yields_mark split: option.splits)

text \<open>The events of a sweep and of the others.\<close>

definition quiet :: "cevent \<Rightarrow> bool" where
  "quiet e = (case e of K_Cleared \<Rightarrow> False | K_Tasks _ \<Rightarrow> False | K_Exec (Task_Update _ _ _ _ _) _ \<Rightarrow> False | _ \<Rightarrow> True)"

lemma quiet_simps [simp]:
  "quiet (K_Leads b)" "quiet (K_Reported s n)" "quiet (K_Schedules ss)" "quiet (K_Claim j l t a)" "quiet (K_Queued sv tid)" "quiet (K_Sent q b)"
  "quiet (K_Exec (Task_Insert row now) n)" "\<not> quiet K_Cleared" "\<not> quiet (K_Tasks rows)"
  by (simp_all add: quiet_def)

lemma quiet_parts:
  "yields (next_sequence_id env component st) (\<lambda>r es. es = [] \<and> ca_queues (snd r) = ca_queues st)"
  "yields (holds_dispatch env) (\<lambda>_. list_all quiet)"
  unfolding next_sequence_id_def holds_dispatch_def Let_def
  by (intro yields_intros; auto split: option.splits)+

lemma quiet_enqueue: "has_queues st \<Longrightarrow> yields (enqueue service task st) (\<lambda>st' es. list_all quiet es \<and> has_queues st')"
  by (rule yields_enqueue) (auto intro: queues_submit)

lemma quiet_sequence:
  "has_queues st \<Longrightarrow> yields (next_sequence_id env component st) (\<lambda>r es. list_all quiet es \<and> has_queues (snd r))"
  by (rule yields_mono [OF quiet_parts(1)]) (auto simp: has_queues_def)

lemma quiet_submit: "has_queues st \<Longrightarrow> yields (post_submit env body st) (\<lambda>r es. list_all quiet es \<and> has_queues (snd r))"
  unfolding post_submit_def record_submission_def queue_submission_def run_statement_def Let_def
  by (intro yields_intros yields_mono [OF quiet_sequence] yields_mono [OF quiet_parts(2)] yields_mono [OF quiet_enqueue]) auto

lemma quiet_update: "has_queues st \<Longrightarrow> yields (post_update env body st) (\<lambda>r es. list_all quiet es \<and> has_queues (snd r))"
  unfolding post_update_def Let_def by (intro yields_intros) (auto simp: has_queues_def)

lemma quiet_poll: "has_queues st \<Longrightarrow> yields (get_queue env service st) (\<lambda>r es. list_all quiet es \<and> has_queues (snd r))"
  unfolding get_queue_def
  by (intro yields_intros yields_mono [OF quiet_parts(2)]) (auto simp: has_queues_def dict_set_known)

lemma quiet_status: "has_queues st \<Longrightarrow> yields (get_status env tid st) (\<lambda>r es. list_all quiet es \<and> has_queues (snd r))"
  unfolding get_status_def Let_def by (intro yields_intros) (auto simp: has_queues_def split: option.splits bool.splits)

lemma quiet_schedule:
  assumes "has_queues st"
  shows "yields (scheduler_pass env local st) (\<lambda>r es. list_all quiet es \<and> has_queues (snd r))"
proof -
  have one: "yields (trigger_job env now s x) (\<lambda>x' es. list_all quiet es \<and> has_queues (snd x'))" if "has_queues (snd x)" for now s x
    using that unfolding trigger_job_def claim_scheduled_run_def queue_scheduled_task_def run_statement_def Let_def
    by (cases x) (simp, intro yields_intros yields_mono [OF quiet_sequence] yields_mono [OF quiet_parts(2)] yields_mono [OF quiet_enqueue]; auto)
  have loop: "yields (for_each (\<lambda>s x. if job_due now (fst x) s then trigger_job env now s x else ret x) rows (local, st))
      (\<lambda>x' es. list_all quiet ([] @ es) \<and> has_queues (snd x'))" for now rows
    using assms by (intro yields_for_each) (auto intro!: yields_ret yields_mono [OF one] split: if_splits)
  show ?thesis
    unfolding scheduler_pass_def using assms by (intro yields_intros yields_mono [OF loop]) auto
qed

section \<open>Which tasks are failed\<close>

text \<open>
  An observer of the events: whether the queues were taken since the last successful read of the tasks, the rows of
  the last read, and whether that read was the first after taking the queues.
\<close>

record observer =
  ob_armed :: bool
  ob_rows :: "open_row list"
  ob_first :: bool

definition observe :: "observer \<Rightarrow> cevent \<Rightarrow> observer" where
  "observe ob e =
     (case e of
        K_Cleared \<Rightarrow> ob\<lparr>ob_armed := True\<rparr>
      | K_Tasks (Some rows) \<Rightarrow> \<lparr>ob_armed = False, ob_rows = filter open_status rows, ob_first = ob_armed ob\<rparr>
      | K_Tasks None \<Rightarrow> ob\<lparr>ob_rows := [], ob_first := False\<rparr>
      | _ \<Rightarrow> ob)"

text \<open>A task that may be failed: in flight at the first read, or pending for a service nothing drains.\<close>

definition may_fail :: "bool \<Rightarrow> open_row list \<Rightarrow> string option \<Rightarrow> string \<Rightarrow> bool" where
  "may_fail first rows tid reason \<longleftrightarrow>
     list_ex (\<lambda>r. or_task r = tid \<and>
       (if or_status r = Some task_processing then first \<and> reason = in_flight_reason
        else or_status r = Some task_pending \<and> or_service r \<notin> Some ` set services)) rows"

definition fails_rightly :: "observer \<Rightarrow> cevent \<Rightarrow> bool" where
  "fails_rightly ob e =
     (case e of
        K_Exec (Task_Update tid status progress _ reason) _ \<Rightarrow>
          status = Some task_failed \<and> progress = 100 \<and> (\<exists>why. reason = Some why \<and> may_fail (ob_first ob) (ob_rows ob) tid why)
      | _ \<Rightarrow> True)"

fun observed :: "observer \<Rightarrow> cevent list \<Rightarrow> bool" where
  "observed ob [] = True"
| "observed ob (e # es) = (fails_rightly ob e \<and> observed (observe ob e) es)"

lemma observed_append: "observed ob (xs @ ys) \<longleftrightarrow> observed ob xs \<and> observed (foldl observe ob xs) ys"
  by (induction xs arbitrary: ob) auto

lemma quiet_observed:
  assumes "list_all quiet es"
  shows "observed ob es" "foldl observe ob es = ob"
proof -
  have one: "fails_rightly ob e \<and> observe ob e = ob" if "quiet e" for ob e
    using that by (auto simp: quiet_def fails_rightly_def observe_def split: cevent.splits stmt.splits)
  show "observed ob es" "foldl observe ob es = ob" using assms by (induction es arbitrary: ob) (auto simp: one)
qed

text \<open>What one sweep does after its read.\<close>

definition sweep_event :: "bool \<Rightarrow> open_row list \<Rightarrow> cevent \<Rightarrow> bool" where
  "sweep_event first rows e =
     (case e of
        K_Exec (Task_Update tid status progress _ reason) _ \<Rightarrow>
          status = Some task_failed \<and> progress = 100 \<and> (\<exists>why. reason = Some why \<and> may_fail first rows tid why)
      | _ \<Rightarrow> quiet e)"

lemma sweep_observed:
  assumes "list_all (sweep_event (ob_first ob) (ob_rows ob)) es"
  shows "observed ob es" "foldl observe ob es = ob"
proof -
  have one: "fails_rightly ob e \<and> observe ob e = ob" if "sweep_event (ob_first ob) (ob_rows ob) e" for e
    using that by (auto simp: sweep_event_def quiet_def fails_rightly_def observe_def split: cevent.splits stmt.splits)
  show "observed ob es" "foldl observe ob es = ob" using assms by (induction es) (auto simp: one)
qed

lemma sweep_simps [simp]:
  "sweep_event first rows (K_Exec (Task_Update tid status progress now reason) rc) \<longleftrightarrow>
     status = Some task_failed \<and> progress = 100 \<and> (\<exists>why. reason = Some why \<and> may_fail first rows tid why)"
  "quiet e \<Longrightarrow> sweep_event first rows e"
  by (auto simp: sweep_event_def quiet_def split: cevent.splits stmt.splits)

lemma quiet_sweeps: "list_all quiet es \<Longrightarrow> list_all (sweep_event first rows) es"
  by (auto simp: list_all_iff)

lemma sweep_after_read:
  assumes "ob_armed ob = first"
    and "case rows of None \<Rightarrow> fs = [] | Some rs \<Rightarrow> list_all (sweep_event first (filter open_status rs)) fs"
  shows "observed ob (K_Tasks rows # fs) \<and> ob_armed (foldl observe ob (K_Tasks rows # fs)) = (first \<and> rows = None)"
proof (cases rows)
  case None
  with assms show ?thesis by (simp add: fails_rightly_def observe_def)
next
  case (Some rs)
  let ?ob = "\<lparr>ob_armed = False, ob_rows = filter open_status rs, ob_first = first\<rparr>"
  have "observe ob (K_Tasks rows) = ?ob" using Some assms(1) by (simp add: observe_def)
  moreover have "list_all (sweep_event (ob_first ?ob) (ob_rows ?ob)) fs" using assms(2) Some by simp
  ultimately show ?thesis using sweep_observed [of ?ob fs] Some by (simp add: fails_rightly_def)
qed

lemma recover_row_sweeps:
  assumes "has_queues (snd x)" "r \<in> set rows" "open_status r"
  shows "yields (recover_row env first r x) (\<lambda>x' es. list_all (sweep_event first rows) es \<and> has_queues (snd x'))"
proof -
  obtain c d st where x: "x = ((c, d), st)" by (metis surj_pair)
  have st: "has_queues st" using assms(1) x by simp
  have flight: "may_fail first rows (or_task r) in_flight_reason" if "or_status r = Some task_processing" first
    using that assms(2) by (auto simp: may_fail_def list_ex_iff)
  have lost: "may_fail first rows (or_task r) (no_queue_reason (or_service r))"
    if "or_status r \<noteq> Some task_processing" "\<not> known_service st (or_service r)"
    using that assms(2,3) by (auto simp: may_fail_def list_ex_iff open_status_def known_iff [OF st])
  show ?thesis
    unfolding recover_row_def x fail_task_def run_statement_def prod.case
    by (intro yields_intros yields_mono [OF quiet_enqueue [OF st]])
      (use st flight lost in \<open>auto simp: quiet_sweeps\<close>)
qed

lemma recover_sweeps:
  assumes "has_queues st"
  shows "yields (recover_open_tasks env first st) (\<lambda>x es. has_queues (snd (snd x)) \<and>
    (\<exists>rows fs. es = K_Tasks rows # fs \<and> fst x = (rows \<noteq> None) \<and>
       (case rows of None \<Rightarrow> fs = [] | Some rs \<Rightarrow> list_all (sweep_event first (filter open_status rs)) fs)))"
proof -
  have loop: "yields (for_each (recover_row env first) (filter open_status rs) ((0, 0), st))
      (\<lambda>x es. list_all (sweep_event first (filter open_status rs)) ([] @ es) \<and> has_queues (snd x))" for rs
    using assms by (intro yields_for_each) (auto intro!: yields_mono [OF recover_row_sweeps [where rows = "filter open_status rs"]])
  show ?thesis
    unfolding recover_open_tasks_def read_open_tasks_def
    by (intro yields_intros) (use assms in \<open>auto intro!: yields_ret yields_mono [OF loop] split: option.splits\<close>)
qed

lemma dispatch_observed:
  assumes "has_queues st"
  shows "yields (dispatch_pass env (di, st)) (\<lambda>x es. has_queues (snd x) \<and>
    (\<forall>ob. ob_armed ob = di_acquired di \<longrightarrow> observed ob es \<and> ob_armed (foldl observe ob es) = di_acquired (fst x)))"
proof -
  have took: "yields (take_dispatch leading di st) (\<lambda>x es. has_queues (snd x) \<and>
      (\<forall>ob. ob_armed ob = di_acquired di \<longrightarrow> observed ob es \<and> ob_armed (foldl observe ob es) = di_acquired (fst x)))" for leading
    unfolding take_dispatch_def Let_def
    by (intro yields_intros yields_mark) (use assms queues_drain in \<open>auto simp: fails_rightly_def observe_def\<close>)
  have sweep: "yields (recover_open_tasks env first st1) (\<lambda>x es. has_queues (snd (snd x)) \<and>
      (\<forall>ob. ob_armed ob = first \<longrightarrow> observed ob es \<and> ob_armed (foldl observe ob es) = (first \<and> \<not> fst x)))" if "has_queues st1" for first st1
    by (rule yields_mono [OF recover_sweeps [OF that]]) (metis sweep_after_read)
  show ?thesis
    unfolding dispatch_pass_def holds_dispatch_def prod.case
    by (intro yields_intros yields_mono [OF took] yields_mono [OF sweep])
      (auto simp: observed_append fails_rightly_def observe_def)
qed

lemma engine_observed:
  assumes "has_queues (en_state en)"
  shows "yields (engine_step env step en) (\<lambda>en' es. has_queues (en_state en') \<and>
    (\<forall>ob. ob_armed ob = di_acquired (en_dispatch en) \<longrightarrow>
       observed ob es \<and> ob_armed (foldl observe ob es) = di_acquired (en_dispatch en')))"
proof (cases step)
  case T_Dispatch
  show ?thesis unfolding T_Dispatch engine_step_def thread_step.case
    by (intro yields_intros yields_mono [OF dispatch_observed [OF assms]]) auto
qed (unfold engine_step_def, simp_all, (intro yields_intros yields_mono [OF quiet_submit [OF assms]] yields_mono [OF quiet_update [OF assms]]
      yields_mono [OF quiet_poll [OF assms]] yields_mono [OF quiet_status [OF assms]] yields_mono [OF quiet_schedule [OF assms]];
    auto simp: quiet_observed)+)

section \<open>What a sweep replays\<close>

definition queued_ids :: "catalyst \<Rightarrow> string \<Rightarrow> string list" where
  "queued_ids st sv = (case map_of (ca_queues st) sv of None \<Rightarrow> [] | Some q \<Rightarrow> map qe_task q)"

text \<open>A row that is waiting for a worker of the service.\<close>

definition waits_for :: "string \<Rightarrow> open_row \<Rightarrow> bool" where
  "waits_for sv r \<longleftrightarrow> truthy_str (or_task r) \<and> or_status r = Some task_pending \<and> or_service r = Some sv"

definition replayed :: "catalyst \<Rightarrow> open_row list \<Rightarrow> string \<Rightarrow> string list" where
  "replayed st rows sv = map (the \<circ> or_task) (filter (\<lambda>r. waits_for sv r \<and> the (or_task r) \<notin> set (ca_queued st)) rows)"

definition sweep_result :: "catalyst \<Rightarrow> open_row list \<Rightarrow> catalyst \<Rightarrow> bool" where
  "sweep_result st rows st' \<longleftrightarrow>
     list_all (\<lambda>sv. queued_ids st' sv = queued_ids st sv @ replayed st rows sv) services
     \<and> list_all (\<lambda>r. list_all (\<lambda>sv. waits_for sv r \<longrightarrow> the (or_task r) \<in> set (ca_queued st')) services) rows"

lemma queued_submit:
  assumes "known_service st (Some sv)"
  shows "queued_ids (submit_task_to_memory (Some sv) task st) sv' = queued_ids st sv' @ (if sv' = sv then [qe_task task] else [])"
    and "set (ca_queued (submit_task_to_memory (Some sv) task st)) = insert (qe_task task) (set (ca_queued st))"
  using assms by (auto simp: submit_task_to_memory_def queued_ids_def known_service_def set_add_def split: option.splits)

lemma has_queues_known: "has_queues st \<Longrightarrow> sv \<in> set services \<Longrightarrow> known_service st (Some sv)"
  by (simp add: known_iff)

text \<open>The state after one row and after a sweep, without the events.\<close>

definition requeue :: "'w catalyst_env \<Rightarrow> catalyst \<Rightarrow> open_row \<Rightarrow> catalyst" where
  "requeue env st r =
     (if truthy_str (or_task r) \<and> or_status r \<noteq> Some task_processing \<and> known_service st (or_service r) \<and> the (or_task r) \<notin> set (ca_queued st)
      then submit_task_to_memory (or_service r) \<lparr>qe_task = the (or_task r), qe_action = or_action r, qe_payload = replay_payload env r\<rparr> st
      else st)"

lemma recover_row_state: "yields (recover_row env first r x) (\<lambda>x' _. snd x' = requeue env (snd x) r)"
proof -
  obtain c d st where x: "x = ((c, d), st)" by (metis surj_pair)
  show ?thesis unfolding x recover_row_def fail_task_def run_statement_def prod.case
    by (intro yields_intros yields_enqueue) (auto simp: requeue_def)
qed

lemma sweep_state: "yields (for_each (recover_row env first) rows x) (\<lambda>x' _. snd x' = foldl (requeue env) (snd x) rows)"
proof (induction rows arbitrary: x)
  case (Cons r rows)
  show ?case unfolding for_each.simps
    by (intro yields_bind yields_mono [OF recover_row_state]) (rule yields_mono [OF Cons.IH], simp)
qed (simp add: yields_ret)

lemma requeue_ids:
  assumes "has_queues st" "open_status r" "sv \<in> set services"
  shows "queued_ids (requeue env st r) sv = queued_ids st sv @ replayed st [r] sv"
proof (cases "requeue env st r = st")
  case True
  then have "replayed st [r] sv = []"
  proof -
    have "\<not> (waits_for sv r \<and> the (or_task r) \<notin> set (ca_queued st))"
    proof
      assume w: "waits_for sv r \<and> the (or_task r) \<notin> set (ca_queued st)"
      then have "known_service st (or_service r)" using has_queues_known [OF assms(1,3)] by (simp add: waits_for_def)
      with w True queued_submit(2) [of st sv "\<lparr>qe_task = the (or_task r), qe_action = or_action r, qe_payload = replay_payload env r\<rparr>"]
      show False by (auto simp: requeue_def waits_for_def)
    qed
    then show ?thesis by (simp add: replayed_def)
  qed
  with True show ?thesis by simp
next
  case False
  then have r: "truthy_str (or_task r)" "or_status r = Some task_pending" "known_service st (or_service r)" "the (or_task r) \<notin> set (ca_queued st)"
    using assms(2) by (auto simp: requeue_def open_status_def split: if_splits)
  then obtain s where s: "or_service r = Some s" by (auto simp: known_service_def split: option.splits)
  with r queued_submit(1) [of st s "\<lparr>qe_task = the (or_task r), qe_action = or_action r, qe_payload = replay_payload env r\<rparr>" sv] show ?thesis
    by (auto simp: requeue_def replayed_def waits_for_def)
qed

lemma requeue_queued:
  assumes "has_queues st"
  shows "has_queues (requeue env st r)" "set (ca_queued st) \<subseteq> set (ca_queued (requeue env st r))"
    and "set (ca_queued (requeue env st r)) \<subseteq> insert (the (or_task r)) (set (ca_queued st))"
    and "sv \<in> set services \<Longrightarrow> waits_for sv r \<Longrightarrow> the (or_task r) \<in> set (ca_queued (requeue env st r))"
proof -
  let ?q = "\<lparr>qe_task = the (or_task r), qe_action = or_action r, qe_payload = replay_payload env r\<rparr>"
  have sub: "set (ca_queued (submit_task_to_memory (or_service r) ?q st)) = insert (the (or_task r)) (set (ca_queued st))"
    if "known_service st (or_service r)"
    using that queued_submit(2) [of st _ ?q] by (cases "or_service r") (auto simp: known_service_def)
  show "has_queues (requeue env st r)" using assms queues_submit by (simp add: requeue_def)
  show "set (ca_queued st) \<subseteq> set (ca_queued (requeue env st r))"
    "set (ca_queued (requeue env st r)) \<subseteq> insert (the (or_task r)) (set (ca_queued st))"
    using sub by (auto simp: requeue_def)
  show "the (or_task r) \<in> set (ca_queued (requeue env st r))" if "sv \<in> set services" "waits_for sv r"
    using that sub has_queues_known [OF assms that(1)] by (auto simp: requeue_def waits_for_def)
qed

lemma sweep_replays:
  assumes "has_queues st" "distinct (map or_task rows)" "list_all open_status rows"
  shows "sweep_result st rows (foldl (requeue env) st rows)
    \<and> has_queues (foldl (requeue env) st rows) \<and> set (ca_queued st) \<subseteq> set (ca_queued (foldl (requeue env) st rows))"
  using assms
proof (induction rows arbitrary: st)
  case Nil
  then show ?case by (simp add: sweep_result_def replayed_def services_def)
next
  case (Cons r rows)
  let ?st = "requeue env st r"
  note q = requeue_queued [OF Cons.prems(1), where env = env and r = r]
  have IH: "sweep_result ?st rows (foldl (requeue env) ?st rows)" "has_queues (foldl (requeue env) ?st rows)"
    "set (ca_queued ?st) \<subseteq> set (ca_queued (foldl (requeue env) ?st rows))"
    using Cons.IH [OF q(1)] Cons.prems by simp_all
  have "waits_for sv r' \<and> the (or_task r') \<notin> set (ca_queued ?st) \<longleftrightarrow> waits_for sv r' \<and> the (or_task r') \<notin> set (ca_queued st)"
    if "r' \<in> set rows" for r' sv
  proof -
    have "the (or_task r') \<noteq> the (or_task r) \<or> \<not> truthy_str (or_task r') \<or> ?st = st"
    proof (rule ccontr)
      assume no: "\<not> (the (or_task r') \<noteq> the (or_task r) \<or> \<not> truthy_str (or_task r') \<or> ?st = st)"
      then have "truthy_str (or_task r)" by (auto simp: requeue_def split: if_splits)
      with no have "or_task r' = or_task r" by (cases "or_task r"; cases "or_task r'") (auto simp: truthy_str_def)
      with that Cons.prems(2) show False by (metis distinct.simps(2) image_eqI list.simps(9) set_map)
    qed
    then show ?thesis using q(2,3) by (auto simp: waits_for_def)
  qed
  then have later: "replayed ?st rows sv = replayed st rows sv" for sv by (simp add: replayed_def cong: filter_cong)
  have first: "queued_ids ?st sv = queued_ids st sv @ replayed st [r] sv" if "sv \<in> set services" for sv
    using Cons.prems(3) by (intro requeue_ids [OF Cons.prems(1) _ that]) simp
  have all: "replayed st (r # rows) sv = replayed st [r] sv @ replayed st rows sv" for sv by (simp add: replayed_def)
  have "the (or_task r) \<in> set (ca_queued (foldl (requeue env) ?st rows))" if "sv \<in> set services" "waits_for sv r" for sv
    using q(4) [OF that] IH(3) by auto
  with IH q(2) first later all show ?case by (auto simp: sweep_result_def list_all_iff)
qed

section \<open>Properties\<close>

text \<open>
  C31. Whatever the threads of a node do in whatever order, the dispatch loop fails a task only for a reason it read in that very sweep: the task was
  \<open>processing\<close> at the first successful read after the node took the queues, so its worker's dispatcher is gone, or it is pending for
  a service that has no queue. A task running under this dispatcher is never failed by a sweep, and a pending one with
  a worker never at all.
\<close>

definition no_observation :: observer where
  "no_observation = \<lparr>ob_armed = False, ob_rows = [], ob_first = False\<rparr>"

theorem sweeps_fail_only_the_interrupted:
  "yields (engine_run env steps new_engine) (\<lambda>_. observed no_observation)"
proof -
  define I where "I = (\<lambda>(en :: engine) es. has_queues (en_state en) \<and> observed no_observation es
    \<and> ob_armed (foldl observe no_observation es) = di_acquired (en_dispatch en))"
  have "yields (for_each (engine_step env) steps new_engine) (\<lambda>en es. I en ([] @ es))"
  proof (rule yields_for_each)
    fix step en es
    assume "I en es"
    then have en: "has_queues (en_state en)" and ob: "observed no_observation es"
      "ob_armed (foldl observe no_observation es) = di_acquired (en_dispatch en)" by (simp_all add: I_def)
    show "yields (engine_step env step en) (\<lambda>en' es'. I en' (es @ es'))"
      by (rule yields_mono [OF engine_observed [OF en]]) (use ob in \<open>simp add: I_def observed_append\<close>)
  qed (simp add: I_def new_engine_def new_catalyst_def has_queues_def services_def no_observation_def new_dispatch_def)
  then show ?thesis unfolding engine_run_def by (rule yields_mono) (simp add: I_def)
qed

text \<open>
  A sweep leaves nothing behind. When the read of the tasks worked and there is one row per task, the sweep puts exactly the tasks
  that are pending for a service with a queue and not queued yet at the end of that service's queue, each once and in the order read,
  and every pending task with a worker is then one this process has queued.
\<close>

theorem sweeps_replay_the_pending:
  assumes "has_queues st"
  shows "yields (recover_open_tasks env first st) (\<lambda>x es.
    case es of K_Tasks (Some rows) # _ \<Rightarrow> fst x \<and> (distinct (map or_task rows) \<longrightarrow> sweep_result st (filter open_status rows) (snd (snd x)))
     | _ \<Rightarrow> \<not> fst x \<and> snd (snd x) = st)"
proof -
  have result: "sweep_result st (filter open_status rows) (foldl (requeue env) st (filter open_status rows))"
    if "distinct (map or_task rows)" for rows
    using sweep_replays [OF assms, of "filter open_status rows" env] that by (auto simp: list_all_iff distinct_map_filter)
  show ?thesis unfolding recover_open_tasks_def read_open_tasks_def
    by (intro yields_intros) (auto intro!: yields_ret yields_mono [OF sweep_state] split: option.splits simp: result)
qed

text \<open>
  C15. A submission is answered with a task id only when its row is recorded as pending, and it is queued only after that, on a
  node that holds the queues, in the queue of its service; a submission refused or not recorded leaves the queues as they were.
\<close>

definition kept_promise :: "catalyst \<Rightarrow> reply \<times> catalyst \<Rightarrow> cevent list \<Rightarrow> bool" where
  "kept_promise st x es =
     (case fst x of
        R_Accepted tid \<Rightarrow>
          (case es of
             K_Exec (Task_Insert row now) rc # fs \<Rightarrow>
               rc = 0 \<and> t_id row = Some tid \<and> t_status row = Some task_pending
               \<and> (fs = [K_Leads False] \<and> ca_queues (snd x) = ca_queues st
                  \<or> (\<exists>sv. t_service row = Some sv \<and> fs = [K_Leads True, K_Queued sv tid] \<and> queued_ids (snd x) sv = queued_ids st sv @ [tid]))
           | _ \<Rightarrow> False)
      | _ \<Rightarrow> ca_queues (snd x) = ca_queues st \<and> list_all (\<lambda>e. case e of K_Queued _ _ \<Rightarrow> False | _ \<Rightarrow> True) es)"

lemma queued_same: "ca_queues st' = ca_queues st \<Longrightarrow> known_service st' = known_service st \<and> queued_ids st' = queued_ids st"
  by (auto simp: known_service_def queued_ids_def fun_eq_iff split: option.splits)

theorem accepted_tasks_are_recorded:
  "yields (post_submit env body st) (kept_promise st)"
proof -
  have told: "yields (queue_submission env sv task st1) (\<lambda>x es. fst x = R_Accepted (qe_task task) \<and>
      (es = [K_Leads False] \<and> snd x = st1 \<or> es = [K_Leads True, K_Queued sv (qe_task task)] \<and> queued_ids (snd x) sv = queued_ids st1 sv @ [qe_task task]))"
    if "known_service st1 (Some sv)" for sv task st1
    unfolding queue_submission_def holds_dispatch_def
    by (intro yields_intros yields_enqueue) (use that queued_submit(1) [OF that, of task sv] in \<open>auto simp: known_service_def\<close>)
  show ?thesis
    unfolding post_submit_def record_submission_def run_statement_def Let_def
    by (intro yields_intros yields_mono [OF quiet_parts(1)])
      (auto simp: kept_promise_def recorded_row_def known_service_def truthy_str_def queued_ids_def intro!: yields_ret yields_mono [OF told] split: option.splits)
qed

text \<open>
  C16. A scheduled job is recorded only on a claimed tick: in a scheduler's pass every row it writes comes directly after an applied claim of the job's
  tick, for a schedule that the pass read as enabled and due, conditional on the last run that was read, and carries that
  schedule's job and command.
\<close>

definition due_claim :: "schedule_row list \<Rightarrow> cevent option \<Rightarrow> task_row \<Rightarrow> bool" where
  "due_claim rows before row =
     (case before of
        Some (K_Claim job recorded now a) \<Rightarrow>
          wins a \<and> t_status row = Some task_pending \<and>
          list_ex (\<lambda>s. sd_name s = job \<and> sd_last_run s = recorded \<and> sd_enabled s = Some True
            \<and> or_int (sd_interval s) 3600 \<le> now - or_int recorded 0
            \<and> t_payload row = dumps (J_Dict (job_payload job (sd_command s)))) rows
      | _ \<Rightarrow> False)"

fun backed :: "schedule_row list \<Rightarrow> cevent option \<Rightarrow> cevent list \<Rightarrow> bool" where
  "backed rows before [] = True"
| "backed rows before (e # es) =
     ((case e of K_Exec (Task_Insert row _) _ \<Rightarrow> due_claim rows before row | _ \<Rightarrow> True)
      \<and> backed (case e of K_Schedules rs \<Rightarrow> rs | _ \<Rightarrow> rows) (Some e) es)"

definition rows_seen :: "schedule_row list \<Rightarrow> cevent list \<Rightarrow> schedule_row list" where
  "rows_seen = foldl (\<lambda>rows e. case e of K_Schedules rs \<Rightarrow> rs | _ \<Rightarrow> rows)"

lemma rows_seen_nil: "rows_seen rows [] = rows"
  by (simp add: rows_seen_def)

lemma backed_any: "backed rows None es \<Longrightarrow> backed rows before es"
  by (cases es) (auto simp: due_claim_def split: cevent.splits stmt.splits)

lemma backed_append: "backed rows before xs \<Longrightarrow> backed (rows_seen rows xs) None ys \<Longrightarrow> backed rows before (xs @ ys)"
proof (induction xs arbitrary: rows before)
  case Nil
  then show ?case by (simp add: rows_seen_def backed_any)
next
  case (Cons e xs)
  then show ?case by (simp add: rows_seen_def)
qed

lemma trigger_backed:
  assumes "s \<in> set rows" "job_due now (fst x) s"
  shows "yields (trigger_job env now s x) (\<lambda>_ es. backed rows None es \<and> rows_seen rows es = rows)"
proof -
  obtain local st where x: "x = (local, st)" by fastforce
  have due: "due_claim rows (Some (K_Claim (sd_name s) (sd_last_run s) now a)) (recorded_row tid sv ac (dumps (J_Dict (job_payload (sd_name s) (sd_command s)))) co ty sq pa)"
    if "lr_ok a" "lr_applied a" for a tid sv ac co ty sq pa
    using assms that by (auto simp: due_claim_def wins_def recorded_row_def job_due_def Let_def or_int_def list_ex_iff split: option.splits)
  have queue: "yields (queue_scheduled_task env sv task st1) (\<lambda>_ es. backed rows (Some e) es \<and> rows_seen rows es = rows)" for sv task st1 e
    unfolding queue_scheduled_task_def holds_dispatch_def by (intro yields_intros yields_enqueue) (auto simp: rows_seen_def)
  show ?thesis
    unfolding trigger_job_def claim_scheduled_run_def run_statement_def Let_def x prod.case
    by (intro yields_intros yields_mono [OF quiet_parts(1)] yields_mono [OF queue])
      (auto simp: due rows_seen_def simp del: dumps.simps split: prod.splits if_splits)
qed

theorem jobs_run_on_claimed_ticks:
  "yields (scheduler_pass env local st) (\<lambda>_. backed [] None)"
proof -
  have loop: "yields (for_each (\<lambda>s x. if job_due now (fst x) s then trigger_job env now s x else ret x) rows (local, st))
      (\<lambda>_ es. backed rows None ([] @ es) \<and> rows_seen rows ([] @ es) = rows)" for now rows
  proof (rule yields_for_each)
    fix s x es
    assume s: "s \<in> set rows" and es: "backed rows None es \<and> rows_seen rows es = rows"
    have "rows_seen rows (es @ es') = rows_seen (rows_seen rows es) es'" for es' by (simp add: rows_seen_def)
    then show "yields (if job_due now (fst x) s then trigger_job env now s x else ret x)
        (\<lambda>_ es'. backed rows None (es @ es') \<and> rows_seen rows (es @ es') = rows)"
      using es rows_seen_nil by (auto intro!: yields_ret yields_mono [OF trigger_backed [OF s]] backed_append)
  qed (simp add: rows_seen_def)
  show ?thesis
    unfolding scheduler_pass_def by (intro yields_intros yields_mono [OF loop]) (auto intro: backed_any)
qed

section \<open>A small cluster\<close>

text \<open>
  A task table in memory that does what the statements say; the other effects are fixed. \<open>holds\<close> is the answer of the dispatch candidacy and
  \<open>rc\<close> the result of every write, which takes effect when it is zero.
\<close>

definition open_of :: "task_row \<Rightarrow> open_row" where
  "open_of t = \<lparr>or_task = t_id t, or_service = t_service t, or_action = t_action t, or_status = t_status t, or_payload = Some (t_payload t)\<rparr>"

definition table_exec :: "int \<Rightarrow> stmt \<Rightarrow> open_row list \<Rightarrow> (int \<times> string) \<times> open_row list" where
  "table_exec rc s rows =
     ((rc, ''''),
      if rc \<noteq> 0 then rows
      else (case s of
          Task_Insert t _ \<Rightarrow> rows @ [open_of t]
        | Task_Update tid status _ _ _ \<Rightarrow> map (\<lambda>r. if or_task r = tid then r\<lparr>or_status := status\<rparr> else r) rows
        | _ \<Rightarrow> rows))"

definition table_env :: "bool \<Rightarrow> int \<Rightarrow> open_row list catalyst_env" where
  "table_env holds rc =
     \<lparr>ct_dispatch = (\<lambda>w. (holds, w)), ct_scheduler = (\<lambda>w. (True, w)), ct_exec = table_exec rc, ct_tasks = (\<lambda>w. (Some w, w)),
      ct_schedules = (\<lambda>w. ([\<lparr>sd_name = ''scrub'', sd_enabled = Some True, sd_last_run = None, sd_interval = Some 60, sd_command = Some ''scrub''\<rparr>], w)),
      ct_status = (\<lambda>_ w. (None, w)),
      ct_lwt = (\<lambda>p _ w. (\<lparr>lr_ok = p = job_path, lr_applied = True, lr_current = [], lr_error = J_Str ''''\<rparr>, w)),
      ct_send = (\<lambda>_ w. (False, w)), ct_uuid = (\<lambda>w. (''t1'', w)), ct_time = (\<lambda>w. (1000, w)), ct_loads = (\<lambda>_. None)\<rparr>"

definition start_vm :: submission where
  "start_vm = \<lparr>su_service = Some ''vali'', su_action = Some ''vm.start'', su_payload = J_Dict [], su_component = None, su_task_type = None,
     su_type = None, su_parent = None\<rparr>"

definition two_tasks :: "open_row list" where
  "two_tasks = [\<lparr>or_task = Some ''a'', or_service = Some ''vali'', or_action = None, or_status = Some ''pending'', or_payload = None\<rparr>,
     \<lparr>or_task = Some ''b'', or_service = Some ''vali'', or_action = None, or_status = Some ''processing'', or_payload = None\<rparr>]"

lemma new_has_queues: "has_queues new_catalyst"
  by (simp add: has_queues_def new_catalyst_def services_def)

theorem sweeps_replay_the_pending_witness:
  "\<exists>n st s. run_state (recover_open_tasks (table_env True 0) False new_catalyst) (at_rest two_tasks) = ((True, n, st), s)
     \<and> queued_ids st ''vali'' = [''a'']"
proof -
  obtain rd n st s where run: "run_state (recover_open_tasks (table_env True 0) False new_catalyst) (at_rest two_tasks) = ((rd, n, st), s)"
    by (metis surj_pair)
  have tr: "trace (snd (run_state (recover_open_tasks (table_env True 0) False new_catalyst) (at_rest two_tasks)))
      = [K_Tasks (Some two_tasks), K_Queued ''vali'' ''a'']"
    by code_simp
  from yieldsD [OF sweeps_replay_the_pending [OF new_has_queues, of "table_env True 0" False] run] obtain es
    where es: "trace s = trace (at_rest two_tasks :: (open_row list, cevent) world) @ es"
      "case es of K_Tasks (Some rows) # _ \<Rightarrow> fst (rd, n, st) \<and> (distinct (map or_task rows) \<longrightarrow>
         sweep_result new_catalyst (filter open_status rows) (snd (snd (rd, n, st)))) | _ \<Rightarrow> \<not> fst (rd, n, st) \<and> snd (snd (rd, n, st)) = new_catalyst"
    by blast
  have "es = [K_Tasks (Some two_tasks), K_Queued ''vali'' ''a'']" using es(1) tr run by (simp add: at_rest_def)
  with es(2) have "rd \<and> (distinct (map or_task two_tasks) \<longrightarrow> sweep_result new_catalyst (filter open_status two_tasks) st)"
    by simp
  moreover have "distinct (map or_task two_tasks)" by (simp add: two_tasks_def)
  moreover have "queued_ids new_catalyst ''vali'' @ replayed new_catalyst (filter open_status two_tasks) ''vali'' = [''a'']" by code_simp
  ultimately show ?thesis using run by (auto simp: sweep_result_def services_def)
qed

text \<open>
  A sweep that runs between the row of a submission and its queue entry replays it, and the submission then queues it again: one task, twice in
  the queue.
\<close>

lemma a_sweep_can_queue_a_submission_twice:
  "queued_ids (fst (run_state (do {
       (r, st1) \<leftarrow> record_submission (table_env True 0) (Inr start_vm) new_catalyst;
       (_, _, st2) \<leftarrow> recover_open_tasks (table_env True 0) False st1;
       case r of Inr (service, task) \<Rightarrow> do { (_, st3) \<leftarrow> queue_submission (table_env True 0) service task st2; ret st3 } | Inl _ \<Rightarrow> ret st2 })
     (at_rest []))) ''vali'' = [''t1'', ''t1'']"
  by code_simp

text \<open>
  An entry that was taken off its queue for a worker that did not get the answer stays pending: its id is still among the queued ones, and no
  sweep of this dispatcher queues it again.
\<close>

lemma an_undelivered_task_is_not_replayed:
  assumes "tid \<in> set (ca_queued st)"
  shows "yields (recover_open_tasks env first st) (\<lambda>x es. list_all (\<lambda>e. case e of K_Queued _ t \<Rightarrow> t \<noteq> tid | _ \<Rightarrow> True) es \<and> tid \<in> set (ca_queued (snd (snd x))))"
proof -
  let ?P = "\<lambda>e. case e of K_Queued _ t \<Rightarrow> t \<noteq> tid | _ \<Rightarrow> True"
  have kept: "tid \<in> set (ca_queued (submit_task_to_memory sv task st'))" if "tid \<in> set (ca_queued st')" for sv task st'
    using that by (auto simp: submit_task_to_memory_def set_add_def split: option.splits)
  have one: "yields (recover_row env first r x) (\<lambda>x' es. list_all ?P es \<and> tid \<in> set (ca_queued (snd x')))" if "tid \<in> set (ca_queued (snd x))" for r x
  proof -
    obtain c d st' where x: "x = ((c, d), st')" by (metis surj_pair)
    show ?thesis unfolding x recover_row_def fail_task_def run_statement_def prod.case
      by (intro yields_intros yields_enqueue) (use that kept x in auto)
  qed
  have loop: "yields (for_each (recover_row env first) rs ((0, 0), st)) (\<lambda>x es. list_all ?P ([] @ es) \<and> tid \<in> set (ca_queued (snd x)))" for rs
    using assms by (intro yields_for_each) (auto intro!: yields_mono [OF one])
  show ?thesis unfolding recover_open_tasks_def read_open_tasks_def
    by (intro yields_intros) (use assms in \<open>auto intro!: yields_ret yields_mono [OF loop] split: option.splits\<close>)
qed

lemma a_poll_can_lose_a_task:
  "let (st, s) = run_state (do {
       (_, st1) \<leftarrow> post_submit (table_env True 0) (Inr start_vm) new_catalyst;
       (_, st2) \<leftarrow> get_queue (table_env True 0) ''vali'' st1;
       (_, _, st3) \<leftarrow> recover_open_tasks (table_env True 0) False st2;
       ret st3 }) (at_rest [])
   in queued_ids st ''vali'' = [] \<and> map or_status (hidden s) = [Some ''pending'']"
  by code_simp

text \<open>A tick whose row cannot be written on a node without the queues is claimed and gone: nothing is recorded and nothing is queued.\<close>

lemma a_claimed_tick_can_be_lost:
  "let ((local, st), s) = run_state (scheduler_pass (table_env False 1) [] new_catalyst) (at_rest [])
   in map_of local ''scrub'' = Some 1000 \<and> queued_ids st ''dagur'' = [] \<and> hidden s = []"
  by code_simp

end
