(* ===== verification/Catalyst_Ticks.thy ===== *)
theory Catalyst_Ticks
  imports Catalyst
begin

text \<open>
  The schedulers of several nodes over one gateway. Each node runs the scheduler's pass of \<open>src/catalyst.py\<close> whenever it believes it
  leads, and the claims of a tick (\<open>claim_scheduled_run\<close>) go through \<open>run_lwt\<close> and \<open>/v1/schedule/claim-job\<close> of \<open>src/daruk.py\<close> to one
  database that keeps the contract of conditional statements. The elections are not assumed to agree on a leader.
\<close>

section \<open>Nodes that share a database\<close>

text \<open>
  The effects of the passes: the compare-and-swap operations go through the gateway, the other effects leave the schedules as they are, and the
  interval of a schedule is positive.
\<close>

definition shares :: "('w \<Rightarrow> db) \<Rightarrow> 'w daruk_env \<Rightarrow> 'w catalyst_env \<Rightarrow> bool" where
  "shares view denv env \<longleftrightarrow>
     serves view denv \<and> ct_lwt env = call_lwt denv
     \<and> (\<forall>w. view (snd (ct_dispatch env w)) jobs = view w jobs) \<and> (\<forall>w. view (snd (ct_scheduler env w)) jobs = view w jobs)
     \<and> (\<forall>w. view (snd (ct_schedules env w)) jobs = view w jobs) \<and> (\<forall>w. view (snd (ct_uuid env w)) jobs = view w jobs)
     \<and> (\<forall>w. view (snd (ct_time env w)) jobs = view w jobs) \<and> (\<forall>s w. view (snd (ct_exec env s w)) jobs = view w jobs)
     \<and> (\<forall>w. list_all (\<lambda>s. 0 < or_int (sd_interval s) 3600) (fst (ct_schedules env w)))"

text \<open>Each node has its own memory of what it ran and its own queues; \<open>turns\<close> says whose pass is next.\<close>

definition cluster_passes :: "'w catalyst_env \<Rightarrow> nat list \<Rightarrow> ((string \<times> int) list \<times> catalyst) list \<Rightarrow>
    ('w, cevent, ((string \<times> int) list \<times> catalyst) list) eff" where
  "cluster_passes env turns members =
     for_each (\<lambda>i ns. if i < length ns then do { x \<leftarrow> scheduler_pass env (fst (ns ! i)) (snd (ns ! i)); ret (ns[i := x]) } else ret ns) turns members"

text \<open>The times of the ticks of a job that were taken, in order.\<close>

definition ticks_taken :: "string \<Rightarrow> cevent list \<Rightarrow> int list" where
  "ticks_taken job es = concat (map (\<lambda>e. case e of K_Claim j _ now a \<Rightarrow> if j = job \<and> wins a then [now] else [] | _ \<Rightarrow> []) es)"

section \<open>Lemmas\<close>

definition last_run_at :: "string \<Rightarrow> db \<Rightarrow> int option" where
  "last_run_at job = number_at jobs ''last_run_epoch'' (J_Str job)"

definition in_step :: "('w \<Rightarrow> db) \<Rightarrow> string \<Rightarrow> ('w, cevent) world \<Rightarrow> bool" where
  "in_step view job s \<longleftrightarrow>
     sorted_wrt (<) (ticks_taken job (trace s)) \<and> list_all (\<lambda>t. below (Some t) (last_run_at job (view (hidden s)))) (ticks_taken job (trace s))"

lemma ticks_append: "ticks_taken job (xs @ ys) = ticks_taken job xs @ ticks_taken job ys"
  by (simp add: ticks_taken_def)

lemma last_run_same: "db jobs = db' jobs \<Longrightarrow> last_run_at job db = last_run_at job db'"
  by (simp add: last_run_at_def number_at_def)

lemma in_step_later:
  assumes "in_step view job s" "below (last_run_at job (view (hidden s))) (last_run_at job (view w))" "ticks_taken job es = []"
  shows "in_step view job (s\<lparr>hidden := w, trace := trace s @ es\<rparr>)"
proof -
  have "list_all (\<lambda>t. below (Some t) (last_run_at job (view w))) (ticks_taken job (trace s))"
    using assms(1,2) below_trans by (auto simp: in_step_def list_all_iff)
  with assms show ?thesis by (simp add: in_step_def ticks_append)
qed

text \<open>A request through the gateway, whatever its operation.\<close>

lemma call_rises:
  assumes "serves view denv" "map_of lwt_ops path \<noteq> None" "asks_for_more job_path ''last_run_epoch'' ''expected_last_run_epoch'' (path, Inr (J_Dict d))"
  shows "below (last_run_at job (view w)) (last_run_at job (view (snd (call_lwt denv path d w))))"
proof -
  obtain r s where run: "run_state (do_post denv path (Inr (J_Dict d)) []) (at_rest w) = (r, s)" by fastforce
  then have "snd (call_lwt denv path d w) = hidden s" by (simp add: call_lwt_def)
  with jobs.number_rises [OF assms(1), of "(path, Inr (J_Dict d))" "[]" "at_rest w" r s "J_Str job"] assms(2,3) run
  show ?thesis by (simp add: last_run_at_def)
qed

definition job_claim :: "string \<Rightarrow> int option \<Rightarrow> int \<Rightarrow> (string \<times> jval) list" where
  "job_claim job recorded now =
     [(''job_name'', J_Str job), (''last_run_epoch'', J_Num now), (''expected_last_run_epoch'', case recorded of None \<Rightarrow> J_Null | Some n \<Rightarrow> J_Num n)]"

lemma job_claim_asks: "(\<And>n. recorded = Some n \<Longrightarrow> n < now) \<Longrightarrow>
    asks_for_more job_path ''last_run_epoch'' ''expected_last_run_epoch'' (job_path, Inr (J_Dict (job_claim job recorded now)))"
  by (auto simp: asks_for_more_def job_claim_def split: option.splits)

lemma wins_swapped: "wins (run_lwt (send_json r)) \<Longrightarrow> \<exists>cur. r = Swapped True cur"
  by (cases r) (auto simp: wins_def run_lwt_def send_json_def lwt_failed_def truthy_jval_def split: if_splits)

lemma claim_rises:
  assumes "serves view denv" "\<And>n. recorded = Some n \<Longrightarrow> n < now" "wins (fst (call_lwt denv job_path (job_claim job recorded now) w))"
  shows "last_run_at job (view (snd (call_lwt denv job_path (job_claim job recorded now) w))) = Some now"
    and "last_run_at job (view w) = Some m \<Longrightarrow> m < now"
proof -
  let ?d = "job_claim job recorded now"
  let ?q = "(job_path, Inr (J_Dict ?d)) :: post_request"
  obtain r s where run: "run_state (do_post denv job_path (Inr (J_Dict ?d)) []) (at_rest w) = (r, s)" by fastforce
  then have call: "call_lwt denv job_path ?d w = (run_lwt (send_json r), hidden s)" by (simp add: call_lwt_def)
  obtain cur where r: "r = Swapped True cur" using wins_swapped assms(3) call by fastforce
  have acc: "accepted lwt_schedule_claim_job ?d" using post_refused [OF jobs.in_table _ run] r by auto
  have "cur = []" using post_runs [OF jobs.in_table refl acc assms(1) run] r by simp
  then have g: "granted job_path ''job_name'' ''last_run_epoch'' (J_Str job) now ?q r" using r by (simp add: granted_def job_claim_def)
  have asks: "asks_for_more job_path ''last_run_epoch'' ''expected_last_run_epoch'' ?q" using assms(2) by (rule job_claim_asks)
  show "last_run_at job (view (snd (call_lwt denv job_path ?d w))) = Some now"
    using jobs.grant_rises(1) [OF assms(1) asks g, of "[]" "at_rest w" s] run call by (simp add: last_run_at_def)
  show "last_run_at job (view w) = Some m \<Longrightarrow> m < now"
    using jobs.grant_rises(2) [OF assms(1) asks g, of "[]" "at_rest w" s] run by (simp add: last_run_at_def)
qed

section \<open>The passes keep in step\<close>

abbreviation steady :: "('w \<Rightarrow> db) \<Rightarrow> string \<Rightarrow> ('w, cevent, 'a) eff \<Rightarrow> bool" where
  "steady view job m \<equiv> triple (in_step view job) m (\<lambda>_. in_step view job)"

lemma steady_bind: "steady view job m \<Longrightarrow> (\<And>a. steady view job (f a)) \<Longrightarrow> steady view job (State_Monad.bind m f)"
  by (rule triple_bind)

lemma steady_for_each: "(\<And>x a. x \<in> set xs \<Longrightarrow> steady view job (f x a)) \<Longrightarrow> steady view job (for_each f xs a)"
  by (induction xs arbitrary: a) (auto intro!: triple_ret steady_bind)

lemma steady_look: "(\<And>w. below (last_run_at job (view w)) (last_run_at job (view (snd (f w))))) \<Longrightarrow> steady view job (look f)"
  by (rule triple_look) (use in_step_later [where es = "[]"] in \<open>fastforce simp: ticks_taken_def\<close>)

lemma steady_act:
  assumes "\<And>w. below (last_run_at job (view w)) (last_run_at job (view (snd (f w))))" "\<And>r. ticks_taken job [ev r] = []"
  shows "steady view job (act f ev)"
  by (rule triple_act) (use in_step_later assms in fastforce)

lemma steady_case_prod: "(\<And>a b. x = (a, b) \<Longrightarrow> steady view job (f a b)) \<Longrightarrow> steady view job (case x of (a, b) \<Rightarrow> f a b)"
  by (cases x) auto

lemma claim_loop_rises:
  assumes "\<And>proposed e w. below (num w) (num (snd (lwt c proposed e w)))"
  shows "below (num w) (num (snd (claim_loop lwt c n e w)))"
proof (induction n arbitrary: e w)
  case (Suc n)
  show ?case using assms [of w] Suc below_trans
    by (auto simp: Let_def split: prod.splits pynum.splits option.splits) (metis snd_conv)+
qed (simp add: below_refl)

text \<open>A claim made by the scheduler: the tick it takes is later than every one before.\<close>

lemma job_in_table: "map_of lwt_ops job_path \<noteq> None" "map_of lwt_ops sequence_path \<noteq> None" "sequence_path \<noteq> job_path"
  using jobs.in_table tasks.in_table by (simp_all add: job_path_def sequence_path_def)

lemma steady_claim:
  assumes "serves view denv" "ct_lwt env = call_lwt denv" "\<And>n. recorded = Some n \<Longrightarrow> n < now"
  shows "steady view job (claim_scheduled_run env job' recorded now)"
  unfolding claim_scheduled_run_def
proof (intro steady_bind triple_ret triple_act, fold job_claim_def)
  let ?d = "job_claim job' recorded now"
  fix s a w'
  assume s: "in_step view job s" and call: "ct_lwt env job_path ?d (hidden s) = (a, w')"
  have asks: "asks_for_more job_path ''last_run_epoch'' ''expected_last_run_epoch'' (job_path, Inr (J_Dict ?d))" using assms(3) by (rule job_claim_asks)
  note rises = call_rises [OF assms(1) job_in_table(1) asks, of job "hidden s"]
  have w': "call_lwt denv job_path ?d (hidden s) = (a, w')" using call assms(2) by simp
  show "in_step view job (s\<lparr>hidden := w', trace := trace s @ [K_Claim job' recorded now a]\<rparr>)"
  proof (cases "job' = job \<and> wins a")
    case True
        have "last_run_at job (view w') = Some now" "\<And>m. last_run_at job (view (hidden s)) = Some m \<Longrightarrow> m < now"
      using claim_rises [where recorded = recorded and now = now and job = job and w = "hidden s", OF assms(1,3)] True w' by auto
    then show ?thesis using s True
      by (fastforce simp: in_step_def ticks_append sorted_wrt_append list_all_iff ticks_taken_def below_def split: option.splits)
  next
    case False
    then show ?thesis using in_step_later [OF s, of w'] rises w' by (simp add: ticks_taken_def split: if_splits)
  qed
qed simp

lemma steady_sequence:
  assumes "serves view denv" "ct_lwt env = call_lwt denv"
  shows "steady view job (next_sequence_id env component st)"
proof -
  have "below (last_run_at job (view w)) (last_run_at job (view (snd (sequence_lwt env c proposed e w))))" for c proposed e w
    using call_rises [OF assms(1) job_in_table(2), of "sequence_body c proposed e" job w] assms(2) job_in_table(3)
    by (auto simp: sequence_lwt_def asks_for_more_def split: prod.splits)
  then have "below (last_run_at job (view w)) (last_run_at job (view (snd (claim_task_sequence (sequence_lwt env) component hint 6 w))))" for hint w
    unfolding claim_task_sequence_def by (rule claim_loop_rises [where num = "\<lambda>w. last_run_at job (view w)"])
  then show ?thesis unfolding next_sequence_id_def Let_def by (intro steady_bind steady_look triple_ret)
qed

lemma steady_pass:
  assumes "shares view denv env"
  shows "steady view job (scheduler_pass env local st)"
proof -
  have env: "serves view denv" "ct_lwt env = call_lwt denv" using assms by (simp_all add: shares_def)
  have same: "below (last_run_at job db) (last_run_at job db')" if "db' jobs = db jobs" for db db'
    using last_run_same [of db db' job] that by (simp add: below_refl)
  have quiet: "steady view job (look (ct_uuid env))" "steady view job (look (ct_time env))" "steady view job (run_statement env q)"
    "steady view job (holds_dispatch env)" "steady view job (act (ct_scheduler env) K_Leads)" for q
    unfolding run_statement_def holds_dispatch_def
    by (intro steady_look steady_act same; use assms in \<open>simp add: shares_def ticks_taken_def\<close>)+
  have entry: "steady view job (enqueue sv task st')" for sv task st'
    unfolding enqueue_def mark_def
    by (cases sv) (auto intro!: steady_bind triple_ret triple_if steady_act below_refl simp: ticks_taken_def)
  have one: "steady view job (trigger_job env now s x)" if "job_due now (fst x) s" "0 < or_int (sd_interval s) 3600" for now s x
  proof -
    have "n < now" if "sd_last_run s = Some n" for n
      using that \<open>job_due now (fst x) s\<close> \<open>0 < or_int (sd_interval s) 3600\<close> by (simp add: job_due_def Let_def)
    note claim = steady_claim [OF env this]
    show ?thesis unfolding trigger_job_def queue_scheduled_task_def Let_def
      by (intro steady_case_prod steady_bind claim quiet entry steady_sequence [OF env] triple_if triple_ret)
  qed
  have read: "triple (in_step view job) (act (ct_schedules env) K_Schedules)
      (\<lambda>rows s. in_step view job s \<and> list_all (\<lambda>s. 0 < or_int (sd_interval s) 3600) rows)"
  proof (intro triple_act conjI)
    fix s rows w'
    assume s: "in_step view job s" and run: "ct_schedules env (hidden s) = (rows, w')"
    have "view w' jobs = view (hidden s) jobs" using assms run by (simp add: shares_def) (metis snd_conv)
    with in_step_later [OF s same] show "in_step view job (s\<lparr>hidden := w', trace := trace s @ [K_Schedules rows]\<rparr>)"
      by (simp add: ticks_taken_def)
    show "list_all (\<lambda>s. 0 < or_int (sd_interval s) 3600) rows" using assms run by (simp add: shares_def) (metis fst_conv)
  qed
  have work: "triple (\<lambda>s. in_step view job s \<and> list_all (\<lambda>s. 0 < or_int (sd_interval s) 3600) rows)
      (if rows = [] then ret (local, st) else do {
         t \<leftarrow> look (ct_time env);
         for_each (\<lambda>s x. if job_due (in_seconds t) (fst x) s then trigger_job env (in_seconds t) s x else ret x) rows (local, st) })
      (\<lambda>_. in_step view job)" for rows
  proof (cases "list_all (\<lambda>s. 0 < or_int (sd_interval s) 3600) rows")
    case True
    then have "steady view job (if rows = [] then ret (local, st) else do {
         t \<leftarrow> look (ct_time env);
         for_each (\<lambda>s x. if job_due (in_seconds t) (fst x) s then trigger_job env (in_seconds t) s x else ret x) rows (local, st) })"
      by (intro triple_if triple_ret steady_bind quiet steady_for_each one) (auto simp: list_all_iff)
    then show ?thesis by (rule triple_conseq) simp_all
  qed (simp add: triple_def)
  show ?thesis unfolding scheduler_pass_def
    by (intro steady_bind triple_if triple_ret quiet triple_bind [OF read work])
qed

section \<open>Properties\<close>

text \<open>
  C32. However often the nodes of a cluster take turns at the scheduler's pass, and even if several of them believe that they lead, a job's ticks are
  taken at strictly rising times: no tick of a job is taken twice.
\<close>

theorem ticks_are_taken_once:
  assumes "shares view denv env"
  shows "sorted_wrt (<) (ticks_taken job (trace (snd (run_state (cluster_passes env turns members) (at_rest w)))))"
proof -
  have "steady view job (cluster_passes env turns members)"
    unfolding cluster_passes_def
    by (intro steady_for_each triple_if steady_bind triple_ret steady_pass [OF assms])
  moreover have "in_step view job (at_rest w)" by (simp add: in_step_def at_rest_def ticks_taken_def)
  ultimately show ?thesis by (simp add: triple_def in_step_def)
qed

text \<open>Two nodes over the database in memory, both of which believe that they lead. The clock is read off the last recorded run.\<close>

definition scrub_db :: db where
  "scrub_db = (\<lambda>t k. if t = jobs \<and> k = [J_Str ''scrub''] then Some [(''job_name'', J_Str ''scrub'')] else None)"

definition leaders_env :: "db catalyst_env" where
  "leaders_env =
     \<lparr>ct_dispatch = (\<lambda>w. (True, w)), ct_scheduler = (\<lambda>w. (True, w)), ct_exec = (\<lambda>_ w. ((0, ''''), w)), ct_tasks = (\<lambda>w. (None, w)),
      ct_schedules = (\<lambda>w. ([\<lparr>sd_name = ''scrub'', sd_enabled = Some True, sd_last_run = last_run_at ''scrub'' w, sd_interval = Some 60,
                              sd_command = Some ''scrub''\<rparr>], w)),
      ct_status = (\<lambda>_ w. (None, w)), ct_lwt = call_lwt mem_env, ct_send = (\<lambda>_ w. (True, w)), ct_uuid = (\<lambda>w. (''t1'', w)),
      ct_time = (\<lambda>w. (1000 + real_of_int (or_int (last_run_at ''scrub'' w) 0), w)), ct_loads = (\<lambda>_. None)\<rparr>"

lemma leaders_share: "shares id mem_env leaders_env"
  by (simp add: shares_def mem_serves leaders_env_def or_int_def)

theorem ticks_are_taken_once_witness:
  "ticks_taken ''scrub'' (trace (snd (run_state (cluster_passes leaders_env [0, 1] [([], new_catalyst), ([], new_catalyst)]) (at_rest scrub_db)))) = [1000, 2000]
   \<and> sorted_wrt (<) (ticks_taken ''scrub'' (trace (snd (run_state (cluster_passes leaders_env [0, 1] [([], new_catalyst), ([], new_catalyst)]) (at_rest scrub_db)))))"
proof
  show "ticks_taken ''scrub'' (trace (snd (run_state (cluster_passes leaders_env [0, 1] [([], new_catalyst), ([], new_catalyst)]) (at_rest scrub_db)))) = [1000, 2000]"
    by code_simp
qed (rule ticks_are_taken_once [OF leaders_share])

end
