(* ===== verification/Vali.thy ===== *)
theory Vali
  imports Daruk_Clients
begin

text \<open>
  The life of a guest (\<open>src/vali.py\<close>): the tasks \<open>start\<close>, \<open>stop\<close>, \<open>reboot\<close> and \<open>migrate\<close> of \<open>process_queue_task\<close>, with the choice
  of a host, the storage steps of a migration (\<open>prepare_destination_storage\<close>, \<open>hand_over_storage\<close>) and the names of a guest's disks and
  images (\<open>src/helios_sidon.py\<close>). The placement of a guest is a column of its row, written only through the gateway's
  compare-and-swap operations. Rows, the status of a node, Sidon, spark-daemon and the gateway are effects; the domain XML and the
  shell text of a command are parameters, so a command is a value of \<open>spark_command\<close>. Printed lines are left out.
\<close>

section \<open>Names\<close>

definition is_valid_object_name :: "string option \<Rightarrow> bool" where
  "is_valid_object_name name = (case name of None \<Rightarrow> False | Some s \<Rightarrow> name_shape 62 s)"

definition object_name_error :: string where
  "object_name_error = ''must start with a letter or digit and contain only letters, digits, '' @ quoted ''_'' @ '', '' @ quoted ''.''
     @ '' or '' @ quoted ''-'' @ '' (max 63 characters)''"

definition vdisk_id_for :: "string \<Rightarrow> nat \<Rightarrow> string" where
  "vdisk_id_for vm_name index = vm_name @ ''-disk'' @ show_nat index"

fun one_dash :: "string \<Rightarrow> string" where
  "one_dash (a # b # s) = (if a = CHR ''-'' \<and> b = CHR ''-'' then one_dash (b # s) else a # one_dash (b # s))"
| "one_dash s = s"

definition slug_char :: "char \<Rightarrow> char" where
  "slug_char c = (if CHR ''a'' \<le> c \<and> c \<le> CHR ''z'' \<or> is_digit c \<or> c = CHR ''_'' \<or> c = CHR ''-'' then c else CHR ''-'')"

definition strip_dashes :: "string \<Rightarrow> string" where
  "strip_dashes s = rev (dropWhile (\<lambda>c. c = CHR ''-'') (rev (dropWhile (\<lambda>c. c = CHR ''-'') s)))"

definition image_vdisk_id :: "string \<Rightarrow> string" where
  "image_vdisk_id name =
     (let low = lower name;
          base = (case find (ends_with low) [''.iso'', ''.qcow2'', ''.img''] of
              Some ext \<Rightarrow> take (length name - length ext) name | None \<Rightarrow> name)
      in ''img-'' @ take 28 (strip_dashes (one_dash (map slug_char (lower base)))))"

text \<open>The disks a domain names: as many as its list has entries, one without a list, none for \<open>NONE\<close>.\<close>

definition domain_vdisk_ids :: "string \<Rightarrow> string option \<Rightarrow> string list" where
  "domain_vdisk_ids vm_name disks_list =
     (if truthy_str disks_list \<and> disks_list \<noteq> Some ''NONE''
      then map (vdisk_id_for vm_name) [0..<length (split_on (CHR '','') (the disks_list))]
      else if disks_list = Some ''NONE'' then []
      else [vdisk_id_for vm_name 0])"

definition image_specs :: "string option \<Rightarrow> string list" where
  "image_specs cdroms = filter (\<lambda>s. s \<noteq> [] \<and> s \<noteq> ''__empty__'') (map strip (split_on (CHR '','') (or_str cdroms [])))"

definition domain_image_ids :: "string option \<Rightarrow> string list" where
  "domain_image_ids cdroms = map image_vdisk_id (image_specs cdroms)"

section \<open>The environment\<close>

text \<open>The columns of a guest's row that the tasks read; \<open>vs_domain\<close> holds those that only its domain XML is made of.\<close>

record vm_spec =
  vs_memory :: "int option"
  vs_vcpu :: "int option"
  vs_disks :: "string option"
  vs_iso :: "string option"
  vs_host :: "string option"
  vs_state :: "string option"
  vs_domain :: "(string \<times> jval) list"

record node_row =
  nr_ip :: "string option"
  nr_status :: "string option"
  nr_maintenance :: "bool option"

record node_status =
  ns_maintenance :: "string option"
  ns_services :: "(string \<times> string option) list"

datatype sidon_call =
    S_Attach string | S_Forward string | S_Detach string | S_Takeover string
  | S_Create string int string | S_Delete string | S_Resize string int

record sidon_body =
  sb_already :: bool
  sb_forwarding :: "string option"
  sb_error :: "string option"

datatype spark_command =
    C_Start string string
  | C_Stop string
  | C_Power string string
  | C_Backup string
  | C_Restore string
  | C_Undefine string
  | C_Migrate string string
  | C_Drop_Nvram string
  | C_Mark
  | C_Unmark

text \<open>
  \<open>va_vm\<close> is \<open>get_vm_xml_specs\<close>; \<open>va_nodes\<close> answers with \<^const>\<open>None\<close> when the query fails; \<open>va_status\<close> is the status call, on the
  left when it fails or the answer is no object; \<open>va_memory\<close> the total and used memory of \<open>get_node_utilization\<close>; \<open>va_api\<close> is
  \<open>run_mtls_spark_api\<close> and \<open>va_full\<close> is \<open>run_mtls_spark_api_full\<close> on the storage endpoint; \<open>va_spark\<close> is \<open>run_remote_spark\<close>;
  \<open>va_xml\<close> is \<open>generate_vm_xml\<close> with what it reads, on the left when it raises.
\<close>

record 'w vali_env =
  va_vm :: "string \<Rightarrow> 'w \<Rightarrow> vm_spec option \<times> 'w"
  va_nodes :: "'w \<Rightarrow> node_row list option \<times> 'w"
  va_node_ip :: "string \<Rightarrow> 'w \<Rightarrow> string option option \<times> 'w"
  va_hosts :: "'w \<Rightarrow> string list \<times> 'w"
  va_status :: "string \<Rightarrow> 'w \<Rightarrow> (string + node_status) \<times> 'w"
  va_memory :: "string \<Rightarrow> 'w \<Rightarrow> (real \<times> real) \<times> 'w"
  va_vdisk_size :: "string \<Rightarrow> 'w \<Rightarrow> int option list option \<times> 'w"
  va_capacity :: "string \<Rightarrow> 'w \<Rightarrow> int option \<times> 'w"
  va_lwt :: "string \<Rightarrow> (string \<times> jval) list \<Rightarrow> 'w \<Rightarrow> lwt_result \<times> 'w"
  va_api :: "string \<Rightarrow> sidon_call \<Rightarrow> 'w \<Rightarrow> (int \<times> string option \<times> string) \<times> 'w"
  va_full :: "string \<Rightarrow> sidon_call \<Rightarrow> 'w \<Rightarrow> (int \<times> sidon_body option \<times> string) \<times> 'w"
  va_spark :: "string \<Rightarrow> spark_command \<Rightarrow> 'w \<Rightarrow> (int \<times> string \<times> string) \<times> 'w"
  va_xml :: "string \<Rightarrow> vm_spec \<Rightarrow> string \<Rightarrow> 'w \<Rightarrow> (string + string) \<times> 'w"
  va_history :: "string \<Rightarrow> string \<Rightarrow> string \<Rightarrow> string \<Rightarrow> 'w \<Rightarrow> unit \<times> 'w"
  va_pause :: "real \<Rightarrow> 'w \<Rightarrow> unit \<times> 'w"

datatype vevent =
    V_Vm string "vm_spec option"
  | V_Nodes "node_row list option"
  | V_Status string "string + node_status"
  | V_Lwt string "(string \<times> jval) list" lwt_result
  | V_Api string sidon_call int
  | V_Full string sidon_call int "sidon_body option"
  | V_Spark string spark_command int
  | V_History string string string string

definition lwt :: "'w vali_env \<Rightarrow> string \<Rightarrow> (string \<times> jval) list \<Rightarrow> ('w, vevent, lwt_result) eff" where
  "lwt env path d = act (va_lwt env path d) (V_Lwt path d)"

definition api :: "'w vali_env \<Rightarrow> string \<Rightarrow> sidon_call \<Rightarrow> ('w, vevent, int \<times> string option \<times> string) eff" where
  "api env ip c = act (va_api env ip c) (\<lambda>r. V_Api ip c (fst r))"

definition spark :: "'w vali_env \<Rightarrow> string \<Rightarrow> spark_command \<Rightarrow> ('w, vevent, int \<times> string \<times> string) eff" where
  "spark env ip c = act (va_spark env ip c) (\<lambda>r. V_Spark ip c (fst r))"

definition py_or :: "string \<Rightarrow> string \<Rightarrow> string" where
  "py_or a b = (if a = [] then b else a)"

text \<open>A value in a message, with and without \<open>repr\<close>.\<close>

definition shown_value :: "jval option \<Rightarrow> string" where
  "shown_value v = (case v of None \<Rightarrow> ''None'' | Some x \<Rightarrow> jval_repr x)"

definition text_or :: "jval option \<Rightarrow> string \<Rightarrow> string" where
  "text_or v d = (if truthy_jval v then jval_text (the v) else d)"

definition host_value :: "string option \<Rightarrow> jval" where
  "host_value h = (case h of None \<Rightarrow> J_Null | Some s \<Rightarrow> J_Str s)"

section \<open>Which host may take a guest\<close>

definition all_up :: "node_status \<Rightarrow> bool" where
  "all_up s \<longleftrightarrow> list_all (\<lambda>(_, st). st = Some ''UP'') (ns_services s)"

definition not_in_maintenance :: "node_status \<Rightarrow> bool" where
  "not_in_maintenance s \<longleftrightarrow> ns_maintenance s = None \<or> ns_maintenance s = Some ''NORMAL''"

definition read_node_rows :: "'w vali_env \<Rightarrow> ('w, vevent, (string \<times> node_row) list option) eff" where
  "read_node_rows env = do {
     rows \<leftarrow> act (va_nodes env) V_Nodes;
     ret (map_option (foldl (\<lambda>d r. if truthy_str (nr_ip r) then dict_set (the (nr_ip r)) r d else d) []) rows) }"

definition node_state :: "'w vali_env \<Rightarrow> string \<Rightarrow> ('w, vevent, string + node_status) eff" where
  "node_state env ip = act (va_status env ip) (V_Status ip)"

definition asked_reason :: "'w vali_env \<Rightarrow> string \<Rightarrow> ('w, vevent, string option) eff" where
  "asked_reason env ip = do {
     st \<leftarrow> node_state env ip;
     ret (case st of
            Inl err \<Rightarrow> Some (''it is not answering ('' @ py_or err ''no status'' @ '')'')
          | Inr s \<Rightarrow>
              if \<not> not_in_maintenance s then Some (''it is in maintenance ('' @ or_str (ns_maintenance s) [] @ '')'')
              else (let down = sort (map fst (filter (\<lambda>(_, st). st \<noteq> Some ''UP'') (ns_services s)))
                    in if down \<noteq> [] then Some (''these services are not up: '' @ join '', '' down) else None)) }"

definition host_ineligible_reason :: "'w vali_env \<Rightarrow> string \<Rightarrow> ('w, vevent, string option) eff" where
  "host_ineligible_reason env ip = do {
     rows \<leftarrow> read_node_rows env;
     case rows of
       None \<Rightarrow> ret (Some ''hydra.nodes could not be read, so its recorded state is unknown'')
     | Some d \<Rightarrow>
         (case map_of d ip of
            Some r \<Rightarrow>
              if truthy (nr_maintenance r) \<or> or_str (nr_status r) ''NORMAL'' \<noteq> ''NORMAL''
              then ret (Some (''its recorded state is '' @ or_str (nr_status r) ''in maintenance'' @ '', not NORMAL''))
              else asked_reason env ip
          | None \<Rightarrow> asked_reason env ip) }"

text \<open>\<open>select_best_start_host\<close>: the healthy host with the memory and the least of it used; failing that the first healthy one.\<close>

definition maintenance_ips :: "node_row list option \<Rightarrow> string option list" where
  "maintenance_ips rows =
     (case rows of
        None \<Rightarrow> []
      | Some rs \<Rightarrow> map nr_ip (filter (\<lambda>r. truthy (nr_maintenance r) \<or> nr_status r \<noteq> Some ''NORMAL'') rs))"

definition healthy_status :: "string + node_status \<Rightarrow> bool" where
  "healthy_status st = (case st of Inl _ \<Rightarrow> False | Inr s \<Rightarrow> not_in_maintenance s \<and> all_up s)"

definition weigh_host :: "'w vali_env \<Rightarrow> string option list \<Rightarrow> int \<Rightarrow> string \<Rightarrow> (string \<times> real) option \<Rightarrow>
    ('w, vevent, (string \<times> real) option) eff" where
  "weigh_host env away memory ip best =
     (if Some ip \<in> set away then ret best
      else do {
        st \<leftarrow> node_state env ip;
        if \<not> healthy_status st then ret best
        else do {
          (total_mb, used_mb) \<leftarrow> look (va_memory env ip);
          ret (if real_of_int memory \<le> total_mb - used_mb \<and> (case best of None \<Rightarrow> True | Some (_, least) \<Rightarrow> used_mb < least)
               then Some (ip, used_mb) else best) } })"

fun first_healthy :: "'w vali_env \<Rightarrow> string option list \<Rightarrow> string list \<Rightarrow> ('w, vevent, string option) eff" where
  "first_healthy env away [] = ret None"
| "first_healthy env away (ip # ips) =
     (if Some ip \<in> set away then first_healthy env away ips
      else do {
        st \<leftarrow> node_state env ip;
        if healthy_status st then ret (Some ip) else first_healthy env away ips })"

definition select_best_start_host :: "'w vali_env \<Rightarrow> int \<Rightarrow> ('w, vevent, string option) eff" where
  "select_best_start_host env memory = do {
     rows \<leftarrow> act (va_nodes env) V_Nodes;
     let away = maintenance_ips rows;
     hosts \<leftarrow> look (va_hosts env);
     best \<leftarrow> for_each (weigh_host env away memory) hosts None;
     if \<not> truthy_str (map_option fst best) then do {
       some \<leftarrow> first_healthy env away hosts;
       ret (case some of Some ip \<Rightarrow> Some ip | None \<Rightarrow> map_option fst best) }
     else ret (map_option fst best) }"

definition dotted_quad :: "string \<Rightarrow> bool" where
  "dotted_quad s =
     (let ps = split_on (CHR ''.'') s in length ps = 4 \<and> list_all (\<lambda>p. p \<noteq> [] \<and> length p \<le> 3 \<and> list_all is_digit p) ps)"

definition get_node_ip :: "'w vali_env \<Rightarrow> string \<Rightarrow> ('w, vevent, string) eff" where
  "get_node_ip env h =
     (if h = [] then ret []
      else if dotted_quad h then ret h
      else do {
        row \<leftarrow> look (va_node_ip env h);
        ret (case row of None \<Rightarrow> h | Some ip \<Rightarrow> or_str ip []) })"

section \<open>Power\<close>

definition release_body :: "string \<Rightarrow> jval \<Rightarrow> (string \<times> jval) list" where
  "release_body vm expected = [(''name'', J_Str vm), (''expected_host_ip'', expected)]"

definition release_failed_claim :: "'w vali_env \<Rightarrow> string \<Rightarrow> string \<Rightarrow> ('w, vevent, unit) eff" where
  "release_failed_claim env vm host = do { _ \<leftarrow> lwt env ''/v1/vm/release'' (release_body vm (J_Str host)); ret () }"

definition hand_back :: "'w vali_env \<Rightarrow> string \<Rightarrow> string list \<Rightarrow> ('w, vevent, unit) eff" where
  "hand_back env host vdisks = for_each (\<lambda>v _. do { _ \<leftarrow> api env host (S_Detach v); ret () }) vdisks ()"

text \<open>One disk or image of a start: a failure hands the disks back and releases the claim.\<close>

definition attach_step :: "'w vali_env \<Rightarrow> string \<Rightarrow> string \<Rightarrow> (string \<Rightarrow> string) \<Rightarrow> string \<Rightarrow> string list \<Rightarrow>
    ('w, vevent, string option) eff" where
  "attach_step env vm host why vdisk promoted = do {
     (rc, detail, err) \<leftarrow> api env host (S_Attach vdisk);
     if rc \<noteq> 0 then do {
       _ \<leftarrow> hand_back env host promoted;
       _ \<leftarrow> release_failed_claim env vm host;
       ret (Some (why (py_or (or_str detail []) err))) }
     else ret None }"

definition refuse_disk :: "string \<Rightarrow> string \<Rightarrow> string \<Rightarrow> string \<Rightarrow> string" where
  "refuse_disk vm host vdisk detail = ''Refusing to start '' @ vm @ '': Sidon would not hand '' @ vdisk @ '' to '' @ host @ '' ('' @ detail
     @ ''). Another host may still own the disk.''"

definition refuse_image :: "string \<Rightarrow> string \<Rightarrow> string \<Rightarrow> string \<Rightarrow> string" where
  "refuse_image vm host spec detail = ''Refusing to start '' @ vm @ '': its image '' @ spec @ '' could not be attached on '' @ host
     @ '' ('' @ detail @ ''). The guest would boot with no install medium.''"

definition attach_disks :: "'w vali_env \<Rightarrow> string \<Rightarrow> string \<Rightarrow> string list \<Rightarrow> ('w, vevent, string option \<times> string list) eff" where
  "attach_disks env vm host vdisks =
     for_keep (\<lambda>v promoted. do {
         r \<leftarrow> attach_step env vm host (refuse_disk vm host v) v promoted;
         ret (r, case r of None \<Rightarrow> promoted @ [v] | Some _ \<Rightarrow> promoted) }) vdisks []"

definition attach_images :: "'w vali_env \<Rightarrow> string \<Rightarrow> string \<Rightarrow> string list \<Rightarrow> string list \<Rightarrow> ('w, vevent, string option \<times> string list) eff" where
  "attach_images env vm host specs promoted =
     for_keep (\<lambda>spec p. do {
         r \<leftarrow> attach_step env vm host (refuse_image vm host spec) (image_vdisk_id spec) p;
         ret (r, p) }) specs promoted"

text \<open>The disks a start attaches: those of its list, so none without a list.\<close>

definition start_vdisks :: "string \<Rightarrow> string option \<Rightarrow> string list" where
  "start_vdisks vm disks_list =
     (if truthy_str disks_list \<and> disks_list \<noteq> Some ''NONE''
      then map (vdisk_id_for vm) [0..<length (split_on (CHR '','') (the disks_list))] else [])"

definition claim_vm_body :: "string \<Rightarrow> string \<Rightarrow> string option \<Rightarrow> (string \<times> jval) list" where
  "claim_vm_body vm host claimed_from =
     [(''name'', J_Str vm), (''host_ip'', J_Str host), (''expected_host_ip'', host_value claimed_from), (''state'', J_Str ''Running'')]"

definition refuse_start :: "string \<Rightarrow> string option \<Rightarrow> lwt_result \<Rightarrow> string" where
  "refuse_start vm claimed_from a =
     (if \<not> lr_ok a
      then ''Refusing to start '' @ vm @ '': its host placement could not be claimed ('' @ jval_text (lr_error a)
        @ ''). Starting it without the claim risks a second copy on another host.''
      else (let owner = text_or (map_of (lr_current a) ''host_ip'') []
            in if owner \<noteq> []
               then ''Refusing to start '' @ vm @ '': another host already owns it ('' @ owner @ ''). Stop it there first, or start it on '' @ owner @ ''.''
               else ''Refusing to start '' @ vm @ '': its placement changed while this start was being prepared (host_ip is now '' @ quoted owner
                 @ '', this start expected '' @ jval_repr (host_value claimed_from) @ '').''))"

definition boot_vm :: "'w vali_env \<Rightarrow> string \<Rightarrow> string \<Rightarrow> string \<Rightarrow> ('w, vevent, bool \<times> string) eff" where
  "boot_vm env vm host xml = do {
     (rc, out, err) \<leftarrow> spark env host (C_Start vm xml);
     if rc \<noteq> 0 then do {
       _ \<leftarrow> release_failed_claim env vm host;
       ret (False, ''Failed to execute start on target host '' @ host @ '': '' @ py_or (strip err) (strip out)) }
     else ret (True, host) }"

text \<open>What follows the claim.\<close>

definition start_claimed :: "'w vali_env \<Rightarrow> string \<Rightarrow> vm_spec \<Rightarrow> string \<Rightarrow> ('w, vevent, bool \<times> string) eff" where
  "start_claimed env vm spec host = do {
     made \<leftarrow> look (va_xml env vm spec host);
     case made of
       Inl e \<Rightarrow> ret (False, e)
     | Inr xml \<Rightarrow> do {
         (bad, promoted) \<leftarrow> attach_disks env vm host (start_vdisks vm (vs_disks spec));
         case bad of
           Some e \<Rightarrow> ret (False, e)
         | None \<Rightarrow> do {
             (bad', _) \<leftarrow> attach_images env vm host (image_specs (vs_iso spec)) promoted;
             case bad' of Some e \<Rightarrow> ret (False, e) | None \<Rightarrow> boot_vm env vm host xml } } }"

definition start_on :: "'w vali_env \<Rightarrow> string \<Rightarrow> vm_spec \<Rightarrow> string \<Rightarrow> ('w, vevent, bool \<times> string) eff" where
  "start_on env vm spec host = do {
     a \<leftarrow> lwt env ''/v1/vm/claim'' (claim_vm_body vm host (vs_host spec));
     if \<not> lr_ok a \<or> \<not> lr_applied a then ret (False, refuse_start vm (vs_host spec) a)
     else start_claimed env vm spec host }"

definition not_a_number :: string where
  "not_a_number = ''int() argument must be a string, a bytes-like object or a real number, not '' @ quoted ''NoneType''"

definition start_vm :: "'w vali_env \<Rightarrow> string \<Rightarrow> vm_spec \<Rightarrow> string option \<Rightarrow> ('w, vevent, bool \<times> string) eff" where
  "start_vm env vm spec target =
     (if vs_memory spec = None \<or> vs_vcpu spec = None then ret (False, not_a_number)
      else do {
        selected \<leftarrow> (if truthy_str target then ret target else select_best_start_host env (the (vs_memory spec)));
        if \<not> truthy_str selected then ret (False, ''No active hypervisor host has sufficient memory.'')
        else start_on env vm spec (the selected) })"

definition stop_vm :: "'w vali_env \<Rightarrow> string \<Rightarrow> vm_spec \<Rightarrow> ('w, vevent, bool \<times> string) eff" where
  "stop_vm env vm spec =
     (if \<not> truthy_str (vs_host spec) then do {
        a \<leftarrow> lwt env ''/v1/vm/release'' (release_body vm (host_value (vs_host spec)));
        ret (if \<not> lr_ok a then (False, ''Could not mark '' @ vm @ '' stopped: '' @ jval_text (lr_error a))
             else if \<not> lr_applied a
             then (False, ''Not stopping '' @ vm @ '': it was placed on '' @ text_or (map_of (lr_current a) ''host_ip'') ''another host''
                     @ '' while this stop was being prepared. Re-issue the stop.'')
             else (True, [])) }
      else do {
        let host = the (vs_host spec);
        (rc, _, err) \<leftarrow> spark env host (C_Stop vm);
        if rc = - 1 then
          ret (False, vm @ '' could not be stopped: '' @ host @ '' did not answer ('' @ err @ ''). The placement was left as it is.'')
        else do {
          a \<leftarrow> lwt env ''/v1/vm/release'' (release_body vm (J_Str host));
          ret (if \<not> lr_ok a
               then (False, vm @ '' was destroyed on '' @ host @ '' but its placement could not be released: '' @ jval_text (lr_error a))
               else if \<not> lr_applied a
               then (False, vm @ '' was destroyed on '' @ host @ '', but Hydra now places it on '' @ shown_value (map_of (lr_current a) ''host_ip'')
                       @ '', so this stop did not release it. Check whether it is running there.'')
               else (True, [])) } })"

definition power_vm :: "'w vali_env \<Rightarrow> string \<Rightarrow> vm_spec \<Rightarrow> string \<Rightarrow> ('w, vevent, bool \<times> string) eff" where
  "power_vm env vm spec action =
     (if \<not> truthy_str (vs_host spec) then ret (False, ''VM is not running.'')
      else do {
        let host = the (vs_host spec);
        (rc, _, err) \<leftarrow> spark env host (C_Power action vm);
        ret (if rc \<noteq> 0 then (False, ''Failed to execute '' @ action @ '' on host: '' @ strip err) else (True, host)) })"

section \<open>Migration\<close>

text \<open>\<open>sidon_op\<close>: whether it worked, the answer's object and what went wrong.\<close>

definition sidon_op :: "'w vali_env \<Rightarrow> string \<Rightarrow> sidon_call \<Rightarrow> ('w, vevent, bool \<times> sidon_body \<times> string) eff" where
  "sidon_op env ip c = do {
     (status, body, err) \<leftarrow> act (va_full env ip c) (\<lambda>r. V_Full ip c (fst r) (fst (snd r)));
     let blank = \<lparr>sb_already = False, sb_forwarding = None, sb_error = None\<rparr>;
     ret (case body of
            Some b \<Rightarrow> if status = 200 then (True, b, []) else (False, b, py_or (or_str (sb_error b) []) (py_or err (''HTTP '' @ show_int status)))
          | None \<Rightarrow> (False, blank, py_or err (''HTTP '' @ show_int status))) }"

definition step_error :: "string \<Rightarrow> string \<Rightarrow> string" where
  "step_error step detail = ''step '' @ quoted step @ '' failed: '' @ detail"

definition detach_destination_forwarders :: "'w vali_env \<Rightarrow> string \<Rightarrow> string list \<Rightarrow> ('w, vevent, string list) eff" where
  "detach_destination_forwarders env ip vdisks =
     for_each (\<lambda>v problems. do {
         (ok, _, detail) \<leftarrow> sidon_op env ip (S_Detach v);
         ret (if ok then problems else problems @ [v @ '': '' @ detail]) }) vdisks []"

text \<open>The loop over the data disks keeps what it attached, which a failure detaches.\<close>

definition forward_disk :: "'w vali_env \<Rightarrow> string \<Rightarrow> string \<Rightarrow> string list \<Rightarrow> ('w, vevent, string option \<times> string list) eff" where
  "forward_disk env ip v created = do {
     (ok, body, detail) \<leftarrow> sidon_op env ip (S_Forward v);
     let step = ''attach '' @ v @ '' on the target'';
     if \<not> ok then ret (Some (step_error step detail), created)
     else do {
       let created' = (if sb_already body then created else created @ [v]);
       if \<not> truthy_str (sb_forwarding body)
       then ret (Some (step_error step
              ''the target would own the disk while the guest still runs on the source; Hydra names no other owner for it''), created')
       else ret (None, created') } }"

definition attach_target_image :: "'w vali_env \<Rightarrow> string \<Rightarrow> string \<Rightarrow> string list \<Rightarrow> ('w, vevent, string option \<times> string list) eff" where
  "attach_target_image env ip v created = do {
     (ok, _, detail) \<leftarrow> sidon_op env ip (S_Attach v);
     ret (if ok then None else Some (step_error (''attach image '' @ v @ '' on the target'') detail), created) }"

definition prepare_destination_storage :: "'w vali_env \<Rightarrow> string \<Rightarrow> string list \<Rightarrow> string list \<Rightarrow> ('w, vevent, string + string list) eff" where
  "prepare_destination_storage env ip data_ids image_ids = do {
     (bad, created) \<leftarrow> for_keep (forward_disk env ip) data_ids [];
     (bad', created') \<leftarrow> (case bad of
          Some e \<Rightarrow> ret (Some e, created)
        | None \<Rightarrow> for_keep (attach_target_image env ip) image_ids created);
     case bad' of
       Some e \<Rightarrow> do { _ \<leftarrow> detach_destination_forwarders env ip created'; ret (Inl e) }
     | None \<Rightarrow> ret (Inr created') }"

fun takeover_tries :: "'w vali_env \<Rightarrow> string \<Rightarrow> string \<Rightarrow> nat \<Rightarrow> ('w, vevent, string) eff" where
  "takeover_tries env ip v 0 = ret []"
| "takeover_tries env ip v (Suc n) = do {
     (ok, _, detail) \<leftarrow> sidon_op env ip (S_Takeover v);
     if ok then ret []
     else if n = 0 then ret detail
     else do { _ \<leftarrow> look (va_pause env 5); takeover_tries env ip v n } }"

definition hand_over_storage :: "'w vali_env \<Rightarrow> string \<Rightarrow> string list \<Rightarrow> ('w, vevent, (string \<times> string) list) eff" where
  "hand_over_storage env ip data_ids =
     for_each (\<lambda>v failures. do {
         detail \<leftarrow> takeover_tries env ip v 3;
         ret (if detail = [] then failures else failures @ [(v, detail)]) }) data_ids []"

definition mebibyte :: int where "mebibyte = 1024 * 1024"

definition get_vm_disk_size :: "'w vali_env \<Rightarrow> string \<Rightarrow> ('w, vevent, int option) eff" where
  "get_vm_disk_size env vm = do {
     spec \<leftarrow> act (va_vm env vm) (V_Vm vm);
     case spec of
       None \<Rightarrow> ret None
     | Some sp \<Rightarrow>
         if \<not> truthy_str (vs_disks sp) then ret None
         else do {
           sizes \<leftarrow> look (va_vdisk_size env (vdisk_id_for vm 0));
           ret (case sizes of
                  None \<Rightarrow> None
                | Some ns \<Rightarrow> map_option (\<lambda>n. or_int n 0 div mebibyte) (find (\<lambda>n. 0 < or_int n 0) ns)) } }"

definition get_storage_free_space :: "'w vali_env \<Rightarrow> string \<Rightarrow> ('w, vevent, int option) eff" where
  "get_storage_free_space env ip = do {
     available \<leftarrow> look (va_capacity env ip);
     ret (case available of None \<Rightarrow> None | Some n \<Rightarrow> if n \<le> 0 then None else Some (n div mebibyte)) }"

text \<open>The memory and storage gates of a migration: \<^const>\<open>Some\<close> refusal.\<close>

definition no_room :: "'w vali_env \<Rightarrow> string \<Rightarrow> vm_spec \<Rightarrow> string \<Rightarrow> string \<Rightarrow> ('w, vevent, string option) eff" where
  "no_room env vm spec target_host ip = do {
     let memory = or_int (vs_memory spec) 1024;
     (total_mb, used_mb) \<leftarrow> look (va_memory env ip);
     if total_mb - used_mb < real_of_int memory
     then ret (Some (''Target host '' @ target_host @ '' has insufficient free memory ('' @ show_int (if total_mb - used_mb < 0 then \<lceil>total_mb - used_mb\<rceil> else \<lfloor>total_mb - used_mb\<rfloor>)
            @ '' MB available, needs '' @ show_int memory @ '' MB).''))
     else do {
       size \<leftarrow> get_vm_disk_size env vm;
       case size of
         None \<Rightarrow> ret (Some (''Refusing to migrate '' @ vm @ '': its disk size could not be determined, so there is no way to tell whether ''
                   @ target_host @ '' can hold it.''))
       | Some disk_size \<Rightarrow> do {
           free \<leftarrow> get_storage_free_space env ip;
           ret (case free of
                  None \<Rightarrow> Some (''Refusing to migrate '' @ vm @ '': the free storage on '' @ target_host
                            @ '' could not be read, so the capacity check cannot be made.'')
                | Some target_free \<Rightarrow>
                    if target_free < disk_size
                    then Some (''Target host '' @ target_host @ '' has insufficient free extent-store space ('' @ show_int target_free
                           @ '' MiB available, needs '' @ show_int disk_size @ '' MiB).'')
                    else None) } } }"

definition commit_body :: "string \<Rightarrow> string \<Rightarrow> string \<Rightarrow> (string \<times> jval) list" where
  "commit_body vm ip src = [(''name'', J_Str vm), (''host_ip'', J_Str ip), (''expected_host_ip'', J_Str src)]"

definition unlock :: "'w vali_env \<Rightarrow> string \<Rightarrow> ('w, vevent, unit) eff" where
  "unlock env vm = do { _ \<leftarrow> lwt env ''/v1/vm/migrate-unlock'' [(''name'', J_Str vm)]; ret () }"

text \<open>From the guest's arrival on: the placement, the disks and the history.\<close>

definition settle_migration :: "'w vali_env \<Rightarrow> string \<Rightarrow> string \<Rightarrow> string \<Rightarrow> string list \<Rightarrow> string \<Rightarrow> ('w, vevent, bool \<times> string) eff" where
  "settle_migration env vm src ip data_ids reason = do {
     _ \<leftarrow> spark env src (C_Drop_Nvram vm);
     a \<leftarrow> lwt env ''/v1/vm/migrate-commit'' (commit_body vm ip src);
     if \<not> lr_ok a \<or> \<not> lr_applied a then do {
       _ \<leftarrow> unlock env vm;
       let detail = (if \<not> lr_ok a then jval_text (lr_error a)
             else ''the row moved underneath the migration (host_ip = '' @ shown_value (map_of (lr_current a) ''host_ip'')
               @ '', status = '' @ shown_value (map_of (lr_current a) ''status'') @ '')'');
       ret (False, vm @ '' migrated to '' @ ip @ '', but its record could not be updated: '' @ detail @ ''. The guest is running on '' @ ip
              @ '' while Hydra still places it on '' @ src @ ''; repair the row before starting or stopping this VM.'') }
     else do {
       failures \<leftarrow> hand_over_storage env ip data_ids;
       _ \<leftarrow> act (va_history env vm src ip reason) (\<lambda>_. V_History vm src ip reason);
       ret (if failures \<noteq> []
            then (False, vm @ '' migrated to '' @ ip @ '' and is running there, but the storage handover did not finish at step ''
                    @ quoted ''takeover'' @ '' ('' @ join ''; '' (map (\<lambda>(v, d). v @ '': '' @ d) failures)
                    @ ''). Its disks are still served by the previous owner through '' @ ip
                    @ ''; run the takeover again (it is safe to repeat) with: valcli storage.takeover <vdisk> '' @ ip)
            else (True, ip)) } }"

definition leftovers_note :: "string \<Rightarrow> string list \<Rightarrow> string" where
  "leftovers_note ip leftovers =
     (if leftovers \<noteq> [] then '' The forwarders on '' @ ip @ '' could not all be removed ('' @ join ''; '' leftovers @ '').''
      else '' The forwarders on '' @ ip @ '' were removed.'')"

text \<open>The firmware's variables go to the target, and a stale definition there goes away.\<close>

definition prime_target :: "'w vali_env \<Rightarrow> string \<Rightarrow> string \<Rightarrow> string \<Rightarrow> ('w, vevent, unit) eff" where
  "prime_target env vm src ip = do {
     _ \<leftarrow> spark env src (C_Backup vm);
     _ \<leftarrow> spark env ip (C_Restore vm);
     _ \<leftarrow> spark env ip (C_Undefine vm);
     ret () }"

text \<open>The work under the lock; on the left what it raises.\<close>

definition run_migration :: "'w vali_env \<Rightarrow> string \<Rightarrow> vm_spec \<Rightarrow> string \<Rightarrow> string \<Rightarrow> string \<Rightarrow> ('w, vevent, string + bool \<times> string) eff" where
  "run_migration env vm spec src ip reason = do {
     _ \<leftarrow> prime_target env vm src ip;
     let data_ids = domain_vdisk_ids vm (vs_disks spec);
     prepared \<leftarrow> prepare_destination_storage env ip data_ids (domain_image_ids (vs_iso spec));
     case prepared of
       Inl e \<Rightarrow> ret (Inl (e @ ''. Nothing changed on '' @ src @ '': it still owns every disk and the guest keeps running there.''))
     | Inr forwarders \<Rightarrow> do {
         (rc, out, err) \<leftarrow> spark env src (C_Migrate vm ip);
         if rc \<noteq> 0 then do {
           leftovers \<leftarrow> detach_destination_forwarders env ip forwarders;
           ret (Inl (''Migration command failed at step '' @ quoted ''virsh migrate'' @ '': '' @ py_or (strip err) (strip out) @ ''. '' @ src
                  @ '' still owns every disk and no epoch moved.'' @ leftovers_note ip leftovers)) }
         else do { r \<leftarrow> settle_migration env vm src ip data_ids reason; ret (Inr r) } } }"

definition locked_migration :: "'w vali_env \<Rightarrow> string \<Rightarrow> vm_spec \<Rightarrow> string \<Rightarrow> string \<Rightarrow> string \<Rightarrow> ('w, vevent, bool \<times> string) eff" where
  "locked_migration env vm spec src ip reason = do {
     a \<leftarrow> lwt env ''/v1/vm/migrate-lock'' [(''name'', J_Str vm)];
     if \<not> lr_ok a then
       ret (False, ''Refusing to migrate '' @ vm @ '': the migration lock could not be taken ('' @ jval_text (lr_error a)
              @ ''). Without it a concurrent migration of the same VM would not be detected.'')
     else if \<not> lr_applied a then
       ret (False, ''Refusing to migrate '' @ vm @ '': it is already migrating (status = '' @ shown_value (map_of (lr_current a) ''status'') @ '').'')
     else do {
       r \<leftarrow> run_migration env vm spec src ip reason;
       case r of
         Inr x \<Rightarrow> ret x
       | Inl e \<Rightarrow> do { _ \<leftarrow> unlock env vm; ret (False, ''Migration failed: '' @ e) } } }"

definition migrate_vm :: "'w vali_env \<Rightarrow> string \<Rightarrow> string option \<Rightarrow> string \<Rightarrow> ('w, vevent, bool \<times> string) eff" where
  "migrate_vm env vm target reason =
     (if \<not> truthy_str target then ret (False, ''Migration target host not specified.'')
      else do {
        let target_host = the target;
        ip \<leftarrow> get_node_ip env target_host;
        if ip = [] then ret (False, ''Could not resolve target host '' @ target_host @ '' to IP address.'')
        else if \<not> is_valid_object_name (Some ip) then ret (False, ''Invalid target host address '' @ quoted ip @ '': '' @ object_name_error @ ''.'')
        else do {
          found \<leftarrow> act (va_vm env vm) (V_Vm vm);
          case found of
            None \<Rightarrow> ret (False, ''VM not found in metadata database.'')
          | Some spec \<Rightarrow>
              (let src = or_str (vs_host spec) []; power = or_str (vs_state spec) [] in
               if src = [] \<or> lower power \<noteq> ''running'' then
                 ret (False, ''VM must be running to migrate (current state: '' @ py_or power ''unknown'' @ '', host: '' @ py_or src ''unplaced'' @ '').'')
               else if src = ip then ret (True, ip)
               else do {
                 why_not \<leftarrow> host_ineligible_reason env ip;
                 case why_not of
                   Some why \<Rightarrow> ret (False, ''Target host '' @ target_host @ '' cannot take guests: '' @ why)
                 | None \<Rightarrow> do {
                     full \<leftarrow> no_room env vm spec target_host ip;
                     case full of
                       Some e \<Rightarrow> ret (False, e)
                     | None \<Rightarrow> locked_migration env vm spec src ip reason } }) } })"

section \<open>What a start does\<close>

definition asks_only :: "vevent \<Rightarrow> bool" where
  "asks_only e = (case e of V_Nodes _ \<Rightarrow> True | V_Status _ _ \<Rightarrow> True | V_Vm _ _ \<Rightarrow> True | _ \<Rightarrow> False)"
















section \<open>What a migration does\<close>

text \<open>An observer of a migration: whether the lock is held, the disks forwarded on the target, whether the guest has moved and whether the row has.\<close>

record moving =
  mv_locked :: bool
  mv_forwarded :: "string list"
  mv_moved :: bool
  mv_committed :: bool

definition not_moving :: moving where
  "not_moving = \<lparr>mv_locked = False, mv_forwarded = [], mv_moved = False, mv_committed = False\<rparr>"

definition forwards :: "int \<Rightarrow> sidon_body option \<Rightarrow> bool" where
  "forwards status body = (status = 200 \<and> (case body of None \<Rightarrow> False | Some b \<Rightarrow> truthy_str (sb_forwarding b)))"

definition follow :: "moving \<Rightarrow> vevent \<Rightarrow> moving" where
  "follow mv e =
     (case e of
        V_Lwt path _ a \<Rightarrow>
          if path = ''/v1/vm/migrate-lock'' then mv\<lparr>mv_locked := mv_locked mv \<or> wins a\<rparr>
          else if path = ''/v1/vm/migrate-unlock'' then mv\<lparr>mv_locked := False\<rparr>
          else if path = ''/v1/vm/migrate-commit'' \<and> wins a then mv\<lparr>mv_locked := False, mv_committed := True\<rparr>
          else mv
      | V_Full _ (S_Forward v) status body \<Rightarrow> if forwards status body then mv\<lparr>mv_forwarded := mv_forwarded mv @ [v]\<rparr> else mv
      | V_Spark _ (C_Migrate _ _) rc \<Rightarrow> mv\<lparr>mv_moved := mv_moved mv \<or> rc = 0\<rparr>
      | _ \<Rightarrow> mv)"

text \<open>
  What may happen when: on the source only the backup and the migration itself, the latter under the lock and with every disk forwarded; the row is
  handed over only under the lock after the guest has moved; a disk changes its owner only after that.
\<close>

definition moves_rightly :: "string \<Rightarrow> string list \<Rightarrow> string \<Rightarrow> string \<Rightarrow> moving \<Rightarrow> vevent \<Rightarrow> bool" where
  "moves_rightly vm data_ids src ip mv e =
     (case e of
        V_Spark h c _ \<Rightarrow>
          mv_locked mv \<and>
          (c = C_Backup vm \<and> h = src \<or> c = C_Restore vm \<and> h = ip \<and> \<not> mv_moved mv \<or> c = C_Undefine vm \<and> h = ip \<and> \<not> mv_moved mv
           \<or> c = C_Migrate vm ip \<and> h = src \<and> set data_ids \<subseteq> set (mv_forwarded mv) \<or> c = C_Drop_Nvram vm \<and> h = src \<and> mv_moved mv)
      | V_Full h c _ _ \<Rightarrow>
          h = ip \<and> (case c of S_Takeover v \<Rightarrow> mv_committed mv \<and> v \<in> set data_ids
                            | S_Detach v \<Rightarrow> mv_locked mv \<and> \<not> mv_moved mv \<and> v \<in> set data_ids
                            | _ \<Rightarrow> mv_locked mv \<and> \<not> mv_moved mv)
      | V_Lwt path d _ \<Rightarrow>
          path = ''/v1/vm/migrate-lock'' \<and> \<not> mv_locked mv \<or> path = ''/v1/vm/migrate-unlock'' \<and> mv_locked mv
          \<or> path = ''/v1/vm/migrate-commit'' \<and> d = commit_body vm ip src \<and> mv_locked mv \<and> mv_moved mv
      | V_History _ _ _ _ \<Rightarrow> mv_committed mv
      | e' \<Rightarrow> asks_only e')"

text \<open>A stretch of a migration in which the lock, the move and the commit stay as they are.\<close>

definition steps_along :: "string \<Rightarrow> string list \<Rightarrow> string \<Rightarrow> string \<Rightarrow> moving \<Rightarrow> vevent list \<Rightarrow> bool" where
  "steps_along vm data_ids src ip mv es \<longleftrightarrow>
     watched follow (moves_rightly vm data_ids src ip) mv es
     \<and> (\<exists>vs. foldl follow mv es = mv\<lparr>mv_forwarded := mv_forwarded mv @ vs\<rparr>)"

lemma steps_along_append:
  assumes "steps_along vm data_ids src ip mv xs" "steps_along vm data_ids src ip (foldl follow mv xs) ys"
  shows "steps_along vm data_ids src ip mv (xs @ ys)"
proof -
  obtain vs where vs: "foldl follow mv xs = mv\<lparr>mv_forwarded := mv_forwarded mv @ vs\<rparr>" using assms(1) by (auto simp: steps_along_def)
  obtain ws where "foldl follow (foldl follow mv xs) ys = mv\<lparr>mv_forwarded := mv_forwarded mv @ vs @ ws\<rparr>"
    using assms(2) by (auto simp: steps_along_def vs)
  with assms show ?thesis by (auto simp: steps_along_def watched_append)
qed

text \<open>The state in which the storage of the target is prepared.\<close>

abbreviation preparing :: "moving \<Rightarrow> bool" where
  "preparing mv \<equiv> mv_locked mv \<and> \<not> mv_moved mv"

lemma steps_along_preparing: "steps_along vm ds src ip mv es \<Longrightarrow> preparing mv \<Longrightarrow> preparing (foldl follow mv es)"
  by (auto simp: steps_along_def)

lemma steps_along_nil: "steps_along vm ds src ip mv []"
  by (auto simp: steps_along_def intro: exI [of _ "[]"])

lemma yields_sidon_op:
  "yields (sidon_op env ip c) (\<lambda>r es. \<exists>status body. es = [V_Full ip c status body] \<and> (fst r \<longleftrightarrow> status = 200 \<and> body \<noteq> None)
     \<and> (fst r \<longrightarrow> body = Some (fst (snd r))))"
  unfolding sidon_op_def Let_def by (intro yields_intros) (auto split: option.splits)

lemma steps_along_one:
  "moves_rightly vm ds src ip mv e \<Longrightarrow> follow mv e = mv \<Longrightarrow> steps_along vm ds src ip mv [e]"
  by (auto simp: steps_along_def intro: exI [of _ "[]"])

lemma yields_detaching:
  assumes "set vs \<subseteq> set ds" "preparing mv"
  shows "yields (detach_destination_forwarders env ip vs) (\<lambda>_ es. watched follow (moves_rightly vm ds src ip) mv es \<and> foldl follow mv es = mv)"
proof -
  let ?I = "\<lambda>es. watched follow (moves_rightly vm ds src ip) mv es \<and> foldl follow mv es = mv"
  have "yields (detach_destination_forwarders env ip vs) (\<lambda>_ es. ?I ([] @ es))"
    unfolding detach_destination_forwarders_def
  proof (rule yields_for_each)
    fix v problems es
    assume v: "v \<in> set vs" and es: "?I es"
    have one: "?I (es @ [V_Full ip (S_Detach v) status body])" for status body
      using assms v es by (auto simp: watched_append follow_def moves_rightly_def)
    show "yields (sidon_op env ip (S_Detach v) \<bind> (\<lambda>(ok, _, detail). ret (if ok then problems else problems @ [v @ '': '' @ detail])))
        (\<lambda>_ es'. ?I (es @ es'))"
      by (intro yields_intros yields_mono [OF yields_sidon_op]) (use one in auto)
  qed simp
  then show ?thesis by simp
qed

lemma yields_forwarding:
  assumes "v \<in> set ds" "preparing mv"
  shows "yields (forward_disk env ip v created) (\<lambda>r es. steps_along vm ds src ip mv es \<and> set (snd r) \<subseteq> insert v (set created)
     \<and> (fst r = None \<longrightarrow> v \<in> set (mv_forwarded (foldl follow mv es))))"
proof -
  have one: "steps_along vm ds src ip mv [V_Full ip (S_Forward v) status body]" for status body
    using assms by (auto simp: steps_along_def follow_def moves_rightly_def intro: exI [of _ "[]"] exI [of _ "[v]"])
  show ?thesis unfolding forward_disk_def Let_def
    by (intro yields_intros yields_mono [OF yields_sidon_op]) (auto simp: one follow_def forwards_def truthy_str_def split: option.splits)
qed

lemma steps_along_keeps: "steps_along vm ds src ip mv es \<Longrightarrow> set (mv_forwarded mv) \<subseteq> set (mv_forwarded (foldl follow mv es))"
  by (auto simp: steps_along_def)

lemma yields_preparing:
  assumes "preparing mv"
  shows "yields (prepare_destination_storage env ip ds is) (\<lambda>r es. steps_along vm ds src ip mv es
     \<and> (case r of Inl _ \<Rightarrow> True | Inr created \<Rightarrow> set created \<subseteq> set ds \<and> set ds \<subseteq> set (mv_forwarded (foldl follow mv es))))"
proof -
  let ?S = "steps_along vm ds src ip mv"
  have disks: "yields (for_keep (forward_disk env ip) ds []) (\<lambda>r es. case fst r of
      Some e \<Rightarrow> ?S ([] @ es) \<and> set (snd r) \<subseteq> set ds
    | None \<Rightarrow> ?S ([] @ es) \<and> set (snd r) \<subseteq> set ds \<and> set ds \<subseteq> set (mv_forwarded (foldl follow mv ([] @ es))))"
  proof (rule yields_for_keep [where I = "\<lambda>had created es. ?S es \<and> set created \<subseteq> set ds \<and> set had \<subseteq> set (mv_forwarded (foldl follow mv es))"])
    fix had v others created es
    assume ds: "ds = had @ v # others" and st: "?S es \<and> set created \<subseteq> set ds \<and> set had \<subseteq> set (mv_forwarded (foldl follow mv es))"
    have v: "v \<in> set ds" using ds by simp
    note step = yields_forwarding [OF v, of "foldl follow mv es" env ip created vm src]
    have "yields (forward_disk env ip v created) (\<lambda>r es'. steps_along vm ds src ip (foldl follow mv es) es' \<and> set (snd r) \<subseteq> insert v (set created)
        \<and> (fst r = None \<longrightarrow> v \<in> set (mv_forwarded (foldl follow (foldl follow mv es) es'))))"
      using step steps_along_preparing st assms by blast
    then show "yields (forward_disk env ip v created) (\<lambda>r es'. case fst r of
        Some e \<Rightarrow> ?S (es @ es') \<and> set (snd r) \<subseteq> set ds
      | None \<Rightarrow> ?S (es @ es') \<and> set (snd r) \<subseteq> set ds \<and> set (had @ [v]) \<subseteq> set (mv_forwarded (foldl follow mv (es @ es'))))"
      by (rule yields_mono) (use st v in \<open>auto intro: steps_along_append steps_along_keeps [THEN subsetD] split: option.splits\<close>)
  qed (simp add: steps_along_nil)
  have images: "yields (for_keep (attach_target_image env ip) is created) (\<lambda>r es. case fst r of
      Some e \<Rightarrow> ?S (pre @ es) \<and> snd r = created \<and> foldl follow mv (pre @ es) = foldl follow mv pre
    | None \<Rightarrow> ?S (pre @ es) \<and> snd r = created \<and> foldl follow mv (pre @ es) = foldl follow mv pre)" if "?S pre" for pre created
  proof (rule yields_for_keep)
    fix had v others c es
    assume st: "?S es \<and> c = created \<and> foldl follow mv es = foldl follow mv pre"
    then have "preparing (foldl follow mv es)" using steps_along_preparing assms by blast
    then have one: "steps_along vm ds src ip (foldl follow mv es) [V_Full ip (S_Attach v) status body]" for status body
      by (intro steps_along_one) (auto simp: moves_rightly_def follow_def)
    show "yields (attach_target_image env ip v c) (\<lambda>r es'. case fst r of
        Some e \<Rightarrow> ?S (es @ es') \<and> snd r = created \<and> foldl follow mv (es @ es') = foldl follow mv pre
      | None \<Rightarrow> ?S (es @ es') \<and> snd r = created \<and> foldl follow mv (es @ es') = foldl follow mv pre)"
      unfolding attach_target_image_def
      by (intro yields_intros yields_mono [OF yields_sidon_op]) (use st one in \<open>auto simp: follow_def intro: steps_along_append\<close>)
  qed (use that in simp)
  have undo: "yields (detach_destination_forwarders env ip created) (\<lambda>_ es. ?S (pre @ es))" if "?S pre" "set created \<subseteq> set ds" for pre created
    using yields_detaching [OF that(2), of "foldl follow mv pre" env ip vm src] steps_along_preparing [OF that(1)] assms
    using that(1) by (auto elim!: yields_mono simp: steps_along_def watched_append)
  show ?thesis unfolding prepare_destination_storage_def
    by (rule yields_bind, rule yields_mono [OF disks])
      (auto intro!: yields_intros yields_mono [OF images] yields_mono [OF undo] split: option.splits;
       auto simp: steps_along_def watched_append)
qed

lemma yields_taking_over:
  assumes "mv_committed mv" "set vs \<subseteq> set ds"
  shows "yields (hand_over_storage env ip vs) (\<lambda>_ es. watched follow (moves_rightly vm ds src ip) mv es \<and> foldl follow mv es = mv)"
proof -
  let ?I = "\<lambda>es. watched follow (moves_rightly vm ds src ip) mv es \<and> foldl follow mv es = mv"
  have tries: "yields (takeover_tries env ip v n) (\<lambda>_. ?I)" if "v \<in> set ds" for v n
  proof (induction n)
    case (Suc n)
    have one: "?I (V_Full ip (S_Takeover v) status body # es) = ?I es" for status body es
      using assms(1) that by (simp add: follow_def moves_rightly_def)
    show ?case unfolding takeover_tries.simps
      by (intro yields_intros yields_mono [OF yields_sidon_op])
        (use one [of _ _ "[]"] one in \<open>auto intro!: yields_intros yields_mono [OF Suc]\<close>)
  qed (simp add: yields_ret)
  have "yields (hand_over_storage env ip vs) (\<lambda>_ es. ?I ([] @ es))"
    unfolding hand_over_storage_def
  proof (rule yields_for_each)
    fix v failures es
    assume v: "v \<in> set vs" and es: "?I es"
    have "v \<in> set ds" using v assms(2) by blast
    then show "yields (takeover_tries env ip v 3 \<bind> (\<lambda>detail. ret (if detail = [] then failures else failures @ [(v, detail)])))
        (\<lambda>_ es'. ?I (es @ es'))"
      using es by (intro yields_intros yields_mono [OF tries]) (auto simp: watched_append)
  qed simp
  then show ?thesis by simp
qed

text \<open>What a migration that took its lock leaves: nothing locked, and success only after the row was handed over.\<close>

definition migration_ends :: "string \<Rightarrow> string list \<Rightarrow> string \<Rightarrow> string \<Rightarrow> bool \<Rightarrow> vevent list \<Rightarrow> bool" where
  "migration_ends vm ds src ip ok es \<longleftrightarrow>
     watched follow (moves_rightly vm ds src ip) not_moving es
     \<and> \<not> mv_locked (foldl follow not_moving es) \<and> (ok \<longrightarrow> mv_committed (foldl follow not_moving es))"

lemma yields_settling:
  assumes "mv_locked mv" "mv_moved mv"
  shows "yields (settle_migration env vm src ip ds reason) (\<lambda>r es. watched follow (moves_rightly vm ds src ip) mv es
     \<and> \<not> mv_locked (foldl follow mv es) \<and> (fst r \<longrightarrow> mv_committed (foldl follow mv es)))"
proof -
  let ?mv = "mv\<lparr>mv_locked := False, mv_committed := True\<rparr>"
  have disks: "yields (hand_over_storage env ip ds) (\<lambda>_ es. watched follow (moves_rightly vm ds src ip) ?mv es \<and> foldl follow ?mv es = ?mv)"
    by (rule yields_taking_over) simp_all
  show ?thesis unfolding settle_migration_def unlock_def spark_def lwt_def Let_def
    by (intro yields_intros yields_mono [OF disks])
      (use assms in \<open>auto simp: follow_def moves_rightly_def wins_def watched_append\<close>)
qed

lemma yields_migrating:
  assumes "preparing mv"
  shows "yields (run_migration env vm spec src ip reason) (\<lambda>r es. watched follow (moves_rightly vm (domain_vdisk_ids vm (vs_disks spec)) src ip) mv es
     \<and> (case r of Inl _ \<Rightarrow> mv_locked (foldl follow mv es)
              | Inr x \<Rightarrow> \<not> mv_locked (foldl follow mv es) \<and> (fst x \<longrightarrow> mv_committed (foldl follow mv es))))"
proof -
  let ?ds = "domain_vdisk_ids vm (vs_disks spec)"
  let ?W = "watched follow (moves_rightly vm ?ds src ip)"
  have settled: "yields (settle_migration env vm src ip ?ds reason) (\<lambda>r es. ?W mv (pre @ V_Spark src (C_Migrate vm ip) 0 # es)
      \<and> \<not> mv_locked (foldl follow mv (pre @ V_Spark src (C_Migrate vm ip) 0 # es))
      \<and> (fst r \<longrightarrow> mv_committed (foldl follow mv (pre @ V_Spark src (C_Migrate vm ip) 0 # es))))"
    if "?W mv pre" "mv_locked (foldl follow mv pre)" "set ?ds \<subseteq> set (mv_forwarded (foldl follow mv pre))" for pre
  proof -
    let ?mv = "(foldl follow mv pre)\<lparr>mv_moved := True\<rparr>"
    have "follow (foldl follow mv pre) (V_Spark src (C_Migrate vm ip) 0) = ?mv" by (simp add: follow_def)
    moreover have "yields (settle_migration env vm src ip ?ds reason) (\<lambda>r es. ?W ?mv es \<and> \<not> mv_locked (foldl follow ?mv es)
        \<and> (fst r \<longrightarrow> mv_committed (foldl follow ?mv es)))"
      using that by (intro yields_settling) simp_all
    moreover have "moves_rightly vm ?ds src ip (foldl follow mv pre) (V_Spark src (C_Migrate vm ip) 0)"
      using that by (simp add: moves_rightly_def)
    ultimately show ?thesis using that(1) by (auto elim!: yields_mono simp: watched_append)
  qed
  have undone: "yields (detach_destination_forwarders env ip created) (\<lambda>_ es. ?W mv (pre @ V_Spark src (C_Migrate vm ip) rc # es)
      \<and> mv_locked (foldl follow mv (pre @ V_Spark src (C_Migrate vm ip) rc # es)))"
    if "?W mv pre" "preparing (foldl follow mv pre)" "set ?ds \<subseteq> set (mv_forwarded (foldl follow mv pre))" "set created \<subseteq> set ?ds" "rc \<noteq> 0" for pre created rc
  proof -
    have "follow (foldl follow mv pre) (V_Spark src (C_Migrate vm ip) rc) = foldl follow mv pre" using that(5) by (simp add: follow_def)
    moreover have "moves_rightly vm ?ds src ip (foldl follow mv pre) (V_Spark src (C_Migrate vm ip) rc)"
      using that by (simp add: moves_rightly_def)
    ultimately show ?thesis using yields_detaching [OF that(4,2), of env ip vm src] that(1,2) by (auto elim!: yields_mono simp: watched_append)
  qed
  have primed: "yields (prime_target env vm src ip) (\<lambda>_ es. ?W mv es \<and> foldl follow mv es = mv)"
    unfolding prime_target_def spark_def using assms by (intro yields_intros) (auto simp: follow_def moves_rightly_def)
  have prepared: "yields (prepare_destination_storage env ip ?ds is) (\<lambda>r es. ?W mv (pre @ es) \<and> preparing (foldl follow mv (pre @ es))
      \<and> (case r of Inl _ \<Rightarrow> True | Inr created \<Rightarrow> set created \<subseteq> set ?ds \<and> set ?ds \<subseteq> set (mv_forwarded (foldl follow mv (pre @ es)))))"
    if "?W mv pre \<and> foldl follow mv pre = mv" for pre "is"
    using yields_preparing [OF assms, of env ip ?ds "is" vm src]
    by (rule yields_mono) (use assms that in \<open>auto simp: watched_append steps_along_def split: sum.splits\<close>)
  have rest: "yields (case r of
        Inl e \<Rightarrow> ret (Inl (f e))
      | Inr created \<Rightarrow> do {
          (rc, out, err) \<leftarrow> spark env src (C_Migrate vm ip);
          if rc \<noteq> 0 then do { left \<leftarrow> detach_destination_forwarders env ip created; ret (Inl (g left err out)) }
          else do { x \<leftarrow> settle_migration env vm src ip ?ds reason; ret (Inr x) } })
      (\<lambda>r es. ?W mv (pre @ es0 @ es) \<and> (case r of Inl _ \<Rightarrow> mv_locked (foldl follow mv (pre @ es0 @ es))
              | Inr x \<Rightarrow> \<not> mv_locked (foldl follow mv (pre @ es0 @ es)) \<and> (fst x \<longrightarrow> mv_committed (foldl follow mv (pre @ es0 @ es)))))"
    if "?W mv (pre @ es0) \<and> preparing (foldl follow mv (pre @ es0)) \<and>
      (case r of Inl _ \<Rightarrow> True | Inr created \<Rightarrow> set created \<subseteq> set ?ds \<and> set ?ds \<subseteq> set (mv_forwarded (foldl follow mv (pre @ es0))))" for pre es0 r f g
    unfolding spark_def
    by (intro yields_intros yields_mono [OF settled [of "pre @ es0"]] yields_mono [OF undone [of "pre @ es0"]]) (use that in \<open>auto split: sum.splits\<close>)
  show ?thesis unfolding run_migration_def Let_def
    by (rule yields_seq [OF primed], rule yields_seq [OF prepared], assumption, rule rest, assumption)
qed

lemma yields_locked:
  "yields (locked_migration env vm spec src ip reason) (\<lambda>r. migration_ends vm (domain_vdisk_ids vm (vs_disks spec)) src ip (fst r))"
proof -
  let ?ds = "domain_vdisk_ids vm (vs_disks spec)"
  let ?mv = "not_moving\<lparr>mv_locked := True\<rparr>"
  have "preparing ?mv" by (simp add: not_moving_def)
  note work = yields_migrating [OF this, of env vm spec src ip reason]
  have lock: "follow not_moving (V_Lwt ''/v1/vm/migrate-lock'' d a) = (if wins a then ?mv else not_moving)"
    "moves_rightly vm ?ds src ip not_moving (V_Lwt ''/v1/vm/migrate-lock'' d a)" for d a
    by (simp_all add: follow_def not_moving_def moves_rightly_def)
  have free: "mv_locked mv \<Longrightarrow> moves_rightly vm ?ds src ip mv (V_Lwt ''/v1/vm/migrate-unlock'' d a)"
    "\<not> mv_locked (follow mv (V_Lwt ''/v1/vm/migrate-unlock'' d a))" for mv d a
    by (simp_all add: follow_def moves_rightly_def)
  have idle: "\<not> mv_locked not_moving" by (simp add: not_moving_def)
  show ?thesis unfolding locked_migration_def unlock_def lwt_def
    by (intro yields_intros yields_mono [OF work])
      (auto simp: migration_ends_def lock free idle wins_def watched_append split: sum.splits)
qed

lemma sort_empty: "sort xs = [] \<longleftrightarrow> xs = []"
  by (metis set_empty set_sort)

lemma yields_eligible:
  "yields (host_ineligible_reason env ip) (\<lambda>r es. list_all asks_only es
     \<and> (r = None \<longrightarrow> (\<exists>s. V_Status ip (Inr s) \<in> set es \<and> not_in_maintenance s \<and> all_up s)))"
proof -
  have asked: "yields (asked_reason env ip) (\<lambda>r es. list_all asks_only es
      \<and> (r = None \<longrightarrow> (\<exists>s. V_Status ip (Inr s) \<in> set es \<and> not_in_maintenance s \<and> all_up s)))"
    unfolding asked_reason_def node_state_def Let_def
    by (intro yields_intros) (auto simp: asks_only_def all_up_def list_all_iff filter_empty_conv sort_empty split: sum.splits if_splits)
  show ?thesis unfolding host_ineligible_reason_def read_node_rows_def
    by (intro yields_intros) (auto simp: asks_only_def intro!: yields_intros yields_mono [OF asked] split: option.splits)
qed

lemma yields_no_room: "emits asks_only (no_room env vm spec target ip)"
  unfolding no_room_def get_vm_disk_size_def get_storage_free_space_def Let_def by (intro emits_intros) (simp_all add: asks_only_def)

definition migration_trace :: "string \<Rightarrow> bool \<times> string \<Rightarrow> vevent list \<Rightarrow> bool" where
  "migration_trace vm r es \<longleftrightarrow>
     (\<exists>pre. list_all asks_only pre \<and>
        (es = pre \<and> (fst r \<longrightarrow> (\<exists>spec. V_Vm vm (Some spec) \<in> set pre \<and> vs_host spec = Some (snd r)))
         \<or> (\<exists>spec src ip fs s. es = pre @ fs \<and> V_Vm vm (Some spec) \<in> set pre \<and> vs_host spec = Some src \<and> src \<noteq> ip
              \<and> lower (or_str (vs_state spec) []) = ''running'' \<and> V_Status ip (Inr s) \<in> set pre \<and> not_in_maintenance s \<and> all_up s
              \<and> migration_ends vm (domain_vdisk_ids vm (vs_disks spec)) src ip (fst r) fs)))"

lemma migration_given_up: "list_all asks_only es \<Longrightarrow> migration_trace vm (False, e) es"
  by (auto simp: migration_trace_def)

lemma or_str_some: "or_str h [] = src \<Longrightarrow> src \<noteq> [] \<Longrightarrow> h = Some src"
  by (auto simp: or_str_def split: option.splits if_splits)

text \<open>
  C7. A migration changes nothing it cannot answer for. It only asks until it has found the guest running on another host than the target and the target
  answering with every service up; then, whatever the gateway, Sidon and the hosts answer, the lock is
  taken first and given back on every path, by the hand-over of the row or by an unlock; the guest is sent off only with the lock held and every disk of its
  domain forwarded from another owner on the target; the row is handed over only after the guest arrived, from the source to the target; a disk changes its owner
  only after that; and the task succeeds only if the row was handed over, or if it named the target already.
\<close>

theorem migrations_are_orderly: "yields (migrate_vm env vm target reason) (migration_trace vm)"
proof -
  have host: "vs_host spec = Some (or_str (vs_host spec) [])" if "or_str (vs_host spec) [] \<noteq> []" for spec
    using that or_str_some by blast
  have there: "migration_trace vm (True, or_str (vs_host spec) []) [V_Vm vm (Some spec)]" if "or_str (vs_host spec) [] \<noteq> []" for spec
    using host [OF that] by (auto simp: migration_trace_def asks_only_def intro!: exI [of _ "[V_Vm vm (Some spec)]"])
  have moved: "yields (locked_migration env vm spec (or_str (vs_host spec) []) ip reason) (\<lambda>r fs. migration_trace vm r (V_Vm vm (Some spec) # xs @ ys @ fs))"
    if "list_all asks_only xs" "list_all asks_only ys" "or_str (vs_host spec) [] \<noteq> []" "or_str (vs_host spec) [] \<noteq> ip"
      "lower (or_str (vs_state spec) []) = ''running''" "V_Status ip (Inr s) \<in> set xs" "not_in_maintenance s" "all_up s" for spec ip xs ys s
  proof -
    let ?pre = "V_Vm vm (Some spec) # xs @ ys"
    have pre: "list_all asks_only ?pre" "V_Vm vm (Some spec) \<in> set ?pre" "V_Status ip (Inr s) \<in> set ?pre"
      using that by (auto simp: asks_only_def)
    have "yields (locked_migration env vm spec (or_str (vs_host spec) []) ip reason) (\<lambda>r fs. migration_trace vm r (?pre @ fs))"
      by (rule yields_mono [OF yields_locked], unfold migration_trace_def) (use pre that(4-) host [OF that(3)] in blast)
    then show ?thesis by simp
  qed
  have named: "yields (get_node_ip env h) (\<lambda>_ es. es = [])" for h
    unfolding get_node_ip_def by (intro yields_intros) auto
  show ?thesis unfolding migrate_vm_def Let_def
    by (intro yields_intros yields_mono [OF named] yields_mono [OF yields_eligible] yields_mono [OF yields_no_room])
      (auto simp: asks_only_def intro: migration_given_up there moved)
qed

section \<open>Starts over one database\<close>

text \<open>Effects that go to the gateway for the placements, and touch them nowhere else.\<close>

definition keeps_places :: "('w \<Rightarrow> string \<Rightarrow> jval) \<Rightarrow> (string \<Rightarrow> (string \<times> jval) list \<Rightarrow> 'w \<Rightarrow> lwt_result \<times> 'w) \<Rightarrow> 'w vali_env \<Rightarrow> bool" where
  "keeps_places place call env \<longleftrightarrow> va_lwt env = call
     \<and> (\<forall>n sp h w. place (snd (va_xml env n sp h w)) = place w) \<and> (\<forall>h c w. place (snd (va_api env h c w)) = place w)
     \<and> (\<forall>h c w. place (snd (va_spark env h c w)) = place w)"

text \<open>
  What a start relies on in the gateway: a claim that was made found the placement it expected and left its own.
\<close>

locale placements =
  fixes place :: "'w \<Rightarrow> string \<Rightarrow> jval"
    and call :: "string \<Rightarrow> (string \<times> jval) list \<Rightarrow> 'w \<Rightarrow> lwt_result \<times> 'w"
  assumes claim_made: "call ''/v1/vm/claim'' (claim_vm_body vm host from) w = (a, w') \<Longrightarrow> wins a \<Longrightarrow> place w vm = host_value from \<and> place w' vm = J_Str host"
begin

lemma attaching_keeps:
  assumes "keeps_places place call env"
  shows "triple (\<lambda>s. place (hidden s) n = p) (attach_step env vm host why v promoted) (\<lambda>r s. r = None \<longrightarrow> place (hidden s) n = p)"
proof -
  have "place w' n = p" if "place w n = p" "va_api env host (S_Attach v) w = (x, w')" for w x w'
    using assms that by (auto simp: keeps_places_def) (metis snd_conv)
  then show ?thesis
    by (auto simp: triple_def attach_step_def api_def run_bind run_act run_ret split: prod.splits if_splits)
qed

lemma keeping_loop:
  assumes "\<And>x a. triple (\<lambda>s. place (hidden s) n = p) (f x a) (\<lambda>r s. fst r = None \<longrightarrow> place (hidden s) n = p)"
  shows "triple (\<lambda>s. place (hidden s) n = p) (for_keep f xs a) (\<lambda>r s. fst r = None \<longrightarrow> place (hidden s) n = p)"
proof (induction xs arbitrary: a)
  case (Cons x xs)
  show ?case unfolding for_keep.simps
    by (rule triple_bind [OF assms]) (use Cons in \<open>auto simp: triple_def run_ret split: option.splits\<close>)
qed (simp add: triple_ret)

text \<open>A start that succeeded left the guest placed on its host.\<close>

lemma started_is_placed:
  assumes "keeps_places place call env" "run_state (start_on env vm spec host) s = ((True, m), s')"
  shows "place (hidden s') vm = J_Str host"
proof -
  have lwt: "va_lwt env = call" using assms(1) by (simp add: keeps_places_def)
  let ?P = "\<lambda>s. place (hidden s) vm = J_Str host"
  have disks: "triple ?P (attach_disks env vm host vs) (\<lambda>r s. fst r = None \<longrightarrow> ?P s)" for vs
    unfolding attach_disks_def
    by (intro keeping_loop triple_bind [OF attaching_keeps [OF assms(1)]] triple_ret) simp
  have images: "triple ?P (attach_images env vm host vs q) (\<lambda>r s. fst r = None \<longrightarrow> ?P s)" for vs q
    unfolding attach_images_def
    by (intro keeping_loop triple_bind [OF attaching_keeps [OF assms(1)]] triple_ret) simp
  have boot: "triple ?P (boot_vm env vm host xml) (\<lambda>r s. fst r \<longrightarrow> ?P s)" for xml
  proof -
    have "place w' = place w" if "va_spark env host (C_Start vm xml) w = (x, w')" for w x w'
      using assms(1) that by (auto simp: keeps_places_def) (metis snd_conv)
    then show ?thesis
      by (auto simp: triple_def boot_vm_def spark_def run_bind run_act run_ret split: prod.splits if_splits)
  qed
  have xml: "place w' = place w" if "va_xml env vm spec host w = (x, w')" for w x w'
    using assms(1) that by (auto simp: keeps_places_def) (metis snd_conv)
  have "triple (\<lambda>_. True) (start_on env vm spec host) (\<lambda>r s. fst r \<longrightarrow> place (hidden s) vm = J_Str host)"
    unfolding start_on_def lwt_def
  proof (rule triple_bind [where R = "\<lambda>a s. wins a \<longrightarrow> ?P s"])
    show "triple (\<lambda>_. True) (act (va_lwt env ''/v1/vm/claim'' (claim_vm_body vm host (vs_host spec)))
        (V_Lwt ''/v1/vm/claim'' (claim_vm_body vm host (vs_host spec)))) (\<lambda>a s. wins a \<longrightarrow> ?P s)"
      by (rule triple_act) (use claim_made lwt in auto)
    have made: "triple ?P (look (va_xml env vm spec host)) (\<lambda>_. ?P)" by (rule triple_look) (use xml in auto)
    have rest: "triple ?P (start_claimed env vm spec host) (\<lambda>r s. fst r \<longrightarrow> ?P s)"
      unfolding start_claimed_def
      by (rule triple_bind [OF made]) (auto intro!: triple_case_sum triple_ret triple_bind [OF disks] triple_bind [OF images] boot
        split: option.splits elim: triple_conseq)
    fix a
    show "triple (\<lambda>s. wins a \<longrightarrow> ?P s)
        (if \<not> lr_ok a \<or> \<not> lr_applied a then ret (False, refuse_start vm (vs_host spec) a) else start_claimed env vm spec host) (\<lambda>r s. fst r \<longrightarrow> ?P s)"
      by (intro triple_if triple_ret) (use rest in \<open>auto simp: wins_def elim: triple_conseq\<close>)
  qed
  then show ?thesis using assms(2) by (auto simp: triple_def dest!: spec [of _ s])
qed

text \<open>A second start that was prepared from the same reading of the row is refused, and does nothing but ask.\<close>

lemma second_start:
  assumes "keeps_places place call env" "run_state (start_on env vm spec host) s = ((True, m), s1)"
    and "vs_host spec \<noteq> Some host" "place (hidden s2) vm = place (hidden s1) vm"
    and "vs_host spec' = vs_host spec" "run_state (start_on env vm spec' host') s2 = (r, s3)"
  shows "\<not> fst r \<and> (\<exists>a. \<not> wins a \<and> trace s3 = trace s2 @ [V_Lwt ''/v1/vm/claim'' (claim_vm_body vm host' (vs_host spec)) a])"
proof -
  have lwt: "va_lwt env = call" using assms(1) by (simp add: keeps_places_def)
  obtain a w' where call: "call ''/v1/vm/claim'' (claim_vm_body vm host' (vs_host spec)) (hidden s2) = (a, w')" by fastforce
  have "place (hidden s2) vm = J_Str host" using started_is_placed [OF assms(1,2)] assms(4) by simp
  then have "\<not> wins a" using claim_made [OF call] assms(3) by (auto simp: host_value_def split: option.splits)
  then show ?thesis using assms(5,6) call
    by (auto simp: start_on_def lwt_def run_rules lwt wins_def)
qed

end

definition vm_place_of :: "db \<Rightarrow> string \<Rightarrow> jval" where
  "vm_place_of db vm = db_cell (db ''hydra.vms'' [J_Str vm]) ''host_ip''"

lemma claim_vm_parts:
  "swap_parts (op_cql lwt_vm_claim) (bound_values lwt_vm_claim (claim_vm_body vm host from)) =
     \<lparr>sr_table = ''hydra.vms'', sr_key = [J_Str vm], sr_sets = [(''host_ip'', J_Str host), (''state'', J_Str ''Running'')],
      sr_expects = [(Is ''host_ip'', host_value from)]\<rparr>"
  by (cases "from") (simp_all add: lwt_vm_claim_def bound_values_def named_value_def claim_vm_body_def swap_parts_def stored_def host_value_def)

lemma claim_vm_accepted: "accepted lwt_vm_claim (claim_vm_body vm host from)"
  by (cases "from") (simp_all add: accepted_def claim_vm_body_def lwt_vm_claim_def given_def needed_def optional_def optional_or_null_def accepts_def has_type_def host_value_def)

lemma placements_through_daruk:
  assumes "serves view denv"
  shows "placements (\<lambda>w. vm_place_of (view w)) (call_lwt denv)"
proof
  fix vm host "from" w a w'
  assume call: "call_lwt denv ''/v1/vm/claim'' (claim_vm_body vm host from) w = (a, w')" and a: "wins a"
  let ?st = "op_cql lwt_vm_claim" and ?vs = "bound_values lwt_vm_claim (claim_vm_body vm host from)"
  have "map_of lwt_ops ''/v1/vm/claim'' = Some lwt_vm_claim" by (simp add: lwt_ops_def)
  from call_lwt_true [OF assms this claim_vm_accepted call] a
  have ran: "swaps ?st ?vs (view w)" "view w' = after ?st ?vs (view w)" by (auto simp: Let_def wins_def)
  have st: "\<exists>sets ks cs. ?st = L_Update ''hydra.vms'' False sets ks cs" by (simp add: lwt_vm_claim_def)
  have "vm_place_of (view w) vm = host_value from"
    using ran(1) st claim_vm_parts [of vm host "from"] by (auto simp: swaps_def Let_def meets_def vm_place_of_def)
  moreover have "vm_place_of (view w') vm = J_Str host"
    using ran st claim_vm_parts [of vm host "from"]
    by (auto simp: after_def Let_def vm_place_of_def written_def db_cell_def map_of_dict_update)
  ultimately show "vm_place_of (view w) vm = host_value from \<and> vm_place_of (view w') vm = J_Str host" ..
qed

interpretation memory_places: placements vm_place_of "call_lwt mem_env"
  using placements_through_daruk [OF mem_serves] by simp

text \<open>
  C8. Two starts of one guest that read the same placement cannot both boot it, unless that placement already names the host the first one chose: over a database
  that keeps the contract of conditional statements, when the first has moved the guest to another host than the one it read and has succeeded, then a second that read
  the same, and comes while the placement is still as the first left it, is refused at its claim, whatever host it chose, and touches neither disks nor hosts.
\<close>

theorem a_guest_is_started_once:
  assumes "serves view denv" "keeps_places (\<lambda>w. vm_place_of (view w)) (call_lwt denv) env"
    and "run_state (start_on env vm spec host) s = ((True, m), s1)" "vs_host spec \<noteq> Some host"
    and "vm_place_of (view (hidden s2)) vm = vm_place_of (view (hidden s1)) vm"
    and "vs_host spec' = vs_host spec" "run_state (start_on env vm spec' host') s2 = (r, s3)"
  shows "\<not> fst r \<and> (\<exists>a. \<not> wins a \<and> trace s3 = trace s2 @ [V_Lwt ''/v1/vm/claim'' (claim_vm_body vm host' (vs_host spec)) a])"
  using placements.second_start [OF placements_through_daruk [OF assms(1)] assms(2-)] .

section \<open>A small cluster\<close>

text \<open>
  The database in memory beside the guests that run where. Sidon grants everything, a host boots what it is told and answers with its number in
  \<open>rcs\<close>; \<open>xml\<close> is what building a domain gives.
\<close>

type_synonym lab = "db \<times> (string \<times> string) list"

definition lab_daruk :: "lab daruk_env" where
  "lab_daruk =
     \<lparr>dk_execute = (\<lambda>st vals w. case dk_execute mem_env st vals (fst w) of (r, db) \<Rightarrow> (r, (db, snd w))),
      dk_query = (\<lambda>_ _ w. (Inr \<lparr>rs_names = [], rs_rows = []\<rparr>, w))\<rparr>"

definition lab_spec :: "db \<Rightarrow> string \<Rightarrow> vm_spec" where
  "lab_spec db vm =
     \<lparr>vs_memory = Some 1024, vs_vcpu = Some 1, vs_disks = Some ''default:10'', vs_iso = None,
      vs_host = jtext_of (vm_place_of db vm), vs_state = jtext_of (db_cell (db ''hydra.vms'' [J_Str vm]) ''state''), vs_domain = []\<rparr>"

definition lab_env :: "(string \<Rightarrow> int) \<Rightarrow> string + string \<Rightarrow> lab vali_env" where
  "lab_env rcs xml =
     \<lparr>va_vm = (\<lambda>n w. (Some (lab_spec (fst w) n), w)), va_nodes = (\<lambda>w. (Some [], w)), va_node_ip = (\<lambda>_ w. (None, w)),
      va_hosts = (\<lambda>w. ([''10.0.0.1'', ''10.0.0.2''], w)), va_status = (\<lambda>_ w. (Inr \<lparr>ns_maintenance = None, ns_services = []\<rparr>, w)),
      va_memory = (\<lambda>_ w. ((4096, 0), w)), va_vdisk_size = (\<lambda>_ w. (Some [Some 10], w)), va_capacity = (\<lambda>_ w. (Some 1000000000, w)),
      va_lwt = call_lwt lab_daruk, va_api = (\<lambda>_ _ w. ((0, None, ''''), w)),
      va_full = (\<lambda>_ _ w. ((200, Some \<lparr>sb_already = False, sb_forwarding = Some ''10.0.0.1'', sb_error = None\<rparr>, ''''), w)),
      va_spark = (\<lambda>h c w. ((rcs h, '''', ''no answer''),
         (fst w, case c of C_Start n _ \<Rightarrow> snd w @ [(n, h)] | C_Stop n \<Rightarrow> removeAll (n, h) (snd w) | _ \<Rightarrow> snd w))),
      va_xml = (\<lambda>_ _ _ w. (xml, w)), va_history = (\<lambda>_ _ _ _ w. ((), w)), va_pause = (\<lambda>_ w. ((), w))\<rparr>"

definition lab_db :: "string \<Rightarrow> db" where
  "lab_db host = (\<lambda>t k. if t = ''hydra.vms'' \<and> k = [J_Str ''web'']
     then Some [(''name'', J_Str ''web''), (''host_ip'', J_Str host), (''state'', J_Str (if host = [] then ''Stopped'' else ''Running''))] else None)"

lemma lab_serves: "serves fst lab_daruk"
  by (simp add: serves_def lab_daruk_def mem_env_def reports_def Let_def make_serializable_dval_of comp_def)

lemma lab_keeps: "keeps_places (\<lambda>w. vm_place_of (fst w)) (call_lwt lab_daruk) (lab_env rcs xml)"
  by (simp add: keeps_places_def lab_env_def)

definition first_start :: "(bool \<times> string) \<times> (lab, vevent) world" where
  "first_start = run_state (start_on (lab_env (\<lambda>_. 0) (Inr ''<domain/>'')) ''web'' (lab_spec (lab_db '''') ''web'') ''10.0.0.1'') (at_rest (lab_db '''', []))"

lemma first_start_succeeds: "fst first_start = (True, ''10.0.0.1'')" "snd (hidden (snd first_start)) = [(''web'', ''10.0.0.1'')]"
  by code_simp+

theorem a_guest_is_started_once_witness:
  "\<exists>r s3. run_state (start_on (lab_env (\<lambda>_. 0) (Inr ''<domain/>'')) ''web'' (lab_spec (lab_db '''') ''web'') ''10.0.0.2'') (snd first_start) = (r, s3)
     \<and> fst first_start = (True, ''10.0.0.1'') \<and> \<not> fst r"
proof -
  obtain r s3 where run: "run_state (start_on (lab_env (\<lambda>_. 0) (Inr ''<domain/>'')) ''web'' (lab_spec (lab_db '''') ''web'') ''10.0.0.2'') (snd first_start) = (r, s3)"
    by fastforce
  have one: "run_state (start_on (lab_env (\<lambda>_. 0) (Inr ''<domain/>'')) ''web'' (lab_spec (lab_db '''') ''web'') ''10.0.0.1'') (at_rest (lab_db '''', []))
      = ((True, ''10.0.0.1''), snd first_start)"
    using first_start_succeeds(1) by (simp add: first_start_def prod_eq_iff)
  have free: "vs_host (lab_spec (lab_db '''') ''web'') \<noteq> Some ''10.0.0.1''" by code_simp
  from a_guest_is_started_once [OF lab_serves lab_keeps one free refl refl run] run first_start_succeeds(1) show ?thesis by blast
qed

text \<open>
  The placement that a start expects is whatever the row said, also when that is another host: a guest recorded as running elsewhere is claimed
  and booted a second time. The comments and \<open>docs/vali.md\<close> say that such a start is refused.
\<close>

lemma a_start_takes_a_running_guest:
  "let (r, s) = run_state (start_vm (lab_env (\<lambda>_. 0) (Inr ''<domain/>'')) ''web'' (lab_spec (lab_db ''10.0.0.1'') ''web'') (Some ''10.0.0.2''))
         (at_rest (lab_db ''10.0.0.1'', [(''web'', ''10.0.0.1'')]))
   in r = (True, ''10.0.0.2'') \<and> snd (hidden s) = [(''web'', ''10.0.0.1''), (''web'', ''10.0.0.2'')]"
  by code_simp

text \<open>
  A host that boots the guest without answering in time counts as one that did not boot it: the claim is released, and the next start boots a second copy.
  The stop path keeps the placement in this case.
\<close>

lemma an_unanswered_start_frees_the_guest:
  "let env = lab_env (\<lambda>h. if h = ''10.0.0.1'' then - 1 else 0) (Inr ''<domain/>'');
       (r, s) = run_state (do {
         _ \<leftarrow> start_vm env ''web'' (lab_spec (lab_db '''') ''web'') (Some ''10.0.0.1'');
         spec \<leftarrow> look (va_vm env ''web'');
         start_vm env ''web'' (the spec) (Some ''10.0.0.2'') }) (at_rest (lab_db '''', []))
   in r = (True, ''10.0.0.2'') \<and> snd (hidden s) = [(''web'', ''10.0.0.1''), (''web'', ''10.0.0.2'')]"
  by code_simp

text \<open>A start whose domain could not be built leaves the guest recorded as running on a host that never had it.\<close>

lemma an_unbuilt_guest_stays_claimed:
  "let (r, s) = run_state (start_vm (lab_env (\<lambda>_. 0) (Inl ''no such network'')) ''web'' (lab_spec (lab_db '''') ''web'') (Some ''10.0.0.1''))
         (at_rest (lab_db '''', []))
   in \<not> fst r \<and> lab_spec (fst (hidden s)) ''web'' = (lab_spec (lab_db '''') ''web'')\<lparr>vs_host := Some ''10.0.0.1'', vs_state := Some ''Running''\<rparr>
      \<and> snd (hidden s) = []"
  by code_simp

text \<open>A start whose boot failed detaches nothing, although \<open>docs/vali.md\<close> says that it does.\<close>

lemma a_failed_boot_keeps_its_disks:
  "trace (snd (run_state (boot_vm (lab_env (\<lambda>_. 1) (Inr ''<domain/>'')) ''web'' ''10.0.0.1'' ''<domain/>'') (at_rest (lab_db ''10.0.0.1'', []))))
     = [V_Spark ''10.0.0.1'' (C_Start ''web'' ''<domain/>'') 1,
        V_Lwt ''/v1/vm/release'' (release_body ''web'' (J_Str ''10.0.0.1'')) \<lparr>lr_ok = True, lr_applied = True, lr_current = [], lr_error = J_Str ''''\<rparr>]"
  by code_simp

end
