(* ===== verification/Vali_Maintenance.thy ===== *)
theory Vali_Maintenance
  imports Vali Text_Lines
begin

text \<open>
  Taking a host out of service (\<open>src/vali.py\<close>): the quorum gate with the reading of the ring and of the replication factor
  (\<open>parse_replication_factor\<close> of \<open>src/helios_cql.py\<close>), the cluster's maintenance lock, the tasks \<open>host_maintenance_enter\<close> and
  \<open>host_maintenance_leave\<close> of \<open>process_queue_task\<close>, and the request that starts them. A write of a node's status is an event. The progress of a
  task is computed exactly, where the source rounds twice; printed lines are left out.
\<close>

section \<open>The quorum gate\<close>

text \<open>The pairs of the replication map: a quoted key, a colon or comma, and a number that may be quoted.\<close>

definition is_quote :: "char \<Rightarrow> bool" where
  "is_quote c \<longleftrightarrow> c = CHR 0x27 \<or> c = CHR 0x22"

definition skip_quote :: "string \<Rightarrow> string" where
  "skip_quote s = (case s of c # r \<Rightarrow> if is_quote c then r else s | [] \<Rightarrow> [])"

definition pair_at :: "string \<Rightarrow> ((string \<times> int) \<times> string) option" where
  "pair_at s =
     (case s of
        [] \<Rightarrow> None
      | c # r \<Rightarrow>
          if \<not> is_quote c then None
          else (let key = takeWhile (\<lambda>d. \<not> is_quote d) r; r1 = dropWhile (\<lambda>d. \<not> is_quote d) r
                in if key = [] \<or> r1 = [] then None
                   else (case dropWhile is_ws (tl r1) of
                           [] \<Rightarrow> None
                         | sep # r2 \<Rightarrow>
                             if sep \<noteq> CHR '':'' \<and> sep \<noteq> CHR '','' then None
                             else (let r3 = skip_quote (dropWhile is_ws r2); digits = takeWhile is_digit r3
                                   in if digits = [] then None
                                      else Some ((key, int (read_nat digits)), skip_quote (dropWhile is_digit r3))))))"

function find_pairs :: "string \<Rightarrow> (string \<times> int) list" where
  "find_pairs [] = []"
| "find_pairs (c # s) = (case pair_at (c # s) of None \<Rightarrow> find_pairs s | Some (p, r) \<Rightarrow> p # find_pairs r)"
  by pat_completeness auto

lemma length_skip_quote: "length (skip_quote s) \<le> length s"
  by (auto simp: skip_quote_def split: list.splits)

lemma pair_at_shrinks: "pair_at (c # s) = Some (p, r) \<Longrightarrow> length r < Suc (length s)"
proof -
  assume p: "pair_at (c # s) = Some (p, r)"
  then obtain sep r2 r3 where parts: "dropWhile is_ws (tl (dropWhile (\<lambda>d. \<not> is_quote d) s)) = sep # r2"
    "r3 = skip_quote (dropWhile is_ws r2)" "r = skip_quote (dropWhile is_digit r3)"
    by (auto simp: pair_at_def Let_def split: if_splits list.splits)
  have "length (sep # r2) \<le> length s"
    using parts(1) length_dropWhile_le [of is_ws] length_dropWhile_le [of "\<lambda>d. \<not> is_quote d" s]
    by (metis diff_le_self dual_order.trans length_tl)
  moreover have "length r3 \<le> length r2" using length_skip_quote length_dropWhile_le dual_order.trans parts(2) by metis
  moreover have "length r \<le> length r3" using length_skip_quote length_dropWhile_le dual_order.trans parts(3) by metis
  ultimately show ?thesis by simp
qed

termination find_pairs
  by (relation "measure length") (auto dest: pair_at_shrinks)

definition parse_replication_factor :: "string \<Rightarrow> int option" where
  "parse_replication_factor t =
     (let lowered = lower t in
      if t = [] \<or> contains lowered ''localstrategy'' \<or> contains lowered ''everywherestrategy'' then None
      else (let factors = foldl (\<lambda>d (k, n). dict_set k n d) [] (filter (\<lambda>(k, _). k \<noteq> ''class'') (find_pairs t))
            in case map_of factors ''replication_factor'' of
                 Some n \<Rightarrow> Some n
               | None \<Rightarrow> if factors = [] then None else Some (sum_list (map snd factors))))"

record ring_member =
  rm_address :: string
  rm_status :: char
  rm_state :: char
  rm_available :: bool
  rm_host_id :: string

definition is_hex_digit :: "char \<Rightarrow> bool" where
  "is_hex_digit c \<longleftrightarrow> is_digit c \<or> CHR ''a'' \<le> c \<and> c \<le> CHR ''f'' \<or> CHR ''A'' \<le> c \<and> c \<le> CHR ''F''"

definition is_host_id :: "string \<Rightarrow> bool" where
  "is_host_id s = (let ps = split_on (CHR ''-'') s in map length ps = [8, 4, 4, 4, 12] \<and> list_all (list_all is_hex_digit) ps)"

definition ring_row :: "string \<Rightarrow> ring_member option" where
  "ring_row line =
     (case split_ws line of
        marker # address # fs \<Rightarrow>
          (case marker of
             [u, n] \<Rightarrow>
               if u \<in> {CHR ''U'', CHR ''D''} \<and> n \<in> {CHR ''N'', CHR ''L'', CHR ''J'', CHR ''M''}
               then Some \<lparr>rm_address = address, rm_status = u, rm_state = n, rm_available = (marker = ''UN''),
                          rm_host_id = (case find is_host_id fs of Some h \<Rightarrow> h | None \<Rightarrow> [])\<rparr>
               else None
           | _ \<Rightarrow> None)
      | _ \<Rightarrow> None)"

definition parse_nodetool_status :: "string \<Rightarrow> ring_member list" where
  "parse_nodetool_status t = List.map_filter ring_row (splitlines t)"

definition quorum_of :: "int \<Rightarrow> int" where
  "quorum_of rf = rf div 2 + 1"

definition ring_up :: "ring_member list \<Rightarrow> nat" where
  "ring_up ms = length (filter rm_available ms)"

definition evaluate_stop :: "ring_member list \<Rightarrow> int \<Rightarrow> string \<Rightarrow> bool \<times> string" where
  "evaluate_stop members rf address =
     (case find (\<lambda>m. rm_address m = address) members of
        None \<Rightarrow> (True, address @ '' is not a member of the ScyllaDB ring; it holds no replicas.'')
      | Some target \<Rightarrow>
          if \<not> rm_available target
          then (True, address @ '' is already unavailable to the ring (nodetool reports '' @ quoted [rm_status target, rm_state target]
                  @ ''), so stopping it removes nothing that is currently answering.'')
          else (let required = quorum_of rf;
                    assigned = min rf (int (length members));
                    unavailable_after = int (length members) - (int (ring_up members) - 1);
                    after = max 0 (assigned - unavailable_after)
                in if after \<ge> required
                   then (True, ''RF='' @ show_int rf @ '' needs '' @ show_int required @ '' replicas for QUORUM; stopping '' @ address
                           @ '' leaves '' @ show_int after @ ''.'')
                   else (False, ''Stopping '' @ address @ '' would leave '' @ show_int after @ '' of '' @ show_int assigned
                           @ '' replicas available, and QUORUM at RF='' @ show_int rf @ '' needs '' @ show_int required
                           @ ''. The hydra keyspace would stop answering reads and writes for the whole cluster. Ring: ''
                           @ show_nat (ring_up members) @ '' of '' @ show_nat (length members) @ '' members up.'')))"

section \<open>The gate against every placement of replicas\<close>

definition addresses :: "ring_member list \<Rightarrow> string set" where
  "addresses ms = rm_address ` set ms"

definition up_addresses :: "ring_member list \<Rightarrow> string set" where
  "up_addresses ms = rm_address ` set (filter rm_available ms)"

text \<open>The nodes a partition may lie on: as many as the factor says, or all if there are fewer.\<close>

definition replica_set :: "ring_member list \<Rightarrow> int \<Rightarrow> string set \<Rightarrow> bool" where
  "replica_set ms rf R \<longleftrightarrow> R \<subseteq> addresses ms \<and> int (card R) = min rf (int (length ms))"

lemma ring_cards:
  assumes "distinct (map rm_address ms)"
  shows "card (addresses ms) = length ms" "card (up_addresses ms) = ring_up ms" "up_addresses ms \<subseteq> addresses ms"
proof -
  show "card (addresses ms) = length ms" using distinct_card [OF assms] by (simp add: addresses_def)
  have "distinct (map rm_address (filter rm_available ms))" using assms by (rule distinct_map_filter)
  from distinct_card [OF this] show "card (up_addresses ms) = ring_up ms" by (simp add: up_addresses_def ring_up_def)
  show "up_addresses ms \<subseteq> addresses ms" by (auto simp: addresses_def up_addresses_def)
qed

lemma found_up:
  assumes "distinct (map rm_address ms)"
  shows "a \<in> up_addresses ms \<longleftrightarrow> (\<exists>m. find (\<lambda>m. rm_address m = a) ms = Some m \<and> rm_available m)"
proof
  assume "a \<in> up_addresses ms"
  then obtain m where m: "m \<in> set ms" "rm_available m" "rm_address m = a" by (auto simp: up_addresses_def)
  then have "find (\<lambda>m. rm_address m = a) ms \<noteq> None" unfolding find_None_iff by blast
  then obtain m' where m': "find (\<lambda>m. rm_address m = a) ms = Some m'" by blast
  then have "m' \<in> set ms" "rm_address m' = a" by (auto simp: find_Some_iff)
  with m assms have "m' = m" by (metis distinct_map inj_onD)
  with m m' show "\<exists>m. find (\<lambda>m. rm_address m = a) ms = Some m \<and> rm_available m" by blast
qed (auto simp: find_Some_iff up_addresses_def)

text \<open>The fewest replicas that a placement can keep of \<open>k\<close>: all the nodes that are gone hold one.\<close>

lemma fewest_kept:
  assumes "finite M" "V \<subseteq> M" "k \<le> card M"
  shows "R \<subseteq> M \<Longrightarrow> card R = k \<Longrightarrow> k - (card M - card V) \<le> card (R \<inter> V)"
    and "\<exists>R\<subseteq>M. card R = k \<and> card (R \<inter> V) = k - (card M - card V)"
proof -
  have gone: "card (M - V) = card M - card V" using assms by (simp add: card_Diff_subset finite_subset)
  show "k - (card M - card V) \<le> card (R \<inter> V)" if "R \<subseteq> M" "card R = k"
  proof -
    have fin: "finite R" using that assms finite_subset by blast
    have "card R = card (R \<inter> V) + card (R - V)" using fin by (metis Diff_disjoint Int_Diff_Un card_Int_Diff)
    moreover have "card (R - V) \<le> card (M - V)" using that assms by (intro card_mono) auto
    ultimately show ?thesis using gone that by simp
  qed
  show "\<exists>R\<subseteq>M. card R = k \<and> card (R \<inter> V) = k - (card M - card V)"
  proof (cases "k \<le> card (M - V)")
    case True
    then obtain R where R: "R \<subseteq> M - V" "card R = k" by (rule obtain_subset_with_card_n)
    then have "R \<inter> V = {}" by auto
    with R True gone show ?thesis by (intro exI [of _ R]) auto
  next
    case False
    have "k - card (M - V) \<le> card V" using assms gone card_mono [OF assms(1,2)] by linarith
    then obtain S where S: "S \<subseteq> V" "card S = k - card (M - V)" by (rule obtain_subset_with_card_n)
    have "card ((M - V) \<union> S) = card (M - V) + card S"
      using S assms finite_subset by (intro card_Un_disjoint) (auto intro: finite_subset)
    moreover have "((M - V) \<union> S) \<inter> V = S" using S by auto
    ultimately show ?thesis using S False gone assms(2) by (intro exI [of _ "(M - V) \<union> S"]) auto
  qed
qed

text \<open>
  C11. The gate is exact. A host may be stopped exactly when it is not one of the ring's answering members, or when every partition, wherever its replicas
  lie, keeps a quorum of answering replicas without it.
\<close>

theorem the_gate_is_exact:
  assumes "distinct (map rm_address members)" "0 < rf"
  shows "fst (evaluate_stop members rf a) \<longleftrightarrow>
    a \<notin> up_addresses members \<or> (\<forall>R. replica_set members rf R \<longrightarrow> quorum_of rf \<le> int (card (R \<inter> (up_addresses members - {a}))))"
proof (cases "a \<in> up_addresses members")
  case False
  then show ?thesis using found_up [OF assms(1), of a] by (auto simp: evaluate_stop_def split: option.splits)
next
  case True
  let ?M = "addresses members" and ?V = "up_addresses members - {a}"
  let ?k = "nat (min rf (int (length members)))"
  note cards = ring_cards [OF assms(1)]
  have fin: "finite ?M" by (simp add: addresses_def)
  have up: "0 < ring_up members" using True cards(2) by (metis card_gt_0_iff empty_iff finite_subset cards(3) fin)
  have V: "?V \<subseteq> ?M" "int (card ?V) = int (ring_up members) - 1"
    using cards(2,3) True up by (auto simp: card_Diff_singleton)
  have most: "ring_up members \<le> length members" by (simp add: ring_up_def)
  have k: "?k \<le> card ?M" "0 < quorum_of rf" using cards(1) assms(2) by (auto simp: quorum_of_def)
  have gate: "fst (evaluate_stop members rf a) \<longleftrightarrow> quorum_of rf \<le> int (?k - (card ?M - card ?V))"
    using found_up [OF assms(1), of a] True V(2) cards(1) k(2) most assms(2)
    by (auto simp: evaluate_stop_def Let_def of_nat_diff max_def min_def split: option.splits)
  have "(\<forall>R. replica_set members rf R \<longrightarrow> quorum_of rf \<le> int (card (R \<inter> ?V))) \<longleftrightarrow> quorum_of rf \<le> int (?k - (card ?M - card ?V))"
  proof
    assume all: "\<forall>R. replica_set members rf R \<longrightarrow> quorum_of rf \<le> int (card (R \<inter> ?V))"
    obtain R where "R \<subseteq> ?M" "card R = ?k" "card (R \<inter> ?V) = ?k - (card ?M - card ?V)" using fewest_kept(2) [OF fin V(1) k(1)] by blast
    moreover from this assms(2) have "replica_set members rf R" by (simp add: replica_set_def)
    ultimately show "quorum_of rf \<le> int (?k - (card ?M - card ?V))" using all by metis
  next
    assume "quorum_of rf \<le> int (?k - (card ?M - card ?V))"
    moreover have "?k - (card ?M - card ?V) \<le> card (R \<inter> ?V)" if "replica_set members rf R" for R
      using that by (intro fewest_kept(1) [OF fin V(1) k(1)]) (auto simp: replica_set_def)
    ultimately show "\<forall>R. replica_set members rf R \<longrightarrow> quorum_of rf \<le> int (card (R \<inter> ?V))"
      by (meson of_nat_le_iff order_trans)
  qed
  with gate True show ?thesis by blast
qed

section \<open>The environment\<close>

text \<open>
  \<open>mt_factor\<close> is the query for the replication map and \<open>mt_ring\<close> the output of \<open>nodetool status\<close>, each with its return code. \<open>mt_guests\<close> is the query
  for the guests, \<^const>\<open>None\<close> when it fails. \<open>mt_submit\<close> and \<open>mt_poll\<close> are calls to Catalyst with their HTTP status (or -1) and answer, \<open>mt_update\<close>
  reports progress. \<open>mt_host\<close> is the row of a host. \<open>mt_node\<close> writes a node's status unconditionally, \<open>mt_units\<close> is \<open>spark_unit_action\<close>, with a text if it failed.
\<close>

text \<open>A row of the guests' table as an evacuation reads it.\<close>

record guest_row =
  gr_name :: string
  gr_host :: "string option"
  gr_state :: "string option"
  gr_memory :: "int option"

record lock_held =
  lh_holder :: "string option"
  lh_token :: "string option"

record host_row =
  hr_ip :: "string option"
  hr_status :: "string option"

record 'w maint_env =
  mt_vali :: "'w vali_env"
  mt_factor :: "'w \<Rightarrow> (int \<times> string) \<times> 'w"
  mt_ring :: "'w \<Rightarrow> (int \<times> string \<times> string) \<times> 'w"
  mt_guests :: "'w \<Rightarrow> guest_row list option \<times> 'w"
  mt_submit :: "string \<Rightarrow> string \<Rightarrow> (string \<times> jval) list \<Rightarrow> 'w \<Rightarrow> (int \<times> jval) \<times> 'w"
  mt_poll :: "string \<Rightarrow> 'w \<Rightarrow> (int \<times> jval) \<times> 'w"
  mt_update :: "string option \<Rightarrow> string \<Rightarrow> int \<Rightarrow> 'w \<Rightarrow> unit \<times> 'w"
  mt_node :: "string \<Rightarrow> string \<Rightarrow> bool \<Rightarrow> 'w \<Rightarrow> unit \<times> 'w"
  mt_units :: "string \<Rightarrow> string \<Rightarrow> string list \<Rightarrow> 'w \<Rightarrow> string option \<times> 'w"
  mt_lock :: "'w \<Rightarrow> lock_held option \<times> 'w"
  mt_host :: "string \<Rightarrow> 'w \<Rightarrow> host_row option \<times> 'w"
  mt_token :: "'w \<Rightarrow> string \<times> 'w"
  mt_time :: "'w \<Rightarrow> real \<times> 'w"

datatype mevent =
    M_Vali vevent
  | M_Gate string "int option" "string + ring_member list" bool
  | M_Guests "guest_row list option"
  | M_Submit string string "(string \<times> jval) list" bool
  | M_Task string "(string \<times> jval) list" int
  | M_Host string "host_row option"
  | M_Update string int
  | M_Node string string bool
  | M_Units string string "string list" bool

abbreviation of_vali :: "('w, vevent, 'a) eff \<Rightarrow> ('w, mevent, 'a) eff" where
  "of_vali \<equiv> inside M_Vali"

definition get_hydra_replication_factor :: "'w maint_env \<Rightarrow> ('w, mevent, int option) eff" where
  "get_hydra_replication_factor env = do {
     (rc, out) \<leftarrow> look (mt_factor env);
     ret (if rc \<noteq> 0 then None else parse_replication_factor out) }"

text \<open>On the left why the ring could not be read.\<close>

definition get_ring_members :: "'w maint_env \<Rightarrow> ('w, mevent, string + ring_member list) eff" where
  "get_ring_members env = do {
     (rc, out, err) \<leftarrow> look (mt_ring env);
     ret (if rc \<noteq> 0 then Inl (take 300 (strip (py_or err (py_or out ''nodetool status failed''))))
          else (let members = parse_nodetool_status out
                in if members = [] then Inl ''nodetool status returned no ring members'' else Inr members)) }"

text \<open>
  The gate, with what it rests on and its verdict in the trace. The error of a ring that could not be read counts only if its text is not empty; without one
  the source goes on with no members.
\<close>

definition check_stop_preserves_quorum :: "'w maint_env \<Rightarrow> string \<Rightarrow> ('w, mevent, bool \<times> string) eff" where
  "check_stop_preserves_quorum env address = do {
     rf \<leftarrow> get_hydra_replication_factor env;
     if or_int rf 0 = 0 then
       ret (False, ''Could not read the hydra keyspace's replication factor, so the effect of stopping this host's database is unknown. Refusing rather than guessing.'')
     else do {
       ring \<leftarrow> get_ring_members env;
       let verdict = (case ring of
              Inl [] \<Rightarrow> evaluate_stop [] (the rf) address
            | Inl e \<Rightarrow> (False, ''Could not read the ScyllaDB ring ('' @ e @ ''), so the effect of stopping this host's database is unknown. Refusing rather than guessing.'')
            | Inr members \<Rightarrow> evaluate_stop members (the rf) address);
       _ \<leftarrow> mark (M_Gate address rf ring (fst verdict));
       ret verdict } }"

section \<open>The maintenance lock\<close>

definition maintenance_lock_name :: string where "maintenance_lock_name = ''cluster-maintenance''"

definition maintenance_lock_ttl :: int where "maintenance_lock_ttl = 300"

definition lock_body :: "string \<Rightarrow> string \<Rightarrow> string \<Rightarrow> real \<Rightarrow> (string \<times> jval) list" where
  "lock_body hostname token reason t =
     [(''name'', J_Str maintenance_lock_name), (''holder'', J_Str hostname), (''holder_token'', J_Str token), (''reason'', J_Str reason),
      (''acquired_at_ms'', J_Num \<lfloor>t * 1000\<rfloor>), (''ttl_seconds'', J_Num maintenance_lock_ttl)]"

definition mlwt :: "'w maint_env \<Rightarrow> string \<Rightarrow> (string \<times> jval) list \<Rightarrow> ('w, mevent, lwt_result) eff" where
  "mlwt env path d = of_vali (lwt (mt_vali env) path d)"

text \<open>\<open>(ok, token, current, error)\<close>; the table's own \<open>CREATE\<close> before it is left out.\<close>

definition acquire_maintenance_lock :: "'w maint_env \<Rightarrow> string \<Rightarrow> string \<Rightarrow> ('w, mevent, bool \<times> string \<times> (string \<times> jval) list \<times> jval) eff" where
  "acquire_maintenance_lock env hostname reason = do {
     token \<leftarrow> look (mt_token env);
     t \<leftarrow> look (mt_time env);
     a \<leftarrow> mlwt env ''/v1/lock/acquire'' (lock_body hostname token reason t);
     ret (if \<not> lr_ok a then (False, [], [], lr_error a)
          else if \<not> lr_applied a then (True, [], lr_current a, J_Str [])
          else (True, token, [], J_Str [])) }"

definition renew_maintenance_lock :: "'w maint_env \<Rightarrow> string \<Rightarrow> string \<Rightarrow> string \<Rightarrow> ('w, mevent, bool) eff" where
  "renew_maintenance_lock env hostname token reason = do {
     t \<leftarrow> look (mt_time env);
     a \<leftarrow> mlwt env ''/v1/lock/renew'' (lock_body hostname token reason t);
     ret (if \<not> lr_ok a then False else lr_applied a) }"

definition release_maintenance_lock :: "'w maint_env \<Rightarrow> string \<Rightarrow> ('w, mevent, bool) eff" where
  "release_maintenance_lock env token =
     (if token = [] then ret False
      else do {
        a \<leftarrow> mlwt env ''/v1/lock/release'' [(''name'', J_Str maintenance_lock_name), (''holder_token'', J_Str token)];
        ret (if \<not> lr_ok a then False else lr_applied a) })"

definition release_maintenance_lock_for_host :: "'w maint_env \<Rightarrow> string \<Rightarrow> ('w, mevent, bool) eff" where
  "release_maintenance_lock_for_host env hostname = do {
     row \<leftarrow> look (mt_lock env);
     case row of
       None \<Rightarrow> ret False
     | Some l \<Rightarrow> if lh_holder l \<noteq> Some hostname then ret False else release_maintenance_lock env (or_str (lh_token l) []) }"

section \<open>Tasks and their results\<close>

definition field :: "jval \<Rightarrow> string \<Rightarrow> jval option" where
  "field v k = (case v of J_Dict d \<Rightarrow> map_of d k | _ \<Rightarrow> None)"

text \<open>The polls of \<open>submit_and_wait_task\<close>: whether the task succeeded and why not. What a completed task returned is not used here.\<close>

fun await_task :: "'w maint_env \<Rightarrow> string \<Rightarrow> int \<Rightarrow> nat \<Rightarrow> ('w, mevent, bool \<times> string) eff" where
  "await_task env task polls 0 =
     ret (False, ''Task timed out after ~'' @ show_int (polls * 2) @ ''s (it may still be running in Catalyst).'')"
| "await_task env task polls (Suc n) = do {
     (status, res) \<leftarrow> look (mt_poll env task);
     if status = 200 then
       (if field res ''status'' = Some (J_Str ''completed'') then ret (True, [])
        else if field res ''status'' = Some (J_Str ''failed'')
        then ret (False, case field res ''error_msg'' of None \<Rightarrow> ''Task failed.'' | Some v \<Rightarrow> jval_text v)
        else do { _ \<leftarrow> look (va_pause (mt_vali env) 2); await_task env task polls n })
     else if status = 204 then do { _ \<leftarrow> look (va_pause (mt_vali env) 2); await_task env task polls n }
     else ret (False, ''Error polling status: '' @ jval_text res) }"

definition submit_and_wait_task :: "'w maint_env \<Rightarrow> string \<Rightarrow> string \<Rightarrow> (string \<times> jval) list \<Rightarrow> nat \<Rightarrow> string option \<Rightarrow> ('w, mevent, bool \<times> string) eff" where
  "submit_and_wait_task env service action payload polls parent = do {
     let payload' = (if truthy_str parent then dict_set ''parent_task_id'' (J_Str (the parent)) payload else payload);
     (r, why) \<leftarrow> do {
       (status, res) \<leftarrow> look (mt_submit env service action payload');
       if status \<noteq> 200 then ret (False, ''Failed to submit task to Catalyst: '' @ jval_text res)
       else await_task env (case field res ''task_id'' of Some v \<Rightarrow> jval_text v | None \<Rightarrow> ''None'') (int polls) polls };
     _ \<leftarrow> mark (M_Submit service action payload' r);
     ret (r, why) }"

section \<open>Entering maintenance\<close>

definition maintenance_stop_units :: "string list" where
  "maintenance_stop_units =
     [''spectrum'', ''spectrum-phx'', ''slate'', ''agahnim'', ''catalyst'', ''vali'', ''bifrost'', ''dagur'', ''mimir'', ''rauru'', ''logos'', ''mipha'',
      ''gatoway'', ''urbosa'']"

definition maintenance_exit_start_units :: "string list" where
  "maintenance_exit_start_units = [''zookeeper'', ''hydra-db'', ''daruk'', ''sidon'', ''hylia''] @ maintenance_stop_units"

definition leavable_host_states :: "string list" where
  "leavable_host_states = [''IN_MAINTENANCE'', ''ENTERING_MAINTENANCE'', ''RECOVERING'']"

definition set_node :: "'w maint_env \<Rightarrow> string \<Rightarrow> string \<Rightarrow> bool \<Rightarrow> ('w, mevent, unit) eff" where
  "set_node env hostname status maintenance = act (mt_node env hostname status maintenance) (\<lambda>_. M_Node hostname status maintenance)"

definition update_task :: "'w maint_env \<Rightarrow> string option \<Rightarrow> string \<Rightarrow> int \<Rightarrow> ('w, mevent, unit) eff" where
  "update_task env task status progress = act (mt_update env task status progress) (\<lambda>_. M_Update status progress)"

definition unit_action :: "'w maint_env \<Rightarrow> string \<Rightarrow> string \<Rightarrow> string list \<Rightarrow> ('w, mevent, string option) eff" where
  "unit_action env ip action units = act (mt_units env ip action units) (\<lambda>r. M_Units ip action units (r = None))"

text \<open>Why an evacuation stops early: an exception, or a guest that could not be moved.\<close>

datatype evacuation_stop = E_Raised string | E_Failed string string

definition stop_guest :: "'w maint_env \<Rightarrow> string \<Rightarrow> string option \<Rightarrow> ('w, mevent, bool \<times> string) eff" where
  "stop_guest env vm parent = submit_and_wait_task env ''vali'' ''stop'' [(''vm_name'', J_Str vm)] 60 parent"

definition move_guest :: "'w maint_env \<Rightarrow> bool \<Rightarrow> string option \<Rightarrow> string \<Rightarrow> string option \<Rightarrow> ('w, mevent, evacuation_stop option) eff" where
  "move_guest env force parent vm dest =
     (if \<not> truthy_str dest then
        (if force then do {
           (ok, err) \<leftarrow> stop_guest env vm parent;
           ret (if ok then None else Some (E_Failed vm (''Force stop failed: '' @ err))) }
         else ret (Some (E_Failed vm ''No active hypervisor host has sufficient memory.'')))
      else do {
        (ok, err) \<leftarrow> submit_and_wait_task env ''vali'' ''migrate'' [(''vm_name'', J_Str vm), (''target_host'', J_Str (the dest))] 300 parent;
        if ok then ret None
        else if force then do { _ \<leftarrow> stop_guest env vm parent; ret None }
        else ret (Some (E_Failed vm (''Migration failed: '' @ err))) })"

text \<open>
  One guest of the evacuation. The progress is computed exactly; the source's floating point gives the same numbers for all cluster sizes in use.
\<close>

definition evacuate_guest :: "'w maint_env \<Rightarrow> string option \<Rightarrow> string \<Rightarrow> bool \<Rightarrow> string \<Rightarrow> nat \<Rightarrow> nat \<times> guest_row \<Rightarrow> unit \<Rightarrow>
    ('w, mevent, evacuation_stop option \<times> unit) eff" where
  "evacuate_guest env task hostname force token many x _ = (case x of (i, g) \<Rightarrow>
     (case gr_memory g of
        None \<Rightarrow> ret (Some (E_Raised not_a_number), ())
      | Some memory \<Rightarrow> do {
          dest \<leftarrow> of_vali (select_best_start_host (mt_vali env) memory);
          bad \<leftarrow> move_guest env force task (gr_name g) dest;
          case bad of
            Some e \<Rightarrow> ret (Some e, ())
          | None \<Rightarrow> do {
              _ \<leftarrow> update_task env task ''processing'' ((10 * int many + 80 * int i) div int many);
              _ \<leftarrow> renew_maintenance_lock env hostname token (''evacuating '' @ hostname);
              ret (None, ()) } }))"

definition running_on :: "string \<Rightarrow> guest_row list option \<Rightarrow> guest_row list" where
  "running_on ip rows = filter (\<lambda>g. gr_state g = Some ''Running'' \<and> gr_host g = Some ip) (case rows of None \<Rightarrow> [] | Some gs \<Rightarrow> gs)"

definition put_back :: "'w maint_env \<Rightarrow> string \<Rightarrow> string \<Rightarrow> ('w, mevent, unit) eff" where
  "put_back env hostname token = do {
     _ \<leftarrow> set_node env hostname ''NORMAL'' False;
     _ \<leftarrow> release_maintenance_lock env token;
     ret () }"

text \<open>From the evacuated host on: the gate, the record, the marker on the host, and its services.\<close>

definition stop_host :: "'w maint_env \<Rightarrow> string option \<Rightarrow> string \<Rightarrow> string \<Rightarrow> string \<Rightarrow> ('w, mevent, bool \<times> string) eff" where
  "stop_host env task hostname ip token = do {
     (quorum_ok, why) \<leftarrow> check_stop_preserves_quorum env ip;
     if \<not> quorum_ok then do { _ \<leftarrow> put_back env hostname token; ret (False, ''Refused to enter maintenance mode: '' @ why) }
     else do {
       _ \<leftarrow> set_node env hostname ''IN_MAINTENANCE'' True;
       _ \<leftarrow> renew_maintenance_lock env hostname token (hostname @ '' is in maintenance'');
       (rc, _, err) \<leftarrow> of_vali (spark (mt_vali env) ip C_Mark);
       if rc \<noteq> 0 then do {
         _ \<leftarrow> put_back env hostname token;
         ret (False, ''Could not enter maintenance mode: the marker file could not be written on '' @ hostname @ '' ('' @ py_or (strip err) ''no detail''
                @ ''). Its VMs have already been evacuated; DRS will rebalance them.'') }
       else do {
         _ \<leftarrow> update_task env task ''completed'' 100;
         failed \<leftarrow> unit_action env ip ''stop'' maintenance_stop_units;
         ret (case failed of
                Some detail \<Rightarrow> (False, hostname @ '' is recorded as in maintenance and its VMs are evacuated, but its services could not be stopped ('' @ detail
                    @ ''). `cluster status` marks what is still up that should not be. Run '' @ quoted (''valcli host.maintenance.leave '' @ hostname) @ '' to undo it.'')
              | None \<Rightarrow> (True, ip)) } } }"

definition enter_maintenance :: "'w maint_env \<Rightarrow> string option \<Rightarrow> string option \<Rightarrow> string option \<Rightarrow> bool \<Rightarrow> string \<Rightarrow> ('w, mevent, bool \<times> string) eff" where
  "enter_maintenance env task hostname target force token =
     (if \<not> is_valid_object_name hostname \<or> \<not> is_valid_object_name target then do {
        _ \<leftarrow> release_maintenance_lock env token;
        ret (False, ''Invalid payload parameters for host_maintenance_enter.'') }
      else do {
        let name = the hostname;
        let ip = the target;
        rows \<leftarrow> act (mt_guests env) M_Guests;
        let running = running_on ip rows;
        (bad, _) \<leftarrow> for_keep (evacuate_guest env task name force token (length running)) (zip [1..<Suc (length running)] running) ();
        case bad of
          Some (E_Raised e) \<Rightarrow> ret (False, e)
        | Some (E_Failed vm why) \<Rightarrow> do { _ \<leftarrow> put_back env name token; ret (False, ''Evacuation failed on VM '' @ vm @ '': '' @ why) }
        | None \<Rightarrow> stop_host env task name ip token })"

section \<open>Leaving maintenance\<close>

definition services_down_on :: "'w maint_env \<Rightarrow> string \<Rightarrow> ('w, mevent, string list option) eff" where
  "services_down_on env ip = do {
     st \<leftarrow> of_vali (node_state (mt_vali env) ip);
     ret (case st of
            Inl _ \<Rightarrow> None
          | Inr s \<Rightarrow> if \<not> not_in_maintenance s then None else Some (sort (map fst (filter (\<lambda>(_, x). x \<noteq> Some ''UP'') (ns_services s))))) }"

definition exit_wait_seconds :: real where "exit_wait_seconds = 180"

definition exit_poll_seconds :: real where "exit_poll_seconds = 5"

text \<open>The wait, with fuel for its looks: \<^const>\<open>None\<close> when it runs out, \<^const>\<open>Inl\<close> when the deadline passes.\<close>

fun await_services :: "'w maint_env \<Rightarrow> string \<Rightarrow> real \<Rightarrow> nat \<Rightarrow> ('w, mevent, (string list option + unit) option) eff" where
  "await_services env ip deadline 0 = ret None"
| "await_services env ip deadline (Suc n) = do {
     down \<leftarrow> services_down_on env ip;
     if down = Some [] then ret (Some (Inr ()))
     else do {
       t \<leftarrow> look (mt_time env);
       if deadline \<le> t then ret (Some (Inl down))
       else do { _ \<leftarrow> look (va_pause (mt_vali env) exit_poll_seconds); await_services env ip deadline n } } }"

definition node_body :: "string \<Rightarrow> string \<Rightarrow> string \<Rightarrow> (string \<times> jval) list" where
  "node_body hostname status expected =
     [(''hostname'', J_Str hostname), (''status'', J_Str status), (''maintenance_mode'', J_Bool False), (''expected_status'', J_Str expected)]"

definition not_back :: "string \<Rightarrow> string list option \<Rightarrow> string" where
  "not_back hostname down =
     ''Host '' @ hostname @ '' left maintenance but is not fully back after 180s (''
       @ (case down of None \<Rightarrow> ''its status could not be read'' | Some ds \<Rightarrow> ''these services are not up: '' @ join '', '' ds)
       @ ''). It stays RECOVERING with the maintenance lock held; run '' @ quoted (''valcli host.maintenance.leave '' @ hostname) @ '' again to retry.''"

definition finish_maintenance_exit :: "'w maint_env \<Rightarrow> string \<Rightarrow> string \<Rightarrow> nat \<Rightarrow> ('w, mevent, (bool \<times> string) option) eff" where
  "finish_maintenance_exit env hostname ip looks = do {
     t \<leftarrow> look (mt_time env);
     waited \<leftarrow> await_services env ip (t + exit_wait_seconds) looks;
     case waited of
       None \<Rightarrow> ret None
     | Some (Inl down) \<Rightarrow> ret (Some (False, not_back hostname down))
     | Some (Inr _) \<Rightarrow> do {
         a \<leftarrow> mlwt env ''/v1/node/maintenance'' (node_body hostname ''NORMAL'' ''RECOVERING'');
         if \<not> lr_ok a then
           ret (Some (False, ''Host '' @ hostname @ '' is back but its status could not be set to NORMAL ('' @ jval_text (lr_error a)
                  @ ''). It stays RECOVERING with the lock held; run leave again.''))
         else do {
           _ \<leftarrow> release_maintenance_lock_for_host env hostname;
           ret (Some (True, [])) } } }"

definition leave_maintenance :: "'w maint_env \<Rightarrow> string option \<Rightarrow> string option \<Rightarrow> string option \<Rightarrow> nat \<Rightarrow> ('w, mevent, (bool \<times> string) option) eff" where
  "leave_maintenance env task hostname target looks =
     (if \<not> is_valid_object_name hostname \<or> \<not> is_valid_object_name target
      then ret (Some (False, ''Invalid payload parameters for host_maintenance_leave.''))
      else do {
        let name = the hostname;
        let ip = the target;
        _ \<leftarrow> of_vali (spark (mt_vali env) ip C_Unmark);
        _ \<leftarrow> update_task env task ''processing'' 15;
        _ \<leftarrow> unit_action env ip ''start'' maintenance_exit_start_units;
        _ \<leftarrow> update_task env task ''processing'' 30;
        _ \<leftarrow> look (va_pause (mt_vali env) 10);
        _ \<leftarrow> set_node env name ''RECOVERING'' False;
        r \<leftarrow> finish_maintenance_exit env name ip looks;
        case r of
          None \<Rightarrow> ret None
        | Some (back_up, why) \<Rightarrow>
            if \<not> back_up then ret (Some (False, why))
            else do {
              _ \<leftarrow> submit_and_wait_task env ''dagur'' ''execute''
                     [(''job_name'', J_Str ''Mimir Health Check''), (''command'', J_Str ''/usr/local/bin/mcli health_checks run_all'')] 60 task;
              _ \<leftarrow> submit_and_wait_task env ''vali'' ''balance'' [(''aggressive'', J_Bool False)] 60 task;
              ret (Some (True, ip)) } })"

section \<open>A request for maintenance\<close>

text \<open>An answer of the API: its status code and its body.\<close>

type_synonym answer = "int \<times> (string \<times> jval) list"

definition submit_task :: "'w maint_env \<Rightarrow> string \<Rightarrow> (string \<times> jval) list \<Rightarrow> ('w, mevent, int \<times> jval) eff" where
  "submit_task env action payload = act (mt_submit env ''vali'' action payload) (\<lambda>r. M_Task action payload (fst r))"

definition submitted_answer :: "string \<Rightarrow> jval \<Rightarrow> answer" where
  "submitted_answer doing res =
     (let task = (case field res ''task_id'' of Some v \<Rightarrow> v | None \<Rightarrow> J_Null)
      in (200, [(''status'', J_Str ''transitioning''), (''task_id'', task),
                (''message'', J_Str (doing @ '' maintenance mode task submitted (Task ID: '' @ jval_text task @ '').''))]))"

definition error_answer :: "int \<Rightarrow> string \<Rightarrow> answer" where
  "error_answer code why = (code, [(''error'', J_Str why)])"

definition locked_answer :: "(string \<times> jval) list \<Rightarrow> answer" where
  "locked_answer held =
     (409, [(''error'', J_Str (''Host '' @ quoted (text_or (map_of held ''holder'') ''another host'') @ '' already holds the cluster maintenance lock (''
                @ text_or (map_of held ''reason'') ''no reason recorded'' @ ''). Only one host may transition at a time, to preserve quorum.'')),
            (''reason'', J_Str ''locked''),
            (''holder'', case map_of held ''holder'' of Some v \<Rightarrow> v | None \<Rightarrow> J_Str [])])"

definition enter_payload :: "string \<Rightarrow> string \<Rightarrow> jval \<Rightarrow> string \<Rightarrow> (string \<times> jval) list" where
  "enter_payload hostname ip force token =
     [(''hostname'', J_Str hostname), (''target_ip'', J_Str ip), (''force_stop'', force), (''lock_token'', J_Str token)]"

text \<open>With the lock: claim the transition of the host, and hand it over to a task.\<close>

definition begin_entry :: "'w maint_env \<Rightarrow> string \<Rightarrow> string \<Rightarrow> jval \<Rightarrow> string \<Rightarrow> ('w, mevent, answer) eff" where
  "begin_entry env hostname ip force token = do {
     a \<leftarrow> mlwt env ''/v1/node/maintenance'' (node_body hostname ''ENTERING_MAINTENANCE'' ''NORMAL'');
     if \<not> lr_ok a then do {
       _ \<leftarrow> release_maintenance_lock env token;
       ret (error_answer 500 (''Could not begin the maintenance transition for '' @ quoted hostname @ '': '' @ jval_text (lr_error a))) }
     else if \<not> lr_applied a then do {
       _ \<leftarrow> release_maintenance_lock env token;
       ret (error_answer 409 (''Host '' @ quoted hostname @ '' is in state ''
              @ quoted (case map_of (lr_current a) ''status'' of None \<Rightarrow> ''None'' | Some v \<Rightarrow> jval_text v) @ '', not NORMAL, so it cannot enter maintenance mode now.'')) }
     else do {
       (status, res) \<leftarrow> submit_task env ''host_maintenance_enter'' (enter_payload hostname ip force token);
       if status = 200 then ret (submitted_answer ''Entering'' res)
       else do {
         _ \<leftarrow> mlwt env ''/v1/node/maintenance'' (node_body hostname ''NORMAL'' ''ENTERING_MAINTENANCE'');
         _ \<leftarrow> release_maintenance_lock env token;
         ret (error_answer 500 (''Failed to submit host maintenance task to Catalyst: '' @ jval_text res)) } } }"

definition request_enter :: "'w maint_env \<Rightarrow> string \<Rightarrow> host_row \<Rightarrow> jval \<Rightarrow> ('w, mevent, answer) eff" where
  "request_enter env hostname row force =
     (if \<not> truthy_str (hr_ip row) then
        ret (error_answer 409 (''Host '' @ quoted hostname @ '' has no IP recorded in hydra.nodes, so its effect on the ScyllaDB ring cannot be established.''))
      else do {
        let ip = the (hr_ip row);
        (quorum_ok, why) \<leftarrow> check_stop_preserves_quorum env ip;
        if \<not> quorum_ok then
          ret (409, [(''error'', J_Str (''Host '' @ quoted hostname @ '' cannot enter maintenance mode: '' @ why)), (''reason'', J_Str ''quorum'')])
        else do {
          (ok, token, held, err) \<leftarrow> acquire_maintenance_lock env hostname (''maintenance entry on '' @ hostname);
          if \<not> ok then ret (error_answer 500 (''Could not take the cluster maintenance lock: '' @ jval_text err))
          else if token = [] then ret (locked_answer held)
          else begin_entry env hostname ip force token } })"

definition request_leave :: "'w maint_env \<Rightarrow> string \<Rightarrow> host_row \<Rightarrow> ('w, mevent, answer) eff" where
  "request_leave env hostname row =
     (if \<not> (case hr_status row of None \<Rightarrow> False | Some s \<Rightarrow> s \<in> set leavable_host_states) then
        ret (409, [(''error'', J_Str (''Host '' @ quoted hostname @ '' is in state '' @ quoted (case hr_status row of None \<Rightarrow> ''None'' | Some s \<Rightarrow> s)
                      @ '', not in maintenance, so there is nothing to leave.'')), (''reason'', J_Str ''not_in_maintenance'')])
      else do {
        (status, res) \<leftarrow> submit_task env ''host_maintenance_leave'' [(''hostname'', J_Str hostname), (''target_ip'', host_value (hr_ip row))];
        ret (if status = 200 then submitted_answer ''Leaving'' res
             else error_answer 500 (''Failed to submit host maintenance leave task to Catalyst: '' @ jval_text res)) })"

definition handle_maintenance_request :: "'w maint_env \<Rightarrow> string option \<Rightarrow> string option \<Rightarrow> jval \<Rightarrow> ('w, mevent, answer) eff" where
  "handle_maintenance_request env hostname action force =
     (if \<not> truthy_str hostname \<or> \<not> truthy_str action then ret (error_answer 400 ''Parameters hostname and action required.'')
      else if \<not> is_valid_object_name hostname then ret (error_answer 400 (''Invalid hostname: '' @ object_name_error @ ''.''))
      else do {
        let name = the hostname;
        row \<leftarrow> act (mt_host env name) (M_Host name);
        case row of
          None \<Rightarrow> ret (error_answer 404 (''Host '' @ quoted name @ '' not found in cluster database.''))
        | Some r \<Rightarrow>
            if the action = ''enter'' then request_enter env name r force
            else if the action = ''leave'' then request_leave env name r
            else ret (error_answer 400 (''Invalid action '' @ quoted (the action) @ ''.'')) })"

section \<open>A host is stopped only behind the gate\<close>



definition releases_lock :: "string \<Rightarrow> mevent list \<Rightarrow> bool" where
  "releases_lock token es \<longleftrightarrow>
     (if token = [] then es = []
      else \<exists>a. es = [M_Vali (V_Lwt ''/v1/lock/release'' [(''name'', J_Str maintenance_lock_name), (''holder_token'', J_Str token)] a)])"


text \<open>What the gate rests on when it opens: a replication factor, and a ring that keeps its quorum without the host.\<close>

definition gate_opens :: "string \<Rightarrow> int option \<Rightarrow> string + ring_member list \<Rightarrow> bool" where
  "gate_opens ip rf ring \<longleftrightarrow>
     (\<exists>n. rf = Some n \<and> n \<noteq> 0 \<and> (case ring of Inl e \<Rightarrow> e = [] \<and> fst (evaluate_stop [] n ip) | Inr ms \<Rightarrow> fst (evaluate_stop ms n ip)))"


lemma yields_release: "yields (release_maintenance_lock env token) (\<lambda>_. releases_lock token)"
  unfolding release_maintenance_lock_def mlwt_def lwt_def
  by (intro yields_intros yields_inside) (auto simp: releases_lock_def)



lemma yields_gate:
  "yields (check_stop_preserves_quorum env ip) (\<lambda>r es.
     if fst r then \<exists>rf ring. es = [M_Gate ip rf ring True] \<and> gate_opens ip rf ring
     else es = [] \<or> (\<exists>rf ring. es = [M_Gate ip rf ring False]))"
  unfolding check_stop_preserves_quorum_def get_hydra_replication_factor_def get_ring_members_def
  by (intro yields_intros yields_mark)
    (auto simp: gate_opens_def Let_def or_int_def split: option.splits sum.splits list.splits if_splits)

lemma yields_await: "yields (await_task env task n polls) (\<lambda>_ es. es = [])"
  by (induction polls) (auto intro!: yields_intros elim!: yields_mono)

lemma yields_submit:
  "yields (submit_and_wait_task env service action payload polls parent) (\<lambda>r es.
     es = [M_Submit service action (if truthy_str parent then dict_set ''parent_task_id'' (J_Str (the parent)) payload else payload) (fst r)])"
  unfolding submit_and_wait_task_def
  by (intro yields_intros yields_mono [OF yields_await] yields_mark) auto












section \<open>A request holds the lock\<close>

text \<open>
  The runs of a request for the host \<open>h\<close>, with the answer's code: one that is not well formed, a host that is not known, one that has no address, a gate that is closed or cannot be asked, a host that is not in maintenance and
  an action there is not; then refused the lock, refused the transition, refused by Catalyst, and the two that a task carries on. A \<open>token\<close> is a fresh UUID and so not empty.
\<close>

inductive request_run :: "bool \<Rightarrow> string \<Rightarrow> string option \<Rightarrow> jval \<Rightarrow> int \<Rightarrow> mevent list \<Rightarrow> bool" for well h action force where
  malformed: "\<not> well \<Longrightarrow> request_run well h action force 400 []"
| unknown: "request_run well h action force 404 [M_Host h None]"
| unaddressed: "action = Some ''enter'' \<Longrightarrow> \<not> truthy_str (hr_ip row) \<Longrightarrow> request_run well h action force 409 [M_Host h (Some row)]"
| gated: "action = Some ''enter'' \<Longrightarrow> hr_ip row = Some ip \<Longrightarrow> request_run well h action force 409 [M_Host h (Some row), M_Gate ip rf ring False]"
| ungated: "action = Some ''enter'' \<Longrightarrow> hr_ip row = Some ip \<Longrightarrow> request_run well h action force 409 [M_Host h (Some row)]"
| nothing_to_leave: "action = Some ''leave'' \<Longrightarrow> hr_status row \<notin> Some ` set leavable_host_states \<Longrightarrow> request_run well h action force 409 [M_Host h (Some row)]"
| no_action: "action \<notin> {Some ''enter'', Some ''leave''} \<Longrightarrow> request_run well h action force 400 [M_Host h (Some row)]"
| unlocked: "action = Some ''enter'' \<Longrightarrow> hr_ip row = Some ip \<Longrightarrow> code \<noteq> 200 \<Longrightarrow> gate_opens ip rf ring \<Longrightarrow> \<not> wins a \<or> token = [] \<Longrightarrow>
    request_run well h action force code [M_Host h (Some row), M_Gate ip rf ring True, M_Vali (V_Lwt ''/v1/lock/acquire'' (lock_body h token why t) a)]"
| unclaimed: "action = Some ''enter'' \<Longrightarrow> hr_ip row = Some ip \<Longrightarrow> code \<noteq> 200 \<Longrightarrow> gate_opens ip rf ring \<Longrightarrow> wins a \<Longrightarrow> token \<noteq> [] \<Longrightarrow> \<not> wins b \<Longrightarrow> releases_lock token rel \<Longrightarrow>
    request_run well h action force code ([M_Host h (Some row), M_Gate ip rf ring True, M_Vali (V_Lwt ''/v1/lock/acquire'' (lock_body h token why t) a),
      M_Vali (V_Lwt ''/v1/node/maintenance'' (node_body h ''ENTERING_MAINTENANCE'' ''NORMAL'') b)] @ rel)"
| untasked: "action = Some ''enter'' \<Longrightarrow> hr_ip row = Some ip \<Longrightarrow> code \<noteq> 200 \<Longrightarrow> gate_opens ip rf ring \<Longrightarrow> wins a \<Longrightarrow> token \<noteq> [] \<Longrightarrow> wins b \<Longrightarrow> status \<noteq> 200 \<Longrightarrow> releases_lock token rel \<Longrightarrow>
    request_run well h action force code ([M_Host h (Some row), M_Gate ip rf ring True, M_Vali (V_Lwt ''/v1/lock/acquire'' (lock_body h token why t) a),
      M_Vali (V_Lwt ''/v1/node/maintenance'' (node_body h ''ENTERING_MAINTENANCE'' ''NORMAL'') b),
      M_Task ''host_maintenance_enter'' (enter_payload h ip force token) status,
      M_Vali (V_Lwt ''/v1/node/maintenance'' (node_body h ''NORMAL'' ''ENTERING_MAINTENANCE'') c)] @ rel)"
| entering: "action = Some ''enter'' \<Longrightarrow> hr_ip row = Some ip \<Longrightarrow> gate_opens ip rf ring \<Longrightarrow> wins a \<Longrightarrow> token \<noteq> [] \<Longrightarrow> wins b \<Longrightarrow>
    request_run well h action force 200 [M_Host h (Some row), M_Gate ip rf ring True, M_Vali (V_Lwt ''/v1/lock/acquire'' (lock_body h token why t) a),
      M_Vali (V_Lwt ''/v1/node/maintenance'' (node_body h ''ENTERING_MAINTENANCE'' ''NORMAL'') b),
      M_Task ''host_maintenance_enter'' (enter_payload h ip force token) 200]"
| leaving: "action = Some ''leave'' \<Longrightarrow> hr_status row = Some state \<Longrightarrow> state \<in> set leavable_host_states \<Longrightarrow> code = 200 \<longleftrightarrow> status = 200 \<Longrightarrow>
    request_run well h action force code [M_Host h (Some row),
      M_Task ''host_maintenance_leave'' [(''hostname'', J_Str h), (''target_ip'', host_value (hr_ip row))] status]"

lemma answer_codes:
  "fst (error_answer c e) = c" "fst (locked_answer d) = 409" "fst (submitted_answer s v) = 200"
  by (simp_all add: error_answer_def locked_answer_def submitted_answer_def Let_def)

lemma yields_acquire:
  "yields (acquire_maintenance_lock env h why) (\<lambda>r es. \<exists>token t a.
     es = [M_Vali (V_Lwt ''/v1/lock/acquire'' (lock_body h token why t) a)]
     \<and> (if fst r \<and> fst (snd r) \<noteq> [] then wins a \<and> fst (snd r) = token else \<not> wins a \<or> token = []))"
  unfolding acquire_maintenance_lock_def mlwt_def lwt_def
  by (intro yields_intros yields_inside) (auto simp: wins_def)

lemma yields_begin_entry:
  assumes "action = Some ''enter''" "hr_ip row = Some ip" "gate_opens ip rf ring" "wins a" "token \<noteq> []"
  shows "yields (begin_entry env h ip force token) (\<lambda>r es. request_run well h action force (fst r)
      (M_Host h (Some row) # M_Gate ip rf ring True # M_Vali (V_Lwt ''/v1/lock/acquire'' (lock_body h token why t) a) # es))"
  unfolding begin_entry_def mlwt_def lwt_def submit_task_def
  by (intro yields_intros yields_inside yields_mono [OF yields_release])
    (use request_run.entering [OF assms] request_run.unclaimed [OF assms(1,2) _ assms(3-5)] request_run.untasked [OF assms(1,2) _ assms(3-5)]
      in \<open>auto simp: answer_codes wins_def\<close>)

lemma yields_request_enter:
  "action = Some ''enter'' \<Longrightarrow> yields (request_enter env h row force) (\<lambda>r es. request_run well h action force (fst r) (M_Host h (Some row) # es))"
  unfolding request_enter_def
  by (intro yields_intros yields_mono [OF yields_gate] yields_mono [OF yields_acquire])
    (auto simp: answer_codes truthy_str_def intro: request_run.unaddressed request_run.gated request_run.ungated request_run.unlocked yields_begin_entry split: option.splits if_splits)

text \<open>
  C10. A transition starts under the lock, and a request that starts none gives the lock back. Whatever the database and Catalyst answer, a request to enter
  maintenance is answered with 200 only after the gate opened, the cluster's lock was taken with a token of its own, the host was swapped from \<open>NORMAL\<close> to
  \<open>ENTERING_MAINTENANCE\<close> and a task with that token was accepted; any other answer releases the lock if it was taken and puts the host back if it was
  swapped. A task to leave is submitted only for a request to leave and for a host recorded in one of the states that can be left, and touches neither. Each refusal has its reason: a request that is not well formed, a host that is
  not known or has no address, a gate that is closed or cannot be asked, a host that is not in maintenance, or an action there is not.
\<close>

theorem requests_hold_the_lock:
  "yields (handle_maintenance_request env hostname action force) (\<lambda>r. request_run (truthy_str hostname \<and> truthy_str action \<and> is_valid_object_name hostname) (the hostname) action force (fst r))"
  unfolding handle_maintenance_request_def request_leave_def submit_task_def
  by (intro yields_intros yields_mono [OF yields_request_enter])
    (auto simp: answer_codes truthy_str_def intro: request_run.malformed request_run.unknown request_run.nothing_to_leave request_run.no_action request_run.leaving [OF refl]
      split: option.splits)

section \<open>A host returns when its services are up\<close>

definition back_up :: "node_status \<Rightarrow> bool" where
  "back_up s \<longleftrightarrow> not_in_maintenance s \<and> all_up s"

definition status_read :: "string \<Rightarrow> mevent \<Rightarrow> bool" where
  "status_read ip e \<longleftrightarrow> (\<exists>st. e = M_Vali (V_Status ip st))"

text \<open>The runs of a leave, up to what it returns: \<open>None\<close> while the wait goes on.\<close>

inductive exit_run :: "string \<Rightarrow> string \<Rightarrow> bool option \<Rightarrow> mevent list \<Rightarrow> bool" for h ip where
  waiting: "list_all (status_read ip) es \<Longrightarrow> r \<noteq> Some True \<Longrightarrow> exit_run h ip r es"
| unrecorded: "list_all (status_read ip) es \<Longrightarrow> back_up s \<Longrightarrow> \<not> lr_ok a \<Longrightarrow>
    exit_run h ip (Some False) (es @ [M_Vali (V_Status ip (Inr s)), M_Vali (V_Lwt ''/v1/node/maintenance'' (node_body h ''NORMAL'' ''RECOVERING'') a)])"
| returned: "list_all (status_read ip) es \<Longrightarrow> back_up s \<Longrightarrow> lr_ok a \<Longrightarrow> releases_lock token rel \<Longrightarrow>
    exit_run h ip (Some True) (es @ [M_Vali (V_Status ip (Inr s)), M_Vali (V_Lwt ''/v1/node/maintenance'' (node_body h ''NORMAL'' ''RECOVERING'') a)] @ rel)"

definition leave_trace :: "string \<Rightarrow> string \<Rightarrow> bool option \<Rightarrow> mevent list \<Rightarrow> bool" where
  "leave_trace h ip r es \<longleftrightarrow>
     es = [] \<and> r = Some False
     \<or> (\<exists>rc up fs tasks. exit_run h ip r fs \<and> (r \<noteq> Some True \<longrightarrow> tasks = []) \<and> list_all (\<lambda>e. \<exists>s a p ok. e = M_Submit s a p ok) tasks
         \<and> es = [M_Vali (V_Spark ip C_Unmark rc), M_Update ''processing'' 15, M_Units ip ''start'' maintenance_exit_start_units up,
             M_Update ''processing'' 30, M_Node h ''RECOVERING'' False] @ fs @ tasks)"

lemma leave_traced:
  assumes "exit_run h ip r fs" "r \<noteq> Some True \<Longrightarrow> tasks = []" "list_all (\<lambda>e. \<exists>s a p ok. e = M_Submit s a p ok) tasks"
  shows "leave_trace h ip r (M_Vali (V_Spark ip C_Unmark rc) # M_Update ''processing'' 15 # M_Units ip ''start'' maintenance_exit_start_units up
    # M_Update ''processing'' 30 # M_Node h ''RECOVERING'' False # fs @ tasks)"
  using assms unfolding leave_trace_def by auto

lemma yields_services:
  "yields (services_down_on env ip) (\<lambda>r es. \<exists>st. es = [M_Vali (V_Status ip st)] \<and> (r = Some [] \<longrightarrow> (\<exists>s. st = Inr s \<and> back_up s)))"
  unfolding services_down_on_def node_state_def
  by (intro yields_intros yields_inside)
    (auto simp: back_up_def all_up_def list_all_iff filter_empty_conv sort_empty split: sum.splits if_splits)

definition awaited :: "string \<Rightarrow> (string list option + unit) option \<Rightarrow> mevent list \<Rightarrow> bool" where
  "awaited ip r es \<longleftrightarrow> (if r = Some (Inr ())
      then \<exists>xs s. es = xs @ [M_Vali (V_Status ip (Inr s))] \<and> list_all (status_read ip) xs \<and> back_up s
      else list_all (status_read ip) es)"

lemma awaited_once: "awaited ip (Some (Inr ())) [M_Vali (V_Status ip (Inr s))] \<longleftrightarrow> back_up s"
  by (auto simp: awaited_def)

lemma awaited_Cons: "awaited ip r es \<Longrightarrow> awaited ip r (M_Vali (V_Status ip st) # es)"
proof (cases "r = Some (Inr ())")
  case True
  assume "awaited ip r es"
  then obtain xs s where "es = xs @ [M_Vali (V_Status ip (Inr s))]" "list_all (status_read ip) xs" "back_up s"
    using True by (auto simp: awaited_def)
  then show ?thesis unfolding awaited_def True
    by (simp add: exI [of _ "M_Vali (V_Status ip st) # xs"] status_read_def)
qed (auto simp: awaited_def status_read_def)

lemma yields_await_services: "yields (await_services env ip deadline n) (awaited ip)"
proof (induction n)
  case (Suc n)
  have later: "yields (await_services env ip deadline n) (\<lambda>r es. awaited ip r (M_Vali (V_Status ip st) # es))" for st
    using Suc.IH by (rule yields_mono) (rule awaited_Cons)
  have given_up: "awaited ip (Some (Inl down)) [M_Vali (V_Status ip st)]" for down st
    by (simp add: awaited_def status_read_def)
  show ?case unfolding await_services.simps
    by (rule yields_seq [OF yields_services]) (auto simp: awaited_once intro!: yields_intros later given_up)
qed (simp add: yields_ret awaited_def)

lemma yields_release_for: "yields (release_maintenance_lock_for_host env h) (\<lambda>_ es. \<exists>token. releases_lock token es)"
proof -
  have unheld: "\<exists>token. releases_lock token []" by (rule exI [of _ "[]"]) (simp add: releases_lock_def)
  then show ?thesis unfolding release_maintenance_lock_for_host_def
    by (intro yields_intros yields_mono [OF yields_release]) auto
qed

lemma yields_finish:
  "yields (finish_maintenance_exit env h ip n) (\<lambda>r. exit_run h ip (map_option fst r))"
  unfolding finish_maintenance_exit_def mlwt_def lwt_def
  by (intro yields_intros yields_mono [OF yields_await_services] yields_mono [OF yields_release_for] yields_inside)
    (auto intro: exit_run.waiting exit_run.unrecorded exit_run.returned [simplified] simp: awaited_def split: if_splits)

text \<open>
  A host that leaves maintenance becomes \<open>NORMAL\<close> only when it is back. Whatever is answered, a leave swaps the host from \<open>RECOVERING\<close> to \<open>NORMAL\<close> only directly
  after a status in which the host is out of maintenance and every service it publishes is up, releases the lock only after that swap was answered, and
  asks for a rebalance only after that; a leave that fails or is still waiting has done none of the later steps.
\<close>

theorem hosts_return_when_up:
  "yields (leave_maintenance env task hostname target n) (\<lambda>r. leave_trace (the hostname) (the target) (map_option fst r))"
  unfolding leave_maintenance_def spark_def update_task_def unit_action_def set_node_def
  by (intro yields_intros yields_inside yields_mono [OF yields_finish] yields_mono [OF yields_submit])
    (auto intro: leave_traced leave_traced [where tasks = "[]", simplified] simp: leave_trace_def [of _ _ _ "[]"])

section \<open>The wait for a host ends\<close>

text \<open>A clock that is not set back while the host is asked, and that a pause of some seconds moves on by them.\<close>

definition clock_runs :: "('w \<Rightarrow> real) \<Rightarrow> 'w maint_env \<Rightarrow> bool" where
  "clock_runs clock env \<longleftrightarrow>
     (\<forall>w t w'. mt_time env w = (t, w') \<longrightarrow> clock w \<le> t \<and> t \<le> clock w')
     \<and> (\<forall>ip w st w'. va_status (mt_vali env) ip w = (st, w') \<longrightarrow> clock w \<le> clock w')
     \<and> (\<forall>d u w w'. va_pause (mt_vali env) d w = (u, w') \<longrightarrow> clock w + d \<le> clock w')"

lemma asking_takes_time:
  assumes "clock_runs clock env" "run_state (services_down_on env ip) s = (r, s')"
  shows "clock (hidden s) \<le> clock (hidden s')"
  using assms by (auto simp: services_down_on_def node_state_def inside_def run_rules clock_runs_def split: prod.splits)

lemma waiting_ends:
  assumes "clock_runs clock env" "deadline \<le> clock (hidden s) + exit_poll_seconds * real n"
  shows "fst (run_state (await_services env ip deadline (Suc n)) s) \<noteq> None"
  using assms(2)
proof (induction n arbitrary: s)
  case 0
  then show ?case using assms(1) asking_takes_time [OF assms(1)]
    by (auto simp: run_rules clock_runs_def split: prod.splits) fastforce
next
  case (Suc n)
  obtain down s1 where ask: "run_state (services_down_on env ip) s = (down, s1)" by fastforce
  obtain t w2 where time: "mt_time env (hidden s1) = (t, w2)" by fastforce
  obtain u w3 where pause: "va_pause (mt_vali env) exit_poll_seconds w2 = (u, w3)" by (cases "va_pause (mt_vali env) exit_poll_seconds w2") blast
  have "clock (hidden s) + exit_poll_seconds \<le> clock w3"
    using assms(1) asking_takes_time [OF assms(1) ask] time pause unfolding clock_runs_def by fastforce
  then have "fst (run_state (await_services env ip deadline (Suc n)) (s1\<lparr>hidden := w3\<rparr>)) \<noteq> None"
    using Suc.prems by (intro Suc.IH) (simp add: algebra_simps)
  then show ?case
    by (subst await_services.simps) (simp add: run_rules ask time pause del: await_services.simps)
qed

lemma finishing_ends:
  assumes "clock_runs clock env" "37 \<le> n"
  shows "fst (run_state (finish_maintenance_exit env h ip n) s) \<noteq> None"
proof -
  obtain t w where time: "mt_time env (hidden s) = (t, w)" by fastforce
  obtain m where m: "n = Suc m" "36 \<le> m" using assms(2) by (cases n) auto
  have "t + exit_wait_seconds \<le> clock w + exit_poll_seconds * real m"
    using assms(1) time m unfolding clock_runs_def exit_wait_seconds_def exit_poll_seconds_def by fastforce
  then have "fst (run_state (await_services env ip (t + exit_wait_seconds) n) (s\<lparr>hidden := w\<rparr>)) \<noteq> None"
    unfolding m by (intro waiting_ends [OF assms(1)]) simp
  then show ?thesis
    by (auto simp: finish_maintenance_exit_def run_rules time split: prod.splits option.splits sum.splits)
qed

text \<open>
  Leaving maintenance ends. The wait for the services has no bound on its rounds, only a deadline; with a clock that runs, 37 looks at the host
  are enough for a leave to return, whatever the host answers.
\<close>

theorem leaving_ends:
  assumes "clock_runs clock env" "37 \<le> n"
  shows "fst (run_state (leave_maintenance env task hostname target n) s) \<noteq> None"
  using finishing_ends [OF assms]
  by (auto simp: leave_maintenance_def Let_def run_rules split: prod.splits option.splits) (metis fst_conv option.distinct(1))

section \<open>A small cluster in maintenance\<close>

text \<open>
  Three hosts with a running clock as the hidden state. The guests' table answers \<open>guests\<close>, the hosts' table \<open>nodes\<close>, \<open>nodetool\<close> answers \<open>ring\<close>, and the tasks whose
  action is in \<open>works\<close> succeed.
\<close>

text \<open>A row of \<open>nodetool status\<close>, cut to its marker and its address.\<close>

definition ring_line :: "string \<Rightarrow> string" where
  "ring_line ip = ''UN '' @ ip @ [CHR 0x0A]"

definition whole_ring :: "int \<times> string \<times> string" where
  "whole_ring = (0, ring_line ''10.0.0.1'' @ ring_line ''10.0.0.2'' @ ring_line ''10.0.0.3'', [])"

definition three_vali :: "node_row list option \<Rightarrow> real vali_env" where
  "three_vali nodes =
     \<lparr>va_vm = (\<lambda>_ w. (None, w)), va_nodes = (\<lambda>w. (nodes, w)), va_node_ip = (\<lambda>_ w. (None, w)),
      va_hosts = (\<lambda>w. ([''10.0.0.1'', ''10.0.0.2'', ''10.0.0.3''], w)), va_status = (\<lambda>_ w. (Inr \<lparr>ns_maintenance = None, ns_services = []\<rparr>, w)),
      va_memory = (\<lambda>_ w. ((4096, 0), w)), va_vdisk_size = (\<lambda>_ w. (None, w)), va_capacity = (\<lambda>_ w. (None, w)),
      va_lwt = (\<lambda>_ _ w. (\<lparr>lr_ok = True, lr_applied = True, lr_current = [], lr_error = J_Str []\<rparr>, w)), va_api = (\<lambda>_ _ w. ((0, None, ''''), w)),
      va_full = (\<lambda>_ _ w. ((200, None, ''''), w)), va_spark = (\<lambda>_ _ w. ((0, '''', ''''), w)),
      va_xml = (\<lambda>_ _ _ w. (Inr [], w)), va_history = (\<lambda>_ _ _ _ w. ((), w)), va_pause = (\<lambda>d w. ((), w + d))\<rparr>"

definition three_hosts :: "guest_row list option \<Rightarrow> node_row list option \<Rightarrow> int \<times> string \<times> string \<Rightarrow> string list \<Rightarrow> real maint_env" where
  "three_hosts guests nodes ring works =
     \<lparr>mt_vali = three_vali nodes, mt_factor = (\<lambda>w. ((0, ''{'class': 'NetworkTopologyStrategy', 'dc1': '3'}''), w)), mt_ring = (\<lambda>w. (ring, w)),
      mt_guests = (\<lambda>w. (guests, w)), mt_submit = (\<lambda>_ action _ w. ((200, J_Dict [(''task_id'', J_Str action)]), w)),
      mt_poll = (\<lambda>action w. ((200, J_Dict [(''status'', J_Str (if action \<in> set works then ''completed'' else ''failed''))]), w)),
      mt_update = (\<lambda>_ _ _ w. ((), w)), mt_node = (\<lambda>_ _ _ w. ((), w)), mt_units = (\<lambda>_ _ _ w. (None, w)), mt_lock = (\<lambda>w. (None, w)),
      mt_host = (\<lambda>_ w. (Some \<lparr>hr_ip = Some ''10.0.0.1'', hr_status = Some ''NORMAL''\<rparr>, w)), mt_token = (\<lambda>w. (''t0'', w)), mt_time = (\<lambda>w. (w, w))\<rparr>"

definition one_guest :: "int option \<Rightarrow> guest_row list option" where
  "one_guest memory = Some [\<lparr>gr_name = ''web'', gr_host = Some ''10.0.0.1'', gr_state = Some ''Running'', gr_memory = memory\<rparr>]"

definition entry_of :: "real maint_env \<Rightarrow> bool \<Rightarrow> (bool \<times> string) \<times> mevent list" where
  "entry_of env force =
     (case run_state (enter_maintenance env (Some ''task'') (Some ''node1'') (Some ''10.0.0.1'') force ''t0'') (at_rest 0) of (r, s) \<Rightarrow> (r, trace s))"

theorem leaving_ends_witness:
  "fst (run_state (leave_maintenance (three_hosts None None whole_ring []) None (Some ''node1'') (Some ''10.0.0.1'') 40) (at_rest 0)) \<noteq> None"
  by (rule leaving_ends [of "\<lambda>w. w"]) (simp_all add: clock_runs_def three_hosts_def three_vali_def)

theorem the_gate_is_exact_witness:
  "let ring = parse_nodetool_status (fst (snd whole_ring))
   in length ring = 3 \<and> fst (evaluate_stop ring 3 ''10.0.0.1'')
      \<and> (\<forall>R. replica_set ring 3 R \<longrightarrow> quorum_of 3 \<le> int (card (R \<inter> (up_addresses ring - {''10.0.0.1''}))))"
proof -
  let ?ring = "parse_nodetool_status (fst (snd whole_ring))"
  have "distinct (map rm_address ?ring)" "length ?ring = 3" "fst (evaluate_stop ?ring 3 ''10.0.0.1'')" by code_simp+
  moreover have "''10.0.0.1'' \<in> rm_address ` set (filter rm_available ?ring)" by code_simp
  ultimately show ?thesis using the_gate_is_exact [of ?ring 3 "''10.0.0.1''"] by (simp add: Let_def up_addresses_def)
qed

text \<open>The tasks of a run with their success, and what it did to the host: its status, its services, the lock.\<close>

fun tasks_of :: "mevent list \<Rightarrow> (string \<times> (string \<times> jval) list \<times> bool) list" where
  "tasks_of [] = []"
| "tasks_of (M_Submit s a p ok # es) = (a, p, ok) # tasks_of es"
| "tasks_of (e # es) = tasks_of es"

fun host_of :: "mevent list \<Rightarrow> string list" where
  "host_of [] = []"
| "host_of (M_Node h status m # es) = status # host_of es"
| "host_of (M_Units ip action units ok # es) = action # host_of es"
| "host_of (M_Vali (V_Lwt path d a) # es) = path # host_of es"
| "host_of (e # es) = host_of es"

text \<open>With \<open>force_stop\<close>, a guest whose migration failed and whose stop failed as well does not keep the host from being stopped.\<close>

lemma a_failed_stop_is_ignored:
  "case entry_of (three_hosts (one_guest (Some 1024)) (Some [\<lparr>nr_ip = Some ''10.0.0.1'', nr_status = Some ''ENTERING_MAINTENANCE'', nr_maintenance = Some False\<rparr>]) whole_ring []) True of (r, es) \<Rightarrow>
     r = (True, ''10.0.0.1'') \<and> map (\<lambda>(a, _, ok). (a, ok)) (tasks_of es) = [(''migrate'', False), (''stop'', False)]
     \<and> host_of es = [''/v1/lock/renew'', ''IN_MAINTENANCE'', ''/v1/lock/renew'', ''stop'']"
  by code_simp

text \<open>A failed read of the guests' table is taken for a host without guests: its services are stopped under the guests that run there.\<close>

lemma unread_guests_are_left_behind:
  "case entry_of (three_hosts None (Some []) whole_ring [''migrate'']) False of (r, es) \<Rightarrow>
     r = (True, ''10.0.0.1'') \<and> tasks_of es = [] \<and> host_of es = [''IN_MAINTENANCE'', ''/v1/lock/renew'', ''stop'']"
  by code_simp

text \<open>A guest without a memory size makes the entry fail with an exception that leaves the host as it is, and the lock held.\<close>

lemma an_exception_keeps_the_lock:
  "case entry_of (three_hosts (one_guest None) (Some []) whole_ring [''migrate'']) False of (r, es) \<Rightarrow> \<not> fst r \<and> host_of es = []"
  by code_simp

text \<open>When the hosts' table cannot be read, the host that is being emptied is chosen as the target of its own guest.\<close>

lemma a_host_is_evacuated_to_itself:
  "case entry_of (three_hosts (one_guest (Some 1024)) None whole_ring [''migrate'']) False of (r, es) \<Rightarrow>
     r = (True, ''10.0.0.1'') \<and> tasks_of es =
       [(''migrate'', [(''vm_name'', J_Str ''web''), (''target_host'', J_Str ''10.0.0.1''), (''parent_task_id'', J_Str ''task'')], True)]"
  by code_simp

text \<open>A \<open>nodetool\<close> that fails and prints only blanks passes as a ring that the host is not a member of.\<close>

lemma a_blank_error_opens_the_gate:
  "case entry_of (three_hosts (Some []) (Some []) (1, [], [CHR 0x0A]) []) False of (r, es) \<Rightarrow>
     r = (True, ''10.0.0.1'') \<and> M_Gate ''10.0.0.1'' (Some 3) (Inl []) True \<in> set es"
  by code_simp

end
