(* ===== verification/Md5.thy ===== *)
theory Md5
  imports Sha256
begin

text \<open>
  MD5 as \<open>hashlib.md5(text.encode()).hexdigest()\<close> computes it, for the hardware address that \<open>src/vali.py\<close> derives from the name of a guest. Its padding and
  its words are those of SHA-256 with the bytes of a number the other way round.
\<close>

unbundle bit_operations_syntax

type_synonym md5_state = "w32 \<times> w32 \<times> w32 \<times> w32"

definition md5_constants :: "w32 list" where
  "md5_constants =
    [3614090360, 3905402710, 606105819, 3250441966, 4118548399, 1200080426,
     2821735955, 4249261313, 1770035416, 2336552879, 4294925233, 2304563134,
     1804603682, 4254626195, 2792965006, 1236535329, 4129170786, 3225465664,
     643717713, 3921069994, 3593408605, 38016083, 3634488961, 3889429448,
     568446438, 3275163606, 4107603335, 1163531501, 2850285829, 4243563512,
     1735328473, 2368359562, 4294588738, 2272392833, 1839030562, 4259657740,
     2763975236, 1272893353, 4139469664, 3200236656, 681279174, 3936430074,
     3572445317, 76029189, 3654602809, 3873151461, 530742520, 3299628645,
     4096336452, 1126891415, 2878612391, 4237533241, 1700485571, 2399980690,
     4293915773, 2240044497, 1873313359, 4264355552, 2734768916, 1309151649,
     4149444226, 3174756917, 718787259, 3951481745]"

definition md5_shifts :: "nat list" where
  "md5_shifts = concat (map (\<lambda>r. concat (replicate 4 r)) [[7, 12, 17, 22], [5, 9, 14, 20], [4, 11, 16, 23], [6, 10, 15, 21]])"

definition rotl :: "nat \<Rightarrow> w32 \<Rightarrow> w32" where
  "rotl n w = (push_bit n w OR drop_bit (32 - n) w)"

definition md5_round :: "w32 list \<Rightarrow> md5_state \<Rightarrow> nat \<Rightarrow> md5_state" where
  "md5_round block s i = (case s of (a, b, c, d) \<Rightarrow>
     let (f, g) = (if i < 16 then ((b AND c) OR (NOT b AND d), i)
                   else if i < 32 then ((d AND b) OR (NOT d AND c), (5 * i + 1) mod 16)
                   else if i < 48 then (b XOR c XOR d, (3 * i + 5) mod 16)
                   else (c XOR (b OR NOT d), 7 * i mod 16))
     in (d, b + rotl (md5_shifts ! i) (a + f + md5_constants ! i + block ! g), b, c))"

definition md5_compress :: "md5_state \<Rightarrow> w32 list \<Rightarrow> md5_state" where
  "md5_compress s block =
     (case (s, foldl (md5_round block) s [0..<64]) of ((a, b, c, d), (a', b', c', d')) \<Rightarrow> (a + a', b + b', c + c', d + d'))"

definition md5_pad :: "nat list \<Rightarrow> nat list" where
  "md5_pad bs = bs @ [128] @ replicate ((119 - length bs mod 64) mod 64) 0 @ rev (bytes_be 8 (8 * length bs))"

fun words_le :: "nat list \<Rightarrow> w32 list" where
  "words_le (a # b # c # d # rest) = word_of_nat (d * 16777216 + c * 65536 + b * 256 + a) # words_le rest"
| "words_le _ = []"

definition hex_word_le :: "w32 \<Rightarrow> string" where
  "hex_word_le w = concat (map hex_byte (rev (bytes_be 4 (unat w))))"

definition md5_hex :: "string \<Rightarrow> string" where
  "md5_hex s =
     (case foldl md5_compress (1732584193, 4023233417, 2562383102, 271733878) (blocks (words_le (md5_pad (map of_char s)))) of
        (a, b, c, d) \<Rightarrow> concat (map hex_word_le [a, b, c, d]))"

lemma length_md5_hex: "length (md5_hex s) = 32"
  by (simp add: md5_hex_def hex_word_le_def length_concat_hex split: prod.split)

end
