(* ===== verification/Json_Read.thy ===== *)
theory Json_Read
  imports Json
begin

text \<open>
  \<open>json.loads\<close> for texts without fractions and exponents, which have no place among the values here: a text that holds one is refused, as is one with a
  character beyond the eight bits of a \<^typ>\<open>char\<close>. The reader takes fuel for its nesting; twice the length of the text is enough, which the round trip with
  \<^const>\<open>dumps\<close> shows for everything that is printed.
\<close>

definition json_ws :: "char \<Rightarrow> bool" where
  "json_ws c = (let n = (of_char c :: nat) in n = 32 \<or> n = 9 \<or> n = 10 \<or> n = 13)"

definition skip_ws :: "string \<Rightarrow> string" where
  "skip_ws = dropWhile json_ws"

definition hex_val :: "char \<Rightarrow> nat option" where
  "hex_val c =
     (let n = (of_char c :: nat) in
      if 48 \<le> n \<and> n \<le> 57 then Some (n - 48) else if 97 \<le> n \<and> n \<le> 102 then Some (n - 87) else if 65 \<le> n \<and> n \<le> 70 then Some (n - 55) else None)"

text \<open>The character after a backslash, and what follows it.\<close>

definition unescape :: "string \<Rightarrow> (char \<times> string) option" where
  "unescape s = (case s of
     [] \<Rightarrow> None
   | e # r \<Rightarrow>
       if e = CHR 0x22 \<or> e = CHR 0x5C \<or> e = CHR ''/'' then Some (e, r)
       else if e = CHR ''n'' then Some (CHR 0x0A, r) else if e = CHR ''r'' then Some (CHR 0x0D, r)
       else if e = CHR ''t'' then Some (CHR 0x09, r) else if e = CHR ''b'' then Some (CHR 0x08, r)
       else if e = CHR ''f'' then Some (CHR 0x0C, r)
       else if e = CHR ''u'' then
         (case map hex_val (take 4 r) of
            [Some a, Some b, Some c, Some d] \<Rightarrow> if a = 0 \<and> b = 0 then Some (char_of (16 * c + d), drop 4 r) else None
          | _ \<Rightarrow> None)
       else None)"

lemma unescape_shorter: "unescape s = Some (c, r) \<Longrightarrow> length r < length s"
  by (auto simp: unescape_def split: list.splits if_splits option.splits)

text \<open>A string from behind its opening quote.\<close>

function read_string :: "string \<Rightarrow> (string \<times> string) option" where
  "read_string s = (case s of
     [] \<Rightarrow> None
   | c # r \<Rightarrow>
       if c = CHR 0x22 then Some ([], r)
       else if c = CHR 0x5C then (case unescape r of None \<Rightarrow> None | Some (d, r') \<Rightarrow> map_option (apfst ((#) d)) (read_string r'))
       else if of_char c < (32 :: nat) then None
       else map_option (apfst ((#) c)) (read_string r))"
  by pat_completeness auto
termination by (relation "measure length") (auto dest: unescape_shorter)

declare read_string.simps [simp del]

definition signed_number :: "bool \<Rightarrow> string \<Rightarrow> (jval \<times> string) option" where
  "signed_number neg t =
     (let ds = takeWhile is_digit t; ds' = (if take 1 ds = ''0'' then ''0'' else ds); rest = drop (length ds') t
      in if ds = [] \<or> take 1 rest \<in> {''.'', ''e'', ''E''} then None
         else Some (J_Num (if neg then - int (read_nat ds') else int (read_nat ds')), rest))"

definition read_number :: "string \<Rightarrow> (jval \<times> string) option" where
  "read_number s = (if take 1 s = ''-'' then signed_number True (drop 1 s) else signed_number False s)"

fun read_value :: "nat \<Rightarrow> string \<Rightarrow> (jval \<times> string) option"
  and read_items :: "nat \<Rightarrow> string \<Rightarrow> (jval list \<times> string) option"
  and read_members :: "nat \<Rightarrow> string \<Rightarrow> ((string \<times> jval) list \<times> string) option" where
  "read_value 0 s = None"
| "read_value (Suc n) s =
     (if starts_with s [CHR 0x22] then map_option (apfst J_Str) (read_string (drop 1 s))
      else if starts_with s ''['' then
        (let r = skip_ws (drop 1 s) in if starts_with r '']'' then Some (J_List [], drop 1 r) else map_option (apfst J_List) (read_items n r))
      else if starts_with s ''{'' then
        (let r = skip_ws (drop 1 s)
         in if starts_with r ''}'' then Some (J_Dict [], drop 1 r) else map_option (apfst (\<lambda>kvs. J_Dict (dict_update [] kvs))) (read_members n r))
      else if starts_with s ''null'' then Some (J_Null, drop 4 s)
      else if starts_with s ''true'' then Some (J_Bool True, drop 4 s)
      else if starts_with s ''false'' then Some (J_Bool False, drop 5 s)
      else read_number s)"
| "read_items 0 s = None"
| "read_items (Suc n) s = (case read_value n s of
     None \<Rightarrow> None
   | Some (v, r) \<Rightarrow>
       let t = skip_ws r
       in if starts_with t '']'' then Some ([v], drop 1 t)
          else if starts_with t '','' then map_option (apfst ((#) v)) (read_items n (skip_ws (drop 1 t)))
          else None)"
| "read_members 0 s = None"
| "read_members (Suc n) s =
     (if \<not> starts_with s [CHR 0x22] then None
      else case read_string (drop 1 s) of
        None \<Rightarrow> None
      | Some (k, r) \<Rightarrow>
          if \<not> starts_with (skip_ws r) '':'' then None
          else case read_value n (skip_ws (drop 1 (skip_ws r))) of
            None \<Rightarrow> None
          | Some (v, r') \<Rightarrow>
              let t = skip_ws r'
              in if starts_with t ''}'' then Some ([(k, v)], drop 1 t)
                 else if starts_with t '','' then map_option (apfst ((#) (k, v))) (read_members n (skip_ws (drop 1 t)))
                 else None)"

definition loads :: "string \<Rightarrow> jval option" where
  "loads s = (case read_value (Suc (2 * length s)) (skip_ws s) of
     None \<Rightarrow> None
   | Some (v, r) \<Rightarrow> if skip_ws r = [] then Some v else None)"

section \<open>What is printed is read back\<close>

lemma hex_val_char: "n < 16 \<Longrightarrow> hex_val (hex_char n) = Some n"
  by (auto simp: hex_val_def hex_char_def Let_def)

lemma unescape_hex: "n < 256 \<Longrightarrow> unescape (''u00'' @ hex_char (n div 16) # hex_char (n mod 16) # r) = Some (char_of n, r)"
proof -
  assume "n < 256"
  then have "n div 16 < 16" "n mod 16 < 16" by auto
  moreover have "hex_val (CHR ''0'') = Some 0" by code_simp
  ultimately show ?thesis by (simp add: unescape_def hex_val_char)
qed

lemma read_escape:
  "unescape (e # r) = Some (c, r') \<Longrightarrow> read_string (CHR 0x5C # e # r) = map_option (apfst ((#) c)) (read_string r')"
  by (subst read_string.simps) simp

lemma read_string_char: "read_string (json_char c @ s) = map_option (apfst ((#) c)) (read_string s)"
proof -
  let ?n = "of_char c :: nat"
  consider "?n \<in> {34, 92, 10, 13, 9, 8, 12}" | "?n \<notin> {34, 92, 10, 13, 9, 8, 12}" "?n < 32 \<or> 126 < ?n"
    | "?n \<notin> {34, 92}" "32 \<le> ?n" "?n \<le> 126" by fastforce
  then show ?thesis
  proof cases
    case 1
    then have "c \<in> set [CHR 0x22, CHR 0x5C, CHR 0x0A, CHR 0x0D, CHR 0x09, CHR 0x08, CHR 0x0C]" by (auto simp: char_eq_code)
    then show ?thesis by (auto simp: json_char_def intro!: read_escape simp: unescape_def)
  next
    case 2
    have "?n < 256" using of_char_mod_256 [of c, where ?'a = nat] by (metis mod_less_divisor zero_less_numeral)
    with 2 show ?thesis using read_escape [OF unescape_hex [of ?n s, simplified]] by (auto simp: json_char_def Let_def)
  next
    case 3
    then have "c \<noteq> CHR 0x22" "c \<noteq> CHR 0x5C" by auto
    with 3 show ?thesis by (simp add: json_char_def Let_def read_string.simps [of "c # s"])
  qed
qed

lemma read_string_back: "read_string (concat (map json_char s) @ CHR 0x22 # r) = Some (s, r)"
proof (induction s)
  case Nil
  then show ?case by (simp add: read_string.simps)
qed (simp add: read_string_char)

lemma leading_zero: "take 1 (show_nat n) = ''0'' \<Longrightarrow> n = 0"
proof (induction n rule: show_nat.induct)
  case (1 n)
  then show ?case
  proof (cases "n < 10")
    case True
    with 1 show ?thesis by (subst (asm) show_nat.simps) (auto simp: digit_char_def char_eq_code)
  next
    case False
    then have "show_nat n = show_nat (n div 10) @ [digit_char (n mod 10)]" by (subst show_nat.simps) simp
    with 1 False have "n div 10 = 0" by (cases "show_nat (n div 10)") auto
    with False show ?thesis by simp
  qed
qed

text \<open>What may follow a value.\<close>

definition after_value :: "string \<Rightarrow> bool" where
  "after_value r \<longleftrightarrow> r = [] \<or> hd r \<in> {CHR '','', CHR '']'', CHR ''}''}"

lemma read_nat_back:
  assumes "after_value r"
  shows "takeWhile is_digit (show_nat n @ r) = show_nat n" "take 1 r \<notin> {''.'', ''e'', ''E''}"
proof -
  have "takeWhile is_digit r = []" using assms by (cases r) (auto simp: after_value_def is_digit_def)
  then show "takeWhile is_digit (show_nat n @ r) = show_nat n"
    using show_nat_digits [of n] by (simp add: takeWhile_append2)
  show "take 1 r \<notin> {''.'', ''e'', ''E''}" using assms by (cases r) (auto simp: after_value_def)
qed

lemma signed_number_back:
  assumes "after_value r"
  shows "signed_number neg (show_nat n @ r) = Some (J_Num (if neg then - int n else int n), r)"
proof -
  have zero: "(if take 1 (show_nat n) = ''0'' then ''0'' else show_nat n) = show_nat n"
    using leading_zero [of n] by (auto simp: show_nat.simps [of 0] digit_char_def)
  show ?thesis using read_nat_back(2) [OF assms] unfolding signed_number_def Let_def read_nat_back(1) [OF assms] zero by simp
qed

lemma read_number_back: "after_value r \<Longrightarrow> read_number (show_int i @ r) = Some (J_Num i, r)"
proof -
  assume r: "after_value r"
  have "take 1 (show_nat n @ r) \<noteq> ''-''" for n using show_nat_no_minus [of n] by (cases "show_nat n") auto
  then show ?thesis by (simp add: read_number_def show_int_def signed_number_back [OF r])
qed

text \<open>The values that a dictionary of Python can hold: no key twice.\<close>

fun proper :: "jval \<Rightarrow> bool" where
  "proper (J_List xs) = list_all proper xs"
| "proper (J_Dict d) = (distinct (map fst d) \<and> list_all (\<lambda>kv. proper (snd kv)) d)"
| "proper v = True"

lemma dict_update_distinct: "distinct (map fst d) \<Longrightarrow> dict_update [] d = d"
proof -
  have "dict_update e d = e @ d" if "distinct (map fst (e @ d))" for e
    using that
  proof (induction d arbitrary: e)
    case (Cons kv d)
    have "dict_set (fst kv) (snd kv) e = e @ [kv]" using Cons.prems by (induction e) auto
    with Cons.IH [of "e @ [kv]"] Cons.prems show ?case by (simp add: dict_update_def split_beta)
  qed (simp add: dict_update_def)
  from this [of "[]"] show "distinct (map fst d) \<Longrightarrow> ?thesis" by simp
qed

text \<open>What is printed starts with something that is no blank, and no closing bracket.\<close>

lemma dumps_head: "\<exists>c t. dumps v = c # t \<and> \<not> json_ws c \<and> c \<noteq> CHR '']''"
proof (cases v)
  case (J_Num i)
  have "\<exists>c t. show_nat n = c # t \<and> \<not> json_ws c \<and> c \<noteq> CHR '']''" for n
    using show_nat_digits [of n] by (cases "show_nat n") (auto simp: is_digit_def json_ws_def Let_def)
  then show ?thesis unfolding J_Num by (auto simp: show_int_def json_ws_def)
qed (auto simp: json_str_def json_ws_def)

lemma skip_dumps: "skip_ws (dumps v @ r) = dumps v @ r" "skip_ws (CHR '' '' # dumps v @ r) = dumps v @ r"
  using dumps_head [of v] by (auto simp: skip_ws_def json_ws_def)

lemma skip_str: "skip_ws (json_str k @ r) = json_str k @ r" "skip_ws (CHR '' '' # json_str k @ r) = json_str k @ r"
  by (simp_all add: skip_ws_def json_ws_def json_str_def)

lemma skip_marks: "skip_ws (CHR '','' # r) = CHR '','' # r" "skip_ws (CHR '']'' # r) = CHR '']'' # r"
  "skip_ws (CHR ''}'' # r) = CHR ''}'' # r" "skip_ws (CHR '':'' # r) = CHR '':'' # r"
  by (simp_all add: skip_ws_def json_ws_def)

definition reads_back :: "jval \<Rightarrow> bool" where
  "reads_back v \<longleftrightarrow> (\<forall>n r. after_value r \<longrightarrow> 2 * length (dumps v) < n \<longrightarrow> read_value n (dumps v @ r) = Some (v, r))"

lemma reads_backD: "reads_back v \<Longrightarrow> after_value r \<Longrightarrow> 2 * length (dumps v) < n \<Longrightarrow> read_value n (dumps v @ r) = Some (v, r)"
  by (simp add: reads_back_def)

lemma reads_backI: "(\<And>m r. after_value r \<Longrightarrow> read_value (Suc m) (dumps v @ r) = Some (v, r)) \<Longrightarrow> reads_back v"
  unfolding reads_back_def by (metis less_imp_Suc_add)

lemma read_items_back:
  assumes "xs \<noteq> []" "list_all reads_back xs" "2 * length (join '', '' (map dumps xs)) + 1 < n"
  shows "read_items n (join '', '' (map dumps xs) @ CHR '']'' # r) = Some (xs, r)"
  using assms
proof (induction xs arbitrary: n rule: induct_list012)
  case (2 x)
  then obtain m where n: "n = Suc m" by (cases n) auto
  with 2 reads_backD [of x "CHR '']'' # r" m] show ?case by (simp add: after_value_def skip_marks)
next
  case (3 x y zs)
  let ?t = "join '', '' (map dumps (y # zs)) @ CHR '']'' # r"
  from 3 obtain m where n: "n = Suc m" by (cases n) auto
  have "read_value m (dumps x @ '', '' @ ?t) = Some (x, '', '' @ ?t)"
    using reads_backD [of x "'', '' @ ?t" m] 3 by (simp add: n after_value_def)
  moreover have "skip_ws (CHR '' '' # ?t) = ?t"
    using skip_dumps(2) [of y] by (cases zs) simp_all
  moreover have "read_items m ?t = Some (y # zs, r)" using 3 by (intro 3) (simp_all add: n)
  ultimately show ?case by (simp add: n skip_marks)
qed simp

lemma read_members_back:
  assumes "d \<noteq> []" "list_all (\<lambda>kv. reads_back (snd kv)) d" "2 * length (join '', '' (map (\<lambda>(k, v). json_str k @ '': '' @ dumps v) d)) + 1 < n"
  shows "read_members n (join '', '' (map (\<lambda>(k, v). json_str k @ '': '' @ dumps v) d) @ CHR ''}'' # r) = Some (d, r)"
  using assms
proof (induction d arbitrary: n rule: induct_list012)
  case (2 x)
  obtain k v where x: "x = (k, v)" by fastforce
  from 2 obtain m where n: "n = Suc m" by (cases n) auto
  with 2 reads_backD [of v "CHR ''}'' # r" m] show ?case
    by (simp add: x after_value_def skip_marks json_str_def read_string_back skip_dumps)
next
  case (3 x y zs)
  obtain k v k' v' where x: "x = (k, v)" "y = (k', v')" by fastforce
  let ?t = "join '', '' (map (\<lambda>(k, v). json_str k @ '': '' @ dumps v) (y # zs)) @ CHR ''}'' # r"
  from 3 obtain m where n: "n = Suc m" by (cases n) auto
  have "read_value m (dumps v @ '', '' @ ?t) = Some (v, '', '' @ ?t)"
    using reads_backD [of v "'', '' @ ?t" m] 3 by (simp add: n x after_value_def)
  moreover have "skip_ws (CHR '' '' # ?t) = ?t"
    using skip_str(2) [of k'] by (cases zs) (simp_all add: x)
  moreover have "read_members m ?t = Some (y # zs, r)" using 3 by (intro 3) (simp_all add: n)
  moreover have "skip_ws (CHR '' '' # dumps v @ CHR '','' # CHR '' '' # ?t) = dumps v @ CHR '','' # CHR '' '' # ?t" by (rule skip_dumps)
  ultimately show ?case by (simp add: n x skip_marks json_str_def read_string_back)
qed simp

lemma items_head: "xs \<noteq> [] \<Longrightarrow> \<exists>c t. join '', '' (map dumps xs) @ q = c # t \<and> \<not> json_ws c \<and> c \<noteq> CHR '']''"
proof (cases xs)
  case (Cons x ys)
  then show ?thesis using dumps_head [of x] by (cases ys) auto
qed simp

lemma members_head: "d \<noteq> [] \<Longrightarrow> \<exists>t. join '', '' (map (\<lambda>(k, v). json_str k @ '': '' @ dumps v) d) @ q = CHR 0x22 # t"
proof (cases d)
  case (Cons x ys)
  then show ?thesis by (cases ys) (auto simp: json_str_def split_beta)
qed simp

lemma read_value_back: "proper v \<Longrightarrow> reads_back v"
proof (induction v)
  case (J_Num i)
  have "\<exists>c t. show_int i = c # t \<and> (is_digit c \<or> c = CHR ''-'')"
    using show_nat_digits [of "nat i"] by (cases "show_nat (nat i)") (auto simp: show_int_def)
  then obtain c t where s: "show_int i = c # t" "is_digit c \<or> c = CHR ''-''" by blast
  then have "c \<notin> {CHR 0x22, CHR ''['', CHR ''{'', CHR ''n'', CHR ''t'', CHR ''f''}" by (auto simp: is_digit_def)
  then have "read_value (Suc n) (show_int i @ r) = read_number (show_int i @ r)" for n r by (simp add: s)
  then show ?case using read_number_back by (auto intro!: reads_backI)
next
  case (J_List xs)
  then have xs: "list_all reads_back xs" by (auto simp: list_all_iff)
  show ?case
  proof (cases "xs = []")
    case False
    have "read_value n (dumps (J_List xs) @ r) = Some (J_List xs, r)" if len: "2 * length (dumps (J_List xs)) < n" for n r
    proof -
      obtain m where n: "n = Suc m" using len by (cases n) auto
      let ?t = "join '', '' (map dumps xs) @ CHR '']'' # r"
      obtain c t where "?t = c # t" "\<not> json_ws c" "c \<noteq> CHR '']''" using items_head [OF False] by blast
      then have "skip_ws ?t = ?t" "\<not> starts_with ?t '']''" by (simp_all add: skip_ws_def)
      with read_items_back [OF False xs, of m r] len show ?thesis by (simp add: n)
    qed
    then show ?thesis by (simp add: reads_back_def)
  qed (auto intro!: reads_backI simp: skip_marks)
next
  case (J_Dict d)
  then have d: "list_all (\<lambda>kv. reads_back (snd kv)) d" "dict_update [] d = d" by (fastforce simp: list_all_iff, simp add: dict_update_distinct)
  show ?case
  proof (cases "d = []")
    case False
    have "read_value n (dumps (J_Dict d) @ r) = Some (J_Dict d, r)" if len: "2 * length (dumps (J_Dict d)) < n" for n r
    proof -
      obtain m where n: "n = Suc m" using len by (cases n) auto
      let ?t = "join '', '' (map (\<lambda>(k, v). json_str k @ '': '' @ dumps v) d) @ CHR ''}'' # r"
      obtain t where "?t = CHR 0x22 # t" using members_head [OF False] by blast
      then have "skip_ws ?t = ?t" "\<not> starts_with ?t ''}''" by (simp_all add: skip_ws_def json_ws_def)
      with read_members_back [OF False d(1), of m r] len d(2) show ?thesis by (simp add: n)
    qed
    then show ?thesis by (simp add: reads_back_def)
  qed (auto intro!: reads_backI simp: skip_marks)
qed (auto intro!: reads_backI simp: json_str_def read_string_back)

lemma loads_dumps: "proper v \<Longrightarrow> loads (dumps v) = Some v"
  using reads_backD [OF read_value_back, of v "[]" "Suc (2 * length (dumps v))"] skip_dumps(1) [of v "[]"]
  by (simp add: loads_def after_value_def skip_ws_def)

end
