(* ===== verification/Vali_Live.thy ===== *)
theory Vali_Live
  imports Vali Md5 Json_Read
begin

text \<open>
  Changes to a guest that runs (\<open>run_live_change\<close> and what it calls in \<open>src/vali.py\<close>): virtual processors, the memory balloon, CD-ROMs, network interfaces and
  disks. The host applies a change (\<open>post_live_change\<close>, its other side is \<open>Spark_Live\<close>), Sidon makes, grows and removes the disks, and the guest's row follows.
\<close>

section \<open>What a row stores\<close>

definition live_change_ops :: "string list" where
  "live_change_ops = [''vcpus'', ''memory'', ''cdrom'', ''nic'', ''disk'']"

definition live_letter :: "nat \<Rightarrow> string" where
  "live_letter i = [''abcdefghijklmnopqrstuvwxyz'' ! i]"

definition vm_nic_mac :: "string \<Rightarrow> nat \<Rightarrow> string" where
  "vm_nic_mac vm_name index =
     (let h = md5_hex (vm_name @ ''_nic_'' @ show_nat index)
      in ''52:54:00:'' @ take 2 h @ '':'' @ take 2 (drop 2 h) @ '':'' @ take 2 (drop 4 h))"

definition default_network :: string where
  "default_network = ''7a68e0d6-11f8-4e89-9430-b3b44b8bc438''"

definition vm_nic_entries :: "jval option \<Rightarrow> string list" where
  "vm_nic_entries network_id =
     (let raw = strip (text_or network_id [])
      in if raw = [] then [default_network]
         else if starts_with raw ''['' then (case loads raw of Some (J_List xs) \<Rightarrow> map jval_text xs | _ \<Rightarrow> [raw])
         else [raw])"

text \<open>On the left why no interface can be attached.\<close>

definition network_bridge :: "(string \<times> jval) list option \<Rightarrow> string + string" where
  "network_bridge net =
     (let get = (\<lambda>k. case map_of (case net of None \<Rightarrow> [] | Some d \<Rightarrow> d) k of Some J_Null \<Rightarrow> None | v \<Rightarrow> v)
      in if net = None \<or> net = Some [] then Inl ''that network does not exist''
         else if get ''type'' = Some (J_Str ''vlan'') \<and> get ''vlan_id'' \<noteq> None then Inr (''br-vlan-'' @ jval_text (the (get ''vlan_id'')))
         else if get ''type'' = Some (J_Str ''overlay'') \<and> get ''vni'' \<noteq> None then Inr (''br-ov-'' @ jval_text (the (get ''vni'')))
         else Inl ''a direct (macvtap) network cannot be attached to a running VM; stop the VM, edit it and start it again'')"

definition vm_disk_entries :: "string option \<Rightarrow> string list" where
  "vm_disk_entries disks_list =
     (if \<not> truthy_str disks_list \<or> disks_list = Some ''NONE'' then [] else filter (\<lambda>e. e \<noteq> []) (split_on (CHR '','') (the disks_list)))"

definition entry_size_gib :: "string \<Rightarrow> int option" where
  "entry_size_gib entry =
     (let t = dropWhile is_ws (hd (split_on (CHR '':'') entry));
          ds = takeWhile is_digit t;
          unit = dropWhile is_ws (dropWhile is_digit t)
      in if ds = [] then None
         else Some (if starts_with (upper unit) ''T'' then int (read_nat ds) * 1024 else int (read_nat ds)))"

definition default_container :: string where "default_container = ''default-pool''"

text \<open>\<open>cql_int\<close> of \<open>src/helios_cql.py\<close>; \<open>trunc\<close> is \<open>int(float(text))\<close>, \<^const>\<open>None\<close> when it raises.\<close>

definition cql_int :: "(string \<Rightarrow> int option) \<Rightarrow> jval \<Rightarrow> int" where
  "cql_int trunc v = (case v of
     J_Num n \<Rightarrow> n
   | J_Bool b \<Rightarrow> if b then 1 else 0
   | J_Str s \<Rightarrow> (case int_of_text s of Some n \<Rightarrow> n | None \<Rightarrow> (case trunc (strip s) of Some n \<Rightarrow> n | None \<Rightarrow> 0))
   | _ \<Rightarrow> 0)"

section \<open>The environment\<close>

text \<open>
  \<open>lv_post\<close> is the call to the host with its status, answer and error; \<open>lv_write\<close> executes a statement, with its return code and error; \<open>lv_find\<close>
  gives the first row of a query.
\<close>

record 'w live_env =
  lv_vali :: "'w vali_env"
  lv_post :: "string \<Rightarrow> string \<Rightarrow> (string \<times> jval) list \<Rightarrow> 'w \<Rightarrow> (int \<times> jval option \<times> string) \<times> 'w"
  lv_write :: "string \<Rightarrow> 'w \<Rightarrow> (int \<times> string) \<times> 'w"
  lv_find :: "string \<Rightarrow> 'w \<Rightarrow> (string \<times> jval) list option \<times> 'w"
  lv_trunc :: "string \<Rightarrow> int option"

datatype levent =
    L_Vali vevent
  | L_Post string "(string \<times> jval) list" bool
  | L_Row "(string \<times> jval) list" bool
  | L_Find string

text \<open>A step of Sidon on the guest's host.\<close>

definition storage :: "'w live_env \<Rightarrow> string \<Rightarrow> sidon_call \<Rightarrow> ('w, levent, bool \<times> string) eff" where
  "storage env host c = do {
     (ok, _, detail) \<leftarrow> inside L_Vali (sidon_op (lv_vali env) host c);
     ret (ok, detail) }"

definition post_live_change :: "'w live_env \<Rightarrow> string \<Rightarrow> string \<Rightarrow> (string \<times> jval) list \<Rightarrow> ('w, levent, string option) eff" where
  "post_live_change env host vm_name body = do {
     (status, answer, err) \<leftarrow> act (lv_post env host vm_name body) (\<lambda>r. L_Post host body (fst r = 200));
     ret (if status = 200 then None
          else Some (text_or (case answer of Some (J_Dict d) \<Rightarrow> map_of d ''error'' | _ \<Rightarrow> None)
                       (py_or err (''spark-daemon answered '' @ show_int status)))) }"

definition assignment :: "(string \<Rightarrow> int option) \<Rightarrow> string \<times> jval \<Rightarrow> string" where
  "assignment trunc kv =
     (case kv of (key, v) \<Rightarrow>
        if key \<in> {''vcpu'', ''memory'', ''disk_size''} then key @ '' = '' @ show_int (cql_int trunc v)
        else key @ '' = '' @ quoted (cql_escape (case v of J_Null \<Rightarrow> None | _ \<Rightarrow> Some (jval_text v))))"

definition row_statement :: "(string \<Rightarrow> int option) \<Rightarrow> string \<Rightarrow> (string \<times> jval) list \<Rightarrow> string" where
  "row_statement trunc vm_name columns =
     ''UPDATE hydra.vms SET '' @ join '', '' (map (assignment trunc) columns) @ '' WHERE name = '' @ quoted (cql_escape (Some vm_name)) @ '';''"

text \<open>\<open>_set_row\<close>: the error when the statement failed.\<close>

definition set_row :: "'w live_env \<Rightarrow> string \<Rightarrow> (string \<times> jval) list \<Rightarrow> ('w, levent, string option) eff" where
  "set_row env vm_name columns = do {
     (rc, err) \<leftarrow> act (lv_write env (row_statement (lv_trunc env) vm_name columns)) (\<lambda>r. L_Row columns (fst r = 0));
     ret (if rc = 0 then None else Some err) }"

definition unrecorded :: "string option \<Rightarrow> string" where
  "unrecorded bad = (case bad of None \<Rightarrow> [] | Some err \<Rightarrow> '' (live; its record could not be updated: '' @ err @ '')'')"

definition network_statement :: "string \<Rightarrow> string \<Rightarrow> string \<Rightarrow> string" where
  "network_statement table key net_id = ''SELECT JSON * FROM '' @ table @ '' WHERE '' @ key @ '' = '' @ net_id @ '';''"

definition strip_quotes :: "string \<Rightarrow> string" where
  "strip_quotes s = (let q = (\<lambda>c. c = CHR 0x27 \<or> c = CHR 0x22) in rev (dropWhile q (rev (dropWhile q s))))"

definition find_row :: "'w live_env \<Rightarrow> string \<Rightarrow> ('w, levent, (string \<times> jval) list option) eff" where
  "find_row env st = act (lv_find env st) (\<lambda>_. L_Find st)"

definition get_network_by_id :: "'w live_env \<Rightarrow> string \<Rightarrow> ('w, levent, (string \<times> jval) list option) eff" where
  "get_network_by_id env net_id =
     (if net_id = [] then ret None
      else do {
        let clean = strip_quotes net_id;
        net \<leftarrow> find_row env (network_statement ''hydra.gatoway_networks'' ''net_id'' clean);
        case net of
          Some d \<Rightarrow> ret (Some d)
        | None \<Rightarrow> do {
            seg \<leftarrow> find_row env (network_statement ''hydra.urbosa_segments'' ''segment_id'' clean);
            ret (map_option (\<lambda>d.
              [(''net_id'', J_Str (case map_of d ''segment_id'' of Some v \<Rightarrow> jval_text v | None \<Rightarrow> clean)),
               (''name'', case map_of d ''name'' of Some v \<Rightarrow> v | None \<Rightarrow> J_Str []), (''type'', J_Str ''overlay''),
               (''vni'', case map_of d ''vni'' of Some v \<Rightarrow> v | None \<Rightarrow> J_Null),
               (''subnet_cidr'', case map_of d ''subnet_cidr'' of Some v \<Rightarrow> v | None \<Rightarrow> J_Str [])]) seg) } })"

section \<open>The changes\<close>

definition arg :: "(string \<times> jval) list \<Rightarrow> string \<Rightarrow> jval" where
  "arg payload k = (case map_of payload k of Some v \<Rightarrow> v | None \<Rightarrow> J_Null)"

definition live_vcpus :: "'w live_env \<Rightarrow> string \<Rightarrow> string \<Rightarrow> (string \<times> jval) list \<Rightarrow> ('w, levent, bool \<times> string) eff" where
  "live_vcpus env vm_name host payload = do {
     let n = arg payload ''count'';
     refused \<leftarrow> post_live_change env host vm_name [(''op'', J_Str ''vcpus''), (''count'', n)];
     case refused of
       Some e \<Rightarrow> ret (False, e)
     | None \<Rightarrow> do {
         bad \<leftarrow> set_row env vm_name [(''vcpu'', n)];
         ret (True, vm_name @ '' now has '' @ jval_text n @ '' vCPUs'' @ unrecorded bad) } }"

definition live_memory :: "'w live_env \<Rightarrow> string \<Rightarrow> string \<Rightarrow> (string \<times> jval) list \<Rightarrow> ('w, levent, bool \<times> string) eff" where
  "live_memory env vm_name host payload = do {
     let mib = arg payload ''mib'';
     refused \<leftarrow> post_live_change env host vm_name [(''op'', J_Str ''memory''), (''mib'', mib)];
     ret (case refused of
            Some e \<Rightarrow> (False, e)
          | None \<Rightarrow> (True, vm_name @ [CHR 0x27] @ ''s memory balloon is '' @ jval_text mib @ '' MiB. This is a runtime setting inside the configured memory; ''
                       @ ''the VM's recorded memory, and so its next start, is unchanged.'')) }"

definition iso_slots :: "string option \<Rightarrow> string list" where
  "iso_slots cds = filter (\<lambda>s. s \<noteq> []) (map strip (split_on (CHR '','') (or_str cds [])))"

definition put_slot :: "string list \<Rightarrow> nat \<Rightarrow> string \<Rightarrow> string list" where
  "put_slot drives i media =
     (let empty = ''__empty__''
      in rev (dropWhile (\<lambda>s. s = empty) (rev ((drives @ replicate (Suc i - length drives) empty)[i := media]))))"

definition put_media :: "'w live_env \<Rightarrow> string \<Rightarrow> vm_spec \<Rightarrow> string \<Rightarrow> nat \<Rightarrow> string option \<Rightarrow> jval \<Rightarrow> ('w, levent, bool \<times> string) eff" where
  "put_media env vm_name spec host i media vdisk = do {
     refused \<leftarrow> post_live_change env host vm_name [(''op'', J_Str ''cdrom''), (''target'', J_Str (''sd'' @ live_letter i)), (''image_vdisk_id'', vdisk)];
     case refused of
       Some e \<Rightarrow> ret (False, e)
     | None \<Rightarrow> do {
         bad \<leftarrow> set_row env vm_name [(''iso'', J_Str (join '','' (put_slot (iso_slots (vs_iso spec)) i (or_str media ''__empty__''))))];
         let drive = ''drive '' @ show_nat (i + 1) @ '' of '' @ vm_name;
         ret (True, (case media of Some im \<Rightarrow> drive @ '' now holds '' @ im | None \<Rightarrow> drive @ '' is ejected'') @ unrecorded bad) } }"

definition live_cdrom :: "'w live_env \<Rightarrow> string \<Rightarrow> vm_spec \<Rightarrow> string \<Rightarrow> (string \<times> jval) list \<Rightarrow> ('w, levent, bool \<times> string) eff" where
  "live_cdrom env vm_name spec host payload =
     (case arg payload ''slot'' of
        J_Num n \<Rightarrow>
          if \<not> (0 \<le> n \<and> n < 26) then ret (False, ''slot must be the number of the CD-ROM drive, starting at 0'')
          else if \<not> truthy_jval (map_of payload ''image'') then put_media env vm_name spec host (nat n) None J_Null
          else (case arg payload ''image'' of
                  J_Str media \<Rightarrow>
                    if \<not> is_valid_object_name (Some media) then ret (False, ''Invalid image name: '' @ object_name_error @ ''.'')
                    else do {
                      let vdisk = image_vdisk_id media;
                      (ok, detail) \<leftarrow> storage env host (S_Attach vdisk);
                      if \<not> ok then ret (False, ''step 'attach image '' @ vdisk @ '' on '' @ host @ [CHR 0x27] @ '' failed: '' @ detail)
                      else put_media env vm_name spec host (nat n) (Some media) (J_Str vdisk) }
                | _ \<Rightarrow> ret (False, ''Invalid image name: '' @ object_name_error @ ''.''))
      | _ \<Rightarrow> ret (False, ''slot must be the number of the CD-ROM drive, starting at 0''))"

definition nic_body :: "string \<Rightarrow> string \<Rightarrow> nat \<Rightarrow> (string \<times> jval) list \<Rightarrow> (string \<times> jval) list" where
  "nic_body action vm_name i more' = [(''op'', J_Str ''nic''), (''action'', J_Str action), (''mac'', J_Str (vm_nic_mac vm_name i))] @ more'"

definition attach_nic :: "'w live_env \<Rightarrow> string \<Rightarrow> string \<Rightarrow> (string \<times> jval) list \<Rightarrow> string list \<Rightarrow> ('w, levent, bool \<times> string) eff" where
  "attach_nic env vm_name host payload entries = do {
     let net_id = strip (text_or (map_of payload ''network_id'') []);
     let model = (if truthy_jval (map_of payload ''model'') then arg payload ''model'' else J_Str ''virtio'');
     if net_id = [] then ret (False, ''network_id is required'')
     else do {
       net \<leftarrow> get_network_by_id env net_id;
       case network_bridge net of
         Inl why \<Rightarrow> ret (False, why)
       | Inr bridge \<Rightarrow>
           if length entries \<ge> 8 then ret (False, ''at most 8 network interfaces are supported'')
           else do {
             refused \<leftarrow> post_live_change env host vm_name (nic_body ''attach'' vm_name (length entries) [(''bridge'', J_Str bridge), (''model'', model)]);
             case refused of
               Some e \<Rightarrow> ret (False, e)
             | None \<Rightarrow> do {
                 bad \<leftarrow> set_row env vm_name [(''network_id'', J_Str (dumps (J_List (map J_Str (entries @ [net_id @ '':'' @ jval_text model])))))];
                 ret (True, vm_name @ '' has a new NIC on '' @ bridge @ unrecorded bad) } } } }"

definition detach_nic :: "'w live_env \<Rightarrow> string \<Rightarrow> string \<Rightarrow> string list \<Rightarrow> nat \<Rightarrow> ('w, levent, bool \<times> string) eff" where
  "detach_nic env vm_name host entries i =
     (if i \<noteq> length entries - 1
      then ret (False, ''only the last NIC can be removed live: the NICs' addresses are derived from their positions, ''
                  @ ''so removing another would change the others' at the next start'')
      else do {
        refused \<leftarrow> post_live_change env host vm_name (nic_body ''detach'' vm_name i []);
        case refused of
          Some e \<Rightarrow> ret (False, e)
        | None \<Rightarrow> do {
            bad \<leftarrow> set_row env vm_name [(''network_id'', J_Str (dumps (J_List (map J_Str (butlast entries)))))];
            ret (True, ''the last NIC of '' @ vm_name @ '' is removed'' @ unrecorded bad) } })"

definition link_nic :: "'w live_env \<Rightarrow> string \<Rightarrow> string \<Rightarrow> (string \<times> jval) list \<Rightarrow> nat \<Rightarrow> ('w, levent, bool \<times> string) eff" where
  "link_nic env vm_name host payload i = do {
     let state = arg payload ''state'';
     refused \<leftarrow> post_live_change env host vm_name (nic_body ''link'' vm_name i [(''state'', state)]);
     ret (case refused of
            Some e \<Rightarrow> (False, e)
          | None \<Rightarrow> (True, ''NIC '' @ show_nat (i + 1) @ '' of '' @ vm_name @ '' is '' @ jval_text state
                       @ ''. The link state is not part of the VM's record, so it is up again after the VM next starts.'')) }"

definition live_nic :: "'w live_env \<Rightarrow> string \<Rightarrow> vm_spec \<Rightarrow> string \<Rightarrow> (string \<times> jval) list \<Rightarrow> ('w, levent, bool \<times> string) eff" where
  "live_nic env vm_name spec host payload =
     (let action = arg payload ''action'';
          entries = vm_nic_entries (map_of (vs_domain spec) ''network_id'')
      in if action = J_Str ''attach'' then attach_nic env vm_name host payload entries
         else (let index = (if action = J_Str ''detach'' \<and> arg payload ''index'' = J_Num (- 1) then J_Num (int (length entries) - 1) else arg payload ''index'')
               in case index of
                    J_Num n \<Rightarrow>
                      if \<not> (0 \<le> n \<and> n < int (length entries)) then ret (False, ''index must be the position of one of the VM's NICs, starting at 0'')
                      else if action = J_Str ''detach'' then detach_nic env vm_name host entries (nat n)
                      else if action = J_Str ''link'' then link_nic env vm_name host payload (nat n)
                      else ret (False, ''action must be attach, detach or link'')
                  | _ \<Rightarrow> ret (False, ''index must be the position of one of the VM's NICs, starting at 0'')))"

section \<open>Disks\<close>

definition gib :: int where "gib = 1024 ^ 3"

definition disk_body :: "string \<Rightarrow> nat \<Rightarrow> (string \<times> jval) list \<Rightarrow> (string \<times> jval) list" where
  "disk_body action i extra = [(''op'', J_Str ''disk''), (''action'', J_Str action)] @ extra @ [(''target'', J_Str (''vd'' @ live_letter i))]"

definition disks_text :: "string list \<Rightarrow> jval" where
  "disks_text disks = J_Str (join '','' disks)"

definition failed_step :: "string \<Rightarrow> string \<Rightarrow> string" where
  "failed_step what detail = ''step '' @ quoted what @ '' failed: '' @ detail"

definition make_disk :: "'w live_env \<Rightarrow> string \<Rightarrow> string \<Rightarrow> string list \<Rightarrow> int \<Rightarrow> string \<Rightarrow> ('w, levent, bool \<times> string) eff" where
  "make_disk env vm_name host disks gibs container = do {
     let i = length disks;
     let v = vdisk_id_for vm_name i;
     (made, detail) \<leftarrow> storage env host (S_Create v (gibs * gib) container);
     if \<not> made then ret (False, failed_step (''create '' @ v) detail)
     else do {
       (attached, detail) \<leftarrow> storage env host (S_Attach v);
       if \<not> attached then do {
         _ \<leftarrow> storage env host (S_Delete v);
         ret (False, failed_step (''attach '' @ v @ '' on '' @ host) detail @ ''; the new vdisk was removed'') }
       else do {
         refused \<leftarrow> post_live_change env host vm_name (disk_body ''attach'' i [(''vdisk_id'', J_Str v)]);
         case refused of
           Some e \<Rightarrow> do {
             _ \<leftarrow> storage env host (S_Detach v);
             _ \<leftarrow> storage env host (S_Delete v);
             ret (False, e @ ''; the new vdisk was removed'') }
         | None \<Rightarrow> do {
             bad \<leftarrow> set_row env vm_name [(''disks_list'', disks_text (disks @ [show_int gibs @ ''GB:'' @ container @ '':virtio'']))];
             ret (True, v @ '' ('' @ show_int gibs @ '' GiB) is attached to '' @ vm_name @ '' as vd'' @ live_letter i @ unrecorded bad) } } } }"

definition attach_disk :: "'w live_env \<Rightarrow> string \<Rightarrow> string \<Rightarrow> (string \<times> jval) list \<Rightarrow> string list \<Rightarrow> ('w, levent, bool \<times> string) eff" where
  "attach_disk env vm_name host payload disks =
     (let container = (if truthy_jval (map_of payload ''container'') then arg payload ''container'' else J_Str default_container)
      in case arg payload ''size_gib'' of
           J_Num gibs \<Rightarrow>
             if gibs < 1 then ret (False, ''size_gib must be a whole number of GiB, at least 1'')
             else (case container of
                     J_Str c \<Rightarrow>
                       if \<not> is_valid_object_name (Some c) then ret (False, ''Invalid container name: '' @ object_name_error @ ''.'')
                       else if \<not> (1 \<le> length disks \<and> length disks < 25)
                       then ret (False, ''a running VM can have at most 25 data disks after its boot disk'')
                       else make_disk env vm_name host disks gibs c
                   | _ \<Rightarrow> ret (False, ''Invalid container name: '' @ object_name_error @ ''.''))
         | _ \<Rightarrow> ret (False, ''size_gib must be a whole number of GiB, at least 1''))"

definition remove_disk :: "'w live_env \<Rightarrow> string \<Rightarrow> string \<Rightarrow> string list \<Rightarrow> nat \<Rightarrow> ('w, levent, bool \<times> string) eff" where
  "remove_disk env vm_name host disks i = do {
     let v = vdisk_id_for vm_name i;
     refused \<leftarrow> post_live_change env host vm_name (disk_body ''detach'' i []);
     case refused of
       Some e \<Rightarrow> ret (False, e)
     | None \<Rightarrow> do {
         let left = butlast disks;
         bad \<leftarrow> set_row env vm_name [(''disks_list'', J_Str (py_or (join '','' left) ''NONE''))];
         _ \<leftarrow> storage env host (S_Detach v);
         (gone, detail) \<leftarrow> storage env host (S_Delete v);
         ret (True, v @ '' is removed from '' @ vm_name @ ''.''
                @ (if gone then [] else '' The vdisk could not be deleted ('' @ detail @ '') and is now an orphan.'')
                @ (case bad of None \<Rightarrow> [] | Some err \<Rightarrow> '' Its record could not be updated: '' @ err)) } }"

definition detach_disk :: "'w live_env \<Rightarrow> string \<Rightarrow> string \<Rightarrow> (string \<times> jval) list \<Rightarrow> string list \<Rightarrow> nat \<Rightarrow> ('w, levent, bool \<times> string) eff" where
  "detach_disk env vm_name host payload disks i =
     (if i = 0 then ret (False, ''the boot disk cannot be removed from a running VM'')
      else if i \<noteq> length disks - 1
      then ret (False, ''only the last disk can be removed: a disk's vdisk is named after its position, so removing another would change the others' names'')
      else if map_of payload ''confirm_delete'' \<noteq> Some (J_Bool True)
      then ret (False, ''removing a disk deletes its data; pass confirm_delete to do it ('' @ vdisk_id_for vm_name i @ '', ''
                  @ (case entry_size_gib (disks ! i) of Some n \<Rightarrow> if n = 0 then ''?'' else show_int n | None \<Rightarrow> ''?'') @ '' GiB)'')
      else remove_disk env vm_name host disks i)"

definition resized_entry :: "string \<Rightarrow> int \<Rightarrow> string" where
  "resized_entry entry gibs = join '':'' ((show_int gibs @ ''GB'') # tl (split_on (CHR '':'') entry))"

definition grow_disk :: "'w live_env \<Rightarrow> string \<Rightarrow> string \<Rightarrow> string list \<Rightarrow> nat \<Rightarrow> int \<Rightarrow> ('w, levent, bool \<times> string) eff" where
  "grow_disk env vm_name host disks i gibs = do {
     let v = vdisk_id_for vm_name i;
     (grown, detail) \<leftarrow> storage env host (S_Resize v (gibs * gib));
     if \<not> grown then ret (False, failed_step (''resize '' @ v) detail)
     else do {
       let columns = [(''disks_list'', disks_text (disks[i := resized_entry (disks ! i) gibs]))];
       _ \<leftarrow> set_row env vm_name (if i = 0 then columns @ [(''disk_size'', J_Num gibs)] else columns);
       refused \<leftarrow> post_live_change env host vm_name (disk_body ''resize'' i [] @ [(''size_bytes'', J_Num (gibs * gib))]);
       ret (case refused of
              Some e \<Rightarrow> (False, v @ '' was grown to '' @ show_int gibs @ '' GiB and the record updated, but the running guest could not be told: '' @ e
                           @ ''. It sees the new size after its next start.'')
            | None \<Rightarrow> (True, v @ '' is '' @ show_int gibs @ '' GiB and the guest has been told'')) } }"

definition resize_disk :: "'w live_env \<Rightarrow> string \<Rightarrow> string \<Rightarrow> (string \<times> jval) list \<Rightarrow> string list \<Rightarrow> nat \<Rightarrow> ('w, levent, bool \<times> string) eff" where
  "resize_disk env vm_name host payload disks i =
     (let disk = ''disk '' @ show_nat (i + 1)
      in case arg payload ''size_gib'' of
           J_Num gibs \<Rightarrow>
             if gibs < 1 then ret (False, ''size_gib must be a whole number of GiB, at least 1'')
             else (case entry_size_gib (disks ! i) of
                     None \<Rightarrow> ret (False, disk @ [CHR 0x27] @ ''s current size could not be read from the VM's record'')
                   | Some old \<Rightarrow>
                       if gibs < old then ret (False, disk @ '' is '' @ show_int old @ '' GiB and can only grow ('' @ show_int gibs @ '' GiB was asked for)'')
                       else if gibs = old then ret (True, disk @ '' is already '' @ show_int old @ '' GiB'')
                       else grow_disk env vm_name host disks i gibs)
         | _ \<Rightarrow> ret (False, ''size_gib must be a whole number of GiB, at least 1''))"

definition live_disk :: "'w live_env \<Rightarrow> string \<Rightarrow> vm_spec \<Rightarrow> string \<Rightarrow> (string \<times> jval) list \<Rightarrow> ('w, levent, bool \<times> string) eff" where
  "live_disk env vm_name spec host payload =
     (let action = arg payload ''action'';
          disks = vm_disk_entries (vs_disks spec)
      in if action = J_Str ''attach'' then attach_disk env vm_name host payload disks
         else (case arg payload ''index'' of
                 J_Num n \<Rightarrow>
                   if \<not> (0 \<le> n \<and> n < int (length disks)) then ret (False, ''index must be the position of one of the VM's disks, starting at 0'')
                   else if action = J_Str ''detach'' then detach_disk env vm_name host payload disks (nat n)
                   else if action = J_Str ''resize'' then resize_disk env vm_name host payload disks (nat n)
                   else ret (False, ''action must be attach, detach or resize'')
               | _ \<Rightarrow> ret (False, ''index must be the position of one of the VM's disks, starting at 0'')))"

section \<open>Under the lock\<close>

definition live_change_locked :: "'w live_env \<Rightarrow> string \<Rightarrow> vm_spec \<Rightarrow> string \<Rightarrow> string \<Rightarrow> (string \<times> jval) list \<Rightarrow> ('w, levent, bool \<times> string) eff" where
  "live_change_locked env vm_name spec host op payload =
     (if op = ''vcpus'' then live_vcpus env vm_name host payload
      else if op = ''memory'' then live_memory env vm_name host payload
      else if op = ''cdrom'' then live_cdrom env vm_name spec host payload
      else if op = ''nic'' then live_nic env vm_name spec host payload
      else live_disk env vm_name spec host payload)"

definition busy_text :: "string \<Rightarrow> lwt_result \<Rightarrow> string" where
  "busy_text vm_name a =
     vm_name @ '' is busy (status '' @ shown_value (map_of (lr_current a) ''status'') @ ''): a migration or another change is in progress. Nothing was changed.''"

definition change_lock :: "'w live_env \<Rightarrow> string \<Rightarrow> string \<Rightarrow> ('w, levent, lwt_result) eff" where
  "change_lock env path vm_name = inside L_Vali (lwt (lv_vali env) path [(''name'', J_Str vm_name)])"

definition run_live_change :: "'w live_env \<Rightarrow> string \<Rightarrow> (string \<times> jval) list \<Rightarrow> ('w, levent, bool \<times> string) eff" where
  "run_live_change env vm_name payload =
     (case arg payload ''op'' of
        J_Str op \<Rightarrow>
          if op \<notin> set live_change_ops then ret (False, ''op must be one of '' @ join '', '' live_change_ops)
          else do {
            row \<leftarrow> inside L_Vali (act (va_vm (lv_vali env) vm_name) (V_Vm vm_name));
            case row of
              None \<Rightarrow> ret (False, ''VM not found in metadata database.'')
            | Some spec \<Rightarrow>
                let host = or_str (vs_host spec) [] in
                if lower (or_str (vs_state spec) []) \<noteq> ''running'' \<or> host = []
                then ret (False, vm_name @ '' is not running ('' @ or_str (vs_state spec) ''unknown''
                            @ ''); live changes apply to a running VM. A stopped VM is edited in the console.'')
                else do {
                  a \<leftarrow> change_lock env ''/v1/vm/migrate-lock'' vm_name;
                  if \<not> lr_ok a
                  then ret (False, ''The VM's change lock could not be taken ('' @ jval_text (lr_error a) @ ''); nothing was changed.'')
                  else if \<not> lr_applied a then ret (False, busy_text vm_name a)
                  else do {
                    r \<leftarrow> live_change_locked env vm_name spec host op payload;
                    _ \<leftarrow> change_lock env ''/v1/vm/migrate-unlock'' vm_name;
                    ret r } } }
      | _ \<Rightarrow> ret (False, ''op must be one of '' @ join '', '' live_change_ops))"

section \<open>What a change does\<close>

definition stores :: "string \<Rightarrow> sidon_call \<Rightarrow> bool \<Rightarrow> levent \<Rightarrow> bool" where
  "stores host c ok e \<longleftrightarrow> (\<exists>status body. e = L_Vali (V_Full host c status body) \<and> ok = (status = 200 \<and> body \<noteq> None))"

definition asked :: "(string \<times> jval) list \<Rightarrow> string \<Rightarrow> bool" where
  "asked payload action \<longleftrightarrow> map_of payload ''action'' = Some (J_Str action)"

definition asked_at :: "(string \<times> jval) list \<Rightarrow> string \<Rightarrow> nat \<Rightarrow> bool" where
  "asked_at payload action i \<longleftrightarrow> asked payload action \<and> map_of payload ''index'' = Some (J_Num (int i))"

definition asked_size :: "(string \<times> jval) list \<Rightarrow> int \<Rightarrow> bool" where
  "asked_size payload n \<longleftrightarrow> map_of payload ''size_gib'' = Some (J_Num n)"

text \<open>The runs of a change of disks on the guest \<open>vm\<close> with the disks \<open>ds\<close>: what the payload asked for, at the position and with the size it gave.\<close>

inductive disk_run :: "string \<Rightarrow> string \<Rightarrow> string list \<Rightarrow> (string \<times> jval) list \<Rightarrow> bool \<Rightarrow> levent list \<Rightarrow> bool" for vm host ds payload where
  refused: "disk_run vm host ds payload False []"
| same: "asked_at payload ''resize'' i \<Longrightarrow> i < length ds \<Longrightarrow> asked_size payload n \<Longrightarrow> entry_size_gib (ds ! i) = Some n \<Longrightarrow> disk_run vm host ds payload True []"
| uncreated: "asked payload ''attach'' \<Longrightarrow> asked_size payload n \<Longrightarrow> stores host (S_Create (vdisk_id_for vm (length ds)) (n * gib) c) False e \<Longrightarrow> disk_run vm host ds payload False [e]"
| unattached: "asked payload ''attach'' \<Longrightarrow> asked_size payload n \<Longrightarrow> v = vdisk_id_for vm (length ds) \<Longrightarrow> stores host (S_Create v (n * gib) c) True e1 \<Longrightarrow> stores host (S_Attach v) False e2 \<Longrightarrow>
    stores host (S_Delete v) b e3 \<Longrightarrow> disk_run vm host ds payload False [e1, e2, e3]"
| unplugged: "asked payload ''attach'' \<Longrightarrow> asked_size payload n \<Longrightarrow> v = vdisk_id_for vm (length ds) \<Longrightarrow> stores host (S_Create v (n * gib) c) True e1 \<Longrightarrow> stores host (S_Attach v) True e2 \<Longrightarrow>
    stores host (S_Detach v) b e3 \<Longrightarrow> stores host (S_Delete v) b' e4 \<Longrightarrow>
    disk_run vm host ds payload False [e1, e2, L_Post host (disk_body ''attach'' (length ds) [(''vdisk_id'', J_Str v)]) False, e3, e4]"
| added: "asked payload ''attach'' \<Longrightarrow> asked_size payload n \<Longrightarrow> v = vdisk_id_for vm (length ds) \<Longrightarrow> 1 \<le> length ds \<Longrightarrow> length ds < 25 \<Longrightarrow> 1 \<le> n \<Longrightarrow>
    is_valid_object_name (Some c) \<Longrightarrow> stores host (S_Create v (n * gib) c) True e1 \<Longrightarrow> stores host (S_Attach v) True e2 \<Longrightarrow>
    disk_run vm host ds payload True [e1, e2, L_Post host (disk_body ''attach'' (length ds) [(''vdisk_id'', J_Str v)]) True,
      L_Row [(''disks_list'', disks_text (ds @ [show_int n @ ''GB:'' @ c @ '':virtio'']))] wrote]"
| kept: "asked_at payload ''detach'' (length ds - 1) \<Longrightarrow> 2 \<le> length ds \<Longrightarrow> map_of payload ''confirm_delete'' = Some (J_Bool True) \<Longrightarrow>
    disk_run vm host ds payload False [L_Post host (disk_body ''detach'' (length ds - 1) []) False]"
| removed: "asked_at payload ''detach'' (length ds - 1) \<Longrightarrow> 2 \<le> length ds \<Longrightarrow> map_of payload ''confirm_delete'' = Some (J_Bool True) \<Longrightarrow> v = vdisk_id_for vm (length ds - 1) \<Longrightarrow>
    stores host (S_Detach v) b e1 \<Longrightarrow> stores host (S_Delete v) b' e2 \<Longrightarrow>
    disk_run vm host ds payload True [L_Post host (disk_body ''detach'' (length ds - 1) []) True,
      L_Row [(''disks_list'', J_Str (py_or (join '','' (butlast ds)) ''NONE''))] wrote, e1, e2]"
| ungrown: "asked_at payload ''resize'' i \<Longrightarrow> asked_size payload n \<Longrightarrow> i < length ds \<Longrightarrow> entry_size_gib (ds ! i) = Some old \<Longrightarrow> old < n \<Longrightarrow>
    stores host (S_Resize (vdisk_id_for vm i) (n * gib)) False e \<Longrightarrow> disk_run vm host ds payload False [e]"
| grown: "asked_at payload ''resize'' i \<Longrightarrow> asked_size payload n \<Longrightarrow> i < length ds \<Longrightarrow> entry_size_gib (ds ! i) = Some old \<Longrightarrow> old < n \<Longrightarrow>
    stores host (S_Resize (vdisk_id_for vm i) (n * gib)) True e \<Longrightarrow>
    cols = (''disks_list'', disks_text (ds[i := resized_entry (ds ! i) n])) # (if i = 0 then [(''disk_size'', J_Num n)] else []) \<Longrightarrow>
    disk_run vm host ds payload heeded [e, L_Row cols wrote, L_Post host (disk_body ''resize'' i [] @ [(''size_bytes'', J_Num (n * gib))]) heeded]"

text \<open>
  The runs of the other changes: something is read or an image attached, the host is told, and only when it did what it was told is the row written, in
  the one column of that change; the balloon and a link are not recorded.
\<close>

definition column_of :: "string \<Rightarrow> string option" where
  "column_of op = map_of [(''vcpus'', ''vcpu''), (''cdrom'', ''iso''), (''nic'', ''network_id'')] op"

definition prepares :: "string \<Rightarrow> levent \<Rightarrow> bool" where
  "prepares host e \<longleftrightarrow> (\<exists>st. e = L_Find st) \<or> (\<exists>v ok. stores host (S_Attach v) ok e)"

inductive device_run :: "string \<Rightarrow> string \<Rightarrow> bool \<Rightarrow> levent list \<Rightarrow> bool" for host op where
  unready: "list_all (prepares host) es \<Longrightarrow> device_run host op False es"
| untold: "list_all (prepares host) es \<Longrightarrow> map_of body ''op'' = Some (J_Str op) \<Longrightarrow> device_run host op False (es @ [L_Post host body False])"
| passing: "list_all (prepares host) es \<Longrightarrow> map_of body ''op'' = Some (J_Str op) \<Longrightarrow> op \<in> {''memory'', ''nic''} \<Longrightarrow>
    device_run host op True (es @ [L_Post host body True])"
| recorded: "list_all (prepares host) es \<Longrightarrow> map_of body ''op'' = Some (J_Str op) \<Longrightarrow> column_of op = Some c \<Longrightarrow>
    device_run host op True (es @ [L_Post host body True, L_Row [(c, v)] wrote])"

lemma yields_storage: "yields (storage env host c) (\<lambda>r es. \<exists>e. es = [e] \<and> stores host c (fst r) e)"
  unfolding storage_def sidon_op_def
  by (intro yields_intros yields_inside) (auto simp: stores_def split: option.splits if_splits)

lemma yields_post: "yields (post_live_change env host vm body) (\<lambda>r es. es = [L_Post host body (r = None)])"
  unfolding post_live_change_def by (intro yields_intros) auto

lemma yields_row: "yields (set_row env vm cols) (\<lambda>r es. es = [L_Row cols (r = None)])"
  unfolding set_row_def by (intro yields_intros) auto

lemma yields_case_num: "(\<And>n. v = J_Num n \<Longrightarrow> yields (f n) Q) \<Longrightarrow> yields m Q \<Longrightarrow> yields (case v of J_Num n \<Rightarrow> f n | _ \<Rightarrow> m) Q"
  by (cases v) simp_all

lemma yields_case_str: "(\<And>s. v = J_Str s \<Longrightarrow> yields (f s) Q) \<Longrightarrow> yields m Q \<Longrightarrow> yields (case v of J_Str s \<Rightarrow> f s | _ \<Rightarrow> m) Q"
  by (cases v) simp_all

lemmas live_intros = yields_intros yields_mono [OF yields_storage] yields_mono [OF yields_post] yields_mono [OF yields_row]

lemma yields_make_disk:
  assumes "asked payload ''attach''" "asked_size payload n" "1 \<le> length ds" "length ds < 25" "1 \<le> n" "is_valid_object_name (Some c)"
  shows "yields (make_disk env vm host ds n c) (\<lambda>r. disk_run vm host ds payload (fst r))"
  unfolding make_disk_def
  by (intro live_intros)
    (use disk_run.added [OF assms(1,2) refl assms(3-), of host vm] disk_run.uncreated [OF assms(1,2)] disk_run.unattached [OF assms(1,2)] disk_run.unplugged [OF assms(1,2)] in auto)

lemma yields_remove_disk:
  assumes "asked_at payload ''detach'' (length ds - 1)" "2 \<le> length ds" "map_of payload ''confirm_delete'' = Some (J_Bool True)"
  shows "yields (remove_disk env vm host ds (length ds - 1)) (\<lambda>r. disk_run vm host ds payload (fst r))"
  unfolding remove_disk_def
  by (intro live_intros) (use disk_run.removed [OF assms refl, where vm = vm and host = host] disk_run.kept [OF assms, of vm host] in auto)

lemma yields_grow_disk:
  assumes "asked_at payload ''resize'' i" "asked_size payload n" "i < length ds" "entry_size_gib (ds ! i) = Some old" "old < n"
  shows "yields (grow_disk env vm host ds i n) (\<lambda>r. disk_run vm host ds payload (fst r))"
  unfolding grow_disk_def Let_def
  by (intro live_intros) (use disk_run.grown [OF assms, of host vm] disk_run.ungrown [OF assms, of host vm] in \<open>auto split: option.splits if_splits\<close>)

lemma yields_live_disk: "yields (live_disk env vm spec host payload) (\<lambda>r. disk_run vm host (vm_disk_entries (vs_disks spec)) payload (fst r))"
proof -
  let ?ds = "vm_disk_entries (vs_disks spec)"
  have num: "arg payload k = J_Num n \<Longrightarrow> map_of payload k = Some (J_Num n)" for k n
    by (auto simp: arg_def split: option.splits)
  have sized: "arg payload ''size_gib'' = J_Num n \<Longrightarrow> asked_size payload n" for n
    by (simp add: asked_size_def num)
  have act: "asked payload a" if "arg payload ''action'' = J_Str a" for a
    using that by (auto simp: arg_def asked_def split: option.splits)
  have at: "asked_at payload a (nat n)" if "arg payload ''action'' = J_Str a" "arg payload ''index'' = J_Num n" "0 \<le> n" for a n
    using that num act by (simp add: asked_at_def)
  have att: "yields (attach_disk env vm host payload ?ds) (\<lambda>r. disk_run vm host ?ds payload (fst r))" if "asked payload ''attach''"
    unfolding attach_disk_def Let_def
    by (intro yields_intros yields_case_num yields_case_str yields_make_disk that) (auto intro: disk_run.refused sized)
  have det: "yields (detach_disk env vm host payload ?ds i) (\<lambda>r. disk_run vm host ?ds payload (fst r))" if "asked_at payload ''detach'' i" for i
    using yields_remove_disk [of payload ?ds env vm host] that unfolding detach_disk_def
    by (intro yields_intros) (auto intro: disk_run.refused)
  have res: "yields (resize_disk env vm host payload ?ds i) (\<lambda>r. disk_run vm host ?ds payload (fst r))" if "asked_at payload ''resize'' i" "i < length ?ds" for i
    unfolding resize_disk_def Let_def
    by (intro yields_intros yields_case_num yields_case_str yields_grow_disk) (auto intro: disk_run.refused disk_run.same that sized)
  show ?thesis unfolding live_disk_def Let_def
    by (intro yields_intros yields_case_num yields_case_str att det res) (auto intro: disk_run.refused act at)
qed

lemma prepares_simps [simp]: "prepares host (L_Find st)" "stores host (S_Attach v) ok e \<Longrightarrow> prepares host e"
  by (auto simp: prepares_def)

lemma yields_network: "emits (prepares host) (get_network_by_id env net_id)"
  unfolding get_network_by_id_def find_row_def Let_def by (intro emits_intros) auto

lemma device_plain:
  "map_of body ''op'' = Some (J_Str op) \<Longrightarrow> device_run host op False [L_Post host body False]"
  "map_of body ''op'' = Some (J_Str op) \<Longrightarrow> op \<in> {''memory'', ''nic''} \<Longrightarrow> device_run host op True [L_Post host body True]"
  "map_of body ''op'' = Some (J_Str op) \<Longrightarrow> column_of op = Some c \<Longrightarrow> device_run host op True [L_Post host body True, L_Row [(c, v)] wrote]"
  using device_run.untold [of host "[]" body op] device_run.passing [of host "[]" body op] device_run.recorded [of host "[]" body op c v wrote] by auto

lemma yields_put_media:
  assumes "list_all (prepares host) es"
  shows "yields (put_media env vm spec host i media v) (\<lambda>r es'. device_run host ''cdrom'' (fst r) (es @ es'))"
  unfolding put_media_def
  by (intro live_intros) (auto intro!: device_run.untold device_run.recorded assms simp: column_of_def)

lemma yields_after_image:
  "stores host (S_Attach v') ok e \<Longrightarrow> yields (put_media env vm spec host i media v) (\<lambda>r es. device_run host ''cdrom'' (fst r) (e # es))"
  using yields_put_media [of host "[e]"] by simp

lemma yields_vcpus: "yields (live_vcpus env vm host payload) (\<lambda>r. device_run host ''vcpus'' (fst r))"
  unfolding live_vcpus_def by (intro live_intros) (auto intro!: device_plain simp: column_of_def)

lemma yields_memory: "yields (live_memory env vm host payload) (\<lambda>r. device_run host ''memory'' (fst r))"
  unfolding live_memory_def by (intro live_intros) (auto intro!: device_plain split: option.splits)

lemma yields_cdrom: "yields (live_cdrom env vm spec host payload) (\<lambda>r. device_run host ''cdrom'' (fst r))"
  unfolding live_cdrom_def
  by (intro live_intros yields_case_num yields_case_str)
    (auto intro: device_run.unready yields_put_media [where es = "[]", simplified] yields_after_image)

lemma yields_nics:
  "yields (attach_nic env vm host payload entries) (\<lambda>r. device_run host ''nic'' (fst r))"
  "yields (detach_nic env vm host entries i) (\<lambda>r. device_run host ''nic'' (fst r))"
  "yields (link_nic env vm host payload i) (\<lambda>r. device_run host ''nic'' (fst r))"
  unfolding attach_nic_def detach_nic_def link_nic_def nic_body_def
  by (intro live_intros yields_mono [OF yields_network],
      auto intro!: device_plain device_run.untold device_run.recorded intro: device_run.unready simp: column_of_def split: option.splits)+

lemma yields_live_nic: "yields (live_nic env vm spec host payload) (\<lambda>r. device_run host ''nic'' (fst r))"
  unfolding live_nic_def Let_def
  by (intro yields_intros yields_nics yields_case_num) (auto intro: device_run.unready)

definition change_run :: "string \<Rightarrow> vm_spec \<Rightarrow> string \<Rightarrow> (string \<times> jval) list \<Rightarrow> bool \<Rightarrow> levent list \<Rightarrow> bool" where
  "change_run vm spec op payload ok =
     (if op = ''disk'' then disk_run vm (the (vs_host spec)) (vm_disk_entries (vs_disks spec)) payload ok else device_run (the (vs_host spec)) op ok)"

definition lock_event :: "string \<Rightarrow> string \<Rightarrow> lwt_result \<Rightarrow> levent" where
  "lock_event path vm a = L_Vali (V_Lwt path [(''name'', J_Str vm)] a)"

text \<open>The runs of a request: nothing but a read, a lock that was refused, or one change between the lock and its release.\<close>

inductive live_run :: "string \<Rightarrow> (string \<times> jval) list \<Rightarrow> bool \<Rightarrow> levent list \<Rightarrow> bool" for vm payload where
  unread: "live_run vm payload False []"
| unfit: "live_run vm payload False [L_Vali (V_Vm vm row)]"
| locked_out: "\<not> wins a \<Longrightarrow> live_run vm payload False [L_Vali (V_Vm vm (Some spec)), lock_event ''/v1/vm/migrate-lock'' vm a]"
| changed: "wins a \<Longrightarrow> map_of payload ''op'' = Some (J_Str op) \<Longrightarrow> op \<in> set live_change_ops \<Longrightarrow> truthy_str (vs_host spec) \<Longrightarrow>
    lower (or_str (vs_state spec) []) = ''running'' \<Longrightarrow> change_run vm spec op payload ok es \<Longrightarrow>
    live_run vm payload ok ([L_Vali (V_Vm vm (Some spec)), lock_event ''/v1/vm/migrate-lock'' vm a] @ es @ [lock_event ''/v1/vm/migrate-unlock'' vm b])"

lemma yields_change_locked:
  assumes "op \<in> set live_change_ops"
    and host: "h = the (vs_host spec)"
  shows "yields (live_change_locked env vm spec h op payload) (\<lambda>r. change_run vm spec op payload (fst r))"
proof -
  consider "op = ''vcpus''" | "op = ''memory''" | "op = ''cdrom''" | "op = ''nic''" | "op = ''disk''"
    using assms(1) by (auto simp: live_change_ops_def)
  then show ?thesis
  proof cases
    case 1
    then show ?thesis using yields_vcpus by (simp add: live_change_locked_def change_run_def host)
  next
    case 2
    then show ?thesis using yields_memory by (simp add: live_change_locked_def change_run_def host)
  next
    case 3
    then show ?thesis using yields_cdrom by (simp add: live_change_locked_def change_run_def host)
  next
    case 4
    then show ?thesis using yields_live_nic by (simp add: live_change_locked_def change_run_def host)
  next
    case 5
    then show ?thesis using yields_live_disk by (simp add: live_change_locked_def change_run_def host)
  qed
qed

lemma yields_change_lock: "yields (change_lock env path vm) (\<lambda>a es. es = [lock_event path vm a])"
  unfolding change_lock_def lwt_def by (intro yields_intros yields_inside) (simp add: lock_event_def)

text \<open>
  C12. A running guest is changed under its lock, and its row follows what was done. Whatever the host, Sidon and the database answer, a change does something only for
  a guest whose row says that it runs, between a lock that was taken and its release, which is always sent. The row is written only after the
  host did what it was told, in the column of the change; only a resize records the new size as soon as the storage has grown, before the guest is told and whether or not it heeds.
  A disk is changed as the payload asks, at the position and to the size it gives. A new disk is created, attached and plugged in that order, and removed again when one of these fails;
  a disk is deleted otherwise only if it is the last one, not the boot disk, its deletion was confirmed and the host has let go of it; and a disk is only grown.
\<close>

theorem live_changes_are_guarded: "yields (run_live_change env vm payload) (\<lambda>r. live_run vm payload (fst r))"
proof -
  have op: "map_of payload ''op'' = Some (J_Str op)" if "arg payload ''op'' = J_Str op" for op
    using that by (auto simp: arg_def split: option.splits)
  have host: "or_str (vs_host spec) [] = the (vs_host spec)" "truthy_str (vs_host spec)" if "or_str (vs_host spec) [] \<noteq> []" for spec
    using that by (auto simp: or_str_def truthy_str_def split: option.splits if_splits)
  have change: "live_run vm payload ok (L_Vali (V_Vm vm (Some spec)) # lock_event ''/v1/vm/migrate-lock'' vm a # es @ [lock_event ''/v1/vm/migrate-unlock'' vm b])"
    if "arg payload ''op'' = J_Str op" "op \<in> set live_change_ops" "lr_ok a" "lr_applied a" "lower (or_str (vs_state spec) []) = ''running''"
      "or_str (vs_host spec) [] \<noteq> []" "change_run vm spec op payload ok es" for op spec a b ok es
    using live_run.changed [of a payload op spec vm ok es b] that op [OF that(1)] host(2) [OF that(6)] by (simp add: wins_def)
  show ?thesis unfolding run_live_change_def
    by (intro yields_intros yields_case_str yields_mono [OF yields_change_lock] yields_inside)
      (auto simp: Let_def wins_def intro!: host live_run.intros(1-3) change yields_intros yields_mono [OF yields_change_lock] yields_mono [OF yields_change_locked])
qed

section \<open>What is recorded is read back\<close>

lemma strip_brackets: "strip (CHR ''['' # s @ '']'') = CHR ''['' # s @ '']''"
  by (simp add: strip_def is_ws_def)

lemma split_on_parts: "p \<in> set (split_on c s) \<Longrightarrow> c \<notin> set p"
  by (induction c s arbitrary: p rule: split_on.induct) (auto split: if_splits list.splits)

lemma split_join: "ds \<noteq> [] \<Longrightarrow> list_all (\<lambda>d. c \<notin> set d) ds \<Longrightarrow> split_on c (join [c] ds) = ds"
  by (induction ds rule: induct_list012) (auto simp: split_on_plain split_on_cut)

text \<open>
  The interfaces written into the row are the ones read from it, so that a position, and with it the hardware address made of it, means the same interface at the
  next start and at the next change.
\<close>

theorem nics_are_read_back: "vm_nic_entries (Some (J_Str (dumps (J_List (map J_Str entries))))) = entries"
proof -
  have "loads (dumps (J_List (map J_Str entries))) = Some (J_List (map J_Str entries))"
    by (rule loads_dumps) (simp add: list_all_iff)
  moreover have "strip (dumps (J_List (map J_Str entries))) = dumps (J_List (map J_Str entries))"
    using strip_brackets by simp
  ultimately show ?thesis by (simp add: vm_nic_entries_def text_or_def truthy_jval_def jval_text_def Let_def comp_def)
qed

definition entry_text :: "string \<Rightarrow> bool" where
  "entry_text d \<longleftrightarrow> d \<noteq> [] \<and> CHR '','' \<notin> set d"

lemma entries_are_texts: "list_all entry_text (vm_disk_entries disks_list)"
  by (auto simp: vm_disk_entries_def list_all_iff entry_text_def dest: split_on_parts)

lemma join_none: "list_all entry_text ds \<Longrightarrow> join '','' ds = ''NONE'' \<longleftrightarrow> ds = [''NONE'']"
proof (cases "('','', ds)" rule: join.cases)
  case (3 sep x y xs)
  then have "CHR '','' \<in> set (join '','' ds)" by auto
  moreover have "CHR '','' \<notin> set ''NONE''" by simp
  ultimately have "join '','' ds \<noteq> ''NONE''" by metis
  moreover have "ds \<noteq> [''NONE'']" using 3 by auto
  ultimately show ?thesis by simp
qed auto

lemma entries_back:
  assumes "list_all entry_text ds" "ds \<noteq> []" "ds \<noteq> [''NONE'']"
  shows "vm_disk_entries (Some (join '','' ds)) = ds"
proof -
  have "join '','' ds \<noteq> []" using assms(1,2) by (cases "('','', ds)" rule: join.cases) (auto simp: entry_text_def)
  moreover have "filter (\<lambda>e. e \<noteq> []) ds = ds" using assms(1) by (auto simp: list_all_iff entry_text_def intro!: filter_True)
  moreover have "split_on (CHR '','') (join '','' ds) = ds"
    using assms by (intro split_join) (auto simp: list_all_iff entry_text_def)
  ultimately show ?thesis using join_none [OF assms(1)] assms(3) by (simp add: vm_disk_entries_def truthy_str_def)
qed

lemma number_entry:
  assumes "0 \<le> n" "CHR '','' \<notin> set r"
  shows "entry_text (show_int n @ ''GB'' @ r)" "show_int n @ ''GB'' @ r \<noteq> ''NONE''"
proof -
  have digits: "\<forall>c \<in> set (show_int n). is_digit c" "show_int n \<noteq> []"
    using assms(1) show_nat_digits [of "nat n"] by (simp_all add: show_int_def)
  then have "CHR '','' \<notin> set (show_int n)" by (auto simp: is_digit_def)
  then show "entry_text (show_int n @ ''GB'' @ r)" using assms(2) by (simp add: entry_text_def)
  show "show_int n @ ''GB'' @ r \<noteq> ''NONE''" using digits by (cases "show_int n") (auto simp: is_digit_def)
qed

lemma number_size:
  assumes "0 \<le> n"
  shows "entry_size_gib (show_int n @ ''GB:'' @ r) = Some n" "entry_size_gib (show_int n @ ''GB'') = Some n"
proof -
  let ?d = "show_int n"
  have d: "\<forall>c \<in> set ?d. is_digit c" "?d \<noteq> []" "read_nat ?d = nat n"
    using assms show_nat_digits [of "nat n"] by (simp_all add: show_int_def)
  have colon: "CHR '':'' \<notin> set (?d @ ''GB'')" using d(1) by (auto simp: is_digit_def)
  have lead: "dropWhile is_ws (?d @ ''GB'') = ?d @ ''GB''"
    using d by (cases ?d) (auto simp: is_digit_def is_ws_def Let_def)
  have "takeWhile is_digit (?d @ ''GB'') = ?d" "dropWhile is_digit (?d @ ''GB'') = ''GB''"
    using d(1) by (simp_all add: takeWhile_append2 dropWhile_append2 is_digit_def)
  moreover have "\<not> starts_with (upper (dropWhile is_ws ''GB'')) ''T''" by code_simp
  ultimately have "entry_size_gib e = Some n" if "hd (split_on (CHR '':'') e) = ?d @ ''GB''" for e
    using that d assms unfolding entry_size_gib_def Let_def by (simp add: lead del: split_on.simps)
  then show "entry_size_gib (?d @ ''GB:'' @ r) = Some n" "entry_size_gib (?d @ ''GB'') = Some n"
    using split_on_cut [OF colon, of r] split_on_plain [OF colon] by simp_all
qed

lemma split_on_chars: "p \<in> set (split_on c s) \<Longrightarrow> set p \<subseteq> set s"
  by (induction c s arbitrary: p rule: split_on.induct) (fastforce split: if_splits list.splits)+

lemma join_chars: "set (join sep xs) \<subseteq> set sep \<union> \<Union> (set ` set xs)"
  by (induction sep xs rule: join.induct) auto

lemma resized_back:
  assumes "0 \<le> n" "entry_text d"
  shows "\<exists>r. resized_entry d n = show_int n @ ''GB'' @ r \<and> CHR '','' \<notin> set r \<and> entry_size_gib (resized_entry d n) = Some n"
proof (cases "tl (split_on (CHR '':'') d)")
  case Nil
  then show ?thesis using number_size(2) [OF assms(1)] by (intro exI [of _ "[]"]) (simp add: resized_entry_def)
next
  case (Cons p ps)
  have "set q \<subseteq> set d" if "q \<in> set (p # ps)" for q
    using that split_on_chars [of q "CHR '':''" d] Cons by (metis list.set_sel(2) tl_Nil list.distinct(1))
  then have "CHR '','' \<notin> set (join '':'' (p # ps))"
    using assms(2) join_chars [of "'':''" "p # ps"] unfolding entry_text_def by (simp add: subset_iff) blast
  then show ?thesis using number_size(1) [OF assms(1), of "join '':'' (p # ps)"] Cons
    by (intro exI [of _ "'':'' @ join '':'' (p # ps)"]) (simp add: resized_entry_def)
qed

text \<open>
  The disks written into the row are the ones read from it, with the sizes they were given, so that positions and with them the names of the vdisks stay what
  they are: after a disk was added, after the last was removed, and after one was grown.
\<close>

theorem disks_are_read_back:
  assumes "ds = vm_disk_entries old" "1 \<le> n" "is_valid_object_name (Some c)" "i < length ds" "butlast ds \<noteq> [''NONE'']"
    and "new = show_int n @ ''GB:'' @ c @ '':virtio''"
  shows "vm_disk_entries (Some (join '','' (ds @ [new]))) = ds @ [new] \<and> entry_size_gib new = Some n
    \<and> vm_disk_entries (Some (py_or (join '','' (butlast ds)) ''NONE'')) = butlast ds
    \<and> vm_disk_entries (Some (join '','' (ds[i := resized_entry (ds ! i) n]))) = ds[i := resized_entry (ds ! i) n]
    \<and> entry_size_gib (resized_entry (ds ! i) n) = Some n"
proof (intro conjI)
  have ds: "list_all entry_text ds" using assms(1) entries_are_texts by simp
  have c: "CHR '','' \<notin> set c" using assms(3) by (auto simp: is_valid_object_name_def name_char_def is_alnum_def is_alpha_def is_digit_def dest!: name_shape_chars)
  have new: "entry_text new" "entry_size_gib new = Some n"
    using number_entry(1) [of n "'':'' @ c @ '':virtio''"] number_size(1) [of n "c @ '':virtio''"] assms(2,6) c by simp_all
  show "vm_disk_entries (Some (join '','' (ds @ [new]))) = ds @ [new]" using ds new assms(4) by (intro entries_back) auto
  show "entry_size_gib new = Some n" by (rule new)
  have left: "list_all entry_text (butlast ds)" using ds by (auto simp: list_all_iff dest: in_set_butlastD)
  show "vm_disk_entries (Some (py_or (join '','' (butlast ds)) ''NONE'')) = butlast ds"
  proof (cases "butlast ds = []")
    case False
    have "join '','' (butlast ds) \<noteq> []" using entries_back [OF left False assms(5)] False by (auto simp: vm_disk_entries_def)
    then show ?thesis using entries_back [OF left False assms(5)] by (simp add: py_or_def)
  qed (simp add: py_or_def vm_disk_entries_def)
  from ds assms(4) have "entry_text (ds ! i)" by (simp add: list_all_length)
  then obtain r where r: "resized_entry (ds ! i) n = show_int n @ ''GB'' @ r" "CHR '','' \<notin> set r" "entry_size_gib (resized_entry (ds ! i) n) = Some n"
    using resized_back [of n "ds ! i"] assms(2) by auto
  then have e: "entry_text (resized_entry (ds ! i) n)" "resized_entry (ds ! i) n \<noteq> ''NONE''" using number_entry [of n r] assms(2) by simp_all
  show "vm_disk_entries (Some (join '','' (ds[i := resized_entry (ds ! i) n]))) = ds[i := resized_entry (ds ! i) n]"
  proof (rule entries_back)
    show "list_all entry_text (ds[i := resized_entry (ds ! i) n])" using ds e(1) by (auto simp: list_all_iff dest: set_update_subset_insert [THEN subsetD])
    show "ds[i := resized_entry (ds ! i) n] \<noteq> [''NONE'']" using e(2) assms(4) by (cases ds; cases i) auto
  qed (use assms(4) in auto)
  show "entry_size_gib (resized_entry (ds ! i) n) = Some n" by (rule r(3))
qed

theorem disks_are_read_back_witness:
  "let ds = vm_disk_entries (Some ''20GB:default-pool:virtio,1TB:fast:virtio''); new = ''8GB:fast:virtio''
   in vm_disk_entries (Some (join '','' (ds @ [new]))) = ds @ [new] \<and> entry_size_gib new = Some 8
      \<and> vm_disk_entries (Some (join '','' (butlast ds))) = [''20GB:default-pool:virtio'']
      \<and> entry_size_gib (resized_entry (ds ! 1) 8) = Some 8 \<and> entry_size_gib (ds ! 1) = Some 1024"
proof -
  let ?ds = "vm_disk_entries (Some ''20GB:default-pool:virtio,1TB:fast:virtio'')"
  have ev: "is_valid_object_name (Some ''fast'')" "1 < length ?ds" "butlast ?ds = [''20GB:default-pool:virtio'']"
    "''8GB:fast:virtio'' = show_int 8 @ ''GB:'' @ ''fast'' @ '':virtio''" "py_or (join '','' (butlast ?ds)) ''NONE'' = join '','' (butlast ?ds)"
    "entry_size_gib (?ds ! 1) = Some 1024"
    by code_simp+
  have "butlast ?ds \<noteq> [''NONE'']" unfolding ev(3) by simp
  from disks_are_read_back [OF refl _ ev(1,2) this ev(4)] show ?thesis unfolding Let_def ev(5) using ev(3,6) by simp
qed

section \<open>A small host\<close>

text \<open>
  A guest whose row holds its CD-ROMs as the hidden state; a statement writes its first literal there, with the return code \<open>rc\<close>. Sidon and the host do what they are told.
\<close>

definition first_literal :: "string \<Rightarrow> string" where
  "first_literal st = takeWhile (\<lambda>c. c \<noteq> CHR 0x27) (drop 1 (dropWhile (\<lambda>c. c \<noteq> CHR 0x27) st))"

definition live_spec :: "string \<Rightarrow> string \<Rightarrow> vm_spec" where
  "live_spec disks cds =
     \<lparr>vs_memory = Some 1024, vs_vcpu = Some 1, vs_disks = Some disks, vs_iso = Some cds, vs_host = Some ''10.0.0.1'', vs_state = Some ''Running'', vs_domain = []\<rparr>"

definition live_vali :: "string \<Rightarrow> string vali_env" where
  "live_vali disks =
     \<lparr>va_vm = (\<lambda>_ w. (Some (live_spec disks w), w)), va_nodes = (\<lambda>w. (None, w)), va_node_ip = (\<lambda>_ w. (None, w)), va_hosts = (\<lambda>w. ([], w)),
      va_status = (\<lambda>_ w. (Inl [], w)), va_memory = (\<lambda>_ w. ((0, 0), w)), va_vdisk_size = (\<lambda>_ w. (None, w)), va_capacity = (\<lambda>_ w. (None, w)),
      va_lwt = (\<lambda>_ _ w. (\<lparr>lr_ok = True, lr_applied = True, lr_current = [], lr_error = J_Str []\<rparr>, w)), va_api = (\<lambda>_ _ w. ((0, None, ''''), w)),
      va_full = (\<lambda>_ _ w. ((200, Some \<lparr>sb_already = False, sb_forwarding = None, sb_error = None\<rparr>, ''''), w)), va_spark = (\<lambda>_ _ w. ((0, '''', ''''), w)),
      va_xml = (\<lambda>_ _ _ w. (Inr [], w)), va_history = (\<lambda>_ _ _ _ w. ((), w)), va_pause = (\<lambda>_ w. ((), w))\<rparr>"

definition live_lab :: "string \<Rightarrow> int \<Rightarrow> string live_env" where
  "live_lab disks rc =
     \<lparr>lv_vali = live_vali disks, lv_post = (\<lambda>_ _ _ w. ((200, None, ''''), w)),
      lv_write = (\<lambda>st w. ((rc, ''timeout''), if rc = 0 then first_literal st else w)), lv_find = (\<lambda>_ w. (None, w)), lv_trunc = (\<lambda>_. None)\<rparr>"

text \<open>
  The row is read before the lock is taken. A change that read it before another one finished writes back what it read: the media that the first put into its drive
  are lost from the row, and both report success.
\<close>

lemma a_change_may_undo_another:
  "let env = live_lab ''20GB'' 0;
       (r, s) = run_state (do {
         row \<leftarrow> look (va_vm (lv_vali env) ''web'');
         a \<leftarrow> run_live_change env ''web'' [(''op'', J_Str ''cdrom''), (''slot'', J_Num 0), (''image'', J_Str ''cd1'')];
         b \<leftarrow> live_change_locked env ''web'' (the row) ''10.0.0.1'' ''cdrom'' [(''slot'', J_Num 1), (''image'', J_Str ''cd2'')];
         ret (fst a, fst b) }) (at_rest [])
   in r = (True, True) \<and> hidden s = ''__empty__,cd2''"
  by code_simp

text \<open>The removal of a disk whose row could not be written still deletes the vdisk, although the comment says that no row is left pointing at nothing.\<close>

lemma a_deleted_disk_may_stay_recorded:
  "let (r, s) = run_state (run_live_change (live_lab ''20GB,10GB'' 1) ''web''
         [(''op'', J_Str ''disk''), (''action'', J_Str ''detach''), (''index'', J_Num 1), (''confirm_delete'', J_Bool True)]) (at_rest [])
   in fst r \<and> L_Row [(''disks_list'', J_Str ''20GB'')] False \<in> set (trace s)
      \<and> L_Vali (V_Full ''10.0.0.1'' (S_Delete ''web-disk1'') 200 (Some \<lparr>sb_already = False, sb_forwarding = None, sb_error = None\<rparr>)) \<in> set (trace s)"
  by code_simp

text \<open>A guest with its boot disk and 24 data disks is refused another with the message that 25 are allowed.\<close>

lemma only_24_data_disks:
  "fst (run_state (run_live_change (live_lab (join '','' (replicate 25 ''1GB'')) 0) ''web''
         [(''op'', J_Str ''disk''), (''action'', J_Str ''attach''), (''size_gib'', J_Num 1)]) (at_rest []))
     = (False, ''a running VM can have at most 25 data disks after its boot disk'')"
  by code_simp

end
