(* ===== verification/Spark_Live.thy ===== *)
theory Spark_Live
  imports Vali_Live Text_Lines
begin

text \<open>
  The host's side of a live change (\<open>src/spark_daemon_decoded.py\<close>): the plan of the \<open>virsh\<close> commands for a request (\<open>plan_live_change\<close>), what libvirt says of the domain
  (\<open>read_live_domain_info\<close>, \<open>parse_virsh_dominfo\<close>), the run of the steps and the handler. The XML of a disk and a CD-ROM is that of \<open>src/helios_sidon.py\<close>.
\<close>

section \<open>Patterns\<close>

definition virsh :: "string list" where "virsh = [''virsh'', ''-c'', ''qemu:///system'']"

definition live_ops :: "string list" where "live_ops = [''vcpus'', ''memory'', ''cdrom'', ''nic'', ''disk'']"

definition live_nic_models :: "string list" where "live_nic_models = [''virtio'', ''e1000'', ''e1000e'', ''rtl8139'']"

definition valid_name :: "jval \<Rightarrow> bool" where
  "valid_name v = (case v of J_Str s \<Rightarrow> name_shape 62 s | _ \<Rightarrow> False)"

definition live_mac :: "string \<Rightarrow> bool" where
  "live_mac s = (let ps = split_on (CHR '':'') s in length ps = 6 \<and> list_all (\<lambda>p. length p = 2 \<and> list_all (\<lambda>c. hex_val c \<noteq> None) p) ps)"

definition live_bridge :: "string \<Rightarrow> bool" where
  "live_bridge s \<longleftrightarrow> s \<noteq> [] \<and> length s \<le> 15 \<and> list_all name_char s"

definition device_name :: "string \<Rightarrow> nat \<Rightarrow> string \<Rightarrow> bool" where
  "device_name prefix low s = (case s of [a, b, c] \<Rightarrow> [a, b] = prefix \<and> low \<le> of_char c \<and> of_char c \<le> (122 :: nat) | _ \<Rightarrow> False)"

definition live_data_disk :: "string \<Rightarrow> bool" where "live_data_disk = device_name ''vd'' 98"

definition live_any_disk :: "string \<Rightarrow> bool" where "live_any_disk = device_name ''vd'' 97"

definition live_cdrom_drive :: "string \<Rightarrow> bool" where "live_cdrom_drive = device_name ''sd'' 97"

definition live_min_memory_mib :: int where "live_min_memory_mib = 128"

definition live_xml_path :: string where "live_xml_path = ''{xml}''"

definition live_int :: "jval \<Rightarrow> int option" where
  "live_int v = (case v of J_Num n \<Rightarrow> Some n | _ \<Rightarrow> None)"

section \<open>Device XML\<close>

definition nbd_socket :: "string \<Rightarrow> string" where
  "nbd_socket vdisk_id = ''/var/lib/hci/sidon/nbd/'' @ vdisk_id @ ''.sock''"

definition cdrom_xml :: "string \<Rightarrow> string \<Rightarrow> string" where
  "cdrom_xml vdisk_id letter = join [CHR 0x0A]
     [[], ''    <disk type='network' device='cdrom'>'', ''      <driver name='qemu' type='raw'/>'',
      ''      <source protocol='nbd' name='' @ quoted vdisk_id @ ''>'', ''        <host transport='unix' socket='' @ quoted (nbd_socket vdisk_id) @ ''/>'',
      ''      </source>'', ''      <target dev='' @ quoted (''sd'' @ letter) @ '' bus='sata'/>'', ''      <readonly/>'', ''    </disk>'']"

definition disk_xml :: "string \<Rightarrow> string \<Rightarrow> int \<Rightarrow> string" where
  "disk_xml vdisk_id letter vcpu = concat (map ((#) (CHR 0x0A))
     [''    <disk type='network' device='disk'>'',
      ''      <driver name='qemu' type='raw' cache='none' io='native' queues='' @ quoted (show_int (max 1 vcpu)) @ '' iothread='1'/>'',
      ''      <source protocol='nbd' name='' @ quoted vdisk_id @ ''>'', ''        <host transport='unix' socket='' @ quoted (nbd_socket vdisk_id) @ ''/>'',
      ''      </source>'', ''      <target dev='' @ quoted (''vd'' @ letter) @ '' bus='virtio'/>'', ''    </disk>''])"

definition eject_xml :: "string \<Rightarrow> string" where
  "eject_xml target =
     ''<disk type='file' device='cdrom'><driver name='qemu' type='raw'/><target dev='' @ quoted target @ '' bus='sata'/><readonly/></disk>''"

definition nic_xml :: "string \<Rightarrow> string \<Rightarrow> string \<Rightarrow> string" where
  "nic_xml mac bridge model =
     ''<interface type='bridge'><mac address='' @ quoted mac @ ''/><source bridge='' @ quoted bridge @ ''/><model type='' @ quoted model @ ''/></interface>''"

definition gone_nic_xml :: "string \<Rightarrow> string" where
  "gone_nic_xml mac = ''<interface type='bridge'><mac address='' @ quoted mac @ ''/></interface>''"

definition gone_disk_xml :: "string \<Rightarrow> string" where
  "gone_disk_xml target = ''<disk type='network' device='disk'><target dev='' @ quoted target @ '' bus='virtio'/></disk>''"

section \<open>The plan\<close>

record live_step =
  ls_argv :: "string list"
  ls_xml :: "string option"
  ls_what :: string

record domain_info =
  di_state :: string
  di_vcpus :: "int option"
  di_vcpu_max :: "int option"
  di_mem_max :: "int option"

type_synonym live_plan = "string + live_step list"

definition one_step :: "string list \<Rightarrow> string option \<Rightarrow> string \<Rightarrow> live_plan" where
  "one_step args xml what = Inr [\<lparr>ls_argv = virsh @ args, ls_xml = xml, ls_what = what\<rparr>]"

definition device_step :: "string \<Rightarrow> string \<Rightarrow> string \<Rightarrow> string \<Rightarrow> live_plan" where
  "device_step verb name xml what = one_step [verb, name, live_xml_path, ''--live'', ''--config''] (Some xml) what"

definition plan_vcpus :: "string \<Rightarrow> (string \<times> jval) list \<Rightarrow> domain_info \<Rightarrow> live_plan" where
  "plan_vcpus name payload info =
     (case live_int (arg payload ''count'') of
        None \<Rightarrow> Inl ''count must be a whole number of vCPUs, at least 1''
      | Some n \<Rightarrow>
          if n < 1 then Inl ''count must be a whole number of vCPUs, at least 1''
          else (case (di_vcpus info, di_vcpu_max info) of
                  (Some current, Some maximum) \<Rightarrow>
                    if n = current then Inr []
                    else if n < current
                    then Inl (''removing vCPUs from a running guest is not supported (the guest OS has to release them); stop the VM to reduce ''
                           @ show_int current @ '' to '' @ show_int n)
                    else if n > maximum
                    then Inl (show_int n @ '' vCPUs is above this domain's maximum of '' @ show_int maximum
                           @ ''. The maximum is fixed when the domain is defined: enable vm_hotplug_headroom and restart the VM to raise it'')
                    else one_step [''setvcpus'', name, show_int n, ''--live'', ''--config''] None (''set vCPUs to '' @ show_int n)
                | _ \<Rightarrow> Inl ''the domain's vCPU counts could not be read''))"

definition plan_memory :: "string \<Rightarrow> (string \<times> jval) list \<Rightarrow> domain_info \<Rightarrow> live_plan" where
  "plan_memory name payload info =
     (case live_int (arg payload ''mib'') of
        None \<Rightarrow> Inl (''mib must be a whole number of MiB, at least '' @ show_int live_min_memory_mib)
      | Some mib \<Rightarrow>
          if mib < live_min_memory_mib then Inl (''mib must be a whole number of MiB, at least '' @ show_int live_min_memory_mib)
          else (case di_mem_max info of
                  None \<Rightarrow> Inl ''the domain's memory maximum could not be read''
                | Some maximum \<Rightarrow>
                    if mib * 1024 > maximum
                    then Inl (show_int mib @ '' MiB is above this domain's maximum of '' @ show_int (maximum div 1024)
                           @ '' MiB. The maximum is fixed when the domain is defined: enable vm_hotplug_headroom and restart the VM to raise it'')
                    else one_step [''setmem'', name, show_int (mib * 1024), ''--live''] None (''set the memory balloon to '' @ show_int mib @ '' MiB'')))"

definition plan_cdrom :: "string \<Rightarrow> (string \<times> jval) list \<Rightarrow> live_plan" where
  "plan_cdrom name payload =
     (case arg payload ''target'' of
        J_Str target \<Rightarrow>
          if \<not> live_cdrom_drive target then Inl ''target must be a CD-ROM drive such as sda''
          else (let media = arg payload ''image_vdisk_id''
                in if media \<in> {J_Null, J_Str []} then device_step ''update-device'' name (eject_xml target) (''eject the media from '' @ target)
                   else if \<not> valid_name media then Inl ''Invalid image vdisk id''
                   else device_step ''update-device'' name (cdrom_xml (jval_text media) (drop 2 target)) (''put '' @ jval_text media @ '' in '' @ target))
      | _ \<Rightarrow> Inl ''target must be a CD-ROM drive such as sda'')"

definition plan_nic_attach :: "string \<Rightarrow> (string \<times> jval) list \<Rightarrow> string \<Rightarrow> live_plan" where
  "plan_nic_attach name payload mac =
     (case arg payload ''bridge'' of
        J_Str bridge \<Rightarrow>
          if \<not> live_bridge bridge then Inl ''bridge must be a bridge name (letters, digits, '.', '-', '_', at most 15)''
          else (let model = (case map_of payload ''model'' of None \<Rightarrow> J_Str ''virtio'' | Some v \<Rightarrow> v)
                in if model \<notin> J_Str ` set live_nic_models then Inl (''model must be one of '' @ join '', '' live_nic_models)
                   else device_step ''attach-device'' name (nic_xml mac bridge (jval_text model)) (''attach a NIC on '' @ bridge))
      | _ \<Rightarrow> Inl ''bridge must be a bridge name (letters, digits, '.', '-', '_', at most 15)'')"

definition plan_nic :: "string \<Rightarrow> (string \<times> jval) list \<Rightarrow> live_plan" where
  "plan_nic name payload =
     (case arg payload ''mac'' of
        J_Str mac \<Rightarrow>
          if \<not> live_mac mac then Inl ''mac must be a MAC address such as 52:54:00:aa:bb:cc''
          else if arg payload ''action'' = J_Str ''attach'' then plan_nic_attach name payload mac
          else if arg payload ''action'' = J_Str ''detach'' then device_step ''detach-device'' name (gone_nic_xml mac) (''detach the NIC '' @ mac)
          else if arg payload ''action'' = J_Str ''link'' then
            (case arg payload ''state'' of
               J_Str state \<Rightarrow>
                 if state \<notin> {''up'', ''down''} then Inl ''state must be up or down''
                 else Inr [\<lparr>ls_argv = virsh @ [''domif-setlink'', name, mac, state], ls_xml = None, ls_what = ''set the link '' @ state @ '' now''\<rparr>,
                           \<lparr>ls_argv = virsh @ [''domif-setlink'', name, mac, state, ''--config''], ls_xml = None,
                            ls_what = ''set the link '' @ state @ '' in the definition''\<rparr>]
             | _ \<Rightarrow> Inl ''state must be up or down'')
          else Inl ''action must be attach, detach or link''
      | _ \<Rightarrow> Inl ''mac must be a MAC address such as 52:54:00:aa:bb:cc'')"

definition plan_disk :: "string \<Rightarrow> (string \<times> jval) list \<Rightarrow> domain_info \<Rightarrow> live_plan" where
  "plan_disk name payload info =
     (let action = arg payload ''action''; target = arg payload ''target'';
          fits = (\<lambda>p. case target of J_Str t \<Rightarrow> p t | _ \<Rightarrow> False); t = jval_text target
      in if action = J_Str ''attach'' then
           (if \<not> fits live_data_disk then Inl ''target must be a data disk such as vdb (vda is the boot disk)''
            else if \<not> valid_name (arg payload ''vdisk_id'') then Inl ''Invalid vdisk id''
            else (let v = jval_text (arg payload ''vdisk_id'')
                  in device_step ''attach-device'' name (disk_xml v (drop 2 t) (or_int (di_vcpus info) 1)) (''attach '' @ v @ '' as '' @ t)))
         else if action = J_Str ''detach'' then
           (if \<not> fits live_data_disk then Inl ''target must be a data disk such as vdb (the boot disk cannot be hot-removed)''
            else device_step ''detach-device'' name (gone_disk_xml t) (''detach '' @ t))
         else if action = J_Str ''resize'' then
           (if \<not> fits live_any_disk then Inl ''target must be a disk such as vdb''
            else (case live_int (arg payload ''size_bytes'') of
                    None \<Rightarrow> Inl ''size_bytes must be a whole number of KiB, at least 1 MiB''
                  | Some n \<Rightarrow>
                      if n < 1024 * 1024 \<or> n mod 1024 \<noteq> 0 then Inl ''size_bytes must be a whole number of KiB, at least 1 MiB''
                      else one_step [''blockresize'', name, t, show_int (n div 1024)] None
                             (''tell the guest's disk '' @ t @ '' it is now '' @ show_int n @ '' bytes'')))
         else Inl ''action must be attach, detach or resize'')"

definition plan_live_change :: "string \<Rightarrow> (string \<times> jval) list \<Rightarrow> domain_info \<Rightarrow> live_plan" where
  "plan_live_change name payload info =
     (if \<not> valid_name (J_Str name) then Inl ''Invalid VM name''
      else if lower (di_state info) \<noteq> ''running''
      then Inl (''the VM is '' @ py_or (di_state info) ''not running'' @ ''; live changes apply to a running VM (edit a stopped one through the console)'')
      else (case arg payload ''op'' of
              J_Str op \<Rightarrow>
                if op \<notin> set live_ops then Inl (''op must be one of '' @ join '', '' live_ops)
                else if op = ''vcpus'' then plan_vcpus name payload info
                else if op = ''memory'' then plan_memory name payload info
                else if op = ''cdrom'' then plan_cdrom name payload
                else if op = ''nic'' then plan_nic name payload
                else plan_disk name payload info
            | _ \<Rightarrow> Inl (''op must be one of '' @ join '', '' live_ops)))"

section \<open>What libvirt says\<close>

definition dominfo_fields :: "string \<Rightarrow> (string \<times> string) list" where
  "dominfo_fields t = foldl (\<lambda>d line. if CHR '':'' \<in> set line
       then (case partition_on (CHR '':'') line of (k, v) \<Rightarrow> dict_set (lower (strip k)) (strip v) d) else d) [] (splitlines t)"

definition first_number :: "string \<Rightarrow> int option" where
  "first_number s = (case split_ws s of [] \<Rightarrow> None | w # _ \<Rightarrow> int_of_text w)"

record dominfo =
  do_state :: string
  do_vcpus :: "int option"
  do_memory_kib :: "int option"
  do_used_kib :: "int option"
  do_autostart :: bool

definition parse_virsh_dominfo :: "string \<Rightarrow> dominfo" where
  "parse_virsh_dominfo t =
     (let get = (\<lambda>k. or_str (map_of (dominfo_fields t) k) [])
      in \<lparr>do_state = get ''state'', do_vcpus = int_of_text (get ''cpu(s)''), do_memory_kib = first_number (get ''max memory''),
          do_used_kib = first_number (get ''used memory''), do_autostart = (lower (get ''autostart'') = ''enable'')\<rparr>)"

text \<open>
  \<open>sk_argv\<close> runs a command and answers with its return code, output and errors; \<open>sk_file\<close> writes a temporary file and answers with its path, \<open>sk_unlink\<close> removes it.
\<close>

record 'w spark_env =
  sk_argv :: "string list \<Rightarrow> 'w \<Rightarrow> (int \<times> string \<times> string) \<times> 'w"
  sk_file :: "string \<Rightarrow> 'w \<Rightarrow> string \<times> 'w"
  sk_unlink :: "string \<Rightarrow> 'w \<Rightarrow> unit \<times> 'w"

datatype kevent = K_Run "string list" int | K_File string string | K_Unlink string

definition run_argv :: "'w spark_env \<Rightarrow> string list \<Rightarrow> ('w, kevent, int \<times> string \<times> string) eff" where
  "run_argv env argv = act (sk_argv env argv) (\<lambda>r. K_Run argv (fst r))"

definition read_live_domain_info :: "'w spark_env \<Rightarrow> string \<Rightarrow> ('w, kevent, domain_info option) eff" where
  "read_live_domain_info env name = do {
     (rc, out, _) \<leftarrow> run_argv env (virsh @ [''dominfo'', name]);
     if rc \<noteq> 0 then ret None
     else do {
       let info = parse_virsh_dominfo out;
       (rc, out, _) \<leftarrow> run_argv env (virsh @ [''vcpucount'', name, ''--maximum'', ''--live'']);
       ret (Some \<lparr>di_state = do_state info, di_vcpus = do_vcpus info, di_vcpu_max = (if rc = 0 then first_number (strip out) else None),
                  di_mem_max = do_memory_kib info\<rparr>) } }"

section \<open>Running the plan\<close>

text \<open>The detail when the step failed.\<close>

definition run_command :: "'w spark_env \<Rightarrow> string list \<Rightarrow> ('w, kevent, string option) eff" where
  "run_command env argv = do {
     (rc, out, err) \<leftarrow> run_argv env argv;
     ret (if rc \<noteq> 0 then Some (py_or (strip (py_or err out)) (''virsh exited '' @ show_int rc)) else None) }"

definition run_live_step :: "'w spark_env \<Rightarrow> live_step \<Rightarrow> ('w, kevent, string option) eff" where
  "run_live_step env step =
     (case ls_xml step of
        None \<Rightarrow> run_command env (ls_argv step)
      | Some xml \<Rightarrow> do {
          path \<leftarrow> act (sk_file env xml) (\<lambda>p. K_File p xml);
          r \<leftarrow> run_command env (map (\<lambda>part. if part = live_xml_path then path else part) (ls_argv step));
          _ \<leftarrow> act (sk_unlink env path) (\<lambda>_. K_Unlink path);
          ret r })"

fun run_live_steps :: "'w spark_env \<Rightarrow> string list \<Rightarrow> live_step list \<Rightarrow> ('w, kevent, (string \<times> string list) + string list) eff" where
  "run_live_steps env applied [] = ret (Inr applied)"
| "run_live_steps env applied (step # steps) = do {
     bad \<leftarrow> run_live_step env step;
     case bad of
       Some detail \<Rightarrow> ret (Inl (''failed to '' @ ls_what step @ '': '' @ detail, applied))
     | None \<Rightarrow> run_live_steps env (applied @ [ls_what step]) steps }"

definition read_json_payload :: "string \<Rightarrow> string + (string \<times> jval) list" where
  "read_json_payload raw =
     (if raw = [] then Inr []
      else case loads raw of None \<Rightarrow> Inl ''Invalid JSON body'' | Some (J_Dict d) \<Rightarrow> Inr d | Some _ \<Rightarrow> Inl ''JSON body must be an object'')"

definition texts :: "string list \<Rightarrow> jval" where
  "texts ss = J_List (map J_Str ss)"

text \<open>The request for one guest, up to its answer; its name is checked where the path is routed.\<close>

definition handle_vm_live :: "'w spark_env \<Rightarrow> string \<Rightarrow> string \<Rightarrow> ('w, kevent, int \<times> (string \<times> jval) list) eff" where
  "handle_vm_live env name raw =
     (if \<not> valid_name (J_Str name) then ret (400, [(''error'', J_Str ''Invalid VM name'')])
      else case read_json_payload raw of
        Inl e \<Rightarrow> ret (400, [(''error'', J_Str e)])
      | Inr payload \<Rightarrow> do {
          info \<leftarrow> read_live_domain_info env name;
          case info of
            None \<Rightarrow> ret (404, [(''error'', J_Str (''Domain '' @ name @ '' was not found on this host''))])
          | Some i \<Rightarrow>
              (case plan_live_change name payload i of
                 Inl problem \<Rightarrow> ret (409, [(''error'', J_Str problem), (''applied'', texts [])])
               | Inr steps \<Rightarrow> do {
                   r \<leftarrow> run_live_steps env [] steps;
                   ret (case r of
                          Inl (e, applied) \<Rightarrow> (409, [(''error'', J_Str e), (''applied'', texts applied)])
                        | Inr applied \<Rightarrow> (200, [(''applied'', texts applied), (''state'', J_Str (di_state i))])) }) })"

section \<open>Nothing a caller sends becomes a command\<close>

text \<open>An argument that is an option of the daemon's own, or begins with a letter or digit and holds no more than names, numbers and addresses do.\<close>

definition inert_part :: "string \<Rightarrow> bool" where
  "inert_part a \<longleftrightarrow> a \<in> {''--live'', ''--config'', live_xml_path} \<or> (\<exists>c r. a = c # r \<and> is_alnum c \<and> list_all (\<lambda>d. name_char d \<or> d = CHR '':'') r)"

definition live_verbs :: "string list" where
  "live_verbs = [''setvcpus'', ''setmem'', ''update-device'', ''attach-device'', ''detach-device'', ''domif-setlink'', ''blockresize'']"

text \<open>XML of the daemon's own making around values of the same kind.\<close>

definition inert_xml :: "string \<Rightarrow> bool" where
  "inert_xml xml \<longleftrightarrow>
     (\<exists>t. inert_part t \<and> (xml = eject_xml t \<or> xml = gone_nic_xml t \<or> xml = gone_disk_xml t))
     \<or> (\<exists>v l n. inert_part v \<and> inert_part l \<and> (xml = cdrom_xml v l \<or> xml = disk_xml v l n))
     \<or> (\<exists>m b k. inert_part m \<and> live_bridge b \<and> inert_part k \<and> xml = nic_xml m b k)"

definition inert_step :: "string \<Rightarrow> live_step \<Rightarrow> bool" where
  "inert_step name st \<longleftrightarrow>
     (\<exists>verb args. ls_argv st = virsh @ verb # name # args \<and> verb \<in> set live_verbs \<and> list_all inert_part args)
     \<and> (case ls_xml st of None \<Rightarrow> True | Some xml \<Rightarrow> inert_xml xml)"

lemma inert_options: "inert_part ''--live''" "inert_part ''--config''" "inert_part live_xml_path" "inert_part ''up''" "inert_part ''down''"
  by (auto simp: inert_part_def is_alnum_def is_alpha_def name_char_def)

lemma inert_number: "0 \<le> n \<Longrightarrow> inert_part (show_int n)"
  using show_nat_digits [of "nat n"] unfolding inert_part_def show_int_def
  by (cases "show_nat (nat n)") (auto simp: is_alnum_def name_char_def list_all_iff)

lemma inert_name: "name_shape k s \<Longrightarrow> inert_part s"
  by (auto simp: name_shape_def inert_part_def list_all_iff name_char_def split: list.splits)

lemma hex_alnum: "hex_val c \<noteq> None \<Longrightarrow> is_alnum c"
  by (auto simp: hex_val_def is_alnum_def is_alpha_def is_digit_def Let_def split: if_splits)

lemma letter_alnum: "97 \<le> (of_char c :: nat) \<Longrightarrow> of_char c \<le> (122 :: nat) \<Longrightarrow> is_alnum c"
  by (simp add: is_alnum_def is_alpha_def Let_def)

lemma inert_device:
  assumes "device_name p k s" "p \<in> {''vd'', ''sd''}" "97 \<le> k"
  shows "inert_part s" "inert_part (drop 2 s)"
proof -
  from assms(1) obtain a b c where s: "s = [a, b, c]" "[a, b] = p" "k \<le> of_char c" "of_char c \<le> (122 :: nat)"
    by (auto simp: device_name_def split: list.splits)
  then have c: "is_alnum c" "name_char c" using assms(3) letter_alnum [of c] by (simp_all add: name_char_def)
  have p: "is_alnum (p ! 0)" "name_char (p ! 1)" using assms(2) by (auto simp: is_alnum_def is_alpha_def name_char_def)
  then have "is_alnum a" "name_char b" using s(2) by auto
  then show "inert_part s" "inert_part (drop 2 s)" using s(1) c by (simp_all add: inert_part_def)
qed

lemma join_Cons: "join sep ((x # p) # ps) = x # join sep (p # ps)"
  by (cases ps) simp_all

lemma split_on_joined: "join [c] (split_on c s) = s"
proof (induction c s rule: split_on.induct)
  case (2 c x xs)
  have "split_on c xs \<noteq> []" by (cases xs) (auto split: list.splits)
  then obtain p ps where "split_on c xs = p # ps" by (cases "split_on c xs") auto
  with 2 show ?case by (auto simp: join_Cons)
qed simp

lemma inert_mac:
  assumes "live_mac s"
  shows "inert_part s"
proof -
  let ?ps = "split_on (CHR '':'') s"
  have hex: "\<And>p c. p \<in> set ?ps \<Longrightarrow> c \<in> set p \<Longrightarrow> is_alnum c" and len: "length ?ps = 6" "\<And>p. p \<in> set ?ps \<Longrightarrow> length p = 2"
    using assms hex_alnum by (auto simp: live_mac_def Let_def list_all_iff)
  then have chars: "c = CHR '':'' \<or> is_alnum c" if "c \<in> set s" for c
    using that join_chars [of "'':''" ?ps] split_on_joined [of "CHR '':''" s] by auto
  obtain p ps where ps: "?ps = p # ps" using len(1) by (cases ?ps) auto
  then obtain c q where p: "p = c # q" using len(2) [of p] by (cases p) auto
  then have s: "s = c # join '':'' (q # ps)" using split_on_joined [of "CHR '':''" s] ps by (simp add: join_Cons)
  moreover have "is_alnum c" using hex [of p c] ps p by simp
  ultimately show ?thesis using chars unfolding inert_part_def by (auto simp: list_all_iff name_char_def)
qed

lemma inert_media: "valid_name v \<Longrightarrow> inert_part (jval_text v)"
  by (auto simp: valid_name_def jval_text_def split: jval.splits dest: inert_name)

lemma inert_models: "k \<in> set live_nic_models \<Longrightarrow> inert_part k"
  by (rule inert_name [where k = 62])
    (auto simp: live_nic_models_def name_shape_def is_alnum_def is_alpha_def is_digit_def name_char_def)

definition inert_plan :: "string \<Rightarrow> live_plan \<Rightarrow> bool" where
  "inert_plan name p = (case p of Inl _ \<Rightarrow> True | Inr steps \<Rightarrow> list_all (inert_step name) steps)"

lemma inert_one: "verb \<in> set live_verbs \<Longrightarrow> list_all inert_part args \<Longrightarrow> (\<And>x. xml = Some x \<Longrightarrow> inert_xml x) \<Longrightarrow> inert_plan name (one_step (verb # name # args) xml what)"
  by (auto simp: inert_plan_def one_step_def inert_step_def split: option.splits)

lemma inert_device_step: "verb \<in> set live_verbs \<Longrightarrow> inert_xml xml \<Longrightarrow> inert_plan name (device_step verb name xml what)"
  unfolding device_step_def by (rule inert_one) (auto intro: inert_options)

lemma inert_refused: "inert_plan name (Inl e)" "inert_plan name (Inr [])"
  by (simp_all add: inert_plan_def)

lemma inert_vcpus: "inert_plan name (plan_vcpus name payload info)"
  unfolding plan_vcpus_def by (auto intro!: inert_refused inert_one inert_options inert_number simp: live_verbs_def split: option.splits prod.splits)

lemma inert_memory: "inert_plan name (plan_memory name payload info)"
  unfolding plan_memory_def
  by (auto intro!: inert_refused inert_one inert_options inert_number simp: live_verbs_def live_min_memory_mib_def split: option.splits)

lemma inert_xml_one: "inert_part t \<Longrightarrow> inert_xml (eject_xml t)" "inert_part t \<Longrightarrow> inert_xml (gone_nic_xml t)" "inert_part t \<Longrightarrow> inert_xml (gone_disk_xml t)"
  unfolding inert_xml_def by blast+

lemma inert_xml_two: "inert_part v \<Longrightarrow> inert_part l \<Longrightarrow> inert_xml (cdrom_xml v l)" "inert_part v \<Longrightarrow> inert_part l \<Longrightarrow> inert_xml (disk_xml v l n)"
  unfolding inert_xml_def by blast+

lemma inert_xml_nic: "inert_part m \<Longrightarrow> live_bridge b \<Longrightarrow> inert_part k \<Longrightarrow> inert_xml (nic_xml m b k)"
  unfolding inert_xml_def by blast

lemma inert_drive: "live_cdrom_drive t \<Longrightarrow> inert_part t \<and> inert_part (drop 2 t)" "live_data_disk t \<Longrightarrow> inert_part t \<and> inert_part (drop 2 t)"
    "live_any_disk t \<Longrightarrow> inert_part t"
  unfolding live_cdrom_drive_def live_data_disk_def live_any_disk_def by (auto dest: inert_device)

lemmas inert_intros = inert_refused inert_device_step inert_one inert_xml_one inert_xml_two inert_xml_nic

lemmas inert_facts = inert_options inert_number inert_media inert_mac inert_models inert_drive

lemma inert_cdrom: "inert_plan name (plan_cdrom name payload)"
  unfolding plan_cdrom_def Let_def
  by (auto intro!: inert_intros simp: live_verbs_def inert_facts split: jval.splits)

lemma inert_attach: "live_mac mac \<Longrightarrow> inert_plan name (plan_nic_attach name payload mac)"
  unfolding plan_nic_attach_def Let_def
  by (auto intro!: inert_intros simp: live_verbs_def jval_text_def inert_facts split: jval.splits option.splits)

lemma inert_link:
  assumes "live_mac mac" "state = ''up'' \<or> state = ''down''"
  shows "inert_plan name (Inr [\<lparr>ls_argv = virsh @ [''domif-setlink'', name, mac, state], ls_xml = None, ls_what = a\<rparr>,
                               \<lparr>ls_argv = virsh @ [''domif-setlink'', name, mac, state, ''--config''], ls_xml = None, ls_what = b\<rparr>])"
  using inert_mac [OF assms(1)] assms(2) by (auto simp: inert_plan_def inert_step_def live_verbs_def inert_options)

lemma inert_nic: "inert_plan name (plan_nic name payload)"
  unfolding plan_nic_def
  by (auto intro!: inert_intros inert_attach inert_link simp: live_verbs_def inert_facts split: jval.splits)

lemma inert_disk_attach:
  "live_data_disk t \<Longrightarrow> valid_name v \<Longrightarrow> inert_plan name (device_step ''attach-device'' name (disk_xml (jval_text v) (drop 2 t) n) what)"
  by (rule inert_device_step) (simp_all add: live_verbs_def inert_xml_two inert_facts)

lemma inert_disk_detach: "live_data_disk t \<Longrightarrow> inert_plan name (device_step ''detach-device'' name (gone_disk_xml t) what)"
  by (rule inert_device_step) (simp_all add: live_verbs_def inert_xml_one inert_facts)

lemma inert_resize: "live_any_disk t \<Longrightarrow> \<not> n < 1048576 \<Longrightarrow> inert_plan name (one_step [''blockresize'', name, t, show_int (n div 1024)] None what)"
  by (rule inert_one) (simp_all add: live_verbs_def inert_facts)

lemma jval_text_Str: "jval_text (J_Str s) = s"
  by (simp add: jval_text_def)

lemma inert_disk: "inert_plan name (plan_disk name payload info)"
proof (cases "\<exists>t. arg payload ''target'' = J_Str t")
  case True
  then obtain t where "arg payload ''target'' = J_Str t" by blast
  then show ?thesis
    unfolding plan_disk_def Let_def
    by (simp add: inert_refused inert_disk_attach inert_disk_detach inert_resize jval_text_Str split: option.split)
next
  case False
  then show ?thesis unfolding plan_disk_def Let_def by (cases "arg payload ''target''") (simp_all add: inert_refused)
qed

lemma plan_needs:
  "plan_live_change name payload info = Inr steps \<Longrightarrow> valid_name (J_Str name) \<and> lower (di_state info) = ''running''"
  by (auto simp: plan_live_change_def split: if_splits)

text \<open>
  C14. Every command of a plan is a \<open>virsh\<close> command with one of seven verbs, the validated name of the guest and arguments that are the daemon's own options, or begin with a letter or digit
  and hold nothing but the characters of names, numbers and addresses; and the XML of its device is the daemon's own around values of the same kind. So nothing a request holds is an option, a
  path, a quotation mark or a piece of XML, whatever it sends.
\<close>

theorem live_commands_are_inert:
  assumes "plan_live_change name payload info = Inr steps" "st \<in> set steps"
  shows "name_shape 62 name \<and> inert_step name st"
proof -
  have "inert_plan name (plan_live_change name payload info)"
    unfolding plan_live_change_def
    by (auto intro!: inert_refused inert_vcpus inert_memory inert_cdrom inert_nic inert_disk split: jval.splits)
  with assms show ?thesis using plan_needs [OF assms(1)] by (auto simp: inert_plan_def list_all_iff valid_name_def)
qed

theorem live_commands_are_inert_witness:
  "name_shape 62 ''web'' \<and> inert_step ''web'' \<lparr>ls_argv = virsh @ [''setvcpus'', ''web'', ''4'', ''--live'', ''--config''], ls_xml = None, ls_what = ''set vCPUs to 4''\<rparr>"
proof -
  have "plan_live_change ''web'' [(''op'', J_Str ''vcpus''), (''count'', J_Num 4)]
      \<lparr>di_state = ''running'', di_vcpus = Some 2, di_vcpu_max = Some 8, di_mem_max = None\<rparr>
    = Inr [\<lparr>ls_argv = virsh @ [''setvcpus'', ''web'', ''4'', ''--live'', ''--config''], ls_xml = None, ls_what = ''set vCPUs to 4''\<rparr>]"
    by code_simp
  from live_commands_are_inert [OF this] show ?thesis by simp
qed

section \<open>Within what the domain has\<close>

text \<open>
  What a step asks of the domain: more vCPUs than it has and no more than it can have, at least 128 MiB and no more than its maximum, a disk of at least a MiB; and never to give up the
  boot disk.
\<close>

definition stays_within :: "domain_info \<Rightarrow> live_step \<Rightarrow> bool" where
  "stays_within info st =
     (case drop 3 (ls_argv st) of
        verb # _ # amount # opts \<Rightarrow>
          if verb = ''setvcpus'' then (\<exists>n current maximum. amount = show_int n \<and> di_vcpus info = Some current \<and> di_vcpu_max info = Some maximum \<and> current < n \<and> n \<le> maximum)
          else if verb = ''setmem'' then (\<exists>kib maximum. amount = show_int kib \<and> di_mem_max info = Some maximum \<and> 128 * 1024 \<le> kib \<and> kib \<le> maximum)
          else if verb = ''blockresize'' then live_any_disk amount \<and> (\<exists>kib. opts = [show_int kib] \<and> 1024 \<le> kib)
          else if verb = ''detach-device'' then ls_xml st \<noteq> Some (gone_disk_xml ''vda'')
          else verb \<in> {''update-device'', ''attach-device'', ''domif-setlink''}
      | _ \<Rightarrow> False)"

definition plan_within :: "domain_info \<Rightarrow> live_plan \<Rightarrow> bool" where
  "plan_within info p = (case p of Inl _ \<Rightarrow> True | Inr steps \<Rightarrow> list_all (stays_within info) steps)"

lemma plan_within_refused: "plan_within info (Inl e)" "plan_within info (Inr [])"
  by (simp_all add: plan_within_def)

lemma plan_within_one: "stays_within info \<lparr>ls_argv = virsh @ args, ls_xml = xml, ls_what = what\<rparr> \<Longrightarrow> plan_within info (one_step args xml what)"
  by (simp add: plan_within_def one_step_def)

lemma plan_within_device:
  "verb = ''update-device'' \<or> verb = ''attach-device'' \<or> verb = ''detach-device'' \<and> xml \<noteq> gone_disk_xml ''vda'' \<Longrightarrow> plan_within info (device_step verb name xml what)"
  by (auto simp: device_step_def stays_within_def virsh_def intro!: plan_within_one)

lemmas within_intros = plan_within_refused plan_within_one plan_within_device

lemma boot_disk_stays: "live_data_disk t \<Longrightarrow> gone_disk_xml t \<noteq> gone_disk_xml ''vda''" "gone_nic_xml m \<noteq> gone_disk_xml ''vda''"
  by (auto simp: gone_disk_xml_def gone_nic_xml_def quoted_def live_data_disk_def device_name_def split: list.splits)

lemma within_vcpus: "plan_within info (plan_vcpus name payload info)"
  unfolding plan_vcpus_def by (auto intro!: within_intros simp: stays_within_def virsh_def split: option.splits)

lemma within_memory: "plan_within info (plan_memory name payload info)"
  unfolding plan_memory_def by (auto intro!: within_intros simp: stays_within_def virsh_def live_min_memory_mib_def split: option.splits)

lemma within_cdrom: "plan_within info (plan_cdrom name payload)"
  unfolding plan_cdrom_def Let_def by (auto intro!: within_intros split: jval.splits)

lemma within_attach: "plan_within info (plan_nic_attach name payload mac)"
  unfolding plan_nic_attach_def Let_def by (auto intro!: within_intros split: jval.splits)

lemma within_link:
  "plan_within info (Inr [\<lparr>ls_argv = virsh @ ''domif-setlink'' # name # mac # opts, ls_xml = x, ls_what = a\<rparr>, \<lparr>ls_argv = virsh @ ''domif-setlink'' # name # mac # opts', ls_xml = y, ls_what = b\<rparr>])"
  by (simp add: plan_within_def stays_within_def virsh_def)

lemma within_nic: "plan_within info (plan_nic name payload)"
  unfolding plan_nic_def
  by (auto intro!: plan_within_refused plan_within_device within_attach within_link simp: boot_disk_stays split: jval.splits)

lemma within_resize: "live_any_disk t \<Longrightarrow> \<not> n < 1048576 \<Longrightarrow> plan_within info (one_step [''blockresize'', name, t, show_int (n div 1024)] None what)"
  by (rule plan_within_one) (auto simp: stays_within_def virsh_def)

lemma within_disk: "plan_within info (plan_disk name payload info)"
proof (cases "\<exists>t. arg payload ''target'' = J_Str t")
  case True
  then obtain t where "arg payload ''target'' = J_Str t" by blast
  then show ?thesis
    unfolding plan_disk_def Let_def
    by (simp add: plan_within_refused plan_within_device boot_disk_stays within_resize jval_text_Str split: option.split)
next
  case False
  then show ?thesis unfolding plan_disk_def Let_def by (cases "arg payload ''target''") (simp_all add: plan_within_refused)
qed

text \<open>
  C15. A plan stays within what libvirt says of the domain: it adds vCPUs up to the maximum and never takes one away, sets a balloon between 128 MiB and the domain's maximum, and never takes the
  boot disk away.
\<close>

theorem live_plans_stay_within:
  assumes "plan_live_change name payload info = Inr steps" "st \<in> set steps"
  shows "lower (di_state info) = ''running'' \<and> stays_within info st"
proof -
  have "plan_within info (plan_live_change name payload info)"
    unfolding plan_live_change_def
    by (auto intro!: plan_within_refused within_vcpus within_memory within_cdrom within_nic within_disk split: jval.splits)
  with assms show ?thesis using plan_needs [OF assms(1)] by (auto simp: plan_within_def list_all_iff)
qed

theorem live_plans_stay_within_witness:
  "stays_within \<lparr>di_state = ''running'', di_vcpus = Some 2, di_vcpu_max = Some 8, di_mem_max = Some 1048576\<rparr>
     \<lparr>ls_argv = virsh @ [''setvcpus'', ''web'', ''8'', ''--live'', ''--config''], ls_xml = None, ls_what = ''set vCPUs to 8''\<rparr>"
proof -
  have "plan_live_change ''web'' [(''op'', J_Str ''vcpus''), (''count'', J_Num 8)]
      \<lparr>di_state = ''running'', di_vcpus = Some 2, di_vcpu_max = Some 8, di_mem_max = Some 1048576\<rparr>
    = Inr [\<lparr>ls_argv = virsh @ [''setvcpus'', ''web'', ''8'', ''--live'', ''--config''], ls_xml = None, ls_what = ''set vCPUs to 8''\<rparr>]"
    by code_simp
  from live_plans_stay_within [OF this] show ?thesis by simp
qed

section \<open>What Vali asks is understood\<close>

text \<open>The body of a request, written and read again, has a plan that does something.\<close>

definition understood :: "string \<Rightarrow> domain_info \<Rightarrow> levent \<Rightarrow> bool" where
  "understood vm info e =
     (case e of
        L_Post _ body _ \<Rightarrow> (\<exists>st steps. read_json_payload (dumps (J_Dict body)) = Inr body \<and> plan_live_change vm body info = Inr (st # steps))
      | _ \<Rightarrow> True)"

lemma read_body: "proper (J_Dict body) \<Longrightarrow> read_json_payload (dumps (J_Dict body)) = Inr body"
  using loads_dumps [of "J_Dict body"] by (simp add: read_json_payload_def)

lemma letters: "i < 26 \<Longrightarrow> (of_char (''abcdefghijklmnopqrstuvwxyz'' ! i) :: nat) = 97 + i"
  by (simp add: nth_Cons' numeral_eq_Suc)

lemma device_letter:
  "i < 26 \<Longrightarrow> live_cdrom_drive (''sd'' @ live_letter i)" "i < 26 \<Longrightarrow> live_any_disk (''vd'' @ live_letter i)" "1 \<le> i \<Longrightarrow> i < 26 \<Longrightarrow> live_data_disk (''vd'' @ live_letter i)"
  using letters [of i] by (simp_all add: live_cdrom_drive_def live_any_disk_def live_data_disk_def device_name_def live_letter_def)

lemma name_shape_append:
  "name_shape k s \<Longrightarrow> list_all name_char t \<Longrightarrow> k + length t \<le> n \<Longrightarrow> name_shape n (s @ t)"
  by (auto simp: name_shape_def split: list.splits)

lemma name_chars_show: "list_all name_char (show_nat n)"
  using show_nat_digits [of n] by (auto simp: list_all_iff name_char_def is_alnum_def)

lemma valid_vdisk:
  assumes "name_shape 55 vm" "i < 100"
  shows "valid_name (J_Str (vdisk_id_for vm i))"
proof -
  have "length (show_nat i) \<le> 2" using assms(2) by (subst show_nat.simps, subst show_nat.simps) auto
  then show ?thesis unfolding valid_name_def vdisk_id_for_def
    using name_shape_append [OF assms(1), of "''-disk'' @ show_nat i" 62] name_chars_show by (simp add: name_char_def is_alnum_def is_alpha_def)
qed

lemma slug_name: "name_char (slug_char c)"
  by (auto simp: slug_char_def name_char_def is_alnum_def is_alpha_def less_eq_char_def)

lemma one_dash_subset: "set (one_dash s) \<subseteq> set s"
  by (induction s rule: one_dash.induct) auto

lemma strip_dashes_subset: "set (strip_dashes s) \<subseteq> set s"
  unfolding strip_dashes_def by (auto dest!: set_dropWhileD)

lemma valid_image: "valid_name (J_Str (image_vdisk_id s))"
proof -
  have "list_all name_char (take 28 (strip_dashes (one_dash (map slug_char t))))" for t
    using strip_dashes_subset [of "one_dash (map slug_char t)"] one_dash_subset [of "map slug_char t"] set_take_subset [of 28]
    by (fastforce simp: list_all_iff slug_name)
  then show ?thesis
    unfolding valid_name_def image_vdisk_id_def Let_def by (simp add: name_shape_def is_alnum_def is_alpha_def name_char_def)
qed

lemma understood_other [simp]: "understood vm info (L_Row cols b)" "stores host c ok e \<Longrightarrow> understood vm info e" "understood vm info (L_Vali v)"
  by (auto simp: understood_def stores_def)

lemmas plan_defs = plan_live_change_def live_ops_def arg_def disk_body_def plan_disk_def plan_cdrom_def device_step_def one_step_def jval_text_Str valid_name_def live_int_def

lemma understoodI: "proper (J_Dict body) \<Longrightarrow> \<exists>st steps. plan_live_change vm body info = Inr (st # steps) \<Longrightarrow> understood vm info (L_Post host body ok)"
  unfolding understood_def using read_body [of body] by (simp del: dumps.simps proper.simps)

lemma valid_vm: "name_shape 55 vm \<Longrightarrow> name_shape 62 vm"
  using name_shape_append [of 55 vm "[]" 62] by simp

lemma attach_understood:
  assumes "name_shape 55 vm" "lower (di_state info) = ''running''" "1 \<le> i" "i < 26"
  shows "understood vm info (L_Post host (disk_body ''attach'' i [(''vdisk_id'', J_Str (vdisk_id_for vm i))]) ok)"
  using valid_vdisk [of vm i] device_letter(3) [of i] valid_vm assms by (intro understoodI) (simp_all add: plan_defs Let_def)

lemma detach_understood:
  assumes "name_shape 55 vm" "lower (di_state info) = ''running''" "1 \<le> i" "i < 26"
  shows "understood vm info (L_Post host (disk_body ''detach'' i []) ok)"
  using device_letter(3) [of i] valid_vm assms by (intro understoodI) (simp_all add: plan_defs Let_def)

lemma resize_understood:
  assumes "name_shape 55 vm" "lower (di_state info) = ''running''" "i < 26" "1 \<le> n"
  shows "understood vm info (L_Post host (disk_body ''resize'' i [] @ [(''size_bytes'', J_Num (n * gib))]) ok)"
  using device_letter(2) [of i] valid_vm assms by (intro understoodI) (simp_all add: plan_defs Let_def gib_def)

lemma media_understood:
  assumes "name_shape 55 vm" "lower (di_state info) = ''running''" "i < 26" "media = J_Null \<or> (\<exists>s. media = J_Str (image_vdisk_id s))"
  shows "understood vm info (L_Post host [(''op'', J_Str ''cdrom''), (''target'', J_Str (''sd'' @ live_letter i)), (''image_vdisk_id'', media)] ok)"
  using device_letter(1) [of i] valid_vm valid_image assms by (intro understoodI) (auto simp: plan_defs Let_def)

lemma emits_storage: "emits (understood vm info) (storage env host c)"
  by (rule yields_mono [OF yields_storage]) auto

lemma emits_row: "emits (understood vm info) (set_row env vm cols)"
  by (rule yields_mono [OF yields_row]) auto

lemma emits_post: "(\<And>ok. understood vm info (L_Post host body ok)) \<Longrightarrow> emits (understood vm info) (post_live_change env host vm body)"
  by (rule yields_mono [OF yields_post]) auto

lemmas ask_intros = emits_intros emits_storage emits_row emits_post yields_case_num yields_case_str

text \<open>A name that Vali takes, of 60 characters, whose disks have names that the daemon refuses.\<close>

lemma long_names_are_refused:
  assumes "lower (di_state info) = ''running''"
  shows "is_valid_object_name (Some (replicate 60 CHR ''a''))
    \<and> plan_live_change (replicate 60 CHR ''a'') (disk_body ''attach'' 1 [(''vdisk_id'', J_Str (vdisk_id_for (replicate 60 CHR ''a'') 1))]) info = Inl ''Invalid vdisk id''"
proof -
  have "is_valid_object_name (Some (replicate 60 CHR ''a''))" "name_shape 62 (replicate 60 CHR ''a'')" "\<not> name_shape 62 (vdisk_id_for (replicate 60 CHR ''a'') 1)"
    by code_simp+
  then show ?thesis using device_letter(3) [of 1] assms by (simp add: plan_defs Let_def)
qed

text \<open>
  C13. The two sides of a live change fit together. Every request that Vali makes for a disk or a CD-ROM of a running guest, whatever was asked of Vali and whatever the row, Sidon and the host
  answer, is read by the daemon as it was written and has a plan of at least one step: the daemon never refuses it as ill formed. The name of the guest has at most 56 characters, which
  leaves room for \<open>-disk\<close> and a position (\<open>long_names_are_refused\<close> for one that does not), its row holds at most 26 disks, and the daemon finds it running.
\<close>

theorem storage_changes_are_understood:
  assumes "name_shape 55 vm" "lower (di_state info) = ''running''" "length (vm_disk_entries (vs_disks spec)) \<le> 26" "op \<in> {''cdrom'', ''disk''}"
  shows "emits (understood vm info) (live_change_locked env vm spec host op payload)"
proof -
  let ?ds = "vm_disk_entries (vs_disks spec)"
  have media: "emits (understood vm info) (put_media env vm spec host i m v)" if "i < 26" "v = J_Null \<or> (\<exists>s. v = J_Str (image_vdisk_id s))" for i m v
    unfolding put_media_def by (intro ask_intros media_understood assms that)
  have cd: "emits (understood vm info) (live_cdrom env vm spec host payload)"
    unfolding live_cdrom_def by (intro ask_intros media) auto
  have "emits (understood vm info) (attach_disk env vm host payload ?ds)"
    unfolding attach_disk_def make_disk_def Let_def by (intro ask_intros attach_understood assms) auto
  moreover have "emits (understood vm info) (detach_disk env vm host payload ?ds i)" if "i < 26" for i
    unfolding detach_disk_def remove_disk_def Let_def by (intro ask_intros detach_understood assms that) auto
  moreover have "emits (understood vm info) (resize_disk env vm host payload ?ds i)" if "i < 26" for i
    unfolding resize_disk_def grow_disk_def Let_def by (intro ask_intros resize_understood assms that) auto
  ultimately have "emits (understood vm info) (live_disk env vm spec host payload)"
    unfolding live_disk_def Let_def using assms(3) by (intro ask_intros) auto
  with cd assms(4) show ?thesis by (auto simp: live_change_locked_def)
qed

theorem storage_changes_are_understood_witness:
  "emits (understood ''web'' \<lparr>di_state = ''running'', di_vcpus = Some 2, di_vcpu_max = Some 8, di_mem_max = None\<rparr>)
     (live_change_locked (live_lab ''20GB,10GB'' 0) ''web'' (live_spec ''20GB,10GB'' []) ''10.0.0.1'' ''disk'' [(''action'', J_Str ''attach''), (''size_gib'', J_Num 4)])"
proof -
  have "name_shape 55 ''web''" "lower ''running'' = ''running''" "length (vm_disk_entries (vs_disks (live_spec ''20GB,10GB'' []))) \<le> 26"
    by code_simp+
  then show ?thesis by (intro storage_changes_are_understood) simp_all
qed

section \<open>A request and its answer\<close>

text \<open>The run of a step; its file, if it has one, is gone when the step is over.\<close>

definition ran_step :: "live_step \<Rightarrow> bool \<Rightarrow> kevent list \<Rightarrow> bool" where
  "ran_step st ok es \<longleftrightarrow>
     (case ls_xml st of
        None \<Rightarrow> \<exists>rc. es = [K_Run (ls_argv st) rc] \<and> ok = (rc = 0)
      | Some xml \<Rightarrow> \<exists>path rc. es = [K_File path xml, K_Run (map (\<lambda>a. if a = live_xml_path then path else a) (ls_argv st)) rc, K_Unlink path] \<and> ok = (rc = 0))"

text \<open>The steps that ran well, one after the other, and their events.\<close>

inductive ran_steps :: "live_step list \<Rightarrow> kevent list \<Rightarrow> bool" where
  none: "ran_steps [] []"
| more: "ran_step st True es \<Longrightarrow> ran_steps steps es' \<Longrightarrow> ran_steps (st # steps) (es @ es')"

inductive answered :: "string \<Rightarrow> string \<Rightarrow> int \<times> (string \<times> jval) list \<Rightarrow> kevent list \<Rightarrow> bool" for name raw where
  ill_formed: "\<not> name_shape 62 name \<or> read_json_payload raw = Inl e \<Longrightarrow> answered name raw (400, body) []"
| absent: "rc \<noteq> 0 \<Longrightarrow> answered name raw (404, body) [K_Run (virsh @ [''dominfo'', name]) rc]"
| impossible: "read_json_payload raw = Inr payload \<Longrightarrow> plan_live_change name payload info = Inl problem \<Longrightarrow>
    answered name raw (409, [(''error'', J_Str problem), (''applied'', texts [])])
      [K_Run (virsh @ [''dominfo'', name]) 0, K_Run (virsh @ [''vcpucount'', name, ''--maximum'', ''--live'']) rc]"
| applied: "read_json_payload raw = Inr payload \<Longrightarrow> plan_live_change name payload info = Inr steps \<Longrightarrow> ran_steps steps es \<Longrightarrow>
    answered name raw (200, [(''applied'', texts (map ls_what steps)), (''state'', J_Str (di_state info))])
      ([K_Run (virsh @ [''dominfo'', name]) 0, K_Run (virsh @ [''vcpucount'', name, ''--maximum'', ''--live'']) rc] @ es)"
| broken: "read_json_payload raw = Inr payload \<Longrightarrow> plan_live_change name payload info = Inr (before @ st # later) \<Longrightarrow>
    ran_steps before es \<Longrightarrow> ran_step st False es' \<Longrightarrow>
    answered name raw (409, [(''error'', J_Str (''failed to '' @ ls_what st @ '': '' @ detail)), (''applied'', texts (map ls_what before))])
      ([K_Run (virsh @ [''dominfo'', name]) 0, K_Run (virsh @ [''vcpucount'', name, ''--maximum'', ''--live'']) rc] @ es @ es')"

lemma yields_step: "yields (run_live_step env st) (\<lambda>r. ran_step st (r = None))"
  unfolding run_live_step_def run_command_def run_argv_def
  by (intro yields_intros) (auto simp: ran_step_def)

lemma ran_steps_append: "ran_steps xs es \<Longrightarrow> ran_step st True es' \<Longrightarrow> ran_steps (xs @ [st]) (es @ es')"
proof (induction rule: ran_steps.induct)
  case none
  then show ?case using ran_steps.more [OF _ ran_steps.none] by fastforce
next
  case (more st' es steps es'')
  then show ?case using ran_steps.more [of st' es "steps @ [st]" "es'' @ es'"] by simp
qed

definition steps_result :: "live_step list \<Rightarrow> kevent list \<Rightarrow> (string \<times> string list) + string list \<Rightarrow> bool" where
  "steps_result steps es r =
     (case r of
        Inr applied \<Rightarrow> applied = map ls_what steps \<and> ran_steps steps es
      | Inl (e, applied) \<Rightarrow> \<exists>had st later fs gs detail. steps = had @ st # later \<and> es = fs @ gs \<and> ran_steps had fs \<and> ran_step st False gs
          \<and> e = ''failed to '' @ ls_what st @ '': '' @ detail \<and> applied = map ls_what had)"

lemma steps_result_failed:
  "ran_steps pre es \<Longrightarrow> ran_step st False es' \<Longrightarrow>
     steps_result (pre @ st # steps) (es @ es') (Inl (''failed to '' @ ls_what st @ '': '' @ detail, map ls_what pre))"
  unfolding steps_result_def sum.case prod.case by blast

lemma yields_steps: "ran_steps pre es \<Longrightarrow> yields (run_live_steps env (map ls_what pre) steps) (\<lambda>r es'. steps_result (pre @ steps) (es @ es') r)"
proof (induction steps arbitrary: pre es)
  case Nil
  then show ?case by (auto intro!: yields_ret simp: steps_result_def)
next
  case (Cons st steps)
  have go: "yields (run_live_steps env (map ls_what pre @ [ls_what st]) steps) (\<lambda>r es''. steps_result (pre @ st # steps) (es @ es' @ es'') r)"
    if "ran_step st True es'" for es'
    using Cons.IH [OF ran_steps_append [OF Cons.prems that]] by simp
  show ?case
    unfolding run_live_steps.simps
    by (intro yields_bind yields_mono [OF yields_step] yields_case_option yields_ret) (use go steps_result_failed [OF Cons.prems] in auto)
qed

lemma yields_info:
  "yields (read_live_domain_info env name)
     (\<lambda>r es. case r of
        None \<Rightarrow> \<exists>rc. rc \<noteq> 0 \<and> es = [K_Run (virsh @ [''dominfo'', name]) rc]
      | Some _ \<Rightarrow> \<exists>rc. es = [K_Run (virsh @ [''dominfo'', name]) 0, K_Run (virsh @ [''vcpucount'', name, ''--maximum'', ''--live'']) rc])"
  unfolding read_live_domain_info_def run_argv_def Let_def by (intro yields_intros) auto

lemma answered_steps:
  assumes "read_json_payload raw = Inr payload" "plan_live_change name payload info = Inr steps" "steps_result steps es r"
    and "es0 = [K_Run (virsh @ [''dominfo'', name]) 0, K_Run (virsh @ [''vcpucount'', name, ''--maximum'', ''--live'']) rc]"
  shows "answered name raw
    (case r of Inl (e, applied) \<Rightarrow> (409, [(''error'', J_Str e), (''applied'', texts applied)])
     | Inr applied \<Rightarrow> (200, [(''applied'', texts applied), (''state'', J_Str (di_state info))])) (es0 @ es)"
proof (cases r)
  case (Inl p)
  with assms(2,3) show ?thesis unfolding assms(4)
    by (auto simp: steps_result_def split: prod.splits intro: answered.broken [OF assms(1), simplified])
next
  case (Inr applied)
  with assms(2,3) show ?thesis unfolding assms(4) by (auto simp: steps_result_def intro: answered.applied [OF assms(1), simplified])
qed

text \<open>
  A request is answered by what was done. The daemon says 200 exactly when the change has a plan and every step of it ran well, and lists the steps; when one fails the steps before it are listed
  and those after it do not run; without a plan, a domain or a readable request no command is run that changes anything. The file of a device's XML never outlives its step.
\<close>

theorem live_requests_are_answered: "yields (handle_vm_live env name raw) (answered name raw)"
proof -
  have run: "yields (run_live_steps env [] steps) (\<lambda>a es. yields
      (ret (case a of Inl (e, applied) \<Rightarrow> (409, [(''error'', J_Str e), (''applied'', texts applied)])
            | Inr applied \<Rightarrow> (200, [(''applied'', texts applied), (''state'', J_Str (di_state i))])))
      (\<lambda>b es'. answered name raw b
        (K_Run (virsh @ [''dominfo'', name]) 0 # K_Run (virsh @ [''vcpucount'', name, ''--maximum'', ''--live'']) rc # es @ es')))"
    if "read_json_payload raw = Inr payload" "plan_live_change name payload i = Inr steps" for payload i steps rc
    by (intro yields_mono [OF yields_steps [OF ran_steps.none, unfolded list.map]] yields_ret)
      (use answered_steps [OF that _ refl] in simp)
  show ?thesis unfolding handle_vm_live_def valid_name_def
    by (intro yields_if yields_case_sum yields_bind yields_mono [OF yields_info] yields_case_option yields_ret)
      (auto intro: answered.ill_formed answered.absent answered.impossible run)
qed

end
