(* ===== verification/Urbosa.thy ===== *)
theory Urbosa
  imports Schema Md5 Json_Read
begin

text \<open>
  The transit links of the overlay network (\<open>src/urbosa.py\<close>): reading a table so that a failed read is not taken for an empty one, the pool of transit slots with its claim and
  its release, and the addresses of a slot.
\<close>

section \<open>Tables\<close>

text \<open>
  \<open>ub_query\<close> is \<open>run_cql_query\<close>, \<open>ub_cas\<close> is \<open>run_conditional_cql_query\<close>, \<open>ub_run\<close> is \<open>run_cmd\<close>, \<open>ub_argv\<close> is \<open>read_proc_argv\<close>,
  \<open>ub_leader\<close> is \<open>is_leader\<close> and \<open>ub_now\<close> the time in milliseconds.
\<close>

record 'w urbosa_env =
  ub_query :: "string \<Rightarrow> 'w \<Rightarrow> (int \<times> string \<times> string) \<times> 'w"
  ub_cas :: "string \<Rightarrow> 'w \<Rightarrow> (int \<times> string \<times> string) \<times> 'w"
  ub_run :: "string \<Rightarrow> 'w \<Rightarrow> (int \<times> string \<times> string) \<times> 'w"
  ub_argv :: "string \<Rightarrow> 'w \<Rightarrow> string list \<times> 'w"
  ub_leader :: "'w \<Rightarrow> bool \<times> 'w"
  ub_now :: "'w \<Rightarrow> int \<times> 'w"

datatype uevent = U_Query string int string | U_Cas string int string | U_Run string int

type_synonym jrow = "(string \<times> jval) list"

definition got :: "jrow \<Rightarrow> string \<Rightarrow> jval" where
  "got row k = (case map_of row k of Some v \<Rightarrow> v | None \<Rightarrow> J_Null)"

definition truthy_got :: "jrow \<Rightarrow> string \<Rightarrow> bool" where
  "truthy_got row k = truthy_jval (map_of row k)"

text \<open>\<open>int\<close> of a value of a row, \<^const>\<open>None\<close> where it raises.\<close>

definition int_of_jval :: "jval \<Rightarrow> int option" where
  "int_of_jval v = (case v of J_Num n \<Rightarrow> Some n | J_Bool b \<Rightarrow> Some (if b then 1 else 0) | J_Str s \<Rightarrow> int_of_text s | _ \<Rightarrow> None)"

definition query :: "'w urbosa_env \<Rightarrow> string \<Rightarrow> ('w, uevent, int \<times> string \<times> string) eff" where
  "query env q = act (ub_query env q) (\<lambda>r. U_Query q (fst r) (fst (snd r)))"

definition row_of_line :: "string \<Rightarrow> jrow option option" where
  "row_of_line line =
     (let l = strip line
      in if starts_with l ''{'' \<and> ends_with l ''}'' then Some (case loads l of Some (J_Dict d) \<Rightarrow> Some d | _ \<Rightarrow> None) else None)"

text \<open>A line that looks like a row and is none spoils the whole answer.\<close>

definition table_rows :: "string \<Rightarrow> jrow list option" where
  "table_rows out = (let rows = List.map_filter row_of_line (splitlines out) in if None \<in> set rows then None else Some (map the rows))"

definition read_json_table :: "'w urbosa_env \<Rightarrow> string \<Rightarrow> string \<Rightarrow> ('w, uevent, jrow list option) eff" where
  "read_json_table env table columns = do {
     (rc, out, _) \<leftarrow> query env (''SELECT JSON '' @ columns @ '' FROM '' @ table @ '';'');
     ret (if rc \<noteq> 0 then None else table_rows out) }"

definition get_db_routers_t0 :: "'w urbosa_env \<Rightarrow> ('w, uevent, jrow list option) eff" where
  "get_db_routers_t0 env = read_json_table env ''hydra.urbosa_t0_routers'' ''*''"

definition get_db_routers_t1 :: "'w urbosa_env \<Rightarrow> ('w, uevent, jrow list option) eff" where
  "get_db_routers_t1 env = read_json_table env ''hydra.urbosa_t1_routers'' ''*''"

definition get_db_segments :: "'w urbosa_env \<Rightarrow> ('w, uevent, jrow list option) eff" where
  "get_db_segments env = read_json_table env ''hydra.urbosa_segments'' ''*''"

definition get_db_node_ips :: "'w urbosa_env \<Rightarrow> ('w, uevent, jval list option) eff" where
  "get_db_node_ips env = do {
     rows \<leftarrow> read_json_table env ''hydra.nodes'' ''ip'';
     ret (case rows of
            None \<Rightarrow> None
          | Some rs \<Rightarrow> let ips = map (\<lambda>r. got r ''ip'') (filter (\<lambda>r. truthy_got r ''ip'') rs) in if ips = [] then None else Some ips) }"

section \<open>Transit slots\<close>

definition transit_table :: string where "transit_table = ''hydra.urbosa_transit_pool''"

definition transit_slots :: int where "transit_slots = 16384"

definition transit_claim_attempts :: nat where "transit_claim_attempts = 8"

definition transit_address :: "int \<Rightarrow> int \<Rightarrow> string" where
  "transit_address index k =
     ''100.64.'' @ show_int (index div 64 mod 256) @ ''.'' @ show_int (index mod 64 * 4 + k) @ ''/30''"

text \<open>The addresses of the two ends and of the network; \<^const>\<open>None\<close> for a slot outside the pool, where the code raises.\<close>

definition transit_addresses :: "int \<Rightarrow> (string \<times> string \<times> string) option" where
  "transit_addresses index =
     (if \<not> (0 \<le> index \<and> index < transit_slots) then None
      else Some (transit_address index 1, transit_address index 2, transit_address index 0))"

definition preferred_transit_index :: "string \<Rightarrow> int" where
  "preferred_transit_index router_id =
     foldl (\<lambda>n c. 16 * n + int (case hex_val c of Some d \<Rightarrow> d | None \<Rightarrow> 0)) 0 (take 4 (md5_hex router_id)) mod transit_slots"

text \<open>\<open>s.replace(old, "")\<close>.\<close>

function remove_all :: "string \<Rightarrow> string \<Rightarrow> string" where
  "remove_all old s = (if s = [] \<or> old = [] then s else if starts_with s old then remove_all old (drop (length old) s) else hd s # remove_all old (tl s))"
  by pat_completeness auto

termination by (relation "measure (\<lambda>(_, s). length s)") auto

declare remove_all.simps [simp del]

definition strip_braces :: "string \<Rightarrow> string" where
  "strip_braces s = (let brace = (\<lambda>c. c = CHR ''{'' \<or> c = CHR ''}'') in rev (dropWhile brace (rev (dropWhile brace s))))"

text \<open>Whether \<open>uuid.UUID\<close> accepts the text.\<close>

definition is_uuid :: "string \<Rightarrow> bool" where
  "is_uuid s =
     (let hex = filter (\<lambda>c. c \<noteq> CHR ''-'') (strip_braces (remove_all ''uuid:'' (remove_all ''urn:'' s)))
      in length hex = 32 \<and> accepts_base16 hex)"

definition lwt_was_applied :: "string \<Rightarrow> bool" where
  "lwt_was_applied out =
     (let body = strip out
      in if body = [] then False
         else if contains body ''[applied]'' then first_verdict (splitlines body)
         else (case split_ws body of [] \<Rightarrow> False | w # _ \<Rightarrow> w \<in> {''True'', ''true''}))"

type_synonym pool = "(int \<times> string) list"

definition pool_of_rows :: "jrow list \<Rightarrow> pool" where
  "pool_of_rows rows = foldl (\<lambda>p row. case int_of_jval (got row ''subnet_index'') of
       None \<Rightarrow> p | Some i \<Rightarrow> if truthy_got row ''router_id'' then dict_set i (jval_text (got row ''router_id'')) p else p) [] rows"

definition read_transit_pool :: "'w urbosa_env \<Rightarrow> ('w, uevent, pool option) eff" where
  "read_transit_pool env = do {
     rows \<leftarrow> read_json_table env transit_table ''subnet_index, router_id'';
     ret (map_option pool_of_rows rows) }"

definition next_free_transit_index :: "string \<Rightarrow> pool \<Rightarrow> int option" where
  "next_free_transit_index router_id p =
     (let preferred = preferred_transit_index router_id
      in if preferred \<notin> fst ` set p then Some preferred
         else find (\<lambda>i. i \<notin> fst ` set p) (map int [0..<nat transit_slots]))"

definition claim_statement :: "int \<Rightarrow> string \<Rightarrow> string \<Rightarrow> int \<Rightarrow> string" where
  "claim_statement index router_id node_id now =
     ''INSERT INTO '' @ transit_table @ '' (subnet_index, router_id, node_id, allocated_at_ms) VALUES ('' @ show_int index @ '', '' @ quoted router_id @ '', ''
     @ quoted node_id @ '', '' @ show_int now @ '') IF NOT EXISTS;''"

definition release_statement :: "int \<Rightarrow> string \<Rightarrow> string" where
  "release_statement index router_id =
     ''DELETE FROM '' @ transit_table @ '' WHERE subnet_index = '' @ show_int index @ '' IF router_id = '' @ quoted router_id @ '';''"

definition conditional_query :: "'w urbosa_env \<Rightarrow> string \<Rightarrow> ('w, uevent, int \<times> string \<times> string) eff" where
  "conditional_query env q = act (ub_cas env q) (\<lambda>r. U_Cas q (fst r) (fst (snd r)))"

definition held_slot :: "string \<Rightarrow> pool \<Rightarrow> int option" where
  "held_slot router_id p = map_option fst (find (\<lambda>(i, owner). owner = router_id) (sort_key fst p))"

text \<open>The attempts at a claim; on the left the slot for which the code raises.\<close>

fun claim_tries :: "'w urbosa_env \<Rightarrow> string \<Rightarrow> string \<Rightarrow> nat \<Rightarrow> pool option \<Rightarrow> ('w, uevent, int + int option) eff" where
  "claim_tries env router_id node_id 0 known = okE None"
| "claim_tries env router_id node_id (Suc n) known = do {
     p \<leftarrow> (case known of Some p \<Rightarrow> ret (Some p) | None \<Rightarrow> read_transit_pool env);
     case p of
       None \<Rightarrow> okE None
     | Some p \<Rightarrow>
         (case held_slot router_id p of
            Some i \<Rightarrow> if transit_addresses i = None then raiseE i else okE (Some i)
          | None \<Rightarrow>
              (case next_free_transit_index router_id p of
                 None \<Rightarrow> okE None
               | Some i \<Rightarrow> do {
                   now \<leftarrow> look (ub_now env);
                   (rc, out, _) \<leftarrow> conditional_query env (claim_statement i router_id node_id now);
                   if rc \<noteq> 0 then okE None
                   else if lwt_was_applied out then okE (Some i)
                   else claim_tries env router_id node_id n None })) }"

definition claim_transit_index :: "'w urbosa_env \<Rightarrow> string \<Rightarrow> string \<Rightarrow> pool option \<Rightarrow> ('w, uevent, int + int option) eff" where
  "claim_transit_index env router_id node_id known =
     (if \<not> is_uuid router_id then okE None else claim_tries env router_id node_id transit_claim_attempts known)"

definition release_transit_index :: "'w urbosa_env \<Rightarrow> int \<Rightarrow> string \<Rightarrow> ('w, uevent, bool) eff" where
  "release_transit_index env index router_id =
     (if \<not> is_uuid router_id then ret False
      else do {
        (rc, out, _) \<leftarrow> conditional_query env (release_statement index router_id);
        ret (if rc \<noteq> 0 then False else lwt_was_applied out) })"

section \<open>Two slots are two networks\<close>

lemma append_at: "c \<notin> set a \<Longrightarrow> c \<notin> set b \<Longrightarrow> a @ c # s = b @ c # t \<longleftrightarrow> a = b \<and> s = t"
proof (induction a arbitrary: b)
  case Nil
  then show ?case by (cases b) auto
next
  case (Cons x a)
  then show ?case by (cases b) auto
qed

lemma show_int_clean: "0 \<le> n \<Longrightarrow> \<not> is_digit c \<Longrightarrow> c \<notin> set (show_int n)"
  using show_nat_digits [of "nat n"] by (auto simp: show_int_def)

lemma separators: "\<not> is_digit CHR ''.''" "\<not> is_digit CHR ''/''"
  by (simp_all add: is_digit_def)

lemma transit_address_inject:
  assumes "0 \<le> i" "i < transit_slots" "0 \<le> j" "j < transit_slots" "0 \<le> k" "k < 4" "0 \<le> l" "l < 4"
    and eq: "transit_address i k = transit_address j l"
  shows "i = j \<and> k = l"
proof -
  have "0 \<le> i div 64 mod 256" "0 \<le> j div 64 mod 256" "0 \<le> i mod 64 * 4 + k" "0 \<le> j mod 64 * 4 + l" using assms(5,7) by simp_all
  then have "show_int (i div 64 mod 256) = show_int (j div 64 mod 256) \<and> show_int (i mod 64 * 4 + k) = show_int (j mod 64 * 4 + l)"
    using eq by (simp add: transit_address_def append_at show_int_clean separators)
  then have d: "i div 64 mod 256 = j div 64 mod 256" "i mod 64 * 4 + k = j mod 64 * 4 + l" by simp_all
  then have "k = l" "i mod 64 = j mod 64" using assms(5-8) by presburger+
  moreover have "i div 64 = j div 64" using d(1) assms(1-4) by (simp add: transit_slots_def)
  ultimately show ?thesis by (metis div_mult_mod_eq)
qed

text \<open>
  Every slot of the pool has its own three addresses, each of them a proper one: two routers that hold different slots share none, so a return path
  to one tenant never leads to another.
\<close>

theorem transit_links_are_apart:
  assumes "0 \<le> i" "i < transit_slots" "0 \<le> j" "j < transit_slots" "i \<noteq> j"
  shows "\<exists>a b n a' b' n'. transit_addresses i = Some (a, b, n) \<and> transit_addresses j = Some (a', b', n') \<and> distinct [a, b, n, a', b', n']
    \<and> i div 64 mod 256 \<le> 255 \<and> i mod 64 * 4 + 2 \<le> 255"
proof -
  have apart: "transit_address i k \<noteq> transit_address j l" if "0 \<le> k" "k < 4" "0 \<le> l" "l < 4" for k l
    using transit_address_inject [of i j k l] assms that by blast
  have own: "transit_address m k \<noteq> transit_address m l" if "0 \<le> k" "k < 4" "0 \<le> l" "l < 4" "k \<noteq> l" "0 \<le> m" "m < transit_slots" for m k l
    using transit_address_inject [of m m k l] that by blast
  have "i div 64 mod 256 \<le> 255" "i mod 64 * 4 + 2 \<le> 255"
    using pos_mod_bound [of 256 "i div 64"] pos_mod_bound [of 64 i] by linarith+
  moreover have "distinct [transit_address i 1, transit_address i 2, transit_address i 0, transit_address j 1, transit_address j 2, transit_address j 0]"
    using assms by (simp add: apart own)
  ultimately show ?thesis using assms unfolding transit_addresses_def by auto
qed

theorem transit_links_are_apart_witness:
  "\<exists>a b n a' b' n'. transit_addresses 5 = Some (a, b, n) \<and> transit_addresses 16383 = Some (a', b', n') \<and> distinct [a, b, n, a', b', n']"
  using transit_links_are_apart [of 5 16383] by (simp add: transit_slots_def)

section \<open>A slot is claimed before it is used\<close>

definition is_cas :: "uevent \<Rightarrow> bool" where
  "is_cas e = (case e of U_Cas _ _ _ \<Rightarrow> True | _ \<Rightarrow> False)"

text \<open>The last event shows that the router holds the slot: it was just inserted for it, or a whole read of the pool names it.\<close>

definition proves_slot :: "string \<Rightarrow> string \<Rightarrow> int \<Rightarrow> uevent \<Rightarrow> bool" where
  "proves_slot router node i e \<longleftrightarrow>
     (\<exists>now out. e = U_Cas (claim_statement i router node now) 0 out \<and> lwt_was_applied out)
     \<or> (\<exists>q out rows. e = U_Query q 0 out \<and> table_rows out = Some rows \<and> held_slot router (pool_of_rows rows) = Some i)"

text \<open>
  What a claim comes to: a slot of the pool only on proof (or as the pool that was handed in names it), no more than \<open>n\<close> statements, each for this router, and none that was applied
  without being the answer.
\<close>

definition claim_outcome :: "string \<Rightarrow> string \<Rightarrow> nat \<Rightarrow> pool option \<Rightarrow> int + int option \<Rightarrow> uevent list \<Rightarrow> bool" where
  "claim_outcome router node n known res es \<longleftrightarrow>
     (\<forall>i. res = Inr (Some i) \<longrightarrow> 0 \<le> i \<and> i < transit_slots
        \<and> (if es = [] then (\<exists>p. known = Some p \<and> held_slot router p = Some i) else proves_slot router node i (List.last es)))
     \<and> (\<forall>q rc out. U_Cas q rc out \<in> set es \<longrightarrow>
          (\<exists>i now. q = claim_statement i router node now \<and> (rc = 0 \<and> lwt_was_applied out \<longrightarrow> res = Inr (Some i))))
     \<and> length (filter is_cas es) \<le> n"

lemma free_slot_bounds: "next_free_transit_index router p = Some i \<Longrightarrow> 0 \<le> i \<and> i < transit_slots"
  by (auto simp: next_free_transit_index_def preferred_transit_index_def transit_slots_def Let_def find_Some_iff split: if_splits)

lemma yields_pool: "yields (read_transit_pool env)
    (\<lambda>p es. \<exists>q rc out. es = [U_Query q rc out] \<and> (\<forall>x. p = Some x \<longrightarrow> rc = 0 \<and> (\<exists>rows. table_rows out = Some rows \<and> x = pool_of_rows rows)))"
  unfolding read_transit_pool_def read_json_table_def query_def by (intro yields_intros) auto

abbreviation no_cas :: "uevent list \<Rightarrow> bool" where
  "no_cas es \<equiv> filter is_cas es = []"

lemma no_cas_member: "no_cas es \<Longrightarrow> U_Cas q rc out \<notin> set es"
  by (auto simp: filter_empty_conv is_cas_def)

lemma claim_outcome_none: "no_cas es \<Longrightarrow> (\<And>i. res \<noteq> Inr (Some i)) \<Longrightarrow> claim_outcome router node n known res es"
  by (auto simp: claim_outcome_def no_cas_member)

lemma claim_outcome_held:
  assumes "no_cas es" "transit_addresses i \<noteq> None" "held_slot router x = Some i"
    and "if es = [] then known = Some x else proves_slot router node i (List.last es)"
  shows "claim_outcome router node n known (Inr (Some i)) es"
  using assms by (auto simp: claim_outcome_def no_cas_member transit_addresses_def split: if_splits)

lemma claim_outcome_granted:
  assumes "no_cas es" "next_free_transit_index router x = Some i" "lwt_was_applied out"
  shows "claim_outcome router node (Suc n) known (Inr (Some i)) (es @ [U_Cas (claim_statement i router node now) 0 out])"
  using assms free_slot_bounds [OF assms(2)] by (auto simp: claim_outcome_def proves_slot_def is_cas_def dest: no_cas_member)

lemma claim_outcome_failed:
  assumes "no_cas es" "rc \<noteq> 0"
  shows "claim_outcome router node (Suc n) known (Inr None) (es @ [U_Cas (claim_statement i router node now) rc out])"
  using assms by (auto simp: claim_outcome_def is_cas_def dest: no_cas_member)

lemma claim_outcome_later:
  assumes "claim_outcome router node n None res es'" "\<not> lwt_was_applied out" "no_cas es"
  shows "claim_outcome router node (Suc n) known res (es @ U_Cas (claim_statement i router node now) rc out # es')"
proof -
  have "\<not> (res = Inr (Some k) \<and> es' = [])" for k using assms(1) by (auto simp: claim_outcome_def)
  then show ?thesis using assms unfolding claim_outcome_def by (auto simp: is_cas_def dest: no_cas_member)
qed

lemma yields_tries: "yields (claim_tries env router node n known) (claim_outcome router node n known)"
proof (induction n arbitrary: known)
  case 0
  show ?case by (auto intro!: yields_ret claim_outcome_none)
next
  case (Suc n)
  let ?rest = "\<lambda>p. case p of None \<Rightarrow> okE None
     | Some p \<Rightarrow> (case held_slot router p of
            Some i \<Rightarrow> if transit_addresses i = None then raiseE i else okE (Some i)
          | None \<Rightarrow> (case next_free_transit_index router p of None \<Rightarrow> okE None
               | Some i \<Rightarrow> do {
                   now \<leftarrow> look (ub_now env);
                   (rc, out, _) \<leftarrow> conditional_query env (claim_statement i router node now);
                   if rc \<noteq> 0 then okE None else if lwt_was_applied out then okE (Some i) else claim_tries env router node n None }))"
  have rest: "yields (?rest p) (\<lambda>res es'. claim_outcome router node (Suc n) known res (es @ es'))"
    if es: "no_cas es"
      and held: "\<And>x i. p = Some x \<Longrightarrow> held_slot router x = Some i \<Longrightarrow> if es = [] then known = Some x else proves_slot router node i (List.last es)" for p es
    unfolding conditional_query_def
    by (intro yields_intros yields_mono [OF Suc.IH])
      (simp_all add: es claim_outcome_none claim_outcome_held [OF es _ _ held] claim_outcome_granted [OF es] claim_outcome_failed [OF es] claim_outcome_later [OF _ _ es])
  show ?case
  proof (cases known)
    case None
    show ?thesis unfolding claim_tries.simps None option.case
      by (rule yields_bind, rule yields_mono [OF yields_pool], rule rest [unfolded None]) (auto simp: is_cas_def proves_slot_def)
  next
    case (Some p)
    then show ?thesis unfolding claim_tries.simps
      using rest [of "[]" "Some p"] by (auto intro!: yields_bind yields_ret)
  qed
qed

text \<open>
  C19. A router gets a slot only if the database granted or recorded it, and a slot that was granted is never lost on the way: no answer, a refusal or a pool that cannot be read give no slot
  rather than one worked out from the router's name.
\<close>

theorem slots_are_claimed: "yields (claim_transit_index env router node known) (claim_outcome router node 8 known)"
  unfolding claim_transit_index_def transit_claim_attempts_def
  by (intro yields_if yields_tries yields_ret) (simp add: claim_outcome_def)

end
