(* ===== verification/Urbosa_Reclaim.thy ===== *)
theory Urbosa_Reclaim
  imports Urbosa
begin

text \<open>
  The collector of \<open>src/urbosa.py\<close>, which removes what the database no longer asks for: the desired state, the inventory of a host, the plan over both, its execution and the pass.
  \<^const>\<open>None\<close> for a list of the inventory means that it could not be read.
\<close>

section \<open>Names\<close>

text \<open>The patterns end in a dollar sign, which also matches before a final line feed.\<close>

definition before_eol :: "string \<Rightarrow> string" where
  "before_eol s = (if s \<noteq> [] \<and> List.last s = CHR 0x0A then butlast s else s)"

definition numbered :: "string \<Rightarrow> string \<Rightarrow> int option" where
  "numbered pre s =
     (let d = before_eol (drop (length pre) s)
      in if starts_with s pre \<and> d \<noteq> [] \<and> list_all is_digit d then Some (int (read_nat d)) else None)"

definition tagged :: "string \<Rightarrow> string \<Rightarrow> string option" where
  "tagged pre s =
     (let d = before_eol (drop (length pre) s)
      in if starts_with s pre \<and> length d = 8 \<and> list_all hex_lower d then Some d else None)"

definition ns_t0 :: "string \<Rightarrow> string option" where "ns_t0 = tagged ''ns-t0-''"
definition ns_t1 :: "string \<Rightarrow> string option" where "ns_t1 = tagged ''ns-t1-''"
definition br_ov :: "string \<Rightarrow> int option" where "br_ov = numbered ''br-ov-''"
definition vxlan :: "string \<Rightarrow> int option" where "vxlan = numbered ''vxlan-''"
definition veth_ov :: "string \<Rightarrow> int option" where "veth_ov = numbered ''veth-ov-''"
definition veth_t1 :: "string \<Rightarrow> int option" where "veth_t1 = numbered ''veth-t1-''"
definition macvlan_t0 :: "string \<Rightarrow> string option" where "macvlan_t0 = tagged ''mv-t0-''"

definition transit_veth :: "string \<Rightarrow> string option" where
  "transit_veth s = (case tagged ''t0-'' s of Some p \<Rightarrow> Some p | None \<Rightarrow> tagged ''t1-'' s)"

definition flood_mac :: string where "flood_mac = ''00:00:00:00:00:00''"

section \<open>The desired state\<close>

record desired =
  de_t0_prefixes :: "string list"
  de_t1_prefixes :: "string list"
  de_t1_ids :: "string list"
  de_vnis :: "int list"
  de_segment_ns :: "(int \<times> string) list"
  de_dnsmasq :: "(string \<times> string list) list"
  de_peers :: "jval list option"
  de_leader :: bool
  de_pool :: "pool option"
  de_t0_routes :: "(string \<times> (string \<times> string) list option) list"

definition router_ids :: "jrow list \<Rightarrow> string list" where
  "router_ids rows = map (\<lambda>r. jval_text (got r ''router_id'')) (filter (\<lambda>r. truthy_got r ''router_id'') rows)"

definition ns_name_of :: "string \<Rightarrow> string \<Rightarrow> string" where
  "ns_name_of tier router_id = ''ns-'' @ tier @ ''-'' @ take 8 router_id"

definition router_dhcp :: "jrow list \<Rightarrow> (string \<times> string list) list" where
  "router_dhcp t1_routers = foldl (\<lambda>d r. if truthy_got r ''router_id''
     then dict_set (ns_name_of ''t1'' (jval_text (got r ''router_id''))) (if truthy_got r ''dhcp_enabled'' then [''lo''] else []) d else d) [] t1_routers"

type_synonym segment_state = "int list \<times> (int \<times> string) list \<times> (string \<times> string list) list"

definition add_segment :: "segment_state \<Rightarrow> jrow \<Rightarrow> segment_state" where
  "add_segment st seg =
     (case st of (vnis, segment_ns, dns) \<Rightarrow>
        case int_of_jval (got seg ''vni'') of
          None \<Rightarrow> st
        | Some vni \<Rightarrow>
            if \<not> truthy_got seg ''t1_link_id'' then (vnis @ [vni], segment_ns, dns)
            else (let ns = ns_name_of ''t1'' (jval_text (got seg ''t1_link_id''))
                  in (vnis @ [vni], dict_set vni ns segment_ns,
                      case map_of dns ns of
                        Some allowed \<Rightarrow>
                          if truthy_got seg ''dhcp_enabled'' \<and> truthy_got seg ''dhcp_start'' \<and> truthy_got seg ''dhcp_end''
                          then dict_set ns (allowed @ [''veth-t1-'' @ show_int vni]) dns else dns
                      | None \<Rightarrow> dns)))"

definition build_desired_state ::
    "jrow list \<Rightarrow> jrow list \<Rightarrow> jrow list \<Rightarrow> jval list option \<Rightarrow> bool \<Rightarrow> pool option \<Rightarrow> (string \<times> (string \<times> string) list option) list \<Rightarrow> desired" where
  "build_desired_state t0_routers t1_routers segments node_ips leader p t0_routes =
     (case foldl add_segment ([], [], router_dhcp t1_routers) segments of (vnis, segment_ns, dns) \<Rightarrow>
        \<lparr>de_t0_prefixes = map (take 8) (router_ids t0_routers), de_t1_prefixes = map (take 8) (router_ids t1_routers), de_t1_ids = router_ids t1_routers,
         de_vnis = vnis, de_segment_ns = segment_ns, de_dnsmasq = dns, de_peers = (case node_ips of Some [] \<Rightarrow> None | v \<Rightarrow> v), de_leader = leader,
         de_pool = p, de_t0_routes = t0_routes\<rparr>)"

text \<open>The return routes of the tier-0 namespaces; the whole is \<^const>\<open>None\<close> where the code raises for a slot outside the pool.\<close>

type_synonym routes = "(string \<times> (string \<times> string) list option) list"

definition segment_routes :: "jrow list \<Rightarrow> string \<Rightarrow> string \<Rightarrow> (string \<times> string) list" where
  "segment_routes segments t1_id hop =
     map (\<lambda>s. (jval_text (got s ''subnet_cidr''), hop)) (filter (\<lambda>s. jval_text (got s ''t1_link_id'') = t1_id \<and> truthy_got s ''subnet_cidr'') segments)"

definition slot_of :: "string \<Rightarrow> pool option \<Rightarrow> int option" where
  "slot_of t1_id p = (case p of None \<Rightarrow> None | Some q \<Rightarrow> map_option fst (find (\<lambda>(i, owner). owner = t1_id) q))"

definition add_t1_routes :: "jrow list \<Rightarrow> pool option \<Rightarrow> routes \<Rightarrow> jrow \<Rightarrow> routes option" where
  "add_t1_routes segments p wanted t1 =
     (if \<not> truthy_got t1 ''t0_link_id'' \<or> \<not> truthy_got t1 ''router_id'' then Some wanted
      else (let ns = ns_name_of ''t0'' (jval_text (got t1 ''t0_link_id'')); t1_id = jval_text (got t1 ''router_id'')
            in case map_of wanted ns of
                 None \<Rightarrow> Some wanted
               | Some w \<Rightarrow>
                   (case slot_of t1_id p of
                      None \<Rightarrow> Some (dict_set ns None wanted)
                    | Some index \<Rightarrow>
                        (case w of
                           None \<Rightarrow> Some wanted
                         | Some rs \<Rightarrow>
                             (case transit_addresses index of
                                None \<Rightarrow> None
                              | Some (_, t1_ip, _) \<Rightarrow>
                                  Some (dict_set ns (Some (rs @ segment_routes segments t1_id (takeWhile (\<lambda>c. c \<noteq> CHR ''/'') t1_ip))) wanted))))))"

definition plan_t0_routes :: "jrow list \<Rightarrow> jrow list \<Rightarrow> jrow list \<Rightarrow> pool option \<Rightarrow> routes option" where
  "plan_t0_routes t0_routers t1_routers segments p =
     foldl (\<lambda>w t1. case w of None \<Rightarrow> None | Some wanted \<Rightarrow> add_t1_routes segments p wanted t1)
       (Some (foldl (\<lambda>d r. dict_set (ns_name_of ''t0'' r) (Some []) d) [] (router_ids t0_routers))) t1_routers"

section \<open>The inventory\<close>

record link =
  lk_kind :: jval
  lk_master :: jval
  lk_netnsid :: jval

type_synonym proc = "string \<times> string \<times> string list"

record inventory =
  in_netns :: "(string \<times> int option) list"
  in_links :: "(string \<times> link) list"
  in_ports :: "(string \<times> string list option) list"
  in_addrs :: "(string \<times> string list option) list"
  in_ns_links :: "(string \<times> string list option) list"
  in_procs :: "(string \<times> proc list option) list"
  in_routes :: "(string \<times> (string \<times> string) list option) list"
  in_flood :: "(string \<times> string list option) list"

definition listed :: "('k \<times> 'v option) list \<Rightarrow> 'k \<Rightarrow> 'v option" where
  "listed d k = (case map_of d k of Some (Some v) \<Rightarrow> Some v | _ \<Rightarrow> None)"

definition run_cmd :: "'w urbosa_env \<Rightarrow> string \<Rightarrow> ('w, uevent, int \<times> string \<times> string) eff" where
  "run_cmd env c = act (ub_run env c) (\<lambda>r. U_Run c (fst r))"

text \<open>The number in \<open>(id: 0)\<close>, the first place where the pattern fits.\<close>

fun nsid_of :: "string \<Rightarrow> int option" where
  "nsid_of [] = None"
| "nsid_of (c # s) =
     (let rest = dropWhile is_ws (drop 4 (c # s)); d = takeWhile is_digit rest
      in if starts_with (c # s) ''(id:'' \<and> d \<noteq> [] \<and> starts_with (drop (length d) rest) '')'' then Some (int (read_nat d)) else nsid_of s)"

definition list_netns :: "'w urbosa_env \<Rightarrow> ('w, uevent, (string \<times> int option) list) eff" where
  "list_netns env = do {
     (rc, out, _) \<leftarrow> run_cmd env ''ip netns list'';
     ret (if rc \<noteq> 0 \<or> out = [] then []
          else List.map_filter (\<lambda>line. case split_ws line of [] \<Rightarrow> None | w # _ \<Rightarrow> Some (w, nsid_of line)) (splitlines out)) }"

text \<open>The objects of a JSON list; \<^const>\<open>None\<close> where reading them raises.\<close>

definition json_objects :: "jval \<Rightarrow> jrow list option" where
  "json_objects v =
     (case v of
        J_List xs \<Rightarrow> if list_all (\<lambda>x. case x of J_Dict _ \<Rightarrow> True | _ \<Rightarrow> False) xs then Some (map (\<lambda>x. case x of J_Dict d \<Rightarrow> d | _ \<Rightarrow> []) xs) else None
      | J_Dict [] \<Rightarrow> Some [] | J_Str [] \<Rightarrow> Some [] | _ \<Rightarrow> None)"

definition objects_in :: "string \<Rightarrow> jrow list option" where
  "objects_in out = (case loads (if out = [] then ''[]'' else out) of None \<Rightarrow> None | Some v \<Rightarrow> json_objects v)"

definition link_of :: "jrow \<Rightarrow> (string \<times> link) option option" where
  "link_of entry =
     (if \<not> truthy_got entry ''ifname'' then Some None
      else (case (if truthy_got entry ''linkinfo'' then got entry ''linkinfo'' else J_Dict []) of
              J_Dict info \<Rightarrow> Some (Some (jval_text (got entry ''ifname''), \<lparr>lk_kind = got info ''info_kind'', lk_master = got entry ''master'', lk_netnsid = got entry ''link_netnsid''\<rparr>))
            | _ \<Rightarrow> None))"

text \<open>The links of the root namespace; \<^const>\<open>None\<close> where the code raises.\<close>

definition list_links :: "'w urbosa_env \<Rightarrow> ('w, uevent, (string \<times> link) list option) eff" where
  "list_links env = do {
     (rc, out, _) \<leftarrow> run_cmd env ''ip -d -json link show'';
     ret (if rc \<noteq> 0 \<or> out = [] then Some []
          else (case loads out of
                  None \<Rightarrow> Some []
                | Some v \<Rightarrow>
                    (case json_objects v of
                       None \<Rightarrow> None
                     | Some rows \<Rightarrow>
                         if None \<in> set (map link_of rows) then None
                         else Some (foldl (\<lambda>d (n, l). dict_set n l d) [] (List.map_filter the (map link_of rows)))))) }"

definition names_in :: "string \<Rightarrow> string list option" where
  "names_in out =
     (case objects_in out of
        None \<Rightarrow> None
      | Some rows \<Rightarrow>
          (let named = filter (\<lambda>r. truthy_got r ''ifname'') rows
           in if list_all (\<lambda>r. case got r ''ifname'' of J_Str _ \<Rightarrow> True | _ \<Rightarrow> False) named
              then Some (map (\<lambda>r. takeWhile (\<lambda>c. c \<noteq> CHR ''@'') (jval_text (got r ''ifname''))) named) else None))"

definition list_bridge_ports :: "'w urbosa_env \<Rightarrow> string \<Rightarrow> ('w, uevent, string list option) eff" where
  "list_bridge_ports env bridge = do {
     (rc, out, _) \<leftarrow> run_cmd env (''ip -json -o link show master '' @ bridge);
     ret (if rc \<noteq> 0 then None else names_in out) }"

definition list_netns_links :: "'w urbosa_env \<Rightarrow> string \<Rightarrow> ('w, uevent, string list option) eff" where
  "list_netns_links env ns = do {
     (rc, out, _) \<leftarrow> run_cmd env (''ip -json -n '' @ ns @ '' link show'');
     ret (if rc \<noteq> 0 then None else names_in out) }"

text \<open>\<open>str.isdigit\<close>, which also takes the superscripts.\<close>

definition pid_text :: "string \<Rightarrow> bool" where
  "pid_text s \<longleftrightarrow> s \<noteq> [] \<and> list_all (\<lambda>c. is_digit c \<or> of_char c \<in> {178, 179, 185 :: nat}) s"

definition basename :: "string \<Rightarrow> string" where
  "basename s = rev (takeWhile (\<lambda>c. c \<noteq> CHR ''/'') (rev s))"

definition list_netns_processes :: "'w urbosa_env \<Rightarrow> string \<Rightarrow> ('w, uevent, proc list option) eff" where
  "list_netns_processes env ns = do {
     (rc, out, _) \<leftarrow> run_cmd env (''ip netns pids '' @ ns);
     if rc \<noteq> 0 then ret None
     else do {
       procs \<leftarrow> for_each (\<lambda>pid acc. do {
         argv \<leftarrow> look (ub_argv env pid);
         ret (acc @ [(pid, (case argv of [] \<Rightarrow> [] | a # _ \<Rightarrow> basename a), argv)]) }) (filter pid_text (split_ws out)) [];
       ret (Some procs) } }"

definition dnsmasq_interface :: "string list \<Rightarrow> string option" where
  "dnsmasq_interface argv = map_option (drop (length ''--interface='')) (find (\<lambda>a. starts_with a ''--interface='') argv)"

definition list_netns_routes :: "'w urbosa_env \<Rightarrow> string \<Rightarrow> ('w, uevent, (string \<times> string) list option) eff" where
  "list_netns_routes env ns = do {
     (rc, out, _) \<leftarrow> run_cmd env (''ip -json -n '' @ ns @ '' route show'');
     ret (if rc \<noteq> 0 then None
          else map_option (\<lambda>rows. map (\<lambda>r. (jval_text (got r ''dst''), jval_text (got r ''gateway'')))
                 (filter (\<lambda>r. truthy_got r ''dst'' \<and> truthy_got r ''gateway'') rows)) (objects_in out)) }"

definition flags_raise :: "jrow \<Rightarrow> bool" where
  "flags_raise r \<longleftrightarrow> got r ''mac'' = J_Str flood_mac \<and> (case got r ''flags'' of J_Num n \<Rightarrow> n \<noteq> 0 | J_Bool b \<Rightarrow> b | _ \<Rightarrow> False)"

definition flooded :: "jrow \<Rightarrow> bool" where
  "flooded r \<longleftrightarrow> got r ''mac'' = J_Str flood_mac
     \<and> (case got r ''flags'' of J_List fs \<Rightarrow> J_Str ''self'' \<in> set fs | J_Str s \<Rightarrow> contains s ''self'' | J_Dict d \<Rightarrow> map_of d ''self'' \<noteq> None | _ \<Rightarrow> False)
     \<and> truthy_got r ''dst''"

definition list_flood_entries :: "'w urbosa_env \<Rightarrow> string \<Rightarrow> ('w, uevent, string list option) eff" where
  "list_flood_entries env device = do {
     (rc, out, _) \<leftarrow> run_cmd env (''bridge -json fdb show dev '' @ device);
     ret (if rc \<noteq> 0 then None
          else (case objects_in out of
                  None \<Rightarrow> None
                | Some rows \<Rightarrow> if list_ex flags_raise rows then None else Some (map (\<lambda>r. jval_text (got r ''dst'')) (filter flooded rows)))) }"

definition global_addresses :: "jrow \<Rightarrow> string list option" where
  "global_addresses entry =
     (case map_of entry ''addr_info'' of
        None \<Rightarrow> Some []
      | Some v \<Rightarrow> map_option (\<lambda>rows. map (\<lambda>a. jval_text (got a ''local''))
          (filter (\<lambda>a. truthy_got a ''local'' \<and> got a ''scope'' = J_Str ''global'') rows)) (json_objects v))"

text \<open>As the collector calls it: in the root namespace, for the global scope.\<close>

definition read_iface_addresses :: "'w urbosa_env \<Rightarrow> string \<Rightarrow> ('w, uevent, string list option) eff" where
  "read_iface_addresses env iface = do {
     (rc, out, _) \<leftarrow> run_cmd env (''ip -json addr show '' @ iface);
     ret (if rc \<noteq> 0 then None
          else if out = [] then Some []
          else (case objects_in out of
                  None \<Rightarrow> None
                | Some rows \<Rightarrow> let parts = map global_addresses rows in if None \<in> set parts then None else Some (concat (map the parts)))) }"

definition look_up :: "('k \<Rightarrow> ('w, uevent, 'v) eff) \<Rightarrow> 'k list \<Rightarrow> ('w, uevent, ('k \<times> 'v) list) eff" where
  "look_up f ks = for_each (\<lambda>k acc. do { v \<leftarrow> f k; ret (dict_set k v acc) }) ks []"

definition collect_inventory :: "'w urbosa_env \<Rightarrow> desired \<Rightarrow> ('w, uevent, inventory option) eff" where
  "collect_inventory env de = do {
     netns \<leftarrow> list_netns env;
     ls \<leftarrow> list_links env;
     case ls of
       None \<Rightarrow> ret None
     | Some links \<Rightarrow> do {
         let ours = filter (\<lambda>n. ns_t0 n \<noteq> None \<or> ns_t1 n \<noteq> None) (map fst netns);
         let bridges = filter (\<lambda>n. br_ov n \<noteq> None) (map fst links);
         inside_ns \<leftarrow> look_up (\<lambda>n. do { l \<leftarrow> list_netns_links env n; p \<leftarrow> list_netns_processes env n; ret (l, p) }) ours;
         on_bridge \<leftarrow> look_up (\<lambda>n. do { p \<leftarrow> list_bridge_ports env n; a \<leftarrow> read_iface_addresses env n; ret (p, a) }) bridges;
         flood \<leftarrow> look_up (list_flood_entries env)
           (filter (\<lambda>d. map_of links d \<noteq> None) (map (\<lambda>v. ''vxlan-'' @ show_int v) (sort (remdups (de_vnis de)))));
         routes \<leftarrow> look_up (list_netns_routes env) (filter (\<lambda>n. n \<in> fst ` set netns) (sort (map fst (de_t0_routes de))));
         ret (Some \<lparr>in_netns = netns, in_links = links, in_ports = map (\<lambda>(n, p, a). (n, p)) on_bridge, in_addrs = map (\<lambda>(n, p, a). (n, a)) on_bridge,
                    in_ns_links = map (\<lambda>(n, l, p). (n, l)) inside_ns, in_procs = map (\<lambda>(n, l, p). (n, p)) inside_ns, in_routes = routes, in_flood = flood\<rparr>) } }"

section \<open>The plan\<close>

record reclaim_action =
  ra_kind :: string
  ra_target :: string
  ra_reason :: string
  ra_commands :: "string list"
  ra_queries :: "(int \<times> string) list"

record reclaim_refusal =
  rr_kind :: string
  rr_target :: string
  rr_reason :: string

type_synonym verdicts = "(reclaim_action + reclaim_refusal) list"

definition remove :: "string \<Rightarrow> string \<Rightarrow> string \<Rightarrow> string list \<Rightarrow> reclaim_action + reclaim_refusal" where
  "remove kind target reason commands = Inl \<lparr>ra_kind = kind, ra_target = target, ra_reason = reason, ra_commands = commands, ra_queries = []\<rparr>"

definition refuse :: "string \<Rightarrow> string \<Rightarrow> string \<Rightarrow> reclaim_action + reclaim_refusal" where
  "refuse kind target reason = Inr \<lparr>rr_kind = kind, rr_target = target, rr_reason = reason\<rparr>"

definition no_segment :: "int \<Rightarrow> string" where
  "no_segment vni = ''no segment with VNI '' @ show_int vni @ '' exists in hydra.urbosa_segments''"

definition delete_link :: "string \<Rightarrow> string" where
  "delete_link name = ''ip link delete '' @ name"

definition strangers :: "int \<Rightarrow> string list \<Rightarrow> string list" where
  "strangers vni ports = sort (filter (\<lambda>p. p \<noteq> ''vxlan-'' @ show_int vni \<and> p \<noteq> ''veth-ov-'' @ show_int vni) ports)"

definition link_kind :: "inventory \<Rightarrow> string \<Rightarrow> jval" where
  "link_kind iv name = (case map_of (in_links iv) name of Some l \<Rightarrow> lk_kind l | None \<Rightarrow> J_Null)"

definition bridge_verdict :: "desired \<Rightarrow> inventory \<Rightarrow> string \<Rightarrow> (reclaim_action + reclaim_refusal) option" where
  "bridge_verdict de iv name =
     (case br_ov name of
        None \<Rightarrow> None
      | Some vni \<Rightarrow>
          if vni \<in> set (de_vnis de) then None
          else Some (
            if link_kind iv name \<noteq> J_Str ''bridge'' then refuse ''bridge'' name ''it is not a bridge device''
            else (case listed (in_ports iv) name of
                    None \<Rightarrow> refuse ''bridge'' name ''its enslaved interfaces could not be listed''
                  | Some ports \<Rightarrow>
                      if strangers vni ports \<noteq> []
                      then refuse ''bridge'' name (''it still has '' @ join '', '' (strangers vni ports)
                             @ '' enslaved; live VM interfaces are attached, detach them before removing this segment'')
                      else (case listed (in_addrs iv) name of
                              None \<Rightarrow> refuse ''bridge'' name ''its addresses could not be read''
                            | Some addrs \<Rightarrow>
                                if addrs \<noteq> []
                                then refuse ''bridge'' name (''it holds host address '' @ join '', '' addrs
                                       @ ''; Urbosa assigns segment gateways inside the Tier-1 namespace, so this address belongs to another component'')
                                else remove ''bridge'' name (no_segment vni) [''ip link set '' @ name @ '' down'', delete_link name]))))"

definition link_names :: "inventory \<Rightarrow> string list" where
  "link_names iv = sort (map fst (in_links iv))"

definition bridge_verdicts :: "desired \<Rightarrow> inventory \<Rightarrow> verdicts" where
  "bridge_verdicts de iv = List.map_filter (bridge_verdict de iv) (link_names iv)"

definition busy_vnis :: "desired \<Rightarrow> inventory \<Rightarrow> int list" where
  "busy_vnis de iv = List.map_filter (\<lambda>name. case bridge_verdict de iv name of Some (Inr _) \<Rightarrow> br_ov name | _ \<Rightarrow> None) (link_names iv)"

definition peer_namespace :: "inventory \<Rightarrow> string \<Rightarrow> string option" where
  "peer_namespace iv name =
     (case map_option lk_netnsid (map_of (in_links iv) name) of
        Some (J_Num n) \<Rightarrow> map_of (rev (List.map_filter (\<lambda>(ns, nsid). map_option (\<lambda>i. (i, ns)) nsid) (in_netns iv))) n
      | _ \<Rightarrow> None)"

definition veth_verdict :: "desired \<Rightarrow> inventory \<Rightarrow> string \<Rightarrow> (reclaim_action + reclaim_refusal) option" where
  "veth_verdict de iv name =
     (case veth_ov name of
        None \<Rightarrow> None
      | Some vni \<Rightarrow>
          if link_kind iv name \<noteq> J_Str ''veth'' then None
          else if vni \<notin> set (de_vnis de) then
            Some (if vni \<in> set (busy_vnis de iv) then refuse ''veth'' name (''overlay bridge br-ov-'' @ show_int vni @ '' is still in use'')
                  else remove ''veth'' name (no_segment vni) [delete_link name])
          else (case map_of (de_segment_ns de) vni of
                  None \<Rightarrow> None
                | Some ns \<Rightarrow>
                    if ns \<notin> fst ` set (in_netns iv) then None
                    else if map_of (in_links iv) (''veth-t1-'' @ show_int vni) \<noteq> None then
                      Some (remove ''veth'' name (''its namespace end veth-t1-'' @ show_int vni @ '' is still in the root namespace, so the pair was never moved into '' @ ns
                              @ ''; removing it lets the next pass rebuild it'') [delete_link name])
                    else (case peer_namespace iv name of
                            None \<Rightarrow> None
                          | Some peer \<Rightarrow>
                              if peer = [] \<or> peer = ns then None
                              else Some (remove ''veth'' name (''it lands in '' @ peer @ '' but VNI '' @ show_int vni @ '' is now attached to '' @ ns
                                     @ ''; removing it lets the next pass rebuild it against the right router'') [delete_link name]))))"

definition tunnel_verdict :: "desired \<Rightarrow> inventory \<Rightarrow> string \<Rightarrow> (reclaim_action + reclaim_refusal) option" where
  "tunnel_verdict de iv name =
     (case vxlan name of
        None \<Rightarrow> None
      | Some vni \<Rightarrow>
          if vni \<in> set (de_vnis de) then None
          else Some (
            if link_kind iv name \<noteq> J_Str ''vxlan'' then refuse ''tunnel'' name ''it is not a VXLAN device''
            else if vni \<in> set (busy_vnis de iv) then refuse ''tunnel'' name (''overlay bridge br-ov-'' @ show_int vni @ '' is still in use and forwards over it'')
            else remove ''tunnel'' name (no_segment vni) [''ip link set '' @ name @ '' down'', delete_link name]))"

definition uplink_reason :: "desired \<Rightarrow> string \<Rightarrow> string" where
  "uplink_reason de p =
     (if \<not> de_leader de then ''this host does not hold the cluster VIP, and the Tier-0 uplink is active-passive''
      else ''no Tier-0 router with id prefix '' @ p @ '' exists in hydra.urbosa_t0_routers'')"

text \<open>Half-built transit veths, one end of each pair, and macvlans in the root namespace.\<close>

fun sweep :: "desired \<Rightarrow> inventory \<Rightarrow> string list \<Rightarrow> string list \<Rightarrow> verdicts" where
  "sweep de iv swept [] = []"
| "sweep de iv swept (name # names) =
     (if transit_veth name \<noteq> None \<and> link_kind iv name = J_Str ''veth'' then
        (let p = the (transit_veth name)
         in if p \<in> set swept then sweep de iv swept names
            else remove ''veth'' name ''a transit veth end is never left in the root namespace; this is a partially created link'' [delete_link name]
                 # sweep de iv (p # swept) names)
      else if macvlan_t0 name \<noteq> None \<and> link_kind iv name = J_Str ''macvlan'' then
        (let p = the (macvlan_t0 name)
         in if de_leader de \<and> p \<in> set (de_t0_prefixes de) then sweep de iv swept names
            else remove ''macvlan'' name (uplink_reason de p) [delete_link name] # sweep de iv swept names)
      else sweep de iv swept names)"

fun device_blocker :: "int list \<Rightarrow> string list \<Rightarrow> string option" where
  "device_blocker vnis [] = None"
| "device_blocker vnis (d # ds) =
     (if d = ''lo'' then device_blocker vnis ds
      else if (case veth_t1 d of Some v \<Rightarrow> v \<in> set vnis | None \<Rightarrow> False)
      then Some (''segment VNI '' @ before_eol (drop (length ''veth-t1-'') d) @ '' is still configured and this namespace holds its gateway on '' @ d @ ''; delete the segment first'')
      else if transit_veth d \<noteq> None \<or> veth_t1 d \<noteq> None \<or> macvlan_t0 d \<noteq> None then device_blocker vnis ds
      else Some (''it carries interface '' @ d @ '', which Urbosa did not create''))"

definition is_dnsmasq :: "proc \<Rightarrow> bool" where
  "is_dnsmasq p = (case p of (_, command, _) \<Rightarrow> contains command ''dnsmasq'')"

definition process_blocker :: "proc list \<Rightarrow> string option" where
  "process_blocker ps = map_option (\<lambda>(pid, command, _). ''process '' @ pid @ '' ('' @ (if command = [] then ''unidentified'' else command)
     @ '') is running inside it, and Urbosa did not start it'') (find (\<lambda>p. \<not> is_dnsmasq p) ps)"

definition namespace_blocker :: "string \<Rightarrow> desired \<Rightarrow> inventory \<Rightarrow> string option" where
  "namespace_blocker ns de iv =
     (case listed (in_ns_links iv) ns of
        None \<Rightarrow> Some ''its interface list could not be read''
      | Some devices \<Rightarrow>
          (case device_blocker (de_vnis de) devices of
             Some why \<Rightarrow> Some why
           | None \<Rightarrow>
               (case listed (in_procs iv) ns of
                  None \<Rightarrow> Some ''its process list could not be read''
                | Some ps \<Rightarrow> process_blocker ps)))"

definition netns_commands :: "inventory \<Rightarrow> string \<Rightarrow> string list" where
  "netns_commands iv ns =
     map (\<lambda>(pid, _, _). ''kill -9 '' @ pid) (case listed (in_procs iv) ns of Some ps \<Rightarrow> ps | None \<Rightarrow> []) @ [''ip netns del '' @ ns]"

definition end_namespace :: "desired \<Rightarrow> inventory \<Rightarrow> string \<Rightarrow> string \<Rightarrow> string \<Rightarrow> reclaim_action + reclaim_refusal" where
  "end_namespace de iv kind ns reason =
     (case namespace_blocker ns de iv of Some why \<Rightarrow> refuse kind ns why | None \<Rightarrow> remove kind ns reason (netns_commands iv ns))"

definition namespace_verdict :: "desired \<Rightarrow> inventory \<Rightarrow> string \<Rightarrow> (reclaim_action + reclaim_refusal) option" where
  "namespace_verdict de iv ns =
     (case ns_t0 ns of
        Some p \<Rightarrow>
          if de_leader de then
            (if p \<in> set (de_t0_prefixes de) then None
             else Some (end_namespace de iv ''tier-0 namespace'' ns (''no Tier-0 router with id prefix '' @ p @ '' exists in hydra.urbosa_t0_routers'')))
          else Some (end_namespace de iv ''tier-0 namespace'' ns ''this host does not hold the cluster VIP, and the Tier-0 edge is active-passive'')
      | None \<Rightarrow>
          (case ns_t1 ns of
             None \<Rightarrow> None
           | Some p \<Rightarrow>
               if p \<in> set (de_t1_prefixes de) then None
               else Some (end_namespace de iv ''tier-1 namespace'' ns (''no Tier-1 router with id prefix '' @ p @ '' exists in hydra.urbosa_t1_routers''))))"

definition dhcp_verdicts :: "inventory \<Rightarrow> string \<times> string list \<Rightarrow> verdicts" where
  "dhcp_verdicts iv x =
     (case x of (ns, allowed) \<Rightarrow>
        case listed (in_procs iv) ns of
          None \<Rightarrow> []
        | Some ps \<Rightarrow> List.map_filter (\<lambda>p. case p of (pid, command, argv) \<Rightarrow>
            if \<not> is_dnsmasq p then None
            else (case dnsmasq_interface argv of
                    None \<Rightarrow> None
                  | Some iface \<Rightarrow>
                      if iface \<in> set allowed then None
                      else Some (remove ''dhcp server'' (ns @ '': pid '' @ pid @ '' on '' @ iface)
                             (''nothing in the database asks for DHCP on '' @ iface @ '' in this router any more'') [''kill -9 '' @ pid]))) ps)"

definition flood_verdicts :: "jval list \<Rightarrow> inventory \<Rightarrow> string \<Rightarrow> verdicts" where
  "flood_verdicts peers iv device =
     (case listed (in_flood iv) device of
        None \<Rightarrow> []
      | Some entries \<Rightarrow> map (\<lambda>dst. remove ''flood entry'' (device @ '' -> '' @ dst)
            (dst @ '' is not a member of hydra.nodes; every broadcast on this segment is still being replicated to it'')
            [''bridge fdb del '' @ flood_mac @ '' dev '' @ device @ '' dst '' @ dst]) (filter (\<lambda>dst. J_Str dst \<notin> set peers) (sort (remdups entries))))"

definition route_verdicts :: "inventory \<Rightarrow> string \<times> (string \<times> string) list option \<Rightarrow> verdicts" where
  "route_verdicts iv x =
     (case x of
        (_, None) \<Rightarrow> []
      | (ns, Some wanted) \<Rightarrow>
          (case listed (in_routes iv) ns of
             None \<Rightarrow> []
           | Some observed \<Rightarrow> map (\<lambda>(dst, gateway). remove ''return route'' (ns @ '': '' @ dst @ '' via '' @ gateway)
                 ''no segment behind that transit link uses this prefix any more'' [''ip netns exec '' @ ns @ '' ip route del '' @ dst @ '' via '' @ gateway])
               (filter (\<lambda>(dst, gateway). starts_with gateway ''100.64.'' \<and> (dst, gateway) \<notin> set wanted) (sort (remdups observed)))))"

text \<open>The reservations of routers that are gone; \<^const>\<open>None\<close> where the code raises.\<close>

definition orphaned_slots :: "desired \<Rightarrow> (int \<times> string) list" where
  "orphaned_slots de =
     (case de_pool de of
        Some p \<Rightarrow> if de_leader de then filter (\<lambda>(i, owner). owner \<notin> set (de_t1_ids de)) (sort_key fst p) else []
      | None \<Rightarrow> [])"

definition slot_verdict :: "int \<times> string \<Rightarrow> (reclaim_action + reclaim_refusal) option" where
  "slot_verdict x =
     (case x of (index, owner) \<Rightarrow>
        case transit_addresses index of
          None \<Rightarrow> None
        | Some (_, _, network) \<Rightarrow>
            Some (Inl \<lparr>ra_kind = ''transit reservation'', ra_target = ''slot '' @ show_int index @ '' ('' @ network @ '')'',
                       ra_reason = ''Tier-1 router '' @ owner @ '' no longer exists in hydra.urbosa_t1_routers'', ra_commands = [], ra_queries = [(index, owner)]\<rparr>))"

definition plan_verdicts :: "desired \<Rightarrow> inventory \<Rightarrow> verdicts" where
  "plan_verdicts de iv =
     bridge_verdicts de iv @ List.map_filter (veth_verdict de iv) (link_names iv) @ List.map_filter (tunnel_verdict de iv) (link_names iv)
     @ sweep de iv [] (link_names iv) @ List.map_filter (namespace_verdict de iv) (map fst (sort_key fst (in_netns iv)))
     @ concat (map (dhcp_verdicts iv) (sort_key fst (de_dnsmasq de)))
     @ (case de_peers de of Some (x # xs) \<Rightarrow> concat (map (flood_verdicts (x # xs) iv) (sort (map fst (in_flood iv)))) | _ \<Rightarrow> [])
     @ concat (map (route_verdicts iv) (sort_key fst (de_t0_routes de)))"

definition plan_reclamation :: "desired \<Rightarrow> inventory \<Rightarrow> (reclaim_action list \<times> reclaim_refusal list) option" where
  "plan_reclamation de iv =
     (let slots' = map slot_verdict (orphaned_slots de); vs = plan_verdicts de iv @ map the slots'
      in if None \<in> set slots' then None
         else Some (List.map_filter (\<lambda>v. case v of Inl a \<Rightarrow> Some a | Inr _ \<Rightarrow> None) vs, List.map_filter (\<lambda>v. case v of Inr r \<Rightarrow> Some r | Inl _ \<Rightarrow> None) vs))"

section \<open>The pass\<close>

fun run_commands :: "'w urbosa_env \<Rightarrow> string list \<Rightarrow> ('w, uevent, bool) eff" where
  "run_commands env [] = ret True"
| "run_commands env (c # cs) = do {
     (rc, _, _) \<leftarrow> run_cmd env c;
     if rc \<noteq> 0 then ret False else run_commands env cs }"

fun run_queries :: "'w urbosa_env \<Rightarrow> (int \<times> string) list \<Rightarrow> ('w, uevent, bool) eff" where
  "run_queries env [] = ret True"
| "run_queries env ((index, owner) # qs) = do {
     ok \<leftarrow> release_transit_index env index owner;
     if \<not> ok then ret False else run_queries env qs }"

definition perform :: "'w urbosa_env \<Rightarrow> bool \<Rightarrow> reclaim_action \<Rightarrow> reclaim_action list \<Rightarrow> ('w, uevent, reclaim_action list) eff" where
  "perform env dry a performed =
     (if dry then ret performed
      else do {
        ok \<leftarrow> run_commands env (ra_commands a);
        ok' \<leftarrow> (if ok then run_queries env (ra_queries a) else ret False);
        ret (if ok' then performed @ [a] else performed) })"

definition execute_plan :: "'w urbosa_env \<Rightarrow> bool \<Rightarrow> reclaim_action list \<Rightarrow> ('w, uevent, reclaim_action list) eff" where
  "execute_plan env dry actions = for_each (perform env dry) actions []"

definition settings_query :: string where
  "settings_query = ''SELECT JSON key, value FROM hydra.cluster_settings WHERE key IN ('' @ quoted ''urbosa_gc_enabled'' @ '', '' @ quoted ''urbosa_gc_dry_run'' @ '');''"

definition set_flag :: "bool \<times> bool \<Rightarrow> jrow \<Rightarrow> bool \<times> bool" where
  "set_flag st row =
     (let v = (lower (strip (case map_of row ''value'' of None \<Rightarrow> [] | Some x \<Rightarrow> jval_text x)) = ''true'')
      in if got row ''key'' = J_Str ''urbosa_gc_enabled'' then (v, snd st)
         else if got row ''key'' = J_Str ''urbosa_gc_dry_run'' then (fst st, v) else st)"

text \<open>Whether the collector runs, and whether it only reports.\<close>

definition get_reclaim_settings :: "'w urbosa_env \<Rightarrow> ('w, uevent, bool \<times> bool) eff" where
  "get_reclaim_settings env = do {
     (rc, out, _) \<leftarrow> query env settings_query;
     ret (if rc \<noteq> 0 then (True, False)
          else foldl set_flag (True, False) (List.map_filter (\<lambda>l. case row_of_line l of Some r \<Rightarrow> r | None \<Rightarrow> None) (splitlines out))) }"

text \<open>From the desired state to the execution; \<^const>\<open>None\<close> where a step raises and the rest is skipped.\<close>

definition reclaim_from ::
    "'w urbosa_env \<Rightarrow> bool \<Rightarrow> jrow list \<Rightarrow> jrow list \<Rightarrow> jrow list \<Rightarrow> jval list option \<Rightarrow> bool \<Rightarrow> pool option
      \<Rightarrow> ('w, uevent, (reclaim_action list \<times> reclaim_refusal list) option) eff" where
  "reclaim_from env dry t0_routers t1_routers segments node_ips leader p =
     (case plan_t0_routes t0_routers t1_routers segments p of
        None \<Rightarrow> ret None
      | Some t0_routes \<Rightarrow> do {
          let de = build_desired_state t0_routers t1_routers segments node_ips leader p t0_routes;
          i \<leftarrow> collect_inventory env de;
          case i of
            None \<Rightarrow> ret None
          | Some iv \<Rightarrow>
              (case plan_reclamation de iv of
                 None \<Rightarrow> ret None
               | Some (actions, refusals) \<Rightarrow> do {
                   _ \<leftarrow> execute_plan env dry actions;
                   ret (Some (actions, refusals)) }) })"

definition reclaim_once :: "'w urbosa_env \<Rightarrow> bool \<Rightarrow> ('w, uevent, (reclaim_action list \<times> reclaim_refusal list) option) eff" where
  "reclaim_once env dry = do {
     t0 \<leftarrow> get_db_routers_t0 env;
     t1 \<leftarrow> get_db_routers_t1 env;
     segs \<leftarrow> get_db_segments env;
     case (t0, t1, segs) of
       (Some t0_routers, Some t1_routers, Some segments) \<Rightarrow> do {
         node_ips \<leftarrow> get_db_node_ips env;
         p \<leftarrow> read_transit_pool env;
         leader \<leftarrow> look (ub_leader env);
         reclaim_from env dry t0_routers t1_routers segments node_ips leader p }
     | _ \<Rightarrow> ret (Some ([], [])) }"

text \<open>The fifth step of the daemon's loop.\<close>

definition reclaim_step :: "'w urbosa_env \<Rightarrow> jrow list \<Rightarrow> jrow list \<Rightarrow> jrow list \<Rightarrow> jval list option \<Rightarrow> bool \<Rightarrow> pool option \<Rightarrow> ('w, uevent, unit) eff" where
  "reclaim_step env t0_routers t1_routers segments node_ips leader p = do {
     (enabled, dry) \<leftarrow> get_reclaim_settings env;
     if \<not> enabled then ret ()
     else do {
       _ \<leftarrow> reclaim_from env dry t0_routers t1_routers segments node_ips leader p;
       ret () } }"

section \<open>What goes\<close>

text \<open>
  What a command of a plan may be, and what it may go by: a bridge, tunnel or veth of a segment that is not configured, a bridge only when nothing but the segment's own ends is attached to it and
  it has no address, a tunnel only when no bridge of its segment is kept; a veth of a configured segment only when it does not lead into the segment's router; transit ends and uplinks that the root namespace
  does not hold in a finished network; a namespace whose router is gone, with all its processes and devices being the daemon's own and none the gateway of a configured segment;
  a DHCP server nothing asks for; and the flood entries and return routes of hosts and segments that are gone.
\<close>

definition free_bridge :: "inventory \<Rightarrow> int \<Rightarrow> string \<Rightarrow> bool" where
  "free_bridge iv vni name \<longleftrightarrow> link_kind iv name = J_Str ''bridge'' \<and> listed (in_addrs iv) name = Some []
     \<and> (\<exists>ports. listed (in_ports iv) name = Some ports \<and> set ports \<subseteq> {''vxlan-'' @ show_int vni, ''veth-ov-'' @ show_int vni})"

definition free_namespace :: "desired \<Rightarrow> inventory \<Rightarrow> string \<Rightarrow> bool" where
  "free_namespace de iv ns \<longleftrightarrow>
     (\<exists>devices ps. listed (in_ns_links iv) ns = Some devices \<and> listed (in_procs iv) ns = Some ps \<and> list_all is_dnsmasq ps
        \<and> list_all (\<lambda>d. d = ''lo'' \<or> transit_veth d \<noteq> None \<or> macvlan_t0 d \<noteq> None \<or> (\<exists>v. veth_t1 d = Some v \<and> v \<notin> set (de_vnis de))) devices)"

definition router_gone :: "desired \<Rightarrow> string \<Rightarrow> bool" where
  "router_gone de ns \<longleftrightarrow>
     (\<exists>p. ns_t0 ns = Some p \<and> (de_leader de \<longrightarrow> p \<notin> set (de_t0_prefixes de))) \<or> (\<exists>p. ns_t1 ns = Some p \<and> p \<notin> set (de_t1_prefixes de))"

inductive goes :: "desired \<Rightarrow> inventory \<Rightarrow> string \<Rightarrow> bool" for de iv where
  bridge: "br_ov name = Some vni \<Longrightarrow> vni \<notin> set (de_vnis de) \<Longrightarrow> free_bridge iv vni name \<Longrightarrow>
    c \<in> {''ip link set '' @ name @ '' down'', delete_link name} \<Longrightarrow> goes de iv c"
| tunnel: "vxlan name = Some vni \<Longrightarrow> vni \<notin> set (de_vnis de) \<Longrightarrow> link_kind iv name = J_Str ''vxlan'' \<Longrightarrow>
    (\<And>b. b \<in> fst ` set (in_links iv) \<Longrightarrow> br_ov b = Some vni \<Longrightarrow> free_bridge iv vni b) \<Longrightarrow> c \<in> {''ip link set '' @ name @ '' down'', delete_link name} \<Longrightarrow> goes de iv c"
| veth: "veth_ov name = Some vni \<Longrightarrow> vni \<notin> set (de_vnis de) \<Longrightarrow> link_kind iv name = J_Str ''veth'' \<Longrightarrow>
    (\<And>b. b \<in> fst ` set (in_links iv) \<Longrightarrow> br_ov b = Some vni \<Longrightarrow> free_bridge iv vni b) \<Longrightarrow> goes de iv (delete_link name)"
| misplaced: "veth_ov name = Some vni \<Longrightarrow> link_kind iv name = J_Str ''veth'' \<Longrightarrow> map_of (de_segment_ns de) vni = Some ns \<Longrightarrow> ns \<in> fst ` set (in_netns iv) \<Longrightarrow>
    map_of (in_links iv) (''veth-t1-'' @ show_int vni) \<noteq> None \<or> (\<exists>peer. peer_namespace iv name = Some peer \<and> peer \<noteq> ns) \<Longrightarrow> goes de iv (delete_link name)"
| half_built: "transit_veth name \<noteq> None \<Longrightarrow> link_kind iv name = J_Str ''veth'' \<Longrightarrow> goes de iv (delete_link name)"
| uplink: "macvlan_t0 name = Some p \<Longrightarrow> link_kind iv name = J_Str ''macvlan'' \<Longrightarrow> (de_leader de \<Longrightarrow> p \<notin> set (de_t0_prefixes de)) \<Longrightarrow> goes de iv (delete_link name)"
| emptied: "router_gone de ns \<Longrightarrow> free_namespace de iv ns \<Longrightarrow> c \<in> set (netns_commands iv ns) \<Longrightarrow> goes de iv c"
| dhcp: "(ns, allowed) \<in> set (de_dnsmasq de) \<Longrightarrow> listed (in_procs iv) ns = Some ps \<Longrightarrow> (pid, command, argv) \<in> set ps \<Longrightarrow> is_dnsmasq (pid, command, argv) \<Longrightarrow>
    dnsmasq_interface argv = Some iface \<Longrightarrow> iface \<notin> set allowed \<Longrightarrow> goes de iv (''kill -9 '' @ pid)"
| flood: "de_peers de = Some peers \<Longrightarrow> J_Str dst \<notin> set peers \<Longrightarrow> goes de iv (''bridge fdb del '' @ flood_mac @ '' dev '' @ device @ '' dst '' @ dst)"
| route: "(ns, Some wanted) \<in> set (de_t0_routes de) \<Longrightarrow> starts_with gateway ''100.64.'' \<Longrightarrow> (dst, gateway) \<notin> set wanted \<Longrightarrow>
    goes de iv (''ip netns exec '' @ ns @ '' ip route del '' @ dst @ '' via '' @ gateway)"

definition ok_verdict :: "desired \<Rightarrow> inventory \<Rightarrow> reclaim_action + reclaim_refusal \<Rightarrow> bool" where
  "ok_verdict de iv v = (case v of Inl a \<Rightarrow> list_all (goes de iv) (ra_commands a) \<and> ra_queries a = [] | Inr _ \<Rightarrow> True)"

lemma ok_refuse [simp]: "ok_verdict de iv (refuse k t r)"
  by (simp add: ok_verdict_def refuse_def)

lemma ok_remove [simp]: "ok_verdict de iv (remove k t r cs) = list_all (goes de iv) cs"
  by (simp add: ok_verdict_def remove_def)

lemma no_strangers: "strangers vni ports = [] \<Longrightarrow> set ports \<subseteq> {''vxlan-'' @ show_int vni, ''veth-ov-'' @ show_int vni}"
proof -
  have empty: "sort xs = [] \<Longrightarrow> xs = []" for xs :: "string list" by (metis length_0_conv length_sort)
  assume "strangers vni ports = []"
  from empty [OF this [unfolded strangers_def]] show ?thesis by (simp add: filter_empty_conv) blast
qed

lemma bridge_removed:
  assumes "bridge_verdict de iv name = Some (Inl a)"
  shows "\<exists>vni. br_ov name = Some vni \<and> vni \<notin> set (de_vnis de) \<and> free_bridge iv vni name"
  using assms no_strangers unfolding bridge_verdict_def free_bridge_def
  by (auto simp: refuse_def split: option.splits if_splits)

lemma in_map_filter: "y \<in> set (List.map_filter f xs) \<longleftrightarrow> (\<exists>x \<in> set xs. f x = Some y)"
  by (auto simp: List.map_filter_def image_iff)

lemma list_all_map_filter: "(\<And>x y. x \<in> set xs \<Longrightarrow> f x = Some y \<Longrightarrow> P y) \<Longrightarrow> list_all P (List.map_filter f xs)"
  by (auto simp: list_all_iff List.map_filter_def)

lemma list_all_concat: "(\<And>x. x \<in> set xs \<Longrightarrow> list_all P (f x)) \<Longrightarrow> list_all P (concat (map f xs))"
  by (auto simp: list_all_iff)

lemma bridge_commands:
  assumes "bridge_verdict de iv name = Some v"
  shows "ok_verdict de iv v"
proof -
  have "ok_verdict de iv (remove ''bridge'' name (no_segment vni) [''ip link set '' @ name @ '' down'', delete_link name])"
    if "br_ov name = Some vni" "vni \<notin> set (de_vnis de)" "free_bridge iv vni name" for vni
    using goes.bridge [OF that] by simp
  with assms no_strangers show ?thesis unfolding bridge_verdict_def free_bridge_def
    by (auto split: option.splits if_splits)
qed

lemma not_busy:
  assumes "vni \<notin> set (busy_vnis de iv)" "vni \<notin> set (de_vnis de)" "b \<in> fst ` set (in_links iv)" "br_ov b = Some vni"
  shows "free_bridge iv vni b"
proof -
  obtain v where v: "bridge_verdict de iv b = Some v" using assms(2,4) by (simp add: bridge_verdict_def)
  have "\<And>r. v \<noteq> Inr r" using assms v by (fastforce simp: busy_vnis_def in_map_filter link_names_def)
  then obtain a where "v = Inl a" by (cases v) auto
  then show ?thesis using bridge_removed [of de iv b a] v assms(4) by auto
qed

lemma veth_commands: "veth_verdict de iv name = Some v \<Longrightarrow> ok_verdict de iv v"
  unfolding veth_verdict_def
  using goes.veth [of name _ de iv] not_busy [of _ de iv] goes.misplaced [of name _ iv de]
  by (auto split: option.splits if_splits del: imageE)

lemma tunnel_commands: "tunnel_verdict de iv name = Some v \<Longrightarrow> ok_verdict de iv v"
  unfolding tunnel_verdict_def
  using goes.tunnel [of name _ de iv] not_busy [of _ de iv] by (auto split: option.splits if_splits)

lemma sweep_commands: "list_all (ok_verdict de iv) (sweep de iv swept names)"
  by (induction de iv swept names rule: sweep.induct) (auto simp: Let_def intro: goes.half_built goes.uplink)

lemma no_device_blocker:
  "device_blocker vnis ds = None \<Longrightarrow>
     list_all (\<lambda>d. d = ''lo'' \<or> transit_veth d \<noteq> None \<or> macvlan_t0 d \<noteq> None \<or> (\<exists>v. veth_t1 d = Some v \<and> v \<notin> set vnis)) ds"
  by (induction ds) (auto split: if_splits option.splits)

lemma no_process_blocker: "process_blocker ps = None \<Longrightarrow> list_all is_dnsmasq ps"
  by (auto simp: process_blocker_def find_None_iff list_all_iff)

lemma no_blocker: "namespace_blocker ns de iv = None \<Longrightarrow> free_namespace de iv ns"
  unfolding namespace_blocker_def free_namespace_def
  by (auto intro: no_device_blocker [simplified] no_process_blocker split: option.splits)

lemma end_commands: "router_gone de ns \<Longrightarrow> ok_verdict de iv (end_namespace de iv k ns r)"
  using no_blocker [of ns de iv] goes.emptied [of de ns iv] unfolding end_namespace_def by (auto simp: list_all_iff split: option.split)

lemma namespace_commands: "namespace_verdict de iv ns = Some v \<Longrightarrow> ok_verdict de iv v"
  unfolding namespace_verdict_def
  by (auto intro!: end_commands simp: router_gone_def split: option.splits if_splits)

lemma dhcp_commands: "(ns, allowed) \<in> set (de_dnsmasq de) \<Longrightarrow> list_all (ok_verdict de iv) (dhcp_verdicts iv (ns, allowed))"
  unfolding dhcp_verdicts_def
  by (auto intro!: list_all_map_filter split: option.split) (auto intro: goes.dhcp [simplified] split: if_splits option.splits prod.splits)

lemma flood_commands: "de_peers de = Some peers \<Longrightarrow> list_all (ok_verdict de iv) (flood_verdicts peers iv device)"
  unfolding flood_verdicts_def by (auto simp: list_all_iff intro: goes.flood [simplified] split: option.split)

lemma route_commands: "(ns, w) \<in> set (de_t0_routes de) \<Longrightarrow> list_all (ok_verdict de iv) (route_verdicts iv (ns, w))"
  unfolding route_verdicts_def by (auto simp: list_all_iff intro: goes.route [simplified] split: option.split)

lemma plan_commands: "list_all (ok_verdict de iv) (plan_verdicts de iv)"
  unfolding plan_verdicts_def bridge_verdicts_def list_all_append
  by (intro conjI list_all_map_filter sweep_commands list_all_concat)
    (auto intro: bridge_commands veth_commands tunnel_commands namespace_commands dhcp_commands route_commands
      intro!: list_all_concat flood_commands split: option.split list.split)

lemma left_member: "a \<in> set (List.map_filter (\<lambda>v. case v of Inl a \<Rightarrow> Some a | Inr _ \<Rightarrow> None) vs) \<longleftrightarrow> Inl a \<in> set vs"
proof -
  have "(case x of Inl b \<Rightarrow> Some b | Inr _ \<Rightarrow> None) = Some a \<longleftrightarrow> x = Inl a" for x :: "'a + 'b" by (cases x) auto
  then show ?thesis by (simp add: in_map_filter)
qed

lemma plan_goes:
  assumes "plan_reclamation de iv = Some (actions, refusals)" "a \<in> set actions"
  shows "list_all (goes de iv) (ra_commands a)
    \<and> (\<forall>(i, owner) \<in> set (ra_queries a). de_leader de \<and> owner \<notin> set (de_t1_ids de) \<and> (\<exists>p. de_pool de = Some p \<and> (i, owner) \<in> set p) \<and> ra_commands a = [])"
proof -
  let ?slots = "map slot_verdict (orphaned_slots de)"
  from assms have whole: "None \<notin> set ?slots" and "Inl a \<in> set (plan_verdicts de iv @ map the ?slots)"
    by (auto simp only: plan_reclamation_def Let_def left_member option.inject prod.inject split: if_splits)
  then consider "Inl a \<in> set (plan_verdicts de iv)" | x where "x \<in> set (orphaned_slots de)" "Inl a = the (slot_verdict x)" "slot_verdict x \<noteq> None"
    by force
  then show ?thesis
  proof cases
    case 1
    then show ?thesis using plan_commands [of de iv] by (auto simp: list_all_iff ok_verdict_def)
  next
    case 2
    then have "slot_verdict x = Some (Inl a)" by auto
    with 2(1) show ?thesis by (cases "de_pool de") (auto simp: slot_verdict_def orphaned_slots_def split: option.splits prod.splits if_splits)
  qed
qed

text \<open>
  C16. The collector removes only what is free to go. Every command of a plan has one of the reasons above: it deletes the bridge or the tunnel of a segment that is not configured, whose
  bridge has nobody else's port and no address on it, or its veth; the veth of a configured segment that leads to the wrong namespace or has both its ends on the host; a transit veth that
  was left on the host; the uplink of a tier-0 router that is not configured or, on a node that does not lead, of any; the namespace of a tier-1 router that is not configured or of a tier-0 router that is not configured or,
  on a node that does not lead, of any, if it holds only what the daemon made; a DHCP
  server on an interface that needs none; a flood entry for no peer; or a return route that is not wanted. A transit slot is released only by the leader, for a router that is recorded for it and was not among
  the routers read.
\<close>

theorem only_the_free_goes:
  assumes "plan_reclamation de iv = Some (actions, refusals)" "a \<in> set actions"
  shows "list_all (goes de iv) (ra_commands a)
    \<and> (\<forall>(i, owner) \<in> set (ra_queries a). de_leader de \<and> owner \<notin> set (de_t1_ids de) \<and> (\<exists>p. de_pool de = Some p \<and> (i, owner) \<in> set p) \<and> ra_commands a = [])"
  using plan_goes [OF assms] .

section \<open>What stays\<close>

lemma before_eol_digits: "list_all is_digit d \<Longrightarrow> before_eol d = d"
proof -
  assume "list_all is_digit d"
  then have "d \<noteq> [] \<Longrightarrow> is_digit (List.last d)" by (auto simp: list_all_iff)
  then show ?thesis by (auto simp: before_eol_def is_digit_def)
qed

lemma numbered_show: "0 \<le> v \<Longrightarrow> numbered pre (pre @ show_int v) = Some v"
  using show_nat_digits [of "nat v"] before_eol_digits [of "show_nat (nat v)"]
  by (auto simp: numbered_def show_int_def list_all_iff Let_def starts_with_iff)

lemmas name_defs = br_ov_def vxlan_def veth_ov_def transit_veth_def macvlan_t0_def ns_t0_def ns_t1_def

lemma other_names:
  "vxlan (''br-ov-'' @ x) = None" "veth_ov (''br-ov-'' @ x) = None" "transit_veth (''br-ov-'' @ x) = None" "macvlan_t0 (''br-ov-'' @ x) = None"
  "br_ov (''vxlan-'' @ x) = None" "veth_ov (''vxlan-'' @ x) = None" "transit_veth (''vxlan-'' @ x) = None" "macvlan_t0 (''vxlan-'' @ x) = None"
  "ns_t0 (''ns-t1-'' @ x) = None" "ns_t1 (''ns-t0-'' @ x) = None"
  by (simp_all add: name_defs numbered_def tagged_def)

lemma delete_goes:
  assumes "goes de iv (delete_link name)"
  shows "(\<exists>vni. (br_ov name = Some vni \<or> vxlan name = Some vni) \<and> vni \<notin> set (de_vnis de)) \<or> veth_ov name \<noteq> None \<or> transit_veth name \<noteq> None \<or> macvlan_t0 name \<noteq> None"
  using assms by (cases rule: goes.cases) (auto simp: delete_link_def netns_commands_def split: option.splits)

lemma netns_goes:
  assumes "goes de iv (''ip netns del '' @ ns)"
  shows "router_gone de ns"
  using assms by (cases rule: goes.cases) (auto simp: delete_link_def netns_commands_def split: option.splits)

lemma tagged_own: "tagged pre (pre @ p) = Some q \<Longrightarrow> length p = 8 \<Longrightarrow> q = p"
  by (auto simp: tagged_def before_eol_def starts_with_iff Let_def split: if_splits)

lemma link_stays:
  assumes "goes de iv c" "v \<in> set (de_vnis de)" "0 \<le> v"
  shows "c \<noteq> delete_link (''br-ov-'' @ show_int v)" "c \<noteq> delete_link (''vxlan-'' @ show_int v)"
  using assms delete_goes [of de iv "''br-ov-'' @ show_int v"] delete_goes [of de iv "''vxlan-'' @ show_int v"]
    numbered_show [of v "''br-ov-''"] numbered_show [of v "''vxlan-''"] other_names [of "show_int v"]
  by (auto simp: br_ov_def vxlan_def)

lemma namespace_stays:
  assumes "goes de iv c" "length p = 8"
  shows "p \<in> set (de_t1_prefixes de) \<Longrightarrow> c \<noteq> ''ip netns del ns-t1-'' @ p"
    "de_leader de \<Longrightarrow> p \<in> set (de_t0_prefixes de) \<Longrightarrow> c \<noteq> ''ip netns del ns-t0-'' @ p"
  using assms netns_goes [of de iv "''ns-t1-'' @ p"] netns_goes [of de iv "''ns-t0-'' @ p"] other_names(9,10) [of p]
    tagged_own [of "''ns-t1-''" p] tagged_own [of "''ns-t0-''" p]
  by (auto simp: router_gone_def ns_t0_def ns_t1_def)

text \<open>
  C17. The bridges and tunnels of the configured segments and the namespaces of the configured routers stay, whatever the inventory says.
\<close>

theorem the_configured_stays:
  assumes "plan_reclamation de iv = Some (actions, refusals)" "a \<in> set actions" "c \<in> set (ra_commands a)"
  shows "(\<forall>v \<in> set (de_vnis de). 0 \<le> v \<longrightarrow> c \<noteq> delete_link (''br-ov-'' @ show_int v) \<and> c \<noteq> delete_link (''vxlan-'' @ show_int v))
    \<and> (\<forall>p \<in> set (de_t1_prefixes de). length p = 8 \<longrightarrow> c \<noteq> ''ip netns del ns-t1-'' @ p)
    \<and> (\<forall>p \<in> set (de_t0_prefixes de). de_leader de \<and> length p = 8 \<longrightarrow> c \<noteq> ''ip netns del ns-t0-'' @ p)"
proof -
  have "goes de iv c" using plan_goes [OF assms(1,2)] assms(3) by (simp add: list_all_iff)
  then show ?thesis by (simp add: link_stays namespace_stays del: append.simps)
qed

section \<open>A pass looks before it removes\<close>

definition looks :: "string \<Rightarrow> bool" where
  "looks c \<longleftrightarrow> list_ex (starts_with c) [''ip netns list'', ''ip -d -json link show'', ''ip -json '', ''ip netns pids '', ''bridge -json fdb show '']"

definition harmless :: "uevent \<Rightarrow> bool" where
  "harmless e = (case e of U_Run c _ \<Rightarrow> looks c | U_Cas _ _ _ \<Rightarrow> False | U_Query _ _ _ \<Rightarrow> True)"

definition essential :: "string list" where
  "essential = map (\<lambda>t. ''SELECT JSON * FROM hydra.urbosa_'' @ t @ '';'') [''t0_routers'', ''t1_routers'', ''segments'']"

text \<open>One of the three tables of the desired state could not be read, or not whole.\<close>

definition unread :: "uevent list \<Rightarrow> bool" where
  "unread es \<longleftrightarrow> list_ex (\<lambda>e. case e of U_Query q rc out \<Rightarrow> q \<in> set essential \<and> (rc \<noteq> 0 \<or> table_rows out = None) | _ \<Rightarrow> False) es"

definition careful :: "bool \<Rightarrow> uevent list \<Rightarrow> bool" where
  "careful dry es \<longleftrightarrow> (dry \<or> unread es \<longrightarrow> list_all harmless es)"

definition quiet :: "bool \<Rightarrow> uevent \<Rightarrow> bool" where
  "quiet dry e \<longleftrightarrow> (dry \<longrightarrow> harmless e) \<and> \<not> unread [e]"

lemma quiet_run: "quiet dry (U_Run c rc) \<longleftrightarrow> (dry \<longrightarrow> looks c)" "\<not> quiet True (U_Cas q rc out)" "quiet False (U_Cas q rc out)"
  by (simp_all add: quiet_def harmless_def unread_def)

lemma quiet_query: "q \<notin> set essential \<Longrightarrow> quiet dry (U_Query q rc out)"
  by (simp add: quiet_def harmless_def unread_def)

lemma emits_look: "looks c \<Longrightarrow> emits (quiet dry) (run_cmd env c)"
  unfolding run_cmd_def by (intro emits_act) (simp add: quiet_run)

lemma emits_table: "''SELECT JSON '' @ columns @ '' FROM '' @ table @ '';'' \<notin> set essential \<Longrightarrow> emits (quiet dry) (read_json_table env table columns)"
  unfolding read_json_table_def query_def by (intro emits_intros quiet_query) auto

lemma emits_collect: "emits (quiet dry) (collect_inventory env de)"
  unfolding collect_inventory_def look_up_def list_netns_def list_links_def list_netns_links_def list_netns_processes_def list_bridge_ports_def
    read_iface_addresses_def list_flood_entries_def list_netns_routes_def
  by (intro emits_intros emits_look) (simp_all add: looks_def)

lemma emits_commands: "emits (quiet False) (run_commands env cs)"
proof (induction cs)
  case (Cons c cs)
  then show ?case unfolding run_commands.simps run_cmd_def by (intro emits_intros) (simp_all add: quiet_run)
qed (simp add: all_events.of_ret)

lemma emits_release: "emits (quiet False) (release_transit_index env index router)"
  unfolding release_transit_index_def conditional_query_def by (intro emits_intros) (simp add: quiet_run)

lemma emits_queries: "emits (quiet False) (run_queries env qs)"
  by (induction env qs rule: run_queries.induct) (auto intro!: all_events.of_ret all_events.of_bind yields_if emits_release)

lemma emits_execute: "emits (quiet dry) (execute_plan env dry actions)"
  unfolding execute_plan_def perform_def
  by (cases dry; simp; intro emits_intros emits_commands emits_queries)

lemma emits_reclaim: "emits (quiet dry) (reclaim_from env dry t0 t1 segs ips leader p)"
  unfolding reclaim_from_def by (intro emits_intros emits_collect emits_execute)

lemma yields_table:
  "yields (read_json_table env table columns) (\<lambda>r es. list_all harmless es \<and> (r \<noteq> None \<longrightarrow> \<not> unread es))"
  unfolding read_json_table_def query_def by (intro yields_intros) (auto simp: harmless_def unread_def)

text \<open>
  C18. A dry run removes nothing, and nothing is removed when the routers or the segments could not be read in full: a failed read is never taken for
  an empty table.
\<close>

theorem passes_are_careful: "yields (reclaim_once env dry) (\<lambda>_. careful dry)"
proof -
  have rest: "emits (quiet dry) (do { ips \<leftarrow> get_db_node_ips env; p \<leftarrow> read_transit_pool env; leader \<leftarrow> look (ub_leader env); reclaim_from env dry t0 t1 segs ips leader p })" for t0 t1 segs
    unfolding get_db_node_ips_def read_transit_pool_def transit_table_def
    by (intro emits_intros emits_table emits_reclaim) (simp_all add: essential_def)
  show ?thesis
    unfolding reclaim_once_def get_db_routers_t0_def get_db_routers_t1_def get_db_segments_def
    by (intro yields_bind yields_mono [OF yields_table] yields_case_prod yields_case_option yields_ret yields_mono [OF rest])
      (auto simp: careful_def quiet_def unread_def list_all_iff list_ex_iff)
qed

section \<open>A small host\<close>

text \<open>A host with the bridge of a segment that is gone and that of one that is not, and what the database asks for.\<close>

definition lab_desired :: desired where
  "lab_desired =
     \<lparr>de_t0_prefixes = [], de_t1_prefixes = [''aabbccdd''], de_t1_ids = [], de_vnis = [9], de_segment_ns = [], de_dnsmasq = [], de_peers = None, de_leader = True, de_pool = None,
      de_t0_routes = []\<rparr>"

definition lab_inventory :: inventory where
  "lab_inventory =
     \<lparr>in_netns = [], in_links = [(''br-ov-9'', \<lparr>lk_kind = J_Str ''bridge'', lk_master = J_Null, lk_netnsid = J_Null\<rparr>), (''br-ov-7'', \<lparr>lk_kind = J_Str ''bridge'', lk_master = J_Null, lk_netnsid = J_Null\<rparr>)],
      in_ports = [(''br-ov-7'', Some [''vxlan-7''])], in_addrs = [(''br-ov-7'', Some [])], in_ns_links = [], in_procs = [], in_routes = [], in_flood = []\<rparr>"

definition lab_action :: reclaim_action where
  "lab_action =
     \<lparr>ra_kind = ''bridge'', ra_target = ''br-ov-7'', ra_reason = no_segment 7, ra_commands = [''ip link set br-ov-7 down'', ''ip link delete br-ov-7''], ra_queries = []\<rparr>"

lemma lab_plan: "plan_reclamation lab_desired lab_inventory = Some ([lab_action], [])"
  by code_simp

theorem only_the_free_goes_witness: "list_all (goes lab_desired lab_inventory) [''ip link set br-ov-7 down'', ''ip link delete br-ov-7'']"
  using only_the_free_goes [OF lab_plan, of lab_action] by (simp add: lab_action_def)

theorem the_configured_stays_witness: "''ip link delete br-ov-7'' \<noteq> delete_link (''br-ov-'' @ show_int 9)"
proof -
  have "''ip link delete br-ov-7'' \<in> set (ra_commands lab_action)" by (simp add: lab_action_def)
  from the_configured_stays [OF lab_plan _ this] show ?thesis by (simp add: lab_desired_def)
qed

text \<open>
  The settings default to a real run. An operator who set \<open>urbosa_gc_dry_run\<close> loses what a pass would only have reported when the settings alone cannot be read.
\<close>

definition silent_settings :: "unit urbosa_env" where
  "silent_settings =
     \<lparr>ub_query = (\<lambda>_ w. ((1, [], ''timeout''), w)), ub_cas = (\<lambda>_ w. ((1, [], []), w)),
      ub_run = (\<lambda>c w. ((0, if c = ''ip netns list'' then ''ns-t1-aabbccdd'' else [], []), w)), ub_argv = (\<lambda>_ w. ([], w)), ub_leader = (\<lambda>w. (False, w)), ub_now = (\<lambda>w. (0, w))\<rparr>"

lemma unread_settings_remove:
  "U_Run ''ip netns del ns-t1-aabbccdd'' 0 \<in> set (trace (snd (run_state (reclaim_step silent_settings [] [] [] None False None) \<lparr>hidden = (), trace = [], memo = None\<rparr>)))"
  by code_simp

text \<open>
  The routers are read before the pool. A router that is created in between, with its slot claimed by another host, is not among the routers read, and the leader releases
  the slot of a link that is in use.
\<close>

definition young_router :: string where "young_router = ''0f0f0f0f0f0f0f0f0f0f0f0f0f0f0f0f''"

definition growing_cluster :: "bool urbosa_env" where
  "growing_cluster =
     \<lparr>ub_query = (\<lambda>q w.
        if q = ''SELECT JSON * FROM hydra.urbosa_t1_routers;'' then ((0, if w then dumps (J_Dict [(''router_id'', J_Str young_router)]) else [], []), True)
        else if q = ''SELECT JSON subnet_index, router_id FROM hydra.urbosa_transit_pool;''
        then ((0, if w then dumps (J_Dict [(''subnet_index'', J_Num 5), (''router_id'', J_Str young_router)]) else [], []), w)
        else ((0, [], []), w)),
      ub_cas = (\<lambda>_ w. ((0, ''True'', []), w)), ub_run = (\<lambda>_ w. ((0, [], []), w)), ub_argv = (\<lambda>_ w. ([], w)), ub_leader = (\<lambda>w. (True, w)), ub_now = (\<lambda>w. (0, w))\<rparr>"

lemma young_reads:
  "fst (run_state (do { t1 \<leftarrow> get_db_routers_t1 growing_cluster; p \<leftarrow> read_transit_pool growing_cluster; now \<leftarrow> get_db_routers_t1 growing_cluster; ret (t1, p, now) })
       \<lparr>hidden = False, trace = [], memo = None\<rparr>)
     = (Some [], Some [(5, young_router)], Some [[(''router_id'', J_Str young_router)]])"
  by code_simp

lemma young_release:
  "U_Cas (release_statement 5 young_router) 0 ''True''
     \<in> set (trace (snd (run_state (reclaim_from growing_cluster False [] [] [] None True (Some [(5, young_router)])) \<lparr>hidden = True, trace = [], memo = None\<rparr>)))"
  by code_simp

lemma a_young_router_loses_its_slot:
  "\<exists>t1 p now. fst (run_state (do { t1 \<leftarrow> get_db_routers_t1 growing_cluster; p \<leftarrow> read_transit_pool growing_cluster; now \<leftarrow> get_db_routers_t1 growing_cluster; ret (t1, p, now) })
       \<lparr>hidden = False, trace = [], memo = None\<rparr>) = (Some t1, p, Some now)
     \<and> U_Cas (release_statement 5 young_router) 0 ''True''
         \<in> set (trace (snd (run_state (reclaim_from growing_cluster False [] t1 [] None True p) \<lparr>hidden = True, trace = [], memo = None\<rparr>)))
     \<and> young_router \<in> set (router_ids now)"
  using young_reads young_release by (intro exI [of _ "[]"] exI [of _ "Some [(5, young_router)]"] exI conjI) (assumption | simp add: router_ids_def truthy_got_def truthy_jval_def got_def jval_text_def young_router_def)+

end
