(* ===== verification/Saga.thy ===== *)
theory Saga
  imports Utc Sha256 Text_Lines Effects Json
begin

text \<open>
  The artefacts of the metadata backups of \<open>src/saga.py\<close>: their names, the scan of a target, retention and the commands that apply it, the verification of an artefact and the comparison of
  schemas. The runs that write and load them are in \<open>Saga_Runs\<close>. The file system, the archive reader and the cluster are effects. Shown: a name is read back, retention keeps the good
  backups, a verified artefact is whole, and only equal schemas match.
\<close>

section \<open>Names\<close>

definition artefact_char :: "char \<Rightarrow> bool" where
  "artefact_char c \<longleftrightarrow> is_alnum c \<or> c = CHR ''_''"

definition sanitize :: "string \<Rightarrow> string" where
  "sanitize v = (if v = [] then ''unknown'' else map (\<lambda>c. if artefact_char c then c else CHR ''_'') v)"

definition archive_suffix :: string where "archive_suffix = ''.tar.gz''"
definition manifest_suffix :: string where "manifest_suffix = ''.tar.gz.manifest.json''"
definition partial_suffix :: string where "partial_suffix = ''.tar.gz.partial''"

definition artefact_name :: "string \<Rightarrow> string \<Rightarrow> string \<Rightarrow> string" where
  "artefact_name cluster node stamp = ''saga-'' @ sanitize cluster @ ''-'' @ sanitize node @ ''-'' @ stamp @ archive_suffix"

text \<open>\<open>utc_stamp\<close>, for a time in seconds since the epoch.\<close>

definition second_stamp :: "nat \<Rightarrow> string" where
  "second_stamp secs =
     (let rest = secs mod 86400;
          (y, yd) = split_year 1970 (secs div 86400);
          (m, md) = split_month (month_lens y) 1 yd
      in show_nat y @ pad2 m @ pad2 (md + 1) @ ''T'' @ pad2 (rest div 3600) @ pad2 (rest mod 3600 div 60) @ pad2 (rest mod 60) @ ''Z'')"

definition days_before_year :: "nat \<Rightarrow> int" where
  "days_before_year y = (let n = int y - 1 in 365 * n + n div 4 - n div 100 + n div 400)"

text \<open>Of the texts that the pattern lets through, \<open>strptime\<close> takes those that name a day of the calendar, with leap seconds.\<close>

definition stamp_shape :: "string \<Rightarrow> bool" where
  "stamp_shape s \<longleftrightarrow> length s = 16 \<and> list_all is_digit (take 8 s) \<and> s ! 8 = CHR ''T'' \<and> list_all is_digit (take 6 (drop 9 s)) \<and> s ! 15 = CHR ''Z''"

definition parse_stamp :: "string \<Rightarrow> int option" where
  "parse_stamp s =
     (let part = (\<lambda>i n. read_nat (take n (drop i s)));
          y = part 0 4; m = part 4 2; d = part 6 2; h = part 9 2; mi = part 11 2; sec = part 13 2
      in if 1 \<le> y \<and> 1 \<le> m \<and> m \<le> 12 \<and> 1 \<le> d \<and> d \<le> month_lens y ! (m - 1) \<and> h \<le> 23 \<and> mi \<le> 59 \<and> sec \<le> 61
         then Some ((days_before_year y - days_before_year 1970 + int (sum_list (take (m - 1) (month_lens y))) + int d - 1) * 86400
                    + int (h * 3600 + mi * 60 + sec))
         else None)"

record artefact =
  ar_cluster :: string
  ar_node :: string
  ar_stamp :: string
  ar_epoch :: int

definition parse_artefact_name :: "string \<Rightarrow> artefact option" where
  "parse_artefact_name filename =
     (case split_on (CHR ''-'') filename of
        [a, cluster, node, rest] \<Rightarrow>
          (let stamp = take 16 rest
           in if a = ''saga'' \<and> cluster \<noteq> [] \<and> list_all artefact_char cluster \<and> node \<noteq> [] \<and> list_all artefact_char node \<and> stamp_shape stamp \<and> drop 16 rest = archive_suffix
              then map_option (\<lambda>epoch. \<lparr>ar_cluster = cluster, ar_node = node, ar_stamp = stamp, ar_epoch = epoch\<rparr>) (parse_stamp stamp)
              else None)
      | _ \<Rightarrow> None)"

section \<open>The target\<close>

text \<open>A manifest with the fields that are read; the copy of \<open>cluster.json\<close> and the replication are left out. Where a name of a dictionary occurs twice, the first entry counts.\<close>

type_synonym schema_ledger = "(string \<times> string option) list"

record backup_manifest =
  mf_bytes :: "int option"
  mf_sha :: "string option"
  mf_members :: "(string \<times> int \<times> string) list"
  mf_keyspace :: "string option"
  mf_migrations :: schema_ledger
  mf_created :: string
  mf_round :: string
  mf_snapshot :: string
  mf_cluster :: string
  mf_node :: string
  mf_tables :: "string list"
  mf_ca :: bool
  mf_local :: bool

datatype sidecar = Absent | Unreadable string | Sidecar backup_manifest

datatype sexn = Saga_Error string | Value_Error string | Os_Error string

text \<open>A member of an archive: its name, whether it is a file, its size and what taking it out gives: no handle, its content, or why reading it failed.\<close>

datatype payload = No_Handle | Content string | Broken string

type_synonym tar_member = "string \<times> bool \<times> int \<times> payload"

text \<open>
  On the left of a sum, and in an optional text, why a call failed. \<open>sg_tar\<close> gives the members up to the end of the archive or to where reading it failed; \<open>sg_remove\<close> answers with an error other
  than that there is no such file; \<open>sg_walk\<close> gives the directories below one, relative to it, with the names of their files; \<open>sg_mounts\<close> is the answer of \<open>podman inspect\<close>, destinations and
  sources; \<open>sg_rows\<close> is \<open>cql_json\<close>, with the texts of the columns.
\<close>

record 'w saga_env =
  sg_list :: "string \<Rightarrow> 'w \<Rightarrow> (string + string list) \<times> 'w"
  sg_isdir :: "string \<Rightarrow> 'w \<Rightarrow> bool \<times> 'w"
  sg_isfile :: "string \<Rightarrow> 'w \<Rightarrow> bool \<times> 'w"
  sg_islink :: "string \<Rightarrow> 'w \<Rightarrow> bool \<times> 'w"
  sg_exists :: "string \<Rightarrow> 'w \<Rightarrow> bool \<times> 'w"
  sg_access :: "string \<Rightarrow> 'w \<Rightarrow> bool \<times> 'w"
  sg_dev :: "string \<Rightarrow> 'w \<Rightarrow> (string + int) \<times> 'w"
  sg_walk :: "string \<Rightarrow> 'w \<Rightarrow> (string \<times> string list) list \<times> 'w"
  sg_sidecar :: "string \<Rightarrow> 'w \<Rightarrow> sidecar \<times> 'w"
  sg_size :: "string \<Rightarrow> 'w \<Rightarrow> (string + int) \<times> 'w"
  sg_content :: "string \<Rightarrow> 'w \<Rightarrow> (string + string) \<times> 'w"
  sg_tar :: "string \<Rightarrow> 'w \<Rightarrow> (tar_member list \<times> string option) \<times> 'w"
  sg_remove :: "string \<Rightarrow> 'w \<Rightarrow> string option \<times> 'w"
  sg_mkdtemp :: "string \<Rightarrow> 'w \<Rightarrow> (string + string) \<times> 'w"
  sg_makedirs :: "string \<Rightarrow> 'w \<Rightarrow> string option \<times> 'w"
  sg_copy :: "string \<Rightarrow> string \<Rightarrow> 'w \<Rightarrow> string option \<times> 'w"
  sg_write :: "string \<Rightarrow> string \<Rightarrow> 'w \<Rightarrow> string option \<times> 'w"
  sg_pack :: "string \<Rightarrow> backup_manifest \<Rightarrow> (string \<times> string) list \<Rightarrow> 'w \<Rightarrow> string option \<times> 'w"
  sg_chmod :: "string \<Rightarrow> 'w \<Rightarrow> string option \<times> 'w"
  sg_replace :: "string \<Rightarrow> string \<Rightarrow> 'w \<Rightarrow> string option \<times> 'w"
  sg_dump :: "string \<Rightarrow> backup_manifest \<Rightarrow> 'w \<Rightarrow> string option \<times> 'w"
  sg_extract :: "string \<Rightarrow> string \<Rightarrow> 'w \<Rightarrow> string option \<times> 'w"
  sg_mounts :: "'w \<Rightarrow> (int \<times> (string option \<times> string option) list option) \<times> 'w"
  sg_nodetool :: "string list \<Rightarrow> 'w \<Rightarrow> (int \<times> string \<times> string) \<times> 'w"
  sg_cqlsh :: "string \<Rightarrow> 'w \<Rightarrow> (int \<times> string \<times> string) \<times> 'w"
  sg_rows :: "string \<Rightarrow> 'w \<Rightarrow> (sexn + (string \<times> string) list list) \<times> 'w"
  sg_cluster :: "'w \<Rightarrow> (string + string option \<times> string option list) \<times> 'w"
  sg_peer :: "string \<Rightarrow> string \<Rightarrow> int \<Rightarrow> 'w \<Rightarrow> (int \<times> string \<times> string) \<times> 'w"
  sg_now :: "'w \<Rightarrow> nat \<times> 'w"
  sg_dumps :: "schema_ledger \<Rightarrow> string"

datatype gevent =
    G_Remove string | G_Verified string "string list" | G_Copy string string "string option" | G_Refresh string string int
  | G_Snapshot string string int | G_Clear string string int | G_Pack string "string option" | G_Publish string "string option" | G_Sidecar string backup_manifest "string option"
  | G_Peer string int | G_Matched schema_ledger schema_ledger | G_Local "sexn + backup_manifest" | G_Cluster "string + string option \<times> string option list"

definition manifest_path_for :: "string \<Rightarrow> string" where
  "manifest_path_for archive_path = take (length archive_path - length archive_suffix) archive_path @ manifest_suffix"

definition quick_health :: "'w saga_env \<Rightarrow> string \<Rightarrow> ('w, gevent, bool \<times> string) eff" where
  "quick_health env archive_path = do {
     sc \<leftarrow> look (sg_sidecar env (manifest_path_for archive_path));
     case sc of
       Absent \<Rightarrow> ret (False, ''no manifest'')
     | Unreadable why \<Rightarrow> ret (False, ''manifest unreadable ('' @ why @ '')'')
     | Sidecar m \<Rightarrow>
         (case mf_bytes m of
            None \<Rightarrow> ret (False, ''manifest records no archive size'')
          | Some recorded \<Rightarrow> do {
              actual \<leftarrow> look (sg_size env archive_path);
              ret (case actual of
                     Inl why \<Rightarrow> (False, ''unreadable ('' @ why @ '')'')
                   | Inr n \<Rightarrow> if n \<noteq> recorded then (False, ''size '' @ show_int n @ '', manifest says '' @ show_int recorded) else (True, [])) }) }"

record entry = artefact +
  en_name :: string
  en_path :: string
  en_partial :: bool
  en_healthy :: bool
  en_reason :: string
  en_bytes :: int

definition path_join :: "string \<Rightarrow> string \<Rightarrow> string" where
  "path_join a b = (if starts_with b ''/'' then b else if a = [] \<or> ends_with a ''/'' then a @ b else a @ ''/'' @ b)"

definition size_or_zero :: "'w saga_env \<Rightarrow> string \<Rightarrow> ('w, gevent, int) eff" where
  "size_or_zero env path = do { n \<leftarrow> look (sg_size env path); ret (case n of Inl _ \<Rightarrow> 0 | Inr k \<Rightarrow> k) }"

definition new_entry :: "artefact \<Rightarrow> string \<Rightarrow> string \<Rightarrow> bool \<Rightarrow> bool \<times> string \<Rightarrow> int \<Rightarrow> entry" where
  "new_entry a name path part health n =
     \<lparr>ar_cluster = ar_cluster a, ar_node = ar_node a, ar_stamp = ar_stamp a, ar_epoch = ar_epoch a, en_name = name, en_path = path, en_partial = part,
      en_healthy = fst health, en_reason = snd health, en_bytes = n\<rparr>"

text \<open>\<open>sorted\<close> with \<open>reverse\<close>, which keeps the order of equal keys.\<close>

definition newest_first :: "('a \<Rightarrow> int) \<Rightarrow> 'a list \<Rightarrow> 'a list" where
  "newest_first f xs = rev (sort_key f (rev xs))"

definition scan_name :: "'w saga_env \<Rightarrow> string \<Rightarrow> string option \<Rightarrow> string \<Rightarrow> entry list \<Rightarrow> ('w, gevent, entry list) eff" where
  "scan_name env target cluster name acc =
     (let part = ends_with name partial_suffix;
          full = (if part then take (length name - length partial_suffix) name @ archive_suffix else name);
          path = path_join target name
      in case parse_artefact_name full of
           None \<Rightarrow> ret acc
         | Some a \<Rightarrow>
             if truthy_str cluster \<and> ar_cluster a \<noteq> sanitize (the cluster) then ret acc
             else do {
               health \<leftarrow> (if part then ret (False, ''incomplete'') else quick_health env path);
               n \<leftarrow> size_or_zero env path;
               ret (acc @ [new_entry a name path part health n]) })"

definition scan_target :: "'w saga_env \<Rightarrow> string \<Rightarrow> string option \<Rightarrow> ('w, gevent, sexn + entry list) eff" where
  "scan_target env target cluster = do {
     names \<leftarrow> look (sg_list env target);
     case names of
       Inl why \<Rightarrow> raiseE (Saga_Error (''cannot list backup target '' @ quoted target @ '': '' @ why))
     | Inr ns \<Rightarrow> do {
         es \<leftarrow> for_each (scan_name env target cluster) (sort ns) [];
         okE (newest_first ar_epoch es) } }"

section \<open>Retention\<close>

definition partial_max_age :: int where "partial_max_age = 24 * 3600"

text \<open>
  The plan; \<^const>\<open>None\<close> where it raises because nothing would be kept. The age in days is compared exactly: for the times in use, the rounding of the quotient does not carry it over a whole number.
\<close>

definition removal_reason :: "int \<Rightarrow> int \<Rightarrow> entry \<Rightarrow> string" where
  "removal_reason keep keep_days e =
     (if en_healthy e then ''beyond keep='' @ show_int keep @ '' and older than '' @ show_int keep_days @ '' days''
      else ''unusable ('' @ (if en_reason e = [] then ''unknown'' else en_reason e) @ '') and older than '' @ show_int keep_days @ '' days'')"

definition protected :: "int \<Rightarrow> entry list \<Rightarrow> string list" where
  "protected keep mine = map en_name (take (nat keep) (newest_first ar_epoch (filter (\<lambda>e. \<not> en_partial e \<and> en_healthy e) mine)))"

definition outlived :: "int \<Rightarrow> int \<Rightarrow> int \<Rightarrow> entry list \<Rightarrow> entry \<Rightarrow> bool" where
  "outlived keep keep_days now mine e =
     (if en_partial e then now - ar_epoch e > partial_max_age
      else en_name e \<notin> set (protected keep mine) \<and> now - ar_epoch e > 86400 * keep_days)"

definition retention_plan :: "entry list \<Rightarrow> string \<Rightarrow> int \<Rightarrow> int \<Rightarrow> int \<Rightarrow> (entry list \<times> (entry \<times> string) list) option" where
  "retention_plan entries owner_node keep keep_days now =
     (if keep < 1 then None
      else (let mine = filter (\<lambda>e. ar_node e = sanitize owner_node) entries;
                others = filter (\<lambda>e. ar_node e \<noteq> sanitize owner_node) entries;
                gone = outlived keep keep_days now mine;
                parts = filter en_partial mine;
                whole = newest_first ar_epoch (filter (\<lambda>e. \<not> en_partial e) mine)
            in Some (newest_first ar_epoch (others @ filter (\<lambda>e. \<not> gone e) parts @ filter (\<lambda>e. \<not> gone e) whole),
                     sort_key (\<lambda>(e, _). ar_epoch e)
                       (map (\<lambda>e. (e, ''abandoned partial from an interrupted run'')) (filter gone parts)
                        @ map (\<lambda>e. (e, removal_reason keep keep_days e)) (filter gone whole)))))"

definition remove_entry :: "'w saga_env \<Rightarrow> bool \<Rightarrow> entry \<times> string \<Rightarrow> unit \<Rightarrow> ('w, gevent, unit) eff" where
  "remove_entry env dry x _ =
     (let e = fst x
      in if dry then ret ()
         else for_each (\<lambda>path _. do { _ \<leftarrow> act (sg_remove env path) (\<lambda>_. G_Remove path); ret () })
                ([en_path e] @ (if en_partial e then [] else [manifest_path_for (en_path e)])) ())"

definition apply_retention :: "'w saga_env \<Rightarrow> entry list \<Rightarrow> string \<Rightarrow> int \<Rightarrow> int \<Rightarrow> int \<Rightarrow> bool \<Rightarrow> ('w, gevent, sexn + entry list \<times> (entry \<times> string) list) eff" where
  "apply_retention env entries owner_node keep keep_days now dry =
     (case retention_plan entries owner_node keep keep_days now of
        None \<Rightarrow> raiseE (Value_Error (''retention must keep at least one backup; keep='' @ show_int keep @ '' would allow a run to delete every artefact it has''))
      | Some (retained, removals) \<Rightarrow> do {
          _ \<leftarrow> for_each (remove_entry env dry) removals ();
          okE (retained, removals) })"

text \<open>The end of a backup, and the command.\<close>

definition prune_after_backup :: "'w saga_env \<Rightarrow> string \<Rightarrow> string \<Rightarrow> string \<Rightarrow> int \<Rightarrow> int \<Rightarrow> int \<Rightarrow> ('w, gevent, sexn + entry list \<times> (entry \<times> string) list) eff" where
  "prune_after_backup env target cluster_name address keep keep_days now =
     bindE (scan_target env target (Some cluster_name)) (\<lambda>entries. apply_retention env entries address keep keep_days now False)"

definition cmd_prune :: "'w saga_env \<Rightarrow> string \<Rightarrow> string \<Rightarrow> int \<Rightarrow> int \<Rightarrow> int \<Rightarrow> bool \<Rightarrow> ('w, gevent, sexn + entry list \<times> (entry \<times> string) list) eff" where
  "cmd_prune env target address keep keep_days now dry =
     bindE (scan_target env target None) (\<lambda>entries. apply_retention env entries address keep keep_days now dry)"

section \<open>Verification\<close>

definition archive_problems :: "backup_manifest \<Rightarrow> string \<Rightarrow> string list" where
  "archive_problems m content =
     (let n = int (length content); digest = sha256_hex content
      in (if mf_bytes m \<noteq> Some n then [''archive is '' @ show_int n @ '' bytes, manifest records '' @ (case mf_bytes m of None \<Rightarrow> ''None'' | Some k \<Rightarrow> show_int k) @ '' -- truncated or replaced''] else [])
         @ (if mf_sha m \<noteq> Some digest then [''archive sha256 '' @ take 16 digest @ '' does not match the manifest's '' @ take 16 (case mf_sha m of None \<Rightarrow> ''None'' | Some h \<Rightarrow> h)] else []))"

text \<open>A later entry of a name replaces an earlier one.\<close>

definition expected :: "backup_manifest \<Rightarrow> (string \<times> int \<times> string) list" where
  "expected m = rev (mf_members m)"

definition member_problems :: "backup_manifest \<Rightarrow> string \<Rightarrow> int \<Rightarrow> payload \<Rightarrow> string + string list" where
  "member_problems m name n got =
     (case map_of (expected m) name of
        None \<Rightarrow> Inr []
      | Some (bytes, sha) \<Rightarrow>
          if n \<noteq> bytes then Inr [name @ '' is '' @ show_int n @ '' bytes, manifest records '' @ show_int bytes]
          else (case got of
                  No_Handle \<Rightarrow> Inr [name @ '' could not be read out of the archive'']
                | Content c \<Rightarrow> Inr (if sha256_hex c \<noteq> sha then [name @ '' contents do not match its recorded sha256''] else [])
                | Broken why \<Rightarrow> Inl why))"

fun tar_walk :: "backup_manifest \<Rightarrow> tar_member list \<Rightarrow> string option \<Rightarrow> string list \<times> string list \<times> string option" where
  "tar_walk m [] stopped = ([], [], stopped)"
| "tar_walk m ((name, isfile, n, got) # ms) stopped =
     (if \<not> isfile \<or> name = ''manifest.json'' then tar_walk m ms stopped
      else (case member_problems m name n got of
              Inl why \<Rightarrow> ([], [name], Some why)
            | Inr ps \<Rightarrow> (case tar_walk m ms stopped of (qs, seen, st) \<Rightarrow> (ps @ qs, name # seen, st))))"

definition tar_problems :: "backup_manifest \<Rightarrow> tar_member list \<times> string option \<Rightarrow> string list" where
  "tar_problems m t =
     (case tar_walk m (fst t) (snd t) of (ps, seen, stopped) \<Rightarrow>
        let names = remdups seen; wanted = remdups (map fst (mf_members m))
        in ps
           @ (case stopped of None \<Rightarrow> [] | Some why \<Rightarrow> [''archive could not be read to the end ('' @ why @ '') -- truncated''])
           @ map (\<lambda>n. n @ '' is listed in the manifest but missing from the archive'') (sort (filter (\<lambda>n. n \<notin> set names) wanted))
           @ map (\<lambda>n. n @ '' is in the archive but not in the manifest'') (sort (filter (\<lambda>n. n \<notin> set wanted) names)))"

definition verify_artefact :: "'w saga_env \<Rightarrow> string \<Rightarrow> ('w, gevent, backup_manifest option \<times> string list) eff" where
  "verify_artefact env archive_path = do {
     sc \<leftarrow> look (sg_sidecar env (manifest_path_for archive_path));
     r \<leftarrow> (case sc of
       Absent \<Rightarrow> ret (None, [''no manifest sidecar beside '' @ rev (takeWhile (\<lambda>c. c \<noteq> CHR ''/'') (rev archive_path))])
     | Unreadable why \<Rightarrow> ret (None, [''manifest is not readable JSON: '' @ why])
     | Sidecar m \<Rightarrow> do {
         content \<leftarrow> look (sg_content env archive_path);
         case content of
           Inl why \<Rightarrow> ret (Some m, [''archive is unreadable: '' @ why])
         | Inr c \<Rightarrow> do {
             t \<leftarrow> look (sg_tar env archive_path);
             ret (Some m, archive_problems m c @ tar_problems m t) } });
     _ \<leftarrow> mark (G_Verified archive_path (snd r));
     ret r }"

section \<open>Schemas\<close>

definition schema_lines :: "schema_ledger \<Rightarrow> schema_ledger \<Rightarrow> string list" where
  "schema_lines artefact live =
     (let missing = sort (filter (\<lambda>k. map_of live k = None) (remdups (map fst artefact)));
          extra = sort (filter (\<lambda>k. map_of artefact k = None) (remdups (map fst live)));
          changed = sort (filter (\<lambda>k. map_of live k \<noteq> None \<and> map_of artefact k \<noteq> map_of live k) (remdups (map fst artefact)))
      in (if missing = [] then [] else [''the backup was taken with migrations this cluster has not applied: '' @ join '', '' missing
             @ ''. Restoring would load SSTables for tables that do not exist here.''])
         @ (if extra = [] then [] else [''this cluster has applied migrations the backup predates: '' @ join '', '' extra
             @ ''. The tables have changed shape since the snapshot was taken.''])
         @ (if changed = [] then [] else [''these migrations have the same id but different DDL here and in the backup: '' @ join '', '' changed
             @ ''. One of the two clusters ran an edited migration.'']))"

definition check_schema_compatible :: "schema_ledger \<Rightarrow> schema_ledger \<Rightarrow> bool \<Rightarrow> sexn + string list" where
  "check_schema_compatible artefact live force =
     (let ls = schema_lines artefact live; sep = [CHR 0x0A] @ ''  - ''
      in if ls = [] then Inr []
         else if \<not> force then Inl (Saga_Error (''schema mismatch between the artefact and this cluster:'' @ sep @ join sep ls @ [CHR 0x0A]
                @ ''Deploy the build the backup was taken with and run the restore again, or pass --force if you have decided this is safe.''))
         else Inr ls)"

section \<open>A name is read back\<close>

lemma days_of_Suc: "days_before_year (Suc z) = 365 * int z + int (z div 4) - int (z div 100) + int (z div 400)"
  by (simp add: days_before_year_def zdiv_int Let_def)

lemma days_step: "days_before_year (Suc (Suc z)) = days_before_year (Suc z) + int (year_len (Suc z))"
proof -
  have "Suc z mod 100 = 0 \<Longrightarrow> Suc z mod 4 = 0" "Suc z mod 400 = 0 \<Longrightarrow> Suc z mod 100 = 0" by presburger+
  then show ?thesis by (auto simp: days_of_Suc div_Suc year_len_def leap_def)
qed

lemma days_since:
  assumes "1970 \<le> y"
  shows "int (\<Sum>k = 1970..<y. year_len k) = days_before_year y - days_before_year 1970"
  using assms
proof (induction y rule: dec_induct)
  case (step n)
  then obtain z where "n = Suc z" by (cases n) auto
  with step show ?case by (simp add: days_step)
qed simp

lemma year_in_range:
  assumes "split_year 1970 d = (y, yd)" and "d < 2932897"
  shows "1970 \<le> y \<and> y < 10000"
proof -
  have y: "1970 \<le> y" "(\<Sum>k = 1970..<y. year_len k) \<le> d" using split_year_inv [OF assms(1)] by auto
  have "y < 10000"
  proof (rule ccontr)
    assume "\<not> y < 10000"
    then have "(\<Sum>k = 1970..<10000. year_len k) \<le> (\<Sum>k = 1970..<y. year_len k)" by (intro sum_mono2) auto
    moreover have "int (\<Sum>k = 1970..<10000. year_len k) = 2932897" by (subst days_since) (simp_all add: days_before_year_def)
    ultimately show False using y assms(2) by linarith
  qed
  with y show ?thesis by simp
qed

lemma four_digits: "1000 \<le> y \<Longrightarrow> y < 10000 \<Longrightarrow> length (show_nat y) = 4"
  by (auto simp: show_nat.simps [of y] show_nat.simps [of "y div 10"] show_nat.simps [of "y div 10 div 10"] show_nat.simps [of "y div 10 div 10 div 10"] not_less div_less_iff_less_mult less_eq_div_iff_mult_less_eq)

lemma read_pad2: "n < 100 \<Longrightarrow> read_nat (pad2 n) = n"
  by (simp add: pad2_def read_nat_def)

lemma pad2_digits: "n < 100 \<Longrightarrow> list_all is_digit (pad2 n)"
  by (simp add: pad2_def)

lemma second_fields:
  assumes "t < 253402300800"
  obtains y m d where "second_stamp t = show_nat y @ pad2 m @ pad2 d @ ''T'' @ pad2 (t mod 86400 div 3600) @ pad2 (t mod 86400 mod 3600 div 60) @ pad2 (t mod 86400 mod 60) @ ''Z''"
    and "1970 \<le> y" "y < 10000" "1 \<le> m" "m \<le> 12" "1 \<le> d" "d \<le> month_lens y ! (m - 1)"
    and "int (t div 86400) = days_before_year y - days_before_year 1970 + int (sum_list (take (m - 1) (month_lens y))) + int d - 1"
proof -
  obtain y yd where y: "split_year 1970 (t div 86400) = (y, yd)" by fastforce
  obtain m md where m: "split_month (month_lens y) 1 yd = (m, md)" by fastforce
  have range: "1970 \<le> y \<and> y < 10000" by (rule year_in_range [OF y]) (use assms in linarith)
  from split_year_inv [OF y] have yd: "yd < year_len y" and ys: "(\<Sum>k = 1970..<y. year_len k) + yd = t div 86400" by auto
  from split_month_inv [OF m] yd have mb: "1 \<le> m" "m - 1 < 12" "md < month_lens y ! (m - 1)" and ms: "sum_list (take (m - 1) (month_lens y)) + md = yd"
    by (auto simp: sum_month_lens month_lens_bounds)
  show thesis
  proof
    show "second_stamp t = show_nat y @ pad2 m @ pad2 (md + 1) @ ''T'' @ pad2 (t mod 86400 div 3600) @ pad2 (t mod 86400 mod 3600 div 60) @ pad2 (t mod 86400 mod 60) @ ''Z''"
      using m by (simp add: second_stamp_def y Let_def)
    show "int (t div 86400) = days_before_year y - days_before_year 1970 + int (sum_list (take (m - 1) (month_lens y))) + int (md + 1) - 1"
      using arg_cong [OF ys, of int] arg_cong [OF ms, of int] days_since [of y] range by (simp del: of_nat_sum)
  qed (use mb range in auto)
qed

lemma stamp_is_read_back:
  assumes "t < 253402300800"
  shows "stamp_shape (second_stamp t) \<and> parse_stamp (second_stamp t) = Some (int t) \<and> CHR ''-'' \<notin> set (second_stamp t)"
proof -
  obtain y m d where s: "second_stamp t = show_nat y @ pad2 m @ pad2 d @ ''T'' @ pad2 (t mod 86400 div 3600) @ pad2 (t mod 86400 mod 3600 div 60) @ pad2 (t mod 86400 mod 60) @ ''Z''"
    and y: "1970 \<le> y" "y < 10000" and m: "1 \<le> m" "m \<le> 12" and d: "1 \<le> d" "d \<le> month_lens y ! (m - 1)"
    and days: "int (t div 86400) = days_before_year y - days_before_year 1970 + int (sum_list (take (m - 1) (month_lens y))) + int d - 1"
    by (rule second_fields [OF assms])
  let ?h = "t mod 86400 div 3600" and ?mi = "t mod 86400 mod 3600 div 60" and ?se = "t mod 86400 mod 60"
  have len: "length (show_nat y) = 4" using four_digits y by simp
  have small: "m < 100" "d < 100" "?h \<le> 23" "?mi \<le> 59" "?se \<le> 59"
    using m d month_lens_bounds(2) [of "m - 1" y] by (simp, simp, linarith+)
  have hms: "?h * 3600 + ?mi * 60 + ?se = t mod 86400"
  proof -
    have "t mod 86400 mod 3600 mod 60 = ?se" by (simp add: mod_mod_cancel)
    then show ?thesis using div_mult_mod_eq [of "t mod 86400" 3600] div_mult_mod_eq [of "t mod 86400 mod 3600" 60] by linarith
  qed
  have digits: "list_all is_digit (show_nat y)" using show_nat_digits [of y] by (simp add: list_all_iff)
  note pads = pad2_digits [OF small(1)] pad2_digits [OF small(2)] pad2_digits [of ?h] pad2_digits [of ?mi] pad2_digits [of ?se]
  have all: "list_all is_digit (show_nat y @ pad2 m @ pad2 d @ pad2 ?h @ pad2 ?mi @ pad2 ?se)" using digits pads small by simp
  have shape: "stamp_shape (second_stamp t)"
    using all by (simp add: stamp_shape_def s len nth_append)
  have parts: "read_nat (take 4 (second_stamp t)) = y" "read_nat (take 2 (drop 4 (second_stamp t))) = m" "read_nat (take 2 (drop 6 (second_stamp t))) = d"
    "read_nat (take 2 (drop 9 (second_stamp t))) = ?h" "read_nat (take 2 (drop 11 (second_stamp t))) = ?mi" "read_nat (take 2 (drop 13 (second_stamp t))) = ?se"
    using small by (simp_all add: s len read_pad2)
  have "int t = int (t div 86400) * 86400 + int (t mod 86400)" using div_mult_mod_eq [of t 86400] by linarith
  then have total: "(days_before_year y - days_before_year 1970 + int (sum_list (take (m - 1) (month_lens y))) + int d - 1) * 86400 + int (?h * 3600 + ?mi * 60 + ?se) = int t"
    unfolding hms days by simp
  have guard: "1 \<le> y \<and> 1 \<le> m \<and> m \<le> 12 \<and> 1 \<le> d \<and> d \<le> month_lens y ! (m - 1) \<and> ?h \<le> 23 \<and> ?mi \<le> 59 \<and> ?se \<le> 61"
    using y m d small by linarith
  have "parse_stamp (second_stamp t) = Some (int t)"
    unfolding parse_stamp_def Let_def drop_0 parts if_P [OF guard] total ..
  moreover have "CHR ''-'' \<notin> set (second_stamp t)"
    using all is_digit_not_dash by (auto simp: s list_all_iff)
  ultimately show ?thesis using shape by simp
qed

lemma sanitize_word: "sanitize v \<noteq> [] \<and> list_all artefact_char (sanitize v)"
  by (auto simp: sanitize_def list_all_iff artefact_char_def is_alnum_def is_alpha_def is_digit_def)

lemma word_no_dash: "list_all artefact_char w \<Longrightarrow> CHR ''-'' \<notin> set w"
  by (auto simp: list_all_iff artefact_char_def is_alnum_def is_alpha_def is_digit_def)

text \<open>
  C24. For every time up to the year 9999: the name that a backup gives its artefact is read back as the folded names of the cluster and the node and the second it was taken at, whatever
  characters the two names have.
\<close>

theorem names_are_read_back:
  assumes "t < 253402300800"
  shows "parse_artefact_name (artefact_name cluster node (second_stamp t))
    = Some \<lparr>ar_cluster = sanitize cluster, ar_node = sanitize node, ar_stamp = second_stamp t, ar_epoch = int t\<rparr>"
proof -
  note st = stamp_is_read_back [OF assms]
  have len: "length (second_stamp t) = 16" using st by (simp add: stamp_shape_def)
  have "split_on (CHR ''-'') (artefact_name cluster node (second_stamp t)) = [''saga'', sanitize cluster, sanitize node, second_stamp t @ archive_suffix]"
    using st word_no_dash [OF conjunct2 [OF sanitize_word]]
    by (simp add: artefact_name_def split_on_plain split_on_cut archive_suffix_def)
  then show ?thesis using st sanitize_word by (simp add: parse_artefact_name_def len Let_def)
qed

theorem names_are_read_back_witness:
  "parse_artefact_name (artefact_name ''hci-01'' ''10.0.0.7'' (second_stamp 1700000000))
    = Some \<lparr>ar_cluster = sanitize ''hci-01'', ar_node = sanitize ''10.0.0.7'', ar_stamp = second_stamp 1700000000, ar_epoch = int 1700000000\<rparr>"
  by (rule names_are_read_back) simp

section \<open>What retention keeps\<close>

lemma newest_first_mset [simp]: "mset (newest_first f xs) = mset xs" "set (newest_first f xs) = set xs" "length (newest_first f xs) = length xs"
  by (simp_all add: newest_first_def)

lemma newest_first_sorted: "sorted_wrt (\<lambda>a b. f b \<le> f a) (newest_first f xs)"
  using sorted_sort_key [of f "rev xs"] by (simp add: newest_first_def sorted_wrt_rev sorted_map)

lemma newest_first_top:
  assumes "x \<in> set (newest_first f xs)" and "x \<notin> set (take k (newest_first f xs))" and "y \<in> set (take k (newest_first f xs))"
  shows "f x \<le> f y"
proof -
  have "x \<in> set (drop k (newest_first f xs))" using assms(1,2) by (metis Un_iff append_take_drop_id set_append)
  then show ?thesis using assms(3) newest_first_sorted [of f xs] by (metis append_take_drop_id sorted_wrt_append)
qed

definition own :: "string \<Rightarrow> entry \<Rightarrow> bool" where
  "own owner_node e \<longleftrightarrow> ar_node e = sanitize owner_node"

definition good_backup :: "string \<Rightarrow> entry \<Rightarrow> bool" where
  "good_backup owner_node e \<longleftrightarrow> own owner_node e \<and> \<not> en_partial e \<and> en_healthy e"

lemma plan_splits:
  assumes "retention_plan entries owner keep keep_days now = Some (retained, removals)"
  shows "mset retained = {#e \<in># mset entries. \<not> (own owner e \<and> outlived keep keep_days now (filter (own owner) entries) e)#}"
    and "mset (map fst removals) = {#e \<in># mset entries. own owner e \<and> outlived keep keep_days now (filter (own owner) entries) e#}"
    and "1 \<le> keep"
proof -
  let ?gone = "outlived keep keep_days now (filter (own owner) entries)"
  have own: "(\<lambda>e. ar_node e = sanitize owner) = own owner" "(\<lambda>e. ar_node e \<noteq> sanitize owner) = (\<lambda>e. \<not> own owner e)" by (auto simp: own_def)
  from assms have k: "\<not> keep < 1"
    and r: "retained = newest_first ar_epoch (filter (\<lambda>e. \<not> own owner e) entries @ filter (\<lambda>e. \<not> ?gone e) (filter en_partial (filter (own owner) entries))
        @ filter (\<lambda>e. \<not> ?gone e) (newest_first ar_epoch (filter (\<lambda>e. \<not> en_partial e) (filter (own owner) entries))))"
    and q: "removals = sort_key (\<lambda>(e, _). ar_epoch e) (map (\<lambda>e. (e, ''abandoned partial from an interrupted run'')) (filter ?gone (filter en_partial (filter (own owner) entries)))
        @ map (\<lambda>e. (e, removal_reason keep keep_days e)) (filter ?gone (newest_first ar_epoch (filter (\<lambda>e. \<not> en_partial e) (filter (own owner) entries)))))"
    unfolding retention_plan_def own Let_def by (auto split: if_splits)
  show "1 \<le> keep" using k by simp
  show "mset retained = {#e \<in># mset entries. \<not> (own owner e \<and> ?gone e)#}"
    unfolding r by (rule multiset_eqI) (auto simp: filter_filter_mset)
  show "mset (map fst removals) = {#e \<in># mset entries. own owner e \<and> ?gone e#}"
    unfolding q by (rule multiset_eqI) (auto simp: image_mset.compositionality comp_def filter_filter_mset)
qed

lemma top_is_retained:
  assumes "e \<in> set (take (nat keep) (newest_first ar_epoch (filter (\<lambda>e. \<not> en_partial e \<and> en_healthy e) mine)))"
  shows "\<not> en_partial e \<and> en_healthy e \<and> \<not> outlived keep keep_days now mine e"
  using assms in_set_takeD [OF assms] by (auto simp: outlived_def protected_def)

text \<open>
  C23. A plan divides what was found into what stays and what goes. Only artefacts that bear the node's name go: abandoned parts that are more than a day old, and whole ones older than the days to keep. A
  usable backup goes only while at least as many usable ones of the node as are to be kept stay, each at least as new; an unusable one never counts.
\<close>

theorem retention_keeps_the_good:
  assumes "retention_plan entries owner keep keep_days now = Some (retained, removals)"
  shows "mset entries = mset retained + mset (map fst removals)
    \<and> (\<forall>e \<in> fst ` set removals. own owner e \<and> now - ar_epoch e > (if en_partial e then partial_max_age else 86400 * keep_days)
         \<and> (good_backup owner e \<longrightarrow> 1 \<le> keep \<and> keep \<le> int (length (filter (\<lambda>x. good_backup owner x \<and> ar_epoch e \<le> ar_epoch x) retained))))"
proof -
  let ?mine = "filter (own owner) entries"
  let ?gone = "outlived keep keep_days now ?mine"
  note parts = plan_splits [OF assms]
  have whole: "mset entries = mset retained + mset (map fst removals)" unfolding parts by (simp add: multiset_partition [of "mset entries"] add.commute)
  have removed: "own owner e \<and> ?gone e \<and> e \<in> set entries" if "e \<in> fst ` set removals" for e
  proof -
    have "e \<in># mset (map fst removals)" using that by force
    then show ?thesis unfolding parts by simp
  qed
  have old: "now - ar_epoch e > (if en_partial e then partial_max_age else 86400 * keep_days)" if "e \<in> fst ` set removals" for e
    using removed [OF that] by (simp add: outlived_def split: if_splits)
  have newer: "keep \<le> int (length (filter (\<lambda>x. good_backup owner x \<and> ar_epoch e \<le> ar_epoch x) retained))"
    if rem: "e \<in> fst ` set removals" and good: "good_backup owner e" for e
  proof -
    let ?good = "newest_first ar_epoch (filter (\<lambda>e. \<not> en_partial e \<and> en_healthy e) ?mine)"
    let ?top = "take (nat keep) ?good"
    let ?P = "\<lambda>x. good_backup owner x \<and> ar_epoch e \<le> ar_epoch x"
    have e: "e \<in> set ?good" using removed [OF rem] good by (simp add: good_backup_def)
    have out: "e \<notin> set ?top" using removed [OF rem] good by (auto simp: outlived_def protected_def good_backup_def)
    then have "length ?top = nat keep" using e by (metis in_set_conv_nth length_take min_def take_all_iff nle_le)
    moreover have "x \<in># mset ?top \<Longrightarrow> ?P x \<and> \<not> ?gone x" for x
      using newest_first_top [OF e out, of x] top_is_retained [of x keep ?mine] in_set_takeD [of x "nat keep" ?good] by (auto simp: good_backup_def)
    moreover have "mset ?top \<subseteq># mset entries"
      by (metis (no_types, lifting) append_take_drop_id mset_append mset_filter multiset_filter_subset newest_first_mset(1) subset_mset.order_trans subset_mset.le_add_same_cancel1 subset_mset.zero_le)
    ultimately have "mset ?top \<subseteq># filter_mset (\<lambda>x. ?P x) (mset retained)"
      unfolding parts filter_filter_mset by (metis (no_types, lifting) filter_mset_True filter_mset_cong multiset_filter_mono)
    then have "size (mset ?top) \<le> length (filter ?P retained)" by (metis mset_filter size_mset size_mset_mono)
    then show ?thesis using \<open>length ?top = nat keep\<close> parts(3) by simp
  qed
  show ?thesis using whole removed old newer parts(3) by blast
qed

definition lab_entry :: "string \<Rightarrow> int \<Rightarrow> entry" where
  "lab_entry name day = \<lparr>ar_cluster = ''c'', ar_node = ''n1'', ar_stamp = [], ar_epoch = 86400 * day, en_name = name, en_path = name, en_partial = False, en_healthy = True, en_reason = [], en_bytes = 1\<rparr>"

theorem retention_keeps_the_good_witness:
  "retention_plan [lab_entry ''b'' 200, lab_entry ''a'' 10] ''n1'' 1 30 25920000
     = Some ([lab_entry ''b'' 200], [(lab_entry ''a'' 10, removal_reason 1 30 (lab_entry ''a'' 10))])
   \<and> 1 \<le> length (filter (good_backup ''n1'') [lab_entry ''b'' 200])"
proof -
  have run: "retention_plan [lab_entry ''b'' 200, lab_entry ''a'' 10] ''n1'' 1 30 25920000
     = Some ([lab_entry ''b'' 200], [(lab_entry ''a'' 10, removal_reason 1 30 (lab_entry ''a'' 10))])" by code_simp
  have "good_backup ''n1'' (lab_entry ''a'' 10)" by code_simp
  then have "1 \<le> int (length (filter (\<lambda>x. good_backup ''n1'' x \<and> ar_epoch (lab_entry ''a'' 10) \<le> ar_epoch x) [lab_entry ''b'' 200]))"
    using retention_keeps_the_good [OF run] by simp
  then show ?thesis using run by (simp split: if_splits)
qed

section \<open>What a verified artefact is\<close>

definition listed_member :: "tar_member \<Rightarrow> bool" where
  "listed_member x \<longleftrightarrow> fst (snd x) \<and> fst x \<noteq> ''manifest.json''"

text \<open>The files of the archive are those of the manifest, each with the size and the digest recorded last for its name.\<close>

definition whole_members :: "backup_manifest \<Rightarrow> tar_member list \<Rightarrow> bool" where
  "whole_members m ms \<longleftrightarrow>
     (\<forall>(name, isfile, n, got) \<in> set (filter listed_member ms). \<exists>c. got = Content c \<and> map_of (expected m) name = Some (n, sha256_hex c))
     \<and> fst ` set (filter listed_member ms) = fst ` set (mf_members m)"

lemma no_member_problems:
  "member_problems m name n got = Inr [] \<longleftrightarrow> map_of (expected m) name = None \<or> (\<exists>c. got = Content c \<and> map_of (expected m) name = Some (n, sha256_hex c))"
  by (auto simp: member_problems_def split: option.splits payload.splits if_splits)

lemma tar_walk_end:
  "tar_walk m ms stopped = ([], seen, None) \<longleftrightarrow>
     stopped = None \<and> seen = map fst (filter listed_member ms) \<and> (\<forall>(name, isfile, n, got) \<in> set (filter listed_member ms). member_problems m name n got = Inr [])"
proof (induction ms arbitrary: seen)
  case (Cons x ms)
  obtain name isfile n got where x: "x = (name, isfile, n, got)" by (cases x) auto
  obtain ps l st where w: "tar_walk m ms stopped = (ps, l, st)" by (cases "tar_walk m ms stopped") auto
  show ?case
  proof (cases "listed_member x")
    case False
    then have "\<not> isfile \<or> name = ''manifest.json''" by (simp add: listed_member_def x)
    then have "tar_walk m (x # ms) stopped = tar_walk m ms stopped" unfolding x tar_walk.simps by (rule if_P)
    then show ?thesis using Cons.IH False by simp
  next
    case True
    then have "tar_walk m (x # ms) stopped = (case member_problems m name n got of Inl why \<Rightarrow> ([], [name], Some why) | Inr qs \<Rightarrow> (qs @ ps, name # l, st))"
      unfolding x tar_walk.simps w by (auto simp: listed_member_def split: sum.splits)
    then show ?thesis
      using Cons.IH [of "tl seen", unfolded w] True
      by (cases "member_problems m name n got"; cases seen) (auto simp del: tar_walk.simps simp: x)
  qed
qed auto

lemma archive_problems_none: "archive_problems m c = [] \<longleftrightarrow> mf_bytes m = Some (int (length c)) \<and> mf_sha m = Some (sha256_hex c)"
  by (simp add: archive_problems_def Let_def)

lemma sort_Nil_iff [simp]: "sort xs = [] \<longleftrightarrow> xs = []"
  by (metis length_0_conv length_sort)

lemma tar_problems_none: "tar_problems m (ms, stopped) = [] \<longleftrightarrow> stopped = None \<and> whole_members m ms"
proof -
  obtain ps seen st where w: "tar_walk m ms stopped = (ps, seen, st)" by (cases "tar_walk m ms stopped") auto
  have dom: "map_of (expected m) name = None \<longleftrightarrow> name \<notin> fst ` set (mf_members m)" for name by (simp add: expected_def map_of_eq_None_iff)
  have "tar_problems m (ms, stopped) = [] \<longleftrightarrow> tar_walk m ms stopped = ([], seen, None) \<and> set seen = fst ` set (mf_members m)"
    by (auto simp: tar_problems_def w Let_def filter_empty_conv split: option.splits)
  also have "\<dots> \<longleftrightarrow> stopped = None \<and> whole_members m ms"
  proof
    assume h: "tar_walk m ms stopped = ([], seen, None) \<and> set seen = fst ` set (mf_members m)"
    then have s: "stopped = None" "seen = map fst (filter listed_member ms)" "\<forall>(name, isfile, n, got) \<in> set (filter listed_member ms). member_problems m name n got = Inr []"
      by (simp_all add: tar_walk_end)
    then have names: "fst ` set (filter listed_member ms) = fst ` set (mf_members m)" using h by simp
    have "\<exists>c. got = Content c \<and> map_of (expected m) name = Some (n, sha256_hex c)" if "(name, isfile, n, got) \<in> set (filter listed_member ms)" for name isfile n got
    proof -
      have "name \<in> fst ` set (mf_members m)" using that names by force
      moreover have "member_problems m name n got = Inr []" using that s(3) by blast
      ultimately show ?thesis using dom [of name] unfolding no_member_problems by blast
    qed
    then show "stopped = None \<and> whole_members m ms" using s names unfolding whole_members_def by blast
  next
    assume h: "stopped = None \<and> whole_members m ms"
    then have "\<forall>(name, isfile, n, got) \<in> set (filter listed_member ms). member_problems m name n got = Inr []"
      unfolding whole_members_def no_member_problems by blast
    with h have "tar_walk m ms stopped = ([], map fst (filter listed_member ms), None)" by (simp add: tar_walk_end)
    with w h show "tar_walk m ms stopped = ([], seen, None) \<and> set seen = fst ` set (mf_members m)" by (simp add: whole_members_def)
  qed
  finally show ?thesis .
qed

text \<open>
  C22. The verification of an artefact finds no problem exactly when its manifest can be read, the archive has the recorded size and digest and can be read to its end, and its files are those that
  the manifest lists, with their sizes and digests.
\<close>

theorem verified_artefacts_are_whole:
  "snd (fst (run_state (verify_artefact env path) s)) = [] \<longleftrightarrow>
     (\<exists>m c ms h1 h2 h3. sg_sidecar env (manifest_path_for path) (hidden s) = (Sidecar m, h1) \<and> sg_content env path h1 = (Inr c, h2) \<and> sg_tar env path h2 = ((ms, None), h3)
        \<and> mf_bytes m = Some (int (length c)) \<and> mf_sha m = Some (sha256_hex c) \<and> whole_members m ms)"
proof (cases "sg_sidecar env (manifest_path_for path) (hidden s)")
  case sc: (Pair x h1)
  show ?thesis
  proof (cases x)
    case m: (Sidecar m)
    obtain y h2 where c: "sg_content env path h1 = (y, h2)" by fastforce
    show ?thesis
    proof (cases y)
      case (Inr c)
      obtain ms st h3 where "sg_tar env path h2 = ((ms, st), h3)" by (metis surj_pair)
      with sc m \<open>sg_content env path h1 = (y, h2)\<close> Inr show ?thesis
        by (auto simp: verify_artefact_def run_rules mark_def archive_problems_none tar_problems_none)
    qed (use sc m c in \<open>simp add: verify_artefact_def run_rules mark_def\<close>)
  qed (use sc in \<open>simp_all add: verify_artefact_def run_rules mark_def\<close>)
qed

section \<open>When schemas match\<close>

lemma schema_lines_none: "schema_lines a l = [] \<longleftrightarrow> map_of a = map_of l"
proof
  assume "schema_lines a l = []"
  then have missing: "\<forall>k \<in> fst ` set a. map_of l k \<noteq> None" and extra: "\<forall>k \<in> fst ` set l. map_of a k \<noteq> None"
    and changed: "\<forall>k \<in> fst ` set a. map_of l k = None \<or> map_of a k = map_of l k"
    by (auto simp: schema_lines_def Let_def filter_empty_conv split: if_splits)
  show "map_of a = map_of l"
  proof
    fix k
    show "map_of a k = map_of l k"
      using missing extra changed by (cases "k \<in> fst ` set a"; cases "k \<in> fst ` set l") (metis map_of_eq_None_iff)+
  qed
next
  assume eq: "map_of a = map_of l"
  then have "\<forall>k. k \<in> fst ` set a \<longleftrightarrow> k \<in> fst ` set l" by (metis map_of_eq_None_iff)
  with eq show "schema_lines a l = []" by (auto simp: schema_lines_def Let_def filter_empty_conv map_of_eq_None_iff)
qed

text \<open>Without force, only an artefact whose ledger has the same migrations with the same checksums passes; with force the differences are given back.\<close>

theorem schemas_must_match:
  "((\<exists>ws. check_schema_compatible a l False = Inr ws) \<longleftrightarrow> map_of a = map_of l) \<and> (check_schema_compatible a l True = Inr [] \<longleftrightarrow> map_of a = map_of l)"
  by (simp add: check_schema_compatible_def Let_def schema_lines_none)

end
