(* ===== verification/Saga_Runs.thy ===== *)
theory Saga_Runs
  imports Saga
begin

text \<open>
  The runs of \<open>src/saga.py\<close>: the writing of an artefact, the backup of a node and of all nodes, the restore, and the commands. Output is left out. Threads that call the peers are taken one after
  the other; the result of a run depends only on what each returned. Shown: restores load only from verified artefacts into a matching schema, backups clear their snapshot on every path and
  report truthfully, the clean-up stays within the cluster and the node, and where the runs do not do what their comments say.
\<close>

section \<open>Reading the cluster\<close>

definition os_err :: "string option \<Rightarrow> ('w, gevent, sexn + unit) eff" where
  "os_err r = (case r of None \<Rightarrow> okE () | Some why \<Rightarrow> raiseE (Os_Error why))"

definition os_try :: "('w, gevent, string option) eff \<Rightarrow> ('w, gevent, sexn + unit) eff" where
  "os_try m = do { r \<leftarrow> m; os_err r }"

definition os_read :: "('w \<Rightarrow> (string + 'a) \<times> 'w) \<Rightarrow> ('w, gevent, sexn + 'a) eff" where
  "os_read f = do { r \<leftarrow> look f; case r of Inl why \<Rightarrow> raiseE (Os_Error why) | Inr x \<Rightarrow> okE x }"

definition cqlsh :: "'w saga_env \<Rightarrow> string \<Rightarrow> ('w, gevent, sexn + string) eff" where
  "cqlsh env statement = do {
     (rc, out, err) \<leftarrow> look (sg_cqlsh env statement);
     if rc \<noteq> 0 then raiseE (Saga_Error (''cqlsh failed ('' @ show_int rc @ ''): '' @ take 400 (strip (if err = [] then out else err))))
     else okE out }"

definition data_dir :: "'w saga_env \<Rightarrow> ('w, gevent, string) eff" where
  "data_dir env = do {
     (rc, mounts) \<leftarrow> look (sg_mounts env);
     let found = (if rc = 0 then (case mounts of None \<Rightarrow> None | Some ms \<Rightarrow> Option.bind (find (\<lambda>(d, _). d = Some ''/var/lib/scylla'') ms) snd) else None);
     ret (or_str found ''/var/lib/hci/hydra/data'') }"

definition schema_migrations :: "'w saga_env \<Rightarrow> ('w, gevent, sexn + schema_ledger) eff" where
  "schema_migrations env = bindE (look (sg_rows env ''SELECT JSON id, checksum FROM hydra.schema_migrations;''))
     (\<lambda>rows. okE (rev (map (\<lambda>r. (the (map_of r ''id''), map_of r ''checksum'')) (filter (\<lambda>r. truthy_str (map_of r ''id'')) rows))))"

definition table_directories :: "'w saga_env \<Rightarrow> string \<Rightarrow> ('w, gevent, sexn + (string \<times> string) list) eff" where
  "table_directories env keyspace =
     bindE (look (sg_rows env (''SELECT JSON table_name, id FROM system_schema.tables WHERE keyspace_name = '' @ quoted keyspace @ '';''))) (\<lambda>rows. do {
       data \<leftarrow> data_dir env;
       okE (rev (map (\<lambda>r. (the (map_of r ''table_name''),
                       path_join (path_join (path_join data ''data'') keyspace)
                         (the (map_of r ''table_name'') @ ''-'' @ filter (\<lambda>c. c \<noteq> CHR ''-'') (the (map_of r ''id'')))))
                     (filter (\<lambda>r. truthy_str (map_of r ''table_name'') \<and> truthy_str (map_of r ''id'')) rows))) })"

section \<open>Snapshots\<close>

definition take_db_snapshot :: "'w saga_env \<Rightarrow> string \<Rightarrow> string \<Rightarrow> ('w, gevent, sexn + string) eff" where
  "take_db_snapshot env keyspace tag = do {
     (rc, out, err) \<leftarrow> act (sg_nodetool env [''snapshot'', ''-t'', tag, keyspace]) (\<lambda>r. G_Snapshot keyspace tag (fst r));
     if rc \<noteq> 0 then raiseE (Saga_Error (''nodetool snapshot failed ('' @ show_int rc @ ''): '' @ take 400 (strip (if err = [] then out else err))))
     else okE out }"

definition clear_snapshot :: "'w saga_env \<Rightarrow> string \<Rightarrow> string \<Rightarrow> ('w, gevent, bool) eff" where
  "clear_snapshot env keyspace tag = do {
     (rc, _) \<leftarrow> act (sg_nodetool env [''clearsnapshot'', ''-t'', tag, keyspace]) (\<lambda>r. G_Clear keyspace tag (fst r));
     ret (rc = 0) }"

definition snapshot_row :: "string \<Rightarrow> (string \<times> string \<times> string) option" where
  "snapshot_row line =
     (let stripped = strip line
      in if stripped = [] \<or> starts_with stripped ''Snapshot Details'' \<or> starts_with stripped ''Snapshot name'' \<or> starts_with stripped ''Total''
            \<or> starts_with (lower stripped) ''there are no snapshots'' then None
         else (case split_ws stripped of tag # keyspace # table # _ \<Rightarrow> Some (tag, keyspace, table) | _ \<Rightarrow> None))"

definition parse_listsnapshots :: "string \<Rightarrow> (string \<times> string \<times> string) list" where
  "parse_listsnapshots out = List.map_filter snapshot_row (splitlines out)"

definition list_snapshots :: "'w saga_env \<Rightarrow> ('w, gevent, sexn + (string \<times> string \<times> string) list) eff" where
  "list_snapshots env = do {
     (rc, out, err) \<leftarrow> look (sg_nodetool env [''listsnapshots'']);
     if rc \<noteq> 0 then raiseE (Saga_Error (''nodetool listsnapshots failed ('' @ show_int rc @ ''): '' @ take 200 (strip (if err = [] then out else err))))
     else okE (parse_listsnapshots out) }"

definition snapshot_prefix :: string where "snapshot_prefix = ''saga-''"

definition cmd_snapshots :: "'w saga_env \<Rightarrow> bool \<Rightarrow> ('w, gevent, sexn + int) eff" where
  "cmd_snapshots env prune =
     bindE (list_snapshots env) (\<lambda>rows.
       let ours = sort (remdups (filter (\<lambda>t. starts_with t snapshot_prefix) (map fst rows)))
       in do {
         _ \<leftarrow> (if prune
               then for_each (\<lambda>tag _. for_each (\<lambda>keyspace _. do { _ \<leftarrow> clear_snapshot env keyspace tag; ret () })
                      (sort (remdups (map (fst \<circ> snd) (filter (\<lambda>r. fst r = tag) rows)))) ()) ours ()
               else ret ());
         okE 0 })"

definition rsplit_dash :: "string \<Rightarrow> string" where
  "rsplit_dash s = (if CHR ''-'' \<in> set s then rev (tl (dropWhile (\<lambda>c. c \<noteq> CHR ''-'') (rev s))) else s)"

definition snapshot_file :: "'w saga_env \<Rightarrow> string \<Rightarrow> string \<Rightarrow> string \<Rightarrow> (string \<times> string) list \<Rightarrow> ('w, gevent, (string \<times> string) list) eff" where
  "snapshot_file env snap table filename members =
     (let real = path_join snap filename
      in do {
        f \<leftarrow> look (sg_isfile env real);
        ret (if f then members @ [(''scylla/'' @ table @ ''/'' @ filename, real)] else members) })"

definition snapshot_table ::
    "'w saga_env \<Rightarrow> string \<Rightarrow> string \<Rightarrow> string \<Rightarrow> (string \<times> string) list \<times> string list \<Rightarrow> ('w, gevent, sexn + (string \<times> string) list \<times> string list) eff" where
  "snapshot_table env base tag table_dir acc =
     (let snap = path_join (path_join (path_join base table_dir) ''snapshots'') tag; table = rsplit_dash table_dir
      in do {
        d \<leftarrow> look (sg_isdir env snap);
        if \<not> d then okE acc
        else bindE (os_read (sg_list env snap)) (\<lambda>names. do {
          members \<leftarrow> for_each (snapshot_file env snap table) (sort names) (fst acc);
          okE (members, if table \<in> set (snd acc) then snd acc else snd acc @ [table]) }) })"

definition snapshot_members :: "'w saga_env \<Rightarrow> string \<Rightarrow> string \<Rightarrow> string \<Rightarrow> ('w, gevent, sexn + (string \<times> string) list \<times> string list) eff" where
  "snapshot_members env data keyspace tag =
     (let base = path_join (path_join data ''data'') keyspace
      in do {
        d \<leftarrow> look (sg_isdir env base);
        if \<not> d then raiseE (Saga_Error (''keyspace directory '' @ base @ '' does not exist''))
        else bindE (os_read (sg_list env base)) (\<lambda>names.
          bindE (for_eachE (snapshot_table env base tag) (sort names) ([], [])) (\<lambda>(members, tables).
            if members = []
            then raiseE (Saga_Error (''snapshot '' @ quoted tag @ '' produced no files under '' @ base
                   @ ''. The snapshot was taken but nothing was found to archive -- refusing to write an empty backup.''))
            else okE (members, sort tables))) })"

section \<open>The configuration and the certificates\<close>

text \<open>The notes of a backup, without their sizes in words.\<close>

datatype bnote = Missing_Root string | Skipped_Key string | No_Stat string string | Too_Large string int | No_Ca string | Has_Ca

definition etc_file_max :: int where "etc_file_max = 8 * 1024 * 1024"

definition collect_file ::
    "'w saga_env \<Rightarrow> string \<Rightarrow> bool \<Rightarrow> string \<Rightarrow> string \<Rightarrow> (string \<times> string) list \<times> bnote list \<Rightarrow> ('w, gevent, (string \<times> string) list \<times> bnote list) eff" where
  "collect_file env root include_keys rel filename acc =
     (let relative = (if rel = [] then filename else rel @ ''/'' @ filename); real = path_join (if rel = [] then root else path_join root rel) filename
      in do {
        l \<leftarrow> look (sg_islink env real);
        f \<leftarrow> (if l then ret False else look (sg_isfile env real));
        if \<not> f then ret acc
        else if ends_with filename ''.key'' \<and> \<not> include_keys then ret (fst acc, snd acc @ [Skipped_Key relative])
        else do {
          n \<leftarrow> look (sg_size env real);
          ret (case n of
                 Inl why \<Rightarrow> (fst acc, snd acc @ [No_Stat real why])
               | Inr k \<Rightarrow> if k > etc_file_max then (fst acc, snd acc @ [Too_Large relative k]) else (fst acc @ [(''etc-hci/'' @ relative, real)], snd acc)) } })"

definition collect_etc_hci :: "'w saga_env \<Rightarrow> string \<Rightarrow> bool \<Rightarrow> ('w, gevent, (string \<times> string) list \<times> bnote list) eff" where
  "collect_etc_hci env root include_keys = do {
     d \<leftarrow> look (sg_isdir env root);
     if \<not> d then ret ([], [Missing_Root root])
     else do {
       dirs \<leftarrow> look (sg_walk env root);
       for_each (\<lambda>(rel, names). for_each (collect_file env root include_keys rel) (sort names)) dirs ([], []) } }"

definition collect_ca :: "'w saga_env \<Rightarrow> string \<Rightarrow> ('w, gevent, sexn + (string \<times> string) list \<times> bnote list) eff" where
  "collect_ca env root = do {
     d \<leftarrow> look (sg_isdir env root);
     if \<not> d then okE ([], [No_Ca root])
     else bindE (os_read (sg_list env root)) (\<lambda>names. do {
       members \<leftarrow> for_each (\<lambda>filename members. do {
           let real = path_join root filename;
           f \<leftarrow> look (sg_isfile env real);
           l \<leftarrow> (if f then look (sg_islink env real) else ret True);
           ret (if f \<and> \<not> l then members @ [(''ca/'' @ filename, real)] else members) }) (sort names) [];
       okE (members, if members = [] then [] else [Has_Ca]) }) }"

section \<open>Writing an artefact\<close>

text \<open>The texts of the refusals are shortened.\<close>

definition check_target :: "'w saga_env \<Rightarrow> string \<Rightarrow> string \<Rightarrow> bool \<Rightarrow> ('w, gevent, sexn + bool) eff" where
  "check_target env path data allow_same =
     (if path = [] then raiseE (Saga_Error ''no backup target configured'')
      else do {
        d \<leftarrow> look (sg_isdir env path);
        if \<not> d then raiseE (Saga_Error (''backup target '' @ quoted path @ '' does not exist or is not a directory''))
        else do {
          w \<leftarrow> look (sg_access env path);
          if \<not> w then raiseE (Saga_Error (''backup target '' @ quoted path @ '' is not writable by this user''))
          else do {
            devs \<leftarrow> bindE (look (sg_dev env path)) (\<lambda>x. bindE (look (sg_dev env data)) (\<lambda>y. okE (x, y)));
            case devs of
              Inl why \<Rightarrow> raiseE (Saga_Error (''cannot stat '' @ quoted path @ '' or '' @ quoted data @ '': '' @ why))
            | Inr (x, y) \<Rightarrow>
                if x = y \<and> \<not> allow_same then raiseE (Saga_Error (''backup target '' @ quoted path @ '' is on the same filesystem as the database directory '' @ quoted data))
                else okE (x = y) } } })"

definition digest_member :: "'w saga_env \<Rightarrow> string \<times> string \<Rightarrow> (string \<times> int \<times> string) list \<Rightarrow> ('w, gevent, sexn + (string \<times> int \<times> string) list) eff" where
  "digest_member env x entries = bindE (os_read (sg_content env (snd x))) (\<lambda>c. okE (entries @ [(fst x, int (length c), sha256_hex c)]))"

definition partial_path_for :: "string \<Rightarrow> string" where
  "partial_path_for archive_path = take (length archive_path - length archive_suffix) archive_path @ partial_suffix"

text \<open>The part that is cleaned up when it fails: packing under the name of a partial, and the renaming.\<close>

definition pack_and_publish :: "'w saga_env \<Rightarrow> (string \<times> string) list \<Rightarrow> string \<Rightarrow> backup_manifest \<Rightarrow> ('w, gevent, sexn + unit) eff" where
  "pack_and_publish env members archive_path m =
     (let part = partial_path_for archive_path
      in bindE (os_try (act (sg_pack env part m members) (G_Pack part))) (\<lambda>_.
         bindE (os_try (look (sg_chmod env part))) (\<lambda>_.
         os_try (act (sg_replace env part archive_path) (G_Publish archive_path)))))"

definition write_artefact :: "'w saga_env \<Rightarrow> (string \<times> string) list \<Rightarrow> string \<Rightarrow> backup_manifest \<Rightarrow> ('w, gevent, sexn + backup_manifest) eff" where
  "write_artefact env members archive_path body =
     bindE (for_eachE (digest_member env) members []) (\<lambda>entries.
     bindE (os_read (sg_mkdtemp env ''saga-manifest-'')) (\<lambda>_. do {
       let m = body\<lparr>mf_members := entries\<rparr>;
       r \<leftarrow> pack_and_publish env members archive_path m;
       case r of
         Inl ex \<Rightarrow> do {
           there \<leftarrow> look (sg_exists env (partial_path_for archive_path));
           _ \<leftarrow> (if there then act (sg_remove env (partial_path_for archive_path)) (\<lambda>_. G_Remove (partial_path_for archive_path)) else ret None);
           raiseE ex }
       | Inr _ \<Rightarrow>
           bindE (os_read (sg_content env archive_path)) (\<lambda>c.
             let m' = m\<lparr>mf_bytes := Some (int (length c)), mf_sha := Some (sha256_hex c)\<rparr>; sidecar = manifest_path_for archive_path
             in bindE (os_try (act (sg_dump env sidecar m') (G_Sidecar sidecar m'))) (\<lambda>_.
                bindE (os_try (look (sg_chmod env sidecar))) (\<lambda>_. okE m'))) }))"

section \<open>The backup of a node\<close>

record saga_host =
  sh_address :: string
  sh_etc :: string
  sh_certs :: string

record backup_opts =
  bo_keyspace :: string
  bo_round :: string
  bo_ca :: bool
  bo_keep :: int
  bo_keep_days :: int
  bo_prune :: bool
  bo_same :: bool

definition status_text :: "'w saga_env \<Rightarrow> ('w, gevent, string) eff" where
  "status_text env = do {
     (rc, out, err) \<leftarrow> look (sg_nodetool env [''status'']);
     ret (if rc \<noteq> 0 then ''nodetool status failed ('' @ show_int rc @ ''): '' @ strip (if err = [] then out else err) @ [CHR 0x0A] else out) }"

definition meta_member :: "'w saga_env \<Rightarrow> string \<Rightarrow> string \<times> string \<Rightarrow> (string \<times> string) list \<Rightarrow> ('w, gevent, sexn + (string \<times> string) list) eff" where
  "meta_member env scratch x members =
     (let path = path_join scratch (map (\<lambda>c. if c = CHR ''/'' then CHR ''_'' else c) (fst x))
      in bindE (os_try (look (sg_write env path (snd x)))) (\<lambda>_. okE (members @ [(fst x, path)])))"

definition replication_of :: "'w saga_env \<Rightarrow> string \<Rightarrow> ('w, gevent, sexn + string option) eff" where
  "replication_of env keyspace =
     bindE (look (sg_rows env (''SELECT JSON keyspace_name, replication FROM system_schema.keyspaces WHERE keyspace_name = '' @ quoted keyspace @ '';'')))
       (\<lambda>rows. okE (case rows of [] \<Rightarrow> None | r # _ \<Rightarrow> map_of r ''replication''))"

text \<open>What happens between the snapshot and its clearing.\<close>

definition archive_snapshot ::
    "'w saga_env \<Rightarrow> saga_host \<Rightarrow> backup_opts \<Rightarrow> string \<Rightarrow> string \<Rightarrow> string \<Rightarrow> string \<Rightarrow> bool \<Rightarrow> string \<Rightarrow> schema_ledger \<Rightarrow> string \<Rightarrow> string \<Rightarrow> ('w, gevent, sexn + backup_manifest) eff" where
  "archive_snapshot env host opts target stamp data cluster_name same tag migrations schema_cql scratch =
     bindE (snapshot_members env data (bo_keyspace opts) tag) (\<lambda>(members, tables). do {
       (config, _) \<leftarrow> collect_etc_hci env (sh_etc host) (bo_ca opts);
       bindE (if bo_ca opts then collect_ca env (sh_certs host) else okE ([], [])) (\<lambda>(ca, _). do {
         status \<leftarrow> status_text env;
         bindE (for_eachE (meta_member env scratch)
                 [(''meta/schema.cql'', schema_cql), (''meta/schema_migrations.json'', sg_dumps env migrations), (''meta/nodetool-status.txt'', status)]
                 (members @ config @ ca)) (\<lambda>all.
           bindE (replication_of env (bo_keyspace opts)) (\<lambda>_.
             write_artefact env all (path_join target (artefact_name cluster_name (sh_address host) stamp))
               \<lparr>mf_bytes = None, mf_sha = None, mf_members = [], mf_keyspace = Some (bo_keyspace opts), mf_migrations = migrations, mf_created = stamp, mf_round = bo_round opts,
                mf_snapshot = tag, mf_cluster = cluster_name, mf_node = sh_address host, mf_tables = tables, mf_ca = (ca \<noteq> []), mf_local = same\<rparr>)) }) })"

definition backup :: "'w saga_env \<Rightarrow> saga_host \<Rightarrow> string \<Rightarrow> backup_opts \<Rightarrow> ('w, gevent, sexn + backup_manifest) eff" where
  "backup env host target opts0 = do {
     now \<leftarrow> look (sg_now env);
     let stamp = second_stamp now;
     let opts = opts0\<lparr>bo_round := (if bo_round opts0 = [] then stamp else bo_round opts0)\<rparr>;
     data \<leftarrow> data_dir env;
     bindE (check_target env target data (bo_same opts)) (\<lambda>same. do {
       cfg \<leftarrow> look (sg_cluster env);
       case cfg of
         Inl why \<Rightarrow> raiseE (Saga_Error (''cannot read /etc/hci/cluster.json ('' @ why @ '')''))
       | Inr (name, _) \<Rightarrow>
           let cluster_name = or_str name ''helios''; tag = snapshot_prefix @ bo_round opts
           in bindE (schema_migrations env) (\<lambda>migrations.
              if migrations = [] then raiseE (Saga_Error ''hydra.schema_migrations is empty or unreadable'')
              else bindE (cqlsh env (''DESCRIBE KEYSPACE '' @ bo_keyspace opts @ '';'')) (\<lambda>schema_cql.
              if \<not> contains schema_cql ''CREATE TABLE'' then raiseE (Saga_Error (''DESCRIBE KEYSPACE '' @ bo_keyspace opts @ '' returned no table definitions''))
              else bindE (os_read (sg_mkdtemp env ''saga-stage-'')) (\<lambda>scratch.
              bindE (bindE (take_db_snapshot env (bo_keyspace opts) tag) (\<lambda>_. do {
                  r \<leftarrow> archive_snapshot env host opts target stamp data cluster_name same tag migrations schema_cql scratch;
                  _ \<leftarrow> clear_snapshot env (bo_keyspace opts) tag;
                  ret r })) (\<lambda>m.
                bindE (if bo_prune opts then bindE (prune_after_backup env target cluster_name (sh_address host) (bo_keep opts) (bo_keep_days opts) (int now)) (\<lambda>_. okE ()) else okE ())
                  (\<lambda>_. okE m))))) }) }"

section \<open>The restore\<close>

definition non_sstable :: "string list" where "non_sstable = [''manifest.json'', ''schema.cql'']"

definition stage_file :: "'w saga_env \<Rightarrow> string \<Rightarrow> string \<Rightarrow> string \<Rightarrow> nat \<Rightarrow> ('w, gevent, sexn + nat) eff" where
  "stage_file env source upload filename n =
     (if filename \<in> set non_sstable then okE n
      else bindE (os_try (act (sg_copy env (path_join source filename) (path_join upload filename)) (G_Copy (path_join source filename) (path_join upload filename)))) (\<lambda>_. okE (Suc n)))"

type_synonym restored = "(string \<times> nat \<times> nat) list \<times> (string \<times> string) list"

definition load_table :: "'w saga_env \<Rightarrow> string \<Rightarrow> string \<Rightarrow> string \<Rightarrow> string \<Rightarrow> restored \<Rightarrow> ('w, gevent, sexn + restored) eff" where
  "load_table env keyspace source live table acc =
     (let upload = path_join live ''upload''
      in bindE (os_try (look (sg_makedirs env upload))) (\<lambda>_.
         bindE (os_read (sg_list env source)) (\<lambda>names.
         bindE (for_eachE (stage_file env source upload) (sort names) 0) (\<lambda>n. do {
           (rc, out, err) \<leftarrow> act (sg_nodetool env [''refresh'', ''--load-and-stream'', keyspace, table]) (\<lambda>r. G_Refresh keyspace table (fst r));
           if rc \<noteq> 0 then okE (fst acc, snd acc @ [(table, ''refresh failed: '' @ take 200 (strip (if err = [] then out else err)))])
           else bindE (os_read (sg_list env upload)) (\<lambda>leftover. okE (fst acc @ [(table, n, length leftover)], snd acc)) }))))"

definition restore_table :: "'w saga_env \<Rightarrow> string \<Rightarrow> string list \<Rightarrow> string \<Rightarrow> (string \<times> string) list \<Rightarrow> string \<Rightarrow> restored \<Rightarrow> ('w, gevent, sexn + restored) eff" where
  "restore_table env keyspace tables staged live_dirs table acc =
     (if tables \<noteq> [] \<and> table \<notin> set tables then okE acc
      else do {
        d \<leftarrow> look (sg_isdir env (path_join staged table));
        if \<not> d then okE acc
        else (case map_of live_dirs table of
                None \<Rightarrow> okE (fst acc, snd acc @ [(table, ''no such table in the live schema'')])
              | Some live \<Rightarrow> do {
                  there \<leftarrow> look (sg_isdir env live);
                  if \<not> there then okE (fst acc, snd acc @ [(table, ''live directory '' @ live @ '' missing'')])
                  else load_table env keyspace (path_join staged table) live table acc }) })"

definition load_sidecar :: "'w saga_env \<Rightarrow> string \<Rightarrow> ('w, gevent, sexn + backup_manifest) eff" where
  "load_sidecar env archive_path = do {
     sc \<leftarrow> look (sg_sidecar env (manifest_path_for archive_path));
     case sc of Absent \<Rightarrow> raiseE (Os_Error ''No such file'') | Unreadable why \<Rightarrow> raiseE (Value_Error why) | Sidecar m \<Rightarrow> okE m }"

definition manifest_for_restore :: "'w saga_env \<Rightarrow> string \<Rightarrow> bool \<Rightarrow> ('w, gevent, sexn + backup_manifest) eff" where
  "manifest_for_restore env archive_path skip_verify =
     (if skip_verify then load_sidecar env archive_path
      else do {
        (mf, problems) \<leftarrow> verify_artefact env archive_path;
        case (mf, problems) of
          (Some m, []) \<Rightarrow> okE m
        | _ \<Rightarrow> raiseE (Saga_Error (''artefact failed verification; refusing to restore from it:'' @ concat (map (\<lambda>p. [CHR 0x0A] @ ''  - '' @ p) problems))) })"

definition load_staged :: "'w saga_env \<Rightarrow> string \<Rightarrow> string \<Rightarrow> string list \<Rightarrow> (string \<times> string) list \<Rightarrow> ('w, gevent, sexn + restored) eff" where
  "load_staged env archive_path keyspace tables live_dirs =
     bindE (os_read (sg_mkdtemp env ''saga-restore-'')) (\<lambda>scratch.
     bindE (os_try (look (sg_extract env archive_path scratch))) (\<lambda>_. do {
       let staged = path_join scratch ''scylla'';
       d \<leftarrow> look (sg_isdir env staged);
       if \<not> d then raiseE (Saga_Error ''artefact contains no scylla/ payload'')
       else bindE (os_read (sg_list env staged)) (\<lambda>names.
              bindE (for_eachE (restore_table env keyspace tables staged live_dirs) (sort names) ([], [])) (\<lambda>(restored, skipped).
                if restored = [] then raiseE (Saga_Error ''no tables were restored'') else okE (restored, skipped))) }))"

definition restore :: "'w saga_env \<Rightarrow> string \<Rightarrow> string option \<Rightarrow> string list \<Rightarrow> bool \<Rightarrow> bool \<Rightarrow> ('w, gevent, sexn + restored) eff" where
  "restore env archive_path keyspace tables force skip_verify =
     bindE (manifest_for_restore env archive_path skip_verify) (\<lambda>m.
     bindE (schema_migrations env) (\<lambda>live.
       let ks = or_str keyspace (or_str (mf_keyspace m) ''hydra'')
       in case check_schema_compatible (mf_migrations m) live force of
            Inl ex \<Rightarrow> raiseE ex
          | Inr _ \<Rightarrow> do {
              _ \<leftarrow> mark (G_Matched (mf_migrations m) live);
              bindE (table_directories env ks) (\<lambda>live_dirs. load_staged env archive_path ks tables live_dirs) }))"

section \<open>The commands\<close>

definition saga_settings :: "'w saga_env \<Rightarrow> ('w, gevent, sexn + (string \<times> string option) list) eff" where
  "saga_settings env = bindE (look (sg_rows env ''SELECT JSON key, value FROM hydra.cluster_settings;''))
     (\<lambda>rows. okE (rev (map (\<lambda>r. (the (map_of r ''key''), map_of r ''value'')) (filter (\<lambda>r. truthy_str (map_of r ''key'')) rows))))"

text \<open>\<open>cached\<close> holds the saga_settings once they have been read.\<close>

definition read_settings ::
    "'w saga_env \<Rightarrow> (string \<times> string option) list option \<Rightarrow> ('w, gevent, sexn + (string \<times> string option) list) eff" where
  "read_settings env cached = (case cached of Some d \<Rightarrow> okE d | None \<Rightarrow> saga_settings env)"

definition resolve_target ::
    "'w saga_env \<Rightarrow> string option \<Rightarrow> string option \<Rightarrow> ('w, gevent, sexn + string \<times> (string \<times> string option) list option) eff" where
  "resolve_target env explicit from_env =
     (if truthy_str explicit then okE (the explicit, None)
      else if truthy_str from_env then okE (the from_env, None)
      else do {
        r \<leftarrow> saga_settings env;
        case r of
          Inl (Saga_Error why) \<Rightarrow> raiseE (Saga_Error (''no --target was given and the saga_target cluster setting could not be read: '' @ why))
        | Inl ex \<Rightarrow> raiseE ex
        | Inr d \<Rightarrow> (case map_of d ''saga_target'' of
                     Some (Some t) \<Rightarrow> if t = [] then raiseE (Saga_Error ''no backup target is configured'') else okE (t, Some d)
                   | _ \<Rightarrow> raiseE (Saga_Error ''no backup target is configured'')) })"

definition default_keep :: int where "default_keep = 7"
definition default_keep_days :: int where "default_keep_days = 30"

definition setting_int :: "(string \<times> string option) list \<Rightarrow> string \<Rightarrow> int \<Rightarrow> int" where
  "setting_int d key standard =
     (case map_of d key of Some (Some t) \<Rightarrow> (case int_of_text t of Some n \<Rightarrow> n | None \<Rightarrow> standard) | _ \<Rightarrow> standard)"

definition resolve_retention ::
    "'w saga_env \<Rightarrow> (string \<times> string option) list option \<Rightarrow> int option \<Rightarrow> int option \<Rightarrow> ('w, gevent, sexn + int \<times> int) eff" where
  "resolve_retention env cached keep keep_days = do {
     r \<leftarrow> (if keep = None \<or> keep_days = None then read_settings env cached else okE []);
     case r of
       Inl (Value_Error why) \<Rightarrow> raiseE (Value_Error why)
     | Inl (Os_Error why) \<Rightarrow> raiseE (Os_Error why)
     | _ \<Rightarrow>
         (let d = (case r of Inl _ \<Rightarrow> [] | Inr d \<Rightarrow> d)
          in okE (case keep of Some k \<Rightarrow> k | None \<Rightarrow> setting_int d ''saga_keep'' default_keep,
                  case keep_days of Some k \<Rightarrow> k | None \<Rightarrow> setting_int d ''saga_keep_days'' default_keep_days)) }"

definition resolve_artefact :: "'w saga_env \<Rightarrow> string \<Rightarrow> string option \<Rightarrow> ('w, gevent, sexn + string) eff" where
  "resolve_artefact env target name =
     (if name = None \<or> name = Some ''latest''
      then bindE (scan_target env target None) (\<lambda>entries.
             case filter (\<lambda>e. \<not> en_partial e) entries of
               [] \<Rightarrow> raiseE (Saga_Error (''no artefacts at '' @ target))
             | e # _ \<Rightarrow> okE (en_path e))
      else if starts_with (the name) ''/'' then okE (the name)
      else do {
        there \<leftarrow> look (sg_exists env (the name));
        okE (if there then the name else path_join target (the name)) })"

definition cmd_verify :: "'w saga_env \<Rightarrow> string option \<Rightarrow> string option \<Rightarrow> string option \<Rightarrow> ('w, gevent, sexn + int) eff" where
  "cmd_verify env from_env target name =
     bindE (resolve_target env target from_env) (\<lambda>(t, _).
     bindE (resolve_artefact env t name) (\<lambda>path. do {
       (_, problems) \<leftarrow> verify_artefact env path;
       okE (if problems = [] then 0 else 1) }))"

record restore_args =
  ra_target :: "string option"
  ra_artefact :: "string option"
  ra_keyspace :: "string option"
  ra_tables :: "string option"
  ra_force :: bool
  ra_yes :: bool
  ra_extract :: "string option"

text \<open>\<open>typed\<close> is what the operator types when asked, \<^const>\<open>None\<close> where there is no terminal.\<close>

definition cmd_restore :: "'w saga_env \<Rightarrow> string option \<Rightarrow> string option \<Rightarrow> restore_args \<Rightarrow> ('w, gevent, sexn + int) eff" where
  "cmd_restore env from_env typed args =
     bindE (resolve_target env (ra_target args) from_env) (\<lambda>(t, _).
     bindE (resolve_artefact env t (ra_artefact args)) (\<lambda>path.
       if truthy_str (ra_extract args)
       then bindE (os_try (look (sg_makedirs env (the (ra_extract args))))) (\<lambda>_.
            bindE (os_try (look (sg_extract env path (the (ra_extract args))))) (\<lambda>_. okE 0))
       else if \<not> ra_yes args \<and> (case typed of None \<Rightarrow> True | Some answer \<Rightarrow> strip answer \<noteq> ''restore'') then okE 1
       else let tables = (if truthy_str (ra_tables args) then map strip (split_on (CHR '','') (the (ra_tables args))) else [])
            in bindE (restore env path (ra_keyspace args) tables (ra_force args) False) (\<lambda>_. okE 0)))"

record backup_args =
  ba_target :: "string option"
  ba_keyspace :: string
  ba_tag :: "string option"
  ba_all :: bool
  ba_ca :: bool
  ba_keep :: "int option"
  ba_keep_days :: "int option"
  ba_no_prune :: bool
  ba_same :: bool
  ba_timeout :: int

definition peer_ips :: "'w saga_env \<Rightarrow> string \<Rightarrow> ('w, gevent, string list) eff" where
  "peer_ips env exclude = do {
     cfg \<leftarrow> act (sg_cluster env) G_Cluster;
     ret (case cfg of Inl _ \<Rightarrow> [] | Inr (_, ips) \<Rightarrow> map the (filter (\<lambda>ip. truthy_str ip \<and> ip \<noteq> Some exclude) ips)) }"

definition peer_command :: "backup_args \<Rightarrow> string \<Rightarrow> string \<Rightarrow> int \<Rightarrow> int \<Rightarrow> string" where
  "peer_command args target round_tag keep keep_days =
     join '' '' ([''/usr/local/bin/saga'', ''backup'', ''--keyspace'', ba_keyspace args, ''--target'', target, ''--tag'', round_tag,
        ''--keep'', show_int keep, ''--keep-days'', show_int keep_days]
       @ (if ba_ca args then [''--include-ca''] else []) @ (if ba_no_prune args then [''--no-prune''] else [])
       @ (if ba_same args then [''--allow-same-filesystem''] else []))"

definition peer_backup :: "'w saga_env \<Rightarrow> string \<Rightarrow> int \<Rightarrow> string \<Rightarrow> string list \<Rightarrow> ('w, gevent, string list) eff" where
  "peer_backup env command timeout ip failures = do {
     (rc, _) \<leftarrow> act (sg_peer env ip command timeout) (\<lambda>r. G_Peer ip (fst r));
     ret (if rc \<noteq> 0 then failures @ [ip] else failures) }"

definition cmd_backup :: "'w saga_env \<Rightarrow> saga_host \<Rightarrow> string option \<Rightarrow> backup_args \<Rightarrow> ('w, gevent, sexn + int) eff" where
  "cmd_backup env host from_env args =
     bindE (resolve_target env (ba_target args) from_env) (\<lambda>(target, cached).
     bindE (resolve_retention env cached (ba_keep args) (ba_keep_days args)) (\<lambda>(keep, keep_days). do {
       round_tag \<leftarrow> (if truthy_str (ba_tag args) then ret (the (ba_tag args)) else do { now \<leftarrow> look (sg_now env); ret (second_stamp now) });
       r \<leftarrow> backup env host target \<lparr>bo_keyspace = ba_keyspace args, bo_round = round_tag, bo_ca = ba_ca args, bo_keep = keep, bo_keep_days = keep_days,
              bo_prune = \<not> ba_no_prune args, bo_same = ba_same args\<rparr>;
       _ \<leftarrow> mark (G_Local r);
       case r of
         Inl (Value_Error why) \<Rightarrow> raiseE (Value_Error why)
       | Inl (Os_Error why) \<Rightarrow> raiseE (Os_Error why)
       | _ \<Rightarrow> do {
           let failed = (case r of Inl _ \<Rightarrow> [sh_address host] | Inr _ \<Rightarrow> []);
           peers \<leftarrow> (if ba_all args then peer_ips env (sh_address host) else ret []);
           failures \<leftarrow> for_each (peer_backup env (peer_command args target round_tag keep keep_days) (ba_timeout args)) peers failed;
           okE (if failures = [] then 0 else 1) } }))"

text \<open>The exit code; \<^const>\<open>None\<close> where an exception is left uncaught.\<close>

definition exit_code :: "sexn + int \<Rightarrow> int option" where
  "exit_code r = (case r of Inr n \<Rightarrow> Some n | Inl (Os_Error _) \<Rightarrow> None | Inl _ \<Rightarrow> Some 1)"

section \<open>What the parts do\<close>

abbreviation silently :: "('w, gevent, 'a) eff \<Rightarrow> ('a \<Rightarrow> bool) \<Rightarrow> bool" where
  "silently m P \<equiv> yields m (\<lambda>r es. es = [] \<and> P r)"

lemma yields_os_try: "yields m (\<lambda>x es. Q (case x of None \<Rightarrow> Inr () | Some why \<Rightarrow> Inl (Os_Error why)) es) \<Longrightarrow> yields (os_try m) Q"
  unfolding os_try_def os_err_def by (rule yields_bind, erule yields_mono) (auto intro!: yields_intros split: option.split)

lemma os_ok [simp]: "(case r of None \<Rightarrow> Inr () | Some why \<Rightarrow> Inl (Os_Error why)) = Inr u \<longleftrightarrow> r = None"
  by (cases r) auto

lemma yields_os_read: "(\<And>r. Q r []) \<Longrightarrow> yields (os_read f) Q"
  unfolding os_read_def by (auto intro!: yields_intros)

lemma sum_caseI: "(\<And>x. r = Inl x \<Longrightarrow> f x) \<Longrightarrow> (\<And>y. r = Inr y \<Longrightarrow> g y) \<Longrightarrow> case r of Inl x \<Rightarrow> f x | Inr y \<Rightarrow> g y"
  by (cases r) auto

lemma quiet_simple:
  "silently (schema_migrations env) (\<lambda>_. True)" "silently (data_dir env) (\<lambda>_. True)" "silently (cqlsh env st) (\<lambda>_. True)" "silently (status_text env) (\<lambda>_. True)"
  "silently (replication_of env ks) (\<lambda>_. True)" "silently (table_directories env ks) (\<lambda>_. True)" "silently (saga_settings env) (\<lambda>_. True)"
  "silently (check_target env p d a) (\<lambda>_. True)" "silently (list_snapshots env) (\<lambda>_. True)"
  unfolding schema_migrations_def data_dir_def cqlsh_def status_text_def replication_of_def table_directories_def saga_settings_def check_target_def list_snapshots_def Let_def
  by (auto intro!: yields_intros sum_caseI)

lemma quiet_seq: "silently m P \<Longrightarrow> (\<And>a. P a \<Longrightarrow> yields (f a) Q) \<Longrightarrow> yields (State_Monad.bind m f) Q"
  by (rule yields_bind, erule yields_mono) auto

lemma quiet_seqE: "silently m P \<Longrightarrow> (\<And>x. Q (Inl x) []) \<Longrightarrow> (\<And>a. P (Inr a) \<Longrightarrow> yields (f a) Q) \<Longrightarrow> yields (bindE m f) Q"
  by (rule yields_bindE, erule yields_mono) (auto split: sum.split)

lemma quiet_for_each: "(\<And>x a. P a \<Longrightarrow> silently (f x a) P) \<Longrightarrow> P a \<Longrightarrow> silently (for_each f xs a) P"
proof (induction xs arbitrary: a)
  case (Cons x xs)
  show ?case unfolding for_each.simps by (rule quiet_seq [OF Cons.prems(1) [OF Cons.prems(2)]]) (use Cons in auto)
qed (auto intro: yields_ret)

lemma quiet_for_eachE:
  "(\<And>x a. P a \<Longrightarrow> silently (f x a) (\<lambda>r. case r of Inl _ \<Rightarrow> True | Inr b \<Rightarrow> P b)) \<Longrightarrow> P a \<Longrightarrow> silently (for_eachE f xs a) (\<lambda>r. case r of Inl _ \<Rightarrow> True | Inr b \<Rightarrow> P b)"
proof (induction xs arbitrary: a)
  case (Cons x xs)
  show ?case
    unfolding for_eachE.simps by (rule quiet_seqE [OF Cons.prems(1) [OF Cons.prems(2)]]) (use Cons in auto)
qed (auto intro: yields_ret)

section \<open>Restores are checked\<close>

definition load_event :: "gevent \<Rightarrow> bool" where
  "load_event e \<longleftrightarrow> (case e of G_Copy _ _ _ \<Rightarrow> True | G_Refresh _ _ _ \<Rightarrow> True | _ \<Rightarrow> False)"

definition loaded :: "string \<Rightarrow> string list \<Rightarrow> gevent list \<Rightarrow> restored \<Rightarrow> bool" where
  "loaded keyspace tables es acc \<longleftrightarrow> list_all (\<lambda>(t, _). G_Refresh keyspace t 0 \<in> set es \<and> (tables = [] \<or> t \<in> set tables)) (fst acc)"

lemma loaded_more: "loaded ks tables es acc \<Longrightarrow> loaded ks tables (es @ es') acc"
  by (auto simp: loaded_def list_all_iff)

lemma stage_loads: "yields (for_eachE (stage_file env source upload) names n) (\<lambda>_. list_all load_event)"
  by (intro all_events.of_for_eachE) (auto simp: stage_file_def load_event_def intro!: yields_intros yields_os_try split: option.split)

lemma load_table_loads:
  assumes "loaded ks tables pre acc" and "tables = [] \<or> table \<in> set tables"
  shows "yields (load_table env ks source live table acc)
    (\<lambda>r es. list_all load_event es \<and> (case r of Inl _ \<Rightarrow> True | Inr acc' \<Rightarrow> loaded ks tables (pre @ es) acc'))"
  unfolding load_table_def Let_def
  using assms loaded_more [OF assms(1)]
  by (auto intro!: yields_intros yields_os_try yields_os_read yields_mono [OF stage_loads] sum_caseI split: option.split
      simp: load_event_def) (auto simp: loaded_def list_all_iff)

lemma load_staged_loads:
  "yields (load_staged env path ks tables dirs)
    (\<lambda>r es. list_all load_event es \<and> (case r of Inl _ \<Rightarrow> True | Inr acc \<Rightarrow> fst acc \<noteq> [] \<and> loaded ks tables es acc))"
proof -
  have step: "yields (restore_table env ks tables staged dirs t acc)
      (\<lambda>r es'. case r of Inl e \<Rightarrow> list_all load_event (es @ es') | Inr acc' \<Rightarrow> list_all load_event (es @ es') \<and> loaded ks tables (es @ es') acc')"
    if "list_all load_event es \<and> loaded ks tables es acc" for staged t acc es
    unfolding restore_table_def using that
    by (auto intro!: yields_intros yields_mono [OF load_table_loads [of ks tables es acc t]] split: sum.splits) (auto simp: loaded_def)
  have loop: "yields (for_eachE (restore_table env ks tables staged dirs) names ([], []))
      (\<lambda>r es. case r of Inl e \<Rightarrow> list_all load_event es | Inr acc \<Rightarrow> list_all load_event es \<and> loaded ks tables es acc)" for staged names
  proof -
    have "yields (for_eachE (restore_table env ks tables staged dirs) names ([], []))
      (\<lambda>r es. case r of Inl e \<Rightarrow> list_all load_event ([] @ es) | Inr acc \<Rightarrow> list_all load_event ([] @ es) \<and> loaded ks tables ([] @ es) acc)"
      by (rule yields_for_eachE [where I = "\<lambda>acc es. list_all load_event es \<and> loaded ks tables es acc"]) (auto intro!: step simp: loaded_def)
    then show ?thesis unfolding append_Nil .
  qed
  show ?thesis unfolding load_staged_def Let_def
    by (auto intro!: yields_intros yields_os_try yields_os_read yields_mono [OF loop] split: option.split sum.splits)
qed

lemma manifest_is_verified:
  "yields (manifest_for_restore env path False) (\<lambda>r es. \<exists>ps. es = [G_Verified path ps] \<and> (case r of Inl _ \<Rightarrow> True | Inr _ \<Rightarrow> ps = []))"
  unfolding manifest_for_restore_def verify_artefact_def
  by (auto intro!: yields_intros yields_mark split: sidecar.split list.split option.split simp del: append_eq_Cons_conv)

text \<open>
  C20. Whatever the disk and the cluster answer: a restore changes nothing before the artefact has been verified without a problem and its ledger compared with the live one, and without force only
  when they are equal. This is a restore that does not skip the verification, as every caller asks for. A restore that succeeds has loaded at least one table, each table it reports was refreshed with success, and is one of those asked for.
\<close>

theorem restores_are_checked:
  "yields (restore env path keyspace tables force False) (\<lambda>r es.
     (\<exists>ps why. es = [G_Verified path ps] \<and> r = Inl why)
     \<or> (\<exists>a l ks rest. es = G_Verified path [] # G_Matched a l # rest \<and> (force \<or> map_of a = map_of l) \<and> list_all load_event rest
          \<and> (case r of Inl _ \<Rightarrow> True | Inr acc \<Rightarrow> fst acc \<noteq> [] \<and> loaded ks tables rest acc)))"
proof -
  have compatible: "check_schema_compatible a l force = Inr ws \<Longrightarrow> force \<or> map_of a = map_of l" for a l ws
    by (auto simp: check_schema_compatible_def Let_def schema_lines_none split: if_splits)
  show ?thesis
    unfolding restore_def Let_def
    apply (rule yields_bindE, rule yields_mono [OF manifest_is_verified])
     apply (erule exE conjE)+
     apply (rule sum_caseI)
     apply simp
    apply (rule quiet_seqE [OF quiet_simple(1)])
    apply simp
    apply (rule yields_case_sum)
    apply (rule yields_ret)
    apply simp
    apply (rule yields_bind, rule yields_mark)
    apply (rule quiet_seqE [OF quiet_simple(6)])
    subgoal using compatible by fastforce
    apply (rule yields_mono [OF load_staged_loads])
    using compatible by fastforce
qed

section \<open>Backups clean up\<close>

definition write_event :: "string \<Rightarrow> gevent \<Rightarrow> bool" where
  "write_event path e \<longleftrightarrow> (case e of
       G_Pack p _ \<Rightarrow> p = partial_path_for path | G_Publish p _ \<Rightarrow> p = path | G_Sidecar p _ _ \<Rightarrow> p = manifest_path_for path | G_Remove p \<Rightarrow> p = partial_path_for path | _ \<Rightarrow> False)"

definition written_out :: "string \<Rightarrow> backup_manifest \<Rightarrow> gevent list" where
  "written_out path m = [G_Pack (partial_path_for path) None, G_Publish path None, G_Sidecar (manifest_path_for path) m None]"

lemma digest_one: "silently (digest_member env x acc) (\<lambda>r. case r of Inl _ \<Rightarrow> True | Inr entries \<Rightarrow> map fst entries = map fst acc @ [fst x])"
  unfolding digest_member_def by (rule yields_bindE, rule yields_os_read) (auto intro!: sum_caseI yields_intros)

lemma digests:
  "silently (for_eachE (digest_member env) members acc) (\<lambda>r. case r of Inl _ \<Rightarrow> True | Inr entries \<Rightarrow> map fst entries = map fst acc @ map fst members)"
proof (induction members arbitrary: acc)
  case (Cons x members)
  show ?case
    unfolding for_eachE.simps
    by (rule quiet_seqE [OF digest_one], simp, rule yields_mono [OF Cons.IH]) (auto split: sum.splits)
qed (auto intro: yields_ret)

lemma pack_events:
  "yields (pack_and_publish env members path m)
    (\<lambda>r es. list_all (write_event path) es \<and> (case r of Inl _ \<Rightarrow> G_Publish path None \<notin> set es | Inr _ \<Rightarrow> es = [G_Pack (partial_path_for path) None, G_Publish path None]))"
  unfolding pack_and_publish_def Let_def
  by (auto intro!: yields_intros yields_os_try sum_caseI simp: write_event_def split: option.split)

lemma write_artefact_events:
  "yields (write_artefact env members path body)
    (\<lambda>r es. list_all (write_event path) es
       \<and> (case r of Inl _ \<Rightarrow> True | Inr m \<Rightarrow> es = written_out path m \<and> map fst (mf_members m) = map fst members \<and> mf_migrations m = mf_migrations body \<and> mf_keyspace m = mf_keyspace body))"
proof -
  have pub: "list_all (write_event path) [G_Pack (partial_path_for path) None, G_Publish path None, G_Sidecar (manifest_path_for path) m w]" for m w
    by (simp add: write_event_def)
  show ?thesis
    unfolding write_artefact_def Let_def
    apply (rule quiet_seqE [OF digests])
     apply simp
    apply (rule yields_bindE, rule yields_os_read, rule sum_caseI)
     apply simp
    apply (rule yields_bind, rule yields_mono [OF pack_events])
    apply (rule yields_case_sum)
     apply (auto intro!: yields_intros simp: write_event_def)[1]
    apply (auto intro!: yields_intros yields_os_read yields_os_try sum_caseI simp: pub write_event_def written_out_def split: option.split)
    done
qed

text \<open>Names under which no key material goes into an artefact: nothing of the certificates, and no private key of the configuration.\<close>

definition key_free :: "string \<Rightarrow> bool" where
  "key_free n \<longleftrightarrow> \<not> starts_with n ''ca/'' \<and> \<not> (starts_with n ''etc-hci/'' \<and> ends_with n ''.key'')"

lemma key_in_last_part: "ends_with (p @ CHR ''/'' # f) ''.key'' \<Longrightarrow> ends_with f ''.key''"
proof -
  assume "ends_with (p @ CHR ''/'' # f) ''.key''"
  then have "starts_with (rev f @ CHR ''/'' # rev p) ''yek.''" by (simp add: ends_with_def)
  then have "starts_with (rev f) ''yek.''"
    by (cases "rev f"; cases "tl (rev f)"; cases "tl (tl (rev f))"; cases "tl (tl (tl (rev f)))") auto
  then show ?thesis by (simp add: ends_with_def)
qed

lemma collected_harmless:
  assumes "list_all (\<lambda>(n, _). keys \<or> key_free n) (fst acc)"
  shows "silently (collect_file env root keys rel filename acc) (\<lambda>acc'. list_all (\<lambda>(n, _). keys \<or> key_free n) (fst acc'))"
proof -
  have "keys \<or> key_free (''etc-hci/'' @ (if rel = [] then filename else rel @ ''/'' @ filename))" if "ends_with filename ''.key'' \<longrightarrow> keys"
    using that key_in_last_part [of "''etc-hci''" filename] key_in_last_part [of "''etc-hci/'' @ rel" filename] by (auto simp: key_free_def)
  with assms show ?thesis unfolding collect_file_def Let_def
    by (auto intro!: yields_intros split: sum.split)
qed

lemma config_harmless: "silently (collect_etc_hci env root keys) (\<lambda>acc. list_all (\<lambda>(n, _). keys \<or> key_free n) (fst acc))"
  unfolding collect_etc_hci_def
  by (auto intro!: yields_intros quiet_for_each [where P = "\<lambda>acc. list_all (\<lambda>(n, _). keys \<or> key_free n) (fst acc)"] collected_harmless)

definition table_files :: "(string \<times> string) list \<Rightarrow> bool" where
  "table_files ms \<longleftrightarrow> list_all (\<lambda>(n, _). starts_with n ''scylla/'') ms"

lemma snapshot_names: "silently (snapshot_members env data ks tag) (\<lambda>r. case r of Inl _ \<Rightarrow> True | Inr x \<Rightarrow> fst x \<noteq> [] \<and> table_files (fst x))"
proof -
  have one_file: "silently (snapshot_file env snap table x ms) table_files" if "table_files ms" for snap table x ms
    unfolding snapshot_file_def Let_def using that by (auto intro!: yields_intros simp: table_files_def)
  have table: "silently (snapshot_table env base tag d acc) (\<lambda>r. case r of Inl _ \<Rightarrow> True | Inr acc' \<Rightarrow> table_files (fst acc'))" if "table_files (fst acc)" for base d acc
    unfolding snapshot_table_def Let_def using that
    by (auto intro!: yields_intros yields_os_read sum_caseI yields_mono [OF quiet_for_each [where P = table_files, OF one_file]])
  show ?thesis unfolding snapshot_members_def Let_def
    by (auto intro!: yields_intros yields_os_read sum_caseI yields_mono [OF quiet_for_eachE [where P = "\<lambda>acc. table_files (fst acc)", OF table]] split: sum.splits simp: table_files_def)
qed

lemma meta_names:
  "silently (for_eachE (meta_member env scratch) xs acc) (\<lambda>r. case r of Inl _ \<Rightarrow> True | Inr ms \<Rightarrow> map fst ms = map fst acc @ map fst xs)"
proof (induction xs arbitrary: acc)
  case (Cons x xs)
  have one: "silently (meta_member env scratch x acc) (\<lambda>r. case r of Inl _ \<Rightarrow> True | Inr ms \<Rightarrow> map fst ms = map fst acc @ [fst x])"
    unfolding meta_member_def Let_def by (auto intro!: yields_intros yields_os_try sum_caseI split: option.split)
  show ?case
    unfolding for_eachE.simps by (rule quiet_seqE [OF one], simp, rule yields_mono [OF Cons.IH]) (auto split: sum.splits)
qed (auto intro: yields_ret)

lemma names_all: "list_all (\<lambda>(n, _). P n) zs \<longleftrightarrow> list_all P (map fst zs)"
  by (induction zs) auto

lemma archive_events:
  "yields (archive_snapshot env host opts target stamp data cluster same tag migrations schema scratch) (\<lambda>r es.
     \<exists>path. list_all (write_event path) es
       \<and> (case r of Inl _ \<Rightarrow> True
          | Inr m \<Rightarrow> es = written_out path m \<and> mf_migrations m = migrations \<and> list_all (\<lambda>(n, _). bo_ca opts \<or> key_free n) (mf_members m)))"
proof -
  let ?path = "path_join target (artefact_name cluster (sh_address host) stamp)"
  let ?H = "\<lambda>(n, _). bo_ca opts \<or> key_free n"
  have scylla: "list_all ?H ms" if "table_files ms" for ms using that by (auto simp: table_files_def list_all_iff key_free_def starts_with_iff)
  have ca: "silently (if bo_ca opts then collect_ca env (sh_certs host) else okE ([], [])) (\<lambda>r. case r of Inl _ \<Rightarrow> True | Inr x \<Rightarrow> list_all ?H (fst x))"
    unfolding collect_ca_def Let_def
    by (auto intro!: yields_intros yields_os_read sum_caseI yields_mono [OF quiet_for_each [where P = "\<lambda>_. True"]] simp: list_all_iff)
  have meta: "silently (for_eachE (meta_member env scratch) [(''meta/schema.cql'', a), (''meta/schema_migrations.json'', b), (''meta/nodetool-status.txt'', c)] acc)
      (\<lambda>r. case r of Inl _ \<Rightarrow> True | Inr ms \<Rightarrow> list_all ?H ms)" if "list_all ?H acc" for a b c acc
    by (rule yields_mono [OF meta_names]) (use that in \<open>auto simp: names_all key_free_def split: sum.splits\<close>)
  show ?thesis
    unfolding archive_snapshot_def
    apply (rule quiet_seqE [OF snapshot_names])
     apply simp
    apply (rule yields_case_prod)
    apply (rule quiet_seq [OF config_harmless])
    apply (rule yields_case_prod)
    apply (rule quiet_seqE [OF ca])
     apply simp
    apply (rule yields_case_prod)
    apply (rule quiet_seq [OF quiet_simple(4)])
    apply (rule quiet_seqE [OF meta])
      apply (simp add: scylla)
     apply simp
    apply (rule quiet_seqE [OF quiet_simple(5)])
     apply simp
    apply (rule yields_mono [OF write_artefact_events])
    apply (rule exI [of _ ?path])
    apply (auto split: sum.splits simp: names_all)
    done
qed

lemma yields_case_sidecar:
  "(sc = Absent \<Longrightarrow> yields m Q) \<Longrightarrow> (\<And>why. sc = Unreadable why \<Longrightarrow> yields (f why) Q) \<Longrightarrow> (\<And>x. sc = Sidecar x \<Longrightarrow> yields (g x) Q) \<Longrightarrow>
   yields (case sc of Absent \<Rightarrow> m | Unreadable why \<Rightarrow> f why | Sidecar x \<Rightarrow> g x) Q"
  by (cases sc) auto

lemma quiet_health: "silently (quick_health env path) (\<lambda>_. True)" "silently (size_or_zero env path) (\<lambda>_. True)"
  unfolding quick_health_def size_or_zero_def by (auto intro!: yields_intros yields_case_sidecar)

text \<open>What a scan finds: entries named as artefacts in the target, and of the cluster that was asked for.\<close>

definition found :: "string \<Rightarrow> string option \<Rightarrow> entry \<Rightarrow> bool" where
  "found target cluster e \<longleftrightarrow> en_path e = path_join target (en_name e) \<and> (truthy_str cluster \<longrightarrow> ar_cluster e = sanitize (the cluster))
     \<and> (\<exists>a. parse_artefact_name (if en_partial e then take (length (en_name e) - length partial_suffix) (en_name e) @ archive_suffix else en_name e) = Some a
          \<and> ar_cluster a = ar_cluster e \<and> ar_node a = ar_node e \<and> ar_epoch a = ar_epoch e)"

lemma scan_finds: "silently (scan_target env target cluster) (\<lambda>r. case r of Inl _ \<Rightarrow> True | Inr es \<Rightarrow> list_all (found target cluster) es)"
proof -
  have name: "silently (scan_name env target cluster n acc) (list_all (found target cluster))" if "list_all (found target cluster) acc" for n acc
    unfolding scan_name_def Let_def using that
    by (auto intro!: yields_ret yields_case_option yields_if quiet_seq [OF quiet_health(1)] quiet_seq [OF quiet_health(2)] simp: found_def new_entry_def)
  show ?thesis
    unfolding scan_target_def
    by (auto intro!: yields_intros yields_mono [OF quiet_for_each [where P = "list_all (found target cluster)", OF name]] simp: list_all_iff)
qed

definition removal_of :: "(entry \<Rightarrow> bool) \<Rightarrow> gevent \<Rightarrow> bool" where
  "removal_of P e \<longleftrightarrow> (\<exists>x p. e = G_Remove p \<and> (p = en_path x \<or> p = manifest_path_for (en_path x)) \<and> P x)"

lemma retention_removes:
  assumes "list_all P entries"
  shows "emits (removal_of (\<lambda>x. P x \<and> own owner x)) (apply_retention env entries owner keep keep_days now dry)"
proof (cases "retention_plan entries owner keep keep_days now")
  case (Some x)
  obtain retained removals where x: "x = (retained, removals)" by fastforce
  have mine: "P (fst y) \<and> own owner (fst y)" if "y \<in> set removals" for y
  proof -
    have "fst y \<in># mset (map fst removals)" using that by force
    then show ?thesis using assms unfolding plan_splits(2) [OF Some [unfolded x]] by (auto simp: list_all_iff)
  qed
  have "emits (removal_of (\<lambda>x. P x \<and> own owner x)) (remove_entry env dry y u)" if "y \<in> set removals" for y u
    unfolding remove_entry_def Let_def using mine [OF that] by (auto intro!: emits_intros simp: removal_of_def)
  then show ?thesis unfolding apply_retention_def Some x by (auto intro!: emits_intros)
qed (auto simp: apply_retention_def intro!: emits_intros)

lemma prune_removes:
  "emits (removal_of (\<lambda>x. found target (Some cluster) x \<and> own address x)) (prune_after_backup env target cluster address keep keep_days now)"
  unfolding prune_after_backup_def
  by (rule quiet_seqE [OF scan_finds]) (auto intro!: retention_removes)

text \<open>
  The clean-up after a backup removes only files of the target that are named as artefacts of this cluster and this node, and their manifests.
\<close>

theorem prunes_stay_at_home:
  "yields (prune_after_backup env target cluster address keep keep_days now)
     (\<lambda>_. list_all (\<lambda>e. \<exists>(x :: entry) p. e = G_Remove p \<and> (p = en_path x \<or> p = manifest_path_for (en_path x)) \<and> en_path x = path_join target (en_name x) \<and> ar_node x = sanitize address
        \<and> (cluster = [] \<or> ar_cluster x = sanitize cluster)))"
proof (rule yields_mono [OF prune_removes])
  fix es
  assume "list_all (removal_of (\<lambda>x. found target (Some cluster) x \<and> own address x)) es"
  then show "list_all (\<lambda>e. \<exists>(x :: entry) p. e = G_Remove p \<and> (p = en_path x \<or> p = manifest_path_for (en_path x)) \<and> en_path x = path_join target (en_name x) \<and> ar_node x = sanitize address
        \<and> (cluster = [] \<or> ar_cluster x = sanitize cluster)) es"
  proof (rule list.pred_mono_strong)
    fix e
    assume "removal_of (\<lambda>x. found target (Some cluster) x \<and> own address x) e"
    then obtain x p where e: "e = G_Remove p" "p = en_path x \<or> p = manifest_path_for (en_path x)" and f: "found target (Some cluster) x" and o: "own address x"
      unfolding removal_of_def by blast
    have "en_path x = path_join target (en_name x)" "cluster = [] \<or> ar_cluster x = sanitize cluster" using f by (auto simp: found_def)
    with e o show "\<exists>(x :: entry) p. e = G_Remove p \<and> (p = en_path x \<or> p = manifest_path_for (en_path x)) \<and> en_path x = path_join target (en_name x) \<and> ar_node x = sanitize address
        \<and> (cluster = [] \<or> ar_cluster x = sanitize cluster)"
      unfolding own_def by - (rule exI [of _ x], rule exI [of _ p], simp)
  qed
qed

lemma clear_events: "yields (clear_snapshot env ks tag) (\<lambda>_ es. \<exists>rc. es = [G_Clear ks tag rc])"
  unfolding clear_snapshot_def by (auto intro!: yields_intros)

lemma take_events: "yields (take_db_snapshot env ks tag) (\<lambda>r es. \<exists>rc. es = [G_Snapshot ks tag rc] \<and> (case r of Inl _ \<Rightarrow> rc \<noteq> 0 | Inr _ \<Rightarrow> rc = 0))"
  unfolding take_db_snapshot_def by (auto intro!: yields_intros)

definition removal_event :: "gevent \<Rightarrow> bool" where
  "removal_event e \<longleftrightarrow> (case e of G_Remove _ \<Rightarrow> True | _ \<Rightarrow> False)"

text \<open>The events of a run that took its snapshot: the artefact is written, the snapshot is cleared, and then files may be removed.\<close>

definition clean_run :: "backup_opts \<Rightarrow> sexn + backup_manifest \<Rightarrow> gevent list \<Rightarrow> bool" where
  "clean_run opts r es \<longleftrightarrow> (\<exists>tag path writing rc rest.
     es = G_Snapshot (bo_keyspace opts) tag 0 # writing @ G_Clear (bo_keyspace opts) tag rc # rest \<and> list_all (write_event path) writing \<and> list_all removal_event rest
     \<and> (rest = [] \<or> (\<exists>m. writing = written_out path m))
     \<and> (case r of Inl _ \<Rightarrow> True | Inr m \<Rightarrow> writing = written_out path m \<and> mf_migrations m \<noteq> [] \<and> list_all (\<lambda>(n, _). bo_ca opts \<or> key_free n) (mf_members m)))"

definition snapshot_run :: "backup_opts \<Rightarrow> sexn + backup_manifest \<Rightarrow> gevent list \<Rightarrow> bool" where
  "snapshot_run opts r es \<longleftrightarrow> (\<exists>tag rc why. es = [G_Snapshot (bo_keyspace opts) tag rc] \<and> rc \<noteq> 0 \<and> r = Inl why) \<or> clean_run opts r es"

definition no_prune_yet :: "backup_opts \<Rightarrow> schema_ledger \<Rightarrow> sexn + backup_manifest \<Rightarrow> gevent list \<Rightarrow> bool" where
  "no_prune_yet opts migrations r es \<longleftrightarrow>
     (\<exists>tag rc why. es = [G_Snapshot (bo_keyspace opts) tag rc] \<and> rc \<noteq> 0 \<and> r = Inl why)
     \<or> (\<exists>tag path writing rc. es = G_Snapshot (bo_keyspace opts) tag 0 # writing @ [G_Clear (bo_keyspace opts) tag rc] \<and> list_all (write_event path) writing
          \<and> (case r of Inl _ \<Rightarrow> True | Inr m \<Rightarrow> writing = written_out path m \<and> mf_migrations m = migrations \<and> list_all (\<lambda>(n, _). bo_ca opts \<or> key_free n) (mf_members m)))"

lemma snapshot_part:
  "yields (bindE (take_db_snapshot env (bo_keyspace opts) tag) (\<lambda>_. do {
      r \<leftarrow> archive_snapshot env host opts target stamp data cluster same tag migrations schema scratch;
      _ \<leftarrow> clear_snapshot env (bo_keyspace opts) tag;
      ret r })) (no_prune_yet opts migrations)"
  apply (rule yields_bindE, rule yields_mono [OF take_events])
  apply (elim exE conjE)
  apply (rule sum_caseI)
   apply (simp add: no_prune_yet_def)
  apply (rule yields_bind, rule yields_mono [OF archive_events])
  apply (elim exE conjE)
  apply (rule yields_bind, rule yields_mono [OF clear_events])
  apply (elim exE)
  apply (rule yields_ret)
  apply (simp add: no_prune_yet_def)
  apply blast
  done

lemma prune_part:
  assumes "no_prune_yet opts migrations (Inr m) pre" and "migrations \<noteq> []"
  shows "yields (bindE (if p then bindE (prune_after_backup env target cluster address keep keep_days now) (\<lambda>_. okE ()) else okE ()) (\<lambda>_. okE m))
    (\<lambda>r es. snapshot_run opts r (pre @ es))"
proof -
  obtain tag path rc where pre: "pre = G_Snapshot (bo_keyspace opts) tag 0 # written_out path m @ [G_Clear (bo_keyspace opts) tag rc]" "list_all (write_event path) (written_out path m)"
      "mf_migrations m \<noteq> []" "list_all (\<lambda>(n, _). bo_ca opts \<or> key_free n) (mf_members m)"
    using assms by (auto simp: no_prune_yet_def)
  have run: "snapshot_run opts r (pre @ es)" if "list_all removal_event es" "r = Inr m \<or> (\<exists>why. r = Inl why)" for r es
  proof -
    have "clean_run opts r (pre @ es)" unfolding clean_run_def
      by (intro exI [of _ tag] exI [of _ path] exI [of _ "written_out path m"] exI [of _ rc] exI [of _ es]) (use pre that in auto)
    then show ?thesis by (simp add: snapshot_run_def)
  qed
  have removals: "yields (prune_after_backup env target cluster address keep keep_days now) (\<lambda>_. list_all removal_event)"
    by (rule yields_mono [OF prune_removes]) (auto simp: list_all_iff removal_of_def removal_event_def)
  show ?thesis
    by (auto intro!: yields_intros sum_caseI yields_mono [OF removals] run)
qed

lemma backup_runs:
  "yields (backup env host target opts) (\<lambda>r es. (es = [] \<and> (\<exists>why. r = Inl why)) \<or> snapshot_run opts r es)"
proof -
  let ?Q = "\<lambda>r es. (es = [] \<and> (\<exists>why. r = Inl why)) \<or> snapshot_run opts r es"
  have rounds: "snapshot_run (opts\<lparr>bo_round := x\<rparr>) = snapshot_run opts" for x
  proof -
    have same: "bo_keyspace (opts\<lparr>bo_round := x\<rparr>) = bo_keyspace opts" "bo_ca (opts\<lparr>bo_round := x\<rparr>) = bo_ca opts" by simp_all
    show ?thesis unfolding fun_eq_iff snapshot_run_def clean_run_def same by simp
  qed
  have core: "yields (bindE (bindE (take_db_snapshot env (bo_keyspace o') tag) (\<lambda>_. do {
        r \<leftarrow> archive_snapshot env host o' target stamp data cluster same tag migrations schema scratch;
        _ \<leftarrow> clear_snapshot env (bo_keyspace o') tag;
        ret r }))
      (\<lambda>m. bindE (if p then bindE (prune_after_backup env target cluster address keep keep_days now) (\<lambda>_. okE ()) else okE ()) (\<lambda>_. okE m))) ?Q"
    if "migrations \<noteq> []" "o' = opts\<lparr>bo_round := x\<rparr>" for o' tag stamp data cluster same migrations schema scratch p address keep keep_days now x
  proof (rule yields_bindE, rule yields_mono [OF snapshot_part], rule sum_caseI)
    fix r es w assume n: "no_prune_yet o' migrations r es" and r: "r = Inl w"
    then have "snapshot_run o' (Inl w) es" unfolding no_prune_yet_def snapshot_run_def clean_run_def by fastforce
    then show "?Q (Inl w) es" using that rounds by simp
  next
    fix r es m assume n: "no_prune_yet o' migrations r es" and r: "r = Inr m"
    show "yields (bindE (if p then bindE (prune_after_backup env target cluster address keep keep_days now) (\<lambda>_. okE ()) else okE ()) (\<lambda>_. okE m)) (\<lambda>b es'. ?Q b (es @ es'))"
      by (rule yields_mono [OF prune_part [of o' migrations]]) (use n r that rounds in auto)
  qed
  show ?thesis
    unfolding backup_def Let_def
    apply (rule yields_bind, rule yields_look)
    apply (rule quiet_seq [OF quiet_simple(2)])
    apply (rule quiet_seqE [OF quiet_simple(8)])
     apply simp
    apply (rule yields_bind, rule yields_look)
    apply (rule yields_case_sum)
     apply (rule yields_ret)
     apply simp
    apply (rule yields_case_prod)
    apply (rule quiet_seqE [OF quiet_simple(1)])
     apply simp
    apply (rule yields_if)
     apply (rule yields_ret)
     apply simp
    apply (rule quiet_seqE [OF quiet_simple(3)])
     apply simp
    apply (rule yields_if)
     apply (rule yields_ret)
     apply simp
    apply (rule yields_bindE, rule yields_os_read, rule sum_caseI)
     apply simp
    apply (unfold append_Nil)
    apply (erule core)
    apply (rule refl)
    done
qed

text \<open>
  C21. A backup that does not take its snapshot changes nothing; one that takes it issues the command that clears it, on every path. In between it writes only the partial, the artefact and its manifest, and removes only the
  partial; older artefacts are removed only after the new one and its manifest are complete. Success means exactly the writing of the artefact and then of the manifest that is returned, with the
  ledger of the schema, and without key material unless it was asked for.
\<close>

theorem backups_clean_up:
  "yields (backup env host target opts) (\<lambda>r es. (es = [] \<and> (\<exists>why. r = Inl why)) \<or> snapshot_run opts r es)"
  by (rule backup_runs)

section \<open>What the commands report\<close>

definition is_peer :: "gevent \<Rightarrow> bool" where
  "is_peer e \<longleftrightarrow> (case e of G_Peer _ _ \<Rightarrow> True | _ \<Rightarrow> False)"

lemma backup_no_peers: "emits (\<lambda>e. \<not> is_peer e) (backup env host target opts)"
proof (rule yields_mono [OF backup_runs])
  fix r es
  assume "(es = [] \<and> (\<exists>why. r = Inl why)) \<or> snapshot_run opts r es"
  moreover have "write_event path e \<Longrightarrow> \<not> is_peer e" "removal_event e \<Longrightarrow> \<not> is_peer e" for path e
    by (cases e; simp add: write_event_def removal_event_def is_peer_def)+
  ultimately show "list_all (\<lambda>e. \<not> is_peer e) es"
    by (auto simp: snapshot_run_def clean_run_def list_all_iff is_peer_def [of "G_Snapshot _ _ _"] is_peer_def [of "G_Clear _ _ _"]) blast+
qed

lemma peer_events:
  "yields (for_each (peer_backup env command timeout) peers failures)
    (\<lambda>fs es. \<exists>rcs. es = map (\<lambda>(ip, rc). G_Peer ip rc) rcs \<and> map fst rcs = peers \<and> fs = failures @ map fst (filter (\<lambda>p. snd p \<noteq> 0) rcs))"
proof (induction peers arbitrary: failures)
  case (Cons ip peers)
  have one: "yields (peer_backup env command timeout ip failures) (\<lambda>fs es. \<exists>rc. es = [G_Peer ip rc] \<and> fs = (if rc \<noteq> 0 then failures @ [ip] else failures))"
    unfolding peer_backup_def by (auto intro!: yields_intros)
  show ?case unfolding for_each.simps
  proof (rule yields_bind, rule yields_mono [OF one], elim exE conjE)
    fix fs es rc assume es: "es = [G_Peer ip rc]" and fs: "fs = (if rc \<noteq> 0 then failures @ [ip] else failures)"
    show "yields (for_each (peer_backup env command timeout) peers fs)
      (\<lambda>fs' es'. \<exists>rcs. es @ es' = map (\<lambda>(ip, rc). G_Peer ip rc) rcs \<and> map fst rcs = ip # peers \<and> fs' = failures @ map fst (filter (\<lambda>p. snd p \<noteq> 0) rcs))"
    proof (rule yields_mono [OF Cons.IH], elim exE conjE)
      fix fs' es' rcs
      assume "es' = map (\<lambda>(ip, rc). G_Peer ip rc) rcs" "map fst rcs = peers" "fs' = fs @ map fst (filter (\<lambda>p. snd p \<noteq> 0) rcs)"
      then show "\<exists>rcs. es @ es' = map (\<lambda>(ip, rc). G_Peer ip rc) rcs \<and> map fst rcs = ip # peers \<and> fs' = failures @ map fst (filter (\<lambda>p. snd p \<noteq> 0) rcs)"
        by (intro exI [of _ "(ip, rc) # rcs"]) (simp add: es fs)
    qed
  qed
qed (auto intro: yields_ret)

text \<open>Whom the backup asks, and what it read to know.\<close>

definition asked_peers :: "bool \<Rightarrow> string \<Rightarrow> string list \<Rightarrow> gevent list \<Rightarrow> bool" where
  "asked_peers everyone me ps es \<longleftrightarrow>
     (if everyone
      then \<exists>cfg. es = [G_Cluster cfg] \<and> ps = (case cfg of Inl _ \<Rightarrow> [] | Inr (_, ips) \<Rightarrow> [ip. Some ip \<leftarrow> ips, ip \<noteq> [], ip \<noteq> me])
      else es = [] \<and> ps = [])"

lemma peers_asked: "yields (if everyone then peer_ips env me else ret []) (asked_peers everyone me)"
proof -
  have "map the (filter (\<lambda>ip. truthy_str ip \<and> ip \<noteq> Some me) ips) = [ip. Some ip \<leftarrow> ips, ip \<noteq> [], ip \<noteq> me]" for ips
    by (induction ips) (auto simp: truthy_str_def split: option.splits)
  then show ?thesis
    unfolding peer_ips_def by (cases everyone) (auto simp: asked_peers_def intro!: yields_intros split: sum.splits)
qed

lemma quiet_resolve: "silently (resolve_target env explicit from_env) (\<lambda>_. True)" "silently (resolve_retention env cached keep keep_days) (\<lambda>_. True)"
proof -
  show "silently (resolve_target env explicit from_env) (\<lambda>_. True)"
    unfolding resolve_target_def by (auto intro!: yields_ret yields_if quiet_seq [OF quiet_simple(7)] split: sum.split sexn.split option.split)
  have "silently (if keep = None \<or> keep_days = None then read_settings env cached else okE []) (\<lambda>_. True)"
    unfolding read_settings_def by (auto intro!: yields_ret yields_if yields_case_option quiet_simple [simplified])
  then show "silently (resolve_retention env cached keep keep_days) (\<lambda>_. True)"
    unfolding resolve_retention_def Let_def by (rule quiet_seq) (auto intro!: yields_ret split: sum.split sexn.split)
qed

text \<open>
  C25. The backup of all nodes reports success exactly when the backup of the node itself returned a manifest and every peer answered with success. With \<open>--all-nodes\<close> the peers asked are
  all other addresses that \<open>cluster.json\<close>, read after the backup of the node itself, then lists, in its order, or none when it could not be read; without, none. Where an exception leaves the command, no peer
  has been asked.
\<close>

theorem backups_report_truthfully:
  "yields (cmd_backup env host from_env args) (\<lambda>r es.
     case r of
       Inl _ \<Rightarrow> list_all (\<lambda>e. \<not> is_peer e) es
     | Inr n \<Rightarrow> \<exists>pre local asked rcs. es = pre @ G_Local local # asked @ map (\<lambda>(ip, rc). G_Peer ip rc) rcs \<and> list_all (\<lambda>e. \<not> is_peer e) pre
                \<and> (if ba_all args
                   then \<exists>cfg. asked = [G_Cluster cfg] \<and> map fst rcs =
                     (case cfg of Inl _ \<Rightarrow> [] | Inr (_, ips) \<Rightarrow> [ip. Some ip \<leftarrow> ips, ip \<noteq> [], ip \<noteq> sh_address host])
                   else asked = [] \<and> rcs = [])
                \<and> n = (if (case local of Inl _ \<Rightarrow> False | Inr _ \<Rightarrow> True) \<and> list_all (\<lambda>p. snd p = 0) rcs then 0 else 1))"
  (is "yields _ ?Q")
proof -
  have stamp: "silently (if truthy_str (ba_tag args) then ret (the (ba_tag args)) else do { now \<leftarrow> look (sg_now env); ret (second_stamp now) }) (\<lambda>_. True)"
    by (auto intro!: yields_intros)
  have fan: "yields (do {
        peers \<leftarrow> (if ba_all args then peer_ips env (sh_address host) else ret []);
        failures \<leftarrow> for_each (peer_backup env command timeout) peers (case local of Inl _ \<Rightarrow> [sh_address host] | Inr _ \<Rightarrow> []);
        okE (if failures = [] then 0 else 1) }) (\<lambda>r es'. ?Q r (pre @ G_Local local # es'))"
    if "list_all (\<lambda>e. \<not> is_peer e) pre" for command timeout local pre
  proof (rule yields_bind, rule yields_mono [OF peers_asked], rule yields_bind, rule yields_mono [OF peer_events], elim exE conjE)
    fix ps asked fs es rcs
    assume who: "asked_peers (ba_all args) (sh_address host) ps asked"
      and r: "es = map (\<lambda>(ip, rc). G_Peer ip rc) rcs" "map fst rcs = ps" "fs = (case local of Inl _ \<Rightarrow> [sh_address host] | Inr _ \<Rightarrow> []) @ map fst (filter (\<lambda>p. snd p \<noteq> 0) rcs)"
    have "(fs = []) = ((case local of Inl _ \<Rightarrow> False | Inr _ \<Rightarrow> True) \<and> list_all (\<lambda>p. snd p = 0) rcs)"
      by (cases local) (auto simp: r(3) filter_empty_conv list_all_iff)
    then show "yields (okE (if fs = [] then 0 else 1)) (\<lambda>r es'. ?Q r (pre @ G_Local local # asked @ es @ es'))"
      using who
      apply (intro yields_ret)
      apply (unfold sum.case asked_peers_def)
      apply (rule exI [of _ pre], rule exI [of _ local], rule exI [of _ asked], rule exI [of _ rcs])
      apply (use that r(2) in \<open>auto simp: r(1) split: if_splits\<close>)
      done
  qed
  have tail: "yields (case local of
         Inl (Value_Error why) \<Rightarrow> raiseE (Value_Error why)
       | Inl (Os_Error why) \<Rightarrow> raiseE (Os_Error why)
       | _ \<Rightarrow> do {
           let failed = (case local of Inl _ \<Rightarrow> [sh_address host] | Inr _ \<Rightarrow> []);
           peers \<leftarrow> (if ba_all args then peer_ips env (sh_address host) else ret []);
           failures \<leftarrow> for_each (peer_backup env command timeout) peers failed;
           okE (if failures = [] then 0 else 1) }) (\<lambda>r es'. ?Q r (pre @ [G_Local local] @ es'))"
    if "list_all (\<lambda>e. \<not> is_peer e) pre" for command timeout local pre
  proof -
    consider (saga) why where "local = Inl (Saga_Error why)" | (ok) m where "local = Inr m" | (other) why where "local = Inl (Value_Error why) \<or> local = Inl (Os_Error why)"
      by (cases local) (metis sexn.exhaust, blast)
    then show ?thesis
    proof cases
      case saga
      show ?thesis using fan [OF that, of command timeout local] unfolding saga sum.case sexn.case Let_def append.simps .
    next
      case ok
      show ?thesis using fan [OF that, of command timeout local] unfolding ok sum.case Let_def append.simps .
    next
      case other
      then show ?thesis using that by (auto intro!: yields_ret simp: is_peer_def [of "G_Local _"])
    qed
  qed
  show ?thesis
    unfolding cmd_backup_def
    apply (rule quiet_seqE [OF quiet_resolve(1)])
     apply simp
    apply (rule yields_case_prod)
    apply (rule quiet_seqE [OF quiet_resolve(2)])
     apply simp
    apply (rule yields_case_prod)
    apply (rule quiet_seq [OF stamp])
    apply (rule yields_bind, rule yields_mono [OF backup_no_peers])
    apply (rule yields_bind, rule yields_mark)
    apply (erule tail)
    done
qed

text \<open>Clearing leftover snapshots touches only those that backups took, so that the snapshots the database keeps of dropped tables stay.\<close>

theorem snapshots_of_others_stay:
  "yields (cmd_snapshots env prune) (\<lambda>_. list_all (\<lambda>e. \<exists>ks tag rc. e = G_Clear ks tag rc \<and> prune \<and> starts_with tag ''saga-''))"
proof -
  let ?P = "\<lambda>e. \<exists>ks tag rc. e = G_Clear ks tag rc \<and> prune \<and> starts_with tag ''saga-''"
  show ?thesis
    unfolding cmd_snapshots_def Let_def
  proof (rule quiet_seqE [OF quiet_simple(9)], simp, intro all_events.of_bind all_events.of_ret yields_if all_events.of_for_each)
    fix rows :: "(string \<times> string \<times> string) list" and tag
    assume "prune" "tag \<in> set (sort (remdups (filter (\<lambda>t. starts_with t snapshot_prefix) (map fst rows))))"
    then show "emits ?P (clear_snapshot env ks tag)" for ks
      by (intro yields_mono [OF clear_events]) (auto simp: snapshot_prefix_def)
  qed
qed

section \<open>Where the runs go wrong\<close>

definition lab_manifest :: backup_manifest where
  "lab_manifest = \<lparr>mf_bytes = Some 1, mf_sha = None, mf_members = [], mf_keyspace = None, mf_migrations = [], mf_created = [], mf_round = [], mf_snapshot = [], mf_cluster = [],
     mf_node = [], mf_tables = [], mf_ca = False, mf_local = False\<rparr>"

definition lab_saga :: "unit saga_env" where
  "lab_saga = \<lparr>sg_list = \<lambda>_ w. (Inr [''saga-a-n-20240101T000000Z.tar.gz'', ''saga-b-n-20200101T000000Z.tar.gz''], w), sg_isdir = \<lambda>_ w. (True, w), sg_isfile = \<lambda>_ w. (True, w),
     sg_islink = \<lambda>_ w. (False, w), sg_exists = \<lambda>_ w. (True, w), sg_access = \<lambda>_ w. (True, w), sg_dev = \<lambda>_ w. (Inr 1, w), sg_walk = \<lambda>_ w. ([], w),
     sg_sidecar = \<lambda>_ w. (Sidecar lab_manifest, w), sg_size = \<lambda>_ w. (Inr 1, w), sg_content = \<lambda>_ w. (Inr ''x'', w), sg_tar = \<lambda>_ w. (([], None), w), sg_remove = \<lambda>_ w. (None, w),
     sg_mkdtemp = \<lambda>_ w. (Inr ''/tmp/s'', w), sg_makedirs = \<lambda>_ w. (None, w), sg_copy = \<lambda>_ _ w. (None, w), sg_write = \<lambda>_ _ w. (None, w), sg_pack = \<lambda>_ _ _ w. (None, w),
     sg_chmod = \<lambda>_ w. (None, w), sg_replace = \<lambda>_ _ w. (None, w), sg_dump = \<lambda>_ _ w. (Some ''No space left on device'', w), sg_extract = \<lambda>_ _ w. (None, w),
     sg_mounts = \<lambda>w. ((1, None), w), sg_nodetool = \<lambda>_ w. ((0, [], []), w), sg_cqlsh = \<lambda>_ w. ((0, [], []), w), sg_rows = \<lambda>_ w. (Inr [], w),
     sg_cluster = \<lambda>w. (Inr (Some ''a'', []), w), sg_peer = \<lambda>_ _ _ w. ((0, [], []), w), sg_now = \<lambda>w. (1800000000, w), sg_dumps = \<lambda>_. []\<rparr>"

text \<open>The command scans the target for every cluster, and a plan knows only nodes: the artefact of another cluster with a node of the same address goes.\<close>

lemma prune_reaches_other_clusters:
  "map_option (map (ar_cluster \<circ> fst) \<circ> snd) (retention_plan [(lab_entry ''x'' 200)\<lparr>ar_cluster := ''a''\<rparr>, (lab_entry ''y'' 10)\<lparr>ar_cluster := ''b''\<rparr>] ''n1'' 1 30 25920000) = Some [''b'']"
  by code_simp

text \<open>A manifest that cannot be written leaves the archive under its final name.\<close>

lemma failed_manifest_leaves_the_archive:
  "(case run_state (write_artefact lab_saga [] path lab_manifest) \<lparr>hidden = (), trace = [], memo = None\<rparr> of (r, w) \<Rightarrow>
      r = Inl (Os_Error ''No space left on device'') \<and> G_Publish path None \<in> set (trace w) \<and> (\<forall>p. G_Remove p \<notin> set (trace w)))"
  by (simp add: write_artefact_def pack_and_publish_def os_try_def os_err_def os_read_def run_rules lab_saga_def Let_def)

text \<open>The command line for the peers is made of the target as it is, which a shell at the other end takes apart.\<close>

lemma peer_commands_are_not_quoted:
  "peer_command \<lparr>ba_target = None, ba_keyspace = ''hydra'', ba_tag = None, ba_all = True, ba_ca = False, ba_keep = None, ba_keep_days = None, ba_no_prune = False, ba_same = False, ba_timeout = 1800\<rparr>
     ''/mnt/b; reboot'' ''r'' 7 30 = ''/usr/local/bin/saga backup --keyspace hydra --target /mnt/b; reboot --tag r --keep 7 --keep-days 30''"
  by code_simp

end
