(* ===== verification/Spec2Isabelle.thy ===== *)
theory Spec2Isabelle
  imports Failover Replication Schema_Migrations Rauru_Daemon Mipha_Failover Mipha_Watchdog Catalyst_Ticks Vali_Maintenance Spark_Live Urbosa_Reclaim Saga_Runs
begin

text \<open>
  Helios-HCI: a verification library for the data protection and high availability core of the cluster.

  \<^bold>\<open>The program.\<close> Helios is a hyperconverged cluster: hosts run guests on virtual disks that the storage
  engine Sidon serves, each disk owned by one host at one epoch; the state of the cluster is in Hydra (a Cassandra
  family database reached through the gateway Daruk), coordination is in ZooKeeper, and the agent spark-daemon runs on every host.
  Its own Python code under \<open>src/\<close> decides what happens to the data. The parts modelled here are

  \<^item> \<open>helios_cql.py\<close>: the way statements reach the database, and what a conditional one may not do (theory \<open>Cql\<close>), and \<open>run_lwt\<close>,
    which reads the gateway's answer to a compare-and-swap (\<open>Daruk_Clients\<close>);
  \<^item> \<open>daruk.py\<close>: the gateway, its table of compare-and-swap operations, the binding of a request and the answers (\<open>Daruk\<close>, with
    \<open>Doubles\<close> for the arithmetic of a time), what the operations do to a database that keeps the contract of conditional
    statements (\<open>Daruk_Store\<close>), and the numbers that only rise (\<open>Daruk_Ratchet\<close>);
  \<^item> \<open>catalyst.py\<close>: the task engine, its queues, its API, the scheduler, the dispatch loop and the recovery of tasks (\<open>Catalyst\<close>), and the
    schedulers of several nodes over one gateway (\<open>Catalyst_Ticks\<close>);
  \<^item> \<open>helios_schema.py\<close>: task rows and the sequence numbers of tasks (\<open>Task_Rows\<close>), the schema migrations, their ledger and their
    lock (\<open>Schema\<close>), and the migrations as they are declared (\<open>Schema_Migrations\<close>);
  \<^item> \<open>helios_zk.py\<close>: the election of a leader per service and the candidacy that outlives its session (\<open>Election\<close>);
  \<^item> \<open>helios_snapshots.py\<close>: the snapshot policy, what is due and what retention may delete (\<open>Snapshot_Policy\<close>, with \<open>Utc\<close> for
    time stamps and \<open>Retention\<close> for the window), and the runner that carries it out, rolls back and logs tasks (\<open>Cluster_Env\<close>,
    \<open>Snapshot_Runner\<close>);
  \<^item> \<open>rauru_protection.py\<close>: protection domains, the plan of a consistent set (\<open>Protection_Plan\<close>, \<open>Domain_Claims\<close>), the runner
    that pauses guests, takes, completes, abandons, prunes, recovers and restores sets (\<open>Protection_Runner\<close>), and what it
    guarantees (\<open>Protection_Safety\<close>);
  \<^item> \<open>rauru_replication.py\<close>: manifests, deltas and the transfer of snapshots to another site (\<open>Replication_Plan\<close>, \<open>Replication\<close>,
    \<open>Sha256\<close> for the digest);
  \<^item> \<open>rauru_failover.py\<close>: the state machine of a replicated set between two sites (\<open>Failover\<close>);
  \<^item> \<open>rauru.py\<close>: the daemon that runs the snapshot policy and the protection domains behind the election (\<open>Rauru_Daemon\<close>);
  \<^item> \<open>mipha.py\<close>: the fencing configuration (\<open>Mipha_Config\<close>), fencing of a host (\<open>Mipha_Fence\<close>), the control loop that fails hosts over and takes them back
    (\<open>Mipha_Failover\<close>), and the watchdog by which a host fences itself (\<open>Mipha_Watchdog\<close>);
  \<^item> \<open>vali.py\<close>: where a guest may run, its start, stop, power and migration, with the ids of its disks from \<open>helios_sidon.py\<close> (\<open>Vali\<close>), and taking a
    host out of service: the quorum gate, the maintenance lock, the tasks that enter and leave maintenance and the request for them
    (\<open>Vali_Maintenance\<close>), and changes of a running guest, its processors, memory, CD-ROMs, interfaces and disks (\<open>Vali_Live\<close>, with \<open>Md5\<close> for the address of an
    interface and \<open>Json_Read\<close> for reading JSON);
  \<^item> \<open>spark_daemon_decoded.py\<close>: the host's side of such a change, the plan of its commands and the run of them, with the device XML of \<open>helios_sidon.py\<close>
    (\<open>Spark_Live\<close>);
  \<^item> \<open>urbosa.py\<close>: the pool of transit links between the routers of the overlay network (\<open>Urbosa\<close>) and the collector that removes from a host what the database no longer
    asks for (\<open>Urbosa_Reclaim\<close>);
  \<^item> \<open>saga.py\<close>: backups of the database and the configuration: the names of artefacts, retention, the verification of an artefact and the comparison of schemas
    (\<open>Saga\<close>), the backup of a node and of all nodes, the restore and the commands (\<open>Saga_Runs\<close>).

  \<^bold>\<open>How they interact.\<close> The daemon calls the candidacy of \<open>Election\<close>, then \<open>run\<close> of \<open>Snapshot_Runner\<close> and \<open>run_domains\<close> of
  \<open>Protection_Runner\<close>, which share the environment, the statements and the task log of \<open>Cluster_Env\<close>; those use the statements and the
  sequence claim of \<open>Task_Rows\<close> and the escaping of \<open>Cql\<close>. Retention of sets honours what \<open>Replication\<close> still pins. The failover of
  \<open>Mipha_Failover\<close> calls the same candidacy and the ladder of \<open>Mipha_Fence\<close>, and reads the status that \<open>Mipha_Watchdog\<close>
  announces. The storage rung of the ladder, the sequence numbers of tasks and the claim of a scheduled tick are requests to the gateway:
  \<open>Daruk_Clients\<close> puts the first two on top of \<open>do_post\<close> of \<open>Daruk\<close>, \<open>Catalyst_Ticks\<close> the third, and \<open>Vali\<close> the claim of a guest by its start. Vali runs as
  a worker of Catalyst; an evacuation submits the moves of the guests as tasks of its own and waits for them. A live change is a request of \<open>Vali_Live\<close> to \<open>Spark_Live\<close> on the guest's host: its body is written as JSON
  there and read and planned here.

  \<^bold>\<open>How code becomes definitions.\<close> A function of the source is a definition of the same name where the library leaves it free, a
  class is a record of its fields, with its methods as functions that take and return it. What the source injects or calls outside itself (database, Sidon,
  libvirt, spark-daemon, the ensemble, a clock, a file) is a field of an environment record, a function of a hidden state of any type,
  so that nothing is assumed of it and a theorem holds for all its answers; where more is needed it is a hypothesis of the theorem: what a database keeps of
  conditional statements (\<open>serves\<close>) or of the schema's ledger (\<open>keeps_ledger\<close>), that the clock does not go back (\<open>steady\<close>), that the driver of a failover, which the
  source does not have, starts and stops guests as it is told (\<open>obeys\<close>), each shown to hold of a small instance. A program is a value of the state monad of \<open>Effects\<close>:
  \<open>act\<close> makes a call and leaves an event in a trace, \<open>look\<close> makes one that leaves none, \<open>inside\<close> runs one program within
  another. An exception is the left side of a sum. Query results are typed rows; what parses them is modelled where
  the parsing is the program's own (\<open>parse_applied\<close>, \<open>lwt_applied\<close>). Text is a list of characters below 256, numbers
  are integers as in Python, times of the daemons are reals, the argument of the random jitter is a 53 bit word.

  \<^bold>\<open>What the lemmas show.\<close> \<open>yields m Q\<close> says that whatever the environment answers, the result and the events of \<open>m\<close> satisfy \<open>Q\<close>;
  its rules follow the program text, and the locale \<open>trace_property\<close> carries a property of event lists through a whole program. It is
  interpreted for every such property (released guests, complete sets, good passes, released starts, ...). \<open>Machines\<close> has
  reachability and the locale \<open>safe_machine\<close>, interpreted for the two-site machine of \<open>Failover\<close> with a driver that obeys. Four interfaces between the
  components are locales: \<open>placements\<close> (the claim of a guest, interpreted on the gateway over any database that serves it), \<open>ratchet\<close> (an operation of the gateway whose number only rises, interpreted for epochs, drains, sequence numbers,
  jobs and checks), \<open>claim_table\<close> (the swaps the storage rung relies on) and \<open>cas_counter\<close> (those of the sequence claim), the last two
  interpreted on the calls through the gateway.
  The properties are

  \<^item> for data protection: paused guests are resumed, sets recorded as complete are complete, restores and deletions look first, a pass deletes
    nothing it has not looked at twice and reports what it did, plans are well formed, retention keeps what is needed;
  \<^item> for the gateway: a request runs its own statement once with the values it names, a guarded column changes only from the value that was
    expected, answers are true, a disk has one owner per epoch as far as the conditional operations go, and values fit their placeholders;
  \<^item> for the task engine: an accepted task is recorded, a sweep replays what is pending and fails only what was interrupted, a scheduled job
    runs on a claimed tick, and no tick is taken twice, even by two leaders;
  \<^item> for replication: what is published was sent, the manifest is the block map, the digest covers it, the delta ships what is missing;
  \<^item> for two sites: no event that claims to be safe orders a second copy of a guest, and there is always a way back;
  \<^item> for high availability: a fence is proven before it is believed, a storage fence that confirms has taken every disk away, also among other clients, fencing ends unless its timeout is
    infinite, failover needs three strikes,
    guests are restarted only after their release from a fenced host, a returning host drops only what lives elsewhere, and a host
    calls itself FENCED only when it is;
  \<^item> for guests: a guest is booted only where it was claimed and with its disks attached, two starts that read the same placement do not both move it,
    and a migration moves a locked guest onto disks that forward, takes them over after the commit and gives the lock back;
  \<^item> for maintenance: the gate is exact for the quorum of every partition, a host is stopped only behind it and emptied, a request
    holds the lock or gives it back, and a host returns only with its services up, within a bounded wait;
  \<^item> for live changes: a running guest is changed under its lock and its row follows what was done, what the row holds is read back, every request for a
    disk or a CD-ROM of a guest with a name of ordinary length is understood by the host, the commands are inert and stay within what the domain has, and the answer says what ran;
  \<^item> for the overlay network: a transit slot is used only when the database granted it, two slots share no address, the collector removes only what is free
    to go and nothing that is configured, and nothing at all when the routers or segments could not be read;
  \<^item> for backups: names are read back, retention removes only old artefacts of the node itself and never the last good ones, a verified artefact is whole, the
    database snapshot of a backup is cleared on every path, key material stays out unless asked for, success is reported only when every node that the cluster file lists succeeded, a
    restore loads only from a verified artefact into a schema that matches, and snapshots of others stay;
  \<^item> for the leader: the oldest ballot wins, only the leader works, and the loop keeps its pace;
  \<^item> for the schema: it changes under the lock, the ledger is true and is read back, \<open>ensure_schema\<close> brings the ledger up to date or says why not, also beside other nodes,
    and the declared migrations can be repeated;
  \<^item> for statements: no value leaves its literal, a statement is executed once, a claimed sequence number is fresh, and the replication
    factor keeps a quorum.

  Some theorems state a behaviour the code's own comments speak against: a failover that cannot read the guests ends as
  completed (\<open>unreadable_guests_are_given_up\<close>), an interrupted publication is stuck (\<open>interrupted_transfer_is_stuck\<close>), a suspend whose answer is
  lost is not undone (\<open>lost_suspend_is_not_undone\<close>), a failed read costs a ballot (\<open>unreadable_ensemble_costs_the_ballot\<close>), and those named
  in \<open>Failover\<close>, \<open>Task_Rows\<close>, \<open>Replication_Plan\<close>, \<open>Protection_Plan\<close>, \<open>Mipha_Config\<close>, \<open>Daruk\<close>, \<open>Daruk_Store\<close>,
  \<open>Catalyst\<close>, \<open>Vali\<close>, \<open>Vali_Maintenance\<close>, \<open>Vali_Live\<close>, \<open>Spark_Live\<close>, \<open>Mipha_Fence\<close>, \<open>Mipha_Watchdog\<close>, \<open>Urbosa_Reclaim\<close> and \<open>Saga_Runs\<close>.

  \<^bold>\<open>Bounds and fuel.\<close> Loops of the source over a list or a fixed number of attempts are structural. The wait for a chassis to power
  off depends on a clock and takes fuel; \<open>fencing_ends\<close> gives a number of looks that suffices for a finite timeout; so does \<open>leaving_ends\<close> for
  the wait for a host that leaves maintenance. The endless loops of the daemons are stated for
  every number of rounds (\<open>daemon_rounds\<close>, \<open>ha_passes\<close>, \<open>watch_passes\<close>, \<open>engine_run\<close>, \<open>cluster_passes\<close>).

  \<^bold>\<open>Not modelled.\<close> Log lines; the transport (HTTP, TLS, sockets, the ZooKeeper wire protocol and its watches, the database driver); the
  command line of the protection domains; Mipha's
  nightly healing; of Vali the domain XML, the balancing loop and its HTTP server; of spark-daemon what is not a live change; of the networks (\<open>urbosa.py\<close>)
  the loop that builds links and routes by shell commands and the firewall rules; of the backups (\<open>saga.py\<close>) the option parser and the commands that list artefacts and set
  the target. The certificates (\<open>impa.py\<close>) and updates (\<open>hylia.py\<close>) have decisions of their own that are left for later; the console, the operator tools and the provisioning scripts run commands and
  serve pages over the modules above.
\<close>

end
